(* ===== verification/Prelude.thy ===== *)
theory Prelude
  imports Complex_Main "HOL-Library.AList" "HOL-Library.Sublist" "HOL-Library.Multiset"
begin

text \<open>
  The vocabulary every component of the development shares: Python dictionaries as
  association lists in insertion order, exceptions as values of a sum type, JSON-like
  values, stable descending sorts, and two interfaces stated as locales: a keyed store
  (read after write, frame and key laws) and a transition system with an inductive
  invariant.
\<close>

named_theorems dict_simps "laws of dictionaries as association lists"
named_theorems result_simps "laws of the exception sum type"

section \<open>Exceptions\<close>

text \<open>
  A raised exception is its class name and its message: the code reads both
  (\<open>type(exc).__name__\<close> and \<open>str(exc)\<close>). An operation that may raise
  returns \<open>Inl\<close> of the exception or \<open>Inr\<close> of its value.
\<close>

datatype exn = Exn (exn_type: string) (exn_msg: string)

type_synonym 'a result = "exn + 'a"

definition bindr :: "'a result \<Rightarrow> ('a \<Rightarrow> 'b result) \<Rightarrow> 'b result" where
  "bindr r f = (case r of Inl e \<Rightarrow> Inl e | Inr x \<Rightarrow> f x)"

lemma bindr_simps [simp, result_simps]:
  "bindr (Inl e) f = Inl e"
  "bindr (Inr x) f = f x"
  by (simp_all add: bindr_def)

lemma bindr_Inr_iff [result_simps]:
  "bindr r f = Inr y \<longleftrightarrow> (\<exists>x. r = Inr x \<and> f x = Inr y)"
  by (cases r) auto

lemma bindr_Inl_iff [result_simps]:
  "bindr r f = Inl e \<longleftrightarrow> r = Inl e \<or> (\<exists>x. r = Inr x \<and> f x = Inl e)"
  by (cases r) auto

section \<open>Dictionaries\<close>

text \<open>
  A Python dictionary keeps insertion order: assigning to a present key keeps its
  position, a new key goes to the end. \<open>AList.update\<close> and \<open>AList.delete\<close> do
  exactly that; well-formed dictionaries have distinct keys.
\<close>

type_synonym ('k, 'v) dict = "('k \<times> 'v) list"

abbreviation dget :: "('k, 'v) dict \<Rightarrow> 'k \<Rightarrow> 'v option" where
  "dget d k \<equiv> map_of d k"

abbreviation dset :: "'k \<Rightarrow> 'v \<Rightarrow> ('k, 'v) dict \<Rightarrow> ('k, 'v) dict" where
  "dset k v d \<equiv> AList.update k v d"

abbreviation ddel :: "'k \<Rightarrow> ('k, 'v) dict \<Rightarrow> ('k, 'v) dict" where
  "ddel k d \<equiv> AList.delete k d"

definition dkeys :: "('k, 'v) dict \<Rightarrow> 'k list" where
  "dkeys d = map fst d"

definition dvalues :: "('k, 'v) dict \<Rightarrow> 'v list" where
  "dvalues d = map snd d"

definition dmem :: "'k \<Rightarrow> ('k, 'v) dict \<Rightarrow> bool" where
  "dmem k d = (case dget d k of None \<Rightarrow> False | Some v \<Rightarrow> True)"

definition dgetd :: "('k, 'v) dict \<Rightarrow> 'k \<Rightarrow> 'v \<Rightarrow> 'v" where
  "dgetd d k dflt = (case dget d k of None \<Rightarrow> dflt | Some v \<Rightarrow> v)"

definition dwf :: "('k, 'v) dict \<Rightarrow> bool" where
  "dwf d \<longleftrightarrow> distinct (map fst d)"

text \<open>\<open>d.update(e)\<close>: the entries of \<open>e\<close> assigned one after the other.\<close>

definition dupdate :: "('k, 'v) dict \<Rightarrow> ('k, 'v) dict \<Rightarrow> ('k, 'v) dict" where
  "dupdate d e = fold (\<lambda>(k, v) acc. dset k v acc) e d"

lemma dget_dset [simp, dict_simps]:
  "dget (dset k v d) k' = (if k' = k then Some v else dget d k')"
  by (simp add: update_conv')

lemma dget_ddel [simp, dict_simps]:
  "dget (ddel k d) k' = (if k' = k then None else dget d k')"
  by (simp add: delete_conv')

lemma dwf_Nil [simp, dict_simps]: "dwf []"
  by (simp add: dwf_def)

lemma dwf_dset [simp, dict_simps]: "dwf d \<Longrightarrow> dwf (dset k v d)"
  by (simp add: dwf_def distinct_update)

lemma dwf_ddel [simp, dict_simps]: "dwf d \<Longrightarrow> dwf (ddel k d)"
  by (simp add: dwf_def distinct_delete)

lemma dmem_iff [dict_simps]: "dmem k d \<longleftrightarrow> k \<in> fst ` set d"
  by (simp add: dmem_def map_of_eq_None_iff split: option.splits)
     (metis domI domIff dom_map_of_conv_image_fst)

lemma dmem_Some [dict_simps]: "dmem k d \<longleftrightarrow> (\<exists>v. dget d k = Some v)"
  by (auto simp: dmem_def split: option.splits)

lemma not_dmem_None [dict_simps]: "\<not> dmem k d \<longleftrightarrow> dget d k = None"
  by (auto simp: dmem_def split: option.splits)

lemma dmem_dset [simp, dict_simps]: "dmem k' (dset k v d) \<longleftrightarrow> k' = k \<or> dmem k' d"
  by (auto simp: dmem_def split: option.splits)

lemma dmem_ddel [simp, dict_simps]: "dmem k' (ddel k d) \<longleftrightarrow> k' \<noteq> k \<and> dmem k' d"
  by (auto simp: dmem_def split: option.splits)

lemma dset_absent [dict_simps]: "dget d k = None \<Longrightarrow> dset k v d = d @ [(k, v)]"
  by (induction d) (auto split: if_splits)

lemma dkeys_dset [dict_simps]:
  "dkeys (dset k v d) = (if dmem k d then dkeys d else dkeys d @ [k])"
  by (simp add: dkeys_def dmem_iff update_keys)

lemma dget_in_set: "dget d k = Some v \<Longrightarrow> (k, v) \<in> set d"
  by (rule map_of_SomeD)

lemma dget_iff_set: "dwf d \<Longrightarrow> dget d k = Some v \<longleftrightarrow> (k, v) \<in> set d"
  by (simp add: dwf_def map_of_eq_Some_iff) 

lemma set_dset:
  "dwf d \<Longrightarrow> set (dset k v d) = insert (k, v) {p \<in> set d. fst p \<noteq> k}"
  by (induction d) (auto simp: dwf_def image_iff)

lemma dget_filter:
  "dwf d \<Longrightarrow> dget (filter P d) k =
     (case dget d k of None \<Rightarrow> None | Some v \<Rightarrow> if P (k, v) then Some v else None)"
proof (induction d)
  case (Cons a d)
  then have "fst a \<notin> fst ` set d" "dwf d" by (auto simp: dwf_def)
  moreover have "dget (filter P d) (fst a) = None"
    using calculation by (auto simp: map_of_eq_None_iff image_iff)
  ultimately show ?case using Cons.IH
    by (cases a) (auto split: option.splits simp: map_of_eq_None_iff)
qed simp

lemma dwf_filter [simp, dict_simps]: "dwf d \<Longrightarrow> dwf (filter P d)"
  by (induction d) (auto simp: dwf_def)

lemma dwf_dupdate [simp, dict_simps]: "dwf d \<Longrightarrow> dwf (dupdate d e)"
  unfolding dupdate_def by (induction e arbitrary: d) auto

lemma dget_dupdate:
  "dget (dupdate d e) k = (case dget (rev e) k of None \<Rightarrow> dget d k | Some v \<Rightarrow> Some v)"
  unfolding dupdate_def
proof (induction e arbitrary: d)
  case (Cons a e)
  then show ?case
    by (cases a) (auto simp: map_of_append split: option.splits)
qed simp

lemma dmem_Cons: "dmem k ((k', v) # d) \<longleftrightarrow> k = k' \<or> dmem k d"
  by (simp add: dmem_def)

lemma dmem_dupdate [simp, dict_simps]: "dmem k (dupdate d e) \<longleftrightarrow> dmem k d \<or> dmem k e"
  unfolding dupdate_def
proof (induction e arbitrary: d)
  case (Cons a e)
  then show ?case by (cases a) (auto simp: dmem_Cons)
qed (simp add: dmem_def)

lemma dupdate_Nil [simp, dict_simps]: "dupdate d [] = d"
  by (simp add: dupdate_def)

lemma dset_same [dict_simps]: "dget m t = Some a \<Longrightarrow> dset t a m = m"
  by (induction m) (auto split: if_splits)

lemma dupdate_disjoint: "dwf (acc @ d) \<Longrightarrow> dupdate acc d = acc @ d"
  unfolding dupdate_def
proof (induction d arbitrary: acc)
  case (Cons x d)
  obtain k v where x: "x = (k, v)" by fastforce
  with Cons.prems have "dget acc k = None" by (auto simp: dwf_def map_of_eq_None_iff)
  then have "dset k v acc = acc @ [x]" using x by (simp add: dset_absent)
  with Cons.IH [of "acc @ [x]"] Cons.prems x show ?case by simp
qed simp

lemma dset_middle: "dget p k = None \<Longrightarrow> dset k v (p @ (k, u) # d) = p @ (k, v) # d"
  by (induction p) (auto split: if_splits)

lemma dupdate_same_keys: "map fst d = map fst e \<Longrightarrow> dwf (p @ e) \<Longrightarrow> dupdate (p @ d) e = p @ e"
proof (induction d e arbitrary: p rule: list_induct2')
  case (4 x d y e)
  obtain k u v where xy: "x = (k, u)" "y = (k, v)" using "4.prems"(1) by (cases x; cases y) auto
  with "4.prems"(2) have "dget p k = None" by (auto simp: dwf_def map_of_eq_None_iff)
  then have "dupdate (p @ x # d) (y # e) = dupdate ((p @ [y]) @ d) e" using xy by (simp add: dupdate_def dset_middle)
  with "4.IH" [of "p @ [y]"] "4.prems" show ?case by simp
qed auto

lemma dupdate_dset:
  assumes "dwf d"
  shows "dupdate d (dset n v d) = dset n v d"
proof (cases "dget d n")
  case None
  have "dupdate d (d @ [(n, v)]) = dset n v (dupdate d d)" by (simp add: dupdate_def)
  also have "dupdate d d = d" using dupdate_same_keys [of d d "[]"] assms by simp
  finally show ?thesis using None by (simp add: dset_absent)
next
  case (Some w)
  then have "map fst d = map fst (dset n v d)" using dkeys_dset [of n v d] by (simp add: dkeys_def dmem_Some)
  then show ?thesis using dupdate_same_keys [of d "dset n v d" "[]"] assms by simp
qed

lemma ddel_absent: "dget d k = None \<Longrightarrow> ddel k d = d"
  by (induction d) (auto split: if_splits)

text \<open>The sum of a quantity over the values of a dictionary, and what an assignment does to it.\<close>

definition dsum :: "('v \<Rightarrow> 'n::ab_group_add) \<Rightarrow> ('k, 'v) dict \<Rightarrow> 'n" where
  "dsum f d = sum_list (map (\<lambda>(k, v). f v) d)"

lemma dsum_simps [simp, dict_simps]:
  "dsum f [] = 0"
  "dsum f ((k, v) # d) = f v + dsum f d"
  by (simp_all add: dsum_def)

lemma dsum_dset:
  "dwf d \<Longrightarrow> dsum f (dset k v d) = dsum f d + f v - (case dget d k of None \<Rightarrow> 0 | Some v0 \<Rightarrow> f v0)"
proof (induction d)
  case (Cons a d)
  obtain k' v' where a: "a = (k', v')" by fastforce
  have "dwf d" "dget d k' = None" using Cons.prems a by (auto simp: dwf_def map_of_eq_None_iff)
  with Cons.IH a show ?case by (auto split: option.splits)
qed simp

section \<open>A keyed store\<close>

text \<open>
  The interface of every store the program keeps by key: a lookup, an insertion and a
  removal. Its clients reason with the laws only.
\<close>

locale keyed_store =
  fixes look :: "'s \<Rightarrow> 'k \<Rightarrow> 'v option"
    and put :: "'k \<Rightarrow> 'v \<Rightarrow> 's \<Rightarrow> 's"
    and del :: "'k \<Rightarrow> 's \<Rightarrow> 's"
    and ok :: "'s \<Rightarrow> bool"
  assumes look_put: "ok s \<Longrightarrow> look (put k v s) k' = (if k' = k then Some v else look s k')"
    and look_del: "ok s \<Longrightarrow> look (del k s) k' = (if k' = k then None else look s k')"
    and ok_put: "ok s \<Longrightarrow> ok (put k v s)"
    and ok_del: "ok s \<Longrightarrow> ok (del k s)"
begin

definition put_all :: "('k \<times> 'v) list \<Rightarrow> 's \<Rightarrow> 's" where
  "put_all kvs s = fold (\<lambda>(k, v). put k v) kvs s"

lemma ok_put_all: "ok s \<Longrightarrow> ok (put_all kvs s)"
  unfolding put_all_def by (induction kvs arbitrary: s) (auto intro: ok_put)

lemma put_all_frame:
  "ok s \<Longrightarrow> k \<notin> fst ` set kvs \<Longrightarrow> look (put_all kvs s) k = look s k"
  unfolding put_all_def by (induction kvs arbitrary: s) (auto simp: look_put ok_put)

lemma last_write_wins:
  "ok s \<Longrightarrow> look (put k w (put k v s)) = look (put k w s)"
  by (rule ext) (simp add: look_put ok_put)

lemma put_commute:
  "ok s \<Longrightarrow> k \<noteq> k' \<Longrightarrow> look (put k v (put k' w s)) = look (put k' w (put k v s))"
  by (rule ext) (auto simp: look_put ok_put)

lemma del_put: "ok s \<Longrightarrow> look s k = None \<Longrightarrow> look (del k (put k v s)) = look s"
  by (rule ext) (simp add: look_put look_del ok_put)

end

interpretation dict_store: keyed_store dget dset ddel dwf
  by unfold_locales simp_all

section \<open>Transition systems\<close>

text \<open>
  A component with a lifecycle is a set of initial states and a step relation. The
  locale proves once that an inductive invariant holds in every reachable state and
  along every run.
\<close>

inductive reaches :: "('s \<Rightarrow> 's \<Rightarrow> bool) \<Rightarrow> 's \<Rightarrow> 's \<Rightarrow> bool"
  for step where
  reaches_refl: "reaches step s s"
| reaches_step: "reaches step s t \<Longrightarrow> step t u \<Longrightarrow> reaches step s u"

lemma reaches_trans: "reaches step s t \<Longrightarrow> reaches step t u \<Longrightarrow> reaches step s u"
  by (rotate_tac, induction rule: reaches.induct) (auto intro: reaches_step)

lemma reaches_one: "step s t \<Longrightarrow> reaches step s t"
  by (rule reaches_step [OF reaches_refl])

locale transition_system =
  fixes init :: "'s \<Rightarrow> bool"
    and step :: "'s \<Rightarrow> 's \<Rightarrow> bool"
    and inv :: "'s \<Rightarrow> bool"
  assumes inv_init: "init s \<Longrightarrow> inv s"
    and inv_step: "inv s \<Longrightarrow> step s t \<Longrightarrow> inv t"
begin

lemma inv_reaches: "reaches step s t \<Longrightarrow> inv s \<Longrightarrow> inv t"
  by (induction rule: reaches.induct) (auto intro: inv_step)

lemma inv_reachable: "init s \<Longrightarrow> reaches step s t \<Longrightarrow> inv t"
  using inv_init inv_reaches by blast

end

section \<open>Stable descending sort\<close>

text \<open>
  Python's \<open>sorted(xs, key=f, reverse=True)\<close> is stable: elements with equal keys
  keep their order. \<open>sort_key\<close> on the negated key is that sort.
\<close>

definition sort_desc :: "('a \<Rightarrow> real) \<Rightarrow> 'a list \<Rightarrow> 'a list" where
  "sort_desc f xs = sort_key (\<lambda>x. - f x) xs"

lemma set_sort_desc [simp]: "set (sort_desc f xs) = set xs"
  by (simp add: sort_desc_def)

lemma length_sort_desc [simp]: "length (sort_desc f xs) = length xs"
  by (simp add: sort_desc_def)

lemma mset_sort_desc [simp]: "mset (sort_desc f xs) = mset xs"
  by (simp add: sort_desc_def)

lemma take_sorted_best:
  assumes "sorted_wrt (\<lambda>a b. (g b :: nat) \<le> g a) xs" "t \<in> set xs" "t \<notin> set (take n xs)"
  shows "n < length xs \<and> (\<forall>b \<in> set (take n xs). g t \<le> g b)"
proof -
  have d: "t \<in> set (drop n xs)" using assms(2,3) set_append [of "take n xs" "drop n xs"] by simp
  have "sorted_wrt (\<lambda>a b. g b \<le> g a) (take n xs @ drop n xs)" using assms(1) by simp
  then have "\<forall>b \<in> set (take n xs). g t \<le> g b" unfolding sorted_wrt_append using d by blast
  moreover have "n < length xs" using d by (cases "n < length xs") auto
  ultimately show ?thesis by blast
qed

lemma sort_desc_Nil [simp]: "sort_desc f [] = []"
  by (simp add: sort_desc_def)

lemma sort_desc_eq_Nil [simp]: "sort_desc f xs = [] \<longleftrightarrow> xs = []"
  by (metis length_0_conv length_sort_desc)

lemma sorted_sort_desc: "sorted_wrt (\<lambda>x y. f y \<le> f x) (sort_desc f xs)"
proof -
  have "sorted (map (\<lambda>x. - f x) (sort_desc f xs))"
    by (simp add: sort_desc_def)
  then show ?thesis by (simp add: sorted_map)
qed

lemma hd_sort_desc_max: "x \<in> set xs \<Longrightarrow> f x \<le> f (hd (sort_desc f xs))"
proof -
  assume x: "x \<in> set xs"
  then obtain y ys where s: "sort_desc f xs = y # ys"
    by (cases "sort_desc f xs") auto
  with sorted_sort_desc [of f xs] have "\<forall>z \<in> set ys. f z \<le> f y" by simp
  moreover have "x \<in> set (y # ys)" using x s set_sort_desc [of f xs] by simp
  ultimately show ?thesis using s by auto
qed

lemma sort_desc_stable: "filter (\<lambda>y. f y = c) (sort_desc f xs) = filter (\<lambda>y. f y = c) xs"
proof -
  have "filter (\<lambda>y. - f y = - c) (sort_key (\<lambda>x. - f x) xs) = filter (\<lambda>y. - f y = - c) xs"
    by (rule sort_key_stable)
  then show ?thesis by (simp add: sort_desc_def)
qed

section \<open>Membership tests and sums\<close>

lemma sum_list_nonneg_list: "list_all (\<lambda>x. 0 \<le> x) xs \<Longrightarrow> 0 \<le> sum_list (xs :: real list)"
  by (induction xs) auto

lemma filter_id_all: "list_all P xs \<Longrightarrow> filter P xs = xs"
  by (induction xs) auto

definition count_if :: "('a \<Rightarrow> bool) \<Rightarrow> 'a list \<Rightarrow> nat" where
  "count_if P xs = length (filter P xs)"

lemma count_if_simps [simp]:
  "count_if P [] = 0"
  "count_if P (x # xs) = (if P x then Suc (count_if P xs) else count_if P xs)"
  "count_if P (xs @ ys) = count_if P xs + count_if P ys"
  by (simp_all add: count_if_def)

lemma count_if_le [simp]: "count_if P xs \<le> length xs"
  by (simp add: count_if_def)

end
