(* ===== verification/PyText.thy ===== *)
theory PyText
  imports Prelude
begin

text \<open>
  Python text and JSON values. A \<open>string\<close> is a list of code points below 256 (the
  model's texts are Latin-1); the operations are the ones of \<open>str\<close> the program calls:
  \<open>strip\<close>, \<open>lower\<close>, \<open>split\<close>, \<open>splitlines\<close>, \<open>join\<close>, \<open>in\<close>, decimal and
  fixed-point formatting. JSON values carry the \<open>Any\<close> payloads of the program, with
  Python's \<open>==\<close> (\<open>py_eq\<close>) and truth value (\<open>truthy\<close>). Floats are reals.
\<close>

section \<open>Characters\<close>

definition is_space :: "char \<Rightarrow> bool" where
  "is_space c = (let n = of_char c :: nat in
     9 \<le> n \<and> n \<le> 13 \<or> 28 \<le> n \<and> n \<le> 32 \<or> n = 133 \<or> n = 160)"

definition is_newline :: "char \<Rightarrow> bool" where
  "is_newline c = (let n = of_char c :: nat in
     10 \<le> n \<and> n \<le> 13 \<or> 28 \<le> n \<and> n \<le> 30 \<or> n = 133)"

definition is_digit :: "char \<Rightarrow> bool" where
  "is_digit c = (let n = of_char c :: nat in 48 \<le> n \<and> n \<le> 57)"

definition is_alpha :: "char \<Rightarrow> bool" where
  "is_alpha c = (let n = of_char c :: nat in 65 \<le> n \<and> n \<le> 90 \<or> 97 \<le> n \<and> n \<le> 122)"

definition lower_char :: "char \<Rightarrow> char" where
  "lower_char c = (let n = of_char c :: nat in
     if 65 \<le> n \<and> n \<le> 90 \<or> 192 \<le> n \<and> n \<le> 222 \<and> n \<noteq> 215 then char_of (n + 32) else c)"

definition upper_char :: "char \<Rightarrow> char" where
  "upper_char c = (let n = of_char c :: nat in if 97 \<le> n \<and> n \<le> 122 then char_of (n - 32) else c)"

section \<open>Strings\<close>

definition lower :: "string \<Rightarrow> string" where
  "lower s = map lower_char s"

definition lstrip :: "string \<Rightarrow> string" where
  "lstrip s = dropWhile is_space s"

definition rstrip :: "string \<Rightarrow> string" where
  "rstrip s = rev (dropWhile is_space (rev s))"

definition strip :: "string \<Rightarrow> string" where
  "strip s = rstrip (lstrip s)"

definition startswith :: "string \<Rightarrow> string \<Rightarrow> bool" where
  "startswith s p = prefix p s"

definition endswith :: "string \<Rightarrow> string \<Rightarrow> bool" where
  "endswith s p = suffix p s"

text \<open>\<open>sub in s\<close>\<close>

definition contains :: "string \<Rightarrow> string \<Rightarrow> bool" where
  "contains s sub = sublist sub s"

fun join :: "string \<Rightarrow> string list \<Rightarrow> string" where
  "join sep [] = []"
| "join sep [x] = x"
| "join sep (x # y # ys) = x @ sep @ join sep (y # ys)"

text \<open>\<open>s.split()\<close>: the maximal runs of non-space characters.\<close>

fun split_ws_aux :: "string \<Rightarrow> string \<Rightarrow> string list" where
  "split_ws_aux [] cur = (if cur = [] then [] else [rev cur])"
| "split_ws_aux (c # cs) cur =
     (if is_space c then (if cur = [] then split_ws_aux cs [] else rev cur # split_ws_aux cs [])
      else split_ws_aux cs (c # cur))"

definition split_ws :: "string \<Rightarrow> string list" where
  "split_ws s = split_ws_aux s []"

text \<open>\<open>s.splitlines()\<close>: CR LF is one line break, a final break opens no line.\<close>

fun splitlines_aux :: "string \<Rightarrow> string \<Rightarrow> string list" where
  "splitlines_aux [] cur = (if cur = [] then [] else [rev cur])"
| "splitlines_aux (c # cs) cur =
     (if is_newline c
      then rev cur # (case cs of
             [] \<Rightarrow> []
           | d # ds \<Rightarrow> if c = CHR 0x0D \<and> d = CHR 0x0A then splitlines_aux ds [] else splitlines_aux cs [])
      else splitlines_aux cs (c # cur))"

definition splitlines :: "string \<Rightarrow> string list" where
  "splitlines s = splitlines_aux s []"

text \<open>\<open>re.sub(r"\s+", " ", s)\<close>: every run of white space becomes one blank.\<close>

function collapse_ws :: "string \<Rightarrow> string" where
  "collapse_ws [] = []"
| "collapse_ws (c # cs) =
     (if is_space c
      then CHR '' '' # collapse_ws (dropWhile is_space cs)
      else c # collapse_ws cs)"
  by pat_completeness auto
termination
  by (relation "measure length") (auto simp: less_Suc_eq_le length_dropWhile_le)

lemma lower_char_lower [simp]: "lower_char (lower_char c) = lower_char c"
  by (cases "of_char c < (256::nat)") (auto simp: lower_char_def Let_def)

lemma lower_idem [simp]: "lower (lower s) = lower s"
  by (simp add: lower_def)

lemma length_lower [simp]: "length (lower s) = length s"
  by (simp add: lower_def)

lemma rstrip_Nil [simp]: "rstrip [] = []"
  by (simp add: rstrip_def)

lemma lstrip_id: "s = [] \<or> \<not> is_space (hd s) \<Longrightarrow> lstrip s = s"
  by (cases s) (auto simp: lstrip_def)

lemma rstrip_id: "s = [] \<or> \<not> is_space (last s) \<Longrightarrow> rstrip s = s"
  by (cases s rule: rev_cases) (auto simp: rstrip_def)

lemma dropWhile_hd: "dropWhile P xs = [] \<or> \<not> P (hd (dropWhile P xs))"
  by (induction xs) auto

lemma lstrip_hd: "lstrip s = [] \<or> \<not> is_space (hd (lstrip s))"
  unfolding lstrip_def by (rule dropWhile_hd)

lemma rstrip_last: "rstrip s = [] \<or> \<not> is_space (last (rstrip s))"
  using dropWhile_hd [of is_space "rev s"] by (simp add: rstrip_def last_rev del: dropWhile_eq_Nil_conv)

lemma rstrip_prefix: "prefix (rstrip s) s"
proof -
  have "rev s = takeWhile is_space (rev s) @ dropWhile is_space (rev s)" by simp
  then have "s = rev (dropWhile is_space (rev s)) @ rev (takeWhile is_space (rev s))"
    by (metis rev_append rev_rev_ident)
  then show ?thesis unfolding rstrip_def by (metis prefixI)
qed

lemma strip_hd: "strip s = [] \<or> \<not> is_space (hd (strip s))"
proof (cases "strip s")
  case (Cons c cs)
  then have "hd (lstrip s) = c" using rstrip_prefix [of "lstrip s"]
    by (auto simp: strip_def prefix_def)
  moreover have "lstrip s \<noteq> []" using Cons rstrip_Nil by (auto simp: strip_def)
  ultimately show ?thesis using lstrip_hd [of s] Cons by auto
qed simp

lemma strip_last: "strip s = [] \<or> \<not> is_space (last (strip s))"
  using rstrip_last [of "lstrip s"] by (simp add: strip_def)

lemma strip_idem [simp]: "strip (strip s) = strip s"
  using strip_hd [of s] strip_last [of s] lstrip_id rstrip_id
  by (metis strip_def)

lemma strip_Nil [simp]: "strip [] = []"
  by (simp add: strip_def lstrip_def)

lemma collapse_ws_length: "length (collapse_ws s) \<le> length s"
proof (induction s rule: collapse_ws.induct)
  case (2 c cs)
  have "length (dropWhile is_space cs) \<le> length cs" by (rule length_dropWhile_le)
  with 2 show ?case by (cases "is_space c") (auto intro: le_trans)
qed simp

lemma collapse_ws_idem [simp]: "collapse_ws (collapse_ws s) = collapse_ws s"
proof (induction s rule: collapse_ws.induct)
  case (2 c cs)
  show ?case
  proof (cases "is_space c")
    case True
    have "dropWhile is_space (collapse_ws (dropWhile is_space cs)) = collapse_ws (dropWhile is_space cs)"
      using dropWhile_hd [of is_space cs]
      by (cases "dropWhile is_space cs") (simp_all del: dropWhile_eq_Nil_conv)
    moreover have "is_space (CHR '' '')" by (simp add: is_space_def)
    ultimately show ?thesis using True 2 by simp
  qed (use 2 in simp)
qed simp

lemma split_ws_aux_words: "list_all (\<lambda>c. \<not> is_space c) cur \<Longrightarrow>
    list_all (\<lambda>w. w \<noteq> [] \<and> list_all (\<lambda>c. \<not> is_space c) w) (split_ws_aux s cur)"
proof (induction s arbitrary: cur)
  case (Cons c cs)
  then show ?case by (cases "is_space c"; cases "cur = []") simp_all
qed simp

lemma split_ws_words: "w \<in> set (split_ws s) \<Longrightarrow> w \<noteq> [] \<and> list_all (\<lambda>c. \<not> is_space c) w"
  using split_ws_aux_words [of "[]" s] by (simp add: split_ws_def list_all_iff)

lemma splitlines_aux_no_newline:
  "list_all (\<lambda>c. \<not> is_newline c) cur \<Longrightarrow>
    list_all (\<lambda>l. list_all (\<lambda>c. \<not> is_newline c) l) (splitlines_aux s cur)"
proof (induction s cur rule: splitlines_aux.induct)
  case (2 c cs cur)
  show ?case
  proof (cases "is_newline c")
    case True
    have "is_newline (CHR 0x0D)" by (simp add: is_newline_def)
    with True 2 show ?thesis by (cases cs) simp_all
  next
    case False
    with 2 show ?thesis by simp
  qed
qed simp

lemma splitlines_no_newline: "l \<in> set (splitlines s) \<Longrightarrow> list_all (\<lambda>c. \<not> is_newline c) l"
  using splitlines_aux_no_newline [of "[]" s] by (simp add: splitlines_def list_all_iff)

section \<open>Numbers as text\<close>

fun digits_of :: "nat \<Rightarrow> string" where
  "digits_of n = (if n < 10 then [char_of (48 + n)] else digits_of (n div 10) @ [char_of (48 + n mod 10)])"

declare digits_of.simps [simp del]

definition str_of_nat :: "nat \<Rightarrow> string" where
  "str_of_nat n = digits_of n"

definition str_of_int :: "int \<Rightarrow> string" where
  "str_of_int i = (if i < 0 then CHR ''-'' # digits_of (nat (- i)) else digits_of (nat i))"

text \<open>Round half to even: Python's \<open>round\<close> and the \<open>f\<close> format on an exact tie.\<close>

definition round_even :: "real \<Rightarrow> int" where
  "round_even x = (let f = \<lfloor>x\<rfloor>; d = x - of_int f in
     if d < 1 / 2 then f else if 1 / 2 < d then f + 1 else if even f then f else f + 1)"

definition round_to :: "nat \<Rightarrow> real \<Rightarrow> real" where
  "round_to k x = of_int (round_even (x * 10 ^ k)) / 10 ^ k"

definition pad_zeros :: "nat \<Rightarrow> string \<Rightarrow> string" where
  "pad_zeros k s = replicate (k - length s) (CHR ''0'') @ s"

definition fmt_fixed :: "nat \<Rightarrow> real \<Rightarrow> string" where
  "fmt_fixed k x = (let n = round_even (\<bar>x\<bar> * 10 ^ k); m = nat n in
     (if x < 0 then ''-'' else '''') @ digits_of (m div 10 ^ k) @
     (if k = 0 then '''' else CHR ''.'' # pad_zeros k (digits_of (m mod 10 ^ k))))"

definition fmt_percent :: "nat \<Rightarrow> real \<Rightarrow> string" where
  "fmt_percent k x = fmt_fixed k (x * 100) @ ''%''"

lemma round_even_bounds: "of_int (round_even x) - 1 / 2 \<le> x" "x \<le> of_int (round_even x) + 1 / 2"
  unfolding round_even_def Let_def by (auto) linarith+

lemma round_even_int [simp]: "round_even (of_int i) = i"
  by (simp add: round_even_def)

lemma round_even_mono: "x \<le> y \<Longrightarrow> round_even x \<le> round_even y"
proof -
  assume le: "x \<le> y"
  then have fl: "\<lfloor>x\<rfloor> \<le> \<lfloor>y\<rfloor>" by (rule floor_mono)
  show ?thesis
  proof (cases "\<lfloor>x\<rfloor> = \<lfloor>y\<rfloor>")
    case True
    with le show ?thesis by (auto simp: round_even_def Let_def)
  next
    case False
    with fl have "\<lfloor>x\<rfloor> + 1 \<le> \<lfloor>y\<rfloor>" by simp
    moreover have "round_even x \<le> \<lfloor>x\<rfloor> + 1" "\<lfloor>y\<rfloor> \<le> round_even y"
      by (auto simp: round_even_def Let_def)
    ultimately show ?thesis by linarith
  qed
qed

text \<open>\<open>float(text)\<close> on decimal notation (\<open>inf\<close> and \<open>nan\<close> are no reals).\<close>

fun digits_val :: "nat \<Rightarrow> string \<Rightarrow> nat" where
  "digits_val acc [] = acc"
| "digits_val acc (c # cs) = digits_val (10 * acc + (of_char c - 48)) cs"

definition split_sign :: "string \<Rightarrow> bool \<times> string" where
  "split_sign s = (case s of [] \<Rightarrow> (False, [])
     | c # r \<Rightarrow> if c = CHR ''-'' then (True, r) else if c = CHR ''+'' then (False, r) else (False, s))"

definition py_float :: "string \<Rightarrow> real option" where
  "py_float text =
     (let (neg, s) = split_sign (strip text);
          ip = takeWhile is_digit s; r1 = dropWhile is_digit s;
          r2 = (case r1 of c # r \<Rightarrow> if c = CHR ''.'' then r else [] | [] \<Rightarrow> []);
          dot = (case r1 of c # r \<Rightarrow> c = CHR ''.'' | [] \<Rightarrow> False);
          fp = (if dot then takeWhile is_digit r2 else []);
          r3 = (if dot then dropWhile is_digit r2 else r1);
          m = (if neg then - 1 else 1) * real (digits_val 0 (ip @ fp)) / 10 ^ length fp
      in if ip = [] \<and> fp = [] then None
         else (case r3 of
             [] \<Rightarrow> Some m
           | c # r \<Rightarrow> if c \<noteq> CHR ''e'' \<and> c \<noteq> CHR ''E'' then None
               else (let (en, ds) = split_sign r; k = digits_val 0 ds in
                 if ds = [] \<or> \<not> list_all is_digit ds then None
                 else Some (if en then m / 10 ^ k else m * 10 ^ k))))"

section \<open>JSON values\<close>

datatype json =
    JNull
  | JBool bool
  | JInt int
  | JFloat real
  | JStr string
  | JArr "json list"
  | JObj "(string \<times> json) list"

text \<open>
  \<open>repr\<close> and \<open>str\<close>; the shortest text of a float is the parameter \<open>frepr\<close>.
\<close>

definition hex_digit :: "nat \<Rightarrow> char" where
  "hex_digit n = char_of (if n < 10 then 48 + n else 87 + n)"

definition repr_char :: "char \<Rightarrow> char \<Rightarrow> string" where
  "repr_char q c = (let n = of_char c :: nat in
     if c = CHR 0x5C \<or> c = q then [CHR 0x5C, c]
     else if n = 10 then [CHR 0x5C, CHR ''n'']
     else if n = 13 then [CHR 0x5C, CHR ''r'']
     else if n = 9 then [CHR 0x5C, CHR ''t'']
     else if n < 32 \<or> 127 \<le> n \<and> n \<le> 160 \<or> n = 173
       then [CHR 0x5C, CHR ''x'', hex_digit (n div 16), hex_digit (n mod 16)]
     else [c])"

definition repr_str :: "string \<Rightarrow> string" where
  "repr_str s = (let q = (if List.member s (CHR 0x27) \<and> \<not> List.member s (CHR 0x22) then CHR 0x22 else CHR 0x27)
     in q # concat (map (repr_char q) s) @ [q])"

fun py_repr :: "(real \<Rightarrow> string) \<Rightarrow> json \<Rightarrow> string" where
  "py_repr frepr JNull = ''None''"
| "py_repr frepr (JBool b) = (if b then ''True'' else ''False'')"
| "py_repr frepr (JInt i) = str_of_int i"
| "py_repr frepr (JFloat r) = frepr r"
| "py_repr frepr (JStr s) = repr_str s"
| "py_repr frepr (JArr xs) = ''['' @ join '', '' (map (py_repr frepr) xs) @ '']''"
| "py_repr frepr (JObj kvs) = ''{'' @ join '', '' (map (\<lambda>(k, v). repr_str k @ '': '' @ py_repr frepr v) kvs) @ ''}''"

fun py_str :: "(real \<Rightarrow> string) \<Rightarrow> json \<Rightarrow> string" where
  "py_str frepr (JStr s) = s"
| "py_str frepr v = py_repr frepr v"

text \<open>The truth value of \<open>if v:\<close>.\<close>

fun truthy :: "json \<Rightarrow> bool" where
  "truthy JNull = False"
| "truthy (JBool b) = b"
| "truthy (JInt i) = (i \<noteq> 0)"
| "truthy (JFloat r) = (r \<noteq> 0)"
| "truthy (JStr s) = (s \<noteq> [])"
| "truthy (JArr xs) = (xs \<noteq> [])"
| "truthy (JObj kvs) = (kvs \<noteq> [])"

fun num_of :: "json \<Rightarrow> real option" where
  "num_of (JBool b) = Some (if b then 1 else 0)"
| "num_of (JInt i) = Some (of_int i)"
| "num_of (JFloat r) = Some r"
| "num_of _ = None"

lemma size_zip_left [termination_simp]: "(x, y) \<in> set (zip xs ys) \<Longrightarrow> size x < Suc (size_list size xs)"
  by (rule le_imp_less_Suc) (rule size_list_estimation' [OF set_zip_leftD], auto)

text \<open>
  Python's \<open>==\<close>: numbers compare across \<open>bool\<close>, \<open>int\<close> and \<open>float\<close>, dictionaries
  without regard to the order of their entries.
\<close>

fun py_eq :: "json \<Rightarrow> json \<Rightarrow> bool" where
  "py_eq (JStr s) w = (w = JStr s)"
| "py_eq JNull w = (w = JNull)"
| "py_eq (JArr xs) w = (case w of
      JArr ys \<Rightarrow> length xs = length ys \<and> list_all (\<lambda>(x, y). py_eq x y) (zip xs ys)
    | _ \<Rightarrow> False)"
| "py_eq (JObj kvs) w = (case w of
      JObj kws \<Rightarrow> length kvs = length kws \<and>
        list_all (\<lambda>(k, v). case dget kws k of None \<Rightarrow> False | Some v' \<Rightarrow> py_eq v v') kvs
    | _ \<Rightarrow> False)"
| "py_eq v w = (case num_of w of None \<Rightarrow> False | Some y \<Rightarrow> num_of v = Some y)"

text \<open>Well-formed values: every dictionary in them has distinct keys.\<close>

fun json_wf :: "json \<Rightarrow> bool" where
  "json_wf (JArr xs) = list_all json_wf xs"
| "json_wf (JObj kvs) = (dwf kvs \<and> list_all (\<lambda>(k, v). json_wf v) kvs)"
| "json_wf _ = True"

lemma py_eq_refl: "json_wf v \<Longrightarrow> py_eq v v"
proof (induction v rule: json_wf.induct)
  case (1 xs)
  then have "list_all (\<lambda>(x, y). py_eq x y) (zip xs xs)"
    by (auto simp: list_all_iff set_zip)
  then show ?case by simp
next
  case (2 kvs)
  have "py_eq v w" if "(k, v) \<in> set kvs" "dget kvs k = Some w" for k v w
  proof -
    from that 2(2) have "w = v" using dget_iff_set [of kvs k v] by simp
    with that 2 show ?thesis by (auto simp: list_all_iff)
  qed
  moreover have "dget kvs k \<noteq> None" if "(k, v) \<in> set kvs" for k v
    using that map_of_eq_None_iff [of kvs k] image_eqI [of k fst "(k, v)" "set kvs"] by simp
  ultimately show ?case
    by (auto simp: list_all_iff split: option.splits)
qed auto

text \<open>A list of texts, as \<open>list[str]\<close> is validated.\<close>

fun json_strings :: "json list \<Rightarrow> string list option" where
  "json_strings [] = Some []"
| "json_strings (JStr s # vs) = map_option (\<lambda>ss. s # ss) (json_strings vs)"
| "json_strings (v # vs) = None"

lemma json_strings_map [simp]: "json_strings (map JStr ss) = Some ss"
  by (induction ss) simp_all

text \<open>The error of a validation; the message of the library is left out (the field, where it helps).\<close>

definition validation_error :: "string \<Rightarrow> exn" where
  "validation_error f = Exn ''ValidationError'' f"

section \<open>Replacement and addition\<close>

text \<open>\<open>s.replace(old, new)\<close> for a non-empty \<open>old\<close>, from left to right.\<close>

function replace_all :: "string \<Rightarrow> string \<Rightarrow> string \<Rightarrow> string" where
  "replace_all old new s = (case s of
      [] \<Rightarrow> []
    | c # cs \<Rightarrow> if old \<noteq> [] \<and> prefix old s then new @ replace_all old new (drop (length old) s)
        else c # replace_all old new cs)"
  by pat_completeness auto
termination
  by (relation "measure (\<lambda>(old, new, s). length s)") auto

declare replace_all.simps [simp del]

lemma replace_all_Nil [simp]: "replace_all old new [] = []"
  by (simp add: replace_all.simps)

lemma replace_all_Cons: "replace_all old new (c # cs) =
    (if old \<noteq> [] \<and> prefix old (c # cs) then new @ replace_all old new (drop (length old) (c # cs)) else c # replace_all old new cs)"
  by (subst replace_all.simps) simp

lemma replace_all_absent: "\<not> contains s old \<Longrightarrow> replace_all old new s = s"
proof (induction s)
  case (Cons c cs)
  then have "\<not> prefix old (c # cs)" "\<not> contains cs old"
    by (auto simp: contains_def intro: prefix_imp_sublist sublist_Cons_right [THEN iffD2])
  with Cons.IH show ?case by (simp add: replace_all_Cons)
qed simp

text \<open>Python's \<open>+\<close> on the values of JSON.\<close>

definition py_add :: "json \<Rightarrow> json \<Rightarrow> json result" where
  "py_add v w = (case (v, w) of
      (JStr s, JStr t) \<Rightarrow> Inr (JStr (s @ t))
    | (JArr xs, JArr ys) \<Rightarrow> Inr (JArr (xs @ ys))
    | (JInt i, JInt j) \<Rightarrow> Inr (JInt (i + j))
    | (JBool b, JInt j) \<Rightarrow> Inr (JInt (of_bool b + j))
    | (JInt i, JBool c) \<Rightarrow> Inr (JInt (i + of_bool c))
    | (JBool b, JBool c) \<Rightarrow> Inr (JInt (of_bool b + of_bool c))
    | _ \<Rightarrow> (case (num_of v, num_of w) of (Some x, Some y) \<Rightarrow> Inr (JFloat (x + y)) | _ \<Rightarrow> Inl (Exn ''TypeError'' [])))"

end
