(* ===== verification/Phases.thy ===== *)
theory Phases
  imports PyText
begin

text \<open>
  The phase model of \<open>src/services/sdlc_phase.py\<close>: the phases and their order, the
  allowed transitions, work items and their history, and the two lookups
  \<open>can_advance\<close> and \<open>next_phase\<close>. Timestamps are microseconds since the epoch;
  \<open>datetime.now(UTC)\<close> is the argument \<open>now\<close> of the operations that read it.
\<close>

section \<open>Phases and transitions\<close>

datatype phase = PLAN | ARCHITECT | IMPLEMENT | REVIEW | GOVERN | OPERATE

definition PHASE_ORDER :: "phase list" where
  "PHASE_ORDER = [PLAN, ARCHITECT, IMPLEMENT, REVIEW, GOVERN, OPERATE]"

fun phase_value :: "phase \<Rightarrow> string" where
  "phase_value PLAN = ''PLAN''"
| "phase_value ARCHITECT = ''ARCHITECT''"
| "phase_value IMPLEMENT = ''IMPLEMENT''"
| "phase_value REVIEW = ''REVIEW''"
| "phase_value GOVERN = ''GOVERN''"
| "phase_value OPERATE = ''OPERATE''"

text \<open>\<open>Phase(value)\<close>: the enumeration member, or a \<open>ValueError\<close>.\<close>

definition phase_of_value :: "string \<Rightarrow> phase result" where
  "phase_of_value s = (case find (\<lambda>p. phase_value p = s) PHASE_ORDER of
     Some p \<Rightarrow> Inr p
   | None \<Rightarrow> Inl (Exn ''ValueError'' (s @ '' is not a valid Phase'')))"

fun ALLOWED_TRANSITIONS :: "phase \<Rightarrow> phase list" where
  "ALLOWED_TRANSITIONS PLAN = [ARCHITECT]"
| "ALLOWED_TRANSITIONS ARCHITECT = [IMPLEMENT]"
| "ALLOWED_TRANSITIONS IMPLEMENT = [REVIEW]"
| "ALLOWED_TRANSITIONS REVIEW = [GOVERN, IMPLEMENT]"
| "ALLOWED_TRANSITIONS GOVERN = [OPERATE]"
| "ALLOWED_TRANSITIONS OPERATE = []"

definition can_advance :: "phase \<Rightarrow> phase \<Rightarrow> bool" where
  "can_advance current target = List.member (ALLOWED_TRANSITIONS current) target"

text \<open>\<open>PHASE_ORDER.index(p)\<close>; every member occurs, so no \<open>ValueError\<close>.\<close>

fun index_of :: "'a \<Rightarrow> 'a list \<Rightarrow> nat option" where
  "index_of x [] = None"
| "index_of x (y # ys) = (if x = y then Some 0 else map_option Suc (index_of x ys))"

definition next_phase :: "phase \<Rightarrow> phase option" where
  "next_phase current = (case index_of current PHASE_ORDER of
     None \<Rightarrow> None
   | Some idx \<Rightarrow> if idx + 1 \<ge> length PHASE_ORDER then None else Some (PHASE_ORDER ! (idx + 1)))"

section \<open>Work items\<close>

record phase_history_entry =
  he_from :: "phase option"
  he_to :: phase
  he_at :: int
  he_reason :: string
  he_evidence :: "string list"

record work_item =
  wi_id :: string
  wi_phase :: phase
  wi_payload :: "(string, json) dict"
  wi_history :: "phase_history_entry list"

text \<open>The constructor \<open>WorkItem(...)\<close>: pydantic rejects an identifier out of bounds.\<close>

definition WorkItem :: "string \<Rightarrow> phase \<Rightarrow> (string, json) dict \<Rightarrow> phase_history_entry list \<Rightarrow> work_item result" where
  "WorkItem i p pl h =
     (if length i < 1 \<or> 80 < length i then Inl (Exn ''ValidationError'' ''id'')
      else Inr \<lparr>wi_id = i, wi_phase = p, wi_payload = pl, wi_history = h\<rparr>)"

definition record_transition :: "int \<Rightarrow> phase \<Rightarrow> string \<Rightarrow> string list \<Rightarrow> work_item \<Rightarrow> work_item" where
  "record_transition now to_phase reason evidence item = item\<lparr>wi_history := wi_history item @
     [\<lparr>he_from = Some (wi_phase item), he_to = to_phase, he_at = now,
       he_reason = reason, he_evidence = evidence\<rparr>]\<rparr>"

section \<open>The order of the phases\<close>

fun phase_index :: "phase \<Rightarrow> nat" where
  "phase_index PLAN = 0"
| "phase_index ARCHITECT = 1"
| "phase_index IMPLEMENT = 2"
| "phase_index REVIEW = 3"
| "phase_index GOVERN = 4"
| "phase_index OPERATE = 5"

instantiation phase :: linorder
begin

definition less_eq_phase :: "phase \<Rightarrow> phase \<Rightarrow> bool" where
  "less_eq_phase p q \<longleftrightarrow> phase_index p \<le> phase_index q"

definition less_phase :: "phase \<Rightarrow> phase \<Rightarrow> bool" where
  "less_phase p q \<longleftrightarrow> phase_index p < phase_index q"

instance
proof
  fix p q :: phase
  show "p \<le> q \<Longrightarrow> q \<le> p \<Longrightarrow> p = q"
    by (cases p; cases q) (simp_all add: less_eq_phase_def)
qed (auto simp: less_eq_phase_def less_phase_def)

end

lemma index_of_PHASE_ORDER: "index_of p PHASE_ORDER = Some (phase_index p)"
  by (cases p) (simp_all add: PHASE_ORDER_def)

lemma phase_value_inj: "phase_value p = phase_value q \<Longrightarrow> p = q"
  by (cases p; cases q) simp_all

lemma phase_of_value_value [simp]: "phase_of_value (phase_value p) = Inr p"
  by (cases p) (simp_all add: phase_of_value_def PHASE_ORDER_def)

lemma next_phase_simps [simp]:
  "next_phase PLAN = Some ARCHITECT"
  "next_phase ARCHITECT = Some IMPLEMENT"
  "next_phase IMPLEMENT = Some REVIEW"
  "next_phase REVIEW = Some GOVERN"
  "next_phase GOVERN = Some OPERATE"
  "next_phase OPERATE = None"
  by (simp_all add: next_phase_def PHASE_ORDER_def)

lemma can_advance_cases:
  "can_advance p q \<longleftrightarrow> next_phase p = Some q \<or> p = REVIEW \<and> q = IMPLEMENT"
  by (cases p; cases q) (simp_all add: can_advance_def)

lemma can_advance_index:
  "can_advance p q \<Longrightarrow> phase_index q = Suc (phase_index p) \<or> p = REVIEW \<and> q = IMPLEMENT"
  by (cases p; cases q) (simp_all add: can_advance_def)

lemma can_advance_irrefl [simp]: "\<not> can_advance p p"
  by (cases p) (simp_all add: can_advance_def)

lemma record_transition_simps [simp]:
  "wi_phase (record_transition n t r e item) = wi_phase item"
  "wi_id (record_transition n t r e item) = wi_id item"
  "wi_payload (record_transition n t r e item) = wi_payload item"
  by (simp_all add: record_transition_def)

section \<open>Ledger chains\<close>

text \<open>
  A history is a chain from \<open>p\<close> to \<open>q\<close> when its entries follow one another; it is
  legal when every entry follows an allowed edge.
\<close>

fun chain :: "phase \<Rightarrow> phase_history_entry list \<Rightarrow> phase \<Rightarrow> bool" where
  "chain p [] q \<longleftrightarrow> p = q"
| "chain p (h # hs) q \<longleftrightarrow> he_from h = Some p \<and> chain (he_to h) hs q"

definition legal_entry :: "phase_history_entry \<Rightarrow> bool" where
  "legal_entry h = (case he_from h of None \<Rightarrow> False | Some p \<Rightarrow> can_advance p (he_to h))"

definition legal_history :: "phase_history_entry list \<Rightarrow> bool" where
  "legal_history hs = list_all legal_entry hs"

lemma chain_snoc: "chain p hs q \<Longrightarrow> he_from h = Some q \<Longrightarrow> chain p (hs @ [h]) (he_to h)"
  by (induction hs arbitrary: p) auto

lemma chain_append: "chain p (hs @ ks) r \<longleftrightarrow> (\<exists>q. chain p hs q \<and> chain q ks r)"
  by (induction hs arbitrary: p) auto

text \<open>
  On a legal chain no phase is skipped: to get past \<open>r\<close> from below it, the item has
  been in \<open>r\<close>.
\<close>

lemma chain_visits:
  "chain p hs q \<Longrightarrow> legal_history hs \<Longrightarrow> p < r \<Longrightarrow> r \<le> q \<Longrightarrow> r \<in> he_to ` set hs"
proof (induction hs arbitrary: p)
  case (Cons h hs)
  from Cons.prems have adv: "can_advance p (he_to h)" and ch: "chain (he_to h) hs q"
    and leg: "legal_history hs"
    by (auto simp: legal_history_def legal_entry_def)
  show ?case
  proof (cases "he_to h < r")
    case True
    with Cons.IH [OF ch leg] Cons.prems show ?thesis by simp
  next
    case False
    with can_advance_index [OF adv] Cons.prems have "he_to h = r"
      by (cases "he_to h"; cases r; cases p) (auto simp: less_phase_def)
    then show ?thesis by simp
  qed
qed (auto simp: less_eq_phase_def less_phase_def)

end
