(* ===== verification/Regex.thy ===== *)
theory Regex
  imports PyText
begin

text \<open>
  The fragment of Python's \<open>re\<close> that the program's patterns use: a matcher that computes
  the list of end positions of a pattern from a start position, and \<open>search\<close>. Whether
  a search succeeds does not depend on the order in which alternatives are tried, so
  the matcher needs no backtracking discipline.
\<close>

datatype regex =
    Ch "char \<Rightarrow> bool"
  | Eps
  | Seq regex regex
  | Alt regex regex
  | Star regex
  | BolM
  | EolM
  | Bol
  | Eol
  | WordB

definition is_word :: "char \<Rightarrow> bool" where
  "is_word c = (is_alpha c \<or> is_digit c \<or> c = CHR ''_'' \<or>
     (let n = of_char c :: nat in n = 170 \<or> n = 178 \<or> n = 179 \<or> n = 181 \<or> n = 185 \<or> n = 186 \<or> 188 \<le> n \<and> n \<le> 190 \<or>
        192 \<le> n \<and> n \<noteq> 215 \<and> n \<noteq> 247))"

definition word_at :: "string \<Rightarrow> nat \<Rightarrow> bool" where
  "word_at s i = (i < length s \<and> is_word (s ! i))"

definition word_before :: "string \<Rightarrow> nat \<Rightarrow> bool" where
  "word_before s i = (0 < i \<and> word_at s (i - 1))"

text \<open>Greedy closure of a one-step matcher: each round moves strictly forward, so
  \<open>length s\<close> rounds are enough.\<close>

fun star_ends :: "nat \<Rightarrow> (nat \<Rightarrow> nat list) \<Rightarrow> nat \<Rightarrow> nat list" where
  "star_ends 0 f i = [i]"
| "star_ends (Suc n) f i = remdups (i # concat (map (star_ends n f) (filter (\<lambda>j. i < j) (f i))))"

fun ends :: "regex \<Rightarrow> string \<Rightarrow> nat \<Rightarrow> nat list" where
  "ends (Ch P) s i = (if i < length s \<and> P (s ! i) then [Suc i] else [])"
| "ends Eps s i = [i]"
| "ends (Seq a b) s i = remdups (concat (map (ends b s) (ends a s i)))"
| "ends (Alt a b) s i = remdups (ends a s i @ ends b s i)"
| "ends (Star a) s i = star_ends (length s - i) (ends a s) i"
| "ends BolM s i = (if i = 0 \<or> i \<le> length s \<and> s ! (i - 1) = CHR 0x0A then [i] else [])"
| "ends EolM s i = (if i = length s \<or> i < length s \<and> s ! i = CHR 0x0A then [i] else [])"
| "ends Bol s i = (if i = 0 then [i] else [])"
| "ends Eol s i = (if i = length s \<or> Suc i = length s \<and> s ! i = CHR 0x0A then [i] else [])"
| "ends WordB s i = (if word_at s i \<noteq> word_before s i then [i] else [])"

text \<open>\<open>re.search(r, s)\<close> as a truth value.\<close>

definition search :: "regex \<Rightarrow> string \<Rightarrow> bool" where
  "search r s = list_ex (\<lambda>i. ends r s i \<noteq> []) [0..<Suc (length s)]"

section \<open>Building blocks\<close>

definition chr :: "char \<Rightarrow> regex" where
  "chr c = Ch (\<lambda>d. d = c)"

definition chri :: "char \<Rightarrow> regex" where
  "chri c = Ch (\<lambda>d. lower_char d = lower_char c)"

fun seqs :: "regex list \<Rightarrow> regex" where
  "seqs [] = Eps"
| "seqs [r] = r"
| "seqs (r # rs) = Seq r (seqs rs)"

fun alts :: "regex list \<Rightarrow> regex" where
  "alts [] = Ch (\<lambda>_. False)"
| "alts [r] = r"
| "alts (r # rs) = Alt r (alts rs)"

definition lit :: "string \<Rightarrow> regex" where
  "lit s = seqs (map chr s)"

definition liti :: "string \<Rightarrow> regex" where
  "liti s = seqs (map chri s)"

definition spaces :: regex where
  "spaces = Star (Ch is_space)"

definition dots :: regex where
  "dots = Star (Ch (\<lambda>c. c \<noteq> CHR 0x0A))"

section \<open>Bounds and search\<close>

lemma star_ends_bounds:
  "\<forall>i \<le> n. \<forall>j \<in> set (f i). j \<le> n \<Longrightarrow> i \<le> n \<Longrightarrow> j \<in> set (star_ends k f i) \<Longrightarrow> i \<le> j \<and> j \<le> n"
proof (induction k arbitrary: i)
  case (Suc k)
  show ?case
  proof (cases "j = i")
    case False
    with Suc.prems(3) obtain x where x: "x \<in> set (f i)" "i < x" "j \<in> set (star_ends k f x)" by (auto split: if_splits)
    with Suc.prems(1,2) have "x \<le> n" by blast
    from Suc.IH [OF Suc.prems(1) this x(3)] x(2) show ?thesis by simp
  qed (use Suc.prems in simp)
qed simp

lemma ends_bounds: "i \<le> length s \<Longrightarrow> j \<in> set (ends r s i) \<Longrightarrow> i \<le> j \<and> j \<le> length s"
proof (induction r arbitrary: i j)
  case (Seq a b)
  from Seq.prems(2) obtain k where k: "k \<in> set (ends a s i)" "j \<in> set (ends b s k)" by auto
  from Seq.IH(1) [OF Seq.prems(1) k(1)] Seq.IH(2) [OF _ k(2)] show ?case by simp
next
  case (Star a)
  have "\<forall>i \<le> length s. \<forall>j \<in> set (ends a s i). j \<le> length s" using Star.IH by blast
  from star_ends_bounds [OF this Star.prems(1)] Star.prems(2) show ?case by simp
next
  case (Alt a b)
  from Alt.prems(2) have "j \<in> set (ends a s i) \<or> j \<in> set (ends b s i)" by simp
  with Alt.IH [OF Alt.prems(1)] show ?case by blast
qed (simp_all split: if_split_asm)

lemma search_iff: "search r s \<longleftrightarrow> (\<exists>i \<le> length s. ends r s i \<noteq> [])"
  by (auto simp: search_def list_ex_iff less_Suc_eq_le simp del: upt_Suc)

lemma ends_seqs_Cons:
  "set (ends (seqs (r # rs)) s i) = (\<Union>k \<in> set (ends r s i). set (ends (seqs rs) s k))"
  by (cases rs) auto

lemma ends_seqs_Nil: "ends (seqs []) s i = [i]"
  by simp

lemma ends_seqsI:
  "k \<in> set (ends r s i) \<Longrightarrow> j \<in> set (ends (seqs rs) s k) \<Longrightarrow> j \<in> set (ends (seqs (r # rs)) s i)"
  unfolding ends_seqs_Cons by (rule UN_I)

lemmas ends_seqs = ends_seqs_Cons ends_seqs_Nil

declare seqs.simps [simp del]

lemma search_seqs:
  "search (seqs rs) s \<longleftrightarrow> (\<exists>i \<le> length s. set (ends (seqs rs) s i) \<noteq> {})"
  by (simp add: search_iff)

section \<open>What the building blocks match\<close>

lemma star_Ch_ends:
  "length s - i \<le> k \<Longrightarrow> i \<le> length s \<Longrightarrow> j \<in> set (star_ends k (ends (Ch P) s) i) \<longleftrightarrow>
     i \<le> j \<and> j \<le> length s \<and> (\<forall>m. i \<le> m \<and> m < j \<longrightarrow> P (s ! m))"
proof (induction k arbitrary: i)
  case (Suc k)
  show ?case
  proof (cases "i < length s \<and> P (s ! i)")
    case True
    then have "j \<in> set (star_ends (Suc k) (ends (Ch P) s) i) \<longleftrightarrow> j = i \<or> j \<in> set (star_ends k (ends (Ch P) s) (Suc i))"
      by (auto split: if_splits)
    also have "\<dots> \<longleftrightarrow> i \<le> j \<and> j \<le> length s \<and> (\<forall>m. i \<le> m \<and> m < j \<longrightarrow> P (s ! m))"
    proof (cases "j = i")
      case True
      then show ?thesis using \<open>i < length s \<and> P (s ! i)\<close> by auto
    next
      case False
      have "(\<forall>m. i \<le> m \<and> m < j \<longrightarrow> P (s ! m)) \<longleftrightarrow> (\<forall>m. Suc i \<le> m \<and> m < j \<longrightarrow> P (s ! m))"
        using True by (metis Suc_leD Suc_leI le_neq_implies_less)
      moreover have "j \<in> set (star_ends k (ends (Ch P) s) (Suc i)) \<longleftrightarrow>
          Suc i \<le> j \<and> j \<le> length s \<and> (\<forall>m. Suc i \<le> m \<and> m < j \<longrightarrow> P (s ! m))"
        by (rule Suc.IH) (use Suc.prems True in auto)
      moreover have "i \<le> j \<longleftrightarrow> Suc i \<le> j" using False by auto
      ultimately show ?thesis using False by blast
    qed
    finally show ?thesis .
  next
    case False
    then show ?thesis using Suc.prems by (auto simp: le_less)
  qed
qed auto

lemma ends_spaces:
  "i \<le> length s \<Longrightarrow> j \<in> set (ends spaces s i) \<longleftrightarrow>
     i \<le> j \<and> j \<le> length s \<and> (\<forall>m. i \<le> m \<and> m < j \<longrightarrow> is_space (s ! m))"
  unfolding spaces_def using star_Ch_ends [of s i "length s - i" j is_space] by simp

lemma ends_lit: "i \<le> length s \<Longrightarrow>
    set (ends (lit w) s i) = (if prefix w (drop i s) then {i + length w} else {})"
proof (induction w arbitrary: i)
  case (Cons c w)
  have *: "prefix (c # w) (drop i s) \<longleftrightarrow> i < length s \<and> s ! i = c \<and> prefix w (drop (Suc i) s)"
    using Cons.prems by (cases "i < length s") (auto simp: Cons_nth_drop_Suc [symmetric])
  show ?case
  proof (cases w)
    case Nil
    then show ?thesis using * by (auto simp: lit_def chr_def seqs.simps)
  next
    case (Cons d w')
    then have "set (ends (lit (c # w)) s i) = (\<Union>k \<in> set (ends (chr c) s i). set (ends (lit w) s k))"
      by (simp add: lit_def ends_seqs_Cons)
    then show ?thesis using * Cons.IH [of "Suc i"] by (auto simp: chr_def)
  qed
qed (simp add: lit_def seqs.simps)

section \<open>Lines\<close>

text \<open>A line start of a text of joined lines is the start of one of the lines.\<close>

lemma join_Cons: "ls \<noteq> [] \<Longrightarrow> join sep (l # ls) = l @ sep @ join sep ls"
  by (cases ls) simp_all

lemma line_start:
  assumes "list_all (\<lambda>l. CHR 0x0A \<notin> set l) ls" "ls \<noteq> []" "i \<le> length (join [CHR 0x0A] ls)"
    "i = 0 \<or> join [CHR 0x0A] ls ! (i - 1) = CHR 0x0A"
  shows "\<exists>pre l post. ls = pre @ l # post \<and> drop i (join [CHR 0x0A] ls) = join [CHR 0x0A] (l # post)"
  using assms
proof (induction ls arbitrary: i)
  case (Cons l ls)
  show ?case
  proof (cases "i = 0")
    case True
    then show ?thesis by (intro exI [of _ "[]"] exI [of _ l] exI [of _ ls]) simp
  next
    case False
    then have nl: "join [CHR 0x0A] (l # ls) ! (i - 1) = CHR 0x0A" using Cons.prems(4) by simp
    have i1: "i - 1 \<ge> length l"
    proof (rule ccontr)
      assume "\<not> ?thesis"
      then have "i - 1 < length l" by simp
      then have "join [CHR 0x0A] (l # ls) ! (i - 1) = l ! (i - 1)"
        by (cases "ls = []") (simp_all add: join_Cons nth_append)
      with nl \<open>i - 1 < length l\<close> have "CHR 0x0A \<in> set l" by (metis nth_mem)
      with Cons.prems(1) show False by simp
    qed
    have ls: "ls \<noteq> []" using Cons.prems(3) i1 False by (cases ls) auto
    define j where "j = i - Suc (length l)"
    have i: "i = Suc (length l) + j" using i1 False by (simp add: j_def)
    have "j \<le> length (join [CHR 0x0A] ls)" using Cons.prems(3) i ls by (simp add: join_Cons)
    moreover have "j = 0 \<or> join [CHR 0x0A] ls ! (j - 1) = CHR 0x0A"
    proof (cases "j = 0")
      case False
      then have "join [CHR 0x0A] (l # ls) ! (i - 1) = join [CHR 0x0A] ls ! (j - 1)"
        using i ls by (simp add: join_Cons nth_append)
      with nl show ?thesis by simp
    qed simp
    ultimately obtain pre k post where "ls = pre @ k # post"
      "drop j (join [CHR 0x0A] ls) = join [CHR 0x0A] (k # post)"
      using Cons.IH [of j] Cons.prems(1) ls by auto
    moreover have "drop i (join [CHR 0x0A] (l # ls)) = drop j (join [CHR 0x0A] ls)"
      using i ls by (simp add: join_Cons)
    ultimately show ?thesis by (intro exI [of _ "l # pre"]) auto
  qed
qed simp

lemma line_start_conv:
  "ls = pre @ l # post \<Longrightarrow> \<exists>i \<le> length (join [CHR 0x0A] ls).
     (i = 0 \<or> join [CHR 0x0A] ls ! (i - 1) = CHR 0x0A) \<and> drop i (join [CHR 0x0A] ls) = join [CHR 0x0A] (l # post)"
proof (induction pre arbitrary: ls)
  case (Cons p pre)
  obtain i where i: "i \<le> length (join [CHR 0x0A] (pre @ l # post))"
    "i = 0 \<or> join [CHR 0x0A] (pre @ l # post) ! (i - 1) = CHR 0x0A"
    "drop i (join [CHR 0x0A] (pre @ l # post)) = join [CHR 0x0A] (l # post)"
    using Cons.IH by blast
  have ls: "join [CHR 0x0A] ls = p @ CHR 0x0A # join [CHR 0x0A] (pre @ l # post)"
    using Cons.prems by (simp add: join_Cons)
  show ?case
    using i by (intro exI [of _ "Suc (length p) + i"]) (auto simp: ls nth_append nth_Cons')
qed (auto intro: exI [of _ 0])

end
