(* ===== verification/Json_Text.thy ===== *)
theory Json_Text
  imports PyText
begin

text \<open>
  \<open>json.loads\<close> on the texts of the model: the grammar of RFC 8259 as Python reads it
  (a repeated key keeps its last value, numbers with a fraction or an exponent are
  floats). The recursion spends one unit of fuel per value; the length of the text is
  enough. The escapes \<open>\u\<close> above 255 and the literals \<open>NaN\<close> and \<open>Infinity\<close> are
  outside the model's texts and numbers.
\<close>

definition json_ws :: "char \<Rightarrow> bool" where
  "json_ws c = (c = CHR '' '' \<or> c = CHR 0x09 \<or> c = CHR 0x0A \<or> c = CHR 0x0D)"

definition skip_ws :: "string \<Rightarrow> string" where
  "skip_ws s = dropWhile json_ws s"

definition hex_val :: "char \<Rightarrow> nat option" where
  "hex_val c = (let n = of_char c :: nat in
     if 48 \<le> n \<and> n \<le> 57 then Some (n - 48)
     else if 65 \<le> n \<and> n \<le> 70 then Some (n - 55)
     else if 97 \<le> n \<and> n \<le> 102 then Some (n - 87) else None)"

definition hex4 :: "char \<Rightarrow> char \<Rightarrow> char \<Rightarrow> char \<Rightarrow> char option" where
  "hex4 a b c d = (case (hex_val a, hex_val b, hex_val c, hex_val d) of
     (Some x, Some y, Some z, Some w) \<Rightarrow> if x = 0 \<and> y = 0 then Some (char_of (16 * z + w)) else None
   | _ \<Rightarrow> None)"

definition unescape :: "char \<Rightarrow> char option" where
  "unescape e =
     (if e = CHR 0x22 \<or> e = CHR 0x5C \<or> e = CHR ''/'' then Some e
      else if e = CHR ''n'' then Some (CHR 0x0A)
      else if e = CHR ''t'' then Some (CHR 0x09)
      else if e = CHR ''r'' then Some (CHR 0x0D)
      else if e = CHR ''b'' then Some (CHR 0x08)
      else if e = CHR ''f'' then Some (CHR 0x0C)
      else None)"

definition cons_char :: "char \<Rightarrow> (string \<times> string) option \<Rightarrow> (string \<times> string) option" where
  "cons_char c r = map_option (\<lambda>(x, t). (c # x, t)) r"

fun p_chars :: "string \<Rightarrow> (string \<times> string) option"
  and p_escape :: "string \<Rightarrow> (string \<times> string) option"
  and p_uni :: "string \<Rightarrow> (string \<times> string) option" where
  "p_chars [] = None"
| "p_chars (c # s) =
     (if c = CHR 0x22 then Some ([], s)
      else if (of_char c :: nat) < 32 then None
      else if c = CHR 0x5C then p_escape s
      else cons_char c (p_chars s))"
| "p_escape [] = None"
| "p_escape (e # s) =
     (if e = CHR ''u'' then p_uni s
      else case unescape e of None \<Rightarrow> None | Some x \<Rightarrow> cons_char x (p_chars s))"
| "p_uni (a # b # c # d # s) = (case hex4 a b c d of None \<Rightarrow> None | Some x \<Rightarrow> cons_char x (p_chars s))"
| "p_uni s = None"

definition p_digits :: "string \<Rightarrow> (string \<times> string) option" where
  "p_digits s = (let d = takeWhile is_digit s in if d = [] then None else Some (d, dropWhile is_digit s))"

definition p_number :: "string \<Rightarrow> (json \<times> string) option" where
  "p_number s =
     (let neg = (case s of c # _ \<Rightarrow> c = CHR ''-'' | [] \<Rightarrow> False); s1 = (if neg then tl s else s) in
      case p_digits s1 of
        None \<Rightarrow> None
      | Some (ip0, r0) \<Rightarrow>
          (let ip = (if hd ip0 = CHR ''0'' then [CHR ''0''] else ip0);
               r1 = (if hd ip0 = CHR ''0'' then tl s1 else r0);
               sg = (if neg then - 1 else 1 :: int);
               (fp, r2) = (case r1 of
                   c # r \<Rightarrow> if c = CHR ''.'' then (case p_digits r of None \<Rightarrow> ([], r1) | Some (d, q) \<Rightarrow> (d, q)) else ([], r1)
                 | [] \<Rightarrow> ([], r1));
               (ex, r3) = (case r2 of
                   c # r \<Rightarrow> if c = CHR ''e'' \<or> c = CHR ''E'' then
                     (let en = (case r of x # _ \<Rightarrow> x = CHR ''-'' | [] \<Rightarrow> False);
                          ep = (case r of x # _ \<Rightarrow> x = CHR ''+'' | [] \<Rightarrow> False);
                          r' = (if en \<or> ep then tl r else r) in
                      case p_digits r' of None \<Rightarrow> (None, r2)
                      | Some (d, q) \<Rightarrow> (Some ((if en then - 1 else 1 :: int) * int (digits_val 0 d)), q))
                   else (None, r2)
                 | [] \<Rightarrow> (None, r2))
           in if fp = [] \<and> ex = None then Some (JInt (sg * int (digits_val 0 ip)), r3)
              else (let m = of_int sg * real (digits_val 0 (ip @ fp)) / 10 ^ length fp;
                        e = (case ex of None \<Rightarrow> 0 | Some e \<Rightarrow> e) in
                Some (JFloat (if 0 \<le> e then m * 10 ^ nat e else m / 10 ^ nat (- e)), r3))))"

definition p_lit :: "string \<Rightarrow> json \<Rightarrow> string \<Rightarrow> (json \<times> string) option" where
  "p_lit w v s = (if prefix w s then Some (v, drop (length w) s) else None)"

fun p_val :: "nat \<Rightarrow> string \<Rightarrow> (json \<times> string) option"
  and p_elems :: "nat \<Rightarrow> string \<Rightarrow> (json list \<times> string) option"
  and p_members :: "nat \<Rightarrow> (string, json) dict \<Rightarrow> string \<Rightarrow> ((string, json) dict \<times> string) option" where
  "p_val 0 s = None"
| "p_val (Suc n) s = (case skip_ws s of
      [] \<Rightarrow> None
    | c # r \<Rightarrow>
        if c = CHR 0x22 then (case p_chars r of None \<Rightarrow> None | Some (x, t) \<Rightarrow> Some (JStr x, t))
        else if c = CHR ''['' then
          (case skip_ws r of
             [] \<Rightarrow> None
           | d # r' \<Rightarrow> if d = CHR '']'' then Some (JArr [], r')
               else (case p_elems n r of None \<Rightarrow> None | Some (vs, t) \<Rightarrow> Some (JArr vs, t)))
        else if c = CHR ''{'' then
          (case skip_ws r of
             [] \<Rightarrow> None
           | d # r' \<Rightarrow> if d = CHR ''}'' then Some (JObj [], r')
               else (case p_members n [] r of None \<Rightarrow> None | Some (kvs, t) \<Rightarrow> Some (JObj kvs, t)))
        else if c = CHR ''n'' then p_lit ''null'' JNull (c # r)
        else if c = CHR ''t'' then p_lit ''true'' (JBool True) (c # r)
        else if c = CHR ''f'' then p_lit ''false'' (JBool False) (c # r)
        else p_number (c # r))"
| "p_elems 0 s = None"
| "p_elems (Suc n) s = (case p_val n s of
      None \<Rightarrow> None
    | Some (v, t) \<Rightarrow> (case skip_ws t of
        [] \<Rightarrow> None
      | c # r \<Rightarrow> if c = CHR '','' then (case p_elems n r of None \<Rightarrow> None | Some (vs, u) \<Rightarrow> Some (v # vs, u))
          else if c = CHR '']'' then Some ([v], r) else None))"
| "p_members 0 d s = None"
| "p_members (Suc n) d s = (case skip_ws s of
      [] \<Rightarrow> None
    | q # s1 \<Rightarrow> if q \<noteq> CHR 0x22 then None else
      (case p_chars s1 of
         None \<Rightarrow> None
       | Some (k, s2) \<Rightarrow> (case skip_ws s2 of
           [] \<Rightarrow> None
         | c # s3 \<Rightarrow> if c \<noteq> CHR '':'' then None else
           (case p_val n s3 of
              None \<Rightarrow> None
            | Some (v, s4) \<Rightarrow> (case skip_ws s4 of
                [] \<Rightarrow> None
              | e # s5 \<Rightarrow> if e = CHR '','' then p_members n (dset k v d) s5
                  else if e = CHR ''}'' then Some (dset k v d, s5) else None)))))"

text \<open>\<open>json.loads\<close>: a \<open>ValueError\<close> (\<open>None\<close>) unless one value spans the text.\<close>

definition loads :: "string \<Rightarrow> json option" where
  "loads s = (case p_val (2 * length s + 2) s of
     None \<Rightarrow> None
   | Some (v, r) \<Rightarrow> if skip_ws r = [] then Some v else None)"

lemma p_members_wf: "dwf d \<Longrightarrow> p_members n d s = Some (d', r) \<Longrightarrow> dwf d'"
proof (induction n arbitrary: d s)
  case (Suc n)
  have step: "dwf (dset k v d)" for k v using Suc.prems(1) by simp
  show ?case using Suc.prems(2) Suc.IH [OF step] step
    by (auto split: list.split_asm option.split_asm if_split_asm prod.split_asm)
qed simp


section \<open>The fuel is enough\<close>

lemma skip_ws_length: "length (skip_ws s) \<le> length s"
  by (simp add: skip_ws_def length_dropWhile_le)

lemma skip_ws_Cons: "skip_ws s = c # r \<Longrightarrow> length r < length s"
  using skip_ws_length [of s] by simp

lemma cons_char_Some: "cons_char c r = Some (x, t) \<longleftrightarrow> (\<exists>y. r = Some (y, t) \<and> x = c # y)"
  by (auto simp: cons_char_def)

lemma p_chars_length:
  "p_chars s = Some (x, t) \<Longrightarrow> length t < length s"
  "p_escape s = Some (x, t) \<Longrightarrow> length t < length s"
  "p_uni s = Some (x, t) \<Longrightarrow> length t < length s"
proof (induction s and s and s arbitrary: x and x and x rule: p_chars_p_escape_p_uni.induct)
  case (2 c s)
  then show ?case by (auto simp: cons_char_Some less_Suc_eq split: if_split_asm)
next
  case (4 e s)
  then show ?case by (auto simp: cons_char_Some less_Suc_eq split: if_split_asm option.split_asm)
next
  case (5 a b c d s)
  then show ?case by (fastforce simp: cons_char_Some less_Suc_eq split: option.split_asm)
qed simp_all

lemma p_digits_length: "p_digits s = Some (d, t) \<Longrightarrow> length t < length s"
proof -
  assume h: "p_digits s = Some (d, t)"
  then have "length s = length d + length t" "d \<noteq> []"
    by (auto simp: p_digits_def Let_def split: if_splits)
       (metis length_append takeWhile_dropWhile_id)
  then show ?thesis by (cases d) simp_all
qed

end
