(* ===== verification/Content_Guards.thy ===== *)
theory Content_Guards
  imports Regex Json_Text
begin

text \<open>
  The pure guards of \<open>src/tools/content_guards.py\<close>: the sanitizer of review text, the
  detector of low-value artifacts and the normalized titles of the duplicate check.
  \<open>hashlib.sha256\<close> is a parameter.
\<close>

section \<open>Review text\<close>

definition LEAKED_REVIEW_PLACEHOLDER :: string where
  "LEAKED_REVIEW_PLACEHOLDER =
     ''_(review suppressed: critic returned tool-call JSON instead of prose; rerun critic with stricter system prompt)_''"

definition STUB_THINKING_FRAGMENTS :: "string list" where
  "STUB_THINKING_FRAGMENTS =
     [''the code snippet is empty'', ''let me first check if there are any files'',
      ''i'' @ [CHR 0x27] @ ''ll review the kotlin'', ''review completed and saved to'']"

definition TOOL_CALL_KEYS :: "string list" where
  "TOOL_CALL_KEYS = [''action'', ''tool_name'', ''tool_args'', ''arguments'']"

definition FENCE :: string where
  "FENCE = replicate 3 (CHR 0x60)"

definition strip_code_fence :: "string \<Rightarrow> string" where
  "strip_code_fence text =
     (let t = strip text in
      if startswith t FENCE then
        (let t1 = (if List.member t (CHR 0x0A) then tl (dropWhile (\<lambda>c. c \<noteq> CHR 0x0A) t) else t);
             t2 = (if endswith (rstrip t1) FENCE
                   then rstrip (take (length (rstrip t1) - 3) (rstrip t1)) else t1)
         in strip t2)
      else strip t)"

fun has_tool_call_keys :: "json \<Rightarrow> bool" where
  "has_tool_call_keys (JObj d) = list_ex (\<lambda>k. dmem k d) TOOL_CALL_KEYS"
| "has_tool_call_keys (JArr xs) = list_ex has_tool_call_keys xs"
| "has_tool_call_keys _ = False"

definition looks_like_tool_call_json :: "string \<Rightarrow> bool" where
  "looks_like_tool_call_json text =
     (case strip_code_fence text of
        [] \<Rightarrow> False
      | c # r \<Rightarrow> if c \<noteq> CHR ''['' \<and> c \<noteq> CHR ''{'' then False
          else (case loads (c # r) of None \<Rightarrow> False | Some parsed \<Rightarrow> has_tool_call_keys parsed))"

definition sanitize_review :: "string option \<Rightarrow> string" where
  "sanitize_review text =
     (case text of
        None \<Rightarrow> LEAKED_REVIEW_PLACEHOLDER
      | Some t \<Rightarrow>
          (let stripped = strip t in
           if stripped = [] then LEAKED_REVIEW_PLACEHOLDER
           else if looks_like_tool_call_json stripped then LEAKED_REVIEW_PLACEHOLDER
           else if list_ex (\<lambda>frag. contains (lower stripped) frag) STUB_THINKING_FRAGMENTS
             then LEAKED_REVIEW_PLACEHOLDER
           else stripped))"

section \<open>Low-value content\<close>

definition DEFAULT_MIN_BYTES :: int where
  "DEFAULT_MIN_BYTES = 80"

definition STUB_BODY_PATTERNS :: "regex list" where
  "STUB_BODY_PATTERNS =
     [seqs [BolM, spaces, Alt (lit ''//'') (chr (CHR ''#'')), spaces, liti ''todo'', spaces, EolM],
      seqs [BolM, spaces, lit ''pass'', spaces, EolM]]"

text \<open>The lines \<open>_strip_comments_and_blanks\<close> keeps.\<close>

definition code_lines :: "string \<Rightarrow> string list" where
  "code_lines text = filter (\<lambda>line. line \<noteq> [] \<and> \<not> (startswith line ''//'' \<or> startswith line ''#''))
     (map strip (splitlines text))"

definition strip_comments_and_blanks :: "string \<Rightarrow> string" where
  "strip_comments_and_blanks text = join [CHR 0x0A] (code_lines text)"

definition is_low_value_content :: "string option \<Rightarrow> int \<Rightarrow> bool" where
  "is_low_value_content text min_bytes =
     (case text of
        None \<Rightarrow> True
      | Some t \<Rightarrow>
          if length (strip t) = 0 then True
          else (let stripped_body = strip_comments_and_blanks t; n = int (length stripped_body) in
            if n < min_bytes then True
            else list_ex (\<lambda>pat. search pat stripped_body \<and> n < min_bytes * 2) STUB_BODY_PATTERNS))"

section \<open>Duplicate titles\<close>

definition normalize_title :: "string \<Rightarrow> string" where
  "normalize_title title = collapse_ws (lower (strip title))"

definition issue_signature :: "(string \<Rightarrow> string) \<Rightarrow> string \<Rightarrow> string option \<Rightarrow> string" where
  "issue_signature sha256 title body =
     sha256 (normalize_title title @
       (case body of None \<Rightarrow> []
        | Some b \<Rightarrow> if b = [] then [] else ''|'' @ take 200 (normalize_title b)))"

definition is_duplicate_title :: "string \<Rightarrow> string list \<Rightarrow> bool" where
  "is_duplicate_title new_title existing =
     list_ex (\<lambda>t. normalize_title t = normalize_title new_title) existing"

section \<open>Lemmas\<close>

lemma code_lines_line:
  "l \<in> set (code_lines t) \<Longrightarrow> l \<noteq> [] \<and> \<not> is_space (hd l) \<and> \<not> is_space (last l) \<and>
     \<not> startswith l ''//'' \<and> \<not> startswith l ''#''"
  unfolding code_lines_def using strip_hd strip_last by auto

lemma newline_space [simp]: "is_space (CHR 0x0A)" "is_newline (CHR 0x0A)"
  by (simp_all add: is_space_def is_newline_def)

lemma set_strip: "set (strip s) \<subseteq> set s"
proof -
  have "set (strip s) \<subseteq> set (lstrip s)"
    unfolding strip_def using set_mono_prefix [OF rstrip_prefix] .
  also have "\<dots> \<subseteq> set s" by (auto simp: lstrip_def dest: set_dropWhileD)
  finally show ?thesis .
qed

lemma code_lines_no_newline: "list_all (\<lambda>l. CHR 0x0A \<notin> set l) (code_lines t)"
proof -
  have "CHR 0x0A \<notin> set (strip l)" if "l \<in> set (splitlines t)" for l
    using splitlines_no_newline [OF that] set_strip [of l] newline_space(2)
    by (metis list_all_iff subsetD)
  then show ?thesis by (auto simp: code_lines_def list_all_iff)
qed

text \<open>From a line start, white space matches only the empty string.\<close>

lemma spaces_at_line:
  assumes "drop i s = l @ r" "l \<noteq> []" "\<not> is_space (hd l)"
  shows "set (ends spaces s i) = {i}"
proof -
  have i: "i < length s" using assms(1,2) by (metis append_is_Nil_conv drop_eq_Nil not_le)
  have "s ! i = hd l" using assms i by (metis hd_append2 hd_drop_conv_nth)
  with assms(3) i show ?thesis by (auto simp: ends_spaces)
     (metis le_neq_implies_less le_refl)
qed

text \<open>A line end reached from the start of a stripped line over white space only: the
  rest of the line is empty.\<close>

lemma line_rest_empty:
  assumes "drop i s = r @ post" "r = [] \<or> \<not> is_space (last r)" "CHR 0x0A \<notin> set r" "i \<le> length s"
    "k \<in> set (ends spaces s i)" "ends EolM s k \<noteq> []"
  shows "r = []"
proof (rule ccontr)
  assume "r \<noteq> []"
  have k: "i \<le> k" "k \<le> length s" "\<forall>m. i \<le> m \<and> m < k \<longrightarrow> is_space (s ! m)"
    using assms(4,5) by (auto simp: ends_spaces)
  let ?m = "i + (length r - 1)"
  have len: "length r > 0" "i + length r \<le> length s" 
    using \<open>r \<noteq> []\<close> assms(1,4) by (auto dest: arg_cong [where f = length])
  have sm: "s ! (i + j) = r ! j" if "j < length r" for j
    using arg_cong [OF assms(1), of "\<lambda>x. x ! j"] that len by (simp add: nth_append)
  have "s ! ?m = r ! (length r - 1)" by (rule sm) (use len in simp)
  then have "\<not> is_space (s ! ?m)" using assms(2) \<open>r \<noteq> []\<close> last_conv_nth [of r] by metis
  then have "k \<le> ?m" using k by (metis le_add1 not_le)
  then have kr: "k - i < length r" using k(1) len by arith
  then have sk: "s ! k = r ! (k - i)" using k(1) sm [of "k - i"] by simp
  have "k < length s" using kr len k(1) by simp
  with sk have "r ! (k - i) = CHR 0x0A" using assms(6) by (auto split: if_splits)
  with kr assms(3) show False by (metis nth_mem)
qed

definition line_ok :: "string \<Rightarrow> bool" where
  "line_ok l \<longleftrightarrow> l \<noteq> [] \<and> \<not> is_space (hd l) \<and> \<not> is_space (last l) \<and> CHR 0x0A \<notin> set l"

abbreviation nl_join :: "string list \<Rightarrow> string" where
  "nl_join ls \<equiv> join [CHR 0x0A] ls"

definition line_tail :: "string list \<Rightarrow> string" where
  "line_tail post = (if post = [] then [] else CHR 0x0A # nl_join post)"

lemma join_line_tail: "nl_join (l # post) = l @ line_tail post"
  by (cases post) (simp_all add: line_tail_def)

text \<open>A short text without line break that is a prefix of a line and its tail is a prefix
  of the line.\<close>

lemma prefix_line: "CHR 0x0A \<notin> set w \<Longrightarrow> prefix w (l @ line_tail post) \<Longrightarrow> prefix w l"
proof (induction w arbitrary: l)
  case (Cons c w)
  show ?case
  proof (cases l)
    case Nil
    with Cons.prems show ?thesis by (simp add: line_tail_def split: if_split_asm)
  next
    case (Cons d l')
    with Cons.prems Cons.IH [of l'] show ?thesis by simp
  qed
qed simp

text \<open>A pattern that is anchored at a line start and skips white space matches at a line.\<close>

lemma anchored_search:
  assumes "list_all line_ok ls" "search (seqs (BolM # spaces # rs)) (nl_join ls)"
  shows "(\<exists>i pre l post. ls = pre @ l # post \<and> i \<le> length (nl_join ls) \<and>
       drop i (nl_join ls) = l @ line_tail post \<and> set (ends (seqs rs) (nl_join ls) i) \<noteq> {}) \<or>
     (ls = [] \<and> set (ends (seqs rs) [] 0) \<noteq> {})"
proof -
  let ?s = "nl_join ls"
  obtain i where i: "i \<le> length ?s" "set (ends (seqs (BolM # spaces # rs)) ?s i) \<noteq> {}"
    using assms(2) by (auto simp: search_seqs)
  then have b: "i = 0 \<or> ?s ! (i - 1) = CHR 0x0A"
    and e: "(\<Union>k \<in> set (ends spaces ?s i). set (ends (seqs rs) ?s k)) \<noteq> {}"
    by (auto simp: ends_seqs_Cons split: if_split_asm)
  show ?thesis
  proof (cases "ls = []")
    case True
    with i e show ?thesis by (simp add: spaces_def)
  next
    case False
    have "list_all (\<lambda>l. CHR 0x0A \<notin> set l) ls" using assms(1) by (auto simp: list_all_iff line_ok_def)
    from line_start [OF this False i(1) b] obtain pre l post where
      l: "ls = pre @ l # post" "drop i ?s = l @ line_tail post" by (auto simp: join_line_tail)
    with assms(1) have "set (ends spaces ?s i) = {i}"
      by (intro spaces_at_line [OF l(2)]) (auto simp: line_ok_def)
    with e have "set (ends (seqs rs) ?s i) \<noteq> {}" by simp
    with l i(1) show ?thesis by blast
  qed
qed

lemma todo_pattern_dead:
  assumes "list_all line_ok ls" "\<forall>l \<in> set ls. \<not> startswith l ''//'' \<and> \<not> startswith l ''#''"
  shows "\<not> search (STUB_BODY_PATTERNS ! 0) (nl_join ls)"
proof
  let ?c = "Alt (lit ''//'') (chr (CHR ''#''))"
  assume "search (STUB_BODY_PATTERNS ! 0) (nl_join ls)"
  then have "search (seqs (BolM # spaces # [?c, spaces, liti ''todo'', spaces, EolM])) (nl_join ls)"
    by (simp add: STUB_BODY_PATTERNS_def)
  from anchored_search [OF assms(1) this] show False
  proof (elim disjE exE conjE)
    fix i pre l post
    assume l: "ls = pre @ l # post" "i \<le> length (nl_join ls)" "drop i (nl_join ls) = l @ line_tail post"
      and e: "set (ends (seqs [?c, spaces, liti ''todo'', spaces, EolM]) (nl_join ls) i) \<noteq> {}"
    have ok: "\<not> startswith l ''//''" "\<not> startswith l ''#''" using assms l(1) by auto
    have "\<not> prefix ''//'' (drop i (nl_join ls))" "\<not> prefix ''#'' (drop i (nl_join ls))"
      using prefix_line [of "''//''" l post] prefix_line [of "''#''" l post] ok l(3) by (auto simp: startswith_def)
    then have "set (ends ?c (nl_join ls) i) = {}"
      using ends_lit [OF l(2), of "''//''"] ends_lit [OF l(2), of "''#''"] by (simp add: lit_def seqs.simps)
    with e show False by (simp add: ends_seqs_Cons)
  next
    assume "set (ends (seqs [?c, spaces, liti ''todo'', spaces, EolM]) [] 0) \<noteq> {}"
    then show False by (simp add: ends_seqs_Cons lit_def chr_def)
  qed
qed

lemma pass_pattern:
  assumes "list_all line_ok ls"
  shows "search (STUB_BODY_PATTERNS ! 1) (nl_join ls) \<longleftrightarrow> ''pass'' \<in> set ls"
proof
  let ?s = "nl_join ls"
  assume "search (STUB_BODY_PATTERNS ! 1) ?s"
  then have "search (seqs (BolM # spaces # [lit ''pass'', spaces, EolM])) ?s"
    by (simp add: STUB_BODY_PATTERNS_def)
  from anchored_search [OF assms(1) this] show "''pass'' \<in> set ls"
  proof (elim disjE exE conjE)
    fix i pre l post
    assume l: "ls = pre @ l # post" "i \<le> length ?s" "drop i ?s = l @ line_tail post"
      and e: "set (ends (seqs [lit ''pass'', spaces, EolM]) ?s i) \<noteq> {}"
    have ok: "line_ok l" using assms l(1) by auto
    have p: "prefix ''pass'' (drop i ?s)" and k: "\<exists>k \<in> set (ends spaces ?s (i + 4)). ends EolM ?s k \<noteq> []"
      using e ends_lit [OF l(2), of "''pass''"]
      by (auto simp: ends_seqs eval_nat_numeral split: if_split_asm)
    then obtain r where r: "l = ''pass'' @ r"
      using prefix_line [of "''pass''" l post] l(3) by (auto simp: prefix_def)
    have "drop (i + 4) ?s = drop 4 (drop i ?s)" by (simp add: add.commute)
    then have d: "drop (i + 4) ?s = r @ line_tail post" using l(3) r by simp
    have "i + 4 \<le> length ?s" using l(3) r by (auto dest: arg_cong [where f = length])
    from k obtain k' where k': "k' \<in> set (ends spaces ?s (i + 4))" "ends EolM ?s k' \<noteq> []" by blast
    have "r = [] \<or> \<not> is_space (last r)" "CHR 0x0A \<notin> set r" using ok r by (auto simp: line_ok_def)
    from line_rest_empty [OF d this \<open>i + 4 \<le> length ?s\<close> k'] have "r = []" .
    with r l(1) show ?thesis by simp
  next
    assume "set (ends (seqs [lit ''pass'', spaces, EolM]) [] 0) \<noteq> {}"
    then show ?thesis by (simp add: ends_seqs_Cons ends_lit)
  qed
next
  let ?s = "nl_join ls"
  assume "''pass'' \<in> set ls"
  then obtain pre post where l: "ls = pre @ ''pass'' # post" by (meson split_list)
  from line_start_conv [OF this] obtain i where i: "i \<le> length ?s" "i = 0 \<or> ?s ! (i - 1) = CHR 0x0A"
    "drop i ?s = ''pass'' @ line_tail post" by (auto simp: join_line_tail)
  have len: "length ?s = i + 4 + length (line_tail post)" 
    using arg_cong [OF i(3), of length] i(1) by simp
  have "drop (i + 4) ?s = drop 4 (drop i ?s)" by (simp add: add.commute)
  then have d: "drop (i + 4) ?s = line_tail post" using i(3) by simp
  have eol: "i + 4 \<in> set (ends EolM ?s (i + 4))"
  proof (cases "post = []")
    case False
    then have "?s ! (i + 4) = CHR 0x0A" using d len
      by (metis hd_drop_conv_nth le_add1 le_neq_implies_less line_tail_def list.sel(1) list.size(3) add_cancel_left_right
          list.distinct(1) length_0_conv)
    then show ?thesis using len False by (simp add: line_tail_def)
  qed (simp add: len line_tail_def)
  have 1: "i \<in> set (ends BolM ?s i)" using i(1,2) by simp
  have 2: "i \<in> set (ends spaces ?s i)" using i(1) by (auto simp: ends_spaces)
  have "prefix ''pass'' (drop i ?s)" unfolding i(3) by simp
  then have 3: "i + 4 \<in> set (ends (lit ''pass'') ?s i)" using ends_lit [OF i(1), of "''pass''"] by simp
  have "i + 4 \<le> length ?s" using len by simp
  then have 4: "i + 4 \<in> set (ends spaces ?s (i + 4))" by (auto simp: ends_spaces)
  have 5: "i + 4 \<in> set (ends (seqs []) ?s (i + 4))" by (simp add: ends_seqs_Nil)
  from ends_seqsI [OF 1 ends_seqsI [OF 2 ends_seqsI [OF 3 ends_seqsI [OF 4 ends_seqsI [OF eol 5]]]]]
  have "i + 4 \<in> set (ends (seqs [BolM, spaces, lit ''pass'', spaces, EolM]) ?s i)" .
  then have "set (ends (seqs [BolM, spaces, lit ''pass'', spaces, EolM]) ?s i) \<noteq> {}" by (rule ex_in_conv [THEN iffD1, OF exI])
  with i(1) have "search (seqs [BolM, spaces, lit ''pass'', spaces, EolM]) ?s"
    unfolding search_seqs by (intro exI [of _ i] conjI)
  then show "search (STUB_BODY_PATTERNS ! 1) ?s" by (simp add: STUB_BODY_PATTERNS_def)
qed

lemma code_lines_ok: "list_all line_ok (code_lines t)"
  using code_lines_line code_lines_no_newline by (auto simp: list_all_iff line_ok_def)

section \<open>Properties\<close>

text \<open>What counts as low-value. A text is rejected exactly when it is missing or blank,
  when fewer than \<open>min_bytes\<close> characters of code are left after blank and comment lines
  are dropped, or when it has a line that is just \<open>pass\<close> and fewer than twice that. The
  pattern for a lone TODO comment never matches: comment lines are gone by then.\<close>

theorem is_low_value_content_exact:
  "is_low_value_content (Some t) m \<longleftrightarrow>
     strip t = [] \<or> int (length (strip_comments_and_blanks t)) < m \<or>
     (''pass'' \<in> set (code_lines t) \<and> int (length (strip_comments_and_blanks t)) < 2 * m)"
proof -
  have "\<forall>l \<in> set (code_lines t). \<not> startswith l ''//'' \<and> \<not> startswith l ''#''"
    using code_lines_line by blast
  then have "\<not> search (STUB_BODY_PATTERNS ! 0) (strip_comments_and_blanks t)"
    unfolding strip_comments_and_blanks_def by (rule todo_pattern_dead [OF code_lines_ok])
  moreover have "search (STUB_BODY_PATTERNS ! 1) (strip_comments_and_blanks t) \<longleftrightarrow> ''pass'' \<in> set (code_lines t)"
    unfolding strip_comments_and_blanks_def by (rule pass_pattern [OF code_lines_ok])
  moreover have "list_ex Q STUB_BODY_PATTERNS \<longleftrightarrow> Q (STUB_BODY_PATTERNS ! 0) \<or> Q (STUB_BODY_PATTERNS ! 1)" for Q
    by (simp add: STUB_BODY_PATTERNS_def)
  ultimately have "list_ex (\<lambda>pat. search pat (strip_comments_and_blanks t) \<and> n < m * 2) STUB_BODY_PATTERNS
      \<longleftrightarrow> ''pass'' \<in> set (code_lines t) \<and> n < m * 2" for n
    by presburger
  then show ?thesis by (simp add: is_low_value_content_def Let_def mult.commute)
qed

text \<open>The placeholder itself survives a second pass, so sanitizing is idempotent on it.\<close>

lemma sanitize_review_None [simp]: "sanitize_review None = LEAKED_REVIEW_PLACEHOLDER"
  by (simp add: sanitize_review_def)

lemma placeholder_nonempty: "LEAKED_REVIEW_PLACEHOLDER \<noteq> []"
  by (simp add: LEAKED_REVIEW_PLACEHOLDER_def)

lemma sanitize_review_cases:
  "sanitize_review (Some t) = LEAKED_REVIEW_PLACEHOLDER \<or>
   (sanitize_review (Some t) = strip t \<and> strip t \<noteq> [] \<and> \<not> looks_like_tool_call_json (strip t) \<and>
     (\<forall>frag \<in> set STUB_THINKING_FRAGMENTS. \<not> contains (lower (strip t)) frag))"
  by (auto simp: sanitize_review_def Let_def list_ex_iff)

text \<open>Sanitized review text is safe to publish. It is never blank and has no outer white
  space; unless it is the placeholder it is the stripped input, carries no tool-call JSON
  (fenced or not) and none of the thinking fragments.\<close>

theorem sanitize_review_safe:
  "sanitize_review t \<noteq> [] \<and>
   (sanitize_review t \<noteq> LEAKED_REVIEW_PLACEHOLDER \<longrightarrow>
      (\<exists>s. t = Some s \<and> sanitize_review t = strip s) \<and>
      strip (sanitize_review t) = sanitize_review t \<and>
      \<not> looks_like_tool_call_json (sanitize_review t) \<and>
      list_all (\<lambda>frag. \<not> contains (lower (sanitize_review t)) frag) STUB_THINKING_FRAGMENTS)"
proof (cases t)
  case None
  then show ?thesis by (simp add: placeholder_nonempty)
next
  case (Some s)
  with sanitize_review_cases [of s] placeholder_nonempty show ?thesis
    by (auto simp: list_all_iff)
qed

theorem sanitize_review_safe_witness:
  "\<not> looks_like_tool_call_json (sanitize_review (Some '' LGTM ''))"
proof -
  have "sanitize_review (Some '' LGTM '') = ''LGTM''" by code_simp
  moreover have "''LGTM'' \<noteq> LEAKED_REVIEW_PLACEHOLDER" by (simp add: LEAKED_REVIEW_PLACEHOLDER_def)
  ultimately show ?thesis using sanitize_review_safe [of "Some '' LGTM ''"] by metis
qed

lemma normalize_title_idem_space: "collapse_ws (normalize_title s) = normalize_title s"
  by (simp add: normalize_title_def)

text \<open>The duplicate check is the membership test of an equivalence: a title duplicates
  itself, the check is symmetric, and if one title duplicates another, both have the same
  duplicates and the same signature.\<close>

theorem is_duplicate_title_equiv:
  "is_duplicate_title a [a] \<and> (is_duplicate_title a [b] = is_duplicate_title b [a]) \<and>
   (is_duplicate_title a [b] \<longrightarrow>
      is_duplicate_title a ts = is_duplicate_title b ts \<and>
      issue_signature h a bd = issue_signature h b bd) \<and>
   (is_duplicate_title a ts = list_ex (\<lambda>t. is_duplicate_title a [t]) ts)"
  by (auto simp: is_duplicate_title_def issue_signature_def list_ex_iff)

theorem is_duplicate_title_equiv_witness:
  "is_duplicate_title ''Add  Tests'' [''x'', ''add tests '']"
proof -
  have "is_duplicate_title ''Add  Tests'' [''add tests '']" by code_simp
  moreover have "is_duplicate_title ''Add  Tests'' [''x'', ''add tests ''] =
      list_ex (\<lambda>t. is_duplicate_title ''Add  Tests'' [t]) [''x'', ''add tests '']"
    using is_duplicate_title_equiv [of "''Add  Tests''" "''x''" "[''x'', ''add tests '']" "\<lambda>x. x" None] by blast
  ultimately show ?thesis by simp
qed

end
