(* ===== verification/Quality_Gates.thy ===== *)
theory Quality_Gates
  imports Phases Content_Guards
begin

text \<open>
  The gates of \<open>src/services/quality_gates.py\<close>. A gate is a record of its name, its
  blocking flag, the phases it applies to and its evaluation, which may raise. What a
  gate reads outside the program (the result of a subprocess, the coverage file, the
  reviewer) is a parameter. The contract every gate owes the phase controller is the
  locale \<open>gate_contract\<close>, interpreted for each concrete gate.
\<close>

section \<open>The gate interface\<close>

record gate_result =
  gr_gate :: string
  gr_passed :: bool
  gr_blocking :: bool
  gr_evidence :: "(string, json) dict"
  gr_message :: string

record quality_gate =
  g_name :: string
  g_blocking :: bool
  g_applies_to :: "phase list"
  g_evaluate :: "work_item \<Rightarrow> gate_result result"

definition should_run :: "quality_gate \<Rightarrow> phase \<Rightarrow> bool" where
  "should_run g p \<longleftrightarrow> g_applies_to g = [] \<or> List.member (g_applies_to g) p"

section \<open>Concrete gates\<close>

definition ContentGuardGate :: "(real \<Rightarrow> string) \<Rightarrow> int \<Rightarrow> quality_gate" where
  "ContentGuardGate frepr min_bytes =
     \<lparr>g_name = ''content_guard'', g_blocking = True, g_applies_to = [REVIEW, GOVERN],
      g_evaluate = (\<lambda>item.
        let body = py_str frepr (dgetd (wi_payload item) ''body'' (JStr []));
            low = is_low_value_content (Some body) min_bytes
        in Inr \<lparr>gr_gate = ''content_guard'', gr_passed = \<not> low, gr_blocking = True,
                gr_evidence = [(''body_len'', JInt (int (length body)))],
                gr_message = (if low then ''body is low-value or only leakage'' else ''ok'')\<rparr>)\<rparr>"

text \<open>What \<open>subprocess.run\<close> does: the command is missing, times out, exits, or another
  error is raised.\<close>

datatype proc_outcome =
    ProcNotFound string
  | ProcTimeout string
  | ProcExit int string string
  | ProcError exn

definition tail_400 :: "string \<Rightarrow> string" where
  "tail_400 s = drop (length s - 400) s"

definition subprocess_evaluate ::
  "string \<Rightarrow> bool \<Rightarrow> string list \<Rightarrow> (string list \<Rightarrow> proc_outcome) \<Rightarrow> work_item \<Rightarrow> gate_result result" where
  "subprocess_evaluate name blocking cmd run item =
     (case run cmd of
        ProcNotFound m \<Rightarrow> Inr \<lparr>gr_gate = name, gr_passed = False, gr_blocking = blocking,
          gr_evidence = [(''error'', JStr ''FileNotFoundError'')],
          gr_message = name @ '' failed to run: '' @ m\<rparr>
      | ProcTimeout m \<Rightarrow> Inr \<lparr>gr_gate = name, gr_passed = False, gr_blocking = blocking,
          gr_evidence = [(''error'', JStr ''TimeoutExpired'')],
          gr_message = name @ '' failed to run: '' @ m\<rparr>
      | ProcError e \<Rightarrow> Inl e
      | ProcExit rc out err \<Rightarrow> Inr \<lparr>gr_gate = name, gr_passed = (rc = 0), gr_blocking = blocking,
          gr_evidence = [(''returncode'', JInt rc), (''stdout_tail'', JStr (tail_400 out)),
            (''stderr_tail'', JStr (tail_400 err))],
          gr_message = (if rc = 0 then ''clean'' else ''violations found'')\<rparr>)"

text \<open>The constructor: an explicit \<open>blocking\<close> overrides the class default \<open>False\<close>.\<close>

definition SubprocessGate ::
  "string \<Rightarrow> string list \<Rightarrow> phase list \<Rightarrow> bool option \<Rightarrow> (string list \<Rightarrow> proc_outcome) \<Rightarrow> quality_gate" where
  "SubprocessGate name cmd applies blocking run =
     (let b = (case blocking of None \<Rightarrow> False | Some b \<Rightarrow> b) in
      \<lparr>g_name = name, g_blocking = b, g_applies_to = applies,
       g_evaluate = subprocess_evaluate name b cmd run\<rparr>)"

definition LintGate where
  "LintGate = SubprocessGate ''lint'' [''ruff'', ''check'', ''src'', ''tests''] [REVIEW, GOVERN]"

definition TypecheckGate where
  "TypecheckGate = SubprocessGate ''typecheck'' [''mypy'', ''src''] [REVIEW, GOVERN]"

definition SecurityScanGate where
  "SecurityScanGate = SubprocessGate ''security_scan''
     [''bandit'', ''-q'', ''-r'', ''src'', ''-x'', ''src/staged_agents''] [GOVERN]"

text \<open>The coverage file: absent, not XML, or a root element with attributes. (The message for
  an absent file has a long dash, which the model's texts write as two hyphens.)\<close>

datatype coverage_file = CovMissing | CovParseError string | CovRoot "(string, string) dict"

definition coverage_rate :: "coverage_file \<Rightarrow> string + real" where
  "coverage_rate f = (case f of
      CovRoot attrib \<Rightarrow> (case dget attrib ''line-rate'' of
          None \<Rightarrow> Inr 0
        | Some t \<Rightarrow> (case py_float t of
            None \<Rightarrow> Inl (''could not convert string to float: '' @ repr_str t)
          | Some r \<Rightarrow> Inr r))
    | CovParseError e \<Rightarrow> Inl e
    | CovMissing \<Rightarrow> Inl [])"

definition TestCoverageGate :: "real \<Rightarrow> string \<Rightarrow> coverage_file \<Rightarrow> quality_gate" where
  "TestCoverageGate min_coverage path f =
     \<lparr>g_name = ''test_coverage'', g_blocking = True, g_applies_to = [GOVERN],
      g_evaluate = (\<lambda>item. Inr (case f of
          CovMissing \<Rightarrow> \<lparr>gr_gate = ''test_coverage'', gr_passed = False, gr_blocking = True,
            gr_evidence = [(''coverage_file'', JStr path)],
            gr_message = ''coverage.xml not found -- run coverage first''\<rparr>
        | _ \<Rightarrow> (case coverage_rate f of
            Inl e \<Rightarrow> \<lparr>gr_gate = ''test_coverage'', gr_passed = False, gr_blocking = True,
              gr_evidence = [(''error'', JStr e)], gr_message = ''failed to parse coverage.xml''\<rparr>
          | Inr rate \<Rightarrow> \<lparr>gr_gate = ''test_coverage'', gr_passed = (min_coverage \<le> rate), gr_blocking = True,
              gr_evidence = [(''rate'', JFloat rate), (''threshold'', JFloat min_coverage)],
              gr_message = ''coverage '' @ fmt_percent 1 rate @ '' vs threshold '' @ fmt_percent 0 min_coverage\<rparr>)))\<rparr>"

definition CriticReviewGate :: "(work_item \<Rightarrow> (string \<times> string) result) \<Rightarrow> quality_gate" where
  "CriticReviewGate reviewer =
     \<lparr>g_name = ''critic_review'', g_blocking = True, g_applies_to = [REVIEW],
      g_evaluate = (\<lambda>item. case reviewer item of
          Inl e \<Rightarrow> Inl e
        | Inr (status, summary) \<Rightarrow> Inr \<lparr>gr_gate = ''critic_review'', gr_passed = (status = ''pass''),
            gr_blocking = True, gr_evidence = [(''status'', JStr status)], gr_message = summary\<rparr>)\<rparr>"

section \<open>The contract of a gate\<close>

text \<open>
  A result names its gate and carries the gate's blocking flag. This is what lets the
  controller's report be read gate by gate, and what makes a gate that is declared
  advisory unable to block.
\<close>

locale gate_contract =
  fixes G :: quality_gate
  assumes names_itself: "g_evaluate G item = Inr r \<Longrightarrow> gr_gate r = g_name G"
    and keeps_blocking: "g_evaluate G item = Inr r \<Longrightarrow> gr_blocking r = g_blocking G"
begin

lemma advisory_never_blocks:
  "\<not> g_blocking G \<Longrightarrow> g_evaluate G item = Inr r \<Longrightarrow> \<not> (gr_blocking r \<and> \<not> gr_passed r)"
  using keeps_blocking by blast

end

lemma subprocess_contract: "gate_contract (SubprocessGate n c a b run)"
  by unfold_locales (auto simp: SubprocessGate_def Let_def subprocess_evaluate_def split: proc_outcome.splits)

interpretation content_guard: gate_contract "ContentGuardGate frepr m" for frepr m
  by unfold_locales (auto simp: ContentGuardGate_def Let_def)

interpretation lint: gate_contract "LintGate b run" for b run
  unfolding LintGate_def by (rule subprocess_contract)

interpretation typecheck: gate_contract "TypecheckGate b run" for b run
  unfolding TypecheckGate_def by (rule subprocess_contract)

interpretation security_scan: gate_contract "SecurityScanGate b run" for b run
  unfolding SecurityScanGate_def by (rule subprocess_contract)

interpretation test_coverage: gate_contract "TestCoverageGate m p f" for m p f
  by unfold_locales (auto simp: TestCoverageGate_def split: coverage_file.splits sum.splits)

interpretation critic_review: gate_contract "CriticReviewGate reviewer" for reviewer
  by unfold_locales (auto simp: CriticReviewGate_def split: sum.splits prod.splits)

text \<open>The default subprocess gates (lint, typecheck, security scan) are advisory: whatever
  the tool does, including not being installed or timing out, their result never blocks
  a transition.\<close>

theorem default_subprocess_gates_advisory:
  assumes "G \<in> {LintGate None run, TypecheckGate None run, SecurityScanGate None run}"
    and "g_evaluate G item = Inr r"
  shows "\<not> (gr_blocking r \<and> \<not> gr_passed r)"
  using assms lint.advisory_never_blocks [of None run] typecheck.advisory_never_blocks [of None run]
    security_scan.advisory_never_blocks [of None run]
  by (auto simp: LintGate_def TypecheckGate_def SecurityScanGate_def SubprocessGate_def Let_def)

definition demo_item :: work_item where
  "demo_item = \<lparr>wi_id = ''t1'', wi_phase = REVIEW, wi_payload = [], wi_history = []\<rparr>"

theorem default_subprocess_gates_advisory_witness:
  "\<exists>r. g_evaluate (LintGate None (\<lambda>_. ProcNotFound ''ruff'')) demo_item = Inr r \<and>
       \<not> gr_passed r \<and> \<not> (gr_blocking r \<and> \<not> gr_passed r)"
proof -
  let ?G = "LintGate None (\<lambda>_. ProcNotFound ''ruff'')"
  obtain r where r: "g_evaluate ?G demo_item = Inr r" "\<not> gr_passed r"
    by (simp add: LintGate_def SubprocessGate_def subprocess_evaluate_def)
  with default_subprocess_gates_advisory [of ?G "\<lambda>_. ProcNotFound ''ruff''" demo_item r] show ?thesis by blast
qed

lemma fmt_percent_total: "fmt_percent k x = fmt_fixed k (x * 100) @ ''%''"
  by (rule fmt_percent_def)

text \<open>The coverage gate is fail-closed. It never raises, and it passes only when the
  coverage file is there, parses, and has a line rate of at least the threshold (a
  missing rate counts as 0).\<close>

theorem test_coverage_fail_closed:
  "\<exists>r. g_evaluate (TestCoverageGate m p f) item = Inr r \<and>
     (gr_passed r \<longleftrightarrow> (\<exists>attrib. f = CovRoot attrib \<and>
        (case dget attrib ''line-rate'' of None \<Rightarrow> m \<le> 0 | Some t \<Rightarrow> (\<exists>x. py_float t = Some x \<and> m \<le> x))))"
  by (auto simp: TestCoverageGate_def coverage_rate_def split: coverage_file.splits option.splits)

end
