(* ===== verification/Workflow_Graphs.thy ===== *)
theory Workflow_Graphs
  imports PyText
begin

text \<open>
  The bounded decisions of \<open>src/services/workflow_graphs.py\<close>: the review-rework rule,
  its optional route through LangGraph, and the autonomous retry rule. The compiled
  LangGraph graph is third-party code: a parameter \<open>invoke\<close> that gets the node
  function and the state dictionary. The bounds are stated over whole cycles: a driver
  that counts an attempt for every decision to go round again.
\<close>

section \<open>Decisions\<close>

record review_loop_state =
  rl_attempts :: int
  rl_status :: string
  rl_summary :: string

record graph_decision =
  gd_next :: string
  gd_reason :: string

record autonomous_retry_state =
  ar_attempts :: int
  ar_status :: string
  ar_failure :: string

text \<open>The constructors validate \<open>ge=0\<close>.\<close>

definition ReviewLoopState :: "int \<Rightarrow> string \<Rightarrow> string \<Rightarrow> review_loop_state result" where
  "ReviewLoopState n st sm = (if n < 0 then Inl (Exn ''ValidationError'' ''builder_attempts'')
     else Inr \<lparr>rl_attempts = n, rl_status = st, rl_summary = sm\<rparr>)"

definition AutonomousRetryState :: "int \<Rightarrow> string \<Rightarrow> string \<Rightarrow> autonomous_retry_state result" where
  "AutonomousRetryState n st f = (if n < 0 then Inl (Exn ''ValidationError'' ''cycle_attempts'')
     else Inr \<lparr>ar_attempts = n, ar_status = st, ar_failure = f\<rparr>)"

definition review_rework_decision :: "review_loop_state \<Rightarrow> int \<Rightarrow> graph_decision" where
  "review_rework_decision s max_retries =
     (if rl_status s = ''pass'' then \<lparr>gd_next = ''stop'', gd_reason = ''review passed''\<rparr>
      else if rl_status s = ''block'' then
        \<lparr>gd_next = ''critic_stop'', gd_reason = ''review blocked by critic; rework not permitted''\<rparr>
      else if rl_attempts s < max_retries then
        \<lparr>gd_next = ''builder'',
         gd_reason = ''bounded retry ('' @ str_of_int (rl_attempts s) @ ''/'' @ str_of_int max_retries @ '')''\<rparr>
      else \<lparr>gd_next = ''critic_stop'',
         gd_reason = ''retry budget exhausted after '' @ str_of_int (rl_attempts s) @ '' attempt(s)''\<rparr>)"

section \<open>The LangGraph route\<close>

text \<open>The state dictionary of the graph, and the single node.\<close>

definition dump_state :: "review_loop_state \<Rightarrow> (string, json) dict" where
  "dump_state s = [(''builder_attempts'', JInt (rl_attempts s)), (''review_status'', JStr (rl_status s)),
     (''latest_summary'', JStr (rl_summary s))]"

definition key_error :: "string \<Rightarrow> exn" where
  "key_error k = Exn ''KeyError'' k"

definition state_of_dict :: "(string, json) dict \<Rightarrow> review_loop_state result" where
  "state_of_dict d =
     (case (dget d ''builder_attempts'', dget d ''review_status'', dget d ''latest_summary'') of
        (Some (JInt n), Some (JStr st), Some (JStr sm)) \<Rightarrow> ReviewLoopState n st sm
      | (Some a, Some b, Some c) \<Rightarrow> Inl (Exn ''ValidationError'' [])
      | (None, b, c) \<Rightarrow> Inl (key_error ''builder_attempts'')
      | (Some a, None, c) \<Rightarrow> Inl (key_error ''review_status'')
      | (Some a, Some b, None) \<Rightarrow> Inl (key_error ''latest_summary''))"

definition review_node :: "int \<Rightarrow> (string, json) dict \<Rightarrow> (string, json) dict result" where
  "review_node max_retries d = bindr (state_of_dict d) (\<lambda>s.
     let dec = review_rework_decision s max_retries in
     Inr (dset ''reason'' (JStr (gd_reason dec)) (dset ''next_step'' (JStr (gd_next dec)) d)))"

type_synonym graph_invoke =
  "((string, json) dict \<Rightarrow> (string, json) dict result) \<Rightarrow> (string, json) dict \<Rightarrow> (string, json) dict result"

definition run_review_rework_via_langgraph ::
  "graph_invoke \<Rightarrow> review_loop_state \<Rightarrow> int \<Rightarrow> graph_decision result" where
  "run_review_rework_via_langgraph invoke s max_retries =
     bindr (invoke (review_node max_retries) (dump_state s)) (\<lambda>res.
       case (dget res ''next_step'', dget res ''reason'') of
         (Some (JStr n), Some (JStr r)) \<Rightarrow> Inr \<lparr>gd_next = n, gd_reason = r\<rparr>
       | (None, r) \<Rightarrow> Inl (key_error ''next_step'')
       | (Some n, None) \<Rightarrow> Inl (key_error ''reason'')
       | (Some n, Some r) \<Rightarrow> Inl (Exn ''ValidationError'' []))"

text \<open>\<open>LANGGRAPH_AVAILABLE\<close> is whether the library was imported: \<open>Some invoke\<close>.\<close>

definition run_review_rework_cycle :: "graph_invoke option \<Rightarrow> review_loop_state \<Rightarrow> int \<Rightarrow> graph_decision result" where
  "run_review_rework_cycle langgraph s max_retries =
     (case langgraph of
        Some invoke \<Rightarrow> run_review_rework_via_langgraph invoke s max_retries
      | None \<Rightarrow> Inr (review_rework_decision s max_retries))"

definition run_autonomous_retry :: "autonomous_retry_state \<Rightarrow> int \<Rightarrow> graph_decision" where
  "run_autonomous_retry s max_cycles =
     (if ar_status s = ''success'' then \<lparr>gd_next = ''stop'', gd_reason = ''autonomous campaign succeeded''\<rparr>
      else if ar_status s = ''stop'' then \<lparr>gd_next = ''stop'', gd_reason = ''stop requested by upstream controller''\<rparr>
      else if ar_attempts s < max_cycles then
        \<lparr>gd_next = ''retry'',
         gd_reason = ''autonomous retry '' @ str_of_int (ar_attempts s + 1) @ ''/'' @ str_of_int max_cycles\<rparr>
      else \<lparr>gd_next = ''stop'',
         gd_reason = ''autonomous retry budget exhausted after '' @ str_of_int max_cycles @ '' cycle(s)''\<rparr>)"

section \<open>Bounded cycles\<close>

text \<open>
  The interface of a bounded decision: from an attempt count and a status it goes round
  again or halts, and at the budget it halts. A driver over an endless supply of
  statuses then stops after at most the budget.
\<close>

locale bounded_decision =
  fixes again :: "int \<Rightarrow> 'st \<Rightarrow> bool"
    and budget :: int
  assumes halts_at_budget: "budget \<le> n \<Longrightarrow> \<not> again n st"
begin

text \<open>The number of rounds a driver takes when the \<open>i\<close>-th status is \<open>sts i\<close>, at most \<open>fuel\<close>.\<close>

primrec rounds :: "nat \<Rightarrow> int \<Rightarrow> (nat \<Rightarrow> 'st) \<Rightarrow> nat" where
  "rounds 0 n sts = 0"
| "rounds (Suc k) n sts = (if again n (sts 0) then Suc (rounds k (n + 1) (\<lambda>i. sts (Suc i))) else 0)"

lemma rounds_le: "int (rounds k n sts) \<le> max 0 (budget - n)"
proof (induction k arbitrary: n sts)
  case (Suc k)
  show ?case
  proof (cases "again n (sts 0)")
    case True
    then have "n < budget" using halts_at_budget by (meson not_le)
    with Suc.IH [of "n + 1" "\<lambda>i. sts (Suc i)"] show ?thesis by simp
  qed simp
qed simp

lemma rounds_stable: "nat (max 0 (budget - n)) \<le> k \<Longrightarrow> rounds (Suc k) n sts = rounds k n sts"
proof (induction k arbitrary: n sts)
  case 0
  then show ?case using halts_at_budget [of n] by simp
next
  case (Suc k)
  show ?case
  proof (cases "again n (sts 0)")
    case True
    then have "n < budget" using halts_at_budget by (meson not_le)
    with Suc.prems have "nat (max 0 (budget - (n + 1))) \<le> k" by simp
    from Suc.IH [OF this, of "\<lambda>i. sts (Suc i)"] show ?thesis by simp
  qed simp
qed

end

definition rework_again :: "int \<Rightarrow> int \<Rightarrow> string \<Rightarrow> bool" where
  "rework_again max_retries n st =
     (gd_next (review_rework_decision \<lparr>rl_attempts = n, rl_status = st, rl_summary = []\<rparr> max_retries) = ''builder'')"

definition retry_again :: "int \<Rightarrow> int \<Rightarrow> string \<Rightarrow> bool" where
  "retry_again max_cycles n st =
     (gd_next (run_autonomous_retry \<lparr>ar_attempts = n, ar_status = st, ar_failure = []\<rparr> max_cycles) = ''retry'')"

interpretation rework: bounded_decision "rework_again m" m for m
  by unfold_locales (auto simp: rework_again_def review_rework_decision_def)

interpretation retry: bounded_decision "retry_again m" m for m
  by unfold_locales (auto simp: retry_again_def run_autonomous_retry_def)

text \<open>A review loop and a retry campaign as the program drives them: every decision to go
  round again counts an attempt.\<close>

fun rework_rounds :: "nat \<Rightarrow> int \<Rightarrow> int \<Rightarrow> (nat \<Rightarrow> string) \<Rightarrow> nat" where
  "rework_rounds 0 m n sts = 0"
| "rework_rounds (Suc k) m n sts =
     (if rework_again m n (sts 0) then Suc (rework_rounds k m (n + 1) (\<lambda>i. sts (Suc i))) else 0)"

lemma rework_rounds_eq: "rework_rounds k m n sts = rework.rounds m k n sts"
  by (induction k arbitrary: n sts) (simp_all add: rework.rounds.simps)

text \<open>Rework is bounded. Whatever statuses the critic returns, a review loop that starts at
  zero attempts sends the work back to the builder at most \<open>max_retries\<close> times, and
  giving it more rounds changes nothing.\<close>

theorem rework_cycle_bounded:
  "int (rework_rounds k m 0 sts) \<le> max 0 m \<and> rework_rounds (nat (max 0 m) + k) m 0 sts = rework_rounds (nat (max 0 m)) m 0 sts"
proof
  show "int (rework_rounds k m 0 sts) \<le> max 0 m"
    using rework.rounds_le [of m k 0 sts] by (simp add: rework_rounds_eq)
  show "rework_rounds (nat (max 0 m) + k) m 0 sts = rework_rounds (nat (max 0 m)) m 0 sts"
  proof (induction k)
    case (Suc k)
    have "rework.rounds m (Suc (nat (max 0 m) + k)) 0 sts = rework.rounds m (nat (max 0 m) + k) 0 sts"
      by (rule rework.rounds_stable) simp
    with Suc show ?case by (simp only: rework_rounds_eq add_Suc_right)
  qed simp
qed

text \<open>The two routes agree. If the compiled single-node graph applies its node to the state,
  which is what LangGraph documents for a graph whose entry and finish point is one node,
  the LangGraph route returns exactly the decision of the pure-Python rule.\<close>

theorem langgraph_route_equiv:
  assumes "\<And>node d. invoke node d = node d" and "ReviewLoopState n st sm = Inr s"
  shows "run_review_rework_cycle (Some invoke) s m = run_review_rework_cycle None s m"
proof -
  have "0 \<le> n" "s = \<lparr>rl_attempts = n, rl_status = st, rl_summary = sm\<rparr>"
    using assms(2) by (auto simp: ReviewLoopState_def split: if_splits)
  then show ?thesis
    by (simp add: run_review_rework_cycle_def run_review_rework_via_langgraph_def assms(1) review_node_def
        dump_state_def state_of_dict_def ReviewLoopState_def Let_def)
qed

theorem langgraph_route_equiv_witness:
  "run_review_rework_cycle (Some (\<lambda>node d. node d)) \<lparr>rl_attempts = 1, rl_status = ''retry'', rl_summary = []\<rparr> 2
     = Inr \<lparr>gd_next = ''builder'', gd_reason = ''bounded retry (1/2)''\<rparr>"
proof -
  have "ReviewLoopState 1 ''retry'' [] = Inr \<lparr>rl_attempts = 1, rl_status = ''retry'', rl_summary = []\<rparr>"
    by (simp add: ReviewLoopState_def)
  moreover have "review_rework_decision \<lparr>rl_attempts = 1, rl_status = ''retry'', rl_summary = []\<rparr> 2 =
      \<lparr>gd_next = ''builder'', gd_reason = ''bounded retry (1/2)''\<rparr>" by code_simp
  ultimately show ?thesis
    using langgraph_route_equiv [of "\<lambda>node d. node d" 1 "''retry''" "[]" _ 2]
    by (simp add: run_review_rework_cycle_def)
qed

end
