(* ===== verification/State_Manager.thy ===== *)
theory State_Manager
  imports PyText
begin

text \<open>
  The persistent state of \<open>src/state.py\<close> over the file locks of
  \<open>src/utils/file_lock.py\<close>. The file system is a record of JSON documents and
  JSON-lines logs by file name; a document is what \<open>json.loads\<close> makes of the text
  of the file. A block under \<open>locked_file\<close> excludes every other such block, so it
  is one step of the model; \<open>fault\<close> says whether the operating system lets the
  write of that step succeed. A \<open>StateManager\<close> is a record, and each of its
  operations takes and returns the manager and the file system.
\<close>

section \<open>Files\<close>

datatype jtext = Blank | Malformed | Doc json

datatype log_line = BlankLine | BadLine | Rec json

record fs =
  docs :: "(string, jtext) dict"
  logs :: "(string, log_line list) dict"

datatype fault = NoFault | FailMkstemp | FailDump | FailReplace

definition os_error :: exn where
  "os_error = Exn ''OSError'' ''''"

text \<open>
  \<open>_atomic_write_json\<close>: a temporary file in the same directory, then
  \<open>os.replace\<close>; on an error the temporary file is unlinked and the error raised.
\<close>

definition atomic_write_json ::
  "fault \<Rightarrow> string \<Rightarrow> string \<Rightarrow> (string, json) dict \<Rightarrow> fs \<Rightarrow> fs \<times> unit result" where
  "atomic_write_json flt tmp path d w =
     (if flt = FailMkstemp then (w, Inl os_error)
      else let w1 = w\<lparr>docs := dset tmp Blank (docs w)\<rparr> in
        if flt = FailDump
        then let w2 = w1\<lparr>docs := dset tmp Malformed (docs w1)\<rparr> in
             (w2\<lparr>docs := ddel tmp (docs w2)\<rparr>, Inl os_error)
        else let w2 = w1\<lparr>docs := dset tmp (Doc (JObj d)) (docs w1)\<rparr> in
          if flt = FailReplace then (w2\<lparr>docs := ddel tmp (docs w2)\<rparr>, Inl os_error)
          else (w2\<lparr>docs := dset path (Doc (JObj d)) (ddel tmp (docs w2))\<rparr>, Inr ()))"

text \<open>\<open>locked_append\<close>: the line goes to the end of the log, which is created if absent.\<close>

definition locked_append :: "string \<Rightarrow> log_line \<Rightarrow> fs \<Rightarrow> fs" where
  "locked_append path line w = w\<lparr>logs := dset path (dgetd (logs w) path [] @ [line]) (logs w)\<rparr>"

text \<open>
  \<open>locked_file\<close> opens in an effective mode, takes the lock, and only then truncates:
  the plan is the effective mode, the late truncation and the flush before release.
\<close>

record lock_plan =
  lp_mode :: string
  lp_truncate_after_lock :: bool
  lp_flush :: bool

definition locked_file_plan :: "string \<Rightarrow> bool \<Rightarrow> lock_plan" where
  "locked_file_plan mode exists =
     (let write_mode = List.member mode (CHR ''w'') \<or> List.member mode (CHR ''a'') \<or> List.member mode (CHR ''+'');
          late = (mode = ''w'' \<or> mode = ''w+'')
      in \<lparr>lp_mode = (if late then (if exists then ''r+'' else ''w+'') else mode),
          lp_truncate_after_lock = late, lp_flush = write_mode\<rparr>)"

text \<open>An open that empties an existing file: Python's modes that begin with \<open>w\<close>.\<close>

definition truncates_on_open :: "string \<Rightarrow> bool \<Rightarrow> bool" where
  "truncates_on_open mode exists = (exists \<and> startswith mode ''w'')"

section \<open>The manager\<close>

record state_manager =
  sm_storage_type :: string
  sm_base_filename :: string
  sm_base_event_filename :: string
  sm_tenant_id :: string
  sm_filename :: string
  sm_event_filename :: string
  sm_data :: "(string, json) dict"

text \<open>\<open>os.path.splitext\<close>: the last dot of the last path component, unless only dots
  precede it there.\<close>

definition splitext :: "string \<Rightarrow> string \<times> string" where
  "splitext p = (let r = rev p; ext = takeWhile (\<lambda>c. c \<noteq> CHR ''.'') r in
     if length ext = length p \<or> CHR ''/'' \<in> set ext then (p, [])
     else let root = rev (drop (Suc (length ext)) r);
              name = rev (takeWhile (\<lambda>c. c \<noteq> CHR ''/'') (rev root)) in
       if list_all (\<lambda>c. c = CHR ''.'') name then (p, [])
       else (root, CHR ''.'' # rev ext))"

definition get_tenant_filename :: "string \<Rightarrow> string \<Rightarrow> string" where
  "get_tenant_filename base_filename tenant_id =
     (if tenant_id = ''default'' then base_filename
      else case splitext base_filename of (base, ext) \<Rightarrow> base @ ''.'' @ tenant_id @ ext)"

definition get_tenant_event_filename :: "string \<Rightarrow> string \<Rightarrow> string" where
  "get_tenant_event_filename base_filename tenant_id =
     (if tenant_id = ''default'' then base_filename
      else case splitext base_filename of (base, ext) \<Rightarrow> base @ ''.'' @ tenant_id @ ext)"

text \<open>
  The constructor. A file whose text is no JSON gives an empty dictionary. A JSON
  document that is no dictionary is stored as it is and every operation on the manager
  then raises \<open>AttributeError\<close>: there the model has no manager (\<open>None\<close>).
\<close>

definition StateManager ::
  "string \<Rightarrow> string \<Rightarrow> string \<Rightarrow> string option \<Rightarrow> fs \<Rightarrow> state_manager option" where
  "StateManager storage_type fname event_fname tenant w =
     (let t = (case tenant of None \<Rightarrow> ''default'' | Some s \<Rightarrow> if s = [] then ''default'' else s);
          f = get_tenant_filename fname t;
          sm = \<lparr>sm_storage_type = storage_type, sm_base_filename = fname,
                sm_base_event_filename = event_fname, sm_tenant_id = t, sm_filename = f,
                sm_event_filename = get_tenant_event_filename event_fname t, sm_data = []\<rparr>
      in if storage_type = ''json'' then
           (case dget (docs w) f of
              None \<Rightarrow> Some sm
            | Some Blank \<Rightarrow> Some sm
            | Some Malformed \<Rightarrow> Some sm
            | Some (Doc (JObj d)) \<Rightarrow> Some (sm\<lparr>sm_data := d\<rparr>)
            | Some (Doc _) \<Rightarrow> None)
         else Some sm)"

definition for_tenant :: "string \<Rightarrow> state_manager \<Rightarrow> fs \<Rightarrow> state_manager option" where
  "for_tenant tenant sm w =
     StateManager (sm_storage_type sm) (sm_base_filename sm) (sm_base_event_filename sm) (Some tenant) w"

text \<open>
  \<open>_locked_persist_json\<close>: read, mutate and write the document under the lock. An
  unreadable or non-dictionary document raises and nothing is written.
\<close>

definition read_on_disk :: "string \<Rightarrow> fs \<Rightarrow> (string, json) dict result" where
  "read_on_disk f w = (case dget (docs w) f of
      None \<Rightarrow> Inr []
    | Some Blank \<Rightarrow> Inr []
    | Some Malformed \<Rightarrow> Inl (Exn ''JSONDecodeError'' '''')
    | Some (Doc (JObj d)) \<Rightarrow> Inr d
    | Some (Doc _) \<Rightarrow> Inl (Exn ''ValueError'' (''state file '' @ f @ '' contains non-dict JSON'')))"

definition touch_lock :: "string \<Rightarrow> fs \<Rightarrow> fs" where
  "touch_lock f w = (if dmem (f @ ''.lock'') (docs w) then w
     else w\<lparr>docs := dset (f @ ''.lock'') Blank (docs w)\<rparr>)"

definition locked_persist_json ::
  "fault \<Rightarrow> string \<Rightarrow> ((string, json) dict \<Rightarrow> (string, json) dict) \<Rightarrow> state_manager \<Rightarrow> fs
    \<Rightarrow> fs \<times> (string, json) dict result" where
  "locked_persist_json flt tmp mutate sm w =
     (let w0 = touch_lock (sm_filename sm) w in
      case read_on_disk (sm_filename sm) w0 of
        Inl e \<Rightarrow> (w0, Inl e)
      | Inr d \<Rightarrow> (case atomic_write_json flt tmp (sm_filename sm) (mutate d) w0 of
           (w', Inl e) \<Rightarrow> (w', Inl e)
         | (w', Inr _) \<Rightarrow> (w', Inr (mutate d))))"

definition append_event :: "json \<Rightarrow> state_manager \<Rightarrow> fs \<Rightarrow> fs" where
  "append_event event sm w = locked_append (sm_event_filename sm) (Rec event) w"

text \<open>
  \<open>_compute_diff\<close>: the keys of both dictionaries whose values differ. The code walks a
  set of keys; the model takes the keys of \<open>old\<close> first.
\<close>

definition diff_keys :: "(string, json) dict \<Rightarrow> (string, json) dict \<Rightarrow> string list" where
  "diff_keys old new = remdups (dkeys old) @ filter (\<lambda>k. \<not> dmem k old) (remdups (dkeys new))"

definition compute_diff :: "(string, json) dict \<Rightarrow> (string, json) dict \<Rightarrow> (string, json) dict" where
  "compute_diff old new = concat (map (\<lambda>k.
     let ov = dgetd old k JNull; nv = dgetd new k JNull in
     if py_eq ov nv then [] else [(k, JObj [(''old'', ov), (''new'', nv)])]) (diff_keys old new))"

definition attribute_error :: "string \<Rightarrow> exn" where
  "attribute_error m = Exn ''AttributeError'' m"

definition task_event :: "string \<Rightarrow> string \<Rightarrow> string \<Rightarrow> string \<Rightarrow> (string, json) dict \<Rightarrow> json" where
  "task_event now task_id agent action diff = JObj
     [(''timestamp'', JStr now), (''task_id'', JStr task_id), (''agent'', JStr agent),
      (''action'', JStr action), (''diff'', JObj diff)]"

text \<open>
  \<open>set_task\<close>. The old value comes from memory, the persisted dictionary from disk; the
  event follows the write, so a raise of the write leaves no event and a non-dictionary
  old value raises after the write.
\<close>

definition set_task ::
  "fault \<Rightarrow> string \<Rightarrow> string \<Rightarrow> string \<Rightarrow> (string, json) dict \<Rightarrow> string \<Rightarrow> state_manager \<Rightarrow> fs
    \<Rightarrow> state_manager \<times> fs \<times> unit result" where
  "set_task flt tmp now task_id task_data agent sm w =
     (let old = dgetd (sm_data sm) task_id (JObj []);
          stored = (if sm_storage_type sm = ''json''
            then (case locked_persist_json flt tmp (dset task_id (JObj task_data)) sm w of
                    (w', Inl e) \<Rightarrow> (sm, w', Inl e)
                  | (w', Inr merged) \<Rightarrow> (sm\<lparr>sm_data := merged\<rparr>, w', Inr ()))
            else (sm\<lparr>sm_data := dset task_id (JObj task_data) (sm_data sm)\<rparr>, w, Inr ()))
      in case stored of
           (sm', w', Inl e) \<Rightarrow> (sm', w', Inl e)
         | (sm', w', Inr _) \<Rightarrow> (case old of
              JObj o_ \<Rightarrow> (sm', append_event (task_event now task_id agent ''SET'' (compute_diff o_ task_data)) sm' w', Inr ())
            | _ \<Rightarrow> (sm', w', Inl (attribute_error ''keys''))))"

definition get_task :: "state_manager \<Rightarrow> string \<Rightarrow> json option" where
  "get_task sm task_id = dget (sm_data sm) task_id"

definition get_all_tasks :: "state_manager \<Rightarrow> (string, json) dict" where
  "get_all_tasks sm = sm_data sm"

definition delete_task ::
  "fault \<Rightarrow> string \<Rightarrow> string \<Rightarrow> string \<Rightarrow> string \<Rightarrow> state_manager \<Rightarrow> fs
    \<Rightarrow> state_manager \<times> fs \<times> unit result" where
  "delete_task flt tmp now task_id agent sm w =
     (let old = dget (sm_data sm) task_id;
          stored = (if sm_storage_type sm = ''json''
            then (case locked_persist_json flt tmp (ddel task_id) sm w of
                    (w', Inl e) \<Rightarrow> (sm, w', Inl e)
                  | (w', Inr merged) \<Rightarrow> (sm\<lparr>sm_data := merged\<rparr>, w', Inr ()))
            else (sm\<lparr>sm_data := ddel task_id (sm_data sm)\<rparr>, w, Inr ()))
      in case stored of
           (sm', w', Inl e) \<Rightarrow> (sm', w', Inl e)
         | (sm', w', Inr _) \<Rightarrow>
             (let emit = (\<lambda>d. (sm', append_event (task_event now task_id agent ''DELETE'' d) sm' w', Inr ())) in
              case old of
                None \<Rightarrow> emit []
              | Some v \<Rightarrow> if \<not> truthy v then emit []
                  else (case v of
                     JObj o_ \<Rightarrow> emit (compute_diff o_ [])
                   | _ \<Rightarrow> (sm', w', Inl (attribute_error ''keys'')))))"

text \<open>Reading the event log: blank and malformed lines are skipped.\<close>

fun log_records :: "log_line list \<Rightarrow> json list" where
  "log_records [] = []"
| "log_records (Rec v # ls) = v # log_records ls"
| "log_records (l # ls) = log_records ls"

definition get_all_events :: "state_manager \<Rightarrow> fs \<Rightarrow> json list" where
  "get_all_events sm w = (case dget (logs w) (sm_event_filename sm) of
     None \<Rightarrow> [] | Some ls \<Rightarrow> log_records ls)"

fun task_records :: "string \<Rightarrow> json list \<Rightarrow> json list result" where
  "task_records task_id [] = Inr []"
| "task_records task_id (JObj d # vs) = bindr (task_records task_id vs) (\<lambda>rs.
     Inr (if (case dget d ''task_id'' of None \<Rightarrow> False | Some v \<Rightarrow> py_eq v (JStr task_id)) then JObj d # rs else rs))"
| "task_records task_id (v # vs) = Inl (attribute_error ''get'')"

definition get_task_history :: "string \<Rightarrow> state_manager \<Rightarrow> fs \<Rightarrow> json list result" where
  "get_task_history task_id sm w = task_records task_id (get_all_events sm w)"

definition record_phase_transition ::
  "string \<Rightarrow> string \<Rightarrow> string \<Rightarrow> string \<Rightarrow> string \<Rightarrow> json list \<Rightarrow> state_manager \<Rightarrow> fs \<Rightarrow> fs" where
  "record_phase_transition now task_id from_phase to_phase reason gates sm w = append_event (JObj
     [(''timestamp'', JStr now), (''task_id'', JStr task_id), (''agent'', JStr ''PhaseController''),
      (''action'', JStr ''phase.transition''), (''from_phase'', JStr from_phase),
      (''to_phase'', JStr to_phase), (''reason'', JStr reason), (''gates'', JArr gates)]) sm w"

section \<open>Lemmas\<close>

text \<open>What a process that reads the file finds: the persisted dictionary.\<close>

definition on_disk :: "string \<Rightarrow> fs \<Rightarrow> string \<Rightarrow> json option" where
  "on_disk f w k = (case read_on_disk f w of Inl e \<Rightarrow> None | Inr d \<Rightarrow> dget d k)"

text \<open>The names the lock and the temporary file of a write take are not the file itself.\<close>

definition fresh_tmp :: "string \<Rightarrow> string \<Rightarrow> fs \<Rightarrow> bool" where
  "fresh_tmp tmp f w \<longleftrightarrow> tmp \<noteq> f \<and> tmp \<noteq> f @ ''.lock'' \<and> \<not> dmem tmp (docs w)"

lemma touch_lock_simps [simp]:
  "dget (docs (touch_lock f w)) f = dget (docs w) f"
  "logs (touch_lock f w) = logs w"
  "read_on_disk f (touch_lock f w) = read_on_disk f w"
  by (simp_all add: touch_lock_def read_on_disk_def)

lemma touch_lock_other: "g \<noteq> f @ ''.lock'' \<Longrightarrow> dget (docs (touch_lock f w)) g = dget (docs w) g"
  by (simp add: touch_lock_def)

lemma atomic_write_cases:
  assumes "\<not> dmem tmp (docs w)" "tmp \<noteq> path"
  shows "(snd (atomic_write_json flt tmp path d w) = Inl os_error \<and> flt \<noteq> NoFault \<and>
           dget (docs (fst (atomic_write_json flt tmp path d w))) = dget (docs w)) \<or>
         (snd (atomic_write_json flt tmp path d w) = Inr () \<and> flt = NoFault \<and>
           dget (docs (fst (atomic_write_json flt tmp path d w))) = (dget (docs w))(path \<mapsto> Doc (JObj d)))"
proof -
  have "dget (docs w) tmp = None" using assms(1) by (simp add: dmem_def split: option.splits)
  then show ?thesis using assms(2)
    by (cases flt) (auto simp: atomic_write_json_def Let_def fun_eq_iff)
qed

lemma atomic_write_logs [simp]: "logs (fst (atomic_write_json flt tmp path d w)) = logs w"
  by (cases flt) (simp_all add: atomic_write_json_def Let_def)

lemma fresh_tmp_touch: "fresh_tmp tmp f w \<Longrightarrow> \<not> dmem tmp (docs (touch_lock f w)) \<and> tmp \<noteq> f"
  by (auto simp: fresh_tmp_def touch_lock_def)

lemma locked_persist_logs [simp]: "logs (fst (locked_persist_json flt tmp m sm w)) = logs w"
  by (auto simp: locked_persist_json_def Let_def split: sum.splits prod.splits)
     (metis atomic_write_logs fst_conv touch_lock_simps(2))+

lemma locked_persist_ok:
  assumes "fresh_tmp tmp (sm_filename sm) w" "read_on_disk (sm_filename sm) w = Inr d" "flt = NoFault"
  shows "snd (locked_persist_json flt tmp m sm w) = Inr (m d) \<and>
         read_on_disk (sm_filename sm) (fst (locked_persist_json flt tmp m sm w)) = Inr (m d)"
  using atomic_write_cases [of tmp "touch_lock (sm_filename sm) w" "sm_filename sm" flt "m d"]
    fresh_tmp_touch [OF assms(1)] assms(2,3)
  by (auto simp: locked_persist_json_def Let_def read_on_disk_def split: prod.splits sum.splits)

lemma locked_persist_fault:
  assumes "fresh_tmp tmp (sm_filename sm) w" "flt \<noteq> NoFault"
  shows "\<exists>e. snd (locked_persist_json flt tmp m sm w) = Inl e \<and>
         read_on_disk (sm_filename sm) (fst (locked_persist_json flt tmp m sm w)) = read_on_disk (sm_filename sm) w"
proof (cases "read_on_disk (sm_filename sm) w")
  case (Inl e)
  then show ?thesis by (simp add: locked_persist_json_def Let_def)
next
  case (Inr d)
  with atomic_write_cases [of tmp "touch_lock (sm_filename sm) w" "sm_filename sm" flt "m d"]
    fresh_tmp_touch [OF assms(1)] assms(2)
  show ?thesis
    by (auto simp: locked_persist_json_def Let_def read_on_disk_def fun_eq_iff split: prod.splits sum.splits)
qed

lemma locked_persist_other:
  assumes "\<not> dmem tmp (docs w)" "tmp \<noteq> sm_filename sm" "tmp \<noteq> sm_filename sm @ ''.lock''"
    "g \<noteq> sm_filename sm" "g \<noteq> sm_filename sm @ ''.lock''"
  shows "dget (docs (fst (locked_persist_json flt tmp m sm w))) g = dget (docs w) g"
proof (cases "read_on_disk (sm_filename sm) w")
  case (Inl e)
  then show ?thesis using assms by (simp add: locked_persist_json_def Let_def touch_lock_other)
next
  case (Inr d)
  have "\<not> dmem tmp (docs (touch_lock (sm_filename sm) w))"
    using assms by (auto simp: touch_lock_def)
  with atomic_write_cases [of tmp "touch_lock (sm_filename sm) w" "sm_filename sm" flt "m d"] Inr assms
  show ?thesis
    by (auto simp: locked_persist_json_def Let_def fun_eq_iff touch_lock_other split: prod.splits sum.splits)
qed

lemma append_event_simps [simp]:
  "docs (append_event ev sm w) = docs w"
  "read_on_disk f (append_event ev sm w) = read_on_disk f w"
  "dget (logs (append_event ev sm w)) g =
     (if g = sm_event_filename sm then Some (dgetd (logs w) g [] @ [Rec ev]) else dget (logs w) g)"
  by (auto simp: append_event_def locked_append_def read_on_disk_def)

lemma log_records_append [simp]: "log_records (xs @ ys) = log_records xs @ log_records ys"
  by (induction xs rule: log_records.induct) simp_all

lemma get_all_events_append [simp]:
  "get_all_events sm (append_event ev sm w) = get_all_events sm w @ [ev]"
  by (auto simp: get_all_events_def dgetd_def split: option.splits)

text \<open>The file system after \<open>set_task\<close>, and the part of it other files see.\<close>

definition set_task_fs where
  "set_task_fs flt tmp now k v agent sm w = fst (snd (set_task flt tmp now k v agent sm w))"

lemma set_task_fs_json:
  "sm_storage_type sm = ''json'' \<Longrightarrow>
   docs (set_task_fs flt tmp now k v agent sm w) =
     docs (fst (locked_persist_json flt tmp (dset k (JObj v)) sm w))"
  by (auto simp: set_task_fs_def set_task_def Let_def split: prod.splits sum.splits json.splits)

lemma read_on_disk_docs: "docs w = docs w' \<Longrightarrow> read_on_disk f w = read_on_disk f w'"
  by (simp add: read_on_disk_def)

lemma set_task_fs_disk:
  assumes "sm_storage_type sm = ''json''" "fresh_tmp tmp (sm_filename sm) w"
    "read_on_disk (sm_filename sm) w = Inr d"
  shows "read_on_disk (sm_filename sm) (set_task_fs NoFault tmp now k v agent sm w) = Inr (dset k (JObj v) d)"
  using locked_persist_ok [OF assms(2,3) refl, of "dset k (JObj v)"]
    read_on_disk_docs [OF set_task_fs_json [OF assms(1), of NoFault tmp now k v agent w]] by simp

lemma set_task_fs_other:
  assumes "sm_storage_type sm = ''json''" "\<not> dmem tmp (docs w)" "tmp \<noteq> sm_filename sm"
    "tmp \<noteq> sm_filename sm @ ''.lock''" "g \<noteq> sm_filename sm" "g \<noteq> sm_filename sm @ ''.lock''"
  shows "dget (docs (set_task_fs flt tmp now k v agent sm w)) g = dget (docs w) g"
  using locked_persist_other [OF assms(2-)] set_task_fs_json [OF assms(1)] by metis

lemma set_task_fs_fresh:
  assumes "sm_storage_type sm = ''json''" "fresh_tmp tmp (sm_filename sm) w" "fresh_tmp t (sm_filename sm) w"
  shows "fresh_tmp t (sm_filename sm) (set_task_fs flt tmp now k v agent sm w)"
  using set_task_fs_other [of sm tmp w t flt now k v agent] assms
  by (auto simp: fresh_tmp_def not_dmem_None)

section \<open>Concurrent writers\<close>

text \<open>
  A write request of some process: its manager (whose memory may be arbitrarily stale),
  the temporary name the operating system gave it, the clock, and the task. The lock
  makes the requests of all processes a sequence; nothing is assumed about its order.
\<close>

record write_request =
  wr_manager :: state_manager
  wr_tmp :: string
  wr_now :: string
  wr_task :: string
  wr_value :: "(string, json) dict"
  wr_agent :: string

fun run_writes :: "write_request list \<Rightarrow> fs \<Rightarrow> fs" where
  "run_writes [] w = w"
| "run_writes (r # rs) w = run_writes rs
     (set_task_fs NoFault (wr_tmp r) (wr_now r) (wr_task r) (wr_value r) (wr_agent r) (wr_manager r) w)"

definition writes_to :: "string \<Rightarrow> fs \<Rightarrow> write_request \<Rightarrow> bool" where
  "writes_to f w r \<longleftrightarrow> sm_storage_type (wr_manager r) = ''json'' \<and>
     sm_filename (wr_manager r) = f \<and> fresh_tmp (wr_tmp r) f w"

text \<open>C2: no update is lost. However the writers of one state file interleave and however
  stale their memories are, the file ends up with every write applied, in the order the
  lock served them.\<close>

theorem no_lost_update:
  assumes "read_on_disk f w = Inr d" and "list_all (writes_to f w) rs"
  shows "read_on_disk f (run_writes rs w) = Inr (fold (\<lambda>r. dset (wr_task r) (JObj (wr_value r))) rs d)"
  using assms
proof (induction rs arbitrary: w d)
  case (Cons r rs)
  let ?w = "set_task_fs NoFault (wr_tmp r) (wr_now r) (wr_task r) (wr_value r) (wr_agent r) (wr_manager r) w"
  have r: "writes_to f w r" and rs: "list_all (writes_to f w) rs" using Cons.prems by auto
  have "read_on_disk f ?w = Inr (dset (wr_task r) (JObj (wr_value r)) d)"
    using set_task_fs_disk [of "wr_manager r" "wr_tmp r" w d] r Cons.prems(1) by (auto simp: writes_to_def)
  moreover have "list_all (writes_to f ?w) rs"
    using rs r set_task_fs_fresh [of "wr_manager r" "wr_tmp r" w]
    by (auto simp: list_all_iff writes_to_def)
  ultimately show ?case using Cons.IH by simp
qed simp

definition demo_manager :: "string \<Rightarrow> (string, json) dict \<Rightarrow> state_manager" where
  "demo_manager f d = \<lparr>sm_storage_type = ''json'', sm_base_filename = f,
     sm_base_event_filename = ''e'', sm_tenant_id = ''default'', sm_filename = f,
     sm_event_filename = ''e'', sm_data = d\<rparr>"

definition demo_write :: "string \<Rightarrow> string \<Rightarrow> write_request" where
  "demo_write tmp k = \<lparr>wr_manager = demo_manager ''s'' [], wr_tmp = tmp, wr_now = ''n'',
     wr_task = k, wr_value = [(''v'', JInt 1)], wr_agent = ''a''\<rparr>"

theorem no_lost_update_witness:
  "read_on_disk ''s'' (run_writes [demo_write ''t1'' ''a'', demo_write ''t2'' ''b''] \<lparr>docs = [], logs = []\<rparr>)
     = Inr [(''a'', JObj [(''v'', JInt 1)]), (''b'', JObj [(''v'', JInt 1)])]"
proof -
  let ?w = "\<lparr>docs = [], logs = []\<rparr>"
  have "read_on_disk ''s'' ?w = Inr []" by (simp add: read_on_disk_def)
  moreover have "list_all (writes_to ''s'' ?w) [demo_write ''t1'' ''a'', demo_write ''t2'' ''b'']"
    by (simp add: writes_to_def demo_write_def demo_manager_def fresh_tmp_def dmem_def)
  ultimately show ?thesis
    using no_lost_update [of "''s''" ?w "[]" "[demo_write ''t1'' ''a'', demo_write ''t2'' ''b'']"]
    by (simp add: demo_write_def)
qed

text \<open>The write is atomic. Whatever fails while \<open>_atomic_write_json\<close> runs, the file
  holds its old document and the error is raised, or it holds the new document and none
  is; no other file changes and no temporary file is left.\<close>

theorem atomic_write_all_or_nothing:
  assumes "\<not> dmem tmp (docs w)" and "tmp \<noteq> path"
  shows "dget (docs (fst (atomic_write_json flt tmp path d w))) =
           (if flt = NoFault then (dget (docs w))(path \<mapsto> Doc (JObj d)) else dget (docs w))
       \<and> snd (atomic_write_json flt tmp path d w) = (if flt = NoFault then Inr () else Inl os_error)"
  using atomic_write_cases [OF assms, of flt d] by auto

theorem atomic_write_all_or_nothing_witness:
  "dget (docs (fst (atomic_write_json FailReplace ''t'' ''s'' [] \<lparr>docs = [(''s'', Malformed)], logs = []\<rparr>))) ''s''
     = Some Malformed"
  using atomic_write_all_or_nothing [of "''t''" "\<lparr>docs = [(''s'', Malformed)], logs = []\<rparr>" "''s''" FailReplace "[]"]
  by (simp add: dmem_def)

section \<open>Failures, events and tenants\<close>

lemma set_task_json:
  assumes "sm_storage_type sm = ''json''"
  shows "set_task flt tmp now k v agent sm w =
    (case locked_persist_json flt tmp (dset k (JObj v)) sm w of
       (w', Inl e) \<Rightarrow> (sm, w', Inl e)
     | (w', Inr m) \<Rightarrow> (case dgetd (sm_data sm) k (JObj []) of
          JObj o_ \<Rightarrow> (sm\<lparr>sm_data := m\<rparr>,
             append_event (task_event now k agent ''SET'' (compute_diff o_ v)) (sm\<lparr>sm_data := m\<rparr>) w', Inr ())
        | _ \<Rightarrow> (sm\<lparr>sm_data := m\<rparr>, w', Inl (attribute_error ''keys''))))"
  using assms by (auto simp: set_task_def Let_def split: prod.splits sum.splits json.splits)

lemma get_all_events_logs: "logs w = logs w' \<Longrightarrow> get_all_events sm w = get_all_events sm w'"
  by (simp add: get_all_events_def)

lemma set_task_fs_logs:
  assumes "sm_storage_type sm = ''json''" "g \<noteq> sm_event_filename sm"
  shows "dget (logs (set_task_fs flt tmp now k v agent sm w)) g = dget (logs w) g"
proof -
  have "logs (fst (locked_persist_json flt tmp (dset k (JObj v)) sm w)) = logs w" by simp
  then show ?thesis using assms(2)
    by (auto simp: set_task_fs_def set_task_json [OF assms(1)] simp del: locked_persist_logs
        split: prod.splits sum.splits json.splits)
qed

lemma dget_distinct_diff:
  "dget (compute_diff old new) k =
     (if List.member (diff_keys old new) k \<and> \<not> py_eq (dgetd old k JNull) (dgetd new k JNull)
      then Some (JObj [(''old'', dgetd old k JNull), (''new'', dgetd new k JNull)]) else None)"
proof -
  have "dget (concat (map (\<lambda>k. if P k then [] else [(k, f k)]) ks)) k =
      (if k \<in> set ks \<and> \<not> P k then Some (f k) else None)" for P ks and f :: "string \<Rightarrow> json"
    by (induction ks) auto
  from this [of "\<lambda>k. py_eq (dgetd old k JNull) (dgetd new k JNull)"
       "\<lambda>k. JObj [(''old'', dgetd old k JNull), (''new'', dgetd new k JNull)]"]
  show ?thesis by (simp add: compute_diff_def Let_def)
qed

lemma member_diff_keys [simp]: "k \<in> set (diff_keys old new) \<longleftrightarrow> dmem k old \<or> dmem k new"
  by (auto simp: diff_keys_def dkeys_def dmem_iff)

text \<open>A failed write changes nothing. When the write of \<open>set_task\<close> fails, the error
  is raised, the manager's memory and the persisted dictionary are as before, and no
  event is logged.\<close>

theorem set_task_failed_write:
  assumes "sm_storage_type sm = ''json''" and "fresh_tmp tmp (sm_filename sm) w" and "flt \<noteq> NoFault"
  shows "case set_task flt tmp now k v agent sm w of (sm', w', r) \<Rightarrow>
     sm' = sm \<and> (\<exists>e. r = Inl e) \<and>
     read_on_disk (sm_filename sm) w' = read_on_disk (sm_filename sm) w \<and> logs w' = logs w"
proof -
  obtain e where e: "snd (locked_persist_json flt tmp (dset k (JObj v)) sm w) = Inl e"
    "read_on_disk (sm_filename sm) (fst (locked_persist_json flt tmp (dset k (JObj v)) sm w)) =
       read_on_disk (sm_filename sm) w"
    using locked_persist_fault [OF assms(2,3), of "dset k (JObj v)"] by blast
  moreover have "logs (fst (locked_persist_json flt tmp (dset k (JObj v)) sm w)) = logs w" by simp
  ultimately show ?thesis
    by (cases "locked_persist_json flt tmp (dset k (JObj v)) sm w") (auto simp: set_task_json [OF assms(1)])
qed

theorem set_task_failed_write_witness:
  "fst (set_task FailDump ''t'' ''n'' ''k'' [] ''a'' (demo_manager ''s'' [(''k'', JNull)]) \<lparr>docs = [], logs = []\<rparr>)
     = demo_manager ''s'' [(''k'', JNull)]"
  using set_task_failed_write [of "demo_manager ''s'' [(''k'', JNull)]" "''t''" "\<lparr>docs = [], logs = []\<rparr>" FailDump
    "''n''" "''k''" "[]" "''a''"]
  by (simp add: demo_manager_def fresh_tmp_def dmem_def split: prod.splits)

text \<open>The diff of an event lists exactly the keys whose values differ (a missing key
  counts as \<open>None\<close>), with the old and the new value.\<close>

theorem compute_diff_correct:
  "dget (compute_diff old new) k =
     (if py_eq (dgetd old k JNull) (dgetd new k JNull) then None
      else Some (JObj [(''old'', dgetd old k JNull), (''new'', dgetd new k JNull)]))"
proof (cases "dmem k old \<or> dmem k new")
  case False
  then have "dgetd old k JNull = JNull" "dgetd new k JNull = JNull"
    by (auto simp: dgetd_def not_dmem_None)
  then show ?thesis by (simp add: dget_distinct_diff)
qed (simp add: dget_distinct_diff)

lemma splitext_join: "fst (splitext p) @ snd (splitext p) = p"
proof -
  define e where "e = takeWhile (\<lambda>c. c \<noteq> CHR ''.'') (rev p)"
  define t where "t = dropWhile (\<lambda>c. c \<noteq> CHR ''.'') (rev p)"
  have et: "rev p = e @ t" by (simp add: e_def t_def)
  show ?thesis
  proof (cases t)
    case Nil
    with et have "length e = length p" by (metis append_Nil2 length_rev)
    then show ?thesis by (simp add: splitext_def Let_def flip: e_def)
  next
    case (Cons c r)
    then have c: "c = CHR ''.''" using dropWhile_hd [of "\<lambda>c. c \<noteq> CHR ''.''" "rev p"] by (simp flip: t_def)
    have d: "drop (Suc (length e)) (rev p) = r" by (simp add: et Cons)
    have "splitext p = (p, []) \<or> splitext p = (rev r, CHR ''.'' # rev e)"
      by (simp add: splitext_def Let_def d flip: e_def)
    moreover have "p = rev (e @ CHR ''.'' # r)" using et Cons c by (metis rev_rev_ident)
    ultimately show ?thesis by auto
  qed
qed

lemma tenant_filename_other:
  "t \<noteq> ''default'' \<Longrightarrow> get_tenant_filename b t = fst (splitext b) @ ''.'' @ t @ snd (splitext b)"
  by (simp add: get_tenant_filename_def split: prod.splits)

lemma tenant_filename_inj:
  assumes "get_tenant_filename b t = get_tenant_filename b u"
  shows "t = u"
proof -
  have len: "length (get_tenant_filename b v) > length b" if "v \<noteq> ''default''" for v
    using that arg_cong [OF splitext_join [of b], of length] by (simp add: tenant_filename_other)
  show ?thesis
  proof (cases "t = ''default'' \<or> u = ''default''")
    case True
    with assms len [of t] len [of u] show ?thesis by (auto simp: get_tenant_filename_def split: if_splits)
  next
    case False
    with assms show ?thesis by (simp add: tenant_filename_other)
  qed
qed

lemma tenant_event_filename: "get_tenant_event_filename = get_tenant_filename"
  by (intro ext) (simp add: get_tenant_event_filename_def get_tenant_filename_def)

lemma StateManager_fields:
  "StateManager st b ev (Some t) w = Some sm \<Longrightarrow> t \<noteq> [] \<Longrightarrow>
     sm_filename sm = get_tenant_filename b t \<and> sm_event_filename sm = get_tenant_filename ev t \<and>
     sm_storage_type sm = st \<and> sm_tenant_id sm = t"
  by (auto simp: StateManager_def Let_def tenant_event_filename split: if_splits option.splits jtext.splits json.splits)

lemma tenant_filename_json:
  assumes "snd (splitext b) = ''.json''"
  shows "get_tenant_filename b t \<noteq> get_tenant_filename b u @ ''.lock''"
proof -
  have lb: "last b = CHR ''n''" using arg_cong [OF splitext_join [of b], of last] assms by simp
  have "last (get_tenant_filename b u) = CHR ''n''" for u
    by (cases "u = ''default''") (simp add: lb get_tenant_filename_def, simp add: tenant_filename_other assms)
  then have n: "last (get_tenant_filename b t) = CHR ''n''" .
  show ?thesis
  proof
    assume "get_tenant_filename b t = get_tenant_filename b u @ ''.lock''"
    with n have "last (get_tenant_filename b u @ ''.lock'') = CHR ''n''" by simp
    then show False by simp
  qed
qed

text \<open>C18: tenants are isolated. A write by the manager of one tenant, whether it succeeds or
  not, leaves the persisted dictionary and the events another tenant's manager reads
  unchanged.\<close>

theorem tenant_isolation:
  assumes "StateManager ''json'' b ev (Some t) w0 = Some sm1" and "StateManager ''json'' b ev (Some u) w0' = Some sm2"
    and "t \<noteq> u" and "t \<noteq> []" and "u \<noteq> []" and "snd (splitext b) = ''.json''"
    and "\<not> dmem tmp (docs w)" and "tmp \<noteq> sm_filename sm1" and "tmp \<noteq> sm_filename sm1 @ ''.lock''"
  shows "read_on_disk (sm_filename sm2) (set_task_fs flt tmp now k v agent sm1 w) = read_on_disk (sm_filename sm2) w
       \<and> get_all_events sm2 (set_task_fs flt tmp now k v agent sm1 w) = get_all_events sm2 w"
proof -
  note f1 = StateManager_fields [OF assms(1,4)] and f2 = StateManager_fields [OF assms(2,5)]
  have "sm_filename sm2 \<noteq> sm_filename sm1" "sm_event_filename sm2 \<noteq> sm_event_filename sm1"
    using f1 f2 tenant_filename_inj assms(3) by metis+
  moreover have "sm_filename sm2 \<noteq> sm_filename sm1 @ ''.lock''"
    using f1 f2 tenant_filename_json [OF assms(6)] by metis
  ultimately show ?thesis
    using set_task_fs_other [of sm1 tmp w "sm_filename sm2" flt now k v agent]
      set_task_fs_logs [of sm1 "sm_event_filename sm2" flt tmp now k v agent w] f1 assms(7-9)
    by (simp add: read_on_disk_def get_all_events_def)
qed

theorem tenant_isolation_witness:
  "read_on_disk ''state.b.json''
     (set_task_fs NoFault ''t'' ''n'' ''k'' [] ''x''
        (the (StateManager ''json'' ''state.json'' ''events.jsonl'' (Some ''a'') \<lparr>docs = [], logs = []\<rparr>))
        \<lparr>docs = [], logs = []\<rparr>) = Inr []"
proof -
  let ?w = "\<lparr>docs = [], logs = []\<rparr>"
  let ?sm = "\<lambda>t. the (StateManager ''json'' ''state.json'' ''events.jsonl'' (Some t) ?w)"
  have sp: "splitext ''state.json'' = (''state'', ''.json'')" "splitext ''events.jsonl'' = (''events'', ''.jsonl'')"
    by code_simp+
  note defs = StateManager_def get_tenant_filename_def get_tenant_event_filename_def sp
  have a: "StateManager ''json'' ''state.json'' ''events.jsonl'' (Some ''a'') ?w = Some (?sm ''a'')"
    and b: "StateManager ''json'' ''state.json'' ''events.jsonl'' (Some ''b'') ?w = Some (?sm ''b'')"
    and fa: "sm_filename (?sm ''a'') = ''state.a.json''" and fb: "sm_filename (?sm ''b'') = ''state.b.json''"
    by (simp_all add: defs)
  show ?thesis
    using tenant_isolation [OF a b, of "''t''" ?w NoFault "''n''" "''k''" "[]" "''x''"] fa fb
    by (simp add: sp dmem_def) (simp add: read_on_disk_def)
qed

text \<open>The log of a manager only ever grows, whatever the operation does.\<close>

lemma set_task_events_grow:
  "\<exists>evs. get_all_events sm (fst (snd (set_task flt tmp now k v agent sm w))) = get_all_events sm w @ evs"
proof (cases "sm_storage_type sm = ''json''")
  case True
  have l: "logs (fst (locked_persist_json flt tmp (dset k (JObj v)) sm w)) = logs w" by simp
  have e: "get_all_events sm (fst (locked_persist_json flt tmp (dset k (JObj v)) sm w)) = get_all_events sm w"
    by (rule get_all_events_logs [OF l])
  have g: "get_all_events sm (append_event ev (sm\<lparr>sm_data := m\<rparr>) w') = get_all_events sm w' @ [ev]" for ev m w'
    by (simp add: get_all_events_def dgetd_def append_event_def locked_append_def split: option.splits)
  show ?thesis
    using e by (auto simp: set_task_json [OF True] g split: prod.splits sum.splits json.splits)
next
  case False
  then show ?thesis
    by (auto simp: set_task_def Let_def get_all_events_def dgetd_def append_event_def locked_append_def
        split: json.splits option.splits)
qed

text \<open>C35: \<open>locked_file\<close> never empties a file before it holds the lock: the mode it opens an
  existing file with does not truncate, and a truncating mode truncates after the lock
  instead.\<close>

theorem locked_file_no_early_truncate:
  assumes "mode \<in> set [''r'', ''w'', ''a'', ''r+'', ''w+'', ''a+'']"
  shows "\<not> truncates_on_open (lp_mode (locked_file_plan mode exists)) exists
       \<and> (truncates_on_open mode exists \<longrightarrow> lp_truncate_after_lock (locked_file_plan mode exists))
       \<and> lp_flush (locked_file_plan mode exists) = (mode \<noteq> ''r'')"
  using assms by (cases exists) (auto simp: truncates_on_open_def locked_file_plan_def startswith_def Let_def)

theorem locked_file_no_early_truncate_witness:
  "\<not> truncates_on_open (lp_mode (locked_file_plan ''w'' True)) True"
  using locked_file_no_early_truncate [of "''w''" True] by simp

section \<open>The manager as a keyed store\<close>

text \<open>
  A manager that is the only writer of its file: its memory and the file agree. Over the
  pair of manager and file system, writing and reading tasks obeys the laws of a store.
\<close>

definition sm_sync :: "string \<Rightarrow> state_manager \<times> fs \<Rightarrow> bool" where
  "sm_sync tmp s = (case s of (sm, w) \<Rightarrow> sm_storage_type sm = ''json'' \<and>
     fresh_tmp tmp (sm_filename sm) w \<and> read_on_disk (sm_filename sm) w = Inr (sm_data sm))"

definition put_task :: "string \<Rightarrow> string \<Rightarrow> string \<Rightarrow> string \<Rightarrow> (string, json) dict
    \<Rightarrow> state_manager \<times> fs \<Rightarrow> state_manager \<times> fs" where
  "put_task tmp now agent k v s = (case s of (sm, w) \<Rightarrow>
     (case set_task NoFault tmp now k v agent sm w of (sm', w', r) \<Rightarrow> (sm', w')))"

definition pop_task :: "string \<Rightarrow> string \<Rightarrow> string \<Rightarrow> string \<Rightarrow> state_manager \<times> fs \<Rightarrow> state_manager \<times> fs" where
  "pop_task tmp now agent k s = (case s of (sm, w) \<Rightarrow>
     (case delete_task NoFault tmp now k agent sm w of (sm', w', r) \<Rightarrow> (sm', w')))"

definition task_dict :: "json option \<Rightarrow> (string, json) dict option" where
  "task_dict v = (case v of Some (JObj d) \<Rightarrow> Some d | _ \<Rightarrow> None)"

definition look_task :: "state_manager \<times> fs \<Rightarrow> string \<Rightarrow> (string, json) dict option" where
  "look_task s k = task_dict (get_task (fst s) k)"

lemma persist_sync:
  assumes "sm_sync tmp (sm, w)" "locked_persist_json NoFault tmp m sm w = (w', r)"
  shows "r = Inr (m (sm_data sm)) \<and> read_on_disk (sm_filename sm) w' = Inr (m (sm_data sm)) \<and>
    fresh_tmp tmp (sm_filename sm) w'"
proof -
  have "dget (docs w') tmp = None"
    using assms locked_persist_ok [of tmp sm w "sm_data sm" NoFault m]
      atomic_write_cases [of tmp "touch_lock (sm_filename sm) w" "sm_filename sm" NoFault "m (sm_data sm)"]
    by (auto simp: sm_sync_def fresh_tmp_def locked_persist_json_def Let_def touch_lock_def not_dmem_None
        split: prod.splits sum.splits if_splits)
  with assms locked_persist_ok [of tmp sm w "sm_data sm" NoFault m] show ?thesis
    by (auto simp: sm_sync_def fresh_tmp_def not_dmem_None)
qed

lemma fresh_tmp_append_event [simp]: "fresh_tmp t f (append_event e sm w) = fresh_tmp t f w"
  by (simp add: fresh_tmp_def)

lemma put_task_sync:
  assumes "sm_sync tmp (sm, w)"
  shows "sm_sync tmp (put_task tmp now agent k v (sm, w)) \<and>
    sm_data (fst (put_task tmp now agent k v (sm, w))) = dset k (JObj v) (sm_data sm)"
proof -
  obtain w' r where p: "locked_persist_json NoFault tmp (dset k (JObj v)) sm w = (w', r)" by fastforce
  have j: "sm_storage_type sm = ''json''" using assms by (simp add: sm_sync_def)
  show ?thesis using persist_sync [OF assms p] p j
    by (auto simp: put_task_def set_task_json [OF j] sm_sync_def split: json.splits)
qed

lemma pop_task_sync:
  assumes "sm_sync tmp (sm, w)"
  shows "sm_sync tmp (pop_task tmp now agent k (sm, w)) \<and>
    sm_data (fst (pop_task tmp now agent k (sm, w))) = ddel k (sm_data sm)"
proof -
  obtain w' r where p: "locked_persist_json NoFault tmp (ddel k) sm w = (w', r)" by fastforce
  show ?thesis using persist_sync [OF assms p] p assms
    by (auto simp: pop_task_def delete_task_def Let_def sm_sync_def split: json.splits option.splits)
qed

interpretation task_store: keyed_store look_task "put_task tmp now agent" "pop_task tmp now agent" "sm_sync tmp"
  for tmp now agent
proof unfold_locales
  fix s k v k'
  assume "sm_sync tmp s"
  then show "look_task (put_task tmp now agent k v s) k' = (if k' = k then Some v else look_task s k')"
    and "look_task (pop_task tmp now agent k s) k' = (if k' = k then None else look_task s k')"
    and "sm_sync tmp (put_task tmp now agent k v s)" and "sm_sync tmp (pop_task tmp now agent k s)"
    by (cases s; simp add: look_task_def get_task_def task_dict_def put_task_sync pop_task_sync)+
qed

end
