(* ===== verification/Phase_Controller.thy ===== *)
theory Phase_Controller
  imports Quality_Gates Workflow_Graphs State_Manager
begin

text \<open>
  The controller of \<open>src/services/phase_controller.py\<close>: gates are evaluated per
  transition, a blocking failure keeps the item where it is, and every attempt leaves
  an event in the log of the state manager. A step takes the item and the file system
  and returns them with the report; \<open>now\<close> is the clock read by the history entry and
  \<open>ts\<close> the text of the clock read by the event.
\<close>

section \<open>The controller\<close>

record advance_report =
  ar_item :: work_item
  ar_from :: phase
  ar_to :: phase
  ar_advanced :: bool
  ar_gates :: "gate_result list"
  ar_reason :: string

definition blocking_failures :: "advance_report \<Rightarrow> gate_result list" where
  "blocking_failures r = filter (\<lambda>g. gr_blocking g \<and> \<not> gr_passed g) (ar_gates r)"

definition advisory_failures :: "advance_report \<Rightarrow> gate_result list" where
  "advisory_failures r = filter (\<lambda>g. \<not> gr_blocking g \<and> \<not> gr_passed g) (ar_gates r)"

record phase_controller =
  pc_gates :: "quality_gate list"
  pc_sm :: "state_manager option"

definition register :: "quality_gate \<Rightarrow> phase_controller \<Rightarrow> phase_controller" where
  "register g pc = pc\<lparr>pc_gates := pc_gates pc @ [g]\<rparr>"

text \<open>A gate that raises becomes a failed result with the gate's own blocking flag.\<close>

definition crash_result :: "quality_gate \<Rightarrow> exn \<Rightarrow> gate_result" where
  "crash_result g e =
     \<lparr>gr_gate = g_name g, gr_passed = False, gr_blocking = g_blocking g,
      gr_evidence = [(''exception'', JStr (exn_type e))],
      gr_message = ''gate crashed: '' @ exn_msg e\<rparr>"

fun evaluate_gates :: "quality_gate list \<Rightarrow> work_item \<Rightarrow> phase \<Rightarrow> gate_result list" where
  "evaluate_gates [] item target = []"
| "evaluate_gates (g # gs) item target =
     (if \<not> should_run g target then evaluate_gates gs item target
      else (case g_evaluate g item of Inr r \<Rightarrow> r | Inl e \<Rightarrow> crash_result g e) # evaluate_gates gs item target)"

definition gate_json :: "gate_result \<Rightarrow> json" where
  "gate_json g = JObj [(''gate'', JStr (gr_gate g)), (''passed'', JBool (gr_passed g)),
     (''blocking'', JBool (gr_blocking g)), (''message'', JStr (gr_message g))]"

definition phase_event ::
  "string \<Rightarrow> work_item \<Rightarrow> string \<Rightarrow> phase \<Rightarrow> phase \<Rightarrow> string \<Rightarrow> gate_result list \<Rightarrow> json" where
  "phase_event ts item action from_phase to_phase reason gates = JObj
     [(''timestamp'', JStr ts), (''task_id'', JStr (wi_id item)), (''agent'', JStr ''PhaseController''),
      (''action'', JStr action), (''from_phase'', JStr (phase_value from_phase)),
      (''to_phase'', JStr (phase_value to_phase)), (''reason'', JStr reason),
      (''gates'', JArr (map gate_json gates))]"

definition emit_event ::
  "phase_controller \<Rightarrow> string \<Rightarrow> work_item \<Rightarrow> string \<Rightarrow> phase \<Rightarrow> phase \<Rightarrow> string \<Rightarrow> gate_result list \<Rightarrow> fs \<Rightarrow> fs" where
  "emit_event pc ts item action from_phase to_phase reason gates w =
     (case pc_sm pc of None \<Rightarrow> w
      | Some sm \<Rightarrow> append_event (phase_event ts item action from_phase to_phase reason gates) sm w)"

text \<open>\<open>advance\<close>. (The arrow in the message of the error is written as a word.)\<close>

definition advance ::
  "phase_controller \<Rightarrow> int \<Rightarrow> string \<Rightarrow> phase \<Rightarrow> string \<Rightarrow> bool \<Rightarrow> work_item \<Rightarrow> fs
    \<Rightarrow> work_item \<times> fs \<times> advance_report result" where
  "advance pc now ts target reason force item w =
     (let from_phase = wi_phase item in
      if \<not> force \<and> \<not> List.member (ALLOWED_TRANSITIONS from_phase) target
      then (item, w, Inl (Exn ''PhaseTransitionError''
              (''disallowed transition '' @ phase_value from_phase @ '' to '' @ phase_value target)))
      else
        let results = evaluate_gates (pc_gates pc) item target;
            blockers = filter (\<lambda>r. gr_blocking r \<and> \<not> gr_passed r) results in
        if blockers \<noteq> [] \<and> \<not> force
        then (item,
              emit_event pc ts item ''phase.transition.blocked'' from_phase target
                (if reason = [] then ''blocked by gate'' else reason) results w,
              Inr \<lparr>ar_item = item, ar_from = from_phase, ar_to = from_phase, ar_advanced = False,
                   ar_gates = results,
                   ar_reason = ''blocked by gate: '' @ join '', '' (map gr_gate blockers)\<rparr>)
        else
          let evidence_refs = map gr_gate (filter gr_passed results);
              item1 = record_transition now target reason evidence_refs item;
              item2 = item1\<lparr>wi_phase := target\<rparr>;
              w' = emit_event pc ts item2 ''phase.transition'' from_phase target reason results w
          in (item2, w', Inr \<lparr>ar_item = item2, ar_from = from_phase, ar_to = target, ar_advanced = True,
                ar_gates = results, ar_reason = reason\<rparr>))"

definition decide_rework ::
  "graph_invoke option \<Rightarrow> phase_controller \<Rightarrow> string \<Rightarrow> int \<Rightarrow> string \<Rightarrow> string \<Rightarrow> int \<Rightarrow> work_item \<Rightarrow> fs
    \<Rightarrow> fs \<times> string result" where
  "decide_rework langgraph pc ts builder_attempts review_status latest_summary max_retries item w =
     (case bindr (ReviewLoopState builder_attempts review_status latest_summary)
             (\<lambda>s. run_review_rework_cycle langgraph s max_retries) of
        Inl e \<Rightarrow> (w, Inl e)
      | Inr d \<Rightarrow> (emit_event pc ts item ''phase.review.decision'' (wi_phase item) (wi_phase item) (gd_reason d) [] w,
                 Inr (gd_next d)))"

section \<open>Evaluation\<close>

lemma evaluate_gates_append:
  "evaluate_gates (gs @ hs) item t = evaluate_gates gs item t @ evaluate_gates hs item t"
  by (induction gs) simp_all

lemma evaluate_gates_map:
  "evaluate_gates gs item t =
     map (\<lambda>g. case g_evaluate g item of Inr r \<Rightarrow> r | Inl e \<Rightarrow> crash_result g e) (filter (\<lambda>g. should_run g t) gs)"
  by (induction gs) simp_all

text \<open>Under the contract every result names its gate and carries its flag.\<close>

lemma contract_result:
  assumes "gate_contract g"
  shows "gr_gate (case g_evaluate g item of Inr r \<Rightarrow> r | Inl e \<Rightarrow> crash_result g e) = g_name g"
    and "gr_blocking (case g_evaluate g item of Inr r \<Rightarrow> r | Inl e \<Rightarrow> crash_result g e) = g_blocking g"
  using gate_contract.names_itself [OF assms] gate_contract.keeps_blocking [OF assms]
  by (simp_all add: crash_result_def split: sum.splits)



section \<open>Advancing\<close>

lemma emit_event_docs [simp]: "docs (emit_event pc ts item a f t r g w) = docs w"
  by (simp add: emit_event_def split: option.splits)

definition gate_blockers :: "phase_controller \<Rightarrow> work_item \<Rightarrow> phase \<Rightarrow> gate_result list" where
  "gate_blockers pc item t = filter (\<lambda>r. gr_blocking r \<and> \<not> gr_passed r) (evaluate_gates (pc_gates pc) item t)"

lemma advance_unforced_cases:
  "case advance pc now ts t reason False item w of (item', w', res) \<Rightarrow>
     (if \<not> can_advance (wi_phase item) t then item' = item \<and> w' = w \<and> (\<exists>m. res = Inl (Exn ''PhaseTransitionError'' m))
      else \<exists>rep. res = Inr rep \<and> ar_item rep = item' \<and> ar_from rep = wi_phase item \<and>
        ar_gates rep = evaluate_gates (pc_gates pc) item t \<and> blocking_failures rep = gate_blockers pc item t \<and>
        (if gate_blockers pc item t \<noteq> [] then \<not> ar_advanced rep \<and> ar_to rep = wi_phase item \<and> item' = item
         else ar_advanced rep \<and> ar_to rep = t \<and> wi_phase item' = t \<and> wi_id item' = wi_id item \<and>
           wi_payload item' = wi_payload item \<and>
           wi_history item' = wi_history item @ [\<lparr>he_from = Some (wi_phase item), he_to = t, he_at = now,
             he_reason = reason, he_evidence = map gr_gate (filter gr_passed (ar_gates rep))\<rparr>]))"
  by (auto simp: advance_def Let_def can_advance_def blocking_failures_def gate_blockers_def record_transition_def)

text \<open>C1: what an unforced advance does, on every branch. A transition that is not allowed
  raises and touches nothing. A blocking failure leaves the item as it is, reports the
  failures and that it did not advance. Otherwise, whatever advisory gates say, the item is in the target
  phase with exactly one new history entry that records the edge and the passed gates.\<close>

theorem advance_unforced:
  "case advance pc now ts t reason False item w of (item', w', res) \<Rightarrow>
     (if \<not> can_advance (wi_phase item) t then item' = item \<and> w' = w \<and> (\<exists>m. res = Inl (Exn ''PhaseTransitionError'' m))
      else \<exists>rep. res = Inr rep \<and> ar_item rep = item' \<and> ar_from rep = wi_phase item \<and>
        ar_gates rep = evaluate_gates (pc_gates pc) item t \<and> blocking_failures rep = gate_blockers pc item t \<and>
        (if gate_blockers pc item t \<noteq> [] then \<not> ar_advanced rep \<and> ar_to rep = wi_phase item \<and> item' = item
         else ar_advanced rep \<and> ar_to rep = t \<and> wi_phase item' = t \<and> wi_id item' = wi_id item \<and>
           wi_payload item' = wi_payload item \<and>
           wi_history item' = wi_history item @ [\<lparr>he_from = Some (wi_phase item), he_to = t, he_at = now,
             he_reason = reason, he_evidence = map gr_gate (filter gr_passed (ar_gates rep))\<rparr>]))"
  by (rule advance_unforced_cases)

text \<open>A forced advance always succeeds: no transition is refused and no gate can stop it, but
  the gates are still evaluated and reported, and only the passed ones become evidence.\<close>

theorem advance_forced:
  "\<exists>w' rep. advance pc now ts t reason True item w =
     (record_transition now t reason (map gr_gate (filter gr_passed (ar_gates rep))) item\<lparr>wi_phase := t\<rparr>, w', Inr rep) \<and>
     ar_advanced rep \<and> ar_gates rep = evaluate_gates (pc_gates pc) item t"
  by (simp add: advance_def Let_def)

text \<open>Every attempt is audited. With a state manager, each advance that does not raise adds
  exactly one event to its log (transition or blocked transition, naming the item, both
  phases and every gate result), a raise adds none, and no persisted document changes.\<close>

theorem advance_audited:
  assumes "pc_sm pc = Some sm"
  shows "case advance pc now ts t reason force item w of (item', w', res) \<Rightarrow>
     docs w' = docs w \<and>
     (case res of
        Inl e \<Rightarrow> get_all_events sm w' = get_all_events sm w
      | Inr rep \<Rightarrow> \<exists>act rsn. get_all_events sm w' = get_all_events sm w @
          [phase_event ts item act (wi_phase item) t rsn (ar_gates rep)] \<and>
          act = (if ar_advanced rep then ''phase.transition'' else ''phase.transition.blocked''))"
  using assms
  by (auto simp: advance_def Let_def emit_event_def phase_event_def record_transition_def)

definition demo_pc :: phase_controller where
  "demo_pc = \<lparr>pc_gates = [CriticReviewGate (\<lambda>_. Inr (''block'', ''no''))], pc_sm = Some (demo_manager ''s'' [])\<rparr>"

theorem advance_audited_witness:
  "case advance demo_pc 5 ''ts'' REVIEW [] False (demo_item\<lparr>wi_phase := IMPLEMENT\<rparr>) \<lparr>docs = [], logs = []\<rparr> of
     (item', w', res) \<Rightarrow> wi_phase item' = IMPLEMENT \<and> length (get_all_events (demo_manager ''s'' []) w') = 1"
proof -
  have "pc_sm demo_pc = Some (demo_manager ''s'' [])" by (simp add: demo_pc_def)
  from advance_audited [OF this, where now = 5 and ts = "''ts''" and t = REVIEW and reason = "[]" and force = False
      and item = "demo_item\<lparr>wi_phase := IMPLEMENT\<rparr>" and w = "\<lparr>docs = [], logs = []\<rparr>"]
  show ?thesis
    by (auto simp: advance_def Let_def demo_pc_def CriticReviewGate_def should_run_def demo_item_def
        get_all_events_def split: prod.splits sum.splits)
qed

section \<open>The ledger\<close>

text \<open>
  One unforced step of any controller on an item, and the ledger invariant: the history
  is a legal chain from the first phase to the current one.
\<close>

inductive ledger_step :: "work_item \<Rightarrow> work_item \<Rightarrow> bool" where
  step_advance: "fst (advance pc now ts t reason False item w) = item' \<Longrightarrow> ledger_step item item'"

definition fresh_item :: "work_item \<Rightarrow> bool" where
  "fresh_item item \<longleftrightarrow> wi_phase item = PLAN \<and> wi_history item = []"

definition ledger_ok :: "work_item \<Rightarrow> bool" where
  "ledger_ok item \<longleftrightarrow> chain PLAN (wi_history item) (wi_phase item) \<and> legal_history (wi_history item)"

inductive_cases ledger_stepE: "ledger_step item item'"

lemma ledger_step_cases:
  assumes "ledger_step item item'"
  obtains "item' = item"
  | h where "he_from h = Some (wi_phase item)" "can_advance (wi_phase item) (he_to h)"
      "wi_history item' = wi_history item @ [h]" "wi_phase item' = he_to h" "wi_id item' = wi_id item"
proof -
  from assms obtain pc now ts t reason w where a: "fst (advance pc now ts t reason False item w) = item'"
    by (auto elim: ledger_stepE)
  with advance_unforced_cases [where pc = pc and now = now and ts = ts and t = t and reason = reason and item = item and w = w]
    that show ?thesis
    by (fastforce split: prod.splits if_splits)
qed

interpretation ledger: transition_system fresh_item ledger_step ledger_ok
proof unfold_locales
  fix s t assume "ledger_ok s" "ledger_step s t"
  then show "ledger_ok t"
    by (auto elim!: ledger_step_cases simp: ledger_ok_def legal_history_def legal_entry_def
        intro: chain_snoc)
qed (simp add: fresh_item_def ledger_ok_def legal_history_def)



end
