(* ===== verification/Phase_Store.thy ===== *)
theory Phase_Store
  imports Phase_Controller
begin

text \<open>
  The persistence shim of \<open>src/services/phase_store.py\<close>. A work item is stored as a
  dictionary under the key \<open>_work_item\<close> of its task. Pydantic's JSON dump and
  validation of the history entries are written out from the fields of the class; the
  text of a timestamp is third-party formatting: the parameters \<open>isof\<close> and
  \<open>parse_at\<close>. The dictionary that \<open>get_task\<close> returns is the live one of the manager,
  so writing into it changes the manager's memory before \<open>set_task\<close> runs: the model
  keeps that aliasing.
\<close>

section \<open>Encoding\<close>

definition dump_entry :: "(int \<Rightarrow> string) \<Rightarrow> phase_history_entry \<Rightarrow> json" where
  "dump_entry isof h = JObj
     [(''from_phase'', case he_from h of None \<Rightarrow> JNull | Some p \<Rightarrow> JStr (phase_value p)),
      (''to_phase'', JStr (phase_value (he_to h))),
      (''at'', JStr (isof (he_at h))),
      (''reason'', JStr (he_reason h)),
      (''evidence_refs'', JArr (map JStr (he_evidence h)))]"

definition json_phase :: "json \<Rightarrow> phase result" where
  "json_phase v = (case v of JStr s \<Rightarrow> phase_of_value s | _ \<Rightarrow> Inl (Exn ''ValueError'' ''Phase''))"

definition entry_fields :: "string list" where
  "entry_fields = [''from_phase'', ''to_phase'', ''at'', ''reason'', ''evidence_refs'']"

text \<open>\<open>PhaseHistoryEntry.model_validate\<close> with \<open>extra="forbid"\<close>.\<close>

definition validate_entry :: "(json \<Rightarrow> int option) \<Rightarrow> json \<Rightarrow> phase_history_entry result" where
  "validate_entry parse_at v =
     (case v of
        JObj d \<Rightarrow>
          (let frm = (case dgetd d ''from_phase'' JNull of JNull \<Rightarrow> Some None
                      | x \<Rightarrow> (case json_phase x of Inr p \<Rightarrow> Some (Some p) | Inl e \<Rightarrow> None));
               to1 = (case dget d ''to_phase'' of None \<Rightarrow> None
                      | Some x \<Rightarrow> (case json_phase x of Inr p \<Rightarrow> Some p | Inl e \<Rightarrow> None));
               at1 = (case dget d ''at'' of None \<Rightarrow> None | Some x \<Rightarrow> parse_at x);
               rsn = (case dgetd d ''reason'' (JStr []) of JStr s \<Rightarrow> Some s | _ \<Rightarrow> None);
               evs = (case dgetd d ''evidence_refs'' (JArr []) of JArr xs \<Rightarrow> json_strings xs | _ \<Rightarrow> None)
           in if list_ex (\<lambda>k. \<not> List.member entry_fields k) (dkeys d) then Inl (validation_error ''extra'')
              else (case (frm, to1, at1, rsn, evs) of
                 (Some f, Some t, Some a, Some r, Some e) \<Rightarrow>
                   Inr \<lparr>he_from = f, he_to = t, he_at = a, he_reason = r, he_evidence = e\<rparr>
               | _ \<Rightarrow> Inl (validation_error ''PhaseHistoryEntry'')))
      | _ \<Rightarrow> Inl (validation_error ''PhaseHistoryEntry''))"

definition serialize_item :: "(int \<Rightarrow> string) \<Rightarrow> work_item \<Rightarrow> (string, json) dict" where
  "serialize_item isof item = [(''phase'', JStr (phase_value (wi_phase item))),
     (''payload'', JObj (wi_payload item)),
     (''history'', JArr (map (dump_entry isof) (wi_history item)))]"

fun map_result :: "('a \<Rightarrow> 'b result) \<Rightarrow> 'a list \<Rightarrow> 'b list result" where
  "map_result f [] = Inr []"
| "map_result f (x # xs) = bindr (f x) (\<lambda>y. bindr (map_result f xs) (\<lambda>ys. Inr (y # ys)))"

text \<open>What iterating a JSON value gives, and what \<open>dict(value)\<close> gives.\<close>

definition json_iter :: "json \<Rightarrow> json list result" where
  "json_iter v = (case v of JArr xs \<Rightarrow> Inr xs | JObj d \<Rightarrow> Inr (map JStr (dkeys d))
     | JStr s \<Rightarrow> Inr (map (\<lambda>c. JStr [c]) s) | _ \<Rightarrow> Inl (Exn ''TypeError'' ''not iterable''))"

fun pair_of :: "json \<Rightarrow> (string \<times> json) result" where
  "pair_of (JArr [JStr k, v]) = Inr (k, v)"
| "pair_of (JStr [a, b]) = Inr ([a], JStr [b])"
| "pair_of v = Inl (Exn ''ValueError'' ''dictionary update sequence'')"

definition json_dict :: "json \<Rightarrow> (string, json) dict result" where
  "json_dict v = (case v of JObj d \<Rightarrow> Inr d
     | _ \<Rightarrow> bindr (json_iter v) (\<lambda>xs. bindr (map_result pair_of xs) (\<lambda>kvs. Inr (dupdate [] kvs))))"

definition deserialize_item :: "(json \<Rightarrow> int option) \<Rightarrow> string \<Rightarrow> (string, json) dict \<Rightarrow> work_item result" where
  "deserialize_item parse_at task_id raw =
     bindr (json_iter (dgetd raw ''history'' (JArr []))) (\<lambda>hr.
     bindr (map_result (validate_entry parse_at) hr) (\<lambda>history.
     bindr (json_phase (dgetd raw ''phase'' (JStr (phase_value PLAN)))) (\<lambda>p.
     bindr (json_dict (dgetd raw ''payload'' (JObj []))) (\<lambda>pl.
       WorkItem task_id p pl history))))"

section \<open>Load and save\<close>

definition WORK_ITEM_KEY :: string where
  "WORK_ITEM_KEY = ''_work_item''"

definition load_work_item :: "(json \<Rightarrow> int option) \<Rightarrow> state_manager \<Rightarrow> string \<Rightarrow> work_item option result" where
  "load_work_item parse_at sm task_id =
     (case get_task sm task_id of
        None \<Rightarrow> Inr None
      | Some JNull \<Rightarrow> Inr None
      | Some (JObj task) \<Rightarrow>
          (case dgetd task WORK_ITEM_KEY JNull of
             JObj raw \<Rightarrow> if raw = [] then Inr None
               else bindr (deserialize_item parse_at task_id raw) (\<lambda>item. Inr (Some item))
           | v \<Rightarrow> if \<not> truthy v then Inr None else Inl (attribute_error ''get''))
      | Some _ \<Rightarrow> Inl (attribute_error ''get''))"

definition with_item :: "(int \<Rightarrow> string) \<Rightarrow> work_item \<Rightarrow> (string, json) dict \<Rightarrow> (string, json) dict" where
  "with_item isof item d = dset ''phase'' (JStr (phase_value (wi_phase item)))
     (dset WORK_ITEM_KEY (JObj (serialize_item isof item)) d)"

definition save_work_item ::
  "(int \<Rightarrow> string) \<Rightarrow> fault \<Rightarrow> string \<Rightarrow> string \<Rightarrow> string \<Rightarrow> work_item \<Rightarrow> state_manager \<Rightarrow> fs
    \<Rightarrow> state_manager \<times> fs \<times> unit result" where
  "save_work_item isof flt tmp now agent item sm w =
     (case get_task sm (wi_id item) of
        Some (JObj (kv # d)) \<Rightarrow>
          (let existing = with_item isof item (kv # d);
               sm1 = sm\<lparr>sm_data := dset (wi_id item) (JObj existing) (sm_data sm)\<rparr>
           in set_task flt tmp now (wi_id item) existing agent sm1 w)
      | Some v \<Rightarrow>
          if truthy v then (sm, w, Inl (Exn ''TypeError'' ''item assignment''))
          else set_task flt tmp now (wi_id item) (with_item isof item []) agent sm w
      | None \<Rightarrow> set_task flt tmp now (wi_id item) (with_item isof item []) agent sm w)"

definition ensure_work_item ::
  "(json \<Rightarrow> int option) \<Rightarrow> (int \<Rightarrow> string) \<Rightarrow> fault \<Rightarrow> string \<Rightarrow> string \<Rightarrow> string \<Rightarrow> phase \<Rightarrow> state_manager \<Rightarrow> fs
    \<Rightarrow> state_manager \<times> fs \<times> work_item result" where
  "ensure_work_item parse_at isof flt tmp now task_id p sm w =
     (case load_work_item parse_at sm task_id of
        Inl e \<Rightarrow> (sm, w, Inl e)
      | Inr (Some item) \<Rightarrow> (sm, w, Inr item)
      | Inr None \<Rightarrow> (case WorkItem task_id p [] [] of
          Inl e \<Rightarrow> (sm, w, Inl e)
        | Inr item \<Rightarrow> (case save_work_item isof flt tmp now ''cli'' item sm w of
            (sm', w', Inl e) \<Rightarrow> (sm', w', Inl e)
          | (sm', w', Inr _) \<Rightarrow> (sm', w', Inr item))))"

section \<open>Round trips\<close>

definition stamps_ok :: "(int \<Rightarrow> string) \<Rightarrow> (json \<Rightarrow> int option) \<Rightarrow> work_item \<Rightarrow> bool" where
  "stamps_ok isof parse_at item \<longleftrightarrow>
     list_all (\<lambda>h. parse_at (JStr (isof (he_at h))) = Some (he_at h)) (wi_history item)"

lemma json_phase_value [simp]: "json_phase (JStr (phase_value p)) = Inr p"
  by (simp add: json_phase_def)

lemma validate_dump_entry:
  "parse_at (JStr (isof (he_at h))) = Some (he_at h) \<Longrightarrow> validate_entry parse_at (dump_entry isof h) = Inr h"
  by (cases "he_from h") (simp_all add: validate_entry_def dump_entry_def dgetd_def dkeys_def entry_fields_def Let_def)

lemma map_result_dump:
  "list_all (\<lambda>h. parse_at (JStr (isof (he_at h))) = Some (he_at h)) hs \<Longrightarrow>
     map_result (validate_entry parse_at) (map (dump_entry isof) hs) = Inr hs"
  by (induction hs) (simp_all add: validate_dump_entry)

lemma deserialize_serialize:
  assumes "stamps_ok isof parse_at item" "1 \<le> length (wi_id item)" "length (wi_id item) \<le> 80"
  shows "deserialize_item parse_at (wi_id item) (serialize_item isof item) = Inr item"
  using assms map_result_dump [of parse_at isof "wi_history item"]
  by (cases "wi_id item") (simp_all add: deserialize_item_def serialize_item_def dgetd_def json_iter_def json_dict_def WorkItem_def stamps_ok_def)

lemma load_with_item:
  assumes "get_task sm (wi_id item) = Some (JObj (with_item isof item d))" "stamps_ok isof parse_at item"
    "1 \<le> length (wi_id item)" "length (wi_id item) \<le> 80"
  shows "load_work_item parse_at sm (wi_id item) = Inr (Some item)"
proof -
  have "dgetd (with_item isof item d) WORK_ITEM_KEY JNull = JObj (serialize_item isof item)"
    by (simp add: with_item_def dgetd_def WORK_ITEM_KEY_def)
  moreover have "serialize_item isof item \<noteq> []" by (simp add: serialize_item_def)
  ultimately show ?thesis using assms deserialize_serialize [OF assms(2-4)]
    by (simp add: load_work_item_def)
qed

lemma set_task_memory:
  assumes "sm_storage_type sm = ''json''" "fresh_tmp tmp (sm_filename sm) w"
    "read_on_disk (sm_filename sm) w = Inr d"
  shows "get_task (fst (set_task NoFault tmp now k v agent sm w)) k = Some (JObj v)"
  using locked_persist_ok [OF assms(2,3) refl, of "dset k (JObj v)"]
  by (auto simp: set_task_json [OF assms(1)] get_task_def split: prod.splits sum.splits json.splits)

lemma save_load:
  assumes "sm_storage_type sm = ''json''" and "fresh_tmp tmp (sm_filename sm) w"
    and "read_on_disk (sm_filename sm) w = Inr d" and "stamps_ok isof parse_at item"
    and "1 \<le> length (wi_id item)" and "length (wi_id item) \<le> 80"
    and "task_dict (get_task sm (wi_id item)) \<noteq> None \<or> get_task sm (wi_id item) = None"
  shows "load_work_item parse_at (fst (save_work_item isof NoFault tmp now agent item sm w)) (wi_id item) = Inr (Some item)"
proof -
  have mem: "get_task (fst (set_task NoFault tmp now (wi_id item) v agent (sm\<lparr>sm_data := m\<rparr>) w)) (wi_id item) = Some (JObj v)" for v m
    by (rule set_task_memory [of "sm\<lparr>sm_data := m\<rparr>"]) (use assms in auto)
  from mem [of _ "sm_data sm"]
  have mem': "get_task (fst (set_task NoFault tmp now (wi_id item) v agent sm w)) (wi_id item) = Some (JObj v)" for v
    by simp
  show ?thesis
    using assms(7)
    by (auto simp: save_work_item_def task_dict_def Let_def mem mem' split: option.splits json.splits list.splits
        intro!: load_with_item [OF _ assms(4-6)])
qed

definition demo_iso :: "int \<Rightarrow> string" where
  "demo_iso t = (if t = 7 then ''7'' else [])"

definition demo_parse :: "json \<Rightarrow> int option" where
  "demo_parse v = (case v of JStr s \<Rightarrow> if s = ''7'' then Some 7 else None | _ \<Rightarrow> None)"

definition stored_item :: work_item where
  "stored_item = \<lparr>wi_id = ''t1'', wi_phase = ARCHITECT, wi_payload = [(''body'', JStr ''x'')],
     wi_history = [\<lparr>he_from = Some PLAN, he_to = ARCHITECT, he_at = 7, he_reason = [], he_evidence = [''lint'']\<rparr>]\<rparr>"

text \<open>C13: a saved work item comes back. After a successful save over a readable state file, the
  manager loads exactly the item: its phase, payload and every history entry.\<close>

theorem save_load_roundtrip:
  assumes "sm_storage_type sm = ''json''" and "fresh_tmp tmp (sm_filename sm) w"
    and "read_on_disk (sm_filename sm) w = Inr d" and "stamps_ok isof parse_at item"
    and "1 \<le> length (wi_id item)" and "length (wi_id item) \<le> 80"
    and "task_dict (get_task sm (wi_id item)) \<noteq> None \<or> get_task sm (wi_id item) = None"
  shows "load_work_item parse_at (fst (save_work_item isof NoFault tmp now agent item sm w)) (wi_id item) = Inr (Some item)"
  by (rule save_load [OF assms])

theorem save_load_roundtrip_witness:
  "load_work_item demo_parse (fst (save_work_item demo_iso NoFault ''tmp'' ''n'' ''a'' stored_item
     (demo_manager ''s'' []) \<lparr>docs = [], logs = []\<rparr>)) ''t1'' = Inr (Some stored_item)"
proof -
  have "stamps_ok demo_iso demo_parse stored_item"
    by (simp add: stamps_ok_def stored_item_def demo_parse_def demo_iso_def)
  then show ?thesis
    using save_load_roundtrip [of "demo_manager ''s'' []" "''tmp''" "\<lparr>docs = [], logs = []\<rparr>" "[]" demo_iso demo_parse stored_item "''n''" "''a''"]
    by (simp add: demo_manager_def fresh_tmp_def dmem_def read_on_disk_def stored_item_def get_task_def)
qed

section \<open>The lost diff\<close>

lemma compute_diff_self: "json_wf (JObj d) \<Longrightarrow> compute_diff d d = []"
proof -
  assume wf: "json_wf (JObj d)"
  have "py_eq (dgetd d k JNull) (dgetd d k JNull)" for k
  proof (cases "dget d k")
    case (Some v)
    then have "(k, v) \<in> set d" by (rule dget_in_set)
    with wf have "json_wf v" by (auto simp: list_all_iff)
    with Some show ?thesis by (simp add: dgetd_def py_eq_refl)
  qed (simp add: dgetd_def)
  then show ?thesis by (simp add: compute_diff_def Let_def)
qed

text \<open>Saving over an existing task logs an empty diff. The dictionary the save writes into
  is the manager's own, so the old value the event compares with is the new one: the
  audit trail of every later transition of a persisted item records no change.\<close>

theorem save_existing_logs_empty_diff:
  assumes "sm_storage_type sm = ''json''" and "fresh_tmp tmp (sm_filename sm) w"
    and "read_on_disk (sm_filename sm) w = Inr m" and "get_task sm (wi_id item) = Some (JObj d)" and "d \<noteq> []"
    and "json_wf (JObj (with_item isof item d))"
  shows "get_all_events sm (fst (snd (save_work_item isof NoFault tmp now agent item sm w))) =
     get_all_events sm w @ [task_event now (wi_id item) agent ''SET'' []]"
proof -
  let ?e = "with_item isof item d"
  let ?sm = "sm\<lparr>sm_data := dset (wi_id item) (JObj ?e) (sm_data sm)\<rparr>"
  obtain kv d' where d: "d = kv # d'" using assms(5) by (cases d) auto
  have "save_work_item isof NoFault tmp now agent item sm w = set_task NoFault tmp now (wi_id item) ?e agent ?sm w"
    using assms(4) d by (simp add: save_work_item_def Let_def)
  moreover have j: "sm_storage_type ?sm = ''json''" using assms(1) by simp
  moreover obtain w' r where p: "locked_persist_json NoFault tmp (dset (wi_id item) (JObj ?e)) ?sm w = (w', r)" by fastforce
  moreover have "r = Inr (dset (wi_id item) (JObj ?e) m)" "logs w' = logs w"
    using locked_persist_ok [of tmp ?sm w m NoFault "dset (wi_id item) (JObj ?e)"] assms p
      locked_persist_logs [of NoFault tmp "dset (wi_id item) (JObj ?e)" ?sm w] by auto
  ultimately show ?thesis
    by (simp add: set_task_json [OF j] dgetd_def compute_diff_self [OF assms(6)] get_all_events_def
        append_event_def locked_append_def split: option.splits)
qed

theorem save_existing_logs_empty_diff_witness:
  "get_all_events (demo_manager ''s'' [(''t1'', JObj [(''phase'', JStr ''PLAN'')])])
     (fst (snd (save_work_item demo_iso NoFault ''tmp'' ''n'' ''a'' stored_item
        (demo_manager ''s'' [(''t1'', JObj [(''phase'', JStr ''PLAN'')])]) \<lparr>docs = [], logs = []\<rparr>)))
   = [task_event ''n'' ''t1'' ''a'' ''SET'' []]"
proof -
  have "json_wf (JObj (with_item demo_iso stored_item [(''phase'', JStr ''PLAN'')]))"
    by (simp add: with_item_def WORK_ITEM_KEY_def serialize_item_def stored_item_def dump_entry_def dwf_def)
  then show ?thesis
    using save_existing_logs_empty_diff [of "demo_manager ''s'' [(''t1'', JObj [(''phase'', JStr ''PLAN'')])]" "''tmp''"
      "\<lparr>docs = [], logs = []\<rparr>" "[]" stored_item "[(''phase'', JStr ''PLAN'')]" demo_iso "''n''" "''a''"]
    by (simp add: demo_manager_def fresh_tmp_def dmem_def read_on_disk_def stored_item_def get_task_def get_all_events_def)
qed

end
