(* ===== verification/Metrics.thy ===== *)
theory Metrics
  imports State_Manager "HOL-Library.List_Lexorder" "HOL-Library.Char_ord"
begin

text \<open>
  The metrics registry and the counters of \<open>src/observability/metrics.py\<close>: agent and
  tool call statistics with their file, the timing decorators, and the labelled counters
  and histograms the task queue reports to. Seconds are exact reals.
\<close>

section \<open>Call statistics\<close>

record agent_metrics =
  am_calls :: int
  am_errors :: int
  am_sum :: real
  am_count :: int
  am_last :: string

type_synonym tool_metrics = agent_metrics

definition AgentMetrics :: agent_metrics where
  "AgentMetrics = \<lparr>am_calls = 0, am_errors = 0, am_sum = 0, am_count = 0, am_last = []\<rparr>"

record metrics_registry =
  mr_filename :: string
  mr_agents :: "(string, agent_metrics) dict"
  mr_tools :: "(string, tool_metrics) dict"
  mr_tokens :: "(string, int) dict"

definition bump :: "real \<Rightarrow> exn option \<Rightarrow> agent_metrics \<Rightarrow> agent_metrics" where
  "bump duration err m =
     (let m1 = m\<lparr>am_calls := am_calls m + 1, am_sum := am_sum m + duration, am_count := am_count m + 1\<rparr>
      in case err of None \<Rightarrow> m1
         | Some e \<Rightarrow> m1\<lparr>am_errors := am_errors m1 + 1, am_last := exn_msg e\<rparr>)"

definition metrics_json :: "agent_metrics \<Rightarrow> json" where
  "metrics_json m = JObj [(''calls_total'', JInt (am_calls m)), (''errors_total'', JInt (am_errors m)),
     (''duration_seconds_sum'', JFloat (am_sum m)), (''duration_seconds_count'', JInt (am_count m)),
     (''last_error'', JStr (am_last m))]"

definition persist_payload :: "metrics_registry \<Rightarrow> json" where
  "persist_payload r = JObj [(''agents'', JObj (map (\<lambda>(n, m). (n, metrics_json m)) (mr_agents r))),
     (''tools'', JObj (map (\<lambda>(n, m). (n, metrics_json m)) (mr_tools r))),
     (''token_usage'', JObj (map (\<lambda>(n, c). (n, JInt c)) (mr_tokens r)))]"

definition persist_metrics :: "metrics_registry \<Rightarrow> fs \<Rightarrow> fs" where
  "persist_metrics r w = w\<lparr>docs := dset (mr_filename r) (Doc (persist_payload r)) (docs w)\<rparr>"

definition record_agent_call ::
  "string \<Rightarrow> real \<Rightarrow> exn option \<Rightarrow> metrics_registry \<times> fs \<Rightarrow> metrics_registry \<times> fs" where
  "record_agent_call name duration err = (\<lambda>(r, w).
     let r' = r\<lparr>mr_agents := dset name (bump duration err (dgetd (mr_agents r) name AgentMetrics)) (mr_agents r)\<rparr>
     in (r', persist_metrics r' w))"

definition record_tool_call ::
  "string \<Rightarrow> real \<Rightarrow> exn option \<Rightarrow> metrics_registry \<times> fs \<Rightarrow> metrics_registry \<times> fs" where
  "record_tool_call name duration err = (\<lambda>(r, w).
     let r' = r\<lparr>mr_tools := dset name (bump duration err (dgetd (mr_tools r) name AgentMetrics)) (mr_tools r)\<rparr>
     in (r', persist_metrics r' w))"

definition record_tokens :: "string \<Rightarrow> int \<Rightarrow> metrics_registry \<times> fs \<Rightarrow> metrics_registry \<times> fs" where
  "record_tokens name tokens = (\<lambda>(r, w).
     let r' = r\<lparr>mr_tokens := dset name (dgetd (mr_tokens r) name 0 + tokens) (mr_tokens r)\<rparr>
     in (r', persist_metrics r' w))"

definition avg_duration :: "agent_metrics \<Rightarrow> real" where
  "avg_duration m = (if am_count m = 0 then 0 else am_sum m / of_int (am_count m))"

definition summary_json :: "agent_metrics \<Rightarrow> json" where
  "summary_json m = JObj [(''calls_total'', JInt (am_calls m)), (''errors_total'', JInt (am_errors m)),
     (''avg_duration_seconds'', JFloat (avg_duration m)), (''last_error'', JStr (am_last m))]"

definition get_summary :: "metrics_registry \<Rightarrow> json" where
  "get_summary r = JObj [(''agents'', JObj (map (\<lambda>(n, m). (n, summary_json m)) (mr_agents r))),
     (''tools'', JObj (map (\<lambda>(n, m). (n, summary_json m)) (mr_tools r))),
     (''token_usage'', JObj (map (\<lambda>(n, c). (n, JInt c)) (mr_tokens r)))]"

definition reset_metrics :: "metrics_registry \<times> fs \<Rightarrow> metrics_registry \<times> fs" where
  "reset_metrics = (\<lambda>(r, w). (r\<lparr>mr_agents := [], mr_tools := [], mr_tokens := []\<rparr>,
     w\<lparr>docs := ddel (mr_filename r) (docs w)\<rparr>))"

section \<open>Loading\<close>

text \<open>
  \<open>AgentMetrics(**data)\<close>: an unknown key or a value that is no mapping raises
  \<open>TypeError\<close>, absent fields take their defaults. Python does not check the types of the
  values; a file with a field of another type is outside the model (the outer \<open>None\<close>).
\<close>

definition metrics_fields :: "string list" where
  "metrics_fields = [''calls_total'', ''errors_total'', ''duration_seconds_sum'',
     ''duration_seconds_count'', ''last_error'']"

definition int_field :: "(string, json) dict \<Rightarrow> string \<Rightarrow> int option" where
  "int_field d k = (case dget d k of None \<Rightarrow> Some 0 | Some (JInt i) \<Rightarrow> Some i | _ \<Rightarrow> None)"

definition metrics_of_json :: "json \<Rightarrow> agent_metrics result option" where
  "metrics_of_json v = (case v of
      JObj d \<Rightarrow>
        if list_ex (\<lambda>k. \<not> List.member metrics_fields k) (dkeys d) then Some (Inl (Exn ''TypeError'' []))
        else (case (int_field d ''calls_total'', int_field d ''errors_total'', int_field d ''duration_seconds_count'',
                (case dget d ''duration_seconds_sum'' of None \<Rightarrow> Some 0 | Some (JFloat x) \<Rightarrow> Some x
                   | Some (JInt i) \<Rightarrow> Some (of_int i) | _ \<Rightarrow> None),
                (case dget d ''last_error'' of None \<Rightarrow> Some [] | Some (JStr s) \<Rightarrow> Some s | _ \<Rightarrow> None)) of
            (Some c, Some e, Some n, Some x, Some l) \<Rightarrow>
              Some (Inr \<lparr>am_calls = c, am_errors = e, am_sum = x, am_count = n, am_last = l\<rparr>)
          | _ \<Rightarrow> None)
    | _ \<Rightarrow> Some (Inl (Exn ''TypeError'' [])))"

text \<open>A loop of the loader: it stops at the first raise, keeping what it loaded.\<close>

fun load_entries :: "(json \<Rightarrow> 'v result option) \<Rightarrow> (string \<times> json) list \<Rightarrow> (string, 'v) dict
    \<Rightarrow> ((string, 'v) dict \<times> exn option) option" where
  "load_entries conv [] acc = Some (acc, None)"
| "load_entries conv ((n, v) # kvs) acc = (case conv v of
      None \<Rightarrow> None
    | Some (Inl e) \<Rightarrow> Some (acc, Some e)
    | Some (Inr m) \<Rightarrow> load_entries conv kvs (dset n m acc))"

definition load_section :: "(json \<Rightarrow> 'v result option) \<Rightarrow> (string, json) dict \<Rightarrow> string \<Rightarrow> (string, 'v) dict
    \<Rightarrow> ((string, 'v) dict \<times> exn option) option" where
  "load_section conv payload name acc = (case dgetd payload name (JObj []) of
      JObj kvs \<Rightarrow> load_entries conv kvs acc
    | _ \<Rightarrow> Some (acc, Some (attribute_error ''items'')))"

definition token_of_json :: "json \<Rightarrow> int result option" where
  "token_of_json v = (case v of JInt i \<Rightarrow> Some (Inr i) | _ \<Rightarrow> None)"

definition after_load :: "metrics_registry \<Rightarrow> exn option \<Rightarrow> metrics_registry result" where
  "after_load r err = (case err of None \<Rightarrow> Inr r
     | Some e \<Rightarrow> if exn_type e = ''TypeError'' then Inr r else Inl e)"

definition load_metrics :: "string \<Rightarrow> fs \<Rightarrow> metrics_registry result option" where
  "load_metrics f w =
     (let r = \<lparr>mr_filename = f, mr_agents = [], mr_tools = [], mr_tokens = []\<rparr> in
      case dget (docs w) f of
        None \<Rightarrow> Some (Inr r)
      | Some (Doc (JObj p)) \<Rightarrow>
          (case load_section metrics_of_json p ''agents'' [] of
             None \<Rightarrow> None
           | Some (a, Some e) \<Rightarrow> Some (after_load (r\<lparr>mr_agents := a\<rparr>) (Some e))
           | Some (a, None) \<Rightarrow>
          (case load_section metrics_of_json p ''tools'' [] of
             None \<Rightarrow> None
           | Some (t, Some e) \<Rightarrow> Some (after_load (r\<lparr>mr_agents := a, mr_tools := t\<rparr>) (Some e))
           | Some (t, None) \<Rightarrow>
          (case load_section token_of_json p ''token_usage'' [] of
             None \<Rightarrow> None
           | Some (u, err) \<Rightarrow> Some (after_load (r\<lparr>mr_agents := a, mr_tools := t, mr_tokens := u\<rparr>) err))))
      | Some (Doc _) \<Rightarrow> Some (Inl (attribute_error ''get''))
      | Some _ \<Rightarrow> Some (Inr r))"

section \<open>The timing decorators\<close>

text \<open>
  \<open>except Exception\<close> does not see the classes derived directly from
  \<open>BaseException\<close>: a cancelled call is recorded without an error.
\<close>

definition is_exception :: "exn \<Rightarrow> bool" where
  "is_exception e \<longleftrightarrow> \<not> List.member [''CancelledError'', ''KeyboardInterrupt'', ''SystemExit'', ''GeneratorExit''] (exn_type e)"

definition timer_error :: "'a result \<Rightarrow> exn option" where
  "timer_error outcome = (case outcome of Inl e \<Rightarrow> if is_exception e then Some e else None | Inr _ \<Rightarrow> None)"

definition agent_timer ::
  "string \<Rightarrow> real \<Rightarrow> real \<Rightarrow> 'a result \<Rightarrow> metrics_registry \<times> fs \<Rightarrow> (metrics_registry \<times> fs) \<times> 'a result" where
  "agent_timer name start stop outcome rw =
     (record_agent_call name (stop - start) (timer_error outcome) rw, outcome)"

definition tool_timer ::
  "string \<Rightarrow> real \<Rightarrow> real \<Rightarrow> 'a result \<Rightarrow> metrics_registry \<times> fs \<Rightarrow> (metrics_registry \<times> fs) \<times> 'a result" where
  "tool_timer name start stop outcome rw =
     (record_tool_call name (stop - start) (timer_error outcome) rw, outcome)"

section \<open>Counters and histograms\<close>

type_synonym labels = "(string, string) dict"

type_synonym counters = "(string, (string, real) dict) dict"

definition label_key :: "labels \<Rightarrow> string" where
  "label_key ls = join '','' (map (\<lambda>(k, v). k @ ''='' @ v) (sort_key fst ls))"

definition add_to :: "string \<Rightarrow> string \<Rightarrow> real \<Rightarrow> counters \<Rightarrow> counters" where
  "add_to name key v cs =
     (let d = dgetd cs name [] in dset name (dset key (dgetd d key 0 + v) d) cs)"

definition increment_counter :: "string \<Rightarrow> labels \<Rightarrow> real \<Rightarrow> counters \<Rightarrow> counters" where
  "increment_counter name ls v cs = add_to name (label_key ls) v cs"

definition record_histogram :: "string \<Rightarrow> real \<Rightarrow> labels \<Rightarrow> counters \<Rightarrow> counters" where
  "record_histogram name v ls cs =
     add_to name (label_key ls @ '':count'') 1 (add_to name (label_key ls @ '':sum'') v cs)"

text \<open>Reading a name of a \<open>defaultdict\<close> inserts it.\<close>

definition get_counter_value :: "string \<Rightarrow> labels \<Rightarrow> counters \<Rightarrow> real \<times> counters" where
  "get_counter_value name ls cs =
     (dgetd (dgetd cs name []) (label_key ls) 0, if dmem name cs then cs else dset name [] cs)"

definition reset_counters :: "counters \<Rightarrow> counters" where
  "reset_counters cs = []"

definition counter_at :: "string \<Rightarrow> string \<Rightarrow> counters \<Rightarrow> real" where
  "counter_at name key cs = dgetd (dgetd cs name []) key 0"

lemma counter_at_add_to:
  "counter_at n k (add_to n' k' v cs) = counter_at n k cs + (if n = n' \<and> k = k' then v else 0)"
  by (simp add: counter_at_def add_to_def Let_def dgetd_def)

lemma counter_at_increment [simp]:
  "counter_at n k (increment_counter n' ls v cs) = counter_at n k cs + (if n = n' \<and> k = label_key ls then v else 0)"
  by (simp add: increment_counter_def counter_at_add_to)

lemma counter_at_histogram:
  "n \<noteq> n' \<Longrightarrow> counter_at n k (record_histogram n' v ls cs) = counter_at n k cs"
  by (simp add: record_histogram_def counter_at_add_to)

lemma label_key_Nil [simp]: "label_key [] = []"
  by (simp add: label_key_def)

section \<open>Properties\<close>

lemma load_entries_map:
  assumes "\<And>m. conv (enc m) = Some (Inr m)" "dwf (acc @ kvs)"
  shows "load_entries conv (map (\<lambda>(n, m). (n, enc m)) kvs) acc = Some (acc @ kvs, None)"
  using assms(2)
proof (induction kvs arbitrary: acc)
  case (Cons kv kvs)
  obtain n m where kv: "kv = (n, m)" by fastforce
  with Cons.prems have "dget acc n = None" by (auto simp: dwf_def map_of_eq_None_iff)
  then have "dset n m acc = acc @ [kv]" using kv by (simp add: dset_absent)
  with Cons.IH [of "acc @ [kv]"] Cons.prems kv assms(1) show ?case by simp
qed simp

lemma metrics_of_metrics_json: "metrics_of_json (metrics_json m) = Some (Inr m)"
  by (simp add: metrics_of_json_def metrics_json_def dkeys_def metrics_fields_def int_field_def)

lemma load_metrics_section:
  "dwf d \<Longrightarrow> load_entries metrics_of_json (map (\<lambda>(n, m). (n, metrics_json m)) d) [] = Some (d, None)"
  using load_entries_map [of metrics_of_json metrics_json "[]" d] metrics_of_metrics_json by simp

lemma load_token_section:
  "dwf d \<Longrightarrow> load_entries token_of_json (map (\<lambda>(n, c). (n, JInt c)) d) [] = Some (d, None)"
  using load_entries_map [of token_of_json JInt "[]" d] by (simp add: token_of_json_def)

definition registry_wf :: "metrics_registry \<Rightarrow> bool" where
  "registry_wf r \<longleftrightarrow> dwf (mr_agents r) \<and> dwf (mr_tools r) \<and> dwf (mr_tokens r)"

text \<open>Metrics survive a restart. What a registry persisted, a registry created on the same
  file reads back exactly: every agent, tool and token entry, in order.\<close>

theorem metrics_roundtrip:
  assumes "registry_wf r"
  shows "load_metrics (mr_filename r) (persist_metrics r w) = Some (Inr r)"
  using assms
  by (simp add: load_metrics_def persist_metrics_def persist_payload_def load_section_def dgetd_def registry_wf_def
      load_metrics_section load_token_section after_load_def)

theorem metrics_roundtrip_witness:
  "load_metrics ''m'' (persist_metrics \<lparr>mr_filename = ''m'', mr_agents = [(''a'', AgentMetrics)], mr_tools = [],
     mr_tokens = [(''a'', 3)]\<rparr> \<lparr>docs = [], logs = []\<rparr>) =
   Some (Inr \<lparr>mr_filename = ''m'', mr_agents = [(''a'', AgentMetrics)], mr_tools = [], mr_tokens = [(''a'', 3)]\<rparr>)"
  using metrics_roundtrip [of "\<lparr>mr_filename = ''m'', mr_agents = [(''a'', AgentMetrics)], mr_tools = [],
     mr_tokens = [(''a'', 3)]\<rparr>" "\<lparr>docs = [], logs = []\<rparr>"]
  by (simp add: registry_wf_def dwf_def)

text \<open>A timed call: who was called, when it started and ended, how it ended.\<close>

record timed_call =
  tc_name :: string
  tc_start :: real
  tc_stop :: real
  tc_outcome :: "unit result"

definition run_timed :: "timed_call list \<Rightarrow> metrics_registry \<times> fs \<Rightarrow> metrics_registry \<times> fs" where
  "run_timed cs rw = fold (\<lambda>c rw. fst (agent_timer (tc_name c) (tc_start c) (tc_stop c) (tc_outcome c) rw)) cs rw"

definition calls_of :: "string \<Rightarrow> timed_call list \<Rightarrow> timed_call list" where
  "calls_of n cs = filter (\<lambda>c. tc_name c = n) cs"

definition call_errors :: "timed_call list \<Rightarrow> exn list" where
  "call_errors cs = List.map_filter (\<lambda>c. timer_error (tc_outcome c)) cs"

definition stats_of :: "timed_call list \<Rightarrow> agent_metrics" where
  "stats_of cs = \<lparr>am_calls = int (length cs), am_errors = int (length (call_errors cs)),
     am_sum = sum_list (map (\<lambda>c. tc_stop c - tc_start c) cs), am_count = int (length cs),
     am_last = (if call_errors cs = [] then [] else exn_msg (last (call_errors cs)))\<rparr>"

lemma call_errors_snoc [simp]:
  "call_errors (cs @ [c]) = call_errors cs @ (case timer_error (tc_outcome c) of None \<Rightarrow> [] | Some e \<Rightarrow> [e])"
  by (simp add: call_errors_def List.map_filter_def split: option.splits)

lemma stats_of_snoc:
  "stats_of (cs @ [c]) = bump (tc_stop c - tc_start c) (timer_error (tc_outcome c)) (stats_of cs)"
  by (cases "timer_error (tc_outcome c)") (simp_all add: stats_of_def bump_def Let_def)

lemma stats_of_Nil [simp]: "stats_of [] = AgentMetrics"
  by (simp add: stats_of_def AgentMetrics_def call_errors_def List.map_filter_def)

text \<open>The statistics are those of the calls. Whatever timed calls are made from an empty
  registry, in whatever order over the agents, an agent's entry holds the number of its
  calls, of its errors, the sum of its durations and the message of its last error; and
  the decorator returns what the wrapped function returned or raised.\<close>

theorem timer_statistics:
  "dgetd (mr_agents (fst (run_timed cs (\<lparr>mr_filename = f, mr_agents = [], mr_tools = [], mr_tokens = []\<rparr>, w)))) n AgentMetrics
     = stats_of (calls_of n cs)
   \<and> snd (agent_timer n t0 t1 out rw) = out"
proof -
  have "dgetd (mr_agents (fst (run_timed cs (\<lparr>mr_filename = f, mr_agents = [], mr_tools = [], mr_tokens = []\<rparr>, w)))) n AgentMetrics
     = stats_of (calls_of n cs)"
  proof (induction cs rule: rev_induct)
    case (snoc c cs)
    obtain r w' where rw: "run_timed cs (\<lparr>mr_filename = f, mr_agents = [], mr_tools = [], mr_tokens = []\<rparr>, w) = (r, w')"
      by fastforce
    with snoc show ?case
      by (auto simp: run_timed_def agent_timer_def record_agent_call_def Let_def dgetd_def calls_of_def stats_of_snoc)
  qed (simp add: run_timed_def calls_of_def dgetd_def)
  then show ?thesis by (simp add: agent_timer_def)
qed

end
