(* ===== verification/Rate_Limiter.thy ===== *)
theory Rate_Limiter
  imports Prelude
begin

text \<open>
  The token bucket of \<open>src/services/task_queue.py\<close> (class \<open>RateLimiter\<close>). Times are exact
  reals in seconds. One pass through the lock of \<open>acquire\<close> is \<open>acquire_attempt\<close>; the
  recursion \<open>await sleep(wait); return await self.acquire()\<close> is \<open>acquire\<close>, on fuel, with
  sleeps of exactly the requested length.
\<close>

record rate_limiter =
  rl_rate :: real
  rl_burst :: real
  rl_tokens :: real
  rl_last :: real

definition RateLimiter :: "real \<Rightarrow> real \<Rightarrow> real \<Rightarrow> rate_limiter" where
  "RateLimiter now rate burst = \<lparr>rl_rate = rate, rl_burst = burst, rl_tokens = burst, rl_last = now\<rparr>"

datatype attempt = Granted | Wait real | ZeroRate

definition refill :: "real \<Rightarrow> rate_limiter \<Rightarrow> rate_limiter" where
  "refill now rl = rl\<lparr>rl_tokens := min (rl_burst rl) (rl_tokens rl + (now - rl_last rl) * rl_rate rl), rl_last := now\<rparr>"

definition acquire_attempt :: "real \<Rightarrow> rate_limiter \<Rightarrow> rate_limiter \<times> attempt" where
  "acquire_attempt now rl =
     (let rl1 = refill now rl in
      if 1 \<le> rl_tokens rl1 then (rl1\<lparr>rl_tokens := rl_tokens rl1 - 1\<rparr>, Granted)
      else if rl_rate rl1 = 0 then (rl1, ZeroRate)
      else (rl1\<lparr>rl_tokens := 0\<rparr>, Wait ((1 - rl_tokens rl1) / rl_rate rl1)))"

fun acquire :: "nat \<Rightarrow> real \<Rightarrow> rate_limiter \<Rightarrow> (real \<times> rate_limiter) result option" where
  "acquire 0 now rl = None"
| "acquire (Suc n) now rl = (case acquire_attempt now rl of
      (rl', Granted) \<Rightarrow> Some (Inr (now, rl'))
    | (rl', ZeroRate) \<Rightarrow> Some (Inl (Exn ''ZeroDivisionError'' ''division by zero''))
    | (rl', Wait d) \<Rightarrow> acquire n (now + d) rl')"

section \<open>The bucket never overflows its rate\<close>

definition limiter_ok :: "rate_limiter \<Rightarrow> bool" where
  "limiter_ok rl \<longleftrightarrow> 0 \<le> rl_rate rl \<and> 0 \<le> rl_tokens rl \<and> rl_tokens rl \<le> rl_burst rl"

lemma RateLimiter_ok: "0 \<le> rate \<Longrightarrow> 0 \<le> burst \<Longrightarrow> limiter_ok (RateLimiter now rate burst)"
  by (simp add: limiter_ok_def RateLimiter_def)

definition grant :: "attempt \<Rightarrow> nat" where
  "grant a = (case a of Granted \<Rightarrow> 1 | _ \<Rightarrow> 0)"

lemma refill_ok:
  "limiter_ok rl \<Longrightarrow> rl_last rl \<le> now \<Longrightarrow> limiter_ok (refill now rl)"
  by (auto simp: limiter_ok_def refill_def intro!: add_nonneg_nonneg mult_nonneg_nonneg)

lemma attempt_ok:
  assumes "limiter_ok rl" "rl_last rl \<le> now"
  shows "limiter_ok (fst (acquire_attempt now rl)) \<and> rl_last (fst (acquire_attempt now rl)) = now
    \<and> rl_rate (fst (acquire_attempt now rl)) = rl_rate rl
    \<and> rl_tokens (fst (acquire_attempt now rl)) + real (grant (snd (acquire_attempt now rl)))
        \<le> rl_tokens rl + (now - rl_last rl) * rl_rate rl"
proof -
  have ok: "limiter_ok (refill now rl)" using assms by (rule refill_ok)
  have le: "rl_tokens (refill now rl) \<le> rl_tokens rl + (now - rl_last rl) * rl_rate rl"
    and l: "rl_last (refill now rl) = now" and r: "rl_rate (refill now rl) = rl_rate rl"
    by (simp_all add: refill_def)
  from ok have nn: "0 \<le> rl_tokens (refill now rl)" by (simp add: limiter_ok_def)
  have "0 \<le> rl_tokens rl + (now - rl_last rl) * rl_rate rl" using nn le by linarith
  then show ?thesis using ok le l r
    by (auto simp: acquire_attempt_def Let_def grant_def limiter_ok_def)
qed

fun run_attempts :: "real list \<Rightarrow> rate_limiter \<Rightarrow> rate_limiter \<times> nat" where
  "run_attempts [] rl = (rl, 0)"
| "run_attempts (t # ts) rl = (case acquire_attempt t rl of (rl', a) \<Rightarrow>
     case run_attempts ts rl' of (rl'', k) \<Rightarrow> (rl'', grant a + k))"

lemma run_attempts_potential:
  "limiter_ok rl \<Longrightarrow> sorted (rl_last rl # ts) \<Longrightarrow>
     rl_tokens (fst (run_attempts ts rl)) + real (snd (run_attempts ts rl))
       \<le> rl_tokens rl + (last (rl_last rl # ts) - rl_last rl) * rl_rate rl
     \<and> limiter_ok (fst (run_attempts ts rl))"
proof (induction ts arbitrary: rl)
  case (Cons t ts)
  obtain rl' a where a: "acquire_attempt t rl = (rl', a)" by fastforce
  have "rl_last rl \<le> t" using Cons.prems(2) by simp
  from attempt_ok [OF Cons.prems(1) this] a
  have ok: "limiter_ok rl'" "rl_last rl' = t" "rl_rate rl' = rl_rate rl"
    and le: "rl_tokens rl' + real (grant a) \<le> rl_tokens rl + (t - rl_last rl) * rl_rate rl" by auto
  have "sorted (rl_last rl' # ts)" using Cons.prems(2) ok(2) by simp
  from Cons.IH [OF ok(1) this] ok le show ?case
    by (cases "ts = []") (auto simp add: a algebra_simps split: prod.splits)
qed (simp)

text \<open>C23: the rate is respected. Whatever the times of the attempts, the number of tokens a fresh
  limiter has granted up to the last of them is at most the burst size plus the rate times
  the time gone by.\<close>

theorem limiter_rate_bound:
  assumes "0 \<le> rate" and "0 \<le> burst" and "sorted (t0 # ts)"
  shows "real (snd (run_attempts ts (RateLimiter t0 rate burst))) \<le> burst + (last (t0 # ts) - t0) * rate"
  using run_attempts_potential [OF RateLimiter_ok [OF assms(1,2)], of t0 ts] assms(3)
  by (simp add: RateLimiter_def limiter_ok_def)

theorem limiter_rate_bound_witness:
  "real (snd (run_attempts [0, 0, 1] (RateLimiter 0 1 1))) \<le> 2"
  using limiter_rate_bound [of 1 1 0 "[0, 0, 1]"] by simp

section \<open>Waiting for a token\<close>

lemma refill_wait:
  assumes "0 < rl_rate rl" "1 \<le> rl_burst rl" "rl_tokens rl = 0" "x < 1" "0 < x"
  shows "rl_tokens (refill (rl_last rl + (1 - x) / rl_rate rl) rl) = 1 - x"
  using assms by (simp add: refill_def)

text \<open>A fraction of a token is never turned into a token. If a task arrives when the bucket
  holds a fraction strictly between 0 and 1, \<open>acquire\<close> throws the fraction away and sleeps
  only for the missing part: with sleeps of exactly the requested length it wakes with the
  complementary fraction, and never returns, whatever the rate and the number of rounds.\<close>

theorem acquire_starves:
  assumes "0 < rl_rate rl" and "1 \<le> rl_burst rl" and "0 < rl_tokens (refill now rl)" and "rl_tokens (refill now rl) < 1"
  shows "acquire n now rl = None"
  using assms
proof (induction n arbitrary: now rl)
  case (Suc n)
  let ?x = "rl_tokens (refill now rl)"
  let ?rl = "(refill now rl)\<lparr>rl_tokens := 0\<rparr>"
  let ?now = "now + (1 - ?x) / rl_rate rl"
  have r: "rl_rate ?rl = rl_rate rl" "rl_burst ?rl = rl_burst rl" "rl_last ?rl = now" "rl_tokens ?rl = 0"
    by (simp_all add: refill_def)
  have "rl_tokens (refill ?now ?rl) = 1 - ?x"
    using refill_wait [of ?rl ?x] Suc.prems r by simp
  then have "acquire n ?now ?rl = None"
    using Suc.IH [of ?rl ?now] Suc.prems r by simp
  moreover have "acquire_attempt now rl = (?rl, Wait ((1 - ?x) / rl_rate rl))"
    using Suc.prems r(1) by (simp add: acquire_attempt_def Let_def)
  ultimately show ?case by simp
qed simp

theorem acquire_starves_witness:
  "acquire 100 0 \<lparr>rl_rate = 1, rl_burst = 1, rl_tokens = 1 / 2, rl_last = 0\<rparr> = None"
  using acquire_starves [of "\<lparr>rl_rate = 1, rl_burst = 1, rl_tokens = 1 / 2, rl_last = 0\<rparr>" 0 100]
  by (simp add: refill_def)

text \<open>From an empty bucket the wait is exact: the second attempt is granted.\<close>

lemma acquire_empty:
  assumes "0 < rl_rate rl" "1 \<le> rl_burst rl" "rl_tokens (refill now rl) = 0"
  shows "\<exists>rl'. acquire 2 now rl = Some (Inr (now + 1 / rl_rate rl, rl'))"
proof -
  have "acquire_attempt now rl = ((refill now rl)\<lparr>rl_tokens := 0\<rparr>, Wait (1 / rl_rate rl))"
    using assms by (simp add: acquire_attempt_def Let_def) (simp add: refill_def)
  moreover have "snd (acquire_attempt (now + 1 / rl_rate rl) ((refill now rl)\<lparr>rl_tokens := 0\<rparr>)) = Granted"
    using assms by (simp add: acquire_attempt_def refill_def Let_def)
  ultimately show ?thesis
    by (auto simp: numeral_2_eq_2 split: prod.splits attempt.splits)
qed

end
