(* ===== verification/Task_Queue.thy ===== *)
theory Task_Queue
  imports Metrics Rate_Limiter
begin

text \<open>
  The asynchronous task queue of \<open>src/services/task_queue.py\<close>. A coroutine runs without
  interruption between two \<open>await\<close>s, so each operation below is the code between two
  awaits, and a run of the queue is a sequence of them: the worker pool is the list of the
  positions its coroutines wait at. The result of a task function, the fresh identifiers and
  the clock are arguments of the operations. Task objects are shared by the table, the heap
  and the workers: heap and workers hold the identifier, the table the object. The heap
  orders by \<open>(priority, created_at)\<close>; Python raises \<open>TypeError\<close> on two equal keys
  (it then compares the tasks), so queued keys are taken to differ.
\<close>

section \<open>Tasks\<close>

datatype task_status = PENDING | RUNNING | COMPLETED | FAILED | CANCELLED

datatype task_type = AGENT_CALL | TOOL_EXECUTION | WORKFLOW_STEP | BACKGROUND_JOB | NOTIFICATION

primrec task_type_value :: "task_type \<Rightarrow> string" where
  "task_type_value AGENT_CALL = ''agent_call''"
| "task_type_value TOOL_EXECUTION = ''tool_execution''"
| "task_type_value WORKFLOW_STEP = ''workflow_step''"
| "task_type_value BACKGROUND_JOB = ''background_job''"
| "task_type_value NOTIFICATION = ''notification''"

datatype task_priority = TaskPriority (tp_priority: int) (tp_created: real)

instantiation task_priority :: linorder
begin

definition less_eq_task_priority :: "task_priority \<Rightarrow> task_priority \<Rightarrow> bool" where
  "p \<le> q \<longleftrightarrow> tp_priority p < tp_priority q \<or> tp_priority p = tp_priority q \<and> tp_created p \<le> tp_created q"

definition less_task_priority :: "task_priority \<Rightarrow> task_priority \<Rightarrow> bool" where
  "p < q \<longleftrightarrow> tp_priority p < tp_priority q \<or> tp_priority p = tp_priority q \<and> tp_created p < tp_created q"

instance
proof
  fix p q r :: task_priority
  show "p < q \<longleftrightarrow> p \<le> q \<and> \<not> q \<le> p"
    by (auto simp: less_eq_task_priority_def less_task_priority_def)
  show "p \<le> p" by (simp add: less_eq_task_priority_def)
  show "p \<le> q \<or> q \<le> p" by (auto simp: less_eq_task_priority_def)
  show "p \<le> r" if "p \<le> q" "q \<le> r" using that by (auto simp: less_eq_task_priority_def)
  show "p = q" if "p \<le> q" "q \<le> p"
    using that by (cases p; cases q) (auto simp: less_eq_task_priority_def)
qed

end

record task =
  t_id :: string
  t_type :: task_type
  t_payload :: "(string, json) dict"
  t_callback :: "nat option"
  t_priority :: task_priority
  t_status :: task_status
  t_created :: real
  t_started :: "real option"
  t_completed :: "real option"
  t_retry :: int
  t_max_retries :: int
  t_timeout :: "real option"
  t_result :: json
  t_error :: "string option"
  t_function :: bool

record task_result =
  tr_task_id :: string
  tr_success :: bool
  tr_result :: json
  tr_error :: "string option"
  tr_duration :: real
  tr_retries :: int

record task_metrics =
  tm_submitted :: int
  tm_completed :: int
  tm_failed :: int
  tm_cancelled :: int
  tm_retries :: int
  tm_wait :: real
  tm_exec :: real

definition TaskMetrics :: task_metrics where
  "TaskMetrics = \<lparr>tm_submitted = 0, tm_completed = 0, tm_failed = 0, tm_cancelled = 0, tm_retries = 0,
     tm_wait = 0, tm_exec = 0\<rparr>"

definition avg_wait_time_seconds :: "task_metrics \<Rightarrow> real" where
  "avg_wait_time_seconds m = (let c = tm_completed m + tm_failed m + tm_cancelled m in
     if c = 0 then 0 else tm_wait m / of_int c)"

definition avg_execution_time_seconds :: "task_metrics \<Rightarrow> real" where
  "avg_execution_time_seconds m = (let c = tm_completed m + tm_failed m in
     if c = 0 then 0 else tm_exec m / of_int c)"

definition success_rate :: "task_metrics \<Rightarrow> real" where
  "success_rate m = (let c = tm_completed m + tm_failed m in
     if c = 0 then 0 else of_int (tm_completed m) / of_int c)"

section \<open>The queue\<close>

text \<open>
  Where a worker coroutine is: waiting for the heap, awaiting the future of a task,
  sleeping before a retry (until the time given), or ended.
\<close>

datatype worker = Idle | Executing string | Backoff string real | Ended

record task_queue =
  q_max_workers :: nat
  q_maxsize :: nat
  q_heap :: "(task_priority \<times> string) list"
  q_unfinished :: int
  q_tasks :: "(string, task) dict"
  q_running :: "(string, nat) dict"
  q_workers :: "worker list"
  q_shutdown :: bool
  q_metrics :: task_metrics
  q_default_timeout :: real
  q_default_max_retries :: int
  q_limiter :: "rate_limiter option"
  q_counters :: counters
  q_calls :: "(nat \<times> task_result) list"

definition AsyncTaskQueue :: "real \<Rightarrow> nat \<Rightarrow> nat \<Rightarrow> real option \<Rightarrow> real \<Rightarrow> int \<Rightarrow> counters \<Rightarrow> task_queue" where
  "AsyncTaskQueue now max_workers maxsize rate_limit default_timeout default_max_retries cs =
     \<lparr>q_max_workers = max_workers, q_maxsize = maxsize, q_heap = [], q_unfinished = 0, q_tasks = [],
      q_running = [], q_workers = [], q_shutdown = False, q_metrics = TaskMetrics,
      q_default_timeout = default_timeout, q_default_max_retries = default_max_retries,
      q_limiter = (case rate_limit of None \<Rightarrow> None
        | Some r \<Rightarrow> if r = 0 then None else Some (RateLimiter now r 20)),
      q_counters = cs, q_calls = []\<rparr>"

definition q_full :: "task_queue \<Rightarrow> bool" where
  "q_full q \<longleftrightarrow> 0 < q_maxsize q \<and> q_maxsize q \<le> length (q_heap q)"

text \<open>\<open>PriorityQueue\<close>: the heap as the sorted list of its entries.\<close>

definition heap_push :: "task_priority \<times> string \<Rightarrow> (task_priority \<times> string) list \<Rightarrow> (task_priority \<times> string) list" where
  "heap_push e h = insort_key fst e h"

definition put_heap :: "task_priority \<times> string \<Rightarrow> task_queue \<Rightarrow> task_queue" where
  "put_heap e q = q\<lparr>q_heap := heap_push e (q_heap q), q_unfinished := q_unfinished q + 1\<rparr>"

definition task_done :: "task_queue \<Rightarrow> task_queue" where
  "task_done q = q\<lparr>q_unfinished := q_unfinished q - 1\<rparr>"

definition count :: "string \<Rightarrow> labels \<Rightarrow> task_queue \<Rightarrow> task_queue" where
  "count name ls q = q\<lparr>q_counters := increment_counter name ls 1 (q_counters q)\<rparr>"

definition type_label :: "task \<Rightarrow> labels" where
  "type_label t = [(''task_type'', task_type_value (t_type t))]"

definition put_task_obj :: "task \<Rightarrow> task_queue \<Rightarrow> task_queue" where
  "put_task_obj t q = q\<lparr>q_tasks := dset (t_id t) t (q_tasks q)\<rparr>"

definition add_metrics :: "(task_metrics \<Rightarrow> task_metrics) \<Rightarrow> task_queue \<Rightarrow> task_queue" where
  "add_metrics f q = q\<lparr>q_metrics := f (q_metrics q)\<rparr>"

definition count_cancelled :: "task_queue \<Rightarrow> task_queue" where
  "count_cancelled q = count ''task_queue_task_cancelled'' []
     (add_metrics (\<lambda>m. m\<lparr>tm_cancelled := tm_cancelled m + 1\<rparr>) q)"

section \<open>Submission and cancellation\<close>

text \<open>\<open>submit\<close>: \<open>None\<close> is \<open>put\<close> waiting for a free slot of a bounded queue.\<close>

definition new_task ::
  "real \<Rightarrow> string \<Rightarrow> task_type \<Rightarrow> (string, json) dict \<Rightarrow> bool \<Rightarrow> int \<Rightarrow> real option \<Rightarrow> int option \<Rightarrow> task_queue \<Rightarrow> task" where
  "new_task now uid ty payload fn priority timeout retries q =
     \<lparr>t_id = uid, t_type = ty, t_payload = payload, t_callback = None, t_priority = TaskPriority priority now,
      t_status = PENDING, t_created = now, t_started = None, t_completed = None, t_retry = 0,
      t_max_retries = (case retries of None \<Rightarrow> q_default_max_retries q | Some r \<Rightarrow> r),
      t_timeout = Some (case timeout of None \<Rightarrow> q_default_timeout q
        | Some s \<Rightarrow> if s = 0 then q_default_timeout q else s),
      t_result = JNull, t_error = None, t_function = fn\<rparr>"

definition submit ::
  "real \<Rightarrow> string \<Rightarrow> task_type \<Rightarrow> (string, json) dict \<Rightarrow> bool \<Rightarrow> int \<Rightarrow> real option \<Rightarrow> int option \<Rightarrow> task_queue
    \<Rightarrow> (task_queue \<times> task) option" where
  "submit now uid ty payload fn priority timeout retries q =
     (if q_full q then None
      else let t = new_task now uid ty payload fn priority timeout retries q;
               q1 = put_task_obj t (put_heap (t_priority t, t_id t) q);
               q2 = add_metrics (\<lambda>m. m\<lparr>tm_submitted := tm_submitted m + 1\<rparr>) q1
           in Some (count ''task_queue_task_submitted'' [(''task_type'', task_type_value ty)] q2, t))"

definition submit_with_callback ::
  "real \<Rightarrow> string \<Rightarrow> task_type \<Rightarrow> (string, json) dict \<Rightarrow> nat \<Rightarrow> bool \<Rightarrow> int \<Rightarrow> real option \<Rightarrow> int option \<Rightarrow> task_queue
    \<Rightarrow> (task_queue \<times> task) option" where
  "submit_with_callback now uid ty payload cb fn priority timeout retries q =
     (case submit now uid ty payload fn priority timeout retries q of
        None \<Rightarrow> None
      | Some (q', t) \<Rightarrow> let t' = t\<lparr>t_callback := Some cb\<rparr> in Some (put_task_obj t' q', t'))"

text \<open>
  \<open>cancel\<close>: of a running task it only requests the cancellation of the future (delivered
  by \<open>finish\<close> with \<open>Cancelled\<close>), and counts.
\<close>

definition cancel :: "string \<Rightarrow> task_queue \<Rightarrow> task_queue \<times> bool" where
  "cancel tid q = (case dget (q_tasks q) tid of
      None \<Rightarrow> (q, False)
    | Some t \<Rightarrow>
        if t_status t = PENDING then (count_cancelled (put_task_obj (t\<lparr>t_status := CANCELLED\<rparr>) q), True)
        else if t_status t = RUNNING \<and> dmem tid (q_running q) then (count_cancelled q, True)
        else (q, False))"

definition lookup_task :: "string \<Rightarrow> task_queue \<Rightarrow> task option" where
  "lookup_task tid q = dget (q_tasks q) tid"

definition get_tasks_by_status :: "task_status \<Rightarrow> task_queue \<Rightarrow> task list" where
  "get_tasks_by_status st q = filter (\<lambda>t. t_status t = st) (dvalues (q_tasks q))"

definition get_metrics :: "task_queue \<Rightarrow> task_metrics" where
  "get_metrics q = q_metrics q"

definition queue_size :: "task_queue \<Rightarrow> nat" where
  "queue_size q = length (q_heap q)"

definition pending_count :: "task_queue \<Rightarrow> nat" where
  "pending_count q = length (get_tasks_by_status PENDING q)"

definition running_count :: "task_queue \<Rightarrow> nat" where
  "running_count q = length (q_running q)"

section \<open>Running a task\<close>

text \<open>
  How the future of a task ends. \<open>run_task_coroutine\<close>: the default handler, or the task
  function (an argument: how long it runs and how it ends) under its timeout.
\<close>

datatype outcome = Returned json | Raised exn | Cancelled

definition default_task_handler :: "task \<Rightarrow> json" where
  "default_task_handler t = JObj [(''status'', JStr ''handled''), (''task_id'', JStr (t_id t)),
     (''type'', JStr (task_type_value (t_type t)))]"

definition run_task_coroutine :: "task \<Rightarrow> real \<times> outcome \<Rightarrow> real \<times> outcome" where
  "run_task_coroutine t run =
     (let (d, r) = (if t_function t then run else (0, Returned (default_task_handler t))) in
      case t_timeout t of
        None \<Rightarrow> (d, r)
      | Some s \<Rightarrow> if s \<noteq> 0 \<and> s < d then (s, Raised (Exn ''TimeoutError'' [])) else (d, r))"

text \<open>The \<open>finally\<close> block of \<open>_execute_task\<close>.\<close>

definition finalize :: "string \<Rightarrow> real \<Rightarrow> task_queue \<Rightarrow> task_queue" where
  "finalize tid now q = (case dget (q_tasks q) tid of
      None \<Rightarrow> q
    | Some t0 \<Rightarrow>
       (let t = t0\<lparr>t_completed := Some now\<rparr>;
            q1 = q\<lparr>q_running := ddel tid (q_running q)\<rparr>;
            q2 = (case t_started t of
                None \<Rightarrow> q1
              | Some s \<Rightarrow> (add_metrics (\<lambda>m. m\<lparr>tm_exec := tm_exec m + (now - s)\<rparr>) q1)
                  \<lparr>q_counters := record_histogram ''task_queue_execution_time_seconds'' (now - s) (type_label t) (q_counters q1)\<rparr>);
            res = \<lparr>tr_task_id = tid, tr_success = (t_status t = COMPLETED), tr_result = t_result t,
              tr_error = t_error t, tr_duration = now - t_created t, tr_retries = t_retry t\<rparr>
        in put_task_obj (t\<lparr>t_callback := None\<rparr>)
             (case t_callback t of None \<Rightarrow> q2 | Some cb \<Rightarrow> q2\<lparr>q_calls := q_calls q2 @ [(cb, res)]\<rparr>)))"

definition set_worker :: "nat \<Rightarrow> worker \<Rightarrow> task_queue \<Rightarrow> task_queue" where
  "set_worker i pos q = q\<lparr>q_workers := (q_workers q)[i := pos]\<rparr>"

text \<open>\<open>_execute_task\<close> up to \<open>await task_future\<close>.\<close>

definition begin_task :: "nat \<Rightarrow> real \<Rightarrow> string \<Rightarrow> task \<Rightarrow> task_queue \<Rightarrow> task_queue" where
  "begin_task i now tid t q =
     (let q1 = put_task_obj (t\<lparr>t_status := RUNNING, t_started := Some now\<rparr>) q;
          q2 = add_metrics (\<lambda>m. m\<lparr>tm_wait := tm_wait m + (now - t_created t)\<rparr>) q1;
          q3 = q2\<lparr>q_running := dset tid i (q_running q2)\<rparr>
      in set_worker i (Executing tid) (count ''task_queue_task_started'' (type_label t) q3))"

text \<open>The rate limiter, at the start of the coroutine of a task.\<close>

definition acquire_slot :: "real \<Rightarrow> task_queue \<Rightarrow> task_queue \<times> attempt" where
  "acquire_slot now q = (case q_limiter q of
      None \<Rightarrow> (q, Granted)
    | Some rl \<Rightarrow> (case acquire_attempt now rl of (rl', a) \<Rightarrow> (q\<lparr>q_limiter := Some rl'\<rparr>, a)))"

text \<open>A worker takes the first entry of the heap; a cancelled task is skipped.\<close>

definition worker_pick :: "nat \<Rightarrow> real \<Rightarrow> task_queue \<Rightarrow> task_queue option" where
  "worker_pick i now q =
     (if q_shutdown q \<or> length (q_workers q) \<le> i \<or> q_workers q ! i \<noteq> Idle then None
      else case q_heap q of
        [] \<Rightarrow> None
      | (p, tid) # h \<Rightarrow>
         (let q1 = q\<lparr>q_heap := h\<rparr> in
          case dget (q_tasks q1) tid of
            None \<Rightarrow> None
          | Some t \<Rightarrow> if t_status t = CANCELLED then Some (task_done q1) else Some (begin_task i now tid t q1)))"

definition retry_delay :: "int \<Rightarrow> int" where
  "retry_delay retry_count = min (2 ^ nat (retry_count - 1)) 60"

definition error_message :: "exn \<Rightarrow> string" where
  "error_message e = (if exn_msg e = [] then exn_type e else exn_msg e)"

text \<open>
  The future of an executing task ends: success, cancellation (the worker loop ends too),
  failure with retries left (the worker sleeps), failure for good.
\<close>

definition finish :: "nat \<Rightarrow> real \<Rightarrow> outcome \<Rightarrow> task_queue \<Rightarrow> task_queue option" where
  "finish i now out q =
     (if q_shutdown q \<or> length (q_workers q) \<le> i then None
      else case q_workers q ! i of
        Executing tid \<Rightarrow>
         (case dget (q_tasks q) tid of
            None \<Rightarrow> None
          | Some t \<Rightarrow>
             (case out of
                Returned v \<Rightarrow> Some (set_worker i Idle (task_done (finalize tid now
                  (count ''task_queue_task_completed'' (type_label t)
                    (add_metrics (\<lambda>m. m\<lparr>tm_completed := tm_completed m + 1\<rparr>)
                      (put_task_obj (t\<lparr>t_result := v, t_status := COMPLETED\<rparr>) q))))))
              | Cancelled \<Rightarrow> Some (set_worker i Ended (finalize tid now
                  (count_cancelled (put_task_obj (t\<lparr>t_status := CANCELLED\<rparr>) q))))
              | Raised e \<Rightarrow>
                  (let t1 = t\<lparr>t_error := Some (error_message e)\<rparr> in
                   if t_retry t1 < t_max_retries t1
                   then Some (set_worker i (Backoff tid (now + of_int (retry_delay (t_retry t1 + 1))))
                     (add_metrics (\<lambda>m. m\<lparr>tm_retries := tm_retries m + 1\<rparr>)
                       (put_task_obj (t1\<lparr>t_retry := t_retry t1 + 1, t_status := PENDING\<rparr>) q)))
                   else Some (set_worker i Idle (task_done (finalize tid now
                     (count ''task_queue_task_failed'' (type_label t1)
                       (add_metrics (\<lambda>m. m\<lparr>tm_failed := tm_failed m + 1\<rparr>)
                         (put_task_obj (t1\<lparr>t_status := FAILED\<rparr>) q)))))))))
      | _ \<Rightarrow> None)"

text \<open>
  The end of the back-off: the task is put again (waiting while the queue is full), then
  the \<open>finally\<close> block runs and the worker goes on.
\<close>

definition wake :: "nat \<Rightarrow> real \<Rightarrow> task_queue \<Rightarrow> task_queue option" where
  "wake i now q =
     (if q_shutdown q \<or> length (q_workers q) \<le> i \<or> q_full q then None
      else case q_workers q ! i of
        Backoff tid until \<Rightarrow>
          if now < until then None
          else (case dget (q_tasks q) tid of
              None \<Rightarrow> None
            | Some t \<Rightarrow> Some (set_worker i Idle (task_done (finalize tid now (put_heap (t_priority t, tid) q)))))
      | _ \<Rightarrow> None)"

section \<open>The worker pool\<close>

definition start :: "task_queue \<Rightarrow> task_queue" where
  "start q = (if q_workers q \<noteq> [] then q
     else q\<lparr>q_shutdown := False, q_workers := replicate (q_max_workers q) Idle\<rparr>)"

definition mark_cancelled :: "string \<Rightarrow> task_queue \<Rightarrow> task_queue" where
  "mark_cancelled tid q = count_cancelled (case dget (q_tasks q) tid of
      None \<Rightarrow> q | Some t \<Rightarrow> put_task_obj (t\<lparr>t_status := CANCELLED\<rparr>) q)"

text \<open>
  \<open>stop\<close> up to the \<open>gather\<close>; then every worker gets its cancellation; then the pool is
  dropped.
\<close>

definition stop_begin :: "task_queue \<Rightarrow> task_queue" where
  "stop_begin q = (if q_workers q = [] then q
     else fold mark_cancelled (dkeys (q_running q)) (q\<lparr>q_shutdown := True\<rparr>))"

definition cancel_worker :: "nat \<Rightarrow> real \<Rightarrow> task_queue \<Rightarrow> task_queue" where
  "cancel_worker i now q = (case q_workers q ! i of
      Idle \<Rightarrow> set_worker i Ended q
    | Executing tid \<Rightarrow> (case dget (q_tasks q) tid of
          None \<Rightarrow> q
        | Some t \<Rightarrow> set_worker i Ended (finalize tid now (count_cancelled (put_task_obj (t\<lparr>t_status := CANCELLED\<rparr>) q))))
    | Backoff tid until \<Rightarrow> set_worker i Ended (finalize tid now q)
    | Ended \<Rightarrow> q)"

definition stop_end :: "task_queue \<Rightarrow> task_queue" where
  "stop_end q = q\<lparr>q_workers := []\<rparr>"

definition stop :: "real \<Rightarrow> task_queue \<Rightarrow> task_queue" where
  "stop now q = (if q_workers q = [] then q
     else stop_end (fold (\<lambda>i. cancel_worker i now) [0..<length (q_workers q)] (stop_begin q)))"

end
