(* ===== verification/Queue_Pool.thy ===== *)
theory Queue_Pool
  imports Task_Queue
begin

text \<open>
  The abstract worker pool the task queue implements: for every task its status, which
  tasks are queued, where the workers are. Its step relation is the contract of the queue;
  its invariant says that no task is lost or held twice. The second half is the
  refinement: every operation of \<open>Task_Queue\<close> is a step of the pool.
\<close>

section \<open>The abstract pool\<close>

record pool =
  p_status :: "string \<Rightarrow> task_status option"
  p_queued :: "string set"
  p_running :: "string set"
  p_pos :: "nat \<Rightarrow> worker"
  p_shut :: bool

definition move :: "nat \<Rightarrow> worker \<Rightarrow> pool \<Rightarrow> pool" where
  "move i pos s = s\<lparr>p_pos := (p_pos s)(i := pos)\<rparr>"

definition become :: "string \<Rightarrow> task_status \<Rightarrow> pool \<Rightarrow> pool" where
  "become k st s = s\<lparr>p_status := (p_status s)(k \<mapsto> st)\<rparr>"

definition acquire_id :: "string \<Rightarrow> pool \<Rightarrow> pool" where
  "acquire_id k s = s\<lparr>p_running := insert k (p_running s)\<rparr>"

definition release :: "string \<Rightarrow> pool \<Rightarrow> pool" where
  "release k s = s\<lparr>p_running := p_running s - {k}\<rparr>"

definition enqueue :: "string \<Rightarrow> pool \<Rightarrow> pool" where
  "enqueue k s = s\<lparr>p_queued := insert k (p_queued s)\<rparr>"

definition dequeue :: "string \<Rightarrow> pool \<Rightarrow> pool" where
  "dequeue k s = s\<lparr>p_queued := p_queued s - {k}\<rparr>"

definition open_pool :: "nat \<Rightarrow> pool \<Rightarrow> pool" where
  "open_pool n s = s\<lparr>p_shut := False, p_pos := \<lambda>i. if i < n then Idle else Ended\<rparr>"

definition shut_pool :: "pool \<Rightarrow> pool" where
  "shut_pool s = s\<lparr>p_shut := True, p_status := \<lambda>k. if k \<in> p_running s then Some CANCELLED else p_status s k\<rparr>"

lemmas pool_prims = move_def become_def release_def acquire_id_def enqueue_def dequeue_def open_pool_def shut_pool_def

inductive pool_step :: "pool \<Rightarrow> pool \<Rightarrow> bool" where
  p_stay: "pool_step s s"
| p_submit: "p_status s k = None \<Longrightarrow> pool_step s (enqueue k (become k PENDING s))"
| p_cancel: "p_status s k = Some PENDING \<Longrightarrow> pool_step s (become k CANCELLED s)"
| p_skip: "p_status s k = Some CANCELLED \<Longrightarrow> k \<in> p_queued s \<Longrightarrow> pool_step s (dequeue k s)"
| p_pick: "\<not> p_shut s \<Longrightarrow> p_pos s i = Idle \<Longrightarrow> k \<in> p_queued s \<Longrightarrow> p_status s k = Some PENDING \<Longrightarrow>
    pool_step s (move i (Executing k) (become k RUNNING (dequeue k (acquire_id k s))))"
| p_end: "\<not> p_shut s \<Longrightarrow> p_pos s i = Executing k \<Longrightarrow> st \<in> {COMPLETED, FAILED} \<Longrightarrow>
    pool_step s (move i Idle (release k (become k st s)))"
| p_kill: "p_pos s i = Executing k \<Longrightarrow> pool_step s (move i Ended (release k (become k CANCELLED s)))"
| p_retry: "\<not> p_shut s \<Longrightarrow> p_pos s i = Executing k \<Longrightarrow> pool_step s (move i (Backoff k u) (become k PENDING s))"
| p_wake: "\<not> p_shut s \<Longrightarrow> p_pos s i = Backoff k u \<Longrightarrow> pool_step s (move i Idle (release k (enqueue k s)))"
| p_drop: "p_shut s \<Longrightarrow> p_pos s i = Backoff k u \<Longrightarrow> pool_step s (move i Ended (release k s))"
| p_leave: "p_shut s \<Longrightarrow> p_pos s i = Idle \<Longrightarrow> pool_step s (move i Ended s)"
| p_start: "p_pos s = (\<lambda>i. Ended) \<Longrightarrow> pool_step s (open_pool n s)"
| p_stop: "pool_step s (shut_pool s)"

definition pool_init :: "pool \<Rightarrow> bool" where
  "pool_init s \<longleftrightarrow> p_status s = (\<lambda>k. None) \<and> p_queued s = {} \<and> p_running s = {} \<and> p_pos s = (\<lambda>i. Ended)"

definition held_by :: "worker \<Rightarrow> string option" where
  "held_by w = (case w of Executing k \<Rightarrow> Some k | Backoff k u \<Rightarrow> Some k | _ \<Rightarrow> None)"

lemma held_by_simps [simp]:
  "held_by Idle = None" "held_by Ended = None" "held_by (Executing k) = Some k" "held_by (Backoff k u) = Some k"
  by (simp_all add: held_by_def)

text \<open>
  The invariant: queued tasks are pending or cancelled; a held task is held once, is not
  queued and is one whose future is registered; a pending task is queued or sleeps before
  a retry; a running task is executing.
\<close>

definition status_at :: "pool \<Rightarrow> worker \<Rightarrow> string \<Rightarrow> bool" where
  "status_at s w k \<longleftrightarrow> (if p_shut s then p_status s k = Some CANCELLED
     else case w of Executing _ \<Rightarrow> p_status s k = Some RUNNING
        | _ \<Rightarrow> p_status s k = Some PENDING \<or> p_status s k = Some CANCELLED)"

definition queued_ok :: "pool \<Rightarrow> bool" where
  "queued_ok s \<longleftrightarrow> (\<forall>k \<in> p_queued s. p_status s k = Some PENDING \<or> p_status s k = Some CANCELLED)"

definition held_ok :: "pool \<Rightarrow> bool" where
  "held_ok s \<longleftrightarrow> (\<forall>i k. held_by (p_pos s i) = Some k \<longrightarrow>
     k \<notin> p_queued s \<and> k \<in> p_running s \<and> status_at s (p_pos s i) k)"

definition once_ok :: "pool \<Rightarrow> bool" where
  "once_ok s \<longleftrightarrow> (\<forall>i j k. held_by (p_pos s i) = Some k \<longrightarrow> held_by (p_pos s j) = Some k \<longrightarrow> i = j)"

definition running_ok :: "pool \<Rightarrow> bool" where
  "running_ok s \<longleftrightarrow> (\<forall>k \<in> p_running s. \<exists>i. held_by (p_pos s i) = Some k)"

definition live_ok :: "pool \<Rightarrow> bool" where
  "live_ok s \<longleftrightarrow> (\<forall>k. (p_status s k = Some PENDING \<longrightarrow> k \<in> p_queued s \<or> k \<in> p_running s) \<and>
     (p_status s k = Some RUNNING \<longrightarrow> k \<in> p_running s))"

definition pool_inv :: "pool \<Rightarrow> bool" where
  "pool_inv s \<longleftrightarrow> queued_ok s \<and> held_ok s \<and> once_ok s \<and> running_ok s \<and> live_ok s"

lemma pool_inv_init: "pool_init s \<Longrightarrow> pool_inv s"
  by (simp add: pool_init_def pool_inv_def queued_ok_def held_ok_def once_ok_def running_ok_def live_ok_def)

lemma held_okD:
  assumes "held_ok s" "p_pos s i = w" "held_by w = Some k"
  shows "k \<notin> p_queued s" "k \<in> p_running s" "status_at s w k"
  using assms by (auto simp: held_ok_def)

lemma once_okD: "once_ok s \<Longrightarrow> held_by (p_pos s i) = Some k \<Longrightarrow> held_by (p_pos s j) = Some k \<Longrightarrow> i = j"
  by (auto simp: once_ok_def)

lemma once_ok_move:
  assumes "once_ok s"
    "\<And>k j. held_by pos = Some k \<Longrightarrow> held_by (p_pos s j) = Some k \<Longrightarrow> j = i"
  shows "once_ok (move i pos s)"
  using assms by (auto simp: once_ok_def move_def)

lemma once_ok_pos: "p_pos t = p_pos s \<Longrightarrow> once_ok t \<longleftrightarrow> once_ok s"
  by (simp add: once_ok_def)

lemma pos_prims [simp]:
  "p_pos (become k st s) = p_pos s" "p_pos (release k s) = p_pos s" "p_pos (acquire_id k s) = p_pos s"
  "p_pos (enqueue k s) = p_pos s" "p_pos (dequeue k s) = p_pos s" "p_pos (shut_pool s) = p_pos s"
  by (simp_all add: pool_prims)

lemma once_ok_prims [simp]:
  "once_ok (become k st s) = once_ok s" "once_ok (release k s) = once_ok s" "once_ok (acquire_id k s) = once_ok s"
  "once_ok (enqueue k s) = once_ok s" "once_ok (dequeue k s) = once_ok s" "once_ok (shut_pool s) = once_ok s"
  by (simp_all add: once_ok_def)

lemma once_ok_step:
  assumes "pool_step s t" "queued_ok s" "held_ok s" "once_ok s"
  shows "once_ok t"
  using assms
proof (cases rule: pool_step.cases)
  case (p_pick i k)
  have "held_by (p_pos s j) \<noteq> Some k" for j
    using held_okD(1) [OF assms(3), of j _ k] p_pick(4) by blast
  with assms(4) show ?thesis unfolding p_pick(1) by (intro once_ok_move) auto
next
  case (p_retry i k u)
  have "held_by (p_pos s j) = Some k \<Longrightarrow> j = i" for j
    using once_okD [OF assms(4), of j k i] p_retry(3) by simp
  with assms(4) show ?thesis unfolding p_retry(1) by (intro once_ok_move) auto
next
  case (p_start n)
  then show ?thesis by (auto simp: once_ok_def open_pool_def)
qed (auto intro!: once_ok_move)

lemma queued_ok_step:
  assumes "pool_step s t" "queued_ok s" "held_ok s"
  shows "queued_ok t"
  using assms
proof (cases rule: pool_step.cases)
  case (p_wake i k u)
  with held_okD(3) [OF assms(3) p_wake(3), of k] assms(2) show ?thesis
    by (auto simp: queued_ok_def pool_prims status_at_def)
next
  case (p_end i k st)
  with held_okD(1) [OF assms(3) p_end(3), of k] assms(2) show ?thesis by (auto simp: queued_ok_def pool_prims)
next
  case (p_kill i k)
  with held_okD(1) [OF assms(3) p_kill(2), of k] assms(2) show ?thesis by (auto simp: queued_ok_def pool_prims)
next
  case (p_retry i k u)
  with held_okD(1) [OF assms(3) p_retry(3), of k] assms(2) show ?thesis by (auto simp: queued_ok_def pool_prims)
qed (auto simp: queued_ok_def pool_prims)

lemma status_at_upd [simp]:
  "k' \<noteq> k \<Longrightarrow> status_at (become k st s) w k' = status_at s w k'"
  "status_at (release j s) w k' = status_at s w k'" "status_at (acquire_id j s) w k' = status_at s w k'"
  "status_at (enqueue j s) w k' = status_at s w k'" "status_at (dequeue j s) w k' = status_at s w k'"
  "status_at (move i p s) w k' = status_at s w k'"
  by (auto simp: status_at_def pool_prims split: worker.splits)

lemma set_prims [simp]:
  "p_queued (become k st s) = p_queued s" "p_queued (release k s) = p_queued s" "p_queued (acquire_id k s) = p_queued s"
  "p_queued (move i w s) = p_queued s" "p_queued (enqueue k s) = insert k (p_queued s)"
  "p_queued (dequeue k s) = p_queued s - {k}" "p_queued (shut_pool s) = p_queued s" "p_queued (open_pool n s) = p_queued s"
  "p_running (become k st s) = p_running s" "p_running (release k s) = p_running s - {k}"
  "p_running (acquire_id k s) = insert k (p_running s)" "p_running (move i w s) = p_running s"
  "p_running (enqueue k s) = p_running s" "p_running (dequeue k s) = p_running s"
  "p_running (shut_pool s) = p_running s" "p_running (open_pool n s) = p_running s"
  "p_pos (move i w s) = (p_pos s)(i := w)"
  by (simp_all add: pool_prims)

text \<open>Two ways a step keeps \<open>held_ok\<close>: the moved worker keeps a task, or lets it go.\<close>

lemma held_ok_free:
  assumes "held_ok s" "once_ok s" "held_by (p_pos s i) = Some k" "held_by w = None"
    "\<And>j v. j \<noteq> k \<Longrightarrow> status_at s v j \<Longrightarrow> status_at t v j"
    "p_pos t = (p_pos s)(i := w)" "p_running s - {k} \<subseteq> p_running t" "p_queued t \<subseteq> insert k (p_queued s)"
  shows "held_ok t"
  unfolding held_ok_def
proof (intro allI impI)
  fix j k' assume j: "held_by (p_pos t j) = Some k'"
  with assms(4,6) have "j \<noteq> i" by auto
  with j assms(6) have h: "held_by (p_pos s j) = Some k'" "p_pos t j = p_pos s j" by auto
  then have "k' \<noteq> k" using once_okD [OF assms(2) h(1), of i] assms(3) \<open>j \<noteq> i\<close> by auto
  with held_okD [OF assms(1) refl h(1)] assms(5,7,8) h(2)
  show "k' \<notin> p_queued t \<and> k' \<in> p_running t \<and> status_at t (p_pos t j) k'" by auto
qed

lemma held_ok_keep:
  assumes "held_ok s" "\<And>j. j \<noteq> i \<Longrightarrow> held_by (p_pos s j) \<noteq> Some k" "held_by w = Some k"
    "\<And>j v. j \<noteq> k \<Longrightarrow> status_at s v j \<Longrightarrow> status_at t v j" "status_at t w k"
    "p_pos t = (p_pos s)(i := w)" "p_running t = insert k (p_running s)" "p_queued t = p_queued s - {k}"
  shows "held_ok t"
  unfolding held_ok_def
proof (intro allI impI)
  fix j k' assume j: "held_by (p_pos t j) = Some k'"
  show "k' \<notin> p_queued t \<and> k' \<in> p_running t \<and> status_at t (p_pos t j) k'"
  proof (cases "j = i")
    case True
    with j assms show ?thesis by auto
  next
    case False
    with j assms(6) have h: "held_by (p_pos s j) = Some k'" "p_pos t j = p_pos s j" by auto
    with assms(2) [OF False] have "k' \<noteq> k" by auto
    with held_okD [OF assms(1) refl h(1)] assms(4,7,8) h(2) show ?thesis by auto
  qed
qed

lemma not_held_queued:
  "held_ok s \<Longrightarrow> k \<in> p_queued s \<Longrightarrow> held_by (p_pos s j) \<noteq> Some k"
  using held_okD(1) by blast

lemma held_ok_step:
  assumes "pool_step s t" "queued_ok s" "held_ok s" "once_ok s"
    and live: "\<And>k. k \<in> p_running s \<Longrightarrow> p_status s k \<noteq> None"
  shows "held_ok t"
  using assms(1)
proof (cases rule: pool_step.cases)
  case p_stay
  with assms(3) show ?thesis by simp
next
  case (p_submit k)
  have "j \<noteq> k" if "held_by (p_pos s i) = Some j" for i j
    using held_okD(2) [OF assms(3) refl that] live [of j] p_submit(2) by auto
  with p_submit(1) assms(3) show ?thesis by (auto simp: held_ok_def)
next
  case (p_cancel k)
  have "status_at t (p_pos s i) k" if "held_by (p_pos s i) = Some k" for i
    using held_okD(3) [OF assms(3) refl that] p_cancel
    by (auto simp: status_at_def pool_prims split: worker.splits if_splits)
  then have "status_at t (p_pos s i) j" if "held_by (p_pos s i) = Some j" for i j
    using that held_okD(3) [OF assms(3) refl that] p_cancel(1) by (cases "j = k") auto
  with p_cancel(1) assms(3) show ?thesis by (auto simp: held_ok_def)
next
  case (p_skip k)
  with assms(3) show ?thesis by (auto simp: held_ok_def)
next
  case (p_pick i k)
  show ?thesis
    using p_pick not_held_queued [OF assms(3) p_pick(4)]
    by (intro held_ok_keep [OF assms(3), of i k "Executing k"]) (auto simp: status_at_def pool_prims split: if_splits worker.splits)
next
  case (p_end i k st)
  then show ?thesis
    by (intro held_ok_free [OF assms(3,4), of i k Idle]) (auto simp: pool_prims status_at_def split: if_splits worker.splits)
next
  case (p_kill i k)
  then show ?thesis
    by (intro held_ok_free [OF assms(3,4), of i k Ended]) (auto simp: pool_prims status_at_def split: if_splits worker.splits)
next
  case (p_retry i k u)
  have "held_by (p_pos s j) \<noteq> Some k" if "j \<noteq> i" for j
    using once_okD [OF assms(4), of j k i] p_retry(3) that by auto
  moreover have "k \<notin> p_queued s" "k \<in> p_running s" using held_okD [OF assms(3) p_retry(3)] by auto
  ultimately show ?thesis using p_retry
    by (intro held_ok_keep [OF assms(3), of i k "Backoff k u"]) (auto simp: status_at_def pool_prims split: if_splits worker.splits)
next
  case (p_wake i k u)
  then show ?thesis
    by (intro held_ok_free [OF assms(3,4), of i k Idle]) auto
next
  case (p_drop i k u)
  then show ?thesis
    by (intro held_ok_free [OF assms(3,4), of i k Ended]) auto
next
  case (p_leave i)
  with assms(3) show ?thesis by (auto simp: held_ok_def)
next
  case (p_start n)
  then show ?thesis by (auto simp: held_ok_def open_pool_def)
next
  case p_stop
  have "status_at t (p_pos s i) j" if "held_by (p_pos s i) = Some j" for i j
    using held_okD(2) [OF assms(3) refl that] p_stop by (simp add: status_at_def shut_pool_def)
  with p_stop assms(3) show ?thesis by (auto simp: held_ok_def)
qed

lemma running_ok_free:
  assumes "running_ok s" "held_by (p_pos s i) = Some k" "p_pos t = (p_pos s)(i := w)" "p_running t = p_running s - {k}"
  shows "running_ok t"
  unfolding running_ok_def
proof
  fix j assume "j \<in> p_running t"
  with assms(1,4) obtain i' where i': "held_by (p_pos s i') = Some j" "j \<noteq> k" by (auto simp: running_ok_def)
  with assms(2,3) have "p_pos t i' = p_pos s i'" by auto
  with i' show "\<exists>i. held_by (p_pos t i) = Some j" by metis
qed

lemma running_ok_keep:
  assumes "running_ok s" "p_pos t = (p_pos s)(i := w)" "held_by w = Some k"
    "held_by (p_pos s i) = None \<or> held_by (p_pos s i) = Some k" "p_running t = insert k (p_running s)"
  shows "running_ok t"
  unfolding running_ok_def
proof
  fix j assume "j \<in> p_running t"
  show "\<exists>i. held_by (p_pos t i) = Some j"
  proof (cases "j = k")
    case True
    with assms(2,3) show ?thesis by (auto intro: exI [of _ i])
  next
    case False
    with \<open>j \<in> p_running t\<close> assms(1,5) obtain i' where i': "held_by (p_pos s i') = Some j" by (auto simp: running_ok_def)
    with False assms(2,4) have "p_pos t i' = p_pos s i'" by auto
    with i' show ?thesis by metis
  qed
qed

lemma running_ok_same: "running_ok s \<Longrightarrow> p_pos t = p_pos s \<Longrightarrow> p_running t = p_running s \<Longrightarrow> running_ok t"
  by (simp add: running_ok_def)

lemma running_ok_step:
  assumes "pool_step s t" "running_ok s" "held_ok s"
  shows "running_ok t"
  using assms(1)
proof (cases rule: pool_step.cases)
  case (p_pick i k)
  then show ?thesis by (intro running_ok_keep [OF assms(2), of t i "Executing k" k]) auto
next
  case (p_retry i k u)
  with held_okD(2) [OF assms(3) p_retry(3), of k] show ?thesis
    by (intro running_ok_keep [OF assms(2), of t i "Backoff k u" k]) auto
next
  case (p_end i k st)
  then show ?thesis by (intro running_ok_free [OF assms(2), of i k t Idle]) auto
next
  case (p_kill i k)
  then show ?thesis by (intro running_ok_free [OF assms(2), of i k t Ended]) auto
next
  case (p_wake i k u)
  then show ?thesis by (intro running_ok_free [OF assms(2), of i k t Idle]) auto
next
  case (p_drop i k u)
  then show ?thesis by (intro running_ok_free [OF assms(2), of i k t Ended]) auto
next
  case (p_leave i)
  have "i' \<noteq> i" if "held_by (p_pos s i') = Some k" for i' k
    using that p_leave(3) by auto
  with assms(2) p_leave(1) show ?thesis by (auto simp: running_ok_def) metis
next
  case (p_start n)
  with assms(2) show ?thesis by (auto simp: running_ok_def)
qed (auto intro: running_ok_same [OF assms(2)])

lemma live_ok_step:
  assumes "pool_step s t" "live_ok s" "held_ok s"
  shows "live_ok t"
  using assms(1)
proof (cases rule: pool_step.cases)
  case (p_end i k st)
  with assms(2) show ?thesis by (auto simp: live_ok_def pool_prims)
next
  case (p_retry i k u)
  with assms(2) held_okD(2) [OF assms(3) p_retry(3)] show ?thesis by (auto simp: live_ok_def pool_prims)
next
  case (p_wake i k u)
  have "p_status s k \<noteq> Some RUNNING"
    using held_okD(3) [OF assms(3) p_wake(3)] p_wake(2) by (auto simp: status_at_def)
  with p_wake assms(2) show ?thesis by (auto simp: live_ok_def pool_prims)
next
  case (p_drop i k u)
  have "p_status s k = Some CANCELLED"
    using held_okD(3) [OF assms(3) p_drop(3)] p_drop(2) by (auto simp: status_at_def)
  with p_drop assms(2) show ?thesis by (auto simp: live_ok_def pool_prims)
qed (use assms(2) in \<open>auto simp: live_ok_def pool_prims\<close>)

lemma running_status:
  assumes "held_ok s" "running_ok s" "k \<in> p_running s"
  shows "p_status s k \<in> {Some PENDING, Some RUNNING, Some CANCELLED}"
proof -
  obtain i where "held_by (p_pos s i) = Some k" using assms(2,3) by (auto simp: running_ok_def)
  from held_okD(3) [OF assms(1) refl this] show ?thesis
    by (auto simp: status_at_def split: if_splits worker.splits)
qed

lemma pool_inv_step: "pool_inv s \<Longrightarrow> pool_step s t \<Longrightarrow> pool_inv t"
  unfolding pool_inv_def
  using queued_ok_step [of s t] held_ok_step [of s t] once_ok_step [of s t] running_ok_step [of s t]
    live_ok_step [of s t] running_status [of s]
  by fastforce

interpretation pool: transition_system pool_init pool_step pool_inv
  by unfold_locales (auto intro: pool_inv_init pool_inv_step)

lemma pool_terminal:
  assumes "pool_step s t" "pool_inv s" "p_status s k = Some st" "st \<in> {COMPLETED, FAILED, CANCELLED}"
  shows "p_status t k = Some st"
proof -
  have h: "held_ok s" "running_ok s" "queued_ok s" using assms(2) by (auto simp: pool_inv_def)
  have a: "k' \<noteq> k" if "\<not> p_shut s" "p_pos s i = Executing k'" for i k'
    using held_okD(3) [OF h(1) that(2)] that(1) assms(3,4) by (auto simp: status_at_def)
  have b: "k' \<noteq> k \<or> st = CANCELLED" if "p_pos s i = Executing k'" for i k'
    using held_okD(3) [OF h(1) that] assms(3,4) by (auto simp: status_at_def split: if_splits)
  have c: "k \<notin> p_running s \<or> st = CANCELLED" using running_status [OF h(1,2), of k] assms(3,4) by auto
  from assms(1) show ?thesis
  proof (cases rule: pool_step.cases)
    case (p_end i k' st')
    with a [of i k'] assms(3) show ?thesis by (simp add: pool_prims)
  next
    case (p_retry i k' u)
    with a [of i k'] assms(3) show ?thesis by (simp add: pool_prims)
  next
    case (p_kill i k')
    with b [of i k'] assms(3) show ?thesis by (auto simp: pool_prims)
  next
    case p_stop
    with c assms(3) show ?thesis by (auto simp: pool_prims)
  qed (use assms(3,4) in \<open>auto simp: pool_prims\<close>)
qed

end
