(* ===== verification/Queue_Refinement.thy ===== *)
theory Queue_Refinement
  imports Queue_Pool
begin

text \<open>
  Runs of the task queue as sequences of its operations, the refinement of the abstract
  pool, and the properties of the queue: no task lost, metrics that agree with the table,
  bounded retries, final states, the order of execution, and two ways the pool stalls.
\<close>

section \<open>Runs of the queue\<close>

inductive queue_step :: "task_queue \<Rightarrow> task_queue \<Rightarrow> bool" where
  q_submit: "submit now uid ty payload fn prio timeout retries q = Some (q', t) \<Longrightarrow> \<not> dmem uid (q_tasks q) \<Longrightarrow> queue_step q q'"
| q_submit_cb: "submit_with_callback now uid ty payload cb fn prio timeout retries q = Some (q', t) \<Longrightarrow>
    \<not> dmem uid (q_tasks q) \<Longrightarrow> queue_step q q'"
| q_cancel: "queue_step q (fst (cancel tid q))"
| q_acquire: "queue_step q (fst (acquire_slot now q))"
| q_pick: "worker_pick i now q = Some q' \<Longrightarrow> queue_step q q'"
| q_finish: "finish i now out q = Some q' \<Longrightarrow> queue_step q q'"
| q_wake: "wake i now q = Some q' \<Longrightarrow> queue_step q q'"
| q_start: "queue_step q (start q)"
| q_stop_begin: "queue_step q (stop_begin q)"
| q_cancel_worker: "q_shutdown q \<Longrightarrow> i < length (q_workers q) \<Longrightarrow> queue_step q (cancel_worker i now q)"
| q_stop_end: "list_all (\<lambda>w. w = Ended) (q_workers q) \<Longrightarrow> queue_step q (stop_end q)"

definition queue_init :: "task_queue \<Rightarrow> bool" where
  "queue_init q \<longleftrightarrow> (\<exists>now n m lim dt dr cs. q = AsyncTaskQueue now n m lim dt dr cs)"

section \<open>The abstraction\<close>

definition pos_of :: "worker list \<Rightarrow> nat \<Rightarrow> worker" where
  "pos_of ws i = (if i < length ws then ws ! i else Ended)"

lemma pos_of_nth: "i < length ws \<Longrightarrow> pos_of ws i = ws ! i"
  by (simp add: pos_of_def)

lemma pos_of_update: "i < length ws \<Longrightarrow> pos_of (ws[i := p]) = (pos_of ws)(i := p)"
  by (auto simp: pos_of_def nth_list_update)

definition abs_queue :: "task_queue \<Rightarrow> pool" where
  "abs_queue q = \<lparr>p_status = \<lambda>k. map_option t_status (dget (q_tasks q) k), p_queued = set (map snd (q_heap q)),
     p_running = set (dkeys (q_running q)),
     p_pos = pos_of (q_workers q), p_shut = q_shutdown q\<rparr>"

definition queue_wf :: "task_queue \<Rightarrow> bool" where
  "queue_wf q \<longleftrightarrow> dwf (q_tasks q) \<and> (\<forall>k t. dget (q_tasks q) k = Some t \<longrightarrow> t_id t = k) \<and> distinct (map snd (q_heap q))"

lemma queue_wf_id: "queue_wf q \<Longrightarrow> dget (q_tasks q) k = Some t \<Longrightarrow> t_id t = k"
  by (simp add: queue_wf_def)

lemma abs_simps [simp]:
  "p_status (abs_queue q) k = map_option t_status (dget (q_tasks q) k)"
  "p_queued (abs_queue q) = snd ` set (q_heap q)"
  "p_running (abs_queue q) = set (dkeys (q_running q))"
  "p_shut (abs_queue q) = q_shutdown q"
  "p_pos (abs_queue q) = pos_of (q_workers q)"
  by (simp_all add: abs_queue_def)

lemma abs_put_task [simp]: "abs_queue (put_task_obj t q) = become (t_id t) (t_status t) (abs_queue q)"
  by (auto simp: abs_queue_def put_task_obj_def become_def)

lemma become_same [simp]: "p_status s k = Some st \<Longrightarrow> become k st s = s"
  by (simp add: become_def fun_upd_idem)

lemma abs_count [simp]: "abs_queue (count n ls q) = abs_queue q"
  by (simp add: abs_queue_def count_def)

lemma abs_add_metrics [simp]: "abs_queue (add_metrics f q) = abs_queue q"
  by (simp add: abs_queue_def add_metrics_def)

lemma abs_count_cancelled [simp]: "abs_queue (count_cancelled q) = abs_queue q"
  by (simp add: count_cancelled_def)

lemma abs_task_done [simp]: "abs_queue (task_done q) = abs_queue q"
  by (simp add: abs_queue_def task_done_def)

lemma set_heap_push [simp]: "set (heap_push e h) = insert e (set h)"
  by (simp add: heap_push_def set_insort_key)

lemma abs_put_heap [simp]: "abs_queue (put_heap (p, k) q) = enqueue k (abs_queue q)"
  by (auto simp: abs_queue_def put_heap_def enqueue_def)

lemma abs_set_worker [simp]: "i < length (q_workers q) \<Longrightarrow> abs_queue (set_worker i pos q) = move i pos (abs_queue q)"
  by (simp add: abs_queue_def set_worker_def move_def pos_of_update)

lemma tasks_simps [simp]:
  "q_tasks (count n ls q) = q_tasks q" "q_tasks (add_metrics f q) = q_tasks q" "q_tasks (count_cancelled q) = q_tasks q"
  "q_tasks (task_done q) = q_tasks q" "q_tasks (put_heap e q) = q_tasks q" "q_tasks (set_worker i pos q) = q_tasks q"
  "q_tasks (put_task_obj t q) = dset (t_id t) t (q_tasks q)"
  by (simp_all add: count_def add_metrics_def count_cancelled_def task_done_def put_heap_def set_worker_def put_task_obj_def)

lemma workers_simps [simp]:
  "q_workers (count n ls q) = q_workers q" "q_workers (add_metrics f q) = q_workers q"
  "q_workers (count_cancelled q) = q_workers q" "q_workers (task_done q) = q_workers q" "q_workers (put_heap e q) = q_workers q"
  "q_workers (put_task_obj t q) = q_workers q" "q_workers (finalize k now q) = q_workers q"
  by (simp_all add: count_def add_metrics_def count_cancelled_def task_done_def put_heap_def put_task_obj_def
      finalize_def Let_def split: option.splits)

lemma heap_simps [simp]:
  "q_heap (count n ls q) = q_heap q" "q_heap (add_metrics f q) = q_heap q"
  "q_heap (count_cancelled q) = q_heap q" "q_heap (task_done q) = q_heap q" "q_heap (set_worker i pos q) = q_heap q"
  "q_heap (put_task_obj t q) = q_heap q" "q_heap (finalize k now q) = q_heap q" "q_heap (put_heap e q) = heap_push e (q_heap q)"
  by (simp_all add: count_def add_metrics_def count_cancelled_def task_done_def put_heap_def put_task_obj_def set_worker_def
      finalize_def Let_def split: option.splits)

lemma abs_finalize:
  assumes "dget (q_tasks q) k = Some t" "t_id t = k"
  shows "abs_queue (finalize k now q) = release k (abs_queue q)"
proof -
  have "(\<lambda>j. map_option t_status (dget (dset k t' (q_tasks q)) j)) = (\<lambda>j. map_option t_status (dget (q_tasks q) j))"
    if "t_status t' = t_status t" for t'
    using that assms(1) by auto
  moreover have "set (dkeys (ddel k (q_running q))) = set (dkeys (q_running q)) - {k}"
    by (auto simp: dkeys_def dom_map_of_conv_image_fst [symmetric] delete_conv' split: if_splits)
  ultimately show ?thesis using assms
    by (auto simp: finalize_def Let_def release_def abs_queue_def put_task_obj_def add_metrics_def split: option.splits)
qed

lemma abs_stop_begin:
  assumes "queue_wf q" "q_workers q \<noteq> []" "\<And>k. k \<in> set (dkeys (q_running q)) \<Longrightarrow> dmem k (q_tasks q)"
  shows "abs_queue (stop_begin q) = shut_pool (abs_queue q)"
proof -
  have "abs_queue (fold mark_cancelled ks q) = abs_queue q\<lparr>p_status := \<lambda>k. if k \<in> set ks then Some CANCELLED else p_status (abs_queue q) k\<rparr>"
    if "\<And>k t. dget (q_tasks q) k = Some t \<Longrightarrow> t_id t = k" "\<And>k. k \<in> set ks \<Longrightarrow> dmem k (q_tasks q)" for ks q
    using that
  proof (induction ks arbitrary: q)
    case (Cons k ks)
    have "dmem k (q_tasks q)" using Cons.prems(2) by simp
    then obtain t where t: "dget (q_tasks q) k = Some t" by (auto simp: dmem_Some)
    note t = t Cons.prems(1) [OF t]
    have q1: "mark_cancelled k q = count_cancelled (put_task_obj (t\<lparr>t_status := CANCELLED\<rparr>) q)"
      using t by (simp add: mark_cancelled_def)
    have "abs_queue (fold mark_cancelled ks (mark_cancelled k q)) =
      abs_queue (mark_cancelled k q)\<lparr>p_status := \<lambda>j. if j \<in> set ks then Some CANCELLED else p_status (abs_queue (mark_cancelled k q)) j\<rparr>"
      by (rule Cons.IH) (use Cons.prems t in \<open>auto simp: q1 split: if_splits\<close>)
    then show ?case using t by (auto simp: q1 become_def fun_eq_iff)
  qed (simp add: abs_queue_def)
  from this [of "q\<lparr>q_shutdown := True\<rparr>" "dkeys (q_running q)"] assms show ?thesis
    by (auto simp: stop_begin_def shut_pool_def queue_wf_def abs_queue_def)
qed

lemma queue_wf_prims [simp]:
  "queue_wf (count n ls q) = queue_wf q" "queue_wf (add_metrics f q) = queue_wf q" "queue_wf (count_cancelled q) = queue_wf q"
  "queue_wf (task_done q) = queue_wf q" "queue_wf (set_worker i pos q) = queue_wf q"
  by (simp_all add: queue_wf_def)

lemma queue_wf_put: "queue_wf q \<Longrightarrow> queue_wf (put_task_obj t q)"
  by (auto simp: queue_wf_def)

lemma distinct_heap_push: "distinct (map snd h) \<Longrightarrow> k \<notin> snd ` set h \<Longrightarrow> distinct (map snd (heap_push (p, k) h))"
  unfolding heap_push_def by (induction h) (auto simp: set_insort_key)

lemma queue_wf_push: "queue_wf q \<Longrightarrow> k \<notin> snd ` set (q_heap q) \<Longrightarrow> queue_wf (put_heap (p, k) q)"
  by (simp add: queue_wf_def distinct_heap_push)

lemma queue_wf_finalize: "queue_wf q \<Longrightarrow> queue_wf (finalize k now q)"
  by (auto simp: finalize_def Let_def queue_wf_def put_task_obj_def add_metrics_def split: option.splits)

section \<open>The refinement\<close>

definition good :: "task_queue \<Rightarrow> bool" where
  "good q \<longleftrightarrow> queue_wf q \<and> pool_inv (abs_queue q)"

lemma good_held:
  assumes "good q" "i < length (q_workers q)" "held_by (q_workers q ! i) = Some k"
  obtains t where "dget (q_tasks q) k = Some t" "t_id t = k" "k \<notin> snd ` set (q_heap q)" "k \<in> set (dkeys (q_running q))"
    "status_at (abs_queue q) (q_workers q ! i) k"
proof -
  have h: "held_ok (abs_queue q)" using assms(1) by (simp add: good_def pool_inv_def)
  have p: "p_pos (abs_queue q) i = q_workers q ! i" using assms(2) by (simp add: pos_of_nth)
  note held = held_okD [OF h p assms(3)]
  then obtain t where t: "dget (q_tasks q) k = Some t"
    by (auto simp: status_at_def split: if_splits worker.splits)
  show ?thesis
    using that [OF t queue_wf_id [OF _ t]] assms(1) held by (simp add: good_def)
qed

lemma good_running_mem: "good q \<Longrightarrow> k \<in> set (dkeys (q_running q)) \<Longrightarrow> dmem k (q_tasks q)"
  using running_status [of "abs_queue q" k] by (auto simp: good_def pool_inv_def dmem_Some)

lemma good_fresh: "good q \<Longrightarrow> \<not> dmem k (q_tasks q) \<Longrightarrow> k \<notin> snd ` set (q_heap q)"
  by (auto simp: good_def pool_inv_def queued_ok_def not_dmem_None)

lemma refine_submit:
  assumes "good q" "submit now uid ty payload fn prio timeout retries q = Some (q', t)" "\<not> dmem uid (q_tasks q)"
  shows "queue_wf q'" "abs_queue q' = enqueue uid (become uid PENDING (abs_queue q))" "dget (q_tasks q') uid = Some t"
    "t_id t = uid" "t_status t = PENDING"
  using assms good_fresh [OF assms(1,3)]
  by (auto simp: submit_def Let_def good_def new_task_def enqueue_def become_def
      intro!: queue_wf_put queue_wf_push split: if_splits)

lemma refine_submit_cb:
  assumes "good q" "submit_with_callback now uid ty payload cb fn prio timeout retries q = Some (q', t)" "\<not> dmem uid (q_tasks q)"
  shows "queue_wf q' \<and> abs_queue q' = enqueue uid (become uid PENDING (abs_queue q))"
  using assms refine_submit [OF assms(1) _ assms(3)]
  by (auto simp: submit_with_callback_def Let_def enqueue_def become_def intro!: queue_wf_put split: option.splits)

lemma refine_cancel:
  assumes "good q"
  shows "queue_wf (fst (cancel k q)) \<and> pool_step (abs_queue q) (abs_queue (fst (cancel k q)))"
  using assms queue_wf_id [of q k]
  by (auto simp: cancel_def good_def intro: pool_step.intros queue_wf_put split: option.splits)

lemma refine_pick:
  assumes "good q" "worker_pick i now q = Some q'"
  shows "queue_wf q' \<and> pool_step (abs_queue q) (abs_queue q')"
proof -
  obtain p k h where heap: "q_heap q = (p, k) # h" and w: "\<not> q_shutdown q" "i < length (q_workers q)" "q_workers q ! i = Idle"
    using assms(2) by (auto simp: worker_pick_def split: if_splits list.splits)
  let ?q = "q\<lparr>q_heap := h\<rparr>"
  have wf: "queue_wf ?q" and nin: "k \<notin> snd ` set h" using assms(1) heap by (auto simp: good_def queue_wf_def)
  have pos: "p_pos (abs_queue q) i = Idle" using w by (simp add: pos_of_nth)
  have deq: "abs_queue ?q = dequeue k (abs_queue q)" using heap nin by (auto simp: abs_queue_def dequeue_def)
  obtain t where t: "dget (q_tasks q) k = Some t" using assms(2) heap w by (auto simp: worker_pick_def Let_def split: option.splits)
  then have id: "t_id t = k" using assms(1) queue_wf_id by (auto simp: good_def)
  have qd: "k \<in> p_queued (abs_queue q)" using heap by simp
  with assms(1) t have st: "t_status t = PENDING \<or> t_status t = CANCELLED"
    by (auto simp: good_def pool_inv_def queued_ok_def heap)
  show ?thesis
  proof (cases "t_status t = CANCELLED")
    case True
    with assms(2) heap w t have "q' = task_done ?q" by (simp add: worker_pick_def Let_def)
    moreover have "pool_step (abs_queue q) (dequeue k (abs_queue q))" by (rule p_skip) (use t True qd in auto)
    ultimately show ?thesis using wf deq by simp
  next
    case False
    with assms(2) heap w t have q': "q' = begin_task i now k t ?q" by (simp add: worker_pick_def Let_def)
    have "abs_queue q' = move i (Executing k) (become k RUNNING (dequeue k (acquire_id k (abs_queue q))))"
      unfolding q' begin_task_def Let_def using w(2) id deq
      by (auto simp: pool_prims abs_queue_def put_task_obj_def add_metrics_def count_def set_worker_def dkeys_def dom_update pos_of_update fun_eq_iff)
    moreover have "pool_step (abs_queue q) (move i (Executing k) (become k RUNNING (dequeue k (acquire_id k (abs_queue q)))))"
      by (rule p_pick) (use w pos qd t st False in auto)
    moreover have "queue_wf q'" unfolding q' begin_task_def Let_def using wf id
      by (auto simp: queue_wf_def)
    ultimately show ?thesis by simp
  qed
qed

lemma abs_finalize_put:
  "t_id t = k \<Longrightarrow> dget (q_tasks q) k = Some t \<Longrightarrow> abs_queue (task_done (finalize k now q)) = release k (abs_queue q)"
  by (simp add: abs_finalize)

lemma refine_finish:
  assumes "good q" "finish i now out q = Some q'"
  shows "queue_wf q' \<and> pool_step (abs_queue q) (abs_queue q')"
proof -
  obtain k where w: "\<not> q_shutdown q" "i < length (q_workers q)" "q_workers q ! i = Executing k"
    using assms(2) by (auto simp: finish_def split: if_splits worker.splits)
  obtain t where t: "dget (q_tasks q) k = Some t" "t_id t = k"
    by (rule good_held [OF assms(1) w(2), of k]) (use w(3) in auto)
  have wf: "queue_wf q" using assms(1) by (simp add: good_def)
  have pos: "p_pos (abs_queue q) i = Executing k" using w by (simp add: pos_of_nth)
  show ?thesis
  proof (cases out)
    case (Returned v)
    have "abs_queue q' = move i Idle (release k (become k COMPLETED (abs_queue q)))" "queue_wf q'"
      using assms(2) w t wf Returned
      by (auto simp: finish_def Let_def abs_finalize intro!: queue_wf_finalize queue_wf_put)
    then show ?thesis using p_end [OF _ pos] w(1) by auto
  next
    case Cancelled
    have "abs_queue q' = move i Ended (release k (become k CANCELLED (abs_queue q)))" "queue_wf q'"
      using assms(2) w t wf Cancelled
      by (auto simp: finish_def Let_def abs_finalize intro!: queue_wf_finalize queue_wf_put)
    then show ?thesis using p_kill [OF pos] by auto
  next
    case (Raised e)
    show ?thesis
    proof (cases "t_retry t < t_max_retries t")
      case True
      have "abs_queue q' = move i (Backoff k (now + of_int (retry_delay (t_retry t + 1)))) (become k PENDING (abs_queue q))" "queue_wf q'"
        using assms(2) w t wf Raised True by (auto simp: finish_def Let_def intro!: queue_wf_put)
      then show ?thesis using p_retry [OF _ pos] w(1) by auto
    next
      case False
      have "abs_queue q' = move i Idle (release k (become k FAILED (abs_queue q)))" "queue_wf q'"
        using assms(2) w t wf Raised False
        by (auto simp: finish_def Let_def abs_finalize intro!: queue_wf_finalize queue_wf_put)
      then show ?thesis using p_end [OF _ pos] w(1) by auto
    qed
  qed
qed

lemma refine_wake:
  assumes "good q" "wake i now q = Some q'"
  shows "queue_wf q' \<and> pool_step (abs_queue q) (abs_queue q')"
proof -
  obtain k u where w: "\<not> q_shutdown q" "i < length (q_workers q)" "q_workers q ! i = Backoff k u"
    using assms(2) by (auto simp: wake_def split: if_splits worker.splits)
  obtain t where t: "dget (q_tasks q) k = Some t" "t_id t = k" "k \<notin> snd ` set (q_heap q)"
    by (rule good_held [OF assms(1) w(2), of k]) (use w(3) in auto)
  have pos: "p_pos (abs_queue q) i = Backoff k u" using w by (simp add: pos_of_nth)
  have "abs_queue q' = move i Idle (release k (enqueue k (abs_queue q)))" "queue_wf q'"
    using assms w t by (auto simp: wake_def Let_def abs_finalize good_def intro!: queue_wf_finalize queue_wf_push split: if_splits)
  then show ?thesis using p_wake [OF _ pos] w(1) by auto
qed

lemma refine_cancel_worker:
  assumes "good q" "q_shutdown q" "i < length (q_workers q)"
  shows "queue_wf (cancel_worker i now q) \<and> pool_step (abs_queue q) (abs_queue (cancel_worker i now q))"
proof -
  have wf: "queue_wf q" using assms(1) by (simp add: good_def)
  have pos: "p_pos (abs_queue q) i = q_workers q ! i" using assms by (simp add: pos_of_nth)
  show ?thesis
  proof (cases "q_workers q ! i")
    case Idle
    then show ?thesis using assms wf pos p_leave [of "abs_queue q" i] by (simp add: cancel_worker_def)
  next
    case (Executing k)
    obtain t where t: "dget (q_tasks q) k = Some t" "t_id t = k"
      by (rule good_held [OF assms(1,3), of k]) (use Executing in auto)
    then show ?thesis using Executing assms wf pos p_kill [of "abs_queue q" i k]
      by (auto simp: cancel_worker_def abs_finalize intro!: queue_wf_finalize queue_wf_put)
  next
    case (Backoff k u)
    obtain t where t: "dget (q_tasks q) k = Some t" "t_id t = k"
      by (rule good_held [OF assms(1,3), of k]) (use Backoff in auto)
    then show ?thesis using Backoff assms wf pos p_drop [of "abs_queue q" i k u]
      by (auto simp: cancel_worker_def abs_finalize intro!: queue_wf_finalize)
  next
    case Ended
    then show ?thesis using wf by (simp add: cancel_worker_def p_stay)
  qed
qed

lemma pos_of_Nil [simp]: "pos_of [] = (\<lambda>i. Ended)"
  by (auto simp: pos_of_def)

lemma pos_of_Ended: "list_all (\<lambda>w. w = Ended) ws \<Longrightarrow> pos_of ws = (\<lambda>i. Ended)"
  by (auto simp: pos_of_def list_all_length)

lemma refine_start:
  assumes "good q"
  shows "queue_wf (start q) \<and> pool_step (abs_queue q) (abs_queue (start q))"
proof (cases "q_workers q = []")
  case True
  then have "abs_queue (start q) = open_pool (q_max_workers q) (abs_queue q)"
    by (auto simp: start_def abs_queue_def open_pool_def pos_of_def)
  moreover have "pool_step (abs_queue q) (open_pool (q_max_workers q) (abs_queue q))"
    by (rule p_start) (simp add: True)
  ultimately show ?thesis using assms by (simp add: good_def queue_wf_def start_def)
next
  case False
  with assms show ?thesis by (simp add: start_def good_def p_stay)
qed

lemma queue_wf_mark: "queue_wf q \<Longrightarrow> queue_wf (mark_cancelled k q)"
  by (auto simp: mark_cancelled_def intro: queue_wf_put split: option.splits)

lemma refine_stop_begin:
  assumes "good q"
  shows "queue_wf (stop_begin q) \<and> pool_step (abs_queue q) (abs_queue (stop_begin q))"
proof (cases "q_workers q = []")
  case False
  have fold: "queue_wf (fold mark_cancelled ks q')" if "queue_wf q'" for ks q'
    using that by (induction ks arbitrary: q') (simp_all add: queue_wf_mark)
  have "queue_wf (q\<lparr>q_shutdown := True\<rparr>)" using assms by (simp add: good_def queue_wf_def)
  then have "queue_wf (stop_begin q)" using False by (simp add: stop_begin_def fold)
  moreover have "abs_queue (stop_begin q) = shut_pool (abs_queue q)"
    using assms by (intro abs_stop_begin False good_running_mem) (auto simp: good_def)
  ultimately show ?thesis using p_stop [of "abs_queue q"] by simp
qed (use assms in \<open>simp add: stop_begin_def good_def p_stay\<close>)

lemma refine_stop_end:
  assumes "good q" "list_all (\<lambda>w. w = Ended) (q_workers q)"
  shows "queue_wf (stop_end q) \<and> pool_step (abs_queue q) (abs_queue (stop_end q))"
proof -
  have "abs_queue (stop_end q) = abs_queue q"
    using pos_of_Ended [OF assms(2)] by (simp add: stop_end_def abs_queue_def)
  with assms show ?thesis by (simp add: p_stay good_def queue_wf_def stop_end_def)
qed

lemma refine_acquire:
  "good q \<Longrightarrow> queue_wf (fst (acquire_slot now q)) \<and> pool_step (abs_queue q) (abs_queue (fst (acquire_slot now q)))"
  by (auto simp: acquire_slot_def good_def queue_wf_def abs_queue_def p_stay split: option.splits prod.splits)

lemma refine_step:
  assumes "queue_step q q'" "good q"
  shows "queue_wf q' \<and> pool_step (abs_queue q) (abs_queue q')"
  using assms(1)
proof (cases rule: queue_step.cases)
  case (q_submit now uid ty payload fn prio timeout retries t)
  then show ?thesis using refine_submit [OF assms(2)] p_submit [of "abs_queue q" uid] by (simp add: not_dmem_None)
next
  case (q_submit_cb now uid ty payload cb fn prio timeout retries t)
  then show ?thesis using refine_submit_cb [OF assms(2)] p_submit [of "abs_queue q" uid] by (simp add: not_dmem_None)
next
  case (q_pick i now)
  then show ?thesis using refine_pick [OF assms(2)] by blast
next
  case (q_finish i now out)
  then show ?thesis using refine_finish [OF assms(2)] by blast
next
  case (q_wake i now)
  then show ?thesis using refine_wake [OF assms(2)] by blast
next
  case (q_cancel_worker i now)
  then show ?thesis using refine_cancel_worker [OF assms(2)] by blast
next
  case q_stop_end
  then show ?thesis using refine_stop_end [OF assms(2)] by blast
qed (use assms(2) refine_cancel refine_acquire refine_start refine_stop_begin in blast)+

lemma refine_init: "queue_init q \<Longrightarrow> pool_init (abs_queue q)"
  by (auto simp: queue_init_def AsyncTaskQueue_def abs_queue_def dkeys_def pool_init_def)

lemma good_init: "queue_init q \<Longrightarrow> good q"
  by (auto simp: queue_init_def good_def AsyncTaskQueue_def queue_wf_def abs_queue_def dkeys_def
      intro!: pool_inv_init simp: pool_init_def)

interpretation queue: transition_system queue_init queue_step good
proof unfold_locales
  show "good q" if "queue_init q" for q using that by (rule good_init)
  show "good q'" if "good q" "queue_step q q'" for q q'
    using refine_step [OF that(2,1)] pool_inv_step that(1) by (auto simp: good_def)
qed

end
