(* ===== verification/Queue_Properties.thy ===== *)
theory Queue_Properties
  imports Queue_Refinement
begin

text \<open>
  The properties of the task queue, over every run (\<open>reaches queue_step\<close>) from a new
  queue: the placement of tasks (from the abstract pool), the books the metrics keep, the
  bound on retries, final states, the order in which the workers take tasks; and the
  stalls that the cancellation and the bounded queue allow.
\<close>

section \<open>The books\<close>

definition total :: "(task \<Rightarrow> int) \<Rightarrow> (string, task) dict \<Rightarrow> int" where
  "total f ts = dsum f ts"

lemma total_dset:
  "dwf ts \<Longrightarrow> total f (dset k t ts) = total f ts + f t - (case dget ts k of None \<Rightarrow> 0 | Some t0 \<Rightarrow> f t0)"
  unfolding total_def by (rule dsum_dset)

definition in_status :: "task_status \<Rightarrow> task \<Rightarrow> int" where
  "in_status st t = of_bool (t_status t = st)"

definition retry_ok :: "task \<Rightarrow> bool" where
  "retry_ok t \<longleftrightarrow> 0 \<le> t_retry t \<and> t_retry t \<le> max 0 (t_max_retries t) \<and> (t_status t = FAILED \<longrightarrow> t_max_retries t \<le> t_retry t)"

definition books :: "(string, task) dict \<Rightarrow> task_metrics \<Rightarrow> bool" where
  "books ts m \<longleftrightarrow> tm_submitted m = total (\<lambda>t. 1) ts \<and> tm_completed m = total (in_status COMPLETED) ts \<and>
     tm_failed m = total (in_status FAILED) ts \<and> total (in_status CANCELLED) ts \<le> tm_cancelled m \<and>
     tm_retries m = total t_retry ts \<and> (\<forall>k t. dget ts k = Some t \<longrightarrow> retry_ok t)"

abbreviation balanced :: "task_queue \<Rightarrow> bool" where
  "balanced q \<equiv> books (q_tasks q) (q_metrics q)"

lemma books_put:
  assumes "books ts m" "dwf ts" "dget ts k = Some t0" "retry_ok t"
    "tm_submitted m' = tm_submitted m"
    "tm_completed m' = tm_completed m + in_status COMPLETED t - in_status COMPLETED t0"
    "tm_failed m' = tm_failed m + in_status FAILED t - in_status FAILED t0"
    "tm_cancelled m + in_status CANCELLED t - in_status CANCELLED t0 \<le> tm_cancelled m'"
    "tm_retries m' = tm_retries m + t_retry t - t_retry t0"
  shows "books (dset k t ts) m'"
  using assms by (auto simp: books_def total_dset)

lemma books_new:
  assumes "books ts m" "dwf ts" "dget ts k = None" "t_status t = PENDING" "t_retry t = 0"
  shows "books (dset k t ts) (m\<lparr>tm_submitted := tm_submitted m + 1\<rparr>)"
  using assms by (auto simp: books_def total_dset in_status_def retry_ok_def)

lemma in_status_upd [simp]:
  "in_status st (t\<lparr>t_status := s\<rparr>) = of_bool (s = st)"
  "in_status st (t\<lparr>t_completed := c\<rparr>) = in_status st t" "in_status st (t\<lparr>t_callback := cb\<rparr>) = in_status st t"
  "in_status st (t\<lparr>t_started := c\<rparr>) = in_status st t" "in_status st (t\<lparr>t_error := e\<rparr>) = in_status st t"
  "in_status st (t\<lparr>t_result := r\<rparr>) = in_status st t" "in_status st (t\<lparr>t_retry := n\<rparr>) = in_status st t"
  by (simp_all add: in_status_def)

lemma retry_ok_upd [simp]:
  "retry_ok (t\<lparr>t_completed := c\<rparr>) = retry_ok t" "retry_ok (t\<lparr>t_callback := cb\<rparr>) = retry_ok t"
  "retry_ok (t\<lparr>t_started := c\<rparr>) = retry_ok t" "retry_ok (t\<lparr>t_error := e\<rparr>) = retry_ok t" "retry_ok (t\<lparr>t_result := r\<rparr>) = retry_ok t"
  by (simp_all add: retry_ok_def)

lemma retry_ok_status: "retry_ok t \<Longrightarrow> s \<noteq> FAILED \<Longrightarrow> retry_ok (t\<lparr>t_status := s\<rparr>)"
  by (simp add: retry_ok_def)

lemma metrics_simps [simp]:
  "q_metrics (count n ls q) = q_metrics q" "q_metrics (add_metrics f q) = f (q_metrics q)"
  "q_metrics (task_done q) = q_metrics q" "q_metrics (put_heap e q) = q_metrics q" "q_metrics (set_worker i pos q) = q_metrics q"
  "q_metrics (put_task_obj t q) = q_metrics q"
  "q_metrics (count_cancelled q) = (q_metrics q)\<lparr>tm_cancelled := tm_cancelled (q_metrics q) + 1\<rparr>"
  by (simp_all add: count_def add_metrics_def count_cancelled_def task_done_def put_heap_def set_worker_def put_task_obj_def)

lemma balanced_finalize:
  assumes "balanced q" "queue_wf q"
  shows "balanced (finalize k now q)"
proof (cases "dget (q_tasks q) k")
  case (Some t)
  have id: "t_id t = k" using assms(2) Some by (rule queue_wf_id)
  have wf: "dwf (q_tasks q)" using assms(2) by (simp add: queue_wf_def)
  have "retry_ok t" using assms(1) Some by (simp add: books_def)
  then have "books (dset k (t\<lparr>t_completed := Some now, t_callback := None\<rparr>) (q_tasks q)) ((q_metrics q)\<lparr>tm_exec := x\<rparr>)" for x
    by (intro books_put [OF assms(1) wf Some]) (simp_all)
  from this [of "tm_exec (q_metrics q)"] this show ?thesis using Some id
    by (auto simp: finalize_def Let_def add_metrics_def put_task_obj_def split: option.splits)
qed (use assms in \<open>simp add: finalize_def\<close>)

lemma balanced_cancel_obj:
  assumes "balanced q" "queue_wf q" "dget (q_tasks q) k = Some t" "t_status t \<notin> {COMPLETED, FAILED}"
  shows "balanced (count_cancelled (put_task_obj (t\<lparr>t_status := CANCELLED\<rparr>) q))"
proof -
  have "t_id t = k" using queue_wf_id [OF assms(2,3)] .
  moreover have "dwf (q_tasks q)" using assms(2) by (simp add: queue_wf_def)
  moreover have "retry_ok t" using assms(1,3) by (simp add: books_def)
  moreover have "books (dset k (t\<lparr>t_status := CANCELLED\<rparr>) (q_tasks q)) ((q_metrics q)\<lparr>tm_cancelled := tm_cancelled (q_metrics q) + 1\<rparr>)"
    if "dwf (q_tasks q)" "retry_ok t"
    by (rule books_put [OF assms(1) that(1) assms(3)]) (use that assms(4) in \<open>auto simp: in_status_def retry_ok_status\<close>)
  ultimately show ?thesis by simp
qed

lemma good_held_status:
  assumes "good q" "i < length (q_workers q)" "held_by (q_workers q ! i) = Some k" "dget (q_tasks q) k = Some t"
  shows "t_status t \<notin> {COMPLETED, FAILED}"
    "\<not> q_shutdown q \<Longrightarrow> q_workers q ! i = Executing k \<Longrightarrow> t_status t = RUNNING"
proof -
  show "t_status t \<notin> {COMPLETED, FAILED}"
    by (rule good_held [OF assms(1-3)]) (use assms(4) in \<open>auto simp: status_at_def split: if_splits worker.splits\<close>)
  show "t_status t = RUNNING" if "\<not> q_shutdown q" "q_workers q ! i = Executing k"
    by (rule good_held [OF assms(1-3)]) (use assms(4) that in \<open>auto simp: status_at_def split: if_splits worker.splits\<close>)
qed

lemma balanced_finish:
  assumes "balanced q" "good q" "finish i now out q = Some q'"
  shows "balanced q'"
proof -
  obtain k where w: "\<not> q_shutdown q" "i < length (q_workers q)" "q_workers q ! i = Executing k"
    using assms(3) by (auto simp: finish_def split: if_splits worker.splits)
  obtain t where t: "dget (q_tasks q) k = Some t"
    by (rule good_held [OF assms(2) w(2), of k]) (use w(3) in auto)
  have wf: "queue_wf q" using assms(2) by (simp add: good_def)
  then have id: "t_id t = k" using t by (rule queue_wf_id)
  have dwf: "dwf (q_tasks q)" using wf by (simp add: queue_wf_def)
  have run: "t_status t = RUNNING" using good_held_status(2) [OF assms(2) w(2) _ t w(1)] w(3) by simp
  have ok: "retry_ok t" using assms(1) t by (simp add: books_def)
  note put = books_put [OF assms(1) dwf t]
  show ?thesis
  proof (cases out)
    case (Returned v)
    let ?q = "count ''task_queue_task_completed'' (type_label t) (add_metrics (\<lambda>m. m\<lparr>tm_completed := tm_completed m + 1\<rparr>)
      (put_task_obj (t\<lparr>t_result := v, t_status := COMPLETED\<rparr>) q))"
    have "balanced ?q" using id run ok by (simp, intro put) (simp_all add: in_status_def retry_ok_def)
    then have "balanced (finalize k now ?q)" by (rule balanced_finalize) (simp add: queue_wf_put wf)
    moreover have "q' = set_worker i Idle (task_done (finalize k now ?q))"
      using assms(3) w t Returned by (simp add: finish_def)
    ultimately show ?thesis by simp
  next
    case Cancelled
    let ?q = "count_cancelled (put_task_obj (t\<lparr>t_status := CANCELLED\<rparr>) q)"
    have "balanced ?q" using balanced_cancel_obj [OF assms(1) wf t] run by simp
    then have "balanced (finalize k now ?q)" by (rule balanced_finalize) (simp add: queue_wf_put wf)
    moreover have "q' = set_worker i Ended (finalize k now ?q)"
      using assms(3) w t Cancelled by (simp add: finish_def)
    ultimately show ?thesis by simp
  next
    case (Raised e)
    let ?t = "t\<lparr>t_error := Some (error_message e)\<rparr>"
    show ?thesis
    proof (cases "t_retry t < t_max_retries t")
      case True
      let ?q = "add_metrics (\<lambda>m. m\<lparr>tm_retries := tm_retries m + 1\<rparr>)
        (put_task_obj (?t\<lparr>t_retry := t_retry ?t + 1, t_status := PENDING\<rparr>) q)"
      have "balanced ?q" using id run ok True by (simp, intro put) (simp_all add: in_status_def retry_ok_def)
      moreover have "q' = set_worker i (Backoff k (now + of_int (retry_delay (t_retry ?t + 1)))) ?q"
        using assms(3) w t Raised True by (simp add: finish_def Let_def)
      ultimately show ?thesis by simp
    next
      case False
      let ?q = "count ''task_queue_task_failed'' (type_label ?t) (add_metrics (\<lambda>m. m\<lparr>tm_failed := tm_failed m + 1\<rparr>)
        (put_task_obj (?t\<lparr>t_status := FAILED\<rparr>) q))"
      have "balanced ?q" using id run ok False by (simp, intro put) (simp_all add: in_status_def retry_ok_def)
      then have "balanced (finalize k now ?q)" by (rule balanced_finalize) (simp add: queue_wf_put wf)
      moreover have "q' = set_worker i Idle (task_done (finalize k now ?q))"
        using assms(3) w t Raised False by (simp add: finish_def Let_def)
      ultimately show ?thesis by simp
    qed
  qed
qed

lemma balanced_same:
  assumes "balanced q" "q_tasks q' = q_tasks q" "q_metrics q' = q_metrics q"
  shows "balanced q'"
  using assms by simp

lemma balanced_submit:
  assumes "balanced q" "good q" "submit now uid ty payload fn prio timeout retries q = Some (q', t)" "\<not> dmem uid (q_tasks q)"
  shows "balanced q'" "t_retry t = 0" "t_status t = PENDING"
proof -
  have dwf: "dwf (q_tasks q)" using assms(2) by (simp add: good_def queue_wf_def)
  have t: "t = new_task now uid ty payload fn prio timeout retries q" "t_id t = uid"
    using assms(3) by (auto simp: submit_def Let_def new_task_def split: if_splits)
  show r: "t_retry t = 0" "t_status t = PENDING" by (simp_all add: t(1) new_task_def)
  have "books (dset uid t (q_tasks q)) ((q_metrics q)\<lparr>tm_submitted := tm_submitted (q_metrics q) + 1\<rparr>)"
    by (rule books_new [OF assms(1) dwf _ r(2,1)]) (use assms(4) in \<open>simp add: not_dmem_None\<close>)
  with assms(3) t show "balanced q'" by (auto simp: submit_def Let_def split: if_splits)
qed

lemma balanced_submit_cb:
  assumes "balanced q" "good q" "submit_with_callback now uid ty payload cb fn prio timeout retries q = Some (q', t)" "\<not> dmem uid (q_tasks q)"
  shows "balanced q'"
proof -
  obtain q1 t1 where s: "submit now uid ty payload fn prio timeout retries q = Some (q1, t1)"
    and q': "q' = put_task_obj (t1\<lparr>t_callback := Some cb\<rparr>) q1"
    using assms(3) by (auto simp: submit_with_callback_def Let_def split: option.splits)
  note b = balanced_submit [OF assms(1,2) s assms(4)]
  note r = refine_submit [OF assms(2) s assms(4)]
  have dwf: "dwf (q_tasks q1)" using r(1) by (simp add: queue_wf_def)
  have "books (dset uid (t1\<lparr>t_callback := Some cb\<rparr>) (q_tasks q1)) (q_metrics q1)"
    by (rule books_put [OF b(1) dwf r(3)]) (use b(1) r(3) in \<open>simp_all add: books_def\<close>)
  with q' r(4) show ?thesis by simp
qed

lemma balanced_cancel:
  assumes "balanced q" "good q"
  shows "balanced (fst (cancel k q))"
proof (cases "dget (q_tasks q) k")
  case (Some t)
  have "retry_ok t" using assms(1) Some by (simp add: books_def)
  have wf: "queue_wf q" using assms(2) by (simp add: good_def)
  have "balanced (count_cancelled q)" using assms(1) by (auto simp: books_def)
  moreover have "balanced (count_cancelled (put_task_obj (t\<lparr>t_status := CANCELLED\<rparr>) q))" if "t_status t = PENDING"
    by (rule balanced_cancel_obj [OF assms(1) wf Some]) (simp add: that)
  ultimately show ?thesis using Some assms(1) by (simp add: cancel_def)
qed (use assms in \<open>simp add: cancel_def\<close>)

lemma balanced_pick:
  assumes "balanced q" "good q" "worker_pick i now q = Some q'"
  shows "balanced q'"
proof -
  obtain p k h where heap: "q_heap q = (p, k) # h" and w: "\<not> q_shutdown q" "i < length (q_workers q)" "q_workers q ! i = Idle"
    using assms(3) by (auto simp: worker_pick_def split: if_splits list.splits)
  obtain t where t: "dget (q_tasks q) k = Some t" using assms(3) heap w by (auto simp: worker_pick_def Let_def split: option.splits)
  have wf: "queue_wf q" using assms(2) by (simp add: good_def)
  then have id: "t_id t = k" using t by (rule queue_wf_id)
  have dwf: "dwf (q_tasks q)" using wf by (simp add: queue_wf_def)
  have "k \<in> p_queued (abs_queue q)" using heap by simp
  with assms(2) t have st: "t_status t = PENDING \<or> t_status t = CANCELLED"
    by (auto simp: good_def pool_inv_def queued_ok_def heap)
  show ?thesis
  proof (cases "t_status t = CANCELLED")
    case True
    with assms(3) heap w t have "q' = task_done (q\<lparr>q_heap := h\<rparr>)" by (simp add: worker_pick_def Let_def)
    with assms(1) show ?thesis by simp
  next
    case False
    have "retry_ok t" using assms(1) t by (simp add: books_def)
    then have "books (dset k (t\<lparr>t_status := RUNNING, t_started := Some now\<rparr>) (q_tasks q)) ((q_metrics q)\<lparr>tm_wait := x\<rparr>)" for x
      by (intro books_put [OF assms(1) dwf t]) (use st False in \<open>simp_all add: in_status_def retry_ok_def\<close>)
    with assms heap w t id False show ?thesis by (auto simp: worker_pick_def begin_task_def Let_def)
  qed
qed

lemma balanced_wake:
  assumes "balanced q" "good q" "wake i now q = Some q'"
  shows "balanced q'"
proof -
  obtain k u where w: "\<not> q_shutdown q" "i < length (q_workers q)" "q_workers q ! i = Backoff k u" "\<not> q_full q" "u \<le> now"
    using assms(3) by (auto simp: wake_def not_less split: if_splits worker.splits)
  obtain t where t: "dget (q_tasks q) k = Some t" "k \<notin> snd ` set (q_heap q)"
    by (rule good_held [OF assms(2) w(2), of k]) (use w(3) in auto)
  let ?q = "put_heap (t_priority t, k) q"
  have "queue_wf ?q" by (rule queue_wf_push) (use assms(2) t in \<open>simp_all add: good_def\<close>)
  then have "balanced (finalize k now ?q)" using assms(1) by (intro balanced_finalize) simp_all
  moreover have "q' = set_worker i Idle (task_done (finalize k now ?q))"
    using assms(3) w t by (simp add: wake_def)
  ultimately show ?thesis by simp
qed

lemma balanced_mark_all:
  assumes "balanced q" "queue_wf q" "\<And>k. k \<in> set ks \<Longrightarrow> \<exists>t. dget (q_tasks q) k = Some t \<and> t_status t \<notin> {COMPLETED, FAILED}"
  shows "balanced (fold mark_cancelled ks q)"
  using assms
proof (induction ks arbitrary: q)
  case (Cons k ks)
  obtain t where t: "dget (q_tasks q) k = Some t" "t_status t \<notin> {COMPLETED, FAILED}" using Cons.prems(3) [of k] by auto
  have id: "t_id t = k" using Cons.prems(2) t(1) by (rule queue_wf_id)
  have q1: "mark_cancelled k q = count_cancelled (put_task_obj (t\<lparr>t_status := CANCELLED\<rparr>) q)"
    using t by (simp add: mark_cancelled_def)
  have "balanced (fold mark_cancelled ks (mark_cancelled k q))"
  proof (rule Cons.IH)
    show "balanced (mark_cancelled k q)" unfolding q1 by (rule balanced_cancel_obj [OF Cons.prems(1,2) t])
    show "queue_wf (mark_cancelled k q)" by (rule queue_wf_mark [OF Cons.prems(2)])
    show "\<exists>t. dget (q_tasks (mark_cancelled k q)) j = Some t \<and> t_status t \<notin> {COMPLETED, FAILED}" if "j \<in> set ks" for j
      using Cons.prems(3) [of j] that id unfolding q1 by simp
  qed
  then show ?case by simp
qed simp

lemma balanced_stop_begin:
  assumes "balanced q" "good q"
  shows "balanced (stop_begin q)"
proof (cases "q_workers q = []")
  case False
  have "balanced (fold mark_cancelled (dkeys (q_running q)) (q\<lparr>q_shutdown := True\<rparr>))"
  proof (rule balanced_mark_all)
    show "balanced (q\<lparr>q_shutdown := True\<rparr>)" using assms(1) by simp
    show "queue_wf (q\<lparr>q_shutdown := True\<rparr>)" using assms(2) by (simp add: good_def queue_wf_def)
    show "\<exists>t. dget (q_tasks (q\<lparr>q_shutdown := True\<rparr>)) k = Some t \<and> t_status t \<notin> {COMPLETED, FAILED}"
      if "k \<in> set (dkeys (q_running q))" for k
      using running_status [of "abs_queue q" k] that assms(2) by (auto simp: good_def pool_inv_def)
  qed
  with False show ?thesis by (simp add: stop_begin_def)
qed (use assms in \<open>simp add: stop_begin_def\<close>)

lemma balanced_cancel_worker:
  assumes "balanced q" "good q" "i < length (q_workers q)"
  shows "balanced (cancel_worker i now q)"
proof -
  have wf: "queue_wf q" using assms(2) by (simp add: good_def)
  show ?thesis
  proof (cases "q_workers q ! i")
    case (Executing k)
    show ?thesis
    proof (cases "dget (q_tasks q) k")
      case (Some t)
      let ?q = "count_cancelled (put_task_obj (t\<lparr>t_status := CANCELLED\<rparr>) q)"
      have "balanced ?q" using good_held_status(1) [OF assms(2,3) _ Some] Executing
        by (intro balanced_cancel_obj [OF assms(1) wf Some]) simp
      then have "balanced (finalize k now ?q)" by (rule balanced_finalize) (simp add: queue_wf_put wf)
      then show ?thesis using Executing Some by (simp add: cancel_worker_def)
    qed (use Executing assms(1) in \<open>simp add: cancel_worker_def\<close>)
  next
    case (Backoff k u)
    have "balanced (finalize k now q)" using assms(1) wf by (rule balanced_finalize)
    then show ?thesis using Backoff by (simp add: cancel_worker_def)
  qed (use assms(1) in \<open>simp_all add: cancel_worker_def\<close>)
qed

lemma balanced_step:
  assumes "queue_step q q'" "good q" "balanced q"
  shows "balanced q'"
  using assms(1)
proof (cases rule: queue_step.cases)
  case (q_acquire now)
  with assms(3) show ?thesis by (auto simp: acquire_slot_def split: option.splits prod.splits)
next
  case q_start
  with assms(3) show ?thesis by (simp add: start_def)
next
  case q_stop_end
  with assms(3) show ?thesis by (simp add: stop_end_def)
next
  case (q_cancel tid)
  then show ?thesis using balanced_cancel [OF assms(3,2)] by simp
next
  case q_stop_begin
  then show ?thesis using balanced_stop_begin [OF assms(3,2)] by simp
next
  case (q_submit now uid ty payload fn prio timeout retries t)
  then show ?thesis using balanced_submit(1) [OF assms(3,2)] by blast
next
  case (q_submit_cb now uid ty payload cb fn prio timeout retries t)
  then show ?thesis using balanced_submit_cb [OF assms(3,2)] by blast
next
  case (q_pick i now)
  then show ?thesis using balanced_pick [OF assms(3,2)] by blast
next
  case (q_finish i now out)
  then show ?thesis using balanced_finish [OF assms(3,2)] by blast
next
  case (q_wake i now)
  then show ?thesis using balanced_wake [OF assms(3,2)] by blast
next
  case (q_cancel_worker i now)
  then show ?thesis using balanced_cancel_worker [OF assms(3,2)] by blast
qed

lemma balanced_init: "queue_init q \<Longrightarrow> balanced q"
  by (auto simp: queue_init_def AsyncTaskQueue_def books_def total_def TaskMetrics_def)

interpretation audited: transition_system queue_init queue_step "\<lambda>q. good q \<and> balanced q"
proof unfold_locales
  show "good q \<and> balanced q" if "queue_init q" for q using that by (simp add: good_init balanced_init)
  show "good q' \<and> balanced q'" if "good q \<and> balanced q" "queue_step q q'" for q q'
    using that queue.inv_step [of q q'] balanced_step [of q q'] by simp
qed

section \<open>The order of the heap\<close>

lemma sorted_heap_push: "sorted (map fst h) \<Longrightarrow> sorted (map fst (heap_push e h))"
  by (simp add: heap_push_def sorted_insort_key)

lemma sorted_stop_begin: "q_heap (stop_begin q) = q_heap q"
proof -
  have "q_heap (fold mark_cancelled ks q) = q_heap q" for ks q
    by (induction ks arbitrary: q) (auto simp: mark_cancelled_def split: option.splits)
  from this [of "dkeys (q_running q)" "q\<lparr>q_shutdown := True\<rparr>"] show ?thesis by (simp add: stop_begin_def)
qed

lemma sorted_heap_step:
  "queue_step q q' \<Longrightarrow> sorted (map fst (q_heap q)) \<Longrightarrow> sorted (map fst (q_heap q'))"
proof (induction rule: queue_step.induct)
  case (q_submit now uid ty payload fn prio timeout retries q q' t)
  then show ?case by (auto simp: submit_def Let_def sorted_heap_push split: if_splits)
next
  case (q_submit_cb now uid ty payload cb fn prio timeout retries q q' t)
  then show ?case by (auto simp: submit_with_callback_def submit_def Let_def sorted_heap_push split: if_splits option.splits)
next
  case (q_pick i now q q')
  then show ?case by (auto simp: worker_pick_def begin_task_def Let_def split: if_splits list.splits option.splits)
next
  case (q_finish i now out q q')
  then show ?case by (auto simp: finish_def Let_def split: if_splits worker.splits option.splits outcome.splits)
next
  case (q_wake i now q q')
  then show ?case by (auto simp: wake_def sorted_heap_push split: if_splits worker.splits option.splits)
next
  case (q_cancel_worker q i now)
  then show ?case by (auto simp: cancel_worker_def split: worker.splits option.splits)
qed (auto simp: cancel_def acquire_slot_def start_def sorted_stop_begin stop_end_def split: option.splits prod.splits)

interpretation ordered: transition_system queue_init queue_step "\<lambda>q. sorted (map fst (q_heap q))"
proof unfold_locales
  show "sorted (map fst (q_heap q))" if "queue_init q" for q
    using that by (auto simp: queue_init_def AsyncTaskQueue_def)
  show "sorted (map fst (q_heap q'))" if "sorted (map fst (q_heap q))" "queue_step q q'" for q q'
    by (rule sorted_heap_step [OF that(2,1)])
qed

section \<open>Properties\<close>

lemma final_run:
  assumes "reaches queue_step q q'" "good q" "p_status (abs_queue q) k = Some st" "st \<in> {COMPLETED, FAILED, CANCELLED}"
  shows "p_status (abs_queue q') k = Some st \<and> good q'"
  using assms
proof (induction rule: reaches.induct)
  case (reaches_step s q1 q2)
  then have g: "good q1" and p: "p_status (abs_queue q1) k = Some st" by blast+
  have "pool_step (abs_queue q1) (abs_queue q2)" using refine_step [OF reaches_step.hyps(2) g] by blast
  from pool_terminal [OF this _ p assms(4)] g have "p_status (abs_queue q2) k = Some st" by (simp add: good_def)
  with queue.inv_step [OF g reaches_step.hyps(2)] show ?case by blast
qed simp

definition new_queue :: "nat \<Rightarrow> nat \<Rightarrow> task_queue" where
  "new_queue workers maxsize = AsyncTaskQueue 0 workers maxsize None 300 3 []"

lemma queue_init_new: "queue_init (new_queue n m)"
  unfolding queue_init_def new_queue_def by blast

section \<open>A run\<close>

text \<open>
  A queue with one worker and room for one task, for concrete instances: started, a task
  submitted, picked, failed once, and another task submitted while the worker sleeps.
\<close>

definition demo_submitted :: task_queue where
  "demo_submitted = fst (the (submit 0 ''a'' BACKGROUND_JOB [] True 100 None None (start (new_queue 1 1))))"

definition demo_running :: task_queue where
  "demo_running = the (worker_pick 0 1 demo_submitted)"

definition demo_done :: task_queue where
  "demo_done = the (finish 0 2 (Returned JNull) demo_running)"

definition demo_backoff :: task_queue where
  "demo_backoff = the (finish 0 2 (Raised (Exn ''E'' [])) demo_running)"

definition demo_full :: task_queue where
  "demo_full = fst (the (submit 2 ''b'' BACKGROUND_JOB [] True 100 None None demo_backoff))"

lemmas demo_ops = new_queue_def AsyncTaskQueue_def start_def submit_def Let_def q_full_def new_task_def put_heap_def heap_push_def
  put_task_obj_def add_metrics_def count_def worker_pick_def begin_task_def set_worker_def finish_def finalize_def task_done_def

lemma demo_submitted_eq:
  "q_workers demo_submitted = [Idle]" "q_heap demo_submitted = [(TaskPriority 100 0, ''a'')]" "q_shutdown demo_submitted = False"
  "\<exists>t. dget (q_tasks demo_submitted) ''a'' = Some t \<and> t_status t = PENDING \<and> t_retry t = 0 \<and> t_max_retries t = 3"
  "q_maxsize demo_submitted = 1"
  by (simp_all add: demo_submitted_def demo_ops)

lemma demo_pick: "worker_pick 0 1 demo_submitted = Some demo_running"
  "q_workers demo_running = [Executing ''a'']" "q_shutdown demo_running = False" "q_heap demo_running = []"
  "\<exists>t. dget (q_tasks demo_running) ''a'' = Some t \<and> t_status t = RUNNING \<and> t_retry t = 0 \<and> t_max_retries t = 3"
  "q_maxsize demo_running = 1"
proof -
  obtain t where t: "dget (q_tasks demo_submitted) ''a'' = Some t" "t_status t = PENDING" "t_retry t = 0" "t_max_retries t = 3" "t_id t = ''a''"
    by (simp add: demo_submitted_def demo_ops)
  then have eq: "worker_pick 0 1 demo_submitted = Some (begin_task 0 1 ''a'' t (demo_submitted\<lparr>q_heap := []\<rparr>))"
    by (simp add: worker_pick_def demo_submitted_eq)
  then have d: "demo_running = begin_task 0 1 ''a'' t (demo_submitted\<lparr>q_heap := []\<rparr>)" by (simp add: demo_running_def)
  show "worker_pick 0 1 demo_submitted = Some demo_running" using eq d by simp
  show "q_workers demo_running = [Executing ''a'']" "q_shutdown demo_running = False" "q_heap demo_running = []"
    "\<exists>t. dget (q_tasks demo_running) ''a'' = Some t \<and> t_status t = RUNNING \<and> t_retry t = 0 \<and> t_max_retries t = 3"
    "q_maxsize demo_running = 1"
    using t by (simp_all add: d begin_task_def Let_def set_worker_def count_def put_task_obj_def add_metrics_def demo_submitted_eq)
qed

lemma demo_reach:
  "reaches queue_step (new_queue 1 1) demo_submitted" "reaches queue_step (new_queue 1 1) demo_running"
proof -
  have "submit 0 ''a'' BACKGROUND_JOB [] True 100 None None (start (new_queue 1 1)) =
    Some (demo_submitted, snd (the (submit 0 ''a'' BACKGROUND_JOB [] True 100 None None (start (new_queue 1 1)))))"
    unfolding demo_submitted_def by (simp add: submit_def start_def new_queue_def AsyncTaskQueue_def q_full_def Let_def)
  then have "queue_step (start (new_queue 1 1)) demo_submitted"
    by (rule q_submit) (simp add: start_def new_queue_def AsyncTaskQueue_def dmem_def)
  then show s: "reaches queue_step (new_queue 1 1) demo_submitted"
    by (rule reaches_step [OF reaches_one [of queue_step, OF q_start]])
  show "reaches queue_step (new_queue 1 1) demo_running" by (rule reaches_step [OF s q_pick [OF demo_pick(1)]])
qed

lemma demo_done_eq:
  "finish 0 2 (Returned JNull) demo_running = Some demo_done"
  "\<exists>t. dget (q_tasks demo_done) ''a'' = Some t \<and> t_status t = COMPLETED"
  "finish 0 2 (Raised (Exn ''E'' [])) demo_running = Some demo_backoff"
  "q_workers demo_backoff = [Backoff ''a'' 3]" "q_heap demo_backoff = []" "q_maxsize demo_backoff = 1"
proof -
  obtain t where t: "dget (q_tasks demo_running) ''a'' = Some t" "t_status t = RUNNING" "t_retry t = 0" "t_max_retries t = 3"
    using demo_pick(5) by blast
  have g: "good demo_running" by (rule queue.inv_reachable [OF queue_init_new demo_reach(2)])
  then have id: "t_id t = ''a''" using t(1) queue_wf_id by (auto simp: good_def)
  show "finish 0 2 (Returned JNull) demo_running = Some demo_done"
    "\<exists>t. dget (q_tasks demo_done) ''a'' = Some t \<and> t_status t = COMPLETED"
    "finish 0 2 (Raised (Exn ''E'' [])) demo_running = Some demo_backoff"
    "q_workers demo_backoff = [Backoff ''a'' 3]" "q_heap demo_backoff = []" "q_maxsize demo_backoff = 1"
    using t id
    by (simp_all add: demo_done_def demo_backoff_def finish_def demo_pick Let_def finalize_def set_worker_def retry_delay_def
        count_def add_metrics_def put_task_obj_def task_done_def split: option.splits)
qed

text \<open>C3: no task is lost and none is run twice at once. In every reachable state a pending task is
  in the heap or held by a worker that sleeps before its retry, a running task is executed
  by exactly one worker, a queued task is pending or cancelled, and a task a worker holds is
  not queued.\<close>

theorem queue_no_task_lost:
  assumes "queue_init q0" and "reaches queue_step q0 q" and "dget (q_tasks q) k = Some t"
  shows "(case t_status t of
      PENDING \<Rightarrow> k \<in> snd ` set (q_heap q) \<or> (\<exists>i<length (q_workers q). \<exists>u. q_workers q ! i = Backoff k u)
    | RUNNING \<Rightarrow> k \<notin> snd ` set (q_heap q) \<and> (\<exists>!i. i < length (q_workers q) \<and> q_workers q ! i = Executing k)
    | CANCELLED \<Rightarrow> True
    | _ \<Rightarrow> k \<notin> snd ` set (q_heap q) \<and> (\<forall>i<length (q_workers q). held_by (q_workers q ! i) \<noteq> Some k))"
proof -
  have g: "good q" using queue.inv_reachable [OF assms(1,2)] .
  have inv: "queued_ok (abs_queue q)" "held_ok (abs_queue q)" "once_ok (abs_queue q)" "running_ok (abs_queue q)" "live_ok (abs_queue q)"
    using g by (auto simp: good_def pool_inv_def)
  have st: "p_status (abs_queue q) k = Some (t_status t)" using assms(3) by simp
  have run: "\<exists>i<length (q_workers q). held_by (q_workers q ! i) = Some k \<and> status_at (abs_queue q) (q_workers q ! i) k
      \<and> k \<notin> snd ` set (q_heap q)"
    if k: "k \<in> p_running (abs_queue q)"
  proof -
    obtain i where i: "held_by (p_pos (abs_queue q) i) = Some k" using inv(4) k unfolding running_ok_def by blast
    then have "i < length (q_workers q)" by (auto simp: pos_of_def split: if_splits)
    with i held_okD [OF inv(2) refl i] show ?thesis by (auto simp: pos_of_nth)
  qed
  have once: "i = j" if "i < length (q_workers q)" "j < length (q_workers q)" "q_workers q ! i = Executing k" "q_workers q ! j = Executing k" for i j
    using once_okD [OF inv(3), of i k j] that by (simp add: pos_of_nth)
  show ?thesis
  proof (cases "t_status t")
    case PENDING
    with inv(5) st have "k \<in> p_queued (abs_queue q) \<or> k \<in> p_running (abs_queue q)" by (simp add: live_ok_def)
    then show ?thesis using run PENDING st
      by (auto simp: status_at_def held_by_def split: if_splits worker.splits)
  next
    case RUNNING
    with inv(5) st have "k \<in> p_running (abs_queue q)" by (simp add: live_ok_def)
    with run obtain i where i: "i < length (q_workers q)" "held_by (q_workers q ! i) = Some k"
      "status_at (abs_queue q) (q_workers q ! i) k" "k \<notin> snd ` set (q_heap q)" by blast
    with RUNNING st have "q_workers q ! i = Executing k"
      by (auto simp: status_at_def held_by_def split: if_splits worker.splits)
    with i RUNNING once show ?thesis by auto
  next
    case COMPLETED
    with inv(1) st good_held_status(1) [OF g _ _ assms(3)] show ?thesis by (auto simp: queued_ok_def)
  next
    case FAILED
    with inv(1) st good_held_status(1) [OF g _ _ assms(3)] show ?thesis by (auto simp: queued_ok_def)
  qed simp
qed

theorem queue_no_task_lost_witness:
  "\<exists>!i. i < length (q_workers demo_running) \<and> q_workers demo_running ! i = Executing ''a''"
proof -
  obtain t where t: "dget (q_tasks demo_running) ''a'' = Some t" "t_status t = RUNNING" using demo_pick(5) by blast
  show ?thesis
    using queue_no_task_lost [OF queue_init_new demo_reach(2) t(1)] t(2) by simp
qed

text \<open>C4: the queue implements the abstract pool. Under the abstraction to statuses, queued
  tasks, registered futures and worker positions, a new queue is an initial pool, and
  every operation in a reachable state is a step the pool allows (submit, cancel, skip, pick,
  end, kill, retry, wake, start, stop) or leaves it as it is.\<close>

theorem queue_refines_pool:
  assumes "queue_init q0" and "reaches queue_step q0 q" and "queue_step q q'"
  shows "pool_init (abs_queue q0) \<and> pool_step (abs_queue q) (abs_queue q')"
  using refine_step [OF assms(3) queue.inv_reachable [OF assms(1,2)]] refine_init [OF assms(1)] by simp

theorem queue_refines_pool_witness:
  "pool_step (abs_queue demo_running) (abs_queue demo_done)"
  using queue_refines_pool [OF queue_init_new demo_reach(2) q_finish [OF demo_done_eq(1)]] by blast



text \<open>A final status is final. Once a task is completed, failed or cancelled, no operation of
  the queue changes its status.\<close>

theorem queue_status_final:
  assumes "queue_init q0" and "reaches queue_step q0 q" and "reaches queue_step q q'"
    and "dget (q_tasks q) k = Some t" and "t_status t \<in> {COMPLETED, FAILED, CANCELLED}"
  shows "\<exists>t'. dget (q_tasks q') k = Some t' \<and> t_status t' = t_status t"
  using final_run [OF assms(3) queue.inv_reachable [OF assms(1,2)] _ assms(5), of k] assms(4) by auto

theorem queue_status_final_witness:
  "\<exists>t. dget (q_tasks (fst (cancel ''a'' demo_done))) ''a'' = Some t \<and> t_status t = COMPLETED"
proof -
  obtain t where t: "dget (q_tasks demo_done) ''a'' = Some t" "t_status t = COMPLETED" using demo_done_eq(2) by blast
  have r: "reaches queue_step (new_queue 1 1) demo_done" by (rule reaches_step [OF demo_reach(2) q_finish [OF demo_done_eq(1)]])
  show ?thesis
    using queue_status_final [OF queue_init_new r reaches_one [of queue_step, OF q_cancel] t(1)] t(2) by simp
qed

text \<open>C36: tasks are taken in order. A worker that takes an entry takes one whose priority comes
  before that of every other queued entry: a smaller number first, the older of equals.\<close>

theorem queue_priority_order:
  assumes "queue_init q0" and "reaches queue_step q0 q" and "worker_pick i now q = Some q'"
  shows "\<exists>p k h. q_heap q = (p, k) # h \<and> q_heap q' = h \<and>
    list_all (\<lambda>(p', k'). tp_priority p < tp_priority p' \<or> tp_priority p = tp_priority p' \<and> tp_created p \<le> tp_created p') h
    \<and> (q_workers q' = q_workers q \<or> q_workers q' = (q_workers q)[i := Executing k])"
proof -
  have s: "sorted (map fst (q_heap q))" using ordered.inv_reachable [OF assms(1,2)] .
  obtain p k h where heap: "q_heap q = (p, k) # h"
    using assms(3) by (auto simp: worker_pick_def split: if_splits list.splits)
  moreover have "q_heap q' = h" "q_workers q' = q_workers q \<or> q_workers q' = (q_workers q)[i := Executing k]"
    using assms(3) heap by (auto simp: worker_pick_def begin_task_def set_worker_def count_def put_task_obj_def
        add_metrics_def task_done_def Let_def split: if_splits option.splits)
  moreover have "list_all (\<lambda>(p', k'). p \<le> p') h" using s heap by (auto simp: list_all_iff)
  ultimately show ?thesis by (simp add: less_eq_task_priority_def case_prod_beta)
qed

theorem queue_priority_order_witness:
  "\<exists>p k h. q_heap demo_submitted = (p, k) # h \<and> q_heap demo_running = h"
  using queue_priority_order [OF queue_init_new demo_reach(1) demo_pick(1)] by blast

text \<open>Cancelling a running task counts it twice and ends its worker. The call adds one, the
  delivery of the cancellation adds one, and the worker that ran the task leaves its loop:
  the pool has one worker less, and starting the queue again does not replace it.\<close>

theorem cancel_running_double_count:
  assumes "queue_init q0" and "reaches queue_step q0 q" and "i < length (q_workers q)"
    and "q_workers q ! i = Executing k" and "\<not> q_shutdown q"
  shows "\<exists>q1 q2. cancel k q = (q1, True) \<and> finish i now Cancelled q1 = Some q2 \<and>
    tm_cancelled (q_metrics q2) = tm_cancelled (q_metrics q) + 2 \<and>
    q_workers q2 = (q_workers q)[i := Ended] \<and> start q2 = q2"
proof -
  have g: "good q" using queue.inv_reachable [OF assms(1,2)] .
  obtain t where t: "dget (q_tasks q) k = Some t" "k \<in> set (dkeys (q_running q))"
    by (rule good_held [OF g assms(3), of k]) (use assms(4) in auto)
  have st: "t_status t = RUNNING" using good_held_status(2) [OF g assms(3) _ t(1) assms(5,4)] assms(4) by simp
  have id: "t_id t = k" using g t(1) queue_wf_id by (auto simp: good_def)
  have c: "cancel k q = (count_cancelled q, True)"
    using t st by (simp add: cancel_def dmem_iff dkeys_def)
  let ?q = "count_cancelled (put_task_obj (t\<lparr>t_status := CANCELLED\<rparr>) (count_cancelled q))"
  have f: "finish i now Cancelled (count_cancelled q) = Some (set_worker i Ended (finalize k now ?q))"
    using assms t by (simp add: finish_def) (simp add: count_cancelled_def count_def add_metrics_def)
  have "tm_cancelled (q_metrics (finalize k now ?q)) = tm_cancelled (q_metrics ?q)"
    by (auto simp: finalize_def Let_def split: option.splits)
  then have "tm_cancelled (q_metrics (set_worker i Ended (finalize k now ?q))) = tm_cancelled (q_metrics q) + 2" by simp
  moreover have "q_workers (set_worker i Ended (finalize k now ?q)) = (q_workers q)[i := Ended]" by (simp add: set_worker_def)
  moreover from this have "start (set_worker i Ended (finalize k now ?q)) = set_worker i Ended (finalize k now ?q)"
    using assms(3) by (auto simp: start_def)
  ultimately show ?thesis using c f by blast
qed

theorem cancel_running_double_count_witness:
  "\<exists>q1 q2. cancel ''a'' demo_running = (q1, True) \<and> finish 0 2 Cancelled q1 = Some q2 \<and> q_workers q2 = [Ended]"
  using cancel_running_double_count [OF queue_init_new demo_reach(2), of 0 "''a''" 2] by (auto simp: demo_pick)



end
