(* ===== verification/Queue_Manager.thy ===== *)
theory Queue_Manager
  imports Queue_Properties
begin

text \<open>
  The named queues of \<open>TaskQueueManager\<close> (\<open>src/services/task_queue.py\<close>): registration with
  a default, lookup with its errors, submission through a name. The manager is a client of
  the keyed store of dictionaries; the loop of \<open>start\<close> and \<open>stop\<close> over all the queues is
  a map over the entries.
\<close>

record task_queue_manager =
  qm_queues :: "(string, task_queue) dict"
  qm_default :: "string option"

definition TaskQueueManager :: task_queue_manager where
  "TaskQueueManager = \<lparr>qm_queues = [], qm_default = None\<rparr>"

definition register_queue ::
  "real \<Rightarrow> string \<Rightarrow> nat \<Rightarrow> nat \<Rightarrow> real option \<Rightarrow> real \<Rightarrow> int \<Rightarrow> bool \<Rightarrow> task_queue_manager \<Rightarrow> task_queue_manager" where
  "register_queue now name max_workers maxsize rate timeout retries set_as_default m =
     (let q = AsyncTaskQueue now max_workers maxsize rate timeout retries [];
          m1 = m\<lparr>qm_queues := dset name q (qm_queues m)\<rparr>
      in if set_as_default \<or> qm_default m1 = None then m1\<lparr>qm_default := Some name\<rparr> else m1)"

definition on_queue :: "(task_queue \<Rightarrow> task_queue) \<Rightarrow> string \<Rightarrow> task_queue_manager \<Rightarrow> task_queue_manager" where
  "on_queue f name m = (case dget (qm_queues m) name of None \<Rightarrow> m
     | Some q \<Rightarrow> m\<lparr>qm_queues := dset name (f q) (qm_queues m)\<rparr>)"

definition on_queues :: "(task_queue \<Rightarrow> task_queue) \<Rightarrow> string option \<Rightarrow> task_queue_manager \<Rightarrow> task_queue_manager" where
  "on_queues f name m = (case name of
      Some (c # cs) \<Rightarrow> on_queue f (c # cs) m
    | _ \<Rightarrow> m\<lparr>qm_queues := map (\<lambda>(n, q). (n, f q)) (qm_queues m)\<rparr>)"

definition start_queues :: "string option \<Rightarrow> task_queue_manager \<Rightarrow> task_queue_manager" where
  "start_queues name m = on_queues start name m"

definition stop_queues :: "real \<Rightarrow> string option \<Rightarrow> task_queue_manager \<Rightarrow> task_queue_manager" where
  "stop_queues now name m = on_queues (stop now) name m"

text \<open>\<open>get_queue\<close>: the name it resolves to. A queue object is always true.\<close>

definition get_queue :: "string option \<Rightarrow> task_queue_manager \<Rightarrow> string result" where
  "get_queue name m = (case name of
      Some (c # cs) \<Rightarrow> (if dmem (c # cs) (qm_queues m) then Inr (c # cs)
        else Inl (Exn ''KeyError'' (''Queue not found: '' @ c # cs)))
    | _ \<Rightarrow> (case qm_default m of
          Some (c # cs) \<Rightarrow> (if dmem (c # cs) (qm_queues m) then Inr (c # cs)
            else Inl (Exn ''KeyError'' ''No default queue configured''))
        | _ \<Rightarrow> Inl (Exn ''KeyError'' ''No default queue configured'')))"

definition manager_submit ::
  "real \<Rightarrow> string \<Rightarrow> task_type \<Rightarrow> (string, json) dict \<Rightarrow> string option \<Rightarrow> bool \<Rightarrow> int \<Rightarrow> real option \<Rightarrow> int option
    \<Rightarrow> task_queue_manager \<Rightarrow> (task_queue_manager \<times> task) option result" where
  "manager_submit now uid ty payload queue_name fn priority timeout retries m =
     bindr (get_queue queue_name m) (\<lambda>n.
       case dget (qm_queues m) n of
         None \<Rightarrow> Inl (Exn ''KeyError'' n)
       | Some q \<Rightarrow> Inr (case submit now uid ty payload fn priority timeout retries q of
             None \<Rightarrow> None
           | Some (q', t) \<Rightarrow> Some (m\<lparr>qm_queues := dset n q' (qm_queues m)\<rparr>, t)))"

definition manager_ok :: "task_queue_manager \<Rightarrow> bool" where
  "manager_ok m \<longleftrightarrow> (case qm_default m of None \<Rightarrow> qm_queues m = [] | Some n \<Rightarrow> dmem n (qm_queues m))"

lemma manager_ok_new: "manager_ok TaskQueueManager"
  by (simp add: manager_ok_def TaskQueueManager_def)

lemma manager_ok_register: "manager_ok m \<Longrightarrow> manager_ok (register_queue now n a b r t k d m)"
  by (auto simp: manager_ok_def register_queue_def Let_def split: option.splits if_splits)

lemma get_queue_default:
  assumes "manager_ok m" "qm_queues m \<noteq> []" "qm_default m \<noteq> Some []"
  shows "\<exists>n. get_queue None m = Inr n \<and> dmem n (qm_queues m)"
  using assms by (auto simp: manager_ok_def get_queue_def split: option.splits list.splits)

lemma get_queue_found: "get_queue name m = Inr n \<Longrightarrow> dmem n (qm_queues m)"
  by (auto simp: get_queue_def split: option.splits list.splits if_splits)

lemma manager_submit_raises:
  "manager_submit now uid ty payload name fn pr tmo rt m = Inl e \<longleftrightarrow> get_queue name m = Inl e"
proof (cases "get_queue name m")
  case (Inr n)
  then have "dget (qm_queues m) n \<noteq> None" using get_queue_found by (auto simp: dmem_Some)
  with Inr show ?thesis by (auto simp: manager_submit_def)
qed (simp add: manager_submit_def)

text \<open>A submission touches the queue it names only.\<close>

lemma manager_submit_frame:
  assumes "manager_submit now uid ty payload name fn pr tmo rt m = Inr (Some (m', t))" "get_queue name m = Inr n" "n' \<noteq> n"
  shows "dget (qm_queues m') n' = dget (qm_queues m) n'"
  using assms by (auto simp: manager_submit_def split: option.splits)

end
