(* ===== verification/Cost_Tracker.thy ===== *)
theory Cost_Tracker
  imports State_Manager
begin

text \<open>
  The cost aggregator of \<open>src/observability/cost_tracker.py\<close>: costs by task and agent in
  the memory of a process, merged into a shared file. A file whose entries are not
  dictionaries of numbers is outside the model (\<open>None\<close>); costs are exact reals. The lock
  of the file covers only its reading, so \<open>persist\<close> is two steps, the reading and the
  writing of the merged view, between which another process may write.
\<close>

type_synonym costs = "(string, (string, real) dict) dict"

record cost_tracker =
  ct_filename :: string
  ct_data :: costs

section \<open>Memory\<close>

definition add_cost :: "string \<Rightarrow> string \<Rightarrow> real \<Rightarrow> costs \<Rightarrow> costs" where
  "add_cost task_id agent c d =
     (let agents = dgetd d task_id [] in dset task_id (dset agent (dgetd agents agent 0 + c) agents) d)"

definition agents_sum :: "(string, real) dict \<Rightarrow> real" where
  "agents_sum a = sum_list (dvalues a)"

definition get_task_spend :: "string \<Rightarrow> cost_tracker \<Rightarrow> real" where
  "get_task_spend task_id ct = agents_sum (dgetd (ct_data ct) task_id [])"

definition get_total_spend :: "cost_tracker \<Rightarrow> real" where
  "get_total_spend ct = sum_list (map agents_sum (dvalues (ct_data ct)))"

definition aggregate_by_agent :: "costs \<Rightarrow> (string, real) dict" where
  "aggregate_by_agent d = fold (\<lambda>a acc. fold (\<lambda>(g, c) acc. dset g (dgetd acc g 0 + c) acc) a acc) (dvalues d) []"

record cost_summary =
  cs_total :: real
  cs_by_task :: "(string, real) dict"
  cs_by_agent :: "(string, real) dict"

definition cost_get_summary :: "cost_tracker \<Rightarrow> cost_summary" where
  "cost_get_summary ct = \<lparr>cs_total = get_total_spend ct,
     cs_by_task = map (\<lambda>(k, v). (k, agents_sum v)) (ct_data ct),
     cs_by_agent = aggregate_by_agent (ct_data ct)\<rparr>"

section \<open>The file\<close>

definition costs_json :: "costs \<Rightarrow> (string, json) dict" where
  "costs_json d = map (\<lambda>(k, a). (k, JObj (map (\<lambda>(g, c). (g, JFloat c)) a))) d"

fun read_agents :: "(string \<times> json) list \<Rightarrow> (string, real) dict option" where
  "read_agents [] = Some []"
| "read_agents ((g, v) # kvs) = (case (v, read_agents kvs) of
      (JFloat c, Some r) \<Rightarrow> Some ((g, c) # r)
    | (JInt i, Some r) \<Rightarrow> Some ((g, of_int i) # r)
    | _ \<Rightarrow> None)"

fun read_tasks :: "(string \<times> json) list \<Rightarrow> costs option" where
  "read_tasks [] = Some []"
| "read_tasks ((k, v) # kvs) = (case v of
      JObj a \<Rightarrow> (case (read_agents a, read_tasks kvs) of (Some a', Some r) \<Rightarrow> Some ((k, a') # r) | _ \<Rightarrow> None)
    | _ \<Rightarrow> None)"

definition read_costs :: "string \<Rightarrow> fs \<Rightarrow> costs option" where
  "read_costs f w = (case dget (docs w) f of
      Some (Doc (JObj d)) \<Rightarrow> read_tasks d
    | _ \<Rightarrow> Some [])"

definition load_costs :: "string \<Rightarrow> fs \<Rightarrow> cost_tracker option" where
  "load_costs f w = map_option (\<lambda>d. \<lparr>ct_filename = f, ct_data = d\<rparr>) (read_costs f w)"

definition reset_costs :: "cost_tracker \<times> fs \<Rightarrow> cost_tracker \<times> fs" where
  "reset_costs = (\<lambda>(ct, w). (ct\<lparr>ct_data := []\<rparr>, w\<lparr>docs := ddel (ct_filename ct) (docs w)\<rparr>))"

text \<open>The merge: what the snapshot has wins, what only the file has is imported.\<close>

definition import_agents :: "(string, real) dict \<Rightarrow> (string, real) dict \<Rightarrow> (string, real) dict" where
  "import_agents disk a = fold (\<lambda>(g, c) a. if dmem g a then a else dset g c a) disk a"

definition merge_costs :: "costs \<Rightarrow> costs \<Rightarrow> costs" where
  "merge_costs snapshot disk_view = fold (\<lambda>(t, agents) m. case dget m t of
      None \<Rightarrow> dset t agents m
    | Some a \<Rightarrow> dset t (import_agents agents a) m) disk_view snapshot"

definition ensure_file :: "string \<Rightarrow> fs \<Rightarrow> fs" where
  "ensure_file f w = (if dmem f (docs w) then w else w\<lparr>docs := dset f Blank (docs w)\<rparr>)"

text \<open>The second half of \<open>_persist\<close>: merge with what was read, write, reflect into memory.\<close>

definition persist_write ::
  "fault \<Rightarrow> string \<Rightarrow> costs \<Rightarrow> costs \<Rightarrow> cost_tracker \<Rightarrow> fs \<Rightarrow> cost_tracker \<times> fs \<times> unit result" where
  "persist_write flt tmp snapshot disk_view ct w =
     (let merged = merge_costs snapshot disk_view in
      case atomic_write_json flt tmp (ct_filename ct) (costs_json merged) w of
        (w', Inl e) \<Rightarrow> (ct, w', Inl e)
      | (w', Inr _) \<Rightarrow> (ct\<lparr>ct_data := merged\<rparr>, w', Inr ()))"

definition record_cost ::
  "fault \<Rightarrow> string \<Rightarrow> string \<Rightarrow> string \<Rightarrow> real \<Rightarrow> cost_tracker \<Rightarrow> fs \<Rightarrow> (cost_tracker \<times> fs \<times> unit result) option" where
  "record_cost flt tmp task_id agent c ct w =
     (let ct1 = ct\<lparr>ct_data := add_cost task_id agent c (ct_data ct)\<rparr>;
          w1 = ensure_file (ct_filename ct) w
      in case read_costs (ct_filename ct) w1 of
           None \<Rightarrow> None
         | Some disk_view \<Rightarrow> Some (persist_write flt tmp (ct_data ct1) disk_view ct1 w1))"

section \<open>What the merge keeps\<close>

definition cost_at :: "costs \<Rightarrow> string \<Rightarrow> string \<Rightarrow> real option" where
  "cost_at d t g = (case dget d t of None \<Rightarrow> None | Some a \<Rightarrow> dget a g)"

lemma dget_import:
  "dwf disk \<Longrightarrow> dget (import_agents disk a) g = (case dget a g of Some c \<Rightarrow> Some c | None \<Rightarrow> dget disk g)"
  unfolding import_agents_def
proof (induction disk arbitrary: a)
  case (Cons x disk)
  obtain h c where x: "x = (h, c)" by fastforce
  with Cons.prems have wf: "dwf disk" and "dget disk h = None" by (auto simp: dwf_def map_of_eq_None_iff)
  with Cons.IH [OF wf] x show ?case by (auto simp: dmem_def split: option.splits)
qed (simp split: option.splits)

definition costs_wf :: "costs \<Rightarrow> bool" where
  "costs_wf d \<longleftrightarrow> dwf d \<and> list_all (\<lambda>(t, a). dwf a) d"

lemma cost_at_merge:
  "costs_wf disk \<Longrightarrow> cost_at (merge_costs snap disk) t g = (case cost_at snap t g of Some c \<Rightarrow> Some c | None \<Rightarrow> cost_at disk t g)"
  unfolding merge_costs_def
proof (induction disk arbitrary: snap)
  case (Cons x disk)
  obtain u agents where x: "x = (u, agents)" by fastforce
  with Cons.prems have wf: "costs_wf disk" "dwf agents" and un: "dget disk u = None"
    by (auto simp: costs_wf_def dwf_def map_of_eq_None_iff)
  show ?case
  proof (cases "dget snap u")
    case None
    with Cons.IH [OF wf(1)] x un show ?thesis by (auto simp: cost_at_def split: option.splits)
  next
    case (Some a)
    with Cons.IH [OF wf(1)] x un show ?thesis
      by (auto simp: cost_at_def dget_import [OF wf(2)] split: option.splits)
  qed
qed (simp add: cost_at_def split: option.splits)

lemma import_agents_same: "list_all (\<lambda>(g, c). dmem g a) disk \<Longrightarrow> import_agents disk a = a"
  unfolding import_agents_def by (induction disk) auto

lemma merge_costs_same:
  "list_all (\<lambda>(t, agents). \<exists>a. dget snap t = Some a \<and> list_all (\<lambda>(g, c). dmem g a) agents) disk \<Longrightarrow> merge_costs snap disk = snap"
  unfolding merge_costs_def
proof (induction disk)
  case (Cons x disk)
  then show ?case by (cases x) (auto simp: import_agents_same dset_same)
qed simp

lemma read_costs_json [simp]: "read_tasks (costs_json d) = Some d"
proof -
  have "read_agents (map (\<lambda>(g, c). (g, JFloat c)) a) = Some a" for a by (induction a) auto
  then show ?thesis unfolding costs_json_def by (induction d) auto
qed

section \<open>Totals\<close>

definition costs_total :: "costs \<Rightarrow> real" where
  "costs_total d = sum_list (map agents_sum (dvalues d))"

lemma dvalues_Cons [simp]: "dvalues (x # d) = snd x # dvalues d"
  by (simp add: dvalues_def)

lemma dvalues_Nil [simp]: "dvalues [] = []"
  by (simp add: dvalues_def)

lemma agents_sum_Cons [simp]: "agents_sum (x # a) = snd x + agents_sum a"
  by (simp add: agents_sum_def)

lemma agents_sum_Nil [simp]: "agents_sum [] = 0"
  by (simp add: agents_sum_def)

lemma agents_sum_dsum: "agents_sum a = dsum (\<lambda>c. c) a"
  by (induction a) auto

lemma costs_total_dsum: "costs_total d = dsum agents_sum d"
  unfolding costs_total_def by (induction d) auto

lemma agents_sum_dset:
  "dwf a \<Longrightarrow> agents_sum (dset g c a) = agents_sum a - dgetd a g 0 + c"
  by (simp add: agents_sum_dsum dsum_dset dgetd_def split: option.splits)

lemma costs_total_dset:
  "dwf d \<Longrightarrow> costs_total (dset t a d) = costs_total d - agents_sum (dgetd d t []) + agents_sum a"
  by (simp add: costs_total_dsum dsum_dset dgetd_def split: option.splits)

lemma costs_wf_get: "costs_wf d \<Longrightarrow> dwf (dgetd d t [])"
  by (auto simp: costs_wf_def dgetd_def list_all_iff split: option.splits dest: dget_in_set)

lemma costs_wf_dset: "costs_wf d \<Longrightarrow> dwf a \<Longrightarrow> costs_wf (dset t a d)"
  by (auto simp: costs_wf_def list_all_iff set_dset)

lemma costs_wf_add: "costs_wf d \<Longrightarrow> costs_wf (add_cost t g c d)"
  by (simp add: add_cost_def Let_def costs_wf_dset costs_wf_get)

lemma costs_total_add: "costs_wf d \<Longrightarrow> costs_total (add_cost t g c d) = costs_total d + c"
  using costs_wf_get [of d t]
  by (simp add: add_cost_def Let_def costs_total_dset agents_sum_dset costs_wf_def)

lemma cost_at_add:
  "cost_at (add_cost t g c d) t' g' = (if t' = t \<and> g' = g then Some ((case cost_at d t g of None \<Rightarrow> 0 | Some x \<Rightarrow> x) + c)
     else cost_at d t' g')"
  by (auto simp: cost_at_def add_cost_def Let_def dgetd_def split: option.splits)

lemma add_cost_covers:
  "costs_wf d \<Longrightarrow> list_all (\<lambda>(u, agents). \<exists>a. dget (add_cost t g c d) u = Some a \<and> list_all (\<lambda>(h, x). dmem h a) agents) d"
proof -
  assume wf: "costs_wf d"
  have "\<exists>a. dget (add_cost t g c d) u = Some a \<and> list_all (\<lambda>(h, x). dmem h a) agents" if "(u, agents) \<in> set d" for u agents
  proof -
    have u: "dget d u = Some agents" using wf that by (simp add: costs_wf_def dget_iff_set)
    have "list_all (\<lambda>(h, x). dmem h agents) agents" by (force simp: list_all_iff dmem_iff)
    with u show ?thesis by (auto simp: add_cost_def Let_def dgetd_def list_all_iff)
  qed
  then show ?thesis by (auto simp: list_all_iff)
qed

lemma by_agent_total:
  "agents_sum (fold (\<lambda>(g, c) acc. dset g (dgetd acc g 0 + c) acc) a acc) = agents_sum acc + agents_sum a
   \<and> dwf (fold (\<lambda>(g, c) acc. dset g (dgetd acc g 0 + c) acc) a acc)"
  if "dwf acc" for a acc
  using that by (induction a arbitrary: acc) (auto simp: agents_sum_dset)

lemma aggregate_total: "agents_sum (aggregate_by_agent d) = costs_total d"
proof -
  have "agents_sum (fold (\<lambda>a acc. fold (\<lambda>(g, c) acc. dset g (dgetd acc g 0 + c) acc) a acc) as acc)
      = agents_sum acc + sum_list (map agents_sum as)" if "dwf acc" for as acc
    using that
  proof (induction as arbitrary: acc)
    case (Cons a as)
    then show ?case using by_agent_total [OF Cons.prems, of a] by simp
  qed simp
  from this [of "[]" "dvalues d"] show ?thesis by (simp add: aggregate_by_agent_def costs_total_def)
qed

lemma by_task_total: "agents_sum (map (\<lambda>(k, v). (k, agents_sum v)) d) = costs_total d"
  unfolding costs_total_def by (induction d) auto

text \<open>A run of one process: the recorded costs, in order.\<close>

fun run_costs :: "string \<Rightarrow> (string \<times> string \<times> real) list \<Rightarrow> cost_tracker \<times> fs \<Rightarrow> (cost_tracker \<times> fs) option" where
  "run_costs tmp [] s = Some s"
| "run_costs tmp ((t, g, c) # rs) s = (case record_cost NoFault tmp t g c (fst s) (snd s) of
      None \<Rightarrow> None | Some (ct, w, r) \<Rightarrow> run_costs tmp rs (ct, w))"

definition synced :: "string \<Rightarrow> cost_tracker \<Rightarrow> fs \<Rightarrow> bool" where
  "synced tmp ct w \<longleftrightarrow> costs_wf (ct_data ct) \<and> tmp \<noteq> ct_filename ct \<and> \<not> dmem tmp (docs w) \<and>
     read_costs (ct_filename ct) w = Some (ct_data ct)"

lemma ensure_file_simps [simp]:
  "read_costs f (ensure_file f w) = read_costs f w"
  "dmem f (docs (ensure_file f w))"
  "tmp \<noteq> f \<Longrightarrow> dmem tmp (docs (ensure_file f w)) = dmem tmp (docs w)"
  by (auto simp: ensure_file_def read_costs_def dmem_def split: option.splits)

lemma persist_write_ok:
  assumes "tmp \<noteq> ct_filename ct" "\<not> dmem tmp (docs w)"
  shows "\<exists>w'. persist_write NoFault tmp snap disk ct w = (ct\<lparr>ct_data := merge_costs snap disk\<rparr>, w', Inr ()) \<and>
    read_costs (ct_filename ct) w' = Some (merge_costs snap disk) \<and> \<not> dmem tmp (docs w')"
proof -
  obtain w' r where a: "atomic_write_json NoFault tmp (ct_filename ct) (costs_json (merge_costs snap disk)) w = (w', r)" by fastforce
  from atomic_write_cases [OF assms(2,1), of NoFault "costs_json (merge_costs snap disk)"] a assms
  have "r = Inr ()" "dget (docs w') = (dget (docs w))(ct_filename ct \<mapsto> Doc (JObj (costs_json (merge_costs snap disk))))" by auto
  with a assms show ?thesis by (auto simp: persist_write_def Let_def read_costs_def dmem_def)
qed

lemma record_cost_synced:
  assumes "synced tmp ct w"
  shows "\<exists>w'. record_cost NoFault tmp t g c ct w = Some (ct\<lparr>ct_data := add_cost t g c (ct_data ct)\<rparr>, w', Inr ()) \<and>
    synced tmp (ct\<lparr>ct_data := add_cost t g c (ct_data ct)\<rparr>) w'"
proof -
  let ?ct = "ct\<lparr>ct_data := add_cost t g c (ct_data ct)\<rparr>"
  have s: "costs_wf (ct_data ct)" "tmp \<noteq> ct_filename ct" "\<not> dmem tmp (docs w)" "read_costs (ct_filename ct) w = Some (ct_data ct)"
    using assms by (auto simp: synced_def)
  have m: "merge_costs (ct_data ?ct) (ct_data ct) = ct_data ?ct"
    using merge_costs_same [OF add_cost_covers [OF s(1)]] by simp
  obtain w' where "persist_write NoFault tmp (ct_data ?ct) (ct_data ct) ?ct (ensure_file (ct_filename ct) w) = (?ct, w', Inr ())"
    "read_costs (ct_filename ct) w' = Some (ct_data ?ct)" "\<not> dmem tmp (docs w')"
    using persist_write_ok [of tmp ?ct "ensure_file (ct_filename ct) w" "ct_data ?ct" "ct_data ct"] s m by auto
  with s show ?thesis by (auto simp: record_cost_def Let_def synced_def costs_wf_add)
qed



text \<open>What another process wrote survives, except where both wrote. After a successful record
  over a readable file, the file holds this process's cost wherever its memory has one and
  the file's cost elsewhere; so for the recorded key itself, increments that another
  process added since this one loaded are lost.\<close>

theorem cost_merge_exact:
  assumes "read_costs (ct_filename ct) w = Some disk" and "costs_wf disk"
    and "\<not> dmem tmp (docs w)" and "tmp \<noteq> ct_filename ct"
  shows "\<exists>ct' w' merged. record_cost NoFault tmp t g c ct w = Some (ct', w', Inr ()) \<and>
    read_costs (ct_filename ct) w' = Some merged \<and>
    cost_at merged t g = Some ((case cost_at (ct_data ct) t g of None \<Rightarrow> 0 | Some x \<Rightarrow> x) + c) \<and>
    (\<forall>u h. cost_at merged u h = (if (u, h) = (t, g) then cost_at merged t g
       else case cost_at (ct_data ct) u h of Some x \<Rightarrow> Some x | None \<Rightarrow> cost_at disk u h))"
proof -
  let ?ct = "ct\<lparr>ct_data := add_cost t g c (ct_data ct)\<rparr>"
  obtain w' where p: "persist_write NoFault tmp (ct_data ?ct) disk ?ct (ensure_file (ct_filename ct) w) =
      (?ct\<lparr>ct_data := merge_costs (ct_data ?ct) disk\<rparr>, w', Inr ())"
    "read_costs (ct_filename ct) w' = Some (merge_costs (ct_data ?ct) disk)"
    using persist_write_ok [of tmp ?ct "ensure_file (ct_filename ct) w" "ct_data ?ct" disk] assms by auto
  then have "record_cost NoFault tmp t g c ct w = Some (?ct\<lparr>ct_data := merge_costs (ct_data ?ct) disk\<rparr>, w', Inr ())"
    using assms by (simp add: record_cost_def Let_def)
  with p(2) show ?thesis
    by (auto simp: cost_at_merge [OF assms(2)] cost_at_add)
qed

theorem cost_merge_exact_witness:
  "\<exists>ct' w' merged. record_cost NoFault ''t'' ''a'' ''x'' 1 \<lparr>ct_filename = ''f'', ct_data = []\<rparr>
      \<lparr>docs = [(''f'', Doc (JObj [(''a'', JObj [(''x'', JFloat 5)])]))], logs = []\<rparr> = Some (ct', w', Inr ()) \<and>
    read_costs ''f'' w' = Some merged \<and> cost_at merged ''a'' ''x'' = Some 1"
  using cost_merge_exact [of "\<lparr>ct_filename = ''f'', ct_data = []\<rparr>"
      "\<lparr>docs = [(''f'', Doc (JObj [(''a'', JObj [(''x'', JFloat 5)])]))], logs = []\<rparr>" "[(''a'', [(''x'', 5)])]" "''t''" "''a''" "''x''" 1]
  by (auto simp: read_costs_def costs_wf_def dwf_def dmem_def cost_at_def)

text \<open>
  The gap in the lock: a process that read the file before another one wrote it writes the
  merge of its own view with the stale one, whatever the file holds by then.
\<close>

lemma cost_stale_read_loses:
  assumes "costs_wf stale" "\<not> dmem tmp (docs w1)" "tmp \<noteq> ct_filename ct"
    "cost_at snap u h = None" "cost_at stale u h = None"
  shows "\<exists>ct' w' merged. persist_write NoFault tmp snap stale ct w1 = (ct', w', Inr ()) \<and>
    read_costs (ct_filename ct) w' = Some merged \<and> cost_at merged u h = None"
proof -
  obtain w' where "persist_write NoFault tmp snap stale ct w1 = (ct\<lparr>ct_data := merge_costs snap stale\<rparr>, w', Inr ())"
    "read_costs (ct_filename ct) w' = Some (merge_costs snap stale)"
    using persist_write_ok [OF assms(3,2), of snap stale] by blast
  then show ?thesis using assms by (auto simp: cost_at_merge)
qed

end
