(* ===== verification/FinOps.thy ===== *)
theory FinOps
  imports Cost_Tracker
begin

text \<open>
  The cost tools of \<open>src/agents/finops.py\<close>: reports over the cost tracker, estimates,
  budget status and alerts, usage tracking, cheaper models, the legacy quota check. The
  configured budget and thresholds are arguments (the module reads them from the
  environment), as is the text of the time; amounts are exact reals. Log messages are not
  modelled; \<open>recommend_caching_strategy\<close> is not either: its verdict on one input hangs on
  the rounding of \<open>0.6 - 0.2\<close>.
\<close>

section \<open>Tables\<close>

record model_cost =
  mc_input :: real
  mc_output :: real
  mc_category :: string

definition MODEL_COSTS :: "(string, model_cost) dict" where
  "MODEL_COSTS =
    [(''ollama/kimi-k2.6:cloud'', \<lparr>mc_input = 5 / 1000, mc_output = 15 / 1000, mc_category = ''premium''\<rparr>),
     (''ollama/kimi-k2.6:cloud-mini'', \<lparr>mc_input = 15 / 100000, mc_output = 6 / 10000, mc_category = ''economy''\<rparr>),
     (''ollama/glm-5.1:cloud'', \<lparr>mc_input = 8 / 1000, mc_output = 24 / 1000, mc_category = ''premium''\<rparr>),
     (''ollama/gemma4:cloud'', \<lparr>mc_input = 5 / 10000, mc_output = 15 / 10000, mc_category = ''standard''\<rparr>),
     (''ollama/qwen3.5:cloud'', \<lparr>mc_input = 4 / 10000, mc_output = 12 / 10000, mc_category = ''standard''\<rparr>),
     (''ollama/minimax-m2.7:cloud'', \<lparr>mc_input = 2 / 1000, mc_output = 6 / 1000, mc_category = ''standard''\<rparr>)]"

definition CHEAPER_ALTERNATIVES :: "(string, string list) dict" where
  "CHEAPER_ALTERNATIVES =
    [(''ollama/kimi-k2.6:cloud'', [''ollama/kimi-k2.6:cloud-mini'', ''ollama/gemma4:cloud'']),
     (''ollama/glm-5.1:cloud'', [''ollama/kimi-k2.6:cloud-mini'', ''ollama/gemma4:cloud'', ''ollama/minimax-m2.7:cloud'']),
     (''ollama/gemma4:cloud'', [''ollama/kimi-k2.6:cloud-mini'']),
     (''ollama/minimax-m2.7:cloud'', [''ollama/kimi-k2.6:cloud-mini'', ''ollama/qwen3.5:cloud''])]"

record budget_alert =
  ba_threshold :: real
  ba_type :: string
  ba_current :: real
  ba_triggered :: bool
  ba_task_id :: "string option"
  ba_message :: string
  ba_created :: string
  ba_triggered_at :: "string option"

definition opt_str :: "string option \<Rightarrow> json" where
  "opt_str v = (case v of None \<Rightarrow> JNull | Some s \<Rightarrow> JStr s)"

definition alert_dict :: "budget_alert \<Rightarrow> json" where
  "alert_dict a = JObj [(''threshold_amount'', JFloat (ba_threshold a)), (''alert_type'', JStr (ba_type a)),
     (''current_spend'', JFloat (ba_current a)), (''is_triggered'', JBool (ba_triggered a)),
     (''task_id'', opt_str (ba_task_id a)), (''message'', JStr (ba_message a)), (''created_at'', JStr (ba_created a)),
     (''triggered_at'', opt_str (ba_triggered_at a))]"

record model_usage =
  mu_model :: string
  mu_agent :: string
  mu_tokens :: int
  mu_cost :: real
  mu_timestamp :: string

definition usage_dict :: "model_usage \<Rightarrow> json" where
  "usage_dict u = JObj [(''model_name'', JStr (mu_model u)), (''agent_name'', JStr (mu_agent u)),
     (''token_count'', JInt (mu_tokens u)), (''cost_usd'', JFloat (mu_cost u)), (''timestamp'', JStr (mu_timestamp u))]"

definition append_to_jsonl :: "string \<Rightarrow> json \<Rightarrow> fs \<Rightarrow> fs" where
  "append_to_jsonl path v w = w\<lparr>logs := dset path (dgetd (logs w) path [] @ [Rec v]) (logs w)\<rparr>"

section \<open>Reports and estimates\<close>

definition amounts :: "(string, real) dict \<Rightarrow> json" where
  "amounts d = JObj (map (\<lambda>(k, c). (k, JFloat c)) d)"

definition get_current_costs :: "string \<Rightarrow> cost_tracker \<Rightarrow> json" where
  "get_current_costs now ct = (let s = cost_get_summary ct in
     JObj [(''current_total_usd'', JFloat (cs_total s)), (''by_task'', amounts (cs_by_task s)),
       (''by_agent'', amounts (cs_by_agent s)), (''timestamp'', JStr now)])"

definition get_cost_breakdown :: "string \<Rightarrow> string \<Rightarrow> cost_tracker \<Rightarrow> json" where
  "get_cost_breakdown now group_by ct = (let s = cost_get_summary ct;
       (key, breakdown) = (if group_by = ''agent'' then (''breakdown_by_agent'', cs_by_agent s)
         else (''breakdown_by_task'', cs_by_task s))
     in JObj [(key, amounts breakdown), (''total_spend_usd'', JFloat (cs_total s)), (''timestamp'', JStr now)])"

definition complexity_multipliers :: "(string, real) dict" where
  "complexity_multipliers = [(''low'', 1), (''medium'', 5 / 2), (''high'', 5)]"

record cost_estimate =
  ce_cost :: real
  ce_confidence :: real
  ce_breakdown :: "(string \<times> int \<times> real) list"
  ce_tokens :: int
  ce_complexity :: string

definition estimate_task_cost :: "string list \<Rightarrow> string \<Rightarrow> int option \<Rightarrow> cost_estimate result" where
  "estimate_task_cost expected_agents complexity per_call =
     (let base_tokens = (case per_call of None \<Rightarrow> 2000 | Some n \<Rightarrow> if n = 0 then 2000 else n);
          multiplier = dgetd complexity_multipliers complexity (5 / 2);
          x = of_int base_tokens * multiplier;
          tokens = (if 0 \<le> x then \<lfloor>x\<rfloor> else \<lceil>x\<rceil>);
          agent_cost = of_int tokens / 1000 * (5 / 1000);
          total_cost = sum_list (map (\<lambda>a. agent_cost) expected_agents)
      in case dget complexity_multipliers complexity of
           None \<Rightarrow> Inl (Exn ''KeyError'' (repr_str complexity))
         | Some k \<Rightarrow> Inr \<lparr>ce_cost = round_to 6 total_cost, ce_confidence = round_to 2 (1 - 1 / 10 * k),
             ce_breakdown = map (\<lambda>a. (a, tokens, round_to 6 agent_cost)) expected_agents,
             ce_tokens = tokens * int (length expected_agents), ce_complexity = complexity\<rparr>)"

section \<open>Budget\<close>

datatype budget_level = WITHIN_BUDGET | WARNING | APPROACHING_LIMIT | BUDGET_EXCEEDED

record budget_status =
  bs_status :: budget_level
  bs_spend :: real
  bs_budget :: real
  bs_remaining :: real
  bs_percent :: real
  bs_message :: string

definition check_budget_status :: "real \<Rightarrow> cost_tracker \<Rightarrow> budget_status" where
  "check_budget_status budget_usd ct =
     (let spend = get_total_spend ct;
          percent = (if 0 < budget_usd then spend / budget_usd * 100 else 0);
          (st, msg) =
            (if budget_usd < spend then (BUDGET_EXCEEDED,
               ''Budget exceeded! Spent $'' @ fmt_fixed 2 spend @ '' of $'' @ fmt_fixed 2 budget_usd)
             else if 90 \<le> percent then (APPROACHING_LIMIT,
               ''Budget alert: '' @ fmt_fixed 1 percent @ ''% used ($'' @ fmt_fixed 2 spend @ '' / $'' @ fmt_fixed 2 budget_usd @ '')'')
             else if 75 \<le> percent then (WARNING, ''Budget warning: '' @ fmt_fixed 1 percent @ ''% used'')
             else (WITHIN_BUDGET,
               ''Budget healthy: '' @ fmt_fixed 1 percent @ ''% used ($'' @ fmt_fixed 2 spend @ '' / $'' @ fmt_fixed 2 budget_usd @ '')''))
      in \<lparr>bs_status = st, bs_spend = spend, bs_budget = budget_usd, bs_remaining = round_to 6 (budget_usd - spend),
          bs_percent = round_to 2 percent, bs_message = msg\<rparr>)"

definition set_budget_alert ::
  "string \<Rightarrow> string \<Rightarrow> real \<Rightarrow> string \<Rightarrow> string option \<Rightarrow> string option \<Rightarrow> cost_tracker \<Rightarrow> fs \<Rightarrow> fs \<times> budget_alert" where
  "set_budget_alert alerts_file now threshold alert_type task_id message ct w =
     (let spend = get_total_spend ct; trig = (threshold \<le> spend);
          dflt = ''Alert: Spending has reached $'' @ fmt_fixed 2 spend @ '' (threshold: $'' @ fmt_fixed 2 threshold @ '')'';
          a = \<lparr>ba_threshold = threshold, ba_type = alert_type, ba_current = spend, ba_triggered = trig, ba_task_id = task_id,
               ba_message = (case message of None \<Rightarrow> dflt | Some m \<Rightarrow> if m = [] then dflt else m),
               ba_created = now, ba_triggered_at = (if trig then Some now else None)\<rparr>
      in (append_to_jsonl alerts_file (alert_dict a) w, a))"

record recommendation =
  rec_category :: string
  rec_text :: string
  rec_priority :: string
  rec_savings :: int

definition get_budget_recommendations :: "real \<Rightarrow> cost_tracker \<Rightarrow> recommendation list" where
  "get_budget_recommendations budget_usd ct =
     (let s = cost_get_summary ct; spend = cs_total s;
          r1 = (if 0 < budget_usd \<and> 8 / 10 < spend / budget_usd then
            [\<lparr>rec_category = ''cost_control'',
              rec_text = ''Budget utilization is high. Consider reviewing task complexity assignments.'',
              rec_priority = ''high'', rec_savings = 15\<rparr>] else []);
          r2 = concat (map (\<lambda>(agent, cost).
            let p = (if 0 < spend then cost / spend * 100 else 0) in
            if 50 < p then
              [\<lparr>rec_category = ''agent_optimization'',
                rec_text = agent @ '' accounts for '' @ fmt_fixed 1 p @ ''% of costs. Review its usage patterns.'',
                rec_priority = ''medium'', rec_savings = 10\<rparr>] else []) (cs_by_agent s))
      in r1 @ r2 @
        [\<lparr>rec_category = ''model_selection'',
          rec_text = ''Use 'suggest_cheaper_alternative' tool to find cost-effective model options'',
          rec_priority = ''low'', rec_savings = 25\<rparr>,
         \<lparr>rec_category = ''caching'', rec_text = ''Enable response caching for repeated API calls'',
          rec_priority = ''low'', rec_savings = 20\<rparr>])"

definition track_model_usage ::
  "fault \<Rightarrow> string \<Rightarrow> string \<Rightarrow> string \<Rightarrow> string \<Rightarrow> string \<Rightarrow> int \<Rightarrow> real \<Rightarrow> cost_tracker \<Rightarrow> fs
    \<Rightarrow> (cost_tracker \<times> fs \<times> unit result) option" where
  "track_model_usage flt tmp usage_file now model_name agent_name tokens cost ct w =
     (let u = \<lparr>mu_model = model_name, mu_agent = agent_name, mu_tokens = tokens, mu_cost = cost, mu_timestamp = now\<rparr>
      in record_cost flt tmp (''model_usage_'' @ agent_name) agent_name cost ct (append_to_jsonl usage_file (usage_dict u) w))"

text \<open>The legacy check records the cost before it compares.\<close>

definition check_quota ::
  "real \<Rightarrow> fault \<Rightarrow> string \<Rightarrow> string \<Rightarrow> real \<Rightarrow> cost_tracker \<Rightarrow> fs \<Rightarrow> (cost_tracker \<times> fs \<times> (bool \<times> real) result) option" where
  "check_quota budget_usd flt tmp task_id cost ct w =
     (case record_cost flt tmp task_id ''system'' cost ct w of
        None \<Rightarrow> None
      | Some (ct', w', Inl e) \<Rightarrow> Some (ct', w', Inl e)
      | Some (ct', w', Inr _) \<Rightarrow> Some (ct', w', Inr (get_total_spend ct' \<le> budget_usd, get_total_spend ct')))"

definition get_report :: "cost_tracker \<Rightarrow> cost_summary" where
  "get_report ct = cost_get_summary ct"

section \<open>Cheaper models and expensive operations\<close>

record suggestion =
  sg_model :: string
  sg_category :: string
  sg_savings :: real
  sg_tradeoffs :: "string list"

definition avg_cost :: "model_cost \<Rightarrow> real" where
  "avg_cost m = (mc_input m + mc_output m) / 2"

text \<open>\<open>MODEL_COSTS[model_name]\<close> raises \<open>KeyError\<close> for an unknown model.\<close>

definition suggest_one :: "string \<Rightarrow> string \<Rightarrow> suggestion list result" where
  "suggest_one model_name alt = (case dget MODEL_COSTS alt of
      None \<Rightarrow> Inr []
    | Some info \<Rightarrow> (case dget MODEL_COSTS model_name of
          None \<Rightarrow> Inl (Exn ''KeyError'' (repr_str model_name))
        | Some m \<Rightarrow> Inr [\<lparr>sg_model = alt, sg_category = mc_category info,
            sg_savings = round_to 1 (if 0 < avg_cost m then (avg_cost m - avg_cost info) / avg_cost m * 100 else 0),
            sg_tradeoffs = (if mc_category info = ''economy''
                then [''May have reduced capability for complex reasoning'', ''Faster response times'']
              else if mc_category info = ''standard'' then [''Good balance of cost and capability''] else [])\<rparr>]))"

fun suggest_all :: "string \<Rightarrow> string list \<Rightarrow> suggestion list result" where
  "suggest_all m [] = Inr []"
| "suggest_all m (a # as) = bindr (suggest_one m a) (\<lambda>s. bindr (suggest_all m as) (\<lambda>ss. Inr (s @ ss)))"

datatype advice = NoAlternative string | Alternatives "suggestion list" string

definition suggest_cheaper_alternative :: "string \<Rightarrow> advice result" where
  "suggest_cheaper_alternative model_name =
     (let alternatives = dgetd CHEAPER_ALTERNATIVES model_name [] in
      bindr (suggest_all model_name alternatives) (\<lambda>suggestions.
        if alternatives = [] then Inr (NoAlternative
          (model_name @ '' is already economical or no cheaper alternatives configured''))
        else case suggestions of
            [] \<Rightarrow> Inl (Exn ''IndexError'' ''list index out of range'')
          | s # _ \<Rightarrow> Inr (Alternatives suggestions
              (''Consider '' @ sg_model s @ '' for '' @ fmt_fixed 0 (sg_savings s) @ ''% savings''))))"

definition flag_expensive_operation :: "real \<Rightarrow> real \<Rightarrow> real \<Rightarrow> string option \<times> string list" where
  "flag_expensive_operation expensive high cost =
     (let reason = (if high \<le> cost then Some (''Very high cost operation ($'' @ fmt_fixed 2 cost @
            '') exceeds threshold ($'' @ fmt_fixed 2 high @ '')'')
          else if expensive \<le> cost then Some (''Expensive operation ($'' @ fmt_fixed 2 cost @ '') flagged for review'')
          else None)
      in (reason, if reason = None then [] else [''Consider batching operations to reduce costs'',
           ''Review if operation can use cheaper model alternatives'', ''Check if caching can be applied'']))"

section \<open>Properties\<close>

lemma bindr_split_iff: "(\<exists>x. bindr r f = Inr x \<and> P x) \<longleftrightarrow> (\<exists>y. r = Inr y \<and> (\<exists>x. f y = Inr x \<and> P x))"
  by (cases r) auto

lemma round_to_ge: "of_int k / 10 ^ n \<le> x \<Longrightarrow> of_int k / 10 ^ n \<le> round_to n x"
proof -
  assume "of_int k / 10 ^ n \<le> x"
  then have "of_int k \<le> x * 10 ^ n" by (simp add: field_simps)
  from round_even_mono [OF this] have "k \<le> round_even (x * 10 ^ n)" by simp
  then show ?thesis by (simp add: round_to_def divide_right_mono)
qed

definition strictly_cheaper :: "string \<Rightarrow> string \<Rightarrow> bool" where
  "strictly_cheaper alt m \<longleftrightarrow> (case (dget MODEL_COSTS alt, dget MODEL_COSTS m) of
     (Some a, Some b) \<Rightarrow> avg_cost a < avg_cost b | _ \<Rightarrow> False)"

lemma alternatives_cheaper:
  "dget CHEAPER_ALTERNATIVES m = Some alts \<Longrightarrow>
     alts \<noteq> [] \<and> list_all (\<lambda>a. strictly_cheaper a m) alts"
  by (auto simp: CHEAPER_ALTERNATIVES_def strictly_cheaper_def MODEL_COSTS_def avg_cost_def split: if_splits)

lemma suggest_one_known:
  "strictly_cheaper a m \<Longrightarrow> \<exists>s. suggest_one m a = Inr [s] \<and> sg_model s = a \<and> 0 \<le> sg_savings s"
proof -
  assume c: "strictly_cheaper a m"
  then obtain x y where xy: "dget MODEL_COSTS a = Some x" "dget MODEL_COSTS m = Some y" "avg_cost x < avg_cost y"
    by (auto simp: strictly_cheaper_def split: option.splits)
  then have "0 \<le> (if 0 < avg_cost y then (avg_cost y - avg_cost x) / avg_cost y * 100 else 0)" by simp
  then have "0 \<le> round_to 1 (if 0 < avg_cost y then (avg_cost y - avg_cost x) / avg_cost y * 100 else 0)"
    using round_to_ge [of 0 1] by (simp del: split_paired_All)
  with xy show ?thesis by (simp add: suggest_one_def)
qed

lemma suggest_all_known:
  "list_all (\<lambda>a. strictly_cheaper a m) alts \<Longrightarrow>
     \<exists>ss. suggest_all m alts = Inr ss \<and> map sg_model ss = alts \<and> list_all (\<lambda>s. 0 \<le> sg_savings s) ss"
proof (induction alts)
  case (Cons a alts)
  then obtain s ss where "suggest_one m a = Inr [s]" "sg_model s = a" "0 \<le> sg_savings s" "suggest_all m alts = Inr ss"
    "map sg_model ss = alts" "list_all (\<lambda>s. 0 \<le> sg_savings s) ss"
    using suggest_one_known [of a m] by auto
  then show ?case by simp
qed simp

text \<open>A suggestion is really cheaper, and asking never fails. For every model name the tool
  answers; what it suggests are the configured alternatives in order, each strictly cheaper
  on average than the model and shown with a saving that is not negative.\<close>

theorem suggest_cheaper_sound:
  "\<exists>a. suggest_cheaper_alternative m = Inr a \<and>
     (case a of
        NoAlternative msg \<Rightarrow> dgetd CHEAPER_ALTERNATIVES m [] = []
      | Alternatives ss msg \<Rightarrow> ss \<noteq> [] \<and> map sg_model ss = dgetd CHEAPER_ALTERNATIVES m [] \<and>
          list_all (\<lambda>s. strictly_cheaper (sg_model s) m \<and> 0 \<le> sg_savings s) ss)"
proof (cases "dget CHEAPER_ALTERNATIVES m")
  case None
  then show ?thesis by (simp add: suggest_cheaper_alternative_def dgetd_def)
next
  case (Some alts)
  note alt = alternatives_cheaper [OF Some]
  then obtain ss where ss: "suggest_all m alts = Inr ss" "map sg_model ss = alts" "list_all (\<lambda>s. 0 \<le> sg_savings s) ss"
    using suggest_all_known [of m alts] by auto
  then have "list_all (\<lambda>s. strictly_cheaper (sg_model s) m) ss" using alt by (auto simp: list_all_iff)
  moreover from ss alt obtain s0 ss' where "ss = s0 # ss'" by (cases ss) auto
  ultimately show ?thesis using ss alt Some
    by (auto simp: suggest_cheaper_alternative_def dgetd_def list_all_iff)
qed

text \<open>An unknown complexity is not estimated. The tool has a default multiplier for it, but
  looks the complexity up again for the confidence and raises; for the three known values
  it never raises and estimates the same tokens and cost for every agent.\<close>

theorem estimate_unknown_complexity_raises:
  "(case estimate_task_cost agents c n of
      Inl e \<Rightarrow> exn_type e = ''KeyError'' \<and> c \<notin> {''low'', ''medium'', ''high''}
    | Inr est \<Rightarrow> c \<in> {''low'', ''medium'', ''high''} \<and> map fst (ce_breakdown est) = agents \<and>
        (\<exists>k x. ce_breakdown est = map (\<lambda>a. (a, k, x)) agents \<and> ce_tokens est = k * int (length agents)))"
  by (auto simp: estimate_task_cost_def Let_def complexity_multipliers_def o_def)

definition severity :: "budget_level \<Rightarrow> nat" where
  "severity b = (case b of WITHIN_BUDGET \<Rightarrow> 0 | WARNING \<Rightarrow> 1 | APPROACHING_LIMIT \<Rightarrow> 2 | BUDGET_EXCEEDED \<Rightarrow> 3)"

text \<open>Spending never improves the status. For one budget, a tracker that has spent at least as
  much is at least as severe; the exceeded status is reported exactly above the budget.\<close>

theorem budget_status_monotone:
  assumes "get_total_spend a \<le> get_total_spend b"
  shows "severity (bs_status (check_budget_status budget a)) \<le> severity (bs_status (check_budget_status budget b)) \<and>
    (bs_status (check_budget_status budget b) = BUDGET_EXCEEDED \<longleftrightarrow> budget < get_total_spend b)"
proof -
  have "0 < budget \<Longrightarrow> get_total_spend a / budget * 100 \<le> get_total_spend b / budget * 100"
    using assms by (simp add: divide_right_mono)
  then show ?thesis using assms by (auto simp: check_budget_status_def Let_def severity_def)
qed

theorem budget_status_monotone_witness:
  "severity (bs_status (check_budget_status 10 \<lparr>ct_filename = [], ct_data = []\<rparr>)) \<le>
   severity (bs_status (check_budget_status 10 \<lparr>ct_filename = [], ct_data = [(''t'', [(''a'', 8)])]\<rparr>))"
  using budget_status_monotone [of "\<lparr>ct_filename = [], ct_data = []\<rparr>" "\<lparr>ct_filename = [], ct_data = [(''t'', [(''a'', 8)])]\<rparr>" 10]
  by (simp add: get_total_spend_def)

text \<open>A quota check on a synchronised tracker: what it refuses, it has recorded all the same.\<close>

lemma check_quota_records:
  assumes "synced tmp ct w"
  shows "\<exists>ct' w'. check_quota budget NoFault tmp task c ct w =
      Some (ct', w', Inr (get_total_spend ct + c \<le> budget, get_total_spend ct + c)) \<and>
    get_total_spend ct' = get_total_spend ct + c"
proof -
  have wf: "costs_wf (ct_data ct)" using assms by (simp add: synced_def)
  have "get_total_spend (ct\<lparr>ct_data := add_cost task ''system'' c (ct_data ct)\<rparr>) = get_total_spend ct + c"
    using costs_total_add [OF wf, of task "''system''" c] by (simp add: get_total_spend_def costs_total_def)
  with record_cost_synced [OF assms, of task "''system''" c] show ?thesis by (auto simp: check_quota_def)
qed

end
