(* ===== verification/Tenants.thy ===== *)
theory Tenants
  imports PyText
begin

text \<open>
  The tenant registry of \<open>src/services/tenant_manager.py\<close>: creation with its validation,
  update, deletion, and the file names it derives. Paths follow pathlib on the names the
  manager uses: a normalised base directory and a file name without separators.
\<close>

record tenant =
  te_id :: string
  te_name :: string
  te_config :: "(string, json) dict"

definition value_error :: "string \<Rightarrow> exn" where
  "value_error m = Exn ''ValueError'' m"

text \<open>\<open>Tenant(...)\<close> with \<open>__post_init__\<close>.\<close>

definition bad_tenant_char :: "char \<Rightarrow> bool" where
  "bad_tenant_char c \<longleftrightarrow> c = CHR ''/'' \<or> c = CHR 0x5C"

definition Tenant :: "string \<Rightarrow> string \<Rightarrow> (string, json) dict \<Rightarrow> tenant result" where
  "Tenant tid name config =
     (if tid = [] then Inl (value_error ''Tenant ID cannot be empty'')
      else if list_ex bad_tenant_char tid then Inl (value_error ''Tenant ID cannot contain path separators'')
      else Inr \<lparr>te_id = tid, te_name = name, te_config = config\<rparr>)"

record tenant_manager =
  tn_base :: string
  tn_tenants :: "(string, tenant) dict"

definition DEFAULT_TENANT_ID :: string where
  "DEFAULT_TENANT_ID = ''default''"

definition ensure_default_tenant :: "tenant_manager \<Rightarrow> tenant_manager" where
  "ensure_default_tenant m = (if dmem DEFAULT_TENANT_ID (tn_tenants m) then m
     else case Tenant DEFAULT_TENANT_ID ''Default Tenant'' [] of
         Inl e \<Rightarrow> m
       | Inr t \<Rightarrow> m\<lparr>tn_tenants := dset DEFAULT_TENANT_ID t (tn_tenants m)\<rparr>)"

definition TenantManager :: "string \<Rightarrow> tenant_manager" where
  "TenantManager base = ensure_default_tenant \<lparr>tn_base = base, tn_tenants = []\<rparr>"

definition create_tenant :: "string \<Rightarrow> string \<Rightarrow> (string, json) dict option \<Rightarrow> tenant_manager \<Rightarrow> tenant_manager \<times> tenant result" where
  "create_tenant tid name config m =
     (if dmem tid (tn_tenants m) then (m, Inl (value_error (''Tenant '' @ repr_str tid @ '' already exists'')))
      else case Tenant tid name (case config of None \<Rightarrow> [] | Some c \<Rightarrow> c) of
          Inl e \<Rightarrow> (m, Inl e)
        | Inr t \<Rightarrow> (m\<lparr>tn_tenants := dset tid t (tn_tenants m)\<rparr>, Inr t))"

definition get_tenant :: "string \<Rightarrow> tenant_manager \<Rightarrow> tenant option" where
  "get_tenant tid m = dget (tn_tenants m) tid"

definition get_or_create_tenant ::
  "string \<Rightarrow> string \<Rightarrow> (string, json) dict option \<Rightarrow> tenant_manager \<Rightarrow> tenant_manager \<times> tenant result" where
  "get_or_create_tenant tid name config m = (case get_tenant tid m of
      Some t \<Rightarrow> (m, Inr t)
    | None \<Rightarrow> create_tenant tid (if name = [] then ''Tenant '' @ tid else name) config m)"

definition update_tenant ::
  "string \<Rightarrow> string option \<Rightarrow> (string, json) dict option \<Rightarrow> tenant_manager \<Rightarrow> tenant_manager \<times> tenant result" where
  "update_tenant tid name config m = (case get_tenant tid m of
      None \<Rightarrow> (m, Inl (value_error (''Tenant '' @ repr_str tid @ '' not found'')))
    | Some t0 \<Rightarrow>
       (let t1 = (case name of None \<Rightarrow> t0 | Some n \<Rightarrow> t0\<lparr>te_name := n\<rparr>);
            t2 = (case config of None \<Rightarrow> t1 | Some c \<Rightarrow> t1\<lparr>te_config := dupdate (te_config t1) c\<rparr>)
        in (m\<lparr>tn_tenants := dset tid t2 (tn_tenants m)\<rparr>, Inr t2)))"

definition delete_tenant :: "string \<Rightarrow> tenant_manager \<Rightarrow> tenant_manager \<times> unit result" where
  "delete_tenant tid m =
     (if tid = DEFAULT_TENANT_ID then (m, Inl (value_error ''Cannot delete the default tenant''))
      else if \<not> dmem tid (tn_tenants m) then (m, Inl (value_error (''Tenant '' @ repr_str tid @ '' not found'')))
      else (m\<lparr>tn_tenants := ddel tid (tn_tenants m)\<rparr>, Inr ()))"

definition list_tenants :: "tenant_manager \<Rightarrow> tenant list" where
  "list_tenants m = dvalues (tn_tenants m)"

section \<open>File names\<close>

text \<open>\<open>Path(name).stem\<close> and \<open>.suffix\<close> of a name without separators.\<close>

definition last_dot :: "string \<Rightarrow> nat option" where
  "last_dot s = (let k = length (takeWhile (\<lambda>c. c \<noteq> CHR ''.'') (rev s)) in
     if k < length s then Some (length s - k - 1) else None)"

definition stem_suffix :: "string \<Rightarrow> string \<times> string" where
  "stem_suffix s = (case last_dot s of
      None \<Rightarrow> (s, [])
    | Some i \<Rightarrow> if 0 < i \<and> i + 1 < length s then (take i s, drop i s) else (s, []))"

definition path_join :: "string \<Rightarrow> string \<Rightarrow> string" where
  "path_join base f = (if base = [] \<or> base = ''.'' then f
     else if last base = CHR ''/'' then base @ f else base @ ''/'' @ f)"

definition tenant_filename :: "string \<Rightarrow> string \<Rightarrow> string" where
  "tenant_filename tid base = (case stem_suffix base of (stem, sfx) \<Rightarrow> stem @ ''.'' @ tid @ sfx)"

definition get_state_filename :: "string \<Rightarrow> string \<Rightarrow> tenant_manager \<Rightarrow> string" where
  "get_state_filename tid base m = (if tid = DEFAULT_TENANT_ID then path_join (tn_base m) base
     else path_join (tn_base m) (tenant_filename tid base))"

definition get_event_filename :: "string \<Rightarrow> string \<Rightarrow> tenant_manager \<Rightarrow> string" where
  "get_event_filename tid base m = (if tid = DEFAULT_TENANT_ID then path_join (tn_base m) base
     else path_join (tn_base m) (tenant_filename tid base))"

definition get_tenant_files :: "string \<Rightarrow> tenant_manager \<Rightarrow> (string, string) dict" where
  "get_tenant_files tid m = [(''state'', get_state_filename tid ''state.json'' m),
     (''events'', get_event_filename tid ''events.jsonl'' m)]"

section \<open>The registry\<close>

inductive tenant_step :: "tenant_manager \<Rightarrow> tenant_manager \<Rightarrow> bool" where
  "tenant_step m (fst (create_tenant tid name config m))"
| "tenant_step m (fst (get_or_create_tenant tid name config m))"
| "tenant_step m (fst (update_tenant tid nm config m))"
| "tenant_step m (fst (delete_tenant tid m))"

definition tenant_init :: "tenant_manager \<Rightarrow> bool" where
  "tenant_init m \<longleftrightarrow> (\<exists>base. m = TenantManager base)"

definition valid_id :: "string \<Rightarrow> bool" where
  "valid_id tid \<longleftrightarrow> tid \<noteq> [] \<and> \<not> list_ex bad_tenant_char tid"

definition registry_ok :: "tenant_manager \<Rightarrow> bool" where
  "registry_ok m \<longleftrightarrow> dwf (tn_tenants m) \<and> dmem DEFAULT_TENANT_ID (tn_tenants m) \<and>
     (\<forall>tid t. dget (tn_tenants m) tid = Some t \<longrightarrow> te_id t = tid \<and> valid_id tid)"

lemma Tenant_Inr: "Tenant tid name config = Inr t \<Longrightarrow> te_id t = tid \<and> valid_id tid"
  by (auto simp: Tenant_def valid_id_def split: if_splits)

lemma registry_ok_init: "tenant_init m \<Longrightarrow> registry_ok m"
  by (auto simp: tenant_init_def TenantManager_def ensure_default_tenant_def Tenant_def registry_ok_def valid_id_def
      DEFAULT_TENANT_ID_def dmem_def bad_tenant_char_def dwf_def split: if_splits)

lemma registry_ok_create: "registry_ok m \<Longrightarrow> registry_ok (fst (create_tenant tid name config m))"
  by (auto simp: create_tenant_def registry_ok_def dest: Tenant_Inr split: sum.splits option.splits)

lemma registry_ok_step:
  assumes "tenant_step m m'" "registry_ok m"
  shows "registry_ok m'"
  using assms(1)
proof (cases rule: tenant_step.cases)
  case (2 tid name config)
  with assms(2) show ?thesis by (auto simp: get_or_create_tenant_def registry_ok_create split: option.splits)
next
  case (3 tid nm config)
  with assms(2) show ?thesis by (auto simp: update_tenant_def get_tenant_def registry_ok_def Let_def split: option.splits if_splits)
next
  case (4 tid)
  with assms(2) show ?thesis by (auto simp: delete_tenant_def registry_ok_def)
qed (use assms(2) in \<open>simp_all add: registry_ok_create\<close>)

interpretation registry: transition_system tenant_init tenant_step registry_ok
  by unfold_locales (auto intro: registry_ok_init registry_ok_step)

lemma stem_state: "stem_suffix ''state.json'' = (''state'', ''.json'')"
  by (simp add: stem_suffix_def last_dot_def)

lemma stem_events: "stem_suffix ''events.jsonl'' = (''events'', ''.jsonl'')"
  by (simp add: stem_suffix_def last_dot_def)

lemma path_join_inj: "path_join base f = path_join base g \<longleftrightarrow> f = g"
  by (simp add: path_join_def)

lemma tenant_files_inj:
  "tenant_filename tid b = tenant_filename tid' b \<longleftrightarrow> tid = tid'"
  by (simp add: tenant_filename_def split: prod.splits)

lemma tenant_file_names:
  "tid = DEFAULT_TENANT_ID \<Longrightarrow> get_tenant_files tid m =
     [(''state'', path_join (tn_base m) ''state.json''), (''events'', path_join (tn_base m) ''events.jsonl'')]"
  "tid \<noteq> DEFAULT_TENANT_ID \<Longrightarrow> get_tenant_files tid m =
     [(''state'', path_join (tn_base m) (''state.'' @ tid @ ''.json'')),
      (''events'', path_join (tn_base m) (''events.'' @ tid @ ''.jsonl''))]"
  by (simp_all add: get_tenant_files_def get_state_filename_def get_event_filename_def tenant_filename_def stem_state stem_events)

lemma length_state: "''state.'' @ tid @ ''.json'' = ''state.json'' \<Longrightarrow> False"
  using arg_cong [of "''state.'' @ tid @ ''.json''" "''state.json''" length] by simp

lemma length_events: "''events.'' @ tid @ ''.jsonl'' = ''events.jsonl'' \<Longrightarrow> False"
  using arg_cong [of "''events.'' @ tid @ ''.jsonl''" "''events.jsonl''" length] by simp

text \<open>Tenants share no file. In every state the manager can reach, the default tenant is there,
  every registered identifier is non-empty and without separators, and two different
  tenants have four different files; none of them leaves the base directory.\<close>

theorem tenant_files_disjoint:
  assumes "tenant_init m0" and "reaches tenant_step m0 m"
    and "dget (tn_tenants m) a = Some ta" and "dget (tn_tenants m) b = Some tb" and "a \<noteq> b"
  shows "get_tenant DEFAULT_TENANT_ID m \<noteq> None \<and> te_id ta = a \<and>
    distinct (dvalues (get_tenant_files a m) @ dvalues (get_tenant_files b m)) \<and>
    list_all (\<lambda>f. \<exists>n. f = path_join (tn_base m) n \<and> \<not> list_ex bad_tenant_char n) (dvalues (get_tenant_files a m))"
proof -
  have ok: "registry_ok m" using registry.inv_reachable [OF assms(1,2)] .
  then have "get_tenant DEFAULT_TENANT_ID m \<noteq> None" "te_id ta = a" and v: "valid_id a"
    using assms(3) by (auto simp: registry_ok_def get_tenant_def dmem_Some)
  moreover have "distinct (dvalues (get_tenant_files a m) @ dvalues (get_tenant_files b m))"
    using assms(5) length_state [of a] length_state [of b] length_events [of a] length_events [of b]
    by (cases "a = DEFAULT_TENANT_ID"; cases "b = DEFAULT_TENANT_ID")
       (auto simp: tenant_file_names dvalues_def path_join_inj)
  moreover have "list_all (\<lambda>f. \<exists>n. f = path_join (tn_base m) n \<and> \<not> list_ex bad_tenant_char n) (dvalues (get_tenant_files a m))"
  proof (cases "a = DEFAULT_TENANT_ID")
    case True
    then show ?thesis by (auto simp: tenant_file_names dvalues_def bad_tenant_char_def)
  next
    case False
    have "\<not> list_ex bad_tenant_char (''state.'' @ a @ ''.json'')" "\<not> list_ex bad_tenant_char (''events.'' @ a @ ''.jsonl'')"
      using v by (auto simp: valid_id_def bad_tenant_char_def)
    then show ?thesis unfolding tenant_file_names(2) [OF False] dvalues_def list.map snd_conv list.pred_inject by (intro conjI exI TrueI) (rule refl | assumption | simp only: list.pred_inject)+
  qed
  ultimately show ?thesis by blast
qed

definition demo_tenants :: tenant_manager where
  "demo_tenants = fst (create_tenant ''acme'' ''Acme'' None (TenantManager ''data''))"

theorem tenant_files_disjoint_witness:
  "distinct (dvalues (get_tenant_files ''default'' demo_tenants) @ dvalues (get_tenant_files ''acme'' demo_tenants))"
proof -
  have r: "reaches tenant_step (TenantManager ''data'') demo_tenants"
    unfolding demo_tenants_def by (rule reaches_one [of tenant_step]) (rule tenant_step.intros)
  have i: "tenant_init (TenantManager ''data'')" by (auto simp: tenant_init_def)
  have g: "\<exists>ta tb. dget (tn_tenants demo_tenants) ''default'' = Some ta \<and> dget (tn_tenants demo_tenants) ''acme'' = Some tb"
    by (simp add: demo_tenants_def create_tenant_def TenantManager_def ensure_default_tenant_def Tenant_def DEFAULT_TENANT_ID_def
        bad_tenant_char_def dmem_def)
  then obtain ta tb where "dget (tn_tenants demo_tenants) ''default'' = Some ta" "dget (tn_tenants demo_tenants) ''acme'' = Some tb" by blast
  from tenant_files_disjoint [OF i r this] show ?thesis by simp
qed

end
