(* ===== verification/Tournament.thy ===== *)
theory Tournament
  imports PyText
begin

text \<open>
  Agent competition: the harness of \<open>src/harness/agent_harness.py\<close> (profiles, benchmarks,
  leaderboards) and the round-robin Elo tournament of \<open>src/harness/tournament_engine.py\<close>.
  The random rolls and the durations are arguments; ratings and scores are exact reals.
\<close>

section \<open>Harness\<close>

record harness_config =
  hc_max_iterations :: int
  hc_timeout :: real
  hc_parallel :: bool
  hc_min_tasks :: int

record agent_profile =
  ap_name :: string
  ap_version :: string
  ap_capabilities :: "string list"
  ap_cost :: real
  ap_win_rate_bias :: real

definition identity :: "agent_profile \<Rightarrow> string" where
  "identity p = ap_name p @ '':'' @ (if startswith (ap_version p) ''v'' then ap_version p else CHR ''v'' # ap_version p)"

record benchmark_result =
  br_agent :: string
  br_benchmark :: string
  br_score :: real
  br_attempted :: int
  br_passed :: int
  br_duration :: real

record agent_ranking =
  ark_agent :: string
  ark_elo :: real
  ark_wins :: int
  ark_losses :: int
  ark_ties :: int

record agent_harness =
  ah_config :: harness_config
  ah_agents :: "agent_profile list"
  ah_results :: "benchmark_result list"

definition register_agent :: "agent_profile \<Rightarrow> agent_harness \<Rightarrow> agent_harness \<times> string" where
  "register_agent p h = (h\<lparr>ah_agents := ah_agents h @ [p]\<rparr>, identity p)"

definition capability_keywords :: "(string, string list) dict" where
  "capability_keywords = [(''swe-bench'', [''debug'', ''fix'', ''refactor'']), (''coding-eval'', [''implement'', ''build'', ''write'']),
     (''review-eval'', [''review'', ''critique'', ''analyze'']), (''speed-test'', [''fast'', ''optimize''])]"

definition evaluate_agent :: "agent_profile \<Rightarrow> string \<Rightarrow> real \<Rightarrow> real \<Rightarrow> agent_harness \<Rightarrow> benchmark_result" where
  "evaluate_agent p name roll duration h =
     (let tasks = hc_min_tasks (ah_config h);
          keywords = dgetd capability_keywords name [''implement''];
          matched = count_if (\<lambda>kw. List.member (ap_capabilities p) kw) keywords;
          score = min 1 (1 / 2 + real matched * (1 / 10) + roll)
      in \<lparr>br_agent = identity p, br_benchmark = name, br_score = score, br_attempted = tasks,
          br_passed = round_even (score * of_int tasks), br_duration = round_to 3 duration\<rparr>)"

definition run_benchmark :: "string \<Rightarrow> (nat \<Rightarrow> real \<times> real) \<Rightarrow> agent_harness \<Rightarrow> agent_harness \<times> benchmark_result list" where
  "run_benchmark name rolls h =
     (let rs = map (\<lambda>(i, p). evaluate_agent p name (fst (rolls i)) (snd (rolls i)) h) (enumerate 0 (ah_agents h))
      in (h\<lparr>ah_results := ah_results h @ rs\<rparr>, rs))"

definition get_leaderboard :: "string \<Rightarrow> agent_harness \<Rightarrow> benchmark_result list" where
  "get_leaderboard name h = sort_desc br_score (filter (\<lambda>r. br_benchmark r = name) (ah_results h))"

definition harness_rankings :: "string option \<Rightarrow> agent_harness \<Rightarrow> benchmark_result list" where
  "harness_rankings name h = (case name of
      Some (c # cs) \<Rightarrow> get_leaderboard (c # cs) h
    | _ \<Rightarrow> sort_desc br_score (ah_results h))"

section \<open>Tournament\<close>

record match_result =
  mr_a :: string
  mr_b :: string
  mr_winner :: "string option"
  mr_scores :: "(string, real) dict"
  mr_rounds :: nat
  mr_duration :: real

record tournament_config =
  tc_num_rounds :: nat
  tc_k :: real
  tc_initial :: real
  tc_tie :: real

record tournament_engine =
  te_config :: tournament_config
  te_elo :: "(string, real) dict"
  te_matches :: "match_result list"
  te_wins :: "(string, int) dict"
  te_losses :: "(string, int) dict"
  te_ties :: "(string, int) dict"

definition TournamentEngine :: "tournament_config \<Rightarrow> tournament_engine" where
  "TournamentEngine c = \<lparr>te_config = c, te_elo = [], te_matches = [], te_wins = [], te_losses = [], te_ties = []\<rparr>"

definition ensure_agent :: "string \<Rightarrow> tournament_engine \<Rightarrow> tournament_engine" where
  "ensure_agent aid e = (if dmem aid (te_elo e) then e
     else e\<lparr>te_elo := dset aid (tc_initial (te_config e)) (te_elo e), te_wins := dset aid 0 (te_wins e),
            te_losses := dset aid 0 (te_losses e), te_ties := dset aid 0 (te_ties e)\<rparr>)"

definition expected_score :: "real \<Rightarrow> real \<Rightarrow> real" where
  "expected_score ra rb = 1 / (1 + 10 powr ((rb - ra) / 400))"

definition inc :: "string \<Rightarrow> (string, int) dict \<Rightarrow> (string, int) dict" where
  "inc k d = dset k (dgetd d k 0 + 1) d"

text \<open>\<open>_update_elo\<close>: both agents have their entries (\<open>_ensure_agent\<close> ran).\<close>

definition update_elo :: "string option \<Rightarrow> string \<Rightarrow> string \<Rightarrow> tournament_engine \<Rightarrow> tournament_engine" where
  "update_elo winner a b e =
     (let k = tc_k (te_config e);
          ra = dgetd (te_elo e) a 0; rb = dgetd (te_elo e) b 0;
          ea = expected_score ra rb; eb = 1 - ea
      in (case winner of
            None \<Rightarrow> e\<lparr>te_ties := inc b (inc a (te_ties e)),
              te_elo := dset b (rb + k * (1 / 2 - eb)) (dset a (ra + k * (1 / 2 - ea)) (te_elo e))\<rparr>
          | Some w \<Rightarrow> if w = a
              then e\<lparr>te_wins := inc a (te_wins e), te_losses := inc b (te_losses e),
                te_elo := dset b (rb + k * (0 - eb)) (dset a (ra + k * (1 - ea)) (te_elo e))\<rparr>
              else e\<lparr>te_wins := inc b (te_wins e), te_losses := inc a (te_losses e),
                te_elo := dset b (rb + k * (1 - eb)) (dset a (ra + k * (0 - ea)) (te_elo e))\<rparr>))"

text \<open>One round: the roll, biased by the first agent's metadata, gives a point or none.\<close>

definition play_round :: "agent_profile \<Rightarrow> agent_profile \<Rightarrow> real \<Rightarrow> (string, real) dict \<Rightarrow> (string, real) dict" where
  "play_round a b u scores =
     (let roll = u + ap_win_rate_bias a in
      if 55 / 100 < roll then dset (identity a) (dgetd scores (identity a) 0 + 1) scores
      else if roll < 45 / 100 then dset (identity b) (dgetd scores (identity b) 0 + 1) scores
      else scores)"

definition decide_winner :: "tournament_config \<Rightarrow> string \<Rightarrow> string \<Rightarrow> real \<Rightarrow> real \<Rightarrow> string option" where
  "decide_winner c a b total_a total_b =
     (if \<bar>total_a - total_b\<bar> < tc_tie c * real (tc_num_rounds c) then None
      else if total_b < total_a then Some a else Some b)"

definition play_match ::
  "agent_profile \<Rightarrow> agent_profile \<Rightarrow> (nat \<Rightarrow> real) \<Rightarrow> real \<Rightarrow> tournament_engine \<Rightarrow> tournament_engine \<times> match_result" where
  "play_match a b rolls duration e =
     (let c = te_config e;
          scores = fold (\<lambda>i. play_round a b (rolls i)) [0..<tc_num_rounds c] (dset (identity b) 0 (dset (identity a) 0 []));
          winner = decide_winner c (identity a) (identity b) (dgetd scores (identity a) 0) (dgetd scores (identity b) 0)
      in (update_elo winner (identity a) (identity b) e,
          \<lparr>mr_a = identity a, mr_b = identity b, mr_winner = winner, mr_scores = scores, mr_rounds = tc_num_rounds c,
           mr_duration = round_to 3 duration\<rparr>))"

fun pairs :: "'a list \<Rightarrow> ('a \<times> 'a) list" where
  "pairs [] = []"
| "pairs (x # xs) = map (\<lambda>y. (x, y)) xs @ pairs xs"

text \<open>The double loop; match number \<open>m\<close> rolls \<open>rolls m\<close>.\<close>

fun play_all :: "(agent_profile \<times> agent_profile) list \<Rightarrow> nat \<Rightarrow> (nat \<Rightarrow> nat \<Rightarrow> real) \<Rightarrow> tournament_engine \<Rightarrow> tournament_engine" where
  "play_all [] m rolls e = e"
| "play_all ((a, b) # ps) m rolls e = (case play_match a b (rolls m) 0 e of
     (e', r) \<Rightarrow> play_all ps (Suc m) rolls (e'\<lparr>te_matches := te_matches e' @ [r]\<rparr>))"

definition run_tournament :: "agent_profile list \<Rightarrow> (nat \<Rightarrow> nat \<Rightarrow> real) \<Rightarrow> tournament_engine \<Rightarrow> tournament_engine \<times> match_result list" where
  "run_tournament agents rolls e =
     (if agents = [] then (e, [])
      else let e' = play_all (pairs agents) 0 rolls (fold (\<lambda>p. ensure_agent (identity p)) agents e) in (e', te_matches e'))"

definition tournament_rankings :: "tournament_engine \<Rightarrow> agent_ranking list" where
  "tournament_rankings e = sort_desc ark_elo (map (\<lambda>(aid, r).
     \<lparr>ark_agent = aid, ark_elo = round_to 1 r, ark_wins = dgetd (te_wins e) aid 0,
      ark_losses = dgetd (te_losses e) aid 0, ark_ties = dgetd (te_ties e) aid 0\<rparr>) (te_elo e))"

section \<open>Elo is a zero-sum game\<close>

lemma expected_score_bounds: "0 < expected_score ra rb" "expected_score ra rb < 1"
  by (simp_all add: expected_score_def add_pos_pos)

lemma expected_score_sum: "expected_score ra rb + expected_score rb ra = 1"
proof -
  let ?x = "10 powr ((rb - ra) / 400) :: real"
  have x: "0 < ?x" by simp
  have "(ra - rb) / 400 = - ((rb - ra) / 400)" by (simp add: field_simps)
  then have "10 powr ((ra - rb) / 400) = inverse ?x" by (simp only: powr_minus)
  then have "expected_score rb ra = 1 / (1 + inverse ?x)" by (simp only: expected_score_def)
  also have "\<dots> = ?x / (?x + 1)" using x by (simp add: field_simps)
  finally have ba: "expected_score rb ra = ?x / (?x + 1)" .
  have "expected_score ra rb = 1 / (?x + 1)" by (simp add: expected_score_def add.commute)
  then have "expected_score ra rb + expected_score rb ra = (1 + ?x) / (?x + 1)" unfolding ba by (simp add: add_divide_distrib)
  moreover have "?x + 1 \<noteq> 0" using x by linarith
  ultimately show ?thesis by (simp add: add.commute)
qed

definition engine_ok :: "tournament_engine \<Rightarrow> bool" where
  "engine_ok e \<longleftrightarrow> dwf (te_elo e) \<and> dwf (te_wins e) \<and> dwf (te_losses e) \<and> dwf (te_ties e)"

definition elo_total :: "tournament_engine \<Rightarrow> real" where
  "elo_total e = dsum (\<lambda>r. r) (te_elo e)"

definition tally :: "(string, int) dict \<Rightarrow> int" where
  "tally d = dsum (\<lambda>n. n) d"

lemma tally_inc: "dwf d \<Longrightarrow> tally (inc k d) = tally d + 1"
  by (simp add: tally_def inc_def dsum_dset dgetd_def split: option.splits)

lemma dwf_inc [simp]: "dwf d \<Longrightarrow> dwf (inc k d)"
  by (simp add: inc_def)

lemma elo_swap:
  fixes x y ra rb :: real
  assumes "dwf d" "dget d a = Some ra" "dget d b = Some rb" "a \<noteq> b" "x + y = ra + rb"
  shows "dsum (\<lambda>r. r) (dset b y (dset a x d)) = dsum (\<lambda>r. r) d"
proof -
  have "dsum (\<lambda>r. r) (dset b y (dset a x d)) = dsum (\<lambda>r. r) d + x - ra + y - rb"
    using assms(1-4) by (simp add: dsum_dset)
  with assms(5) show ?thesis by linarith
qed

lemma update_elo_conserves:
  assumes "engine_ok e" "dmem a (te_elo e)" "dmem b (te_elo e)" "a \<noteq> b"
  shows "engine_ok (update_elo w a b e)" "elo_total (update_elo w a b e) = elo_total e"
    "dkeys (te_elo (update_elo w a b e)) = dkeys (te_elo e)"
    "tally (te_wins (update_elo w a b e)) = tally (te_wins e) + (if w = None then 0 else 1)"
    "tally (te_losses (update_elo w a b e)) = tally (te_losses e) + (if w = None then 0 else 1)"
    "tally (te_ties (update_elo w a b e)) = tally (te_ties e) + (if w = None then 2 else 0)"
    "te_config (update_elo w a b e) = te_config e" "te_matches (update_elo w a b e) = te_matches e"
proof -
  obtain ra rb where r: "dget (te_elo e) a = Some ra" "dget (te_elo e) b = Some rb" using assms by (auto simp: dmem_Some)
  have ok: "dwf (te_elo e)" using assms(1) by (simp add: engine_ok_def)
  note swap = elo_swap [OF ok r assms(4)]
  show "elo_total (update_elo w a b e) = elo_total e"
    by (auto simp: update_elo_def Let_def elo_total_def dgetd_def r algebra_simps split: option.splits intro!: swap)
  show "engine_ok (update_elo w a b e)" "dkeys (te_elo (update_elo w a b e)) = dkeys (te_elo e)"
    "tally (te_wins (update_elo w a b e)) = tally (te_wins e) + (if w = None then 0 else 1)"
    "tally (te_losses (update_elo w a b e)) = tally (te_losses e) + (if w = None then 0 else 1)"
    "tally (te_ties (update_elo w a b e)) = tally (te_ties e) + (if w = None then 2 else 0)"
    "te_config (update_elo w a b e) = te_config e" "te_matches (update_elo w a b e) = te_matches e"
    using assms by (auto simp: update_elo_def Let_def engine_ok_def tally_inc dkeys_dset split: option.splits)
qed

lemma play_all_conserves:
  assumes "engine_ok e" "list_all (\<lambda>(a, b). dmem (identity a) (te_elo e) \<and> dmem (identity b) (te_elo e) \<and> identity a \<noteq> identity b) ps"
  shows "engine_ok (play_all ps m rolls e) \<and> elo_total (play_all ps m rolls e) = elo_total e \<and>
    dkeys (te_elo (play_all ps m rolls e)) = dkeys (te_elo e) \<and>
    length (te_matches (play_all ps m rolls e)) = length (te_matches e) + length ps \<and>
    tally (te_wins (play_all ps m rolls e)) - tally (te_losses (play_all ps m rolls e)) = tally (te_wins e) - tally (te_losses e) \<and>
    2 * tally (te_wins (play_all ps m rolls e)) + tally (te_ties (play_all ps m rolls e)) =
      2 * tally (te_wins e) + tally (te_ties e) + 2 * int (length ps)"
  using assms
proof (induction ps arbitrary: m e)
  case (Cons p ps)
  obtain a b where p: "p = (a, b)" by fastforce
  obtain e1 r where pm: "play_match a b (rolls m) 0 e = (e1, r)" by fastforce
  then obtain w where e1: "e1 = update_elo w (identity a) (identity b) e" by (auto simp: play_match_def Let_def)
  let ?e = "e1\<lparr>te_matches := te_matches e1 @ [r]\<rparr>"
  have ab: "dmem (identity a) (te_elo e)" "dmem (identity b) (te_elo e)" "identity a \<noteq> identity b"
    using Cons.prems(2) p by auto
  note u = update_elo_conserves [OF Cons.prems(1) ab, of w]
  have ok: "engine_ok ?e" using u(1) e1 by (simp add: engine_ok_def)
  have mem: "dmem x (te_elo ?e) = dmem x (te_elo e)" for x
    using arg_cong [OF u(3), of set] e1 by (simp add: dmem_iff dkeys_def)
  have "list_all (\<lambda>(a, b). dmem (identity a) (te_elo ?e) \<and> dmem (identity b) (te_elo ?e) \<and> identity a \<noteq> identity b) ps"
    using Cons.prems(2) unfolding mem by (simp add: list_all_iff)
  from Cons.IH [OF ok this, of "Suc m"] u e1 show ?case
    by (auto simp: p pm elo_total_def)
qed simp

lemma length_pairs: "2 * length (pairs xs) + length xs = length xs * length xs"
  by (induction xs) auto

lemma ensure_agents:
  assumes "engine_ok e"
  shows "engine_ok (fold (\<lambda>p. ensure_agent (identity p)) agents e) \<and>
    list_all (\<lambda>p. dmem (identity p) (te_elo (fold (\<lambda>p. ensure_agent (identity p)) agents e))) agents \<and>
    (\<forall>x. dmem x (te_elo e) \<longrightarrow> dmem x (te_elo (fold (\<lambda>p. ensure_agent (identity p)) agents e)))"
  using assms
proof (induction agents arbitrary: e)
  case (Cons p agents)
  have "engine_ok (ensure_agent (identity p) e)" using Cons.prems by (auto simp: ensure_agent_def engine_ok_def)
  from Cons.IH [OF this] show ?case by (auto simp: ensure_agent_def)
qed simp

lemma ensure_agents_matches: "te_matches (fold (\<lambda>p. ensure_agent (identity p)) agents e) = te_matches e"
  by (induction agents arbitrary: e) (auto simp: ensure_agent_def)

lemma ensure_agents_total:
  assumes "engine_ok e" "distinct (map identity agents)" "list_all (\<lambda>p. \<not> dmem (identity p) (te_elo e)) agents"
  shows "elo_total (fold (\<lambda>p. ensure_agent (identity p)) agents e) = elo_total e + real (length agents) * tc_initial (te_config e)"
  using assms
proof (induction agents arbitrary: e)
  case (Cons p agents)
  let ?e = "ensure_agent (identity p) e"
  have e: "?e = e\<lparr>te_elo := dset (identity p) (tc_initial (te_config e)) (te_elo e), te_wins := dset (identity p) 0 (te_wins e),
          te_losses := dset (identity p) 0 (te_losses e), te_ties := dset (identity p) 0 (te_ties e)\<rparr>"
    using Cons.prems by (simp add: ensure_agent_def)
  have "engine_ok ?e" using Cons.prems e by (simp add: engine_ok_def)
  moreover have "elo_total ?e = elo_total e + tc_initial (te_config e)"
    using Cons.prems e by (simp add: elo_total_def dsum_dset engine_ok_def not_dmem_None)
  moreover have "list_all (\<lambda>q. \<not> dmem (identity q) (te_elo ?e)) agents"
    using Cons.prems e by (auto simp: list_all_iff) (metis image_eqI)
  ultimately show ?case using Cons.IH [of ?e] Cons.prems e by (simp add: algebra_simps)
qed simp

lemma ensure_agents_tallies:
  assumes "\<And>n k. dget (te_wins e) k = Some n \<Longrightarrow> n = 0" "\<And>n k. dget (te_losses e) k = Some n \<Longrightarrow> n = 0"
    "\<And>n k. dget (te_ties e) k = Some n \<Longrightarrow> n = 0" "engine_ok e" "tally (te_wins e) = 0" "tally (te_losses e) = 0" "tally (te_ties e) = 0"
  shows "tally (te_wins (fold (\<lambda>p. ensure_agent (identity p)) agents e)) = 0 \<and>
    tally (te_losses (fold (\<lambda>p. ensure_agent (identity p)) agents e)) = 0 \<and>
    tally (te_ties (fold (\<lambda>p. ensure_agent (identity p)) agents e)) = 0"
  using assms
proof (induction agents arbitrary: e)
  case (Cons p agents)
  have zero: "tally (dset k 0 d) = 0" if "\<And>n k. dget d k = Some n \<Longrightarrow> n = 0" "dwf d" "tally d = 0" for k d
    using that by (auto simp: tally_def dsum_dset split: option.splits)
  have "tally (te_wins (fold (\<lambda>p. ensure_agent (identity p)) agents (ensure_agent (identity p) e))) = 0 \<and>
    tally (te_losses (fold (\<lambda>p. ensure_agent (identity p)) agents (ensure_agent (identity p) e))) = 0 \<and>
    tally (te_ties (fold (\<lambda>p. ensure_agent (identity p)) agents (ensure_agent (identity p) e))) = 0"
    by (rule Cons.IH) (use Cons.prems zero in \<open>auto simp: ensure_agent_def engine_ok_def split: if_splits\<close>)
  then show ?case by simp
qed simp

lemma pairs_distinct:
  "distinct (map identity ps) \<Longrightarrow> list_all (\<lambda>(a, b). a \<in> set ps \<and> b \<in> set ps \<and> identity a \<noteq> identity b) (pairs ps)"
proof (induction ps)
  case (Cons p ps)
  then have "list_all (\<lambda>(a, b). a \<in> set (p # ps) \<and> b \<in> set (p # ps) \<and> identity a \<noteq> identity b) (pairs ps)"
    by (auto simp: list_all_iff)
  with Cons.prems show ?case by (auto simp: list_all_iff)
qed simp

text \<open>A tournament is a zero-sum game. Whatever the rolls, a tournament of agents with different
  identities on a new engine plays every pair once, leaves the ratings adding up to the
  number of agents times the initial rating, and counts as many wins as losses and two ties
  for every drawn match.\<close>

theorem elo_zero_sum:
  assumes "distinct (map identity agents)"
  shows "(case run_tournament agents rolls (TournamentEngine c) of (e, ms) \<Rightarrow>
    2 * length ms = length agents * length agents - length agents \<and>
    elo_total e = real (length agents) * tc_initial c \<and>
    tally (te_wins e) = tally (te_losses e) \<and>
    2 * tally (te_wins e) + tally (te_ties e) = 2 * int (length ms))"
proof (cases "agents = []")
  case True
  then show ?thesis by (simp add: run_tournament_def TournamentEngine_def elo_total_def tally_def)
next
  case False
  let ?init = "TournamentEngine c"
  let ?e = "fold (\<lambda>p. ensure_agent (identity p)) agents ?init"
  have ok0: "engine_ok ?init" and empty: "te_elo ?init = []" "te_wins ?init = []" "te_losses ?init = []" "te_ties ?init = []"
    "te_matches ?init = []" "te_config ?init = c"
    by (simp_all add: engine_ok_def TournamentEngine_def)
  note ens = ensure_agents [OF ok0, of agents]
  have tot: "elo_total ?e = real (length agents) * tc_initial c" "te_matches ?e = []"
    using ensure_agents_total [OF ok0 assms] empty ensure_agents_matches [of agents ?init]
    by (simp_all add: elo_total_def dmem_def list_all_iff)
  have tal: "tally (te_wins ?e) = 0 \<and> tally (te_losses ?e) = 0 \<and> tally (te_ties ?e) = 0"
    by (rule ensure_agents_tallies) (use ok0 empty in \<open>simp_all add: tally_def\<close>)
  have "list_all (\<lambda>(a, b). dmem (identity a) (te_elo ?e) \<and> dmem (identity b) (te_elo ?e) \<and> identity a \<noteq> identity b) (pairs agents)"
    using pairs_distinct [OF assms] ens by (auto simp: list_all_iff)
  note play = play_all_conserves [OF conjunct1 [OF ens] this, of 0 rolls]
  have "2 * length (pairs agents) = length agents * length agents - length agents"
    using length_pairs [of agents] by linarith
  then show ?thesis using play tot tal False by (simp add: run_tournament_def Let_def)
qed

definition demo_agent :: "string \<Rightarrow> agent_profile" where
  "demo_agent n = \<lparr>ap_name = n, ap_version = ''1'', ap_capabilities = [], ap_cost = 0, ap_win_rate_bias = 0\<rparr>"

theorem elo_zero_sum_witness:
  "elo_total (fst (run_tournament [demo_agent ''a'', demo_agent ''b''] (\<lambda>m i. 1)
     (TournamentEngine \<lparr>tc_num_rounds = 3, tc_k = 32, tc_initial = 1500, tc_tie = 1 / 100\<rparr>))) = 3000"
  using elo_zero_sum [where agents = "[demo_agent ''a'', demo_agent ''b'']" and rolls = "\<lambda>m i. 1"
      and c = "\<lparr>tc_num_rounds = 3, tc_k = 32, tc_initial = 1500, tc_tie = 1 / 100\<rparr>"]
  by (auto simp: demo_agent_def identity_def startswith_def split: prod.splits)

end
