(* ===== verification/Graph_Store.thy ===== *)
theory Graph_Store
  imports State_Manager
begin

text \<open>
  The graph memory store of \<open>src/memory/graph_store.py\<close>. The directed graph is networkx, a
  third-party package: its operations are a parameter of every definition, and what the
  code relies on (its documented behaviour: insertion order, merging of attributes, one
  edge per pair, implicit creation of end points) is the predicate \<open>digraph_laws\<close>.
\<close>

section \<open>The interface of the graph\<close>

type_synonym attrs = "(string, json) dict"

record 'g digraph_ops =
  dg_empty :: 'g
  dg_add_node :: "string \<Rightarrow> attrs \<Rightarrow> 'g \<Rightarrow> 'g"
  dg_add_edge :: "string \<Rightarrow> string \<Rightarrow> attrs \<Rightarrow> 'g \<Rightarrow> 'g"
  dg_nodes :: "'g \<Rightarrow> (string, attrs) dict"
  dg_out :: "'g \<Rightarrow> string \<Rightarrow> (string, attrs) dict"
  dg_in :: "'g \<Rightarrow> string \<Rightarrow> string list"

definition touch_node :: "string \<Rightarrow> attrs \<Rightarrow> (string, attrs) dict \<Rightarrow> (string, attrs) dict" where
  "touch_node n a ns = dset n (dupdate (dgetd ns n []) a) ns"

definition digraph_laws :: "'g digraph_ops \<Rightarrow> bool" where
  "digraph_laws G \<longleftrightarrow>
     dg_nodes G (dg_empty G) = [] \<and> (\<forall>x. dg_out G (dg_empty G) x = []) \<and>
     (\<forall>n a g. dg_nodes G (dg_add_node G n a g) = touch_node n a (dg_nodes G g)) \<and>
     (\<forall>n a g x. dg_out G (dg_add_node G n a g) x = dg_out G g x) \<and>
     (\<forall>u v a g. dg_nodes G (dg_add_edge G u v a g) = touch_node v [] (touch_node u [] (dg_nodes G g))) \<and>
     (\<forall>u v a g x. dg_out G (dg_add_edge G u v a g) x =
        (if x = u then touch_node v a (dg_out G g u) else dg_out G g x))"

section \<open>The store\<close>

datatype node_type = AGENT | TASK | OUTCOME | CONCEPT | FILE

primrec node_type_value :: "node_type \<Rightarrow> string" where
  "node_type_value AGENT = ''agent''"
| "node_type_value TASK = ''task''"
| "node_type_value OUTCOME = ''outcome''"
| "node_type_value CONCEPT = ''concept''"
| "node_type_value FILE = ''file''"

record 'g graph_store =
  gst_graph :: 'g
  gst_path :: "string option"
  gst_counter :: int

type_synonym node = "string \<times> attrs"

definition next_id :: "int \<Rightarrow> string" where
  "next_id n = ''node_'' @ str_of_int n"

definition add_node :: "'g digraph_ops \<Rightarrow> node_type \<Rightarrow> string \<Rightarrow> attrs \<Rightarrow> 'g graph_store \<Rightarrow> 'g graph_store \<times> string" where
  "add_node G ty name a s =
     (let c = gst_counter s + 1; nid = next_id c in
      (s\<lparr>gst_counter := c, gst_graph := dg_add_node G nid
          [(''type'', JStr (node_type_value ty)), (''name'', JStr name), (''attrs'', JObj a)] (gst_graph s)\<rparr>, nid))"

definition get_node :: "'g digraph_ops \<Rightarrow> string \<Rightarrow> 'g graph_store \<Rightarrow> node result" where
  "get_node G nid s = (case dget (dg_nodes G (gst_graph s)) nid of
      None \<Rightarrow> Inl (Exn ''KeyError'' nid) | Some d \<Rightarrow> Inr (nid, d))"

definition add_edge :: "'g digraph_ops \<Rightarrow> string \<Rightarrow> string \<Rightarrow> string \<Rightarrow> attrs \<Rightarrow> 'g graph_store \<Rightarrow> 'g graph_store" where
  "add_edge G source target label a s =
     s\<lparr>gst_graph := dg_add_edge G source target [(''label'', JStr label), (''attrs'', JObj a)] (gst_graph s)\<rparr>"

definition has_node :: "'g digraph_ops \<Rightarrow> string \<Rightarrow> 'g graph_store \<Rightarrow> bool" where
  "has_node G nid s = dmem nid (dg_nodes G (gst_graph s))"

definition missing_node :: "string \<Rightarrow> exn" where
  "missing_node nid = Exn ''NetworkXError'' nid"

definition edges_from :: "'g digraph_ops \<Rightarrow> string \<Rightarrow> 'g graph_store \<Rightarrow> (string \<times> string \<times> json \<times> json) list result" where
  "edges_from G nid s = (if \<not> has_node G nid s then Inl (missing_node nid)
     else Inr (map (\<lambda>(v, d). (nid, v, dgetd d ''label'' (JStr []), dgetd d ''attrs'' (JObj []))) (dg_out G (gst_graph s) nid)))"

fun get_nodes :: "'g digraph_ops \<Rightarrow> string list \<Rightarrow> 'g graph_store \<Rightarrow> node list result" where
  "get_nodes G [] s = Inr []"
| "get_nodes G (n # ns) s = bindr (get_node G n s) (\<lambda>x. bindr (get_nodes G ns s) (\<lambda>xs. Inr (x # xs)))"

definition neighbors :: "'g digraph_ops \<Rightarrow> string \<Rightarrow> 'g graph_store \<Rightarrow> node list result" where
  "neighbors G nid s = (if \<not> has_node G nid s then Inl (missing_node nid)
     else get_nodes G (dkeys (dg_out G (gst_graph s) nid)) s)"

definition predecessors :: "'g digraph_ops \<Rightarrow> string \<Rightarrow> 'g graph_store \<Rightarrow> node list result" where
  "predecessors G nid s = (if \<not> has_node G nid s then Inl (missing_node nid)
     else get_nodes G (dg_in G (gst_graph s) nid) s)"

definition query_by_type :: "'g digraph_ops \<Rightarrow> node_type \<Rightarrow> 'g graph_store \<Rightarrow> node list" where
  "query_by_type G ty s = filter (\<lambda>(n, d). dget d ''type'' = Some (JStr (node_type_value ty))) (dg_nodes G (gst_graph s))"

text \<open>
  \<open>query_related\<close>: the loop over the queue, on fuel (each node is queued once, so the
  number of nodes plus one is enough). A step scans the outgoing edges of the head.
\<close>

definition label_ok :: "string option \<Rightarrow> attrs \<Rightarrow> bool" where
  "label_ok lb d = (case lb of None \<Rightarrow> True | Some [] \<Rightarrow> True | Some l \<Rightarrow> dget d ''label'' = Some (JStr l))"

fun scan_edges :: "string option \<Rightarrow> nat \<Rightarrow> (string, attrs) dict \<Rightarrow> string list \<Rightarrow> (string \<times> nat) list
    \<Rightarrow> string list \<times> (string \<times> nat) list" where
  "scan_edges lb depth [] visited queue = (visited, queue)"
| "scan_edges lb depth ((v, d) # es) visited queue =
     (if label_ok lb d \<and> \<not> List.member visited v
      then scan_edges lb depth es (visited @ [v]) (queue @ [(v, Suc depth)])
      else scan_edges lb depth es visited queue)"

fun bfs :: "'g digraph_ops \<Rightarrow> string option \<Rightarrow> nat \<Rightarrow> 'g \<Rightarrow> nat \<Rightarrow> string list \<Rightarrow> (string \<times> nat) list \<Rightarrow> string list option" where
  "bfs G lb md g fuel visited [] = Some visited"
| "bfs G lb md g 0 visited (x # q) = None"
| "bfs G lb md g (Suc n) visited ((u, depth) # q) =
     (if md \<le> depth then bfs G lb md g n visited q
      else case scan_edges lb depth (dg_out G g u) visited q of (visited', q') \<Rightarrow> bfs G lb md g n visited' q')"

text \<open>The visited nodes, in order: the start and then the results.\<close>

definition query_related :: "'g digraph_ops \<Rightarrow> string \<Rightarrow> string option \<Rightarrow> nat \<Rightarrow> 'g graph_store \<Rightarrow> node list result option" where
  "query_related G nid lb max_depth s =
     (if \<not> has_node G nid s then Some (Inr [])
      else case bfs G lb max_depth (gst_graph s) (Suc (length (dg_nodes G (gst_graph s)))) [nid] [(nid, 0)] of
          None \<Rightarrow> None
        | Some visited \<Rightarrow> Some (get_nodes G (tl visited) s))"

section \<open>Persistence\<close>

definition graph_edges :: "'g digraph_ops \<Rightarrow> 'g \<Rightarrow> (string \<times> string \<times> attrs) list" where
  "graph_edges G g = concat (map (\<lambda>(u, a). map (\<lambda>(v, d). (u, v, d)) (dg_out G g u)) (dg_nodes G g))"

definition graph_json :: "'g digraph_ops \<Rightarrow> 'g graph_store \<Rightarrow> json" where
  "graph_json G s = JObj
     [(''nodes'', JArr (map (\<lambda>(n, d). JObj ((''id'', JStr n) # d)) (dg_nodes G (gst_graph s)))),
      (''edges'', JArr (map (\<lambda>(u, v, d). JObj ((''source'', JStr u) # (''target'', JStr v) # d)) (graph_edges G (gst_graph s)))),
      (''id_counter'', JInt (gst_counter s))]"

definition save_graph :: "'g digraph_ops \<Rightarrow> 'g graph_store \<Rightarrow> fs \<Rightarrow> fs" where
  "save_graph G s w = (case gst_path s of None \<Rightarrow> w | Some p \<Rightarrow>
     if p = [] then w else w\<lparr>docs := dset p (Doc (graph_json G s)) (docs w)\<rparr>)"

text \<open>\<open>load\<close> of a document of that shape; \<open>None\<close> for any other document.\<close>

fun load_nodes :: "'g digraph_ops \<Rightarrow> json list \<Rightarrow> 'g \<Rightarrow> 'g option" where
  "load_nodes G [] g = Some g"
| "load_nodes G (v # vs) g = (case v of
      JObj d \<Rightarrow> (case dget d ''id'' of Some (JStr n) \<Rightarrow> load_nodes G vs (dg_add_node G n (ddel ''id'' d) g) | _ \<Rightarrow> None)
    | _ \<Rightarrow> None)"

fun load_edges :: "'g digraph_ops \<Rightarrow> json list \<Rightarrow> 'g \<Rightarrow> 'g option" where
  "load_edges G [] g = Some g"
| "load_edges G (e # es) g = (case e of
      JObj d \<Rightarrow> (case (dget d ''source'', dget d ''target'') of
          (Some (JStr u), Some (JStr v)) \<Rightarrow> load_edges G es (dg_add_edge G u v (ddel ''target'' (ddel ''source'' d)) g)
        | _ \<Rightarrow> None)
    | _ \<Rightarrow> None)"

definition load_graph :: "'g digraph_ops \<Rightarrow> 'g graph_store \<Rightarrow> fs \<Rightarrow> 'g graph_store option" where
  "load_graph G s w = (case gst_path s of
      None \<Rightarrow> Some s
    | Some p \<Rightarrow> if p = [] then Some s else (case dget (docs w) p of
          None \<Rightarrow> Some s
        | Some Blank \<Rightarrow> Some s
        | Some (Doc (JObj data)) \<Rightarrow>
           (case (dgetd data ''id_counter'' (JInt 0), dgetd data ''nodes'' (JArr []), dgetd data ''edges'' (JArr [])) of
              (JInt c, JArr ns, JArr es) \<Rightarrow>
                (case load_nodes G ns (gst_graph s) of
                   None \<Rightarrow> None
                 | Some g \<Rightarrow> (case load_edges G es g of
                     None \<Rightarrow> None | Some g' \<Rightarrow> Some (s\<lparr>gst_counter := c, gst_graph := g'\<rparr>)))
            | _ \<Rightarrow> None)
        | Some _ \<Rightarrow> None))"

definition GraphStore :: "'g digraph_ops \<Rightarrow> string option \<Rightarrow> fs \<Rightarrow> 'g graph_store option" where
  "GraphStore G path w = load_graph G \<lparr>gst_graph = dg_empty G, gst_path = path, gst_counter = 0\<rparr> w"

section \<open>Graphs the store builds\<close>

inductive store_step :: "'g digraph_ops \<Rightarrow> 'g graph_store \<Rightarrow> 'g graph_store \<Rightarrow> bool" for G where
  "store_step G s (fst (add_node G ty name a s))"
| "store_step G s (add_edge G u v label a s)"

definition store_init :: "'g digraph_ops \<Rightarrow> 'g graph_store \<Rightarrow> bool" where
  "store_init G s \<longleftrightarrow> digraph_laws G \<and> gst_graph s = dg_empty G"

definition node_attrs_ok :: "attrs \<Rightarrow> bool" where
  "node_attrs_ok a \<longleftrightarrow> dwf a \<and> dget a ''id'' = None"

definition edge_attrs_ok :: "attrs \<Rightarrow> bool" where
  "edge_attrs_ok a \<longleftrightarrow> dwf a \<and> dget a ''source'' = None \<and> dget a ''target'' = None"

definition graph_ok :: "'g digraph_ops \<Rightarrow> 'g \<Rightarrow> bool" where
  "graph_ok G g \<longleftrightarrow> dwf (dg_nodes G g) \<and> (\<forall>n a. dget (dg_nodes G g) n = Some a \<longrightarrow> node_attrs_ok a) \<and>
     (\<forall>u. dwf (dg_out G g u)) \<and>
     (\<forall>u v a. dget (dg_out G g u) v = Some a \<longrightarrow> edge_attrs_ok a \<and> dmem u (dg_nodes G g) \<and> dmem v (dg_nodes G g))"

lemma dget_touch [simp]: "dget (touch_node n a ns) k = (if k = n then Some (dupdate (dgetd ns n []) a) else dget ns k)"
  by (simp add: touch_node_def)

lemma dwf_touch [simp]: "dwf ns \<Longrightarrow> dwf (touch_node n a ns)"
  by (simp add: touch_node_def)

lemma dmem_touch [simp]: "dmem k (touch_node n a ns) \<longleftrightarrow> k = n \<or> dmem k ns"
  by (simp add: touch_node_def)

lemma dget_dupdate_None: "dget (dupdate d e) k = None \<longleftrightarrow> dget d k = None \<and> dget e k = None"
  by (simp add: not_dmem_None [symmetric])

lemma attrs_ok_update:
  "node_attrs_ok a \<Longrightarrow> node_attrs_ok b \<Longrightarrow> node_attrs_ok (dupdate a b)"
  "edge_attrs_ok a \<Longrightarrow> edge_attrs_ok b \<Longrightarrow> edge_attrs_ok (dupdate a b)"
  by (simp_all add: node_attrs_ok_def edge_attrs_ok_def dget_dupdate_None)

lemma attrs_ok_Nil [simp]: "node_attrs_ok []" "edge_attrs_ok []"
  by (simp_all add: node_attrs_ok_def edge_attrs_ok_def)

lemma graph_ok_empty: "digraph_laws G \<Longrightarrow> graph_ok G (dg_empty G)"
  by (simp add: digraph_laws_def graph_ok_def)

lemma dgetd_attrs_ok:
  "graph_ok G g \<Longrightarrow> node_attrs_ok (dgetd (dg_nodes G g) n [])"
  "graph_ok G g \<Longrightarrow> edge_attrs_ok (dgetd (dg_out G g u) v [])"
  by (auto simp: graph_ok_def dgetd_def split: option.splits)

lemma graph_ok_add_node:
  assumes "digraph_laws G" "graph_ok G g" "node_attrs_ok a"
  shows "graph_ok G (dg_add_node G n a g)"
proof -
  have nodes: "dg_nodes G (dg_add_node G n a g) = touch_node n a (dg_nodes G g)"
    and out: "dg_out G (dg_add_node G n a g) x = dg_out G g x" for x
    using assms(1) by (simp_all add: digraph_laws_def)
  show ?thesis using assms(2) attrs_ok_update(1) [OF dgetd_attrs_ok(1) [OF assms(2)] assms(3)]
    unfolding graph_ok_def nodes out by (auto split: if_splits)
qed

lemma graph_ok_add_edge:
  assumes "digraph_laws G" "graph_ok G g" "edge_attrs_ok a"
  shows "graph_ok G (dg_add_edge G u v a g)"
proof -
  have nodes: "dg_nodes G (dg_add_edge G u v a g) = touch_node v [] (touch_node u [] (dg_nodes G g))"
    and out: "dg_out G (dg_add_edge G u v a g) x = (if x = u then touch_node v a (dg_out G g u) else dg_out G g x)" for x
    using assms(1) by (simp_all add: digraph_laws_def)
  have n: "node_attrs_ok (dgetd (dg_nodes G g) w [])" for w by (rule dgetd_attrs_ok(1) [OF assms(2)])
  have "node_attrs_ok (dgetd (touch_node u [] (dg_nodes G g)) w [])" for w using n by (simp add: dgetd_def)
  moreover have "edge_attrs_ok (dupdate (dgetd (dg_out G g u) v []) a)"
    using attrs_ok_update(2) [OF dgetd_attrs_ok(2) [OF assms(2)] assms(3)] .
  ultimately show ?thesis using assms(2) n
    unfolding graph_ok_def nodes out by (auto split: if_splits)
qed

lemma graph_ok_step:
  assumes "store_step G s t" "digraph_laws G" "graph_ok G (gst_graph s)"
  shows "graph_ok G (gst_graph t)"
  using assms(1)
proof (cases rule: store_step.cases)
  case (1 ty name a)
  have "node_attrs_ok [(''type'', JStr (node_type_value ty)), (''name'', JStr name), (''attrs'', JObj a)]"
    by (simp add: node_attrs_ok_def dwf_def)
  then show ?thesis using graph_ok_add_node [OF assms(2,3)] 1 by (simp add: add_node_def Let_def)
next
  case (2 u v label a)
  have "edge_attrs_ok [(''label'', JStr label), (''attrs'', JObj a)]" by (simp add: edge_attrs_ok_def dwf_def)
  then show ?thesis using graph_ok_add_edge [OF assms(2,3)] 2 by (simp add: add_edge_def)
qed

lemma store_ok_reachable:
  assumes "store_init G s0" "reaches (store_step G) s0 s"
  shows "digraph_laws G \<and> graph_ok G (gst_graph s)"
proof -
  have laws: "digraph_laws G" using assms(1) by (simp add: store_init_def)
  from assms(2,1) have "graph_ok G (gst_graph s)"
  proof (induction rule: reaches.induct)
    case (reaches_refl s)
    then show ?case by (simp add: store_init_def graph_ok_empty)
  next
    case (reaches_step s t u)
    then show ?case using graph_ok_step laws by blast
  qed
  with laws show ?thesis by simp
qed

section \<open>Breadth-first search\<close>

text \<open>The specification: the nodes within so many edges that carry the label.\<close>

definition targets :: "string option \<Rightarrow> (string, attrs) dict \<Rightarrow> string list" where
  "targets lb es = map fst (filter (\<lambda>(v, d). label_ok lb d) es)"

definition succs :: "'g digraph_ops \<Rightarrow> string option \<Rightarrow> 'g \<Rightarrow> string set \<Rightarrow> string set" where
  "succs G lb g A = (\<Union>u \<in> A. set (targets lb (dg_out G g u)))"

primrec reachn :: "'g digraph_ops \<Rightarrow> string option \<Rightarrow> 'g \<Rightarrow> string \<Rightarrow> nat \<Rightarrow> string set" where
  "reachn G lb g s 0 = {s}"
| "reachn G lb g s (Suc n) = reachn G lb g s n \<union> succs G lb g (reachn G lb g s n)"

lemma reachn_closed:
  assumes "succs G lb g (reachn G lb g s n) \<subseteq> reachn G lb g s n" "n \<le> m"
  shows "reachn G lb g s m = reachn G lb g s n"
  using assms(2) by (induction m) (use assms(1) in \<open>auto simp: le_Suc_eq\<close>)

lemma succs_mono: "A \<subseteq> B \<Longrightarrow> succs G lb g A \<subseteq> succs G lb g B"
  by (auto simp: succs_def)

lemma scan_edges_spec:
  "scan_edges lb depth es visited q = (visited', q') \<Longrightarrow> distinct visited \<Longrightarrow>
     \<exists>new. visited' = visited @ new \<and> q' = q @ map (\<lambda>v. (v, Suc depth)) new \<and> distinct visited' \<and>
       set visited' = set visited \<union> set (targets lb es)"
proof (induction lb depth es visited q rule: scan_edges.induct)
  case (2 lb depth v d es visited q)
  show ?case
  proof (cases "label_ok lb d \<and> \<not> List.member visited v")
    case True
    then have "distinct (visited @ [v])" using 2(4) by (simp add: List.member_iff)
    from 2(1) [OF True _ this] 2(3) True obtain new where
      "visited' = (visited @ [v]) @ new" "q' = (q @ [(v, Suc depth)]) @ map (\<lambda>v. (v, Suc depth)) new" "distinct visited'"
      "set visited' = set (visited @ [v]) \<union> set (targets lb es)" by auto
    with True show ?thesis by (intro exI [of _ "v # new"]) (auto simp: targets_def)
  next
    case False
    from 2(2) [OF False _ 2(4)] 2(3) False obtain new where
      "visited' = visited @ new" "q' = q @ map (\<lambda>v. (v, Suc depth)) new" "distinct visited'"
      "set visited' = set visited \<union> set (targets lb es)" by auto
    with False show ?thesis by (intro exI [of _ new]) (auto simp: targets_def List.member_iff)
  qed
qed (auto simp: targets_def)

text \<open>
  The invariant of the loop at depth \<open>k\<close>: the queue holds a rest \<open>A\<close> of level \<open>k\<close> and the part
  \<open>B\<close> of level \<open>k + 1\<close> found so far; everything within \<open>k\<close> is visited and nothing else but
  \<open>B\<close>, and the successors of the nodes within \<open>k\<close> that are not in \<open>A\<close> are visited.
\<close>

definition bfs_inv ::
  "'g digraph_ops \<Rightarrow> string option \<Rightarrow> 'g \<Rightarrow> string \<Rightarrow> nat \<Rightarrow> nat \<Rightarrow> string list \<Rightarrow> string list \<Rightarrow> string list \<Rightarrow> bool" where
  "bfs_inv G lb g s md k visited A B \<longleftrightarrow> distinct visited \<and> visited \<noteq> [] \<and> hd visited = s \<and> k \<le> md \<and>
     (B = [] \<or> k < md) \<and> set visited = reachn G lb g s k \<union> set B \<and>
     set A \<subseteq> reachn G lb g s k \<and> set B \<subseteq> reachn G lb g s (Suc k) \<and>
     succs G lb g (reachn G lb g s k - set A) \<subseteq> set visited"

definition level_queue :: "nat \<Rightarrow> string list \<Rightarrow> string list \<Rightarrow> (string \<times> nat) list" where
  "level_queue k A B = map (\<lambda>v. (v, k)) A @ map (\<lambda>v. (v, Suc k)) B"

lemma bfs_drain:
  "list_all (\<lambda>(v, d). md \<le> d) q \<Longrightarrow> length q \<le> fuel \<Longrightarrow> bfs G lb md g fuel visited q = Some visited"
proof (induction q arbitrary: fuel)
  case (Cons x q)
  then obtain n where "fuel = Suc n" by (cases fuel) auto
  with Cons show ?case by (cases x) auto
qed simp

lemma bfs_shift:
  assumes "bfs_inv G lb g s md k visited [] B" "B \<noteq> []"
  shows "bfs_inv G lb g s md (Suc k) visited B []" "level_queue k [] B = level_queue (Suc k) B []"
proof -
  have sub: "succs G lb g (reachn G lb g s k) \<subseteq> set visited"
    using assms(1) unfolding bfs_inv_def list.set Diff_empty by blast
  have v: "set visited = reachn G lb g s k \<union> set B" and b: "set B \<subseteq> reachn G lb g s (Suc k)"
    using assms(1) unfolding bfs_inv_def by blast+
  have "set visited = reachn G lb g s (Suc k)" using sub b unfolding v reachn.simps by blast
  moreover have "succs G lb g (reachn G lb g s (Suc k) - set B) \<subseteq> set visited"
  proof -
    have "reachn G lb g s (Suc k) - set B \<subseteq> reachn G lb g s k"
      using assms(1) \<open>set visited = reachn G lb g s (Suc k)\<close> by (auto simp: bfs_inv_def)
    from succs_mono [OF this, of G lb g] sub show ?thesis by blast
  qed
  ultimately show "bfs_inv G lb g s md (Suc k) visited B []" using assms by (auto simp: bfs_inv_def)
qed (simp add: level_queue_def)

lemma bfs_step:
  assumes "bfs_inv G lb g s md k visited (u # A) B" "k < md"
    "scan_edges lb k (dg_out G g u) visited (level_queue k A B) = (visited', q')"
  shows "\<exists>new. bfs_inv G lb g s md k visited' A (B @ new) \<and> q' = level_queue k A (B @ new) \<and> visited' = visited @ new"
proof -
  have dist: "distinct visited" using assms(1) by (simp add: bfs_inv_def)
  obtain new where n: "visited' = visited @ new" "q' = level_queue k A B @ map (\<lambda>v. (v, Suc k)) new" "distinct visited'"
    "set visited' = set visited \<union> set (targets lb (dg_out G g u))"
    using scan_edges_spec [OF assms(3) dist] by blast
  have u: "u \<in> reachn G lb g s k" using assms(1) by (simp add: bfs_inv_def)
  then have t: "set (targets lb (dg_out G g u)) \<subseteq> reachn G lb g s (Suc k)" by (auto simp: succs_def)
  have "set new \<subseteq> set (targets lb (dg_out G g u))" using n by auto
  moreover have "succs G lb g (reachn G lb g s k - set A) \<subseteq> set visited'"
  proof -
    have "succs G lb g (reachn G lb g s k - set A) \<subseteq> succs G lb g (reachn G lb g s k - set (u # A)) \<union> set (targets lb (dg_out G g u))"
      by (auto simp: succs_def)
    with assms(1) n(4) show ?thesis by (auto simp: bfs_inv_def)
  qed
  ultimately have "bfs_inv G lb g s md k visited' A (B @ new)"
    using assms(1,2) n t by (auto simp: bfs_inv_def)
  with n show ?thesis by (auto simp: level_queue_def)
qed

lemma bfs_correct:
  assumes "bfs_inv G lb g s md k visited A B" "finite U" "reachn G lb g s md \<subseteq> U"
    "length A + length B + (card U - length visited) \<le> fuel"
  shows "\<exists>vis. bfs G lb md g fuel visited (level_queue k A B) = Some vis \<and> distinct vis \<and> vis \<noteq> [] \<and> hd vis = s \<and>
    set vis = reachn G lb g s md"
  using assms
proof (induction fuel arbitrary: k visited A B)
  case 0
  then have "A = []" "B = []" by auto
  with 0(1) reachn_closed [of G lb g s k md] show ?case by (auto simp: bfs_inv_def level_queue_def)
next
  case (Suc fuel)
  have head: "\<exists>vis. bfs G lb md g (Suc fuel) visited (level_queue k (u # A) B) = Some vis \<and> distinct vis \<and> vis \<noteq> [] \<and> hd vis = s \<and>
      set vis = reachn G lb g s md"
    if inv: "bfs_inv G lb g s md k visited (u # A) B"
      and le: "length (u # A) + length B + (card U - length visited) \<le> Suc fuel" for k u A B
  proof (cases "k < md")
    case False
    then have "k = md" "B = []" "set visited = reachn G lb g s md" "distinct visited" "visited \<noteq> []" "hd visited = s"
      using inv by (auto simp: bfs_inv_def)
    moreover have "bfs G lb md g (Suc fuel) visited (level_queue k (u # A) B) = Some visited"
      using \<open>k = md\<close> \<open>B = []\<close> le by (intro bfs_drain) (auto simp: level_queue_def list_all_iff)
    ultimately show ?thesis by blast
  next
    case True
    obtain visited' q' where sc: "scan_edges lb k (dg_out G g u) visited (level_queue k A B) = (visited', q')" by fastforce
    from bfs_step [OF inv True sc] obtain new where n: "bfs_inv G lb g s md k visited' A (B @ new)"
      "q' = level_queue k A (B @ new)" "visited' = visited @ new" by blast
    have "set visited' \<subseteq> U"
    proof -
      have "reachn G lb g s (Suc k) \<subseteq> reachn G lb g s md"
        using True by (induction md) (auto simp: less_Suc_eq)
      moreover have "set visited' = reachn G lb g s k \<union> set (B @ new)" "set (B @ new) \<subseteq> reachn G lb g s (Suc k)"
        using n(1) unfolding bfs_inv_def by blast+
      moreover have "reachn G lb g s k \<subseteq> reachn G lb g s (Suc k)" by simp
      ultimately show ?thesis using assms(3) by blast
    qed
    moreover have "card (set visited') = length visited'" using n(1) unfolding bfs_inv_def by (blast intro: distinct_card)
    ultimately have "length visited' \<le> card U" using card_mono [OF assms(2), of "set visited'"] by simp
    then have "length A + length (B @ new) + (card U - length visited') \<le> fuel" using le n(3) by simp
    from Suc.IH [OF n(1) assms(2,3) this] True sc n(2) show ?thesis by (simp add: level_queue_def)
  qed
  show ?case
  proof (cases A)
    case (Cons u A')
    then show ?thesis using head Suc.prems by blast
  next
    case Nil
    show ?thesis
    proof (cases B)
      case B: Nil
      with Nil Suc.prems(1) reachn_closed [of G lb g s k md] show ?thesis by (auto simp: bfs_inv_def level_queue_def)
    next
      case (Cons u B')
      with Suc.prems(1) Nil have "bfs_inv G lb g s md k visited [] (u # B')" by simp
      from bfs_shift [OF this] have "bfs_inv G lb g s md (Suc k) visited (u # B') []"
        "level_queue k A B = level_queue (Suc k) (u # B') []" using Nil Cons by simp_all
      with head [of "Suc k" u B' "[]"] Suc.prems(4) Nil Cons show ?thesis by simp
    qed
  qed
qed

lemma get_nodes_ok:
  "list_all (\<lambda>n. has_node G n s) ns \<Longrightarrow> \<exists>xs. get_nodes G ns s = Inr xs \<and> map fst xs = ns \<and>
     list_all (\<lambda>(n, d). dget (dg_nodes G (gst_graph s)) n = Some d) xs"
proof (induction ns)
  case (Cons n ns)
  then obtain d xs where "dget (dg_nodes G (gst_graph s)) n = Some d" "get_nodes G ns s = Inr xs" "map fst xs = ns"
    "list_all (\<lambda>(n, d). dget (dg_nodes G (gst_graph s)) n = Some d) xs" by (auto simp: has_node_def dmem_Some)
  then show ?case by (simp add: get_node_def)
qed simp

lemma reachn_nodes:
  assumes "graph_ok G g" "dmem s (dg_nodes G g)"
  shows "reachn G lb g s n \<subseteq> set (dkeys (dg_nodes G g))"
proof (induction n)
  case 0
  with assms show ?case by (simp add: dmem_iff dkeys_def)
next
  case (Suc n)
  have "v \<in> set (dkeys (dg_nodes G g))" if "v \<in> set (targets lb (dg_out G g u))" for u v
  proof -
    from that obtain d where "(v, d) \<in> set (dg_out G g u)" by (auto simp: targets_def)
    with assms(1) have "dget (dg_out G g u) v = Some d" by (simp add: graph_ok_def dget_iff_set)
    with assms(1) show ?thesis by (auto simp: graph_ok_def dmem_iff dkeys_def)
  qed
  with Suc show ?case by (auto simp: succs_def)
qed

text \<open>The traversal is exact. On any store built by its operations over a graph that keeps the
  laws, \<open>query_related\<close> returns, and gives each node within the depth over edges with the
  label exactly once, with its attributes, and never the start node.\<close>

theorem query_related_exact:
  assumes "store_init G s0" and "reaches (store_step G) s0 s" and "has_node G nid s"
  shows "\<exists>xs. query_related G nid lb md s = Some (Inr xs) \<and> distinct (map fst xs) \<and>
    set (map fst xs) = reachn G lb (gst_graph s) nid md - {nid} \<and>
    list_all (\<lambda>(n, d). dget (dg_nodes G (gst_graph s)) n = Some d) xs"
proof -
  let ?g = "gst_graph s"
  have ok: "graph_ok G ?g" using store_ok_reachable [OF assms(1,2)] by simp
  have mem: "dmem nid (dg_nodes G ?g)" using assms(3) by (simp add: has_node_def)
  have dwf: "dwf (dg_nodes G ?g)" using ok by (simp add: graph_ok_def)
  have "bfs_inv G lb ?g nid md 0 [nid] [nid] []" by (simp add: bfs_inv_def succs_def)
  moreover have "card (set (dkeys (dg_nodes G ?g))) = length (dg_nodes G ?g)"
    using dwf distinct_card [of "map fst (dg_nodes G ?g)"] by (simp add: dwf_def dkeys_def)
  ultimately obtain vis where v: "bfs G lb md ?g (Suc (length (dg_nodes G ?g))) [nid] (level_queue 0 [nid] []) = Some vis"
    "distinct vis" "vis \<noteq> []" "hd vis = nid" "set vis = reachn G lb ?g nid md"
    using bfs_correct [of G lb ?g nid md 0 "[nid]" "[nid]" "[]" "set (dkeys (dg_nodes G ?g))" "Suc (length (dg_nodes G ?g))"]
      reachn_nodes [OF ok mem, of lb md] by auto
  obtain ns where vis: "vis = nid # ns" using v(3,4) by (cases vis) auto
  have tl: "set (tl vis) = reachn G lb ?g nid md - {nid}" "distinct (tl vis)"
    using v(2) unfolding v(5) [symmetric] vis by auto
  have "list_all (\<lambda>n. has_node G n s) (tl vis)"
    using tl(1) reachn_nodes [OF ok mem, of lb md] by (auto simp: list_all_iff has_node_def dmem_iff dkeys_def)
  from get_nodes_ok [OF this] obtain xs where xs: "get_nodes G (tl vis) s = Inr xs \<and> map fst xs = tl vis \<and>
    list_all (\<lambda>(n, d). dget (dg_nodes G ?g) n = Some d) xs" ..
  have "query_related G nid lb md s = Some (Inr xs)"
    using v(1) xs assms(3) by (simp add: query_related_def level_queue_def)
  with xs tl show ?thesis by (intro exI [of _ xs]) simp
qed

section \<open>Saving and loading\<close>

lemma touch_same: "dget ns n = Some a \<Longrightarrow> touch_node n [] ns = ns"
  by (simp add: touch_node_def dgetd_def dset_same)

lemma touch_new: "dget ns n = None \<Longrightarrow> dwf a \<Longrightarrow> touch_node n a ns = ns @ [(n, a)]"
  using dupdate_disjoint [of "[]" a] by (simp add: touch_node_def dgetd_def dset_absent)

lemma load_nodes_dump:
  assumes "digraph_laws G" "dwf (dg_nodes G g @ ns)" "list_all (\<lambda>(n, a). node_attrs_ok a) ns"
  shows "\<exists>g'. load_nodes G (map (\<lambda>(n, d). JObj ((''id'', JStr n) # d)) ns) g = Some g' \<and>
    dg_nodes G g' = dg_nodes G g @ ns \<and> dg_out G g' = dg_out G g"
  using assms(2,3)
proof (induction ns arbitrary: g)
  case (Cons x ns)
  obtain n a where x: "x = (n, a)" by fastforce
  let ?g = "dg_add_node G n a g"
  have a: "dwf a" "dget a ''id'' = None" using Cons.prems(2) x by (auto simp: node_attrs_ok_def)
  have "dget (dg_nodes G g) n = None" using Cons.prems(1) x by (auto simp: dwf_def map_of_eq_None_iff)
  then have nodes: "dg_nodes G ?g = dg_nodes G g @ [x]" using assms(1) x touch_new [OF _ a(1)] by (simp add: digraph_laws_def)
  have out: "dg_out G ?g = dg_out G g" using assms(1) by (auto simp: digraph_laws_def)
  from Cons.IH [of ?g] Cons.prems nodes obtain g' where
    "load_nodes G (map (\<lambda>(n, d). JObj ((''id'', JStr n) # d)) ns) ?g = Some g'" "dg_nodes G g' = dg_nodes G ?g @ ns"
    "dg_out G g' = dg_out G ?g" by auto
  with x nodes out a show ?case by (simp add: ddel_absent)
qed simp

definition edges_at :: "string \<Rightarrow> (string \<times> string \<times> attrs) list \<Rightarrow> (string, attrs) dict" where
  "edges_at x es = map snd (filter (\<lambda>e. fst e = x) es)"

lemma edges_at_simps [simp]:
  "edges_at x [] = []"
  "edges_at x ((u, e) # es) = (if u = x then e # edges_at x es else edges_at x es)"
  "edges_at x (es @ fs) = edges_at x es @ edges_at x fs"
  by (simp_all add: edges_at_def)

lemma load_edges_dump:
  assumes "digraph_laws G" "\<And>x. dwf (dg_out G g x @ edges_at x es)"
    "list_all (\<lambda>(u, v, a). edge_attrs_ok a \<and> dmem u (dg_nodes G g) \<and> dmem v (dg_nodes G g)) es"
  shows "\<exists>g'. load_edges G (map (\<lambda>(u, v, d). JObj ((''source'', JStr u) # (''target'', JStr v) # d)) es) g = Some g' \<and>
    dg_nodes G g' = dg_nodes G g \<and> (\<forall>x. dg_out G g' x = dg_out G g x @ edges_at x es)"
  using assms(2,3)
proof (induction es arbitrary: g)
  case (Cons e es)
  obtain u v a where e: "e = (u, v, a)" by (cases e) auto
  let ?g = "dg_add_edge G u v a g"
  have a: "dwf a" "dget a ''source'' = None" "dget a ''target'' = None" "dmem u (dg_nodes G g)" "dmem v (dg_nodes G g)"
    using Cons.prems(2) e by (auto simp: edge_attrs_ok_def)
  have nodes: "dg_nodes G ?g = dg_nodes G g" using assms(1) a by (auto simp: digraph_laws_def dmem_Some touch_same)
  have "dget (dg_out G g u) v = None" using Cons.prems(1) [of u] e by (auto simp: dwf_def map_of_eq_None_iff)
  then have out: "dg_out G ?g x = (if x = u then dg_out G g u @ [(v, a)] else dg_out G g x)" for x
    using assms(1) touch_new [OF _ a(1)] by (simp add: digraph_laws_def)
  have wf: "dwf (dg_out G ?g x @ edges_at x es)" for x using Cons.prems(1) [of x] e unfolding out by auto
  from Cons.IH [OF wf] Cons.prems(2) nodes obtain g' where g':
    "load_edges G (map (\<lambda>(u, v, d). JObj ((''source'', JStr u) # (''target'', JStr v) # d)) es) ?g = Some g'"
    "dg_nodes G g' = dg_nodes G ?g" "\<And>x. dg_out G g' x = dg_out G ?g x @ edges_at x es" by auto
  have "dg_out G g' x = dg_out G g x @ edges_at x (e # es)" for x using g'(3) e unfolding out by simp
  with g'(1,2) e nodes a show ?case by (simp add: ddel_absent)
qed simp

lemma edges_at_graph:
  assumes "graph_ok G g"
  shows "edges_at x (graph_edges G g) = dg_out G g x"
proof -
  have cc: "edges_at x (concat (map (\<lambda>(u, a). map (\<lambda>(v, d). (u, v, d)) (f u)) ns)) = (if dmem x ns then f x else [])"
    if "dwf ns" for ns :: "(string, attrs) dict" and f :: "string \<Rightarrow> (string, attrs) dict"
    using that
  proof (induction ns)
    case (Cons n ns)
    obtain u a where n: "n = (u, a)" by fastforce
    have "edges_at x (map (\<lambda>(v, d). (u, v, d)) es) = (if u = x then es else [])" for es by (induction es) auto
    moreover have "dwf ns" "\<not> dmem u ns" using Cons.prems n by (auto simp: dwf_def dmem_iff)
    ultimately show ?case using Cons.IH n by (auto simp: dmem_Cons)
  qed (simp add: dmem_def)
  have "dg_out G g x = []" if "\<not> dmem x (dg_nodes G g)"
  proof (rule ccontr)
    assume "dg_out G g x \<noteq> []"
    then obtain v d r where "dg_out G g x = (v, d) # r" by (cases "dg_out G g x") auto
    then have "dget (dg_out G g x) v = Some d" by simp
    with assms that show False unfolding graph_ok_def by blast
  qed
  moreover have "dwf (dg_nodes G g)" using assms by (simp add: graph_ok_def)
  note cc [OF this, of "dg_out G g"]
  ultimately show ?thesis by (simp add: graph_edges_def split: if_splits)
qed

text \<open>C35: the memory survives a restart. A store that saved itself to its path and a new store that
  loads the path have the same nodes with the same attributes in the same order, the same
  outgoing edges of every node, and the same counter, so fresh identifiers stay fresh.\<close>

theorem graph_save_load:
  assumes "store_init G s0" and "reaches (store_step G) s0 s" and "gst_path s = Some p" and "p \<noteq> []"
  shows "\<exists>s'. GraphStore G (Some p) (save_graph G s w) = Some s' \<and> gst_counter s' = gst_counter s \<and>
    dg_nodes G (gst_graph s') = dg_nodes G (gst_graph s) \<and> dg_out G (gst_graph s') = dg_out G (gst_graph s)"
proof -
  let ?g = "gst_graph s"
  have laws: "digraph_laws G" and ok: "graph_ok G ?g" using store_ok_reachable [OF assms(1,2)] by auto
  have e: "dg_nodes G (dg_empty G) = []" "\<And>x. dg_out G (dg_empty G) x = []" using laws by (auto simp: digraph_laws_def)
  have attrs: "list_all (\<lambda>(n, a). node_attrs_ok a) (dg_nodes G ?g)"
    using ok dget_iff_set [of "dg_nodes G ?g"] by (auto simp: graph_ok_def list_all_iff)
  have wf: "dwf (dg_nodes G ?g)" using ok by (simp add: graph_ok_def)
  obtain g1 where g1: "load_nodes G (map (\<lambda>(n, d). JObj ((''id'', JStr n) # d)) (dg_nodes G ?g)) (dg_empty G) = Some g1"
    "dg_nodes G g1 = dg_nodes G ?g" "dg_out G g1 = (\<lambda>x. [])"
    using load_nodes_dump [OF laws, of "dg_empty G" "dg_nodes G ?g"] attrs wf e by (auto simp: fun_eq_iff)
  have d1: "dwf (dg_out G g1 x @ edges_at x (graph_edges G ?g))" for x
    using ok by (simp add: g1(3) edges_at_graph graph_ok_def)
  have "list_all (\<lambda>(u, v, a). edge_attrs_ok a \<and> dmem u (dg_nodes G g1) \<and> dmem v (dg_nodes G g1)) (graph_edges G ?g)"
  proof -
    have "edge_attrs_ok a \<and> dmem u (dg_nodes G ?g) \<and> dmem v (dg_nodes G ?g)" if "(v, a) \<in> set (dg_out G ?g u)" for u v a
    proof -
      have "dwf (dg_out G ?g u)" using ok by (simp add: graph_ok_def)
      then have "dget (dg_out G ?g u) v = Some a" using that by (simp add: dget_iff_set)
      with ok show ?thesis unfolding graph_ok_def by blast
    qed
    then show ?thesis unfolding g1(2) by (auto simp: graph_edges_def list_all_iff)
  qed
  from load_edges_dump [OF laws d1 this] obtain g2 where g2:
    "load_edges G (map (\<lambda>(u, v, d). JObj ((''source'', JStr u) # (''target'', JStr v) # d)) (graph_edges G ?g)) g1 = Some g2"
    "dg_nodes G g2 = dg_nodes G ?g" "\<And>x. dg_out G g2 x = dg_out G ?g x"
    using g1(2,3) edges_at_graph [OF ok] by auto
  have "GraphStore G (Some p) (save_graph G s w) =
    Some \<lparr>gst_graph = g2, gst_path = Some p, gst_counter = gst_counter s\<rparr>"
    using assms(3,4) g1(1) g2(1) by (simp add: GraphStore_def load_graph_def save_graph_def graph_json_def dgetd_def)
  with g2 show ?thesis by auto
qed

section \<open>A concrete graph\<close>

text \<open>Node and adjacency dictionaries keep the laws: the hypotheses above can hold.\<close>

type_synonym list_graph = "(string, attrs) dict \<times> (string, (string, attrs) dict) dict"

definition list_graph_ops :: "list_graph digraph_ops" where
  "list_graph_ops = \<lparr>dg_empty = ([], []),
     dg_add_node = \<lambda>n a (ns, adj). (touch_node n a ns, adj),
     dg_add_edge = \<lambda>u v a (ns, adj). (touch_node v [] (touch_node u [] ns), dset u (touch_node v a (dgetd adj u [])) adj),
     dg_nodes = fst, dg_out = \<lambda>g x. dgetd (snd g) x [],
     dg_in = \<lambda>g x. map fst (filter (\<lambda>(u, es). dmem x es) (snd g))\<rparr>"

lemma list_graph_laws: "digraph_laws list_graph_ops"
  by (auto simp: digraph_laws_def list_graph_ops_def dgetd_def split: prod.splits)

definition empty_store :: "list_graph graph_store" where
  "empty_store = \<lparr>gst_graph = ([], []), gst_path = Some ''g.json'', gst_counter = 0\<rparr>"

definition demo_store :: "list_graph graph_store" where
  "demo_store = fst (add_node list_graph_ops TASK ''t'' [] empty_store)"

lemma demo_store_reach:
  "store_init list_graph_ops empty_store" "reaches (store_step list_graph_ops) empty_store demo_store"
proof -
  show "store_init list_graph_ops empty_store" by (simp add: store_init_def list_graph_laws empty_store_def) (simp add: list_graph_ops_def)
  show "reaches (store_step list_graph_ops) empty_store demo_store"
    unfolding demo_store_def by (rule reaches_one [of "store_step list_graph_ops"]) (rule store_step.intros)
qed

theorem query_related_exact_witness:
  "\<exists>xs. query_related list_graph_ops ''node_1'' None 2 demo_store = Some (Inr xs) \<and> distinct (map fst xs)"
proof -
  have "has_node list_graph_ops ''node_1'' demo_store"
    by code_simp
  from query_related_exact [OF demo_store_reach this] show ?thesis by blast
qed

theorem graph_save_load_witness:
  "\<exists>s'. GraphStore list_graph_ops (Some ''g.json'') (save_graph list_graph_ops demo_store \<lparr>docs = [], logs = []\<rparr>) = Some s' \<and>
     dg_nodes list_graph_ops (gst_graph s') = dg_nodes list_graph_ops (gst_graph demo_store)"
proof -
  have "gst_path demo_store = Some ''g.json''" by (simp add: demo_store_def add_node_def Let_def empty_store_def)
  from graph_save_load [OF demo_store_reach this, of "\<lparr>docs = [], logs = []\<rparr>"] show ?thesis by blast
qed

end
