(* ===== verification/Memory_Graph.thy ===== *)
theory Memory_Graph
  imports Graph_Store
begin

text \<open>
  The agent-facing memory of \<open>src/memory/memory_graph.py\<close> over the graph store: recording of
  a task with its agent and outcome, the history of an agent, and the keyword search.
\<close>

datatype task_outcome = SUCCESS | FAILURE | PARTIAL | ABORTED

primrec task_outcome_value :: "task_outcome \<Rightarrow> string" where
  "task_outcome_value SUCCESS = ''success''"
| "task_outcome_value FAILURE = ''failure''"
| "task_outcome_value PARTIAL = ''partial''"
| "task_outcome_value ABORTED = ''aborted''"

text \<open>The first agent node with the name.\<close>

definition find_agent :: "'g digraph_ops \<Rightarrow> string \<Rightarrow> 'g graph_store \<Rightarrow> string option" where
  "find_agent G name s = map_option fst (find (\<lambda>(n, d). dget d ''name'' = Some (JStr name)) (query_by_type G AGENT s))"

definition record_task ::
  "'g digraph_ops \<Rightarrow> string \<Rightarrow> string \<Rightarrow> task_outcome \<Rightarrow> attrs \<Rightarrow> 'g graph_store \<Rightarrow> 'g graph_store \<times> string" where
  "record_task G task_name agent_name out metadata s =
     (let (s1, task_id) = add_node G TASK task_name (dupdate [(''status'', JStr ''completed'')] metadata) s;
          (s2, agent_id) = (case find_agent G agent_name s1 of
              Some a \<Rightarrow> (s1, a) | None \<Rightarrow> add_node G AGENT agent_name [] s1);
          (s3, outcome_id) = add_node G OUTCOME (''outcome:'' @ task_name) [(''result'', JStr (task_outcome_value out))] s2;
          s4 = add_edge G agent_id task_id ''executed_by'' [] s3;
          s5 = add_edge G task_id outcome_id ''produced'' [] s4
      in (s5, task_id))"

definition query_tasks :: "'g digraph_ops \<Rightarrow> 'g graph_store \<Rightarrow> node list" where
  "query_tasks G s = query_by_type G TASK s"

fun outcome_rows :: "node \<Rightarrow> node list \<Rightarrow> (json \<times> json) list result" where
  "outcome_rows task [] = Inr []"
| "outcome_rows task (oc # ocs) =
     (case (dget (snd task) ''name'', dget (snd oc) ''attrs'') of
        (Some nm, Some (JObj a)) \<Rightarrow>
          bindr (outcome_rows task ocs) (\<lambda>rs. Inr ((nm, dgetd a ''result'' (JStr ''unknown'')) # rs))
      | (Some _, Some _) \<Rightarrow> Inl (attribute_error ''get'')
      | _ \<Rightarrow> Inl (Exn ''KeyError'' []))"

fun history_rows :: "'g digraph_ops \<Rightarrow> node list \<Rightarrow> 'g graph_store \<Rightarrow> (json \<times> json) list result option" where
  "history_rows G [] s = Some (Inr [])"
| "history_rows G (t # ts) s = (case query_related G (fst t) (Some ''produced'') 2 s of
      None \<Rightarrow> None
    | Some (Inl e) \<Rightarrow> Some (Inl e)
    | Some (Inr ocs) \<Rightarrow> (case outcome_rows t ocs of
          Inl e \<Rightarrow> Some (Inl e)
        | Inr rows \<Rightarrow> (case history_rows G ts s of
            None \<Rightarrow> None
          | Some r \<Rightarrow> Some (bindr r (\<lambda>rs. Inr (rows @ rs))))))"

text \<open>The history of an agent node; without one, or with an empty identifier, it is empty.\<close>

definition node_history :: "'g digraph_ops \<Rightarrow> string option \<Rightarrow> 'g graph_store \<Rightarrow> (json \<times> json) list result option" where
  "node_history G agent_id s = (case agent_id of
      None \<Rightarrow> Some (Inr [])
    | Some aid \<Rightarrow> if aid = [] then Some (Inr []) else
        (case query_related G aid (Some ''executed_by'') 2 s of
           None \<Rightarrow> None
         | Some (Inl e) \<Rightarrow> Some (Inl e)
         | Some (Inr tasks) \<Rightarrow> history_rows G tasks s))"

definition get_agent_history :: "'g digraph_ops \<Rightarrow> string \<Rightarrow> 'g graph_store \<Rightarrow> (json \<times> json) list result option" where
  "get_agent_history G agent_name s = node_history G (find_agent G agent_name s) s"

text \<open>\<open>set(t for t in re.split(r"[\W_]+", text.lower()) if t)\<close>: the alphanumeric runs.\<close>

definition is_alnum :: "char \<Rightarrow> bool" where
  "is_alnum c \<longleftrightarrow> is_alpha c \<or> is_digit c"

fun words_aux :: "string \<Rightarrow> string \<Rightarrow> string list" where
  "words_aux acc [] = (if acc = [] then [] else [rev acc])"
| "words_aux acc (c # cs) = (if is_alnum c then words_aux (c # acc) cs
     else if acc = [] then words_aux [] cs else rev acc # words_aux [] cs)"

definition words :: "string \<Rightarrow> string list" where
  "words s = remdups (words_aux [] (lower s))"

definition similarity :: "string list \<Rightarrow> node \<Rightarrow> nat" where
  "similarity terms task = (case dgetd (snd task) ''name'' (JStr []) of
      JStr n \<Rightarrow> count_if (\<lambda>w. List.member (words n) w) terms | _ \<Rightarrow> 0)"

definition find_similar :: "'g digraph_ops \<Rightarrow> string \<Rightarrow> nat \<Rightarrow> 'g graph_store \<Rightarrow> node list" where
  "find_similar G query max_results s =
     (let terms = words query;
          scored = filter (\<lambda>(n, t). 0 < n) (map (\<lambda>t. (similarity terms t, t)) (query_tasks G s))
      in map snd (take max_results (sort_desc (\<lambda>x. real (fst x)) scored)))"

section \<open>Search and history\<close>

lemma sort_desc_map_zero: "0 < n \<Longrightarrow> (n, t) \<in> set (sort_desc (\<lambda>x. real (fst x)) xs) \<Longrightarrow> (n, t) \<in> set xs"
  by simp

text \<open>The search returns the best matches. At most \<open>max_results\<close> tasks come back, each a task
  of the graph that shares a word with the query, in descending order of the number of
  shared words, and no task left out shares more words than the last one returned.\<close>

theorem find_similar_best:
  assumes "query_tasks G s = ts"
  shows "length (find_similar G query n s) \<le> n \<and>
    list_all (\<lambda>t. 0 < similarity (words query) t \<and> List.member ts t) (find_similar G query n s) \<and>
    sorted_wrt (\<lambda>a b. similarity (words query) b \<le> similarity (words query) a) (find_similar G query n s) \<and>
    (\<forall>t \<in> set ts. 0 < similarity (words query) t \<longrightarrow> t \<notin> set (find_similar G query n s) \<longrightarrow>
       list_all (\<lambda>b. similarity (words query) t \<le> similarity (words query) b) (find_similar G query n s) \<and>
       length (find_similar G query n s) = n)"
proof -
  let ?f = "\<lambda>x :: nat \<times> node. real (fst x)"
  let ?sim = "similarity (words query)"
  let ?sc = "filter (\<lambda>(n, t). 0 < n) (map (\<lambda>t. (?sim t, t)) ts)"
  let ?so = "sort_desc ?f ?sc"
  have fs: "find_similar G query n s = map snd (take n ?so)" using assms by (simp add: find_similar_def Let_def)
  have pair: "fst x = ?sim (snd x) \<and> 0 < fst x \<and> snd x \<in> set ts" if "x \<in> set ?so" for x using that by auto
  have sorted: "sorted_wrt (\<lambda>x y. ?f y \<le> ?f x) ?so" by (rule sorted_sort_desc)
  have "sorted_wrt (\<lambda>x y. ?sim (snd y) \<le> ?sim (snd x)) ?so"
  proof (rule sorted_wrt_mono_rel [OF _ sorted])
    fix x y assume x: "x \<in> set ?so" and y: "y \<in> set ?so" and le: "?f y \<le> ?f x"
    show "?sim (snd y) \<le> ?sim (snd x)" using pair [OF x] pair [OF y] le by simp
  qed
  then have ord: "sorted_wrt (\<lambda>a b. ?sim b \<le> ?sim a) (map snd ?so)" by (simp add: sorted_wrt_map)
  have rest: "list_all (\<lambda>b. ?sim t \<le> ?sim b) (map snd (take n ?so)) \<and> length (map snd (take n ?so)) = n"
    if t: "t \<in> set ts" "0 < ?sim t" "t \<notin> set (map snd (take n ?so))" for t
  proof -
    have "(?sim t, t) \<in> set ?so" unfolding set_sort_desc set_filter set_map using t(1,2) by blast
    from imageI [OF this, of snd] have m: "t \<in> set (map snd ?so)" by simp
    from take_sorted_best [OF ord m, of n] t(3) show ?thesis unfolding take_map list_all_iff by simp
  qed
  have "sorted_wrt (\<lambda>a b. ?sim b \<le> ?sim a) (map snd (take n ?so))"
    using sorted_wrt_take [OF ord, of n] by (simp only: take_map)
  moreover have "list_all (\<lambda>t. 0 < ?sim t \<and> List.member ts t) (map snd (take n ?so))"
    unfolding list_all_iff List.member_iff set_map ball_simps
  proof
    fix x assume "x \<in> set (take n ?so)"
    then have "x \<in> set ?so" by (rule in_set_takeD)
    from pair [OF this] show "0 < ?sim (snd x) \<and> snd x \<in> set ts" by (simp only:) simp
  qed
  ultimately show ?thesis using rest unfolding fs by simp
qed

definition demo_memory :: "list_graph graph_store" where
  "demo_memory = fst (record_task list_graph_ops ''fix_bug'' ''Bob'' FAILURE []
     (fst (record_task list_graph_ops ''add_api'' ''Bob'' SUCCESS [] empty_store)))"

theorem find_similar_best_witness:
  "length (find_similar list_graph_ops ''fix api'' 1 demo_memory) \<le> 1"
  using find_similar_best [OF refl, of list_graph_ops "''fix api''" 1 demo_memory] by blast

text \<open>The history of an agent is in the order of recording, the oldest first.\<close>

lemma history_oldest_first:
  "get_agent_history list_graph_ops ''Bob'' demo_memory =
     Some (Inr [(JStr ''add_api'', JStr ''success''), (JStr ''fix_bug'', JStr ''failure'')])"
  by code_simp

end
