(* ===== verification/Embed_Quota.thy ===== *)
theory Embed_Quota
  imports State_Manager
begin

text \<open>
  The daily embedding budget of \<open>src/services/embed_quota.py\<close>, kept in the memory of a
  state manager under one key and written to its file. Dates are day numbers; the parser of
  ISO dates (standard library) is the parameter \<open>fromiso\<close>, \<open>today\<close> the key of the day
  and \<open>day\<close> its number. The interface \<open>budget\<close> states what a budget promises its
  clients: spending what is allowed never passes the cap.
\<close>

section \<open>The interface of a budget\<close>

locale budget =
  fixes spent :: "'s \<Rightarrow> int"
    and allowed :: "int \<Rightarrow> 's \<Rightarrow> bool"
    and charge :: "int \<Rightarrow> 's \<Rightarrow> 's"
    and cap :: int
    and ok :: "'s \<Rightarrow> bool"
  assumes allowed_cap: "ok s \<Longrightarrow> 0 < n \<Longrightarrow> allowed n s \<Longrightarrow> spent s + n \<le> cap"
    and spent_charge: "ok s \<Longrightarrow> 0 < n \<Longrightarrow> allowed n s \<Longrightarrow> spent (charge n s) \<le> spent s + n"
    and ok_charge: "ok s \<Longrightarrow> 0 < n \<Longrightarrow> allowed n s \<Longrightarrow> ok (charge n s)"
begin

definition spend :: "int \<Rightarrow> 's \<Rightarrow> 's" where
  "spend n s = (if 0 < n \<and> allowed n s then charge n s else s)"

definition spend_all :: "int list \<Rightarrow> 's \<Rightarrow> 's" where
  "spend_all ns s = fold spend ns s"

lemma spend_ok: "ok s \<Longrightarrow> ok (spend n s)"
  by (simp add: spend_def ok_charge)

lemma spend_cap: "ok s \<Longrightarrow> spent s \<le> cap \<Longrightarrow> spent (spend n s) \<le> cap"
  using allowed_cap [of s n] spent_charge [of s n] by (auto simp: spend_def)

lemma spend_all_cap: "ok s \<Longrightarrow> spent s \<le> cap \<Longrightarrow> spent (spend_all ns s) \<le> cap \<and> ok (spend_all ns s)"
  unfolding spend_all_def
  by (induction ns arbitrary: s) (auto simp: spend_ok spend_cap)

end

section \<open>The quota\<close>

definition EMBED_STATE_KEY :: string where
  "EMBED_STATE_KEY = ''embed_quota''"

definition RETAIN_DAYS :: int where
  "RETAIN_DAYS = 7"

text \<open>\<open>int(v)\<close> of a JSON value.\<close>

definition parse_int :: "string \<Rightarrow> int option" where
  "parse_int text = (let (neg, ds) = split_sign (strip text) in
     if ds = [] \<or> \<not> list_all is_digit ds then None
     else Some (if neg then - int (digits_val 0 ds) else int (digits_val 0 ds)))"

definition json_int :: "json \<Rightarrow> int result" where
  "json_int v = (case v of
      JInt i \<Rightarrow> Inr i
    | JBool b \<Rightarrow> Inr (if b then 1 else 0)
    | JFloat x \<Rightarrow> Inr (if 0 \<le> x then \<lfloor>x\<rfloor> else \<lceil>x\<rceil>)
    | JStr s \<Rightarrow> (case parse_int s of None \<Rightarrow> Inl (Exn ''ValueError'' s) | Some i \<Rightarrow> Inr i)
    | _ \<Rightarrow> Inl (Exn ''TypeError'' ''int()''))"

fun int_entries :: "(string \<times> json) list \<Rightarrow> (string, int) dict result" where
  "int_entries [] = Inr []"
| "int_entries ((k, v) # kvs) = bindr (json_int v) (\<lambda>i. bindr (int_entries kvs) (\<lambda>es. Inr ((k, i) # es)))"

definition bucket :: "state_manager \<Rightarrow> (string, int) dict result" where
  "bucket sm = (case dgetd (sm_data sm) EMBED_STATE_KEY (JObj []) of
      JObj raw \<Rightarrow> int_entries raw
    | _ \<Rightarrow> Inr [])"

text \<open>\<open>_save\<close>: prune, put into the manager's memory, write the whole memory.\<close>

definition prune :: "(string \<Rightarrow> int option) \<Rightarrow> int \<Rightarrow> (string, int) dict \<Rightarrow> (string, int) dict" where
  "prune fromiso day b = filter (\<lambda>(k, v). case fromiso k of None \<Rightarrow> False | Some d \<Rightarrow> day - RETAIN_DAYS \<le> d) b"

definition save_bucket ::
  "(string \<Rightarrow> int option) \<Rightarrow> int \<Rightarrow> fault \<Rightarrow> string \<Rightarrow> (string, int) dict \<Rightarrow> state_manager \<Rightarrow> fs
    \<Rightarrow> state_manager \<times> fs \<times> unit result" where
  "save_bucket fromiso day flt tmp b sm w =
     (let pruned = prune fromiso day b;
          sm' = sm\<lparr>sm_data := dset EMBED_STATE_KEY (JObj (map (\<lambda>(k, v). (k, JInt v)) pruned)) (sm_data sm)\<rparr>
      in case atomic_write_json flt tmp (sm_filename sm') (sm_data sm') w of (w', r) \<Rightarrow> (sm', w', r))"

definition used_today :: "string \<Rightarrow> state_manager \<Rightarrow> int result" where
  "used_today today sm = bindr (bucket sm) (\<lambda>b. Inr (dgetd b today 0))"

definition remaining_today :: "int \<Rightarrow> string \<Rightarrow> state_manager \<Rightarrow> int result" where
  "remaining_today cap today sm = bindr (used_today today sm) (\<lambda>u. Inr (max 0 (cap - u)))"

definition check_quota_tokens :: "int \<Rightarrow> string \<Rightarrow> int \<Rightarrow> state_manager \<Rightarrow> unit result" where
  "check_quota_tokens cap today requested sm =
     (if requested \<le> 0 then Inr ()
      else bindr (used_today today sm) (\<lambda>u.
        if cap < u + requested then Inl (Exn ''EmbedQuotaExceeded''
          (''daily embed cap '' @ str_of_int cap @ '' would be exceeded (used='' @ str_of_int u @
           '', requested='' @ str_of_int requested @ '')''))
        else Inr ()))"

definition record_usage ::
  "(string \<Rightarrow> int option) \<Rightarrow> int \<Rightarrow> string \<Rightarrow> fault \<Rightarrow> string \<Rightarrow> int \<Rightarrow> state_manager \<Rightarrow> fs
    \<Rightarrow> state_manager \<times> fs \<times> int result" where
  "record_usage fromiso day today flt tmp tokens sm w =
     (if tokens \<le> 0 then (sm, w, used_today today sm)
      else case bucket sm of
        Inl e \<Rightarrow> (sm, w, Inl e)
      | Inr b0 \<Rightarrow>
         (let n = dgetd b0 today 0 + tokens in
          case save_bucket fromiso day flt tmp (dset today n b0) sm w of
            (sm', w', Inl e) \<Rightarrow> (sm', w', Inl e)
          | (sm', w', Inr _) \<Rightarrow> (sm', w', Inr n)))"

definition estimate_tokens :: "string list \<Rightarrow> int" where
  "estimate_tokens texts = sum_list (map (\<lambda>t. max 1 (int (length t) div 4)) texts)"

section \<open>The budget holds\<close>

lemma int_entries_JInt [simp]: "int_entries (map (\<lambda>(k, v). (k, JInt v)) b) = Inr b"
  by (induction b) (auto simp: json_int_def)

lemma bucket_save:
  "bucket (fst (save_bucket fromiso day flt tmp b sm w)) = Inr (prune fromiso day b)"
  by (simp add: save_bucket_def Let_def bucket_def dgetd_def split: prod.splits)

lemma dget_prune_today:
  assumes "fromiso today = Some day"
  shows "dget (prune fromiso day b) today = dget b today"
proof (induction b)
  case (Cons a b)
  with assms show ?case by (cases a) (auto simp: prune_def RETAIN_DAYS_def split: option.splits)
qed (simp add: prune_def)

lemma used_after_record:
  assumes "fromiso today = Some day" "0 < n" "used_today today sm = Inr u"
  shows "used_today today (fst (record_usage fromiso day today flt tmp n sm w)) = Inr (u + n)"
proof -
  obtain b where b: "bucket sm = Inr b" "dgetd b today 0 = u"
    using assms(3) by (auto simp: used_today_def result_simps)
  obtain sm' w' r where s: "save_bucket fromiso day flt tmp (dset today (u + n) b) sm w = (sm', w', r)" by (metis prod_cases3)
  from bucket_save [of fromiso day flt tmp "dset today (u + n) b" sm w] s
  have "bucket sm' = Inr (prune fromiso day (dset today (u + n) b))" by simp
  then have "used_today today sm' = Inr (u + n)"
    using dget_prune_today [where fromiso = fromiso and today = today and day = day, OF assms(1), of "dset today (u + n) b"] by (simp add: used_today_def dgetd_def)
  with assms(2) b s show ?thesis by (auto simp: record_usage_def Let_def split: sum.splits)
qed

definition quota_used :: "string \<Rightarrow> state_manager \<times> fs \<Rightarrow> int" where
  "quota_used today s = (case used_today today (fst s) of Inr u \<Rightarrow> u | Inl e \<Rightarrow> 0)"

definition quota_allows :: "int \<Rightarrow> string \<Rightarrow> int \<Rightarrow> state_manager \<times> fs \<Rightarrow> bool" where
  "quota_allows cap today n s \<longleftrightarrow> (case check_quota_tokens cap today n (fst s) of Inr _ \<Rightarrow> True | Inl e \<Rightarrow> False)"

definition quota_charge ::
  "(string \<Rightarrow> int option) \<Rightarrow> int \<Rightarrow> string \<Rightarrow> fault \<Rightarrow> string \<Rightarrow> int \<Rightarrow> state_manager \<times> fs \<Rightarrow> state_manager \<times> fs" where
  "quota_charge fromiso day today flt tmp n s =
     (case record_usage fromiso day today flt tmp n (fst s) (snd s) of (sm, w, r) \<Rightarrow> (sm, w))"

definition quota_ok :: "(string \<Rightarrow> int option) \<Rightarrow> int \<Rightarrow> string \<Rightarrow> state_manager \<times> fs \<Rightarrow> bool" where
  "quota_ok fromiso day today s \<longleftrightarrow> fromiso today = Some day \<and> (\<exists>u. used_today today (fst s) = Inr u)"

interpretation embed: budget "quota_used today" "quota_allows cap today" "quota_charge fromiso day today flt tmp" cap
  "quota_ok fromiso day today"
  for today cap fromiso day flt tmp
proof
  fix s :: "state_manager \<times> fs" and n :: int
  assume ok: "quota_ok fromiso day today s" and n: "0 < n"
  then obtain u where f: "fromiso today = Some day" and u: "used_today today (fst s) = Inr u" by (auto simp: quota_ok_def)
  obtain sm w r where s: "record_usage fromiso day today flt tmp n (fst s) (snd s) = (sm, w, r)" by (metis prod_cases3)
  have used: "used_today today sm = Inr (u + n)"
    using used_after_record [where fromiso = fromiso and today = today and day = day, OF f n u, of flt tmp "snd s"] s by simp
  show "quota_used today s + n \<le> cap" if "quota_allows cap today n s"
    using that n u by (auto simp: quota_used_def quota_allows_def check_quota_tokens_def split: sum.splits if_splits)
  show "quota_used today (quota_charge fromiso day today flt tmp n s) \<le> quota_used today s + n"
    using used u s by (simp add: quota_used_def quota_charge_def)
  show "quota_ok fromiso day today (quota_charge fromiso day today flt tmp n s)"
    using used f s by (simp add: quota_ok_def quota_charge_def)
qed

text \<open>A client that embeds: it checks its estimate and records what it checked.\<close>

fun embed_calls ::
  "(string \<Rightarrow> int option) \<Rightarrow> int \<Rightarrow> string \<Rightarrow> int \<Rightarrow> fault \<Rightarrow> string \<Rightarrow> int list \<Rightarrow> state_manager \<times> fs \<Rightarrow> state_manager \<times> fs" where
  "embed_calls fromiso day today cap flt tmp [] s = s"
| "embed_calls fromiso day today cap flt tmp (n # ns) s =
     (case check_quota_tokens cap today n (fst s) of
        Inl e \<Rightarrow> embed_calls fromiso day today cap flt tmp ns s
      | Inr _ \<Rightarrow> (case record_usage fromiso day today flt tmp n (fst s) (snd s) of
            (sm, w, r) \<Rightarrow> embed_calls fromiso day today cap flt tmp ns (sm, w)))"

lemma embed_calls_spend:
  "embed_calls fromiso day today cap flt tmp ns s = embed.spend_all cap today fromiso day flt tmp ns s"
proof (induction ns arbitrary: s)
  case (Cons n ns)
  have "(case check_quota_tokens cap today n (fst s) of Inl e \<Rightarrow> s
    | Inr _ \<Rightarrow> (case record_usage fromiso day today flt tmp n (fst s) (snd s) of (sm, w, r) \<Rightarrow> (sm, w)))
    = embed.spend cap today fromiso day flt tmp n s"
    by (auto simp: embed.spend_def quota_allows_def quota_charge_def record_usage_def split: sum.splits prod.splits)
  then show ?case using Cons
    by (auto simp: embed.spend_all_def split: sum.splits prod.splits)
qed (simp add: embed.spend_all_def)

text \<open>The daily cap holds. A client that checks each request and records the tokens it was
  granted, in any number of calls of one day, from a readable bucket within the cap, even
  when writes of the file fail, ends the day with at most the cap used.\<close>

theorem embed_quota_cap:
  assumes "fromiso today = Some day" and "used_today today (fst s) = Inr u" and "u \<le> cap"
  shows "\<exists>u'. used_today today (fst (embed_calls fromiso day today cap flt tmp ns s)) = Inr u' \<and> u' \<le> cap"
proof -
  have "quota_ok fromiso day today s" "quota_used today s \<le> cap" using assms by (simp_all add: quota_ok_def quota_used_def)
  from embed.spend_all_cap [OF this, of flt tmp ns] show ?thesis
    by (auto simp: embed_calls_spend quota_ok_def quota_used_def)
qed

definition demo_day :: "string \<Rightarrow> int option" where
  "demo_day s = (if s = ''2024-01-02'' then Some 1 else None)"

theorem embed_quota_cap_witness:
  "\<exists>u'. used_today ''2024-01-02'' (fst (embed_calls demo_day 1 ''2024-01-02'' 10 NoFault ''t'' [6, 6, 4]
     (demo_manager ''s'' [], \<lparr>docs = [], logs = []\<rparr>))) = Inr u' \<and> u' \<le> 10"
  by (rule embed_quota_cap [of _ _ _ _ 0])
     (simp_all add: demo_day_def used_today_def bucket_def demo_manager_def dgetd_def)

text \<open>Recording usage overwrites what other managers wrote. The record writes the whole memory
  of its manager without reading the file or taking its lock: a task that another manager
  stored after this one loaded, and that is not in this memory, is gone from the file.\<close>

theorem quota_record_drops_foreign:
  assumes "0 < n" and "bucket sm = Inr b" and "\<not> dmem tmp (docs w)" and "tmp \<noteq> sm_filename sm"
    and "k \<noteq> EMBED_STATE_KEY" and "dget (sm_data sm) k = None"
  shows "on_disk (sm_filename sm) (fst (snd (record_usage fromiso day today NoFault tmp n sm w))) k = None"
proof -
  let ?m = "dset EMBED_STATE_KEY (JObj (map (\<lambda>(k, v). (k, JInt v)) (prune fromiso day (dset today (dgetd b today 0 + n) b)))) (sm_data sm)"
  obtain w' r where a: "atomic_write_json NoFault tmp (sm_filename sm) ?m w = (w', r)" by fastforce
  from atomic_write_cases [OF assms(3,4), of NoFault ?m] a
  have "r = Inr ()" "dget (docs w') (sm_filename sm) = Some (Doc (JObj ?m))" by auto
  with a assms show ?thesis
    by (simp add: record_usage_def save_bucket_def Let_def on_disk_def read_on_disk_def)
qed

theorem quota_record_drops_foreign_witness:
  "on_disk ''s'' (fst (snd (record_usage demo_day 1 ''2024-01-02'' NoFault ''t'' 5 (demo_manager ''s'' [])
     \<lparr>docs = [(''s'', Doc (JObj [(''task'', JObj [])]))], logs = []\<rparr>))) ''task'' = None"
  using quota_record_drops_foreign [of 5 "demo_manager ''s'' []" "[]" "''t''"
      "\<lparr>docs = [(''s'', Doc (JObj [(''task'', JObj [])]))], logs = []\<rparr>" "''task''" demo_day 1 "''2024-01-02''"]
  by (simp add: bucket_def demo_manager_def dgetd_def dmem_def EMBED_STATE_KEY_def)

end
