(* ===== verification/Self_Prompt.thy ===== *)
theory Self_Prompt
  imports Embed_Quota Phases Json_Text Quality_Gates
begin

text \<open>
  The self-prompting loop of \<open>src/services/self_prompt.py\<close>: signal collectors, the hourly
  rate limiter kept in the state file, the synthesiser with its deduplication and
  generation cap, the dispatcher and one pass. SHA-256, ISO dates, float texts and the
  order in which a Python set lists its elements are parameters.
\<close>

section \<open>Prompts and signals\<close>

definition MAX_GENERATION :: int where
  "MAX_GENERATION = 2"

record self_prompt =
  sp_phase :: phase
  sp_intent :: string
  sp_evidence :: "string list"
  sp_priority :: int
  sp_generation :: int

record gap_signal =
  gs_source :: string
  gs_intent :: string
  gs_phase :: phase
  gs_evidence :: "json list"
  gs_priority :: int

definition hash_key :: "(string \<Rightarrow> string) \<Rightarrow> self_prompt \<Rightarrow> string" where
  "hash_key sha p = sha (phase_value (sp_phase p) @ ''|'' @ lower (strip (sp_intent p)))"

fun all_strings :: "json list \<Rightarrow> string list option" where
  "all_strings [] = Some []"
| "all_strings (JStr s # vs) = map_option (\<lambda>ss. s # ss) (all_strings vs)"
| "all_strings (v # vs) = None"

text \<open>The validating constructor.\<close>

definition SelfPrompt :: "phase \<Rightarrow> string \<Rightarrow> json list \<Rightarrow> int \<Rightarrow> int \<Rightarrow> self_prompt result" where
  "SelfPrompt ph intent evidence priority generation = (case all_strings evidence of
      None \<Rightarrow> Inl (Exn ''ValidationError'' ''evidence_refs'')
    | Some ev \<Rightarrow> if intent = [] then Inl (Exn ''ValidationError'' ''intent'')
        else if priority < 1 \<or> 5 < priority then Inl (Exn ''ValidationError'' ''priority'')
        else if generation < 0 then Inl (Exn ''ValidationError'' ''generation'')
        else Inr \<lparr>sp_phase = ph, sp_intent = intent, sp_evidence = ev, sp_priority = priority, sp_generation = generation\<rparr>)"

section \<open>Collectors\<close>

datatype coverage_xml = XmlMissing | XmlParseError | XmlClasses "(string, string) dict list"

text \<open>Signals are collected by a loop that a raise ends.\<close>

fun collect :: "('a \<Rightarrow> gap_signal option result) \<Rightarrow> 'a list \<Rightarrow> gap_signal list result" where
  "collect f [] = Inr []"
| "collect f (x # xs) = bindr (f x) (\<lambda>s. bindr (collect f xs) (\<lambda>ss. Inr (case s of None \<Rightarrow> ss | Some g \<Rightarrow> g # ss)))"

definition coverage_signal :: "(string, string) dict \<Rightarrow> gap_signal option result" where
  "coverage_signal attrib =
     (case (case dget attrib ''line-rate'' of None \<Rightarrow> Some 1 | Some t \<Rightarrow> py_float t) of
        None \<Rightarrow> Inl (Exn ''ValueError'' ''could not convert string to float'')
      | Some rate \<Rightarrow>
         (let filename = dgetd attrib ''filename'' [] in
          if rate < 1 / 2 \<and> filename \<noteq> []
          then Inr (Some \<lparr>gs_source = ''coverage'',
            gs_intent = ''raise coverage in '' @ filename @ '' (currently '' @ fmt_percent 0 rate @ '')'',
            gs_phase = IMPLEMENT, gs_evidence = [JStr filename], gs_priority = (if rate < 1 / 4 then 2 else 3)\<rparr>)
          else Inr None))"

definition collect_coverage_signals :: "coverage_xml \<Rightarrow> gap_signal list result" where
  "collect_coverage_signals x = (case x of
      XmlMissing \<Rightarrow> Inr [] | XmlParseError \<Rightarrow> Inr [] | XmlClasses cs \<Rightarrow> collect coverage_signal cs)"

definition last_n :: "nat \<Rightarrow> 'a list \<Rightarrow> 'a list" where
  "last_n n xs = drop (length xs - n) xs"

definition event_signal :: "(real \<Rightarrow> string) \<Rightarrow> json \<Rightarrow> gap_signal option result" where
  "event_signal frepr ev = (case ev of
      JObj d \<Rightarrow>
        if dgetd d ''action'' JNull \<noteq> JStr ''phase.transition.blocked'' then Inr None
        else (let task_id = dgetd d ''task_id'' (JStr ''unknown''); reason = dgetd d ''reason'' (JStr ''blocked'') in
          Inr (Some \<lparr>gs_source = ''events'',
            gs_intent = ''resolve blocked transition for '' @ py_str frepr task_id @ '': '' @ py_str frepr reason,
            gs_phase = REVIEW, gs_evidence = [task_id], gs_priority = 2\<rparr>))
    | _ \<Rightarrow> Inl (attribute_error ''get''))"

definition collect_event_log_signals :: "(real \<Rightarrow> string) \<Rightarrow> nat \<Rightarrow> state_manager \<Rightarrow> fs \<Rightarrow> gap_signal list result" where
  "collect_event_log_signals frepr limit sm w = collect (event_signal frepr) (last_n limit (get_all_events sm w))"

text \<open>What \<open>datetime.fromisoformat\<close> makes of a text; naive and aware times do not subtract.\<close>

datatype iso_time = BadIso | Naive | Aware real

definition slice80 :: "json \<Rightarrow> json result" where
  "slice80 v = (case v of JStr s \<Rightarrow> Inr (JStr (take 80 s)) | JArr xs \<Rightarrow> Inr (JArr (take 80 xs))
     | _ \<Rightarrow> Inl (Exn ''TypeError'' ''not subscriptable''))"

definition backlog_signal :: "(real \<Rightarrow> string) \<Rightarrow> (string \<Rightarrow> iso_time) \<Rightarrow> real \<Rightarrow> real \<Rightarrow> string \<Rightarrow> gap_signal option result" where
  "backlog_signal frepr fromiso now max_age_hours line0 =
     (let line = strip line0 in
      if line = [] then Inr None
      else case loads line of
        None \<Rightarrow> Inr None
      | Some (JObj entry) \<Rightarrow>
         (let ts = dgetd entry ''timestamp'' JNull in
          if \<not> truthy ts then Inr None
          else case ts of
            JStr s \<Rightarrow> (case fromiso s of
                BadIso \<Rightarrow> Inr None
              | Naive \<Rightarrow> Inl (Exn ''TypeError'' ''offset-naive and offset-aware'')
              | Aware t \<Rightarrow>
                 (let age_h = (now - t) / 3600 in
                  if age_h \<le> max_age_hours then Inr None
                  else bindr (slice80 (dgetd entry ''prompt'' (JStr []))) (\<lambda>p.
                    Inr (Some \<lparr>gs_source = ''backlog'',
                      gs_intent = ''drain stale prompt queued '' @ fmt_fixed 1 age_h @ ''h ago by '' @
                        py_str frepr (dgetd entry ''user_id'' (JStr ''unknown'')),
                      gs_phase = PLAN, gs_evidence = [p], gs_priority = 3\<rparr>))))
          | _ \<Rightarrow> Inl (Exn ''TypeError'' ''fromisoformat''))
      | Some _ \<Rightarrow> Inl (attribute_error ''get''))"

definition collect_backlog_signals ::
  "(real \<Rightarrow> string) \<Rightarrow> (string \<Rightarrow> iso_time) \<Rightarrow> real \<Rightarrow> real \<Rightarrow> string option \<Rightarrow> gap_signal list result" where
  "collect_backlog_signals frepr fromiso now max_age_hours queue_text = (case queue_text of
      None \<Rightarrow> Inr []
    | Some text \<Rightarrow> collect (backlog_signal frepr fromiso now max_age_hours) (splitlines text))"

section \<open>The hourly limiter\<close>

record prompt_limiter =
  pl_max :: nat
  pl_window :: "iso_time list"

definition self_prompt_state :: "state_manager \<Rightarrow> (string, json) dict result" where
  "self_prompt_state sm = (case dgetd (sm_data sm) ''self_prompt'' (JObj []) of
      JObj d \<Rightarrow> Inr d | _ \<Rightarrow> Inl (attribute_error ''get''))"

definition window_times :: "(string \<Rightarrow> iso_time) \<Rightarrow> json list \<Rightarrow> iso_time list" where
  "window_times fromiso vs = concat (map (\<lambda>v. case v of
      JStr s \<Rightarrow> (case fromiso s of BadIso \<Rightarrow> [] | t \<Rightarrow> [t]) | _ \<Rightarrow> []) vs)"

definition prompt_limiter_load :: "(string \<Rightarrow> iso_time) \<Rightarrow> nat \<Rightarrow> state_manager \<Rightarrow> prompt_limiter result" where
  "prompt_limiter_load fromiso mx sm = bindr (self_prompt_state sm) (\<lambda>d.
     case dgetd d ''window'' (JArr []) of
       JArr vs \<Rightarrow> Inr \<lparr>pl_max = mx, pl_window = window_times fromiso vs\<rparr>
     | JStr s \<Rightarrow> Inr \<lparr>pl_max = mx, pl_window = window_times fromiso (map (\<lambda>c. JStr [c]) s)\<rparr>
     | JObj o1 \<Rightarrow> Inr \<lparr>pl_max = mx, pl_window = window_times fromiso (map JStr (dkeys o1))\<rparr>
     | _ \<Rightarrow> Inl (Exn ''TypeError'' ''not iterable''))"

text \<open>\<open>_save\<close> writes the manager's memory over the file, without its lock.\<close>

definition plain_write :: "state_manager \<Rightarrow> fs \<Rightarrow> fs" where
  "plain_write sm w = (if sm_storage_type sm = ''json''
     then w\<lparr>docs := dset (sm_filename sm) (Doc (JObj (sm_data sm))) (docs w)\<rparr> else w)"

definition put_self_prompt :: "string \<Rightarrow> json \<Rightarrow> state_manager \<Rightarrow> fs \<Rightarrow> state_manager \<times> fs \<times> unit result" where
  "put_self_prompt k v sm w =
     (case dgetd (sm_data sm) ''self_prompt'' (JObj []) of
        JObj d \<Rightarrow> (let sm' = sm\<lparr>sm_data := dset ''self_prompt'' (JObj (dset k v d)) (sm_data sm)\<rparr> in (sm', plain_write sm' w, Inr ()))
      | _ \<Rightarrow> (sm, w, Inl (Exn ''TypeError'' ''item assignment'')))"

fun drop_old :: "real \<Rightarrow> iso_time list \<Rightarrow> iso_time list result" where
  "drop_old now [] = Inr []"
| "drop_old now (t # ts) = (case t of
      Aware x \<Rightarrow> if 3600 < now - x then drop_old now ts else Inr (t # ts)
    | _ \<Rightarrow> Inl (Exn ''TypeError'' ''offset-naive and offset-aware''))"

definition try_consume ::
  "(iso_time \<Rightarrow> string) \<Rightarrow> real \<Rightarrow> prompt_limiter \<Rightarrow> state_manager \<Rightarrow> fs
    \<Rightarrow> prompt_limiter \<times> state_manager \<times> fs \<times> bool result" where
  "try_consume isof now pl sm w = (case drop_old now (pl_window pl) of
      Inl e \<Rightarrow> (pl, sm, w, Inl e)
    | Inr win \<Rightarrow>
        if pl_max pl \<le> length win then (pl\<lparr>pl_window := win\<rparr>, sm, w, Inr False)
        else (let win' = win @ [Aware now]; pl' = pl\<lparr>pl_window := win'\<rparr> in
          case put_self_prompt ''window'' (JArr (map (\<lambda>t. JStr (isof t)) win')) sm w of
            (sm', w', Inl e) \<Rightarrow> (pl', sm', w', Inl e)
          | (sm', w', Inr _) \<Rightarrow> (pl', sm', w', Inr True)))"

section \<open>Synthesis and dispatch\<close>

fun synth_loop :: "(string \<Rightarrow> string) \<Rightarrow> int \<Rightarrow> gap_signal list \<Rightarrow> json list \<Rightarrow> self_prompt list result" where
  "synth_loop sha gen [] seen = Inr []"
| "synth_loop sha gen (sig # sigs) seen =
     bindr (SelfPrompt (gs_phase sig) (gs_intent sig) (gs_evidence sig) (gs_priority sig) (gen + 1)) (\<lambda>p.
       let key = JStr (hash_key sha p) in
       if List.member seen key then synth_loop sha gen sigs seen
       else bindr (synth_loop sha gen sigs (key # seen)) (\<lambda>ps. Inr (p # ps)))"

definition synthesize :: "(string \<Rightarrow> string) \<Rightarrow> json list \<Rightarrow> int \<Rightarrow> gap_signal list \<Rightarrow> self_prompt list result" where
  "synthesize sha dedup parent_generation signals =
     (if MAX_GENERATION \<le> parent_generation then Inr [] else synth_loop sha parent_generation signals dedup)"

definition prompt_json :: "self_prompt \<Rightarrow> json" where
  "prompt_json p = JObj [(''phase'', JStr (phase_value (sp_phase p))), (''intent'', JStr (sp_intent p)),
     (''evidence_refs'', JArr (map JStr (sp_evidence p))), (''priority'', JInt (sp_priority p)),
     (''generation'', JInt (sp_generation p))]"

definition queue_entry :: "string \<Rightarrow> string \<Rightarrow> self_prompt \<Rightarrow> json" where
  "queue_entry ts user_id p = JObj [(''timestamp'', JStr ts), (''user_id'', JStr user_id),
     (''prompt'', JStr (''['' @ phase_value (sp_phase p) @ ''] '' @ sp_intent p)), (''self_prompt'', prompt_json p)]"

text \<open>\<open>dispatch\<close>; every prompt comes with the time of its turn.\<close>

fun dispatch ::
  "(iso_time \<Rightarrow> string) \<Rightarrow> string \<Rightarrow> string \<Rightarrow> (real \<times> self_prompt) list \<Rightarrow> prompt_limiter \<Rightarrow> state_manager \<Rightarrow> fs
    \<Rightarrow> prompt_limiter \<times> state_manager \<times> fs \<times> self_prompt list result" where
  "dispatch isof queue_path user_id [] pl sm w = (pl, sm, w, Inr [])"
| "dispatch isof queue_path user_id ((now, p) # ps) pl sm w =
     (case try_consume isof now pl sm w of
        (pl', sm', w', Inl e) \<Rightarrow> (pl', sm', w', Inl e)
      | (pl', sm', w', Inr False) \<Rightarrow> (pl', sm', w', Inr [])
      | (pl', sm', w', Inr True) \<Rightarrow>
          (case dispatch isof queue_path user_id ps pl' sm'
              (locked_append queue_path (Rec (queue_entry (isof (Aware now)) user_id p)) w') of
             (pl2, sm2, w2, Inl e) \<Rightarrow> (pl2, sm2, w2, Inl e)
           | (pl2, sm2, w2, Inr acc) \<Rightarrow> (pl2, sm2, w2, Inr (p # acc))))"

text \<open>\<open>set(...)\<close> of a JSON value: unhashable elements raise.\<close>

definition hashable :: "json \<Rightarrow> bool" where
  "hashable v = (case v of JArr _ \<Rightarrow> False | JObj _ \<Rightarrow> False | _ \<Rightarrow> True)"

definition dedup_window :: "state_manager \<Rightarrow> json list result" where
  "dedup_window sm = bindr (self_prompt_state sm) (\<lambda>d. case dgetd d ''dedup'' (JArr []) of
      JArr vs \<Rightarrow> if list_all hashable vs then Inr (remdups vs) else Inl (Exn ''TypeError'' ''unhashable type'')
    | JStr s \<Rightarrow> Inr (remdups (map (\<lambda>c. JStr [c]) s))
    | JObj o1 \<Rightarrow> Inr (remdups (map JStr (dkeys o1)))
    | _ \<Rightarrow> Inl (Exn ''TypeError'' ''not iterable''))"

definition run_once ::
  "(string \<Rightarrow> string) \<Rightarrow> (real \<Rightarrow> string) \<Rightarrow> (string \<Rightarrow> iso_time) \<Rightarrow> (iso_time \<Rightarrow> string) \<Rightarrow> (json list \<Rightarrow> json list)
    \<Rightarrow> bool \<Rightarrow> bool \<Rightarrow> nat \<Rightarrow> coverage_xml \<Rightarrow> string option \<Rightarrow> string \<Rightarrow> real \<Rightarrow> (nat \<Rightarrow> real)
    \<Rightarrow> state_manager \<Rightarrow> fs \<Rightarrow> state_manager \<times> fs \<times> self_prompt list result" where
  "run_once sha frepr fromiso isof set_order enabled off_switch max_per_hour coverage queue_text queue_path now clock sm w =
     (if \<not> enabled \<or> off_switch then (sm, w, Inr [])
      else case bindr (collect_coverage_signals coverage) (\<lambda>s1.
             bindr (collect_event_log_signals frepr 50 sm w) (\<lambda>s2.
             bindr (collect_backlog_signals frepr fromiso now 12 queue_text) (\<lambda>s3.
             bindr (dedup_window sm) (\<lambda>dd.
             bindr (synthesize sha dd 0 (s1 @ s2 @ s3)) (\<lambda>ps.
             bindr (prompt_limiter_load fromiso max_per_hour sm) (\<lambda>pl. Inr (dd, ps, pl))))))) of
        Inl e \<Rightarrow> (sm, w, Inl e)
      | Inr (dd, ps, pl) \<Rightarrow>
         (case dispatch isof queue_path ''self_prompt'' (zip (map clock [0..<length ps]) ps) pl sm w of
            (pl', sm', w', Inl e) \<Rightarrow> (sm', w', Inl e)
          | (pl', sm', w', Inr written) \<Rightarrow>
             (case put_self_prompt ''dedup'' (JArr (last_n 200 (set_order dd @ map (\<lambda>p. JStr (hash_key sha p)) written))) sm' w' of
                (sm2, w2, Inl e) \<Rightarrow> (sm2, w2, Inl e)
              | (sm2, w2, Inr _) \<Rightarrow> (sm2, w2, Inr written))))"

section \<open>The sliding window\<close>

fun grants :: "nat \<Rightarrow> real list \<Rightarrow> real list \<Rightarrow> real list" where
  "grants mx win [] = []"
| "grants mx win (t # ts) = (let w' = dropWhile (\<lambda>x. 3600 < t - x) win in
     if mx \<le> length w' then grants mx w' ts else t # grants mx (w' @ [t]) ts)"

definition in_hour :: "real \<Rightarrow> real list \<Rightarrow> nat" where
  "in_hour t gs = length (filter (\<lambda>g. t - 3600 \<le> g \<and> g \<le> t) gs)"

lemma in_hour_append [simp]: "in_hour t (xs @ ys) = in_hour t xs + in_hour t ys"
  by (simp add: in_hour_def)

lemma in_hour_le: "in_hour t gs \<le> length gs"
  by (simp add: in_hour_def)

lemma in_hour_zero: "(\<And>g. g \<in> set gs \<Longrightarrow> t < g) \<Longrightarrow> in_hour t gs = 0"
  by (force simp: in_hour_def filter_empty_conv)

lemma in_hour_drop: "t0 \<le> t \<Longrightarrow> in_hour t (dropWhile (\<lambda>x. 3600 < t0 - x) win) = in_hour t win"
  by (induction win) (auto simp: in_hour_def)

lemma grants_subset: "set (grants mx win ts) \<subseteq> set ts"
  by (induction mx win ts rule: grants.induct) (auto simp: Let_def)

lemma grants_window:
  "sorted ts \<Longrightarrow> length win \<le> mx \<Longrightarrow> t \<in> set (grants mx win ts) \<Longrightarrow> in_hour t (win @ grants mx win ts) \<le> mx"
proof (induction mx win ts rule: grants.induct)
  case (2 mx win t0 ts)
  let ?w = "dropWhile (\<lambda>x. 3600 < t0 - x) win"
  have le: "length ?w \<le> mx" using 2(4) length_dropWhile_le [of _ win] by (meson le_trans)
  have later: "t0 \<le> x" if "x \<in> set (grants mx w ts)" for x w
    using that grants_subset [of mx w ts] 2(3) by auto
  show ?case
  proof (cases "mx \<le> length ?w")
    case True
    then have g: "grants mx win (t0 # ts) = grants mx ?w ts" by (simp add: Let_def)
    with 2(5) have t: "t \<in> set (grants mx ?w ts)" by simp
    from 2(1) [OF refl True _ le t] 2(3) show ?thesis using in_hour_drop [OF later [OF t], of win] unfolding g by simp
  next
    case False
    then have g: "grants mx win (t0 # ts) = t0 # grants mx (?w @ [t0]) ts" by (simp add: Let_def)
    show ?thesis
    proof (cases "t \<in> set (grants mx (?w @ [t0]) ts)")
      case t: True
      have "in_hour t ((?w @ [t0]) @ grants mx (?w @ [t0]) ts) \<le> mx"
        using 2(2) [OF refl False _ _ t] 2(3) False by simp
      then show ?thesis using in_hour_drop [OF later [OF t], of win] in_hour_append [of t "[t0]" "grants mx (?w @ [t0]) ts"]
        unfolding g by simp
    next
      case t: False
      with 2(5) g have "t = t0" by auto
      with t later have "in_hour t (grants mx (?w @ [t0]) ts) = 0" by (intro in_hour_zero) (metis order_less_le)
      moreover have "in_hour t win \<le> length ?w" using in_hour_drop [of t0 t win] in_hour_le [of t ?w] \<open>t = t0\<close> by simp
      ultimately show ?thesis using False in_hour_le [of t "[t0]"] in_hour_append [of t "[t0]" "grants mx (?w @ [t0]) ts"]
        unfolding g by simp
    qed
  qed
qed simp

text \<open>A run of attempts: the times at which \<open>try_consume\<close> said yes.\<close>

fun consume_run :: "(iso_time \<Rightarrow> string) \<Rightarrow> real list \<Rightarrow> prompt_limiter \<Rightarrow> state_manager \<Rightarrow> fs \<Rightarrow> real list result" where
  "consume_run isof [] pl sm w = Inr []"
| "consume_run isof (t # ts) pl sm w = (case try_consume isof t pl sm w of
      (pl', sm', w', Inl e) \<Rightarrow> Inl e
    | (pl', sm', w', Inr b) \<Rightarrow> bindr (consume_run isof ts pl' sm' w') (\<lambda>gs. Inr (if b then t # gs else gs)))"

lemma drop_old_Aware: "drop_old now (map Aware ts) = Inr (map Aware (dropWhile (\<lambda>x. 3600 < now - x) ts))"
  by (induction ts) auto

lemma put_self_prompt_dict:
  assumes "self_prompt_state sm = Inr d"
  shows "\<exists>sm'. put_self_prompt k v sm w = (sm', plain_write sm' w, Inr ()) \<and> self_prompt_state sm' = Inr (dset k v d)"
  using assms
  by (auto simp: self_prompt_state_def put_self_prompt_def Let_def dgetd_def split: option.splits json.splits)

lemma consume_run_grants:
  assumes "pl_window pl = map Aware win" "self_prompt_state sm = Inr d"
  shows "consume_run isof ts pl sm w = Inr (grants (pl_max pl) win ts)"
  using assms
proof (induction ts arbitrary: pl sm w win d)
  case (Cons t ts)
  let ?w = "dropWhile (\<lambda>x. 3600 < t - x) win"
  show ?case
  proof (cases "pl_max pl \<le> length ?w")
    case True
    then have "try_consume isof t pl sm w = (pl\<lparr>pl_window := map Aware ?w\<rparr>, sm, w, Inr False)"
      using Cons.prems by (simp add: try_consume_def drop_old_Aware)
    with Cons.IH [of "pl\<lparr>pl_window := map Aware ?w\<rparr>" ?w sm d w] Cons.prems True show ?thesis by simp
  next
    case False
    let ?win = "map Aware ?w @ [Aware t]"
    obtain sm' where "put_self_prompt ''window'' (JArr (map (\<lambda>t. JStr (isof t)) ?win)) sm w = (sm', plain_write sm' w, Inr ())"
      "self_prompt_state sm' = Inr (dset ''window'' (JArr (map (\<lambda>t. JStr (isof t)) ?win)) d)"
      using put_self_prompt_dict [OF Cons.prems(2)] by blast
    moreover from this have "try_consume isof t pl sm w = (pl\<lparr>pl_window := ?win\<rparr>, sm', plain_write sm' w, Inr True)"
      using Cons.prems False by (simp add: try_consume_def drop_old_Aware Let_def)
    ultimately show ?thesis
      using Cons.IH [of "pl\<lparr>pl_window := ?win\<rparr>" "?w @ [t]" sm' _ "plain_write sm' w"] False by (simp add: Let_def)
  qed
qed simp

text \<open>At most the configured number of prompts in any hour. From an empty window and a usable
  state, whatever the times of the attempts, none raises, and the hour that ends with any
  accepted attempt holds at most \<open>max_per_hour\<close> accepted ones.\<close>

theorem prompt_rate_bound:
  assumes "pl_window pl = []" and "self_prompt_state sm = Inr d" and "sorted ts"
  shows "\<exists>gs. consume_run isof ts pl sm w = Inr gs \<and> set gs \<subseteq> set ts \<and>
    list_all (\<lambda>t. length (filter (\<lambda>g. t - 3600 \<le> g \<and> g \<le> t) gs) \<le> pl_max pl) gs"
proof -
  have "consume_run isof ts pl sm w = Inr (grants (pl_max pl) [] ts)"
    using consume_run_grants [of pl "[]" sm d] assms by simp
  moreover have "in_hour t (grants (pl_max pl) [] ts) \<le> pl_max pl" if "t \<in> set (grants (pl_max pl) [] ts)" for t
    using grants_window [OF assms(3) _ that] by simp
  ultimately show ?thesis using grants_subset by (auto simp: list_all_iff in_hour_def)
qed

theorem prompt_rate_bound_witness:
  "\<exists>gs. consume_run (\<lambda>t. ''t'') [0, 1, 2] \<lparr>pl_max = 2, pl_window = []\<rparr> (demo_manager ''s'' []) \<lparr>docs = [], logs = []\<rparr> = Inr gs \<and>
    list_all (\<lambda>t. length (filter (\<lambda>g. t - 3600 \<le> g \<and> g \<le> t) gs) \<le> 2) gs"
  using prompt_rate_bound [of "\<lparr>pl_max = 2, pl_window = []\<rparr>" "demo_manager ''s'' []" "[]" "[0, 1, 2]"
      "\<lambda>t. ''t''" "\<lparr>docs = [], logs = []\<rparr>"]
  by (auto simp: self_prompt_state_def demo_manager_def dgetd_def)

section \<open>Deduplication\<close>

definition prompt_key :: "(string \<Rightarrow> string) \<Rightarrow> self_prompt \<Rightarrow> json" where
  "prompt_key sha p = JStr (hash_key sha p)"

lemma synth_loop_sound:
  "synth_loop sha gen sigs seen = Inr ps \<Longrightarrow>
     distinct (map (prompt_key sha) ps) \<and> set (map (prompt_key sha) ps) \<inter> set seen = {} \<and>
     list_all (\<lambda>p. sp_generation p = gen + 1 \<and> 1 \<le> sp_priority p \<and> sp_priority p \<le> 5 \<and> sp_intent p \<noteq> []) ps \<and>
     list_all (\<lambda>sig. \<exists>p. SelfPrompt (gs_phase sig) (gs_intent sig) (gs_evidence sig) (gs_priority sig) (gen + 1) = Inr p \<and>
        prompt_key sha p \<in> set seen \<union> set (map (prompt_key sha) ps)) sigs"
proof (induction sigs arbitrary: seen ps)
  case (Cons sig sigs)
  then obtain p where p: "SelfPrompt (gs_phase sig) (gs_intent sig) (gs_evidence sig) (gs_priority sig) (gen + 1) = Inr p"
    by (auto simp: result_simps)
  then have gen: "sp_generation p = gen + 1 \<and> 1 \<le> sp_priority p \<and> sp_priority p \<le> 5 \<and> sp_intent p \<noteq> []"
    by (auto simp: SelfPrompt_def split: option.splits if_splits)
  show ?case
  proof (cases "List.member seen (prompt_key sha p)")
    case True
    with Cons.prems p have "synth_loop sha gen sigs seen = Inr ps" by (simp add: Let_def prompt_key_def)
    from Cons.IH [OF this] True p show ?thesis by (auto simp: List.member_iff)
  next
    case False
    with Cons.prems p obtain qs where q: "synth_loop sha gen sigs (prompt_key sha p # seen) = Inr qs" "ps = p # qs"
      by (auto simp: Let_def prompt_key_def result_simps)
    from Cons.IH [OF q(1)] False p gen q(2) show ?thesis
      by (auto simp: list_all_iff List.member_iff)
  qed
qed simp

text \<open>The synthesiser is deduplicated and its generations are bounded. The prompts it returns
  have pairwise different keys, none of them in the window; each is one generation older
  than its parent and at most \<open>MAX_GENERATION\<close>; and every signal's key is in the window or
  among them, so nothing is dropped but duplicates.\<close>

theorem synthesize_dedup:
  assumes "synthesize sha dedup parent signals = Inr ps"
  shows "distinct (map (\<lambda>p. JStr (hash_key sha p)) ps) \<and>
    set (map (\<lambda>p. JStr (hash_key sha p)) ps) \<inter> set dedup = {} \<and>
    list_all (\<lambda>p. sp_generation p = parent + 1 \<and> sp_generation p \<le> MAX_GENERATION \<and>
      1 \<le> sp_priority p \<and> sp_priority p \<le> 5) ps \<and>
    (if MAX_GENERATION \<le> parent then ps = []
     else list_all (\<lambda>sig. \<exists>p. SelfPrompt (gs_phase sig) (gs_intent sig) (gs_evidence sig) (gs_priority sig) (parent + 1) = Inr p
        \<and> JStr (hash_key sha p) \<in> set dedup \<union> set (map (\<lambda>p. JStr (hash_key sha p)) ps)) signals)"
proof (cases "MAX_GENERATION \<le> parent")
  case True
  with assms show ?thesis by (simp add: synthesize_def)
next
  case False
  with assms have "synth_loop sha parent signals dedup = Inr ps" by (simp add: synthesize_def)
  moreover have "prompt_key sha = (\<lambda>p. JStr (hash_key sha p))" by (rule ext) (simp add: prompt_key_def)
  ultimately show ?thesis using synth_loop_sound [of sha parent signals dedup ps] False
    by (auto simp: list_all_iff MAX_GENERATION_def)
qed

theorem synthesize_dedup_witness:
  "\<exists>p. synthesize (\<lambda>s. s) [] 0 (replicate 2 \<lparr>gs_source = ''e'', gs_intent = ''x'', gs_phase = PLAN, gs_evidence = [], gs_priority = 3\<rparr>)
     = Inr [p] \<and> sp_generation p = 1"
proof -
  let ?sig = "\<lparr>gs_source = ''e'', gs_intent = ''x'', gs_phase = PLAN, gs_evidence = [], gs_priority = 3\<rparr>"
  let ?p = "\<lparr>sp_phase = PLAN, sp_intent = ''x'', sp_evidence = [], sp_priority = 3, sp_generation = 1\<rparr>"
  have s: "synthesize (\<lambda>s. s) [] 0 (replicate 2 ?sig) = Inr [?p]"
    by (simp add: synthesize_def MAX_GENERATION_def SelfPrompt_def numeral_2_eq_2 Let_def List.member_iff)
  from synthesize_dedup [OF s] s show ?thesis by simp
qed

end
