(* ===== verification/Swarm_Ctl.thy ===== *)
theory Swarm_Ctl
  imports Self_Prompt
begin

text \<open>
  The control files of \<open>src/cli/swarm_ctl.py\<close>: the shutdown sentinel, the PID file and
  the prompt queue, a log of JSON lines that the command line, the self-prompt thread and
  the main loop share under the lock of \<open>src/utils/file_lock.py\<close>. The queue is a log of
  the file system of \<open>State_Manager\<close>; the other two files are texts.
\<close>

section \<open>Sentinel and PID\<close>

record control =
  cf_sentinel :: "string option"
  cf_pid :: "string option"

definition SENTINEL_PATH :: string where "SENTINEL_PATH = ''.swarm_shutdown''"
definition QUEUE_PATH :: string where "QUEUE_PATH = ''prompt_queue.jsonl''"
definition PID_PATH :: string where "PID_PATH = ''swarm.pid''"

definition is_shutdown_requested :: "control \<Rightarrow> bool" where
  "is_shutdown_requested c = (case cf_sentinel c of None \<Rightarrow> False | Some s \<Rightarrow> True)"

definition request_shutdown :: "string \<Rightarrow> control \<Rightarrow> control" where
  "request_shutdown now c = c\<lparr>cf_sentinel := Some now\<rparr>"

definition clear_shutdown :: "control \<Rightarrow> control" where
  "clear_shutdown c = c\<lparr>cf_sentinel := None\<rparr>"

definition write_pid :: "nat \<Rightarrow> control \<Rightarrow> control" where
  "write_pid pid c = c\<lparr>cf_pid := Some (str_of_nat pid)\<rparr>"

definition clear_pid :: "control \<Rightarrow> control" where
  "clear_pid c = c\<lparr>cf_pid := None\<rparr>"

definition get_swarm_pid :: "control \<Rightarrow> int option" where
  "get_swarm_pid c = (case cf_pid c of None \<Rightarrow> None | Some s \<Rightarrow> parse_int s)"

section \<open>The prompt queue\<close>

definition prompt_entry :: "string \<Rightarrow> string \<Rightarrow> string \<Rightarrow> json" where
  "prompt_entry ts user_id prompt =
     JObj [(''timestamp'', JStr ts), (''user_id'', JStr user_id), (''prompt'', JStr prompt)]"

definition enqueue_prompt :: "string \<Rightarrow> string \<Rightarrow> string \<Rightarrow> fs \<Rightarrow> fs" where
  "enqueue_prompt ts user_id prompt w = locked_append QUEUE_PATH (Rec (prompt_entry ts user_id prompt)) w"

definition peek_prompts :: "fs \<Rightarrow> json list" where
  "peek_prompts w = (case dget (logs w) QUEUE_PATH of None \<Rightarrow> [] | Some ls \<Rightarrow> log_records ls)"

definition dequeue_prompts :: "fs \<Rightarrow> fs \<times> json list" where
  "dequeue_prompts w = (case dget (logs w) QUEUE_PATH of
      None \<Rightarrow> (w, [])
    | Some ls \<Rightarrow> (w\<lparr>logs := dset QUEUE_PATH [] (logs w)\<rparr>, log_records ls))"

section \<open>Delivery\<close>

text \<open>
  The writers and readers of the queue in any order: the command line, a dispatch of the
  self-prompt thread, the main loop's dequeue, a peek. A run returns the file system, what
  was put, and what was delivered.
\<close>

datatype queue_op =
    Put string string string
  | Dispatch "(real \<times> self_prompt) list" prompt_limiter state_manager
  | Take
  | Peek

definition put_entries :: "(iso_time \<Rightarrow> string) \<Rightarrow> (real \<times> self_prompt) list \<Rightarrow> json list" where
  "put_entries isof ps = map (\<lambda>(now, p). queue_entry (isof (Aware now)) ''self_prompt'' p) ps"

fun run_queue :: "(iso_time \<Rightarrow> string) \<Rightarrow> queue_op list \<Rightarrow> fs \<Rightarrow> fs \<times> json list \<times> json list" where
  "run_queue isof [] w = (w, [], [])"
| "run_queue isof (Put ts u p # ops) w =
     (case run_queue isof ops (enqueue_prompt ts u p w) of
        (w', puts, got) \<Rightarrow> (w', prompt_entry ts u p # puts, got))"
| "run_queue isof (Dispatch ps pl sm # ops) w =
     (case dispatch isof QUEUE_PATH ''self_prompt'' ps pl sm w of
        (pl', sm', w1, r) \<Rightarrow>
          (case run_queue isof ops w1 of (w', puts, got) \<Rightarrow>
             (w', drop (length (peek_prompts w)) (peek_prompts w1) @ puts, got)))"
| "run_queue isof (Take # ops) w =
     (case dequeue_prompts w of (w1, es) \<Rightarrow>
        (case run_queue isof ops w1 of (w', puts, got) \<Rightarrow> (w', puts, es @ got)))"
| "run_queue isof (Peek # ops) w = run_queue isof ops w"

lemma peek_append: "peek_prompts (locked_append QUEUE_PATH (Rec v) w) = peek_prompts w @ [v]"
  by (simp add: peek_prompts_def locked_append_def dgetd_def split: option.splits)

lemma peek_plain_write [simp]: "peek_prompts (plain_write sm w) = peek_prompts w"
  by (simp add: peek_prompts_def plain_write_def)

lemma peek_dequeue: "dequeue_prompts w = (w', es) \<Longrightarrow> es = peek_prompts w \<and> peek_prompts w' = []"
  by (auto simp: dequeue_prompts_def peek_prompts_def split: option.splits)

lemma peek_try_consume: "try_consume isof now pl sm w = (pl', sm', w', r) \<Longrightarrow> peek_prompts w' = peek_prompts w"
  by (auto simp: try_consume_def put_self_prompt_def Let_def split: sum.splits if_splits json.splits)

text \<open>A dispatch appends the entries of the prompts it accepted, a prefix of those it was given.\<close>

lemma dispatch_appends:
  "dispatch isof QUEUE_PATH u ps pl sm w = (pl', sm', w', r) \<Longrightarrow>
    \<exists>qs. prefix qs ps \<and> peek_prompts w' = peek_prompts w @ map (\<lambda>(now, p). queue_entry (isof (Aware now)) u p) qs
      \<and> (case r of Inl e \<Rightarrow> True | Inr acc \<Rightarrow> acc = map snd qs)"
proof (induction ps arbitrary: pl sm w pl' sm' w' r)
  case Nil
  then show ?case by auto
next
  case (Cons x ps)
  obtain now p where x: "x = (now, p)" by fastforce
  obtain pl1 sm1 w1 r1 where c: "try_consume isof now pl sm w = (pl1, sm1, w1, r1)" by (metis prod_cases4)
  note pk = peek_try_consume [OF c]
  consider e where "r1 = Inl e" | "r1 = Inr False" | (go) "r1 = Inr True" by (cases r1) auto
  then show ?case
  proof cases
    case 1
    with Cons.prems x c pk show ?thesis by (intro exI [of _ "[]"]) auto
  next
    case 2
    with Cons.prems x c pk show ?thesis by (intro exI [of _ "[]"]) auto
  next
    case go
    let ?w = "locked_append QUEUE_PATH (Rec (queue_entry (isof (Aware now)) u p)) w1"
    obtain pl2 sm2 w2 r2 where d: "dispatch isof QUEUE_PATH u ps pl1 sm1 ?w = (pl2, sm2, w2, r2)" by (metis prod_cases4)
    from Cons.IH [OF d] obtain qs where q: "prefix qs ps" "peek_prompts w2 = peek_prompts ?w @ map (\<lambda>(now, p). queue_entry (isof (Aware now)) u p) qs"
      "case r2 of Inl e \<Rightarrow> True | Inr acc \<Rightarrow> acc = map snd qs" by blast
    have "w' = w2" "case r of Inl e \<Rightarrow> True | Inr acc \<Rightarrow> acc = p # map snd qs"
      using Cons.prems x c go d q(3) by (auto split: sum.splits)
    then show ?thesis using q x pk peek_append [of "queue_entry (isof (Aware now)) u p" w1]
      by (intro exI [of _ "(now, p) # qs"]) (simp split: sum.splits)
  qed
qed



section \<open>The PID\<close>

lemma digits_val_append: "digits_val acc (xs @ [c]) = 10 * digits_val acc xs + (of_char c - 48)"
  by (induction xs arbitrary: acc) auto

lemma digits_of_digit: "list_all is_digit (digits_of n) \<and> digits_of n \<noteq> [] \<and> digits_val 0 (digits_of n) = n"
proof (induction n rule: digits_of.induct)
  case (1 n)
  have d: "is_digit (char_of (48 + k))" "of_char (char_of (48 + k) :: char) - 48 = k" if "k < 10" for k :: nat
    using that by (auto simp: is_digit_def Let_def)
  show ?case
  proof (cases "n < 10")
    case True
    then show ?thesis using d [of n] by (simp add: digits_of.simps [of n])
  next
    case False
    with 1 d [of "n mod 10"] show ?thesis by (simp add: digits_of.simps [of n] digits_val_append)
  qed
qed

lemma strip_digits: "list_all is_digit s \<Longrightarrow> strip s = s"
proof -
  assume s: "list_all is_digit s"
  have ns: "\<not> is_space c" if "is_digit c" for c using that by (auto simp: is_digit_def is_space_def Let_def)
  have "lstrip s = s" by (rule lstrip_id) (use s ns in \<open>cases s; auto\<close>)
  moreover have "rstrip s = s" by (rule rstrip_id) (use s ns in \<open>cases s rule: rev_cases; auto\<close>)
  ultimately show ?thesis by (simp add: strip_def)
qed

lemma parse_int_str: "parse_int (str_of_nat n) = Some (int n)"
proof -
  have d: "list_all is_digit (digits_of n)" "digits_of n \<noteq> []" "digits_val 0 (digits_of n) = n" using digits_of_digit by auto
  then obtain c cs where cs: "digits_of n = c # cs" "is_digit c" by (cases "digits_of n") auto
  then have "c \<noteq> CHR ''-''" "c \<noteq> CHR ''+''" by (auto simp: is_digit_def)
  then show ?thesis using d cs(1) by (simp add: parse_int_def str_of_nat_def strip_digits split_sign_def)
qed

lemma pid_roundtrip: "get_swarm_pid (write_pid pid c) = Some (int pid)"
  by (simp add: get_swarm_pid_def write_pid_def parse_int_str)

end
