(* ===== verification/Filesystem.thy ===== *)
theory Filesystem
  imports Metrics
begin

text \<open>
  The sandboxed file tools of \<open>src/tools/filesystem.py\<close> over a file tree with symbolic
  links: the entry of every canonical path (a list of names), the root directory being
  implicit. \<open>Path.resolve\<close> is the POSIX path resolution of the standard library; a chain
  of links that returns to itself raises. The messages of operating system errors are left
  empty; file permissions and changes between two calls of the system are not modelled.
\<close>

section \<open>Trees and paths\<close>

datatype file_entry = TextFile string | BinaryFile nat | Directory | Symlink string

type_synonym file_path = "string list"
type_synonym file_tree = "(file_path, file_entry) dict"

fun split_on :: "char \<Rightarrow> string \<Rightarrow> string list" where
  "split_on d [] = [[]]"
| "split_on d (c # cs) = (if c = d then [] # split_on d cs
     else (case split_on d cs of w # ws \<Rightarrow> (c # w) # ws | [] \<Rightarrow> [[c]]))"

text \<open>\<open>pathlib\<close>: empty parts and single dots are dropped; exactly two leading slashes are a root of their own.\<close>

datatype py_path = Relative file_path | Absolute file_path | OtherRoot file_path

definition parse_path :: "string \<Rightarrow> py_path" where
  "parse_path s = (let parts = filter (\<lambda>p. p \<noteq> [] \<and> p \<noteq> ''.'') (split_on (CHR ''/'') s) in
     if startswith s ''//'' \<and> \<not> startswith s ''///'' then OtherRoot parts
     else if startswith s ''/'' then Absolute parts else Relative parts)"

definition entry_at :: "file_tree \<Rightarrow> file_path \<Rightarrow> file_entry option" where
  "entry_at t p = (if p = [] then Some Directory else dget t p)"

definition link_at :: "file_tree \<Rightarrow> file_path \<Rightarrow> string option" where
  "link_at t p = (case entry_at t p of Some (Symlink s) \<Rightarrow> Some s | _ \<Rightarrow> None)"

definition is_abs :: "string \<Rightarrow> bool" where
  "is_abs s = startswith s ''/''"

definition links_of :: "file_tree \<Rightarrow> file_path set" where
  "links_of t = {p. link_at t p \<noteq> None}"

lemma finite_links [simp]: "finite (links_of t)"
proof (rule finite_subset)
  show "links_of t \<subseteq> fst ` set t"
    by (force simp: links_of_def link_at_def entry_at_def split: option.splits if_splits dest: dget_in_set)
qed simp

text \<open>
  \<open>realpath\<close> on the parts that are left, with the links being followed: a link found again
  while it is followed is a loop.
\<close>

function real_path :: "file_tree \<Rightarrow> file_path list \<Rightarrow> file_path \<Rightarrow> file_path \<Rightarrow> file_path option" where
  "real_path t active cur [] = Some cur"
| "real_path t active cur (n # rest) =
     (if n = [] \<or> n = ''.'' then real_path t active cur rest
      else if n = ''..'' then real_path t active (butlast cur) rest
      else case link_at t (cur @ [n]) of
          None \<Rightarrow> real_path t active (cur @ [n]) rest
        | Some target \<Rightarrow>
            if List.member active (cur @ [n]) then None
            else (case real_path t ((cur @ [n]) # active) (if is_abs target then [] else cur) (split_on (CHR ''/'') target) of
                None \<Rightarrow> None
              | Some p \<Rightarrow> real_path t active p rest))"
  by pat_completeness auto
termination
proof (relation "measures [\<lambda>(t, active, cur, rest). card (links_of t - set active), \<lambda>(t, active, cur, rest). length rest]")
  fix t active cur n rest target
  assume l: "link_at t (cur @ [n]) = Some target" "\<not> List.member active (cur @ [n])"
  have "cur @ [n] \<in> links_of t - set active" using l by (simp add: links_of_def List.member_iff)
  then have "card (links_of t - set ((cur @ [n]) # active)) < card (links_of t - set active)"
    by (intro psubset_card_mono) (auto simp del: set_simps simp: set_simps(2))
  then show "((t, (cur @ [n]) # active, if is_abs target then [] else cur, split_on (CHR ''/'') target), t, active, cur, n # rest)
    \<in> measures [\<lambda>(t, active, cur, rest). card (links_of t - set active), \<lambda>(t, active, cur, rest). length rest]" by simp
qed auto

definition stat :: "file_tree \<Rightarrow> file_path \<Rightarrow> file_entry option" where
  "stat t p = (case real_path t [] [] p of None \<Rightarrow> None | Some q \<Rightarrow> entry_at t q)"

text \<open>Lengths in UTF-8 of a text with code points below 256; text files are read with universal newlines.\<close>

definition utf8_size :: "string \<Rightarrow> nat" where
  "utf8_size s = sum_list (map (\<lambda>c. if (of_char c :: nat) < 128 then 1 else 2) s)"

fun universal_newlines :: "string \<Rightarrow> string" where
  "universal_newlines [] = []"
| "universal_newlines [c] = (if c = CHR 0x0D then [CHR 0x0A] else [c])"
| "universal_newlines (c # d # cs) =
     (if c = CHR 0x0D then (if d = CHR 0x0A then CHR 0x0A # universal_newlines cs
        else CHR 0x0A # universal_newlines (d # cs))
      else c # universal_newlines (d # cs))"

text \<open>\<open>fnmatch\<close> on patterns of stars and plain characters.\<close>

fun glob_match :: "string \<Rightarrow> string \<Rightarrow> bool" where
  "glob_match [] [] = True"
| "glob_match [] (c # cs) = False"
| "glob_match (p # ps) [] = (p = CHR ''*'' \<and> glob_match ps [])"
| "glob_match (p # ps) (c # cs) =
     (if p = CHR ''*'' then glob_match ps (c # cs) \<or> glob_match (p # ps) cs else p = c \<and> glob_match ps cs)"

section \<open>The guardrails\<close>

definition DENYLIST_PATTERNS :: "string list" where
  "DENYLIST_PATTERNS = [''.env'', ''.env.*'', ''*.key'', ''*.pem'', ''*.p12'', ''*.crt'', ''*.secret'',
     ''sessions.db'', ''prompt_queue.jsonl'']"

definition WRITE_ALLOWED_DIRS :: "string list" where
  "WRITE_ALLOWED_DIRS = [''src'', ''tests'', ''docs'', ''staged_agents'']"

definition READ_MAX_BYTES :: nat where
  "READ_MAX_BYTES = 100000"

definition WRITE_MAX_BYTES :: nat where
  "WRITE_MAX_BYTES = 500000"

definition guardrail :: "string \<Rightarrow> exn" where
  "guardrail msg = Exn ''FilesystemGuardrailError'' msg"

definition resolve_path :: "file_path \<Rightarrow> file_tree \<Rightarrow> string \<Rightarrow> file_path result" where
  "resolve_path base t path =
     (let checked = (\<lambda>parts. if List.member path (CHR 0x00) then Inl (Exn ''ValueError'' ''embedded null byte'')
          else case real_path t [] [] parts of
              None \<Rightarrow> Inl (Exn ''RuntimeError'' [])
            | Some p \<Rightarrow> if prefix base p then Inr p
                else Inl (guardrail (''Path traversal outside project root is not allowed: '' @ path)));
          outside = Inl (guardrail (''Absolute paths outside the project root are not allowed: '' @ path))
      in if path = [] then Inl (guardrail ''Path cannot be empty.'')
         else case parse_path path of
             Absolute parts \<Rightarrow> if prefix base parts then checked parts else outside
           | OtherRoot parts \<Rightarrow> outside
           | Relative parts \<Rightarrow> checked (base @ parts))"

definition file_name :: "file_path \<Rightarrow> string" where
  "file_name p = (if p = [] then [] else last p)"

definition denied :: "string \<Rightarrow> bool" where
  "denied name \<longleftrightarrow> list_ex (\<lambda>pat. glob_match pat name) DENYLIST_PATTERNS"

definition check_denylist :: "file_path \<Rightarrow> unit result" where
  "check_denylist p = (if denied (file_name p)
     then Inl (guardrail (''Access to '' @ [CHR 0x27] @ file_name p @ [CHR 0x27] @ '' is blocked by security policy.''))
     else Inr ())"

definition top_level :: "file_path \<Rightarrow> file_path \<Rightarrow> string" where
  "top_level base p = (case drop (length base) p of [] \<Rightarrow> [] | n # ns \<Rightarrow> n)"

definition check_write_allowlist :: "file_path \<Rightarrow> file_path \<Rightarrow> unit result" where
  "check_write_allowlist base p =
     (if \<not> prefix base p then Inl (guardrail (''Write outside project root is not allowed: '' @ join ''/'' ([] # p)))
      else if \<not> List.member WRITE_ALLOWED_DIRS (top_level base p)
      then Inl (guardrail (''Writes are only permitted under these directories: ['' @
        join '', '' (map repr_str WRITE_ALLOWED_DIRS) @ '']. Attempted write to: '' @ top_level base p @ ''/''))
      else Inr ())"

section \<open>The tools\<close>

definition file_size :: "file_entry \<Rightarrow> nat option" where
  "file_size e = (case e of TextFile s \<Rightarrow> Some (utf8_size s) | BinaryFile n \<Rightarrow> Some n | _ \<Rightarrow> None)"

definition read_text :: "file_entry \<Rightarrow> string result" where
  "read_text e = (case e of TextFile s \<Rightarrow> Inr (universal_newlines s) | _ \<Rightarrow> Inl (Exn ''UnicodeDecodeError'' []))"

definition read_file :: "file_path \<Rightarrow> file_tree \<Rightarrow> string \<Rightarrow> string result" where
  "read_file base t path =
     bindr (resolve_path base t path) (\<lambda>p.
     bindr (check_denylist p) (\<lambda>_.
       case stat t p of
         None \<Rightarrow> Inl (guardrail (''File not found: '' @ path))
       | Some e \<Rightarrow> (case file_size e of
             None \<Rightarrow> Inl (guardrail (''Path is not a file: '' @ path))
           | Some k \<Rightarrow>
               if READ_MAX_BYTES < k
               then Inl (guardrail (''File size ('' @ str_of_nat k @ '' bytes) exceeds read limit of '' @
                 str_of_nat READ_MAX_BYTES @ '' bytes.''))
               else read_text e)))"

text \<open>\<open>mkdir(parents=True, exist_ok=True)\<close>, on the reversed path.\<close>

fun mkdirs :: "file_tree \<Rightarrow> file_path \<Rightarrow> file_tree result" where
  "mkdirs t [] = Inr t"
| "mkdirs t (n # rp) = (case stat t (rev (n # rp)) of
      Some Directory \<Rightarrow> Inr t
    | Some e \<Rightarrow> Inl (Exn ''FileExistsError'' [])
    | None \<Rightarrow> (case stat t (rev rp) of
          Some Directory \<Rightarrow> Inr (dset (rev (n # rp)) Directory t)
        | Some e \<Rightarrow> Inl (Exn ''NotADirectoryError'' [])
        | None \<Rightarrow> bindr (mkdirs t rp) (\<lambda>t'. Inr (dset (rev (n # rp)) Directory t'))))"

definition write_text :: "file_tree \<Rightarrow> file_path \<Rightarrow> string \<Rightarrow> file_tree result" where
  "write_text t p content = (case stat t p of
      Some Directory \<Rightarrow> Inl (Exn ''IsADirectoryError'' [])
    | _ \<Rightarrow> Inr (dset p (TextFile content) t))"

definition write_file :: "file_path \<Rightarrow> file_tree \<Rightarrow> string \<Rightarrow> string \<Rightarrow> file_tree \<times> string result" where
  "write_file base t path content =
     (case bindr (resolve_path base t path) (\<lambda>p.
           bindr (check_denylist p) (\<lambda>_.
           bindr (check_write_allowlist base p) (\<lambda>_.
             if WRITE_MAX_BYTES < utf8_size content
             then Inl (guardrail (''Content size ('' @ str_of_nat (utf8_size content) @
               '' bytes) exceeds write limit of '' @ str_of_nat WRITE_MAX_BYTES @ '' bytes.''))
             else Inr p))) of
        Inl e \<Rightarrow> (t, Inl e)
      | Inr p \<Rightarrow> (case mkdirs t (rev (butlast p)) of
            Inl e \<Rightarrow> (t, Inl e)
          | Inr t1 \<Rightarrow> (case write_text t1 p content of
              Inl e \<Rightarrow> (t1, Inl e)
            | Inr t2 \<Rightarrow> (t2, Inr (''Successfully wrote '' @ str_of_nat (length content) @ '' characters to '' @ path)))))"

definition children :: "file_tree \<Rightarrow> file_path \<Rightarrow> string list" where
  "children t p = sort (map last (filter (\<lambda>q. q \<noteq> [] \<and> butlast q = p) (dkeys t)))"

definition list_entry :: "file_tree \<Rightarrow> file_path \<Rightarrow> string \<Rightarrow> json" where
  "list_entry t p n = (let e = stat t (p @ [n]) in
     JObj ([(''name'', JStr n), (''type'', JStr (if e = Some Directory then ''directory'' else ''file''))] @
       (case e of None \<Rightarrow> [] | Some x \<Rightarrow> (case file_size x of None \<Rightarrow> [] | Some k \<Rightarrow> [(''size'', JInt (int k))]))))"

definition list_directory :: "file_path \<Rightarrow> file_tree \<Rightarrow> string \<Rightarrow> json list result" where
  "list_directory base t path =
     bindr (resolve_path base t path) (\<lambda>p. case stat t p of
         None \<Rightarrow> Inl (guardrail (''Directory not found: '' @ path))
       | Some Directory \<Rightarrow> Inr (map (list_entry t p) (children t p))
       | Some e \<Rightarrow> Inl (guardrail (''Path is not a directory: '' @ path)))"

text \<open>The tools as the agents call them: timed by the registry of \<open>Metrics\<close>.\<close>

definition ReadFile ::
  "real \<Rightarrow> real \<Rightarrow> file_path \<Rightarrow> file_tree \<Rightarrow> string \<Rightarrow> metrics_registry \<times> fs \<Rightarrow> (metrics_registry \<times> fs) \<times> string result" where
  "ReadFile start stop base t path rw = tool_timer ''ReadFile'' start stop (read_file base t path) rw"

definition WriteFile ::
  "real \<Rightarrow> real \<Rightarrow> file_path \<Rightarrow> file_tree \<Rightarrow> string \<Rightarrow> string \<Rightarrow> metrics_registry \<times> fs
    \<Rightarrow> file_tree \<times> (metrics_registry \<times> fs) \<times> string result" where
  "WriteFile start stop base t path content rw =
     (case write_file base t path content of (t', r) \<Rightarrow> (t', tool_timer ''WriteFile'' start stop r rw))"

definition ListDirectory ::
  "real \<Rightarrow> real \<Rightarrow> file_path \<Rightarrow> file_tree \<Rightarrow> string \<Rightarrow> metrics_registry \<times> fs \<Rightarrow> (metrics_registry \<times> fs) \<times> json list result" where
  "ListDirectory start stop base t path rw = tool_timer ''ListDirectory'' start stop (list_directory base t path) rw"

section \<open>Path resolution\<close>

definition clean :: "file_path \<Rightarrow> bool" where
  "clean p \<longleftrightarrow> list_all (\<lambda>n. n \<noteq> [] \<and> n \<noteq> ''.'' \<and> n \<noteq> ''..'') p"

definition link_free :: "file_tree \<Rightarrow> file_path \<Rightarrow> bool" where
  "link_free t p \<longleftrightarrow> (\<forall>q. prefix q p \<longrightarrow> link_at t q = None)"

lemma clean_simps [simp]:
  "clean []" "clean (p @ q) \<longleftrightarrow> clean p \<and> clean q" "clean (n # p) \<longleftrightarrow> n \<noteq> [] \<and> n \<noteq> ''.'' \<and> n \<noteq> ''..'' \<and> clean p"
  by (auto simp: clean_def)

lemma clean_butlast: "clean p \<Longrightarrow> clean (butlast p)"
  by (cases p rule: rev_cases) auto

lemma link_free_Nil [simp]: "link_free t []"
  by (simp add: link_free_def link_at_def entry_at_def)

lemma link_free_prefix: "link_free t p \<Longrightarrow> prefix q p \<Longrightarrow> link_free t q"
  using prefix_order.order_trans by (fastforce simp: link_free_def)

lemma link_free_snoc: "link_free t (p @ [n]) \<longleftrightarrow> link_free t p \<and> link_at t (p @ [n]) = None"
  by (auto simp: link_free_def prefix_snoc)

lemma real_path_canonical:
  "real_path t active cur rest = Some p \<Longrightarrow> link_free t cur \<and> clean cur \<Longrightarrow> link_free t p \<and> clean p"
proof (induction t active cur rest arbitrary: p rule: real_path.induct)
  case (2 t active cur n rest)
  consider "n = [] \<or> n = ''.''" | "n = ''..''" | (plain) "\<not> (n = [] \<or> n = ''.'')" "n \<noteq> ''..''" by blast
  then show ?case
  proof cases
    case 1
    with "2.prems"(1) have "real_path t active cur rest = Some p" by auto
    from "2.IH"(1) [OF 1 this "2.prems"(2)] show ?thesis .
  next
    case b: 2
    then have nb: "\<not> (n = [] \<or> n = ''.'')" by simp
    have "link_free t (butlast cur) \<and> clean (butlast cur)"
      using "2.prems"(2) link_free_prefix prefixeq_butlast clean_butlast by blast
    from "2.IH"(2) [OF nb b _ this] "2.prems"(1) b show ?thesis by simp
  next
    case plain
    show ?thesis
    proof (cases "link_at t (cur @ [n])")
      case None
      have "link_free t (cur @ [n]) \<and> clean (cur @ [n])" using "2.prems"(2) None plain by (simp add: link_free_snoc)
      from "2.IH"(3) [OF plain None _ this] "2.prems"(1) plain None show ?thesis by simp
    next
      case (Some target)
      with "2.prems"(1) plain have na: "\<not> List.member active (cur @ [n])" by (auto split: if_splits)
      with "2.prems"(1) plain Some obtain r where r: "real_path t ((cur @ [n]) # active) (if is_abs target then [] else cur) (split_on (CHR ''/'') target) = Some r"
        "real_path t active r rest = Some p" by (auto split: option.splits)
      have "link_free t r \<and> clean r" by (rule "2.IH"(4) [OF plain Some na r(1)]) (use "2.prems"(2) in auto)
      from "2.IH"(5) [OF plain Some na r(1) r(2) this] show ?thesis .
    qed
  qed
qed simp

lemma real_path_fix: "link_free t (cur @ p) \<Longrightarrow> clean p \<Longrightarrow> real_path t active cur p = Some (cur @ p)"
proof (induction p arbitrary: cur)
  case (Cons n p)
  have "link_at t (cur @ [n]) = None" using Cons.prems(1) by (simp add: link_free_def)
  moreover have "real_path t active (cur @ [n]) p = Some ((cur @ [n]) @ p)" by (rule Cons.IH) (use Cons.prems in auto)
  ultimately show ?case using Cons.prems(2) by simp
qed simp

lemma stat_canonical: "link_free t p \<and> clean p \<Longrightarrow> stat t p = entry_at t p"
  using real_path_fix [of t "[]" p "[]"] by (simp add: stat_def)

lemma real_path_cong:
  "(\<And>q. link_at t' q = link_at t q) \<Longrightarrow> real_path t' active cur rest = real_path t active cur rest"
proof (induction t active cur rest rule: real_path.induct)
  case (2 t active cur n rest)
  show ?case
  proof (cases "n = [] \<or> n = ''.'' \<or> n = ''..''")
    case True
    with 2 show ?thesis by auto
  next
    case plain: False
    show ?thesis
    proof (cases "link_at t (cur @ [n])")
      case None
      with plain "2.IH"(3) "2.prems" show ?thesis by simp
    next
      case (Some target)
      with plain "2.IH"(4,5) "2.prems" show ?thesis by (auto split: option.splits)
    qed
  qed
qed simp

lemma resolve_path_canonical:
  "resolve_path base t path = Inr p \<Longrightarrow> prefix base p \<and> link_free t p \<and> clean p"
  using real_path_canonical [of t "[]" "[]" _ p]
  by (auto simp: resolve_path_def Let_def split: if_splits py_path.splits option.splits)

lemma resolve_path_cong:
  assumes "\<And>q. link_at t' q = link_at t q"
  shows "resolve_path base t' path = resolve_path base t path"
proof -
  have "real_path t' = real_path t" by (intro ext real_path_cong) (rule assms)
  then show ?thesis by (simp only: resolve_path_def)
qed

section \<open>Creating directories\<close>

text \<open>A tree is well formed when every entry lies in a directory.\<close>

definition tree_ok :: "file_tree \<Rightarrow> bool" where
  "tree_ok t \<longleftrightarrow> (\<forall>p e. dget t p = Some e \<longrightarrow> p \<noteq> [] \<and> entry_at t (butlast p) = Some Directory)"

lemma tree_okD: "tree_ok t \<Longrightarrow> entry_at t p = Some e \<Longrightarrow> p \<noteq> [] \<Longrightarrow> entry_at t (butlast p) = Some Directory"
  by (auto simp: tree_ok_def entry_at_def split: if_splits)

lemma tree_ok_prefix: "tree_ok t \<Longrightarrow> entry_at t p = Some e \<Longrightarrow> strict_prefix q p \<Longrightarrow> entry_at t q = Some Directory"
proof (induction p arbitrary: e rule: rev_induct)
  case (snoc n p)
  have d: "entry_at t p = Some Directory" using tree_okD [OF snoc.prems(1,2)] by simp
  from snoc.prems(3) have "q = p \<or> strict_prefix q p" by (auto simp: prefix_snoc strict_prefix_def)
  with d snoc.IH [OF snoc.prems(1) d] show ?case by blast
qed simp

lemma entry_at_dset [simp]: "p \<noteq> [] \<Longrightarrow> entry_at (dset p e t) q = (if q = p then Some e else entry_at t q)"
  by (simp add: entry_at_def)

lemma tree_ok_dset:
  assumes "tree_ok t" "p \<noteq> []" "entry_at t (butlast p) = Some Directory" "e = Directory \<or> entry_at t p \<noteq> Some Directory"
  shows "tree_ok (dset p e t)"
  unfolding tree_ok_def
proof (intro allI impI)
  fix q e' assume q: "dget (dset p e t) q = Some e'"
  show "q \<noteq> [] \<and> entry_at (dset p e t) (butlast q) = Some Directory"
  proof (cases "q = p")
    case True
    moreover have "butlast p \<noteq> p" using assms(2) by (metis length_butlast length_greater_0_conv diff_less less_irrefl zero_less_one)
    ultimately show ?thesis using assms(2,3) by simp
  next
    case False
    with q assms(1) have "q \<noteq> []" "entry_at t (butlast q) = Some Directory" by (auto simp: tree_ok_def)
    then show ?thesis using assms(2,4) by auto
  qed
qed

lemma mkdirs_ok:
  assumes "tree_ok t" "link_free t (rev rp) \<and> clean (rev rp)" "mkdirs t rp = Inr t'"
  shows "tree_ok t' \<and> entry_at t' (rev rp) = Some Directory \<and>
    (\<forall>q. entry_at t' q = (if prefix q (rev rp) \<and> entry_at t q = None then Some Directory else entry_at t q))"
  using assms
proof (induction rp arbitrary: t')
  case Nil
  then show ?case by (auto simp: entry_at_def)
next
  case (Cons n rp)
  let ?p = "rev (n # rp)"
  have ne: "?p \<noteq> []" and bl: "butlast ?p = rev rp" by simp_all
  have par: "link_free t (rev rp) \<and> clean (rev rp)"
    using Cons.prems(2) by (simp add: link_free_snoc)
  have st: "stat t ?p = entry_at t ?p" "stat t (rev rp) = entry_at t (rev rp)"
    using stat_canonical Cons.prems(2) par by blast+
  have pre: "prefix q ?p \<longleftrightarrow> q = ?p \<or> prefix q (rev rp)" for q by (simp add: prefix_snoc)
  consider (there) "entry_at t ?p = Some Directory" "t' = t"
    | (one) "entry_at t ?p = None" "entry_at t (rev rp) = Some Directory" "t' = dset ?p Directory t"
    | (more) t1 where "entry_at t ?p = None" "entry_at t (rev rp) = None" "mkdirs t rp = Inr t1" "t' = dset ?p Directory t1"
    using Cons.prems(3) unfolding mkdirs.simps st
    by (auto simp: result_simps simp del: rev.simps split: option.splits file_entry.splits)
  then show ?case
  proof cases
    case there
    have "entry_at t q \<noteq> None" if "prefix q ?p" for q
      using tree_ok_prefix [OF Cons.prems(1) there(1), of q] that there(1) by (cases "q = ?p") (auto simp: strict_prefix_def)
    with there Cons.prems(1) show ?thesis by auto
  next
    case one
    have "entry_at t q \<noteq> None" if "prefix q (rev rp)" for q
      using tree_ok_prefix [OF Cons.prems(1) one(2), of q] that one(2) by (cases "q = rev rp") (auto simp: strict_prefix_def)
    then show ?thesis using one pre tree_ok_dset [OF Cons.prems(1) ne] bl ne by (auto simp del: rev.simps)
  next
    case more
    from Cons.IH [OF Cons.prems(1) par more(3)]
    have t1: "tree_ok t1" "entry_at t1 (rev rp) = Some Directory"
      "\<And>q. entry_at t1 q = (if prefix q (rev rp) \<and> entry_at t q = None then Some Directory else entry_at t q)" by blast+
    have "tree_ok t'" using more(4) tree_ok_dset [OF t1(1) ne] t1(2) bl by simp
    moreover have "entry_at t' q = (if prefix q ?p \<and> entry_at t q = None then Some Directory else entry_at t q)" for q
      unfolding more(4) entry_at_dset [OF ne] pre using t1(3) [of q] more(1) by auto
    ultimately show ?thesis using more(4) ne by simp
  qed
qed

lemma mkdirs_there: "stat t (rev rp) = Some Directory \<Longrightarrow> mkdirs t rp = Inr t"
  by (cases rp) simp_all

lemma not_prefix_butlast: "p \<noteq> [] \<Longrightarrow> \<not> prefix p (butlast p)"
  using prefix_length_le [of p "butlast p"] by (cases p) auto

lemma link_at_mkdirs:
  assumes "tree_ok t" "link_free t (rev rp) \<and> clean (rev rp)" "mkdirs t rp = Inr t'"
  shows "link_at t' q = link_at t q"
  using mkdirs_ok [OF assms] by (simp add: link_at_def)

section \<open>What the tools may touch\<close>

lemma read_file_shape:
  assumes "read_file base t path = Inr s"
  shows "\<exists>p c. prefix base p \<and> link_free t p \<and> dget t p = Some (TextFile c) \<and> \<not> denied (file_name p)
    \<and> utf8_size c \<le> READ_MAX_BYTES \<and> s = universal_newlines c"
proof -
  from assms obtain p where p: "resolve_path base t path = Inr p" "\<not> denied (file_name p)"
    by (auto simp: read_file_def result_simps check_denylist_def split: if_splits)
  with assms obtain e k where e: "stat t p = Some e" "file_size e = Some k" "k \<le> READ_MAX_BYTES" "read_text e = Inr s"
    by (simp add: read_file_def check_denylist_def split: option.splits if_splits)
  have c: "prefix base p \<and> link_free t p \<and> clean p" by (rule resolve_path_canonical [OF p(1)])
  then have "entry_at t p = Some e" using stat_canonical e(1) by metis
  moreover obtain body where "e = TextFile body" "s = universal_newlines body" using e(4) by (cases e) (auto simp: read_text_def)
  ultimately show ?thesis using c p(2) e(2,3) by (auto simp: entry_at_def file_size_def split: if_splits)
qed

text \<open>C11: reading is confined. Whatever the path, with dots, links or an absolute prefix, the text
  \<open>read_file\<close> returns is the content, with its line ends normalised, of a text file below
  the project root that is reached through no link, has no denied name and at most 100000
  bytes.\<close>

theorem read_file_confined:
  assumes "read_file base t path = Inr s"
  shows "\<exists>p c. prefix base p \<and> link_free t p \<and> dget t p = Some (TextFile c) \<and> \<not> denied (file_name p)
    \<and> utf8_size c \<le> READ_MAX_BYTES \<and> s = universal_newlines c"
  by (rule read_file_shape [OF assms])

lemma write_file_ok:
  assumes "tree_ok t" "write_file base t path content = (t', Inr msg)"
  obtains p where "resolve_path base t path = Inr p" "\<not> denied (last p)" "List.member WRITE_ALLOWED_DIRS (top_level base p)"
    "utf8_size content \<le> WRITE_MAX_BYTES" "strict_prefix base p" "link_free t p" "clean p" "tree_ok t'"
    "\<And>q. entry_at t' q = (if q = p then Some (TextFile content)
       else if prefix q p \<and> entry_at t q = None then Some Directory else entry_at t q)"
    "entry_at t p \<noteq> Some Directory"
proof -
  from assms(2) obtain p t1 where p: "resolve_path base t path = Inr p" "\<not> denied (file_name p)"
    "List.member WRITE_ALLOWED_DIRS (top_level base p)" "utf8_size content \<le> WRITE_MAX_BYTES"
    and t1: "mkdirs t (rev (butlast p)) = Inr t1" and t': "write_text t1 p content = Inr t'"
    by (auto simp: write_file_def result_simps check_denylist_def check_write_allowlist_def split: sum.splits if_splits)
  have c: "prefix base p" "link_free t p" "clean p" using resolve_path_canonical [OF p(1)] by auto
  have "top_level base p \<noteq> []" using p(3) by (auto simp: WRITE_ALLOWED_DIRS_def)
  then have sp: "strict_prefix base p" using c(1) by (auto simp: top_level_def strict_prefix_def)
  then have ne: "p \<noteq> []" by auto
  have bl: "link_free t (rev (rev (butlast p))) \<and> clean (rev (rev (butlast p)))"
    using c link_free_prefix prefixeq_butlast clean_butlast by auto
  note m = mkdirs_ok [OF assms(1) bl t1, simplified]
  have "link_at t1 = link_at t" using link_at_mkdirs [OF assms(1) bl t1] by blast
  then have "stat t1 p = entry_at t1 p" using stat_canonical [of t1 p] c by (simp add: link_free_def)
  with t' have nd: "entry_at t1 p \<noteq> Some Directory" and eq: "t' = dset p (TextFile content) t1"
    by (auto simp: write_text_def split: option.splits file_entry.splits)
  have pre: "prefix q p \<longleftrightarrow> q = p \<or> prefix q (butlast p)" for q
    using ne prefix_snoc [of q "butlast p" "last p"] by simp
  have "\<not> prefix p (butlast p)" by (rule not_prefix_butlast [OF ne])
  then have "entry_at t p \<noteq> Some Directory" using nd m by simp
  moreover have "tree_ok t'" unfolding eq by (rule tree_ok_dset [OF _ ne]) (use m nd in auto)
  moreover have "entry_at t' q = (if q = p then Some (TextFile content)
       else if prefix q p \<and> entry_at t q = None then Some Directory else entry_at t q)" for q
    unfolding eq entry_at_dset [OF ne] pre using m by auto
  ultimately show ?thesis using that [of p] p c sp ne by (simp add: file_name_def)
qed


text \<open>What was written is read back. After a write that succeeds, reading the same path gives
  the content with its line ends normalised, or, for the contents between the two limits,
  the refusal of a file over the read limit.\<close>

theorem write_read_roundtrip:
  assumes "tree_ok t" and "write_file base t path content = (t', Inr msg)"
  shows "read_file base t' path = (if utf8_size content \<le> READ_MAX_BYTES then Inr (universal_newlines content)
    else Inl (guardrail (''File size ('' @ str_of_nat (utf8_size content) @ '' bytes) exceeds read limit of '' @
      str_of_nat READ_MAX_BYTES @ '' bytes.'')))"
proof (rule write_file_ok [OF assms])
  fix p assume p: "resolve_path base t path = Inr p" "\<not> denied (last p)" "strict_prefix base p" "link_free t p" "clean p"
    and ent: "\<And>q. entry_at t' q = (if q = p then Some (TextFile content)
       else if prefix q p \<and> entry_at t q = None then Some Directory else entry_at t q)"
  have "link_at t p = None" using p(4) by (simp add: link_free_def)
  then have l: "link_at t' q = link_at t q" for q
    unfolding link_at_def ent [of q] by (cases "q = p"; cases "prefix q p \<and> entry_at t q = None") simp_all
  have r: "resolve_path base t' path = Inr p" unfolding resolve_path_cong [OF l] by (rule p(1))
  have "link_free t' p" using p(4) unfolding link_free_def l .
  then have "stat t' p = Some (TextFile content)" using stat_canonical [of t' p] p(5) ent [of p] by simp
  moreover have "file_name p = last p" using p(3) by (auto simp: file_name_def)
  ultimately show ?thesis using r p(2)
    by (simp add: read_file_def check_denylist_def file_size_def read_text_def)
qed

section \<open>A concrete tree\<close>

definition demo_tree :: file_tree where
  "demo_tree = [([''r''], Directory), ([''r'', ''src''], Directory), ([''r'', ''tests''], Symlink ''src''),
     ([''r'', ''.env''], TextFile ''K''), ([''r'', ''src'', ''m''], TextFile ''v'')]"

lemma demo_tree_ok: "tree_ok demo_tree" "entry_at demo_tree [''r''] = Some Directory"
  by (auto simp: tree_ok_def entry_at_def demo_tree_def split: if_splits)

lemma demo_write: "write_file [''r''] demo_tree ''tests/a/n'' ''xy'' =
    (demo_tree @ [([''r'', ''src'', ''a''], Directory), ([''r'', ''src'', ''a'', ''n''], TextFile ''xy'')],
     Inr ''Successfully wrote 2 characters to tests/a/n'')"
proof -
  have "resolve_path [''r''] demo_tree ''tests/a/n'' = Inr [''r'', ''src'', ''a'', ''n'']"
    "check_denylist [''r'', ''src'', ''a'', ''n''] = Inr ()" "check_write_allowlist [''r''] [''r'', ''src'', ''a'', ''n''] = Inr ()"
    "mkdirs demo_tree (rev (butlast [''r'', ''src'', ''a'', ''n''])) = Inr (demo_tree @ [([''r'', ''src'', ''a''], Directory)])"
    "write_text (demo_tree @ [([''r'', ''src'', ''a''], Directory)]) [''r'', ''src'', ''a'', ''n''] ''xy'' =
      Inr (demo_tree @ [([''r'', ''src'', ''a''], Directory), ([''r'', ''src'', ''a'', ''n''], TextFile ''xy'')])"
    "str_of_nat (Suc (Suc 0)) = ''2''"
    by code_simp+
  then show ?thesis by (simp add: write_file_def utf8_size_def WRITE_MAX_BYTES_def)
qed

theorem read_file_confined_witness:
  "\<exists>p c. prefix [''r''] p \<and> dget demo_tree p = Some (TextFile c) \<and> ''v'' = universal_newlines c"
proof -
  have "resolve_path [''r''] demo_tree ''tests/.././src/m'' = Inr [''r'', ''src'', ''m'']"
    "check_denylist [''r'', ''src'', ''m''] = Inr ()" "stat demo_tree [''r'', ''src'', ''m''] = Some (TextFile ''v'')"
    by code_simp+
  then have "read_file [''r''] demo_tree ''tests/.././src/m'' = Inr ''v''"
    by (simp add: read_file_def file_size_def utf8_size_def READ_MAX_BYTES_def read_text_def)
  from read_file_confined [OF this] show ?thesis by blast
qed


theorem write_read_roundtrip_witness:
  "read_file [''r''] (fst (write_file [''r''] demo_tree ''tests/a/n'' ''xy'')) ''tests/a/n'' = Inr ''xy''"
  using write_read_roundtrip [OF demo_tree_ok(1) demo_write] unfolding demo_write
  by (simp add: utf8_size_def READ_MAX_BYTES_def)

text \<open>The denied name is refused through any spelling of its path.\<close>

lemma demo_denied: "read_file [''r''] demo_tree ''src/.././/.env'' =
    Inl (guardrail (''Access to '' @ [CHR 0x27] @ ''.env'' @ [CHR 0x27] @ '' is blocked by security policy.''))"
  by code_simp

end
