(* ===== verification/Capabilities.thy ===== *)
theory Capabilities
  imports Swarm_Ctl Filesystem
begin

text \<open>
  The capability layer: contracts, registry, backends and service of \<open>src/capabilities\<close>,
  and the runtime surface and batch dispatcher of \<open>src/tools/dispatcher.py\<close>. A handler
  takes a request and the world it acts on; awaiting it is one step. The bridge to the
  Smithery command line is an argument (\<open>bridge\<close>: how one invocation ends).
\<close>

section \<open>Contracts and registry\<close>

record capability_request =
  cq_name :: string
  cq_args :: "(string, json) dict"

record capability_result =
  cr_status :: string
  cr_payload :: "(string, json) dict option"
  cr_error :: "string option"
  cr_backend :: string
  cr_retryable :: bool

definition ok_result :: "(string, json) dict \<Rightarrow> string \<Rightarrow> capability_result" where
  "ok_result payload backend = \<lparr>cr_status = ''success'', cr_payload = Some payload, cr_error = None,
     cr_backend = backend, cr_retryable = False\<rparr>"

definition error_result :: "string \<Rightarrow> string \<Rightarrow> bool \<Rightarrow> capability_result" where
  "error_result err backend retryable = \<lparr>cr_status = ''error'', cr_payload = None, cr_error = Some err,
     cr_backend = backend, cr_retryable = retryable\<rparr>"

text \<open>What a handler returns: a finished result, or any value, a dictionary being the payload.\<close>

datatype handler_output = OutResult capability_result | OutValue json

type_synonym 'w handler = "capability_request \<Rightarrow> 'w \<Rightarrow> 'w \<times> handler_output result"

record 'w capability_definition =
  cd_name :: string
  cd_description :: string
  cd_backend :: string
  cd_handler :: "'w handler"

type_synonym 'w capability_registry = "(string, 'w capability_definition) dict"

definition registry_register ::
  "string \<Rightarrow> string \<Rightarrow> string \<Rightarrow> 'w handler \<Rightarrow> 'w capability_registry \<Rightarrow> 'w capability_registry result" where
  "registry_register name description backend handler reg =
     (if dmem name reg then Inl (Exn ''ValueError'' (''Capability '' @ [CHR 0x27] @ name @ [CHR 0x27] @ '' is already registered''))
      else Inr (dset name \<lparr>cd_name = name, cd_description = description, cd_backend = backend, cd_handler = handler\<rparr> reg))"

definition key_error :: "string \<Rightarrow> exn" where
  "key_error k = Exn ''KeyError'' (repr_str k)"

definition registry_get :: "string \<Rightarrow> 'w capability_registry \<Rightarrow> 'w capability_definition result" where
  "registry_get name reg = (case dget reg name of None \<Rightarrow> Inl (key_error name) | Some d \<Rightarrow> Inr d)"

section \<open>Backends\<close>

definition payload_of :: "json \<Rightarrow> (string, json) dict" where
  "payload_of v = (case v of JObj d \<Rightarrow> d | _ \<Rightarrow> [(''value'', v)])"

definition execute_local :: "string \<Rightarrow> capability_request \<Rightarrow> 'w handler \<Rightarrow> 'w \<Rightarrow> 'w \<times> capability_result result" where
  "execute_local backend request handler w = (case handler request w of
      (w', Inl e) \<Rightarrow> (w', Inl e)
    | (w', Inr (OutResult r)) \<Rightarrow> (w', Inr r)
    | (w', Inr (OutValue v)) \<Rightarrow> (w', Inr (ok_result (payload_of v) backend)))"

definition call_smithery_tool :: "string result \<Rightarrow> string" where
  "call_smithery_tool invocation = (case invocation of
      Inr out \<Rightarrow> out
    | Inl e \<Rightarrow> (if exn_type e = ''SmitheryCommandError'' then ''Smithery Error: '' else ''Bridge Error: '') @ exn_msg e)"

definition execute_smithery ::
  "(json \<Rightarrow> json \<Rightarrow> json \<Rightarrow> string result) \<Rightarrow> capability_request \<Rightarrow> 'w handler \<Rightarrow> 'w \<Rightarrow> 'w \<times> capability_result result" where
  "execute_smithery bridge request handler w = (case handler request w of
      (w', Inl e) \<Rightarrow> (w', Inl e)
    | (w', Inr (OutResult r)) \<Rightarrow> (w', Inr r)
    | (w', Inr (OutValue (JObj d))) \<Rightarrow>
        (case (dget d ''server_id'', dget d ''tool_name'') of
           (None, _) \<Rightarrow> (w', Inl (key_error ''server_id''))
         | (_, None) \<Rightarrow> (w', Inl (key_error ''tool_name''))
         | (Some s, Some t) \<Rightarrow>
            (let out = call_smithery_tool (bridge s t (dgetd d ''tool_args'' (JObj []))) in
             (w', Inr (if startswith out ''Smithery Error:'' \<or> startswith out ''Bridge Error:''
                then error_result out ''smithery'' True
                else ok_result [(''output'', JStr out)] ''smithery''))))
    | (w', Inr (OutValue v)) \<Rightarrow>
        (w', Inl (Exn ''TypeError'' ''Smithery capability handlers must return a configuration dict'')))"

text \<open>\<open>CapabilityService.execute\<close>\<close>

definition service_execute ::
  "(json \<Rightarrow> json \<Rightarrow> json \<Rightarrow> string result) \<Rightarrow> string \<Rightarrow> (string, json) dict \<Rightarrow> 'w capability_registry \<Rightarrow> 'w
    \<Rightarrow> 'w \<times> capability_result" where
  "service_execute bridge name args reg w = (case registry_get name reg of
      Inl e \<Rightarrow> (w, error_result (''Unknown capability: '' @ name) ''registry'' False)
    | Inr d \<Rightarrow>
       (let request = \<lparr>cq_name = name, cq_args = args\<rparr>;
            backend = cd_backend d;
            outcome = (if backend = ''local'' \<or> backend = ''retrieval'' then Some (execute_local backend request (cd_handler d) w)
              else if backend = ''smithery'' then Some (execute_smithery bridge request (cd_handler d) w) else None)
        in case outcome of
             None \<Rightarrow> (w, error_result (''Unsupported capability backend: '' @ backend) backend False)
           | Some (w', Inl e) \<Rightarrow> (w', error_result (exn_msg e) backend False)
           | Some (w', Inr r) \<Rightarrow> (w', r)))"

section \<open>The runtime surface\<close>

record runtime =
  rt_base :: file_path
  rt_tree :: file_tree
  rt_metrics :: metrics_registry
  rt_fs :: fs
  rt_control :: control
  rt_clock :: "real \<times> real"

definition timed :: "(metrics_registry \<times> fs) \<times> 'a result \<Rightarrow> runtime \<Rightarrow> runtime \<times> 'a result" where
  "timed x rt = (case x of ((m, w), r) \<Rightarrow> (rt\<lparr>rt_metrics := m, rt_fs := w\<rparr>, r))"

text \<open>
  \<open>_build_state_manager\<close>; a file name that is no text raises. A state file that holds no
  dictionary has no manager in the model: the first use of its data raises.
\<close>

definition file_arg :: "json \<Rightarrow> string \<Rightarrow> string result" where
  "file_arg v dflt = (if \<not> truthy v then Inr dflt else case v of JStr s \<Rightarrow> Inr s | _ \<Rightarrow> Inl (Exn ''TypeError'' []))"

definition build_state_manager :: "(string, json) dict \<Rightarrow> fs \<Rightarrow> state_manager result" where
  "build_state_manager args w =
     bindr (file_arg (dgetd args ''state_file'' JNull) ''state.json'') (\<lambda>f.
     bindr (file_arg (dgetd args ''events_file'' JNull) ''events.jsonl'') (\<lambda>ev.
       case StateManager ''json'' f ev None w of
         None \<Rightarrow> Inl (attribute_error ''values'')
       | Some sm \<Rightarrow> Inr sm))"

fun status_count :: "string \<Rightarrow> json list \<Rightarrow> nat result" where
  "status_count st [] = Inr 0"
| "status_count st (v # vs) = (case v of
      JObj d \<Rightarrow> bindr (status_count st vs) (\<lambda>n. Inr ((if dget d ''status'' = Some (JStr st) then 1 else 0) + n))
    | _ \<Rightarrow> Inl (attribute_error ''get''))"

definition swarm_status_handler :: "runtime handler" where
  "swarm_status_handler request rt = (rt,
     bindr (build_state_manager (cq_args request) (rt_fs rt)) (\<lambda>sm.
       let tasks = dvalues (get_all_tasks sm) in
       bindr (status_count ''STALLED'' tasks) (\<lambda>stalled.
       bindr (status_count ''PLANNED'' tasks) (\<lambda>planned.
       bindr (status_count ''COMPLETED'' tasks) (\<lambda>completed.
         Inr (OutValue (JObj
           [(''pid'', case get_swarm_pid (rt_control rt) of None \<Rightarrow> JNull | Some p \<Rightarrow> JInt p),
            (''shutdown_requested'', JBool (is_shutdown_requested (rt_control rt))),
            (''queue_depth'', JInt (int (length (peek_prompts (rt_fs rt))))),
            (''total_tasks'', JInt (int (length tasks))),
            (''planned'', JInt (int planned)), (''completed'', JInt (int completed)), (''stalled'', JInt (int stalled)),
            (''health'', JStr (if stalled \<noteq> 0 then ''DEGRADED'' else ''HEALTHY''))])))))))"

definition repo_read_file_handler :: "(real \<Rightarrow> string) \<Rightarrow> runtime handler" where
  "repo_read_file_handler frepr request rt = (case dget (cq_args request) ''path'' of
      None \<Rightarrow> (rt, Inl (key_error ''path''))
    | Some p \<Rightarrow> (case timed (ReadFile (fst (rt_clock rt)) (snd (rt_clock rt)) (rt_base rt) (rt_tree rt) (py_str frepr p) (rt_metrics rt, rt_fs rt)) rt of
        (rt', r) \<Rightarrow> (rt', bindr r (\<lambda>s. Inr (OutValue (JObj [(''content'', JStr s)]))))))"

definition repo_list_directory_handler :: "(real \<Rightarrow> string) \<Rightarrow> runtime handler" where
  "repo_list_directory_handler frepr request rt =
     (case timed (ListDirectory (fst (rt_clock rt)) (snd (rt_clock rt)) (rt_base rt) (rt_tree rt) (py_str frepr (dgetd (cq_args request) ''path'' (JStr ''.'')))
         (rt_metrics rt, rt_fs rt)) rt of
        (rt', r) \<Rightarrow> (rt', bindr r (\<lambda>es. Inr (OutValue (JObj [(''entries'', JArr es)])))))"

definition smithery_tool_handler :: "runtime handler" where
  "smithery_tool_handler request rt = (rt,
     (case (dget (cq_args request) ''server_id'', dget (cq_args request) ''tool_name'') of
        (None, _) \<Rightarrow> Inl (key_error ''server_id'')
      | (_, None) \<Rightarrow> Inl (key_error ''tool_name'')
      | (Some s, Some t) \<Rightarrow> Inr (OutValue (JObj [(''server_id'', s), (''tool_name'', t),
          (''tool_args'', dgetd (cq_args request) ''tool_args'' (JObj []))]))))"

definition register_capability ::
  "string \<Rightarrow> string \<Rightarrow> string \<Rightarrow> 'w handler \<Rightarrow> 'w capability_registry \<Rightarrow> 'w capability_registry" where
  "register_capability name description backend handler reg = (case registry_get name reg of
      Inr d \<Rightarrow> reg
    | Inl e \<Rightarrow> (case registry_register name description backend handler reg of Inr reg' \<Rightarrow> reg' | Inl e' \<Rightarrow> reg))"

definition register_runtime_capabilities ::
  "(real \<Rightarrow> string) \<Rightarrow> runtime capability_registry \<Rightarrow> runtime capability_registry" where
  "register_runtime_capabilities frepr reg =
     register_capability ''smithery.call_tool'' ''Execute a Smithery tool through the capability layer'' ''smithery'' smithery_tool_handler
     (register_capability ''repo.list_directory'' ''List a repository directory with filesystem guardrails'' ''local''
       (repo_list_directory_handler frepr)
     (register_capability ''repo.read_file'' ''Read a repository file with filesystem guardrails'' ''local''
       (repo_read_file_handler frepr)
     (register_capability ''swarm.status'' ''Read runtime swarm status'' ''local'' swarm_status_handler reg)))"

definition capability_result_dict :: "capability_result \<Rightarrow> (string, json) dict" where
  "capability_result_dict r = [(''status'', JStr (cr_status r)),
     (''payload'', case cr_payload r of None \<Rightarrow> JNull | Some d \<Rightarrow> JObj d),
     (''error'', case cr_error r of None \<Rightarrow> JNull | Some e \<Rightarrow> JStr e),
     (''source_backend'', JStr (cr_backend r)), (''retryable'', JBool (cr_retryable r))]"

definition execute_capability ::
  "(real \<Rightarrow> string) \<Rightarrow> (json \<Rightarrow> json \<Rightarrow> json \<Rightarrow> string result) \<Rightarrow> string \<Rightarrow> (string, json) dict
    \<Rightarrow> runtime capability_registry \<Rightarrow> runtime \<Rightarrow> runtime capability_registry \<times> runtime \<times> (string, json) dict" where
  "execute_capability frepr bridge name args reg rt =
     (let reg' = register_runtime_capabilities frepr reg in
      case service_execute bridge name args reg' rt of (rt', r) \<Rightarrow> (reg', rt', capability_result_dict r))"

text \<open>\<open>get_swarm_status_view\<close> of \<open>src/capabilities/helpers.py\<close>.\<close>

definition dict_arg :: "string \<Rightarrow> string option \<Rightarrow> (string, json) dict" where
  "dict_arg k v = (case v of None \<Rightarrow> [] | Some s \<Rightarrow> if s = [] then [] else [(k, JStr s)])"

definition status_view :: "(string, json) dict \<Rightarrow> (string, json) dict result" where
  "status_view result =
     (case (let p = dgetd result ''payload'' JNull in if truthy p then p else JObj []) of
        JObj payload \<Rightarrow>
          bindr (json_int (dgetd payload ''queue_depth'' (JInt 0))) (\<lambda>depth.
          bindr (json_int (dgetd payload ''total_tasks'' (JInt 0))) (\<lambda>total.
          bindr (json_int (dgetd payload ''planned'' (JInt 0))) (\<lambda>planned.
          bindr (json_int (dgetd payload ''completed'' (JInt 0))) (\<lambda>completed.
          bindr (json_int (dgetd payload ''stalled'' (JInt 0))) (\<lambda>stalled.
            Inr [(''status'', dgetd result ''status'' (JStr ''error'')), (''error'', dgetd result ''error'' JNull),
              (''source_backend'', dgetd result ''source_backend'' (JStr ''local'')),
              (''retryable'', JBool (truthy (dgetd result ''retryable'' (JBool False)))),
              (''pid'', case dgetd payload ''pid'' JNull of JNull \<Rightarrow> JStr ''Not running'' | v \<Rightarrow> v),
              (''shutdown_requested'', JBool (truthy (dgetd payload ''shutdown_requested'' (JBool False)))),
              (''queue_depth'', JInt depth), (''total_tasks'', JInt total), (''planned'', JInt planned),
              (''completed'', JInt completed), (''stalled'', JInt stalled),
              (''health'', dgetd payload ''health'' (JStr ''UNKNOWN''))])))))
      | _ \<Rightarrow> Inl (attribute_error ''get''))"

definition get_swarm_status_view ::
  "(real \<Rightarrow> string) \<Rightarrow> (json \<Rightarrow> json \<Rightarrow> json \<Rightarrow> string result) \<Rightarrow> string option \<Rightarrow> string option
    \<Rightarrow> runtime capability_registry \<Rightarrow> runtime \<Rightarrow> runtime capability_registry \<times> runtime \<times> (string, json) dict result" where
  "get_swarm_status_view frepr bridge state_file events_file reg rt =
     (case execute_capability frepr bridge ''swarm.status''
         (dict_arg ''state_file'' state_file @ dict_arg ''events_file'' events_file) reg rt of
        (reg', rt', result) \<Rightarrow> (reg', rt', status_view result))"

section \<open>Batches of tools\<close>

text \<open>
  A registered function takes its keyword arguments. A batch starts one task per request;
  their bodies run in some order of the event loop (\<open>order\<close>), each as one step, and the
  results are gathered in the order of the requests. Arguments that are no mapping raise
  inside the task, with a message that is an argument (\<open>no_mapping\<close>); an unhashable name
  raises out of the batch.
\<close>

type_synonym 'w tool = "(string, json) dict \<Rightarrow> 'w \<Rightarrow> 'w \<times> json result"

definition register_tool :: "string \<Rightarrow> 'w tool \<Rightarrow> (string, 'w tool) dict \<Rightarrow> (string, 'w tool) dict" where
  "register_tool name f reg = dset name f reg"

definition tool_error :: "string \<Rightarrow> json" where
  "tool_error msg = JObj [(''status'', JStr ''error''), (''message'', JStr msg)]"

definition run_task ::
  "(real \<Rightarrow> string) \<Rightarrow> string \<Rightarrow> (string, 'w tool) dict \<Rightarrow> (string, json) dict \<Rightarrow> 'w \<Rightarrow> 'w \<times> json result" where
  "run_task frepr no_mapping reg req w =
     (let name = dgetd req ''tool_name'' JNull; args = dgetd req ''args'' (JObj []);
          found = (case name of JStr n \<Rightarrow> dget reg n | _ \<Rightarrow> None)
      in if \<not> hashable name then (w, Inl (Exn ''TypeError'' ''unhashable type''))
         else case found of
             None \<Rightarrow> (w, Inr (tool_error (''Tool '' @ [CHR 0x27] @ py_str frepr name @ [CHR 0x27] @ '' not found.'')))
           | Some f \<Rightarrow> (case args of
                 JObj d \<Rightarrow> (case f d w of
                     (w', Inr v) \<Rightarrow> (w', Inr (JObj [(''status'', JStr ''success''), (''output'', v)]))
                   | (w', Inl e) \<Rightarrow> (w', if is_exception e then Inr (tool_error (exn_msg e)) else Inl e))
               | _ \<Rightarrow> (w, Inr (tool_error no_mapping))))"

fun run_order ::
  "('r \<Rightarrow> 'w \<Rightarrow> 'w \<times> 'v) \<Rightarrow> 'r list \<Rightarrow> nat list \<Rightarrow> 'w \<Rightarrow> 'w \<times> (nat, 'v) dict" where
  "run_order f reqs [] w = (w, [])"
| "run_order f reqs (i # ks) w = (case f (reqs ! i) w of
      (w', v) \<Rightarrow> (case run_order f reqs ks w' of (w2, rs) \<Rightarrow> (w2, (i, v) # rs)))"

definition first_error :: "'v result list \<Rightarrow> exn option" where
  "first_error rs = (case concat (map (\<lambda>r. case r of Inl e \<Rightarrow> [e] | Inr v \<Rightarrow> []) rs) of [] \<Rightarrow> None | e # es \<Rightarrow> Some e)"

definition batch_execute ::
  "(real \<Rightarrow> string) \<Rightarrow> string \<Rightarrow> (string, 'w tool) dict \<Rightarrow> nat list \<Rightarrow> (string, json) dict list \<Rightarrow> 'w \<Rightarrow> 'w \<times> json list result" where
  "batch_execute frepr no_mapping reg order reqs w =
     (case run_order (run_task frepr no_mapping reg) reqs order w of
        (w', rs) \<Rightarrow> (w', case first_error (dvalues rs) of
            Some e \<Rightarrow> Inl e
          | None \<Rightarrow> Inr (concat (map (\<lambda>i. case dget rs i of Some (Inr v) \<Rightarrow> [v] | _ \<Rightarrow> []) [0..<length reqs]))))"

lemma first_error_simps [simp]:
  "first_error [] = None" "first_error (Inl e # rs) = Some e" "first_error (Inr v # rs) = first_error rs"
  by (simp_all add: first_error_def)

lemma first_error_None: "first_error rs = None \<longleftrightarrow> (\<forall>r \<in> set rs. \<exists>v. r = Inr v)"
proof (induction rs)
  case (Cons r rs)
  then show ?case by (cases r) auto
qed simp

lemma first_error_Some: "first_error rs = Some e \<Longrightarrow> Inl e \<in> set rs"
proof (induction rs)
  case (Cons r rs)
  then show ?case by (cases r) auto
qed simp

lemma run_order_pure:
  assumes "\<And>r w. fst (f r w) = w"
  shows "run_order f reqs ks w = (w, map (\<lambda>i. (i, snd (f (reqs ! i) w))) ks)"
proof (induction ks)
  case (Cons i ks)
  have "f (reqs ! i) w = (w, snd (f (reqs ! i) w))" by (rule prod_eqI) (simp_all add: assms)
  then show ?case unfolding run_order.simps by (rule ssubst) (simp only: Cons.IH prod.case list.map)
qed simp

definition pure_tools :: "(string, 'w tool) dict \<Rightarrow> bool" where
  "pure_tools reg \<longleftrightarrow> list_all (\<lambda>(n, f). \<forall>d w. fst (f d w) = w) reg"

lemma run_task_pure:
  assumes "pure_tools reg"
  shows "fst (run_task frepr nm reg req w) = w"
proof -
  have f: "fst (f d v) = v" if "dget reg n = Some f" for n f d v
    using assms dget_in_set [OF that] by (auto simp: pure_tools_def list_all_iff)
  show ?thesis
  proof (cases "case dgetd req ''tool_name'' JNull of JStr n \<Rightarrow> dget reg n | _ \<Rightarrow> None")
    case None
    then show ?thesis by (simp add: run_task_def Let_def)
  next
    case (Some g)
    then obtain n where "dget reg n = Some g" by (cases "dgetd req ''tool_name'' JNull") auto
    note g = f [OF this]
    show ?thesis
      by (cases "dgetd req ''args'' (JObj [])"; cases "hashable (dgetd req ''tool_name'' JNull)")
        (simp_all add: run_task_def Let_def Some case_prod_beta g split: sum.splits)
  qed
qed

text \<open>C20: A batch does not depend on the scheduler. If the registered tools leave the world as it
  is, then in whatever order the event loop runs the bodies, the batch returns for every
  request, in the order of the requests, the result the request has alone; a batch that
  raises raises what one of its requests raises alone.\<close>

theorem batch_order_irrelevant:
  assumes "pure_tools reg" and "mset order = mset [0..<length reqs]"
  shows "case batch_execute frepr nm reg order reqs w of
      (w', Inr vs) \<Rightarrow> w' = w \<and> map Inr vs = map (\<lambda>r. snd (run_task frepr nm reg r w)) reqs
    | (w', Inl e) \<Rightarrow> w' = w \<and> Inl e \<in> set (map (\<lambda>r. snd (run_task frepr nm reg r w)) reqs)"
proof -
  let ?g = "\<lambda>i. snd (run_task frepr nm reg (reqs ! i) w)"
  let ?rs = "map (\<lambda>i. (i, ?g i)) order"
  have r: "run_order (run_task frepr nm reg) reqs order w = (w, ?rs)"
    by (rule run_order_pure) (rule run_task_pure [OF assms(1)])
  have so: "set order = {..<length reqs}" using arg_cong [OF assms(2), of set_mset] by (simp add: lessThan_atLeast0)
  have vals: "dvalues ?rs = map ?g order" by (simp add: dvalues_def)
  have look: "dget ?rs i = (if i \<in> set order then Some (?g i) else None)" for i
    by (simp add: map_of_map_restrict restrict_map_def)
  show ?thesis
  proof (cases "first_error (map ?g order)")
    case None
    then have ok: "\<exists>v. ?g i = Inr v" if "i < length reqs" for i using that so by (simp add: first_error_None)
    then obtain h where h: "\<And>i. i < length reqs \<Longrightarrow> ?g i = Inr (h i)" by metis
    have "map (\<lambda>i. case dget ?rs i of Some (Inr v) \<Rightarrow> [v] | _ \<Rightarrow> []) [0..<length reqs] = map (\<lambda>i. [h i]) [0..<length reqs]"
      by (rule map_cong [OF refl]) (simp add: look so h)
    then have c: "concat (map (\<lambda>i. case dget ?rs i of Some (Inr v) \<Rightarrow> [v] | _ \<Rightarrow> []) [0..<length reqs]) = map h [0..<length reqs]"
      by (simp only: concat_map_singleton)
    have "batch_execute frepr nm reg order reqs w = (w, Inr (map h [0..<length reqs]))"
      unfolding batch_execute_def r prod.case vals None option.case c ..
    moreover have "map Inr (map h [0..<length reqs]) = map (\<lambda>r. snd (run_task frepr nm reg r w)) reqs"
      by (rule nth_equalityI) (simp_all add: h)
    ultimately show ?thesis by simp
  next
    case (Some e)
    from first_error_Some [OF Some] so have "Inl e \<in> set (map (\<lambda>r. snd (run_task frepr nm reg r w)) reqs)" by auto
    then show ?thesis using Some by (simp add: batch_execute_def r vals)
  qed
qed

definition echo_tools :: "(string, unit tool) dict" where
  "echo_tools = [(''echo'', \<lambda>d w. (w, Inr (JObj d)))]"

theorem batch_order_irrelevant_witness:
  "case batch_execute (\<lambda>x. []) [] echo_tools [1, 0] [[(''tool_name'', JStr ''none'')], [(''tool_name'', JStr ''echo'')]] () of
      (w', Inr vs) \<Rightarrow> map Inr vs = map (\<lambda>r. snd (run_task (\<lambda>x. []) [] echo_tools r ()))
        [[(''tool_name'', JStr ''none'')], [(''tool_name'', JStr ''echo'')]]
    | (w', Inl e) \<Rightarrow> False"
proof -
  let ?reqs = "[[(''tool_name'', JStr ''none'')], [(''tool_name'', JStr ''echo'')]]"
  have p: "pure_tools echo_tools" and m: "mset [1, 0] = mset [0..<length ?reqs]"
    by (simp_all add: pure_tools_def echo_tools_def upt_conv_Cons numeral_2_eq_2)
  have "case batch_execute (\<lambda>x. []) [] echo_tools [1, 0] ?reqs () of (w', Inr vs) \<Rightarrow> True | (w', Inl e) \<Rightarrow> False"
    by code_simp
  with batch_order_irrelevant [OF p m, where frepr = "\<lambda>x. []" and nm = "[]" and w = "()"] show ?thesis by (auto split: prod.splits sum.splits)
qed

section \<open>Reading through the capability layer\<close>

lemma runtime_registry:
  "dget (register_runtime_capabilities frepr []) ''repo.read_file'' = Some \<lparr>cd_name = ''repo.read_file'',
     cd_description = ''Read a repository file with filesystem guardrails'', cd_backend = ''local'',
     cd_handler = repo_read_file_handler frepr\<rparr>"
  by (simp add: register_runtime_capabilities_def register_capability_def registry_get_def registry_register_def dmem_def)

lemma register_runtime_idem:
  "register_runtime_capabilities frepr (register_runtime_capabilities frepr []) = register_runtime_capabilities frepr []"
  by (simp add: register_runtime_capabilities_def register_capability_def registry_get_def registry_register_def dmem_def)

text \<open>The read capability is the sandboxed read. Through the registry, the service and the
  envelope, a request for a path succeeds exactly when the sandbox reads it; the payload is
  then the text of an allowed file below the root, the failure is an error envelope with the
  message of the refusal and no payload, and the files are left as they are.\<close>

theorem capability_read_confined:
  assumes "execute_capability frepr bridge ''repo.read_file'' [(''path'', JStr path)]
      (register_runtime_capabilities frepr []) rt = (reg', rt', env)"
  shows "rt_tree rt' = rt_tree rt \<and> reg' = register_runtime_capabilities frepr []
    \<and> (case read_file (rt_base rt) (rt_tree rt) path of
        Inr s \<Rightarrow> env = capability_result_dict (ok_result [(''content'', JStr s)] ''local'') \<and>
          (\<exists>p c. prefix (rt_base rt) p \<and> link_free (rt_tree rt) p \<and> dget (rt_tree rt) p = Some (TextFile c)
            \<and> \<not> denied (file_name p) \<and> s = universal_newlines c)
      | Inl e \<Rightarrow> env = capability_result_dict (error_result (exn_msg e) ''local'' False))"
proof -
  have "env = capability_result_dict (case read_file (rt_base rt) (rt_tree rt) path of
      Inr s \<Rightarrow> ok_result [(''content'', JStr s)] ''local'' | Inl e \<Rightarrow> error_result (exn_msg e) ''local'' False)
    \<and> rt_tree rt' = rt_tree rt \<and> reg' = register_runtime_capabilities frepr []"
    using assms unfolding execute_capability_def register_runtime_idem Let_def service_execute_def registry_get_def runtime_registry
    by (auto simp: execute_local_def repo_read_file_handler_def timed_def ReadFile_def tool_timer_def payload_of_def
        split: prod.splits sum.splits)
  moreover have "\<exists>p c. prefix (rt_base rt) p \<and> link_free (rt_tree rt) p \<and> dget (rt_tree rt) p = Some (TextFile c)
      \<and> \<not> denied (file_name p) \<and> s = universal_newlines c" if "read_file (rt_base rt) (rt_tree rt) path = Inr s" for s
    using read_file_shape [OF that] by blast
  ultimately show ?thesis by (simp split: sum.splits)
qed

definition demo_runtime :: runtime where
  "demo_runtime = \<lparr>rt_base = [''r''], rt_tree = demo_tree,
     rt_metrics = \<lparr>mr_filename = ''m'', mr_agents = [], mr_tools = [], mr_tokens = []\<rparr>,
     rt_fs = \<lparr>docs = [], logs = []\<rparr>, rt_control = \<lparr>cf_sentinel = None, cf_pid = None\<rparr>, rt_clock = (0, 1)\<rparr>"

theorem capability_read_confined_witness:
  "\<exists>reg' rt' env. execute_capability (\<lambda>x. []) (\<lambda>s t a. Inr []) ''repo.read_file'' [(''path'', JStr ''src/.././/.env'')]
      (register_runtime_capabilities (\<lambda>x. []) []) demo_runtime = (reg', rt', env) \<and>
    dget env ''status'' = Some (JStr ''error'') \<and> dget env ''payload'' = Some JNull \<and> rt_tree rt' = demo_tree"
proof -
  obtain reg' rt' env where e: "execute_capability (\<lambda>x. []) (\<lambda>s t a. Inr []) ''repo.read_file'' [(''path'', JStr ''src/.././/.env'')]
      (register_runtime_capabilities (\<lambda>x. []) []) demo_runtime = (reg', rt', env)" by (metis prod_cases3)
  from capability_read_confined [OF e] demo_denied
  have "rt_tree rt' = demo_tree" "\<exists>m. env = capability_result_dict (error_result m ''local'' False)"
    by (auto simp: demo_runtime_def)
  with e show ?thesis by (auto simp: capability_result_dict_def error_result_def)
qed

end
