(* ===== verification/Scan.thy ===== *)
theory Scan
  imports Json_Text
begin

text \<open>
  Scanning with captures: the patterns with groups that the program applies to model
  output are sequences in which every step is determined by the text, so each is a
  function from the text at a position to the captured part and the rest. \<open>search_first\<close>
  is \<open>re.search\<close> and \<open>find_all\<close> is \<open>re.finditer\<close> of such a function.
\<close>

fun eat :: "string \<Rightarrow> string \<Rightarrow> string option" where
  "eat [] s = Some s"
| "eat (p # ps) [] = None"
| "eat (p # ps) (c # cs) = (if p = c then eat ps cs else None)"

fun eat_any :: "string list \<Rightarrow> string \<Rightarrow> (string \<times> string) option" where
  "eat_any [] s = None"
| "eat_any (l # ls) s = (case eat l s of Some r \<Rightarrow> Some (l, r) | None \<Rightarrow> eat_any ls s)"

text \<open>The text before and after the first occurrence of a literal.\<close>

fun find_lit :: "string \<Rightarrow> string \<Rightarrow> (string \<times> string) option" where
  "find_lit p [] = (if p = [] then Some ([], []) else None)"
| "find_lit p (c # cs) = (case eat p (c # cs) of
      Some r \<Rightarrow> Some ([], r)
    | None \<Rightarrow> map_option (\<lambda>(a, b). (c # a, b)) (find_lit p cs))"

fun search_first :: "(string \<Rightarrow> ('a \<times> string) option) \<Rightarrow> string \<Rightarrow> ('a \<times> string) option" where
  "search_first f [] = f []"
| "search_first f (c # cs) = (case f (c # cs) of Some x \<Rightarrow> Some x | None \<Rightarrow> search_first f cs)"

function find_all :: "(string \<Rightarrow> ('a \<times> string) option) \<Rightarrow> string \<Rightarrow> 'a list" where
  "find_all f [] = []"
| "find_all f (c # cs) = (case f (c # cs) of
      None \<Rightarrow> find_all f cs
    | Some (x, rest) \<Rightarrow> x # (if length rest < Suc (length cs) then find_all f rest else find_all f cs))"
  by pat_completeness auto
termination by (relation "measure (\<lambda>(f, s). length s)") auto

text \<open>
  A fenced block with one of the labels: \<open>r"```(?:a|b)\s*(.*?)\s*```"\<close> with \<open>DOTALL\<close>, its
  group stripped. The group ends at the first closing fence.
\<close>

definition FENCE :: string where
  "FENCE = [CHR 0x60, CHR 0x60, CHR 0x60]"

definition fence_at :: "string list \<Rightarrow> string \<Rightarrow> (string \<times> string) option" where
  "fence_at labels s = (case eat FENCE s of
      None \<Rightarrow> None
    | Some r \<Rightarrow> (case eat_any labels r of
          None \<Rightarrow> None
        | Some (l, r') \<Rightarrow> (case find_lit FENCE (lstrip r') of
              None \<Rightarrow> None
            | Some (body, rest) \<Rightarrow> Some (strip body, rest))))"

definition fence_blocks :: "string list \<Rightarrow> string \<Rightarrow> string list" where
  "fence_blocks labels s = find_all (fence_at labels) s"

text \<open>A quoted group \<open>"([^"]+)"\<close>, and \<open>\s*c\s*\<close> around a separator.\<close>

definition quoted :: "string \<Rightarrow> (string \<times> string) option" where
  "quoted s = (case s of
      [] \<Rightarrow> None
    | c # r \<Rightarrow> if c \<noteq> CHR 0x22 then None
        else (let g = takeWhile (\<lambda>d. d \<noteq> CHR 0x22) r; rest = dropWhile (\<lambda>d. d \<noteq> CHR 0x22) r in
          if g = [] \<or> rest = [] then None else Some (g, tl rest)))"

definition eat_spaced :: "char \<Rightarrow> string \<Rightarrow> string option" where
  "eat_spaced c s = (case lstrip s of [] \<Rightarrow> None | d # r \<Rightarrow> if d = c then Some (lstrip r) else None)"

section \<open>Facts\<close>

lemma eat_Some: "eat p s = Some r \<longleftrightarrow> s = p @ r"
  by (induction p s rule: eat.induct) auto

lemma eat_append [simp]: "eat p (p @ r) = Some r"
  by (simp add: eat_Some)

lemma eat_None: "eat p s = None \<longleftrightarrow> \<not> prefix p s"
  by (induction p s rule: eat.induct) auto

lemma find_lit_Some:
  "find_lit p s = Some (a, b) \<Longrightarrow> s = a @ p @ b"
proof (induction p s arbitrary: a b rule: find_lit.induct)
  case (2 p c cs)
  then show ?case by (auto simp: eat_Some split: option.splits)
qed (auto split: if_splits)

text \<open>No occurrence starts inside what comes before the first one.\<close>

lemma find_lit_first:
  "p \<noteq> [] \<Longrightarrow> \<not> sublist p (a @ butlast p) \<Longrightarrow> find_lit p (a @ p @ b) = Some (a, b)"
proof (induction a)
  case Nil
  then obtain c ps where "p = c # ps" by (cases p) auto
  then show ?case using eat_append [of p b] by simp
next
  case (Cons c a)
  have "\<not> prefix p (c # a @ p @ b)"
  proof
    assume "prefix p (c # a @ p @ b)"
    moreover have "c # a @ p @ b = (c # a @ butlast p) @ last p # b"
      using append_butlast_last_id [OF Cons.prems(1)] by (metis append.assoc append_Cons append_Nil)
    ultimately have "prefix p ((c # a @ butlast p) @ last p # b)" by simp
    moreover have "length p \<le> length (c # a @ butlast p)" using Cons.prems(1) by simp
    ultimately have "prefix p (c # a @ butlast p)" by (rule prefix_length_prefix [OF _ prefixI [OF refl]])
    then show False using Cons.prems(2) prefix_imp_sublist by simp
  qed
  moreover have "\<not> sublist p (a @ butlast p)" using Cons.prems(2) by (simp add: sublist_Cons_right)
  ultimately have "eat p (c # a @ p @ b) = None" "find_lit p (a @ p @ b) = Some (a, b)"
    using Cons.IH [OF Cons.prems(1)] by (simp_all add: eat_None)
  then show ?case by simp
qed

lemma search_first_Some: "search_first f s = Some x \<Longrightarrow> \<exists>t. suffix t s \<and> f t = Some x"
proof (induction f s rule: search_first.induct)
  case (2 f c cs)
  then show ?case by (auto split: option.splits intro: suffix_ConsI)
qed auto

lemma find_all_set: "x \<in> set (find_all f s) \<Longrightarrow> \<exists>t r. f t = Some (x, r)"
proof (induction f s rule: find_all.induct)
  case (2 f c cs)
  then show ?case by (cases "f (c # cs)") (auto split: if_splits, blast+)
qed simp

text \<open>A text without back quotes has no fence, and the group of a fence ends before the first back quote.\<close>

lemma find_lit_head: "\<not> List.member a c \<Longrightarrow> find_lit (c # ps) (a @ (c # ps) @ b) = Some (a, b)"
  by (induction a) auto

lemma find_all_skip:
  "(\<And>c s. c \<in> set pre \<Longrightarrow> f (c # s) = None) \<Longrightarrow> find_all f (pre @ s) = find_all f s"
  by (induction pre) auto

lemma fence_at_plain: "c \<noteq> CHR 0x60 \<Longrightarrow> fence_at labels (c # s) = None"
  by (simp add: fence_at_def FENCE_def)

lemma lstrip_append: "s = [] \<or> \<not> is_space (hd s) \<Longrightarrow> lstrip (raw @ s) = lstrip raw @ s"
  by (induction raw) (auto simp: lstrip_def dropWhile_eq_self_iff)

lemma lstrip_idem: "lstrip (lstrip s) = lstrip s"
  by (rule lstrip_id [OF lstrip_hd])

lemma fence_at_block:
  assumes "eat_any labels (l @ raw @ FENCE @ post) = Some (l, raw @ FENCE @ post)" "\<not> List.member raw (CHR 0x60)"
  shows "fence_at labels (FENCE @ l @ raw @ FENCE @ post) = Some (strip raw, post)"
proof -
  have "hd (FENCE @ post) = CHR 0x60" "FENCE @ post \<noteq> []" "\<not> is_space (CHR 0x60)"
    by (simp_all add: FENCE_def is_space_def)
  then have l: "lstrip (raw @ FENCE @ post) = lstrip raw @ FENCE @ post" by (intro lstrip_append) simp
  have "\<not> List.member (lstrip raw) (CHR 0x60)"
    using assms(2) set_dropWhileD [of _ is_space raw] by (auto simp: lstrip_def)
  then have "find_lit FENCE (lstrip raw @ FENCE @ post) = Some (lstrip raw, post)"
    unfolding FENCE_def by (rule find_lit_head)
  moreover have "strip (lstrip raw) = strip raw" by (simp add: strip_def lstrip_idem)
  ultimately show ?thesis by (simp add: fence_at_def assms(1) l)
qed

lemma fence_blocks_one:
  assumes "eat_any labels (l @ raw @ FENCE @ post) = Some (l, raw @ FENCE @ post)"
    and "\<not> List.member pre (CHR 0x60)" "\<not> List.member raw (CHR 0x60)" "\<not> List.member post (CHR 0x60)"
  shows "fence_blocks labels (pre @ FENCE @ l @ raw @ FENCE @ post) = [strip raw]"
proof -
  have skip: "find_all (fence_at labels) (x @ s) = find_all (fence_at labels) s" if "\<not> List.member x (CHR 0x60)" for x s
    using that by (intro find_all_skip fence_at_plain) auto
  obtain c cs where cs: "FENCE @ l @ raw @ FENCE @ post = c # cs" "length post < Suc (length cs)"
    by (simp add: FENCE_def)
  have "find_all (fence_at labels) post = []" using skip [OF assms(4), of "[]"] by simp
  then have "find_all (fence_at labels) (c # cs) = [strip raw]"
    using fence_at_block [OF assms(1,3)] cs by simp
  then show ?thesis unfolding fence_blocks_def skip [OF assms(2)] cs(1) .
qed

end
