(* ===== verification/Contracts.thy ===== *)
theory Contracts
  imports Scan State_Manager Phases
begin

text \<open>
  The typed contracts between agents (\<open>src/services/agent_contracts.py\<close>), their parsing
  from model output (\<open>src/services/structured_output.py\<close>), the delegation and proposal
  helpers (\<open>src/services/agent_decisions.py\<close>) and the specialist registry
  (\<open>src/services/specialist_registry.py\<close>). Payloads are JSON values, a model instance
  being its dump; \<open>json_repair\<close> is the argument \<open>repair\<close> (\<open>None\<close>: it raises or is not
  installed); the client library's structured completion is an argument.
\<close>

section \<open>Fields\<close>

text \<open>
  Field rules of the validation library: a required non-empty text, a list of texts that
  defaults to the empty one, an optional text, and no other keys (\<open>extra="forbid"\<close>).
\<close>

definition req_text :: "(string, json) dict \<Rightarrow> string \<Rightarrow> string result" where
  "req_text d k = (case dget d k of
      Some (JStr s) \<Rightarrow> if s = [] then Inl (validation_error k) else Inr s
    | _ \<Rightarrow> Inl (validation_error k))"

definition text_list :: "(string, json) dict \<Rightarrow> string \<Rightarrow> string list result" where
  "text_list d k = (case dgetd d k (JArr []) of
      JArr vs \<Rightarrow> (case json_strings vs of None \<Rightarrow> Inl (validation_error k) | Some ss \<Rightarrow> Inr ss)
    | _ \<Rightarrow> Inl (validation_error k))"

definition opt_text :: "(string, json) dict \<Rightarrow> string \<Rightarrow> string option result" where
  "opt_text d k = (case dgetd d k JNull of JNull \<Rightarrow> Inr None | JStr s \<Rightarrow> Inr (Some s) | _ \<Rightarrow> Inl (validation_error k))"

definition only_fields :: "string list \<Rightarrow> json \<Rightarrow> (string, json) dict result" where
  "only_fields names v = (case v of
      JObj d \<Rightarrow> if list_all (List.member names) (dkeys d) then Inr d else Inl (validation_error ''extra'')
    | _ \<Rightarrow> Inl (validation_error ''model''))"

definition json_opt :: "string option \<Rightarrow> json" where
  "json_opt s = (case s of None \<Rightarrow> JNull | Some t \<Rightarrow> JStr t)"

section \<open>Contracts\<close>

record delegation_decision =
  dd_target :: string
  dd_reason :: string
  dd_capabilities :: "string list"
  dd_hint :: "string option"

record task_proposal =
  pr_title :: string
  pr_summary :: string
  pr_description :: string
  pr_criteria :: "string list"
  pr_agent :: string
  pr_capabilities :: "string list"

record review_verdict =
  rv_status :: string
  rv_summary :: string
  rv_concerns :: "string list"
  rv_retry_reason :: "string option"
  rv_actions :: "string list"

record specialist_registration =
  sr_name :: string
  sr_role :: string
  sr_description :: string
  sr_inputs :: "string list"
  sr_outputs :: "string list"
  sr_needs :: "string list"
  sr_escalation :: string
  sr_tags :: "string list"

record discovery_task =
  dt_title :: string
  dt_priority :: string
  dt_description :: string
  dt_file_hint :: string

definition DelegationDecision :: "string \<Rightarrow> string \<Rightarrow> string list \<Rightarrow> string option \<Rightarrow> delegation_decision result" where
  "DelegationDecision target reason caps hint =
     (if target = [] then Inl (validation_error ''target_agent'')
      else if reason = [] then Inl (validation_error ''reason'')
      else Inr \<lparr>dd_target = target, dd_reason = reason, dd_capabilities = caps, dd_hint = hint\<rparr>)"

definition validate_proposal :: "json \<Rightarrow> task_proposal result" where
  "validate_proposal v =
     bindr (only_fields [''title'', ''summary'', ''description'', ''acceptance_criteria'', ''recommended_agent'', ''required_capabilities''] v) (\<lambda>d.
     bindr (req_text d ''title'') (\<lambda>t. bindr (req_text d ''summary'') (\<lambda>s. bindr (req_text d ''description'') (\<lambda>de.
     bindr (text_list d ''acceptance_criteria'') (\<lambda>ac. bindr (req_text d ''recommended_agent'') (\<lambda>ag.
     bindr (text_list d ''required_capabilities'') (\<lambda>rc.
       Inr \<lparr>pr_title = t, pr_summary = s, pr_description = de, pr_criteria = ac, pr_agent = ag, pr_capabilities = rc\<rparr>)))))))"

definition proposal_json :: "task_proposal \<Rightarrow> json" where
  "proposal_json p = JObj [(''title'', JStr (pr_title p)), (''summary'', JStr (pr_summary p)),
     (''description'', JStr (pr_description p)), (''acceptance_criteria'', JArr (map JStr (pr_criteria p))),
     (''recommended_agent'', JStr (pr_agent p)), (''required_capabilities'', JArr (map JStr (pr_capabilities p)))]"

definition REVIEW_STATUSES :: "string list" where
  "REVIEW_STATUSES = [''pass'', ''retry'', ''block'']"

definition validate_verdict :: "json \<Rightarrow> review_verdict result" where
  "validate_verdict v =
     bindr (only_fields [''status'', ''summary'', ''concerns'', ''retry_reason'', ''recommended_actions''] v) (\<lambda>d.
     bindr (case dget d ''status'' of Some (JStr s) \<Rightarrow> if List.member REVIEW_STATUSES s then Inr s else Inl (validation_error ''status'')
          | _ \<Rightarrow> Inl (validation_error ''status'')) (\<lambda>st.
     bindr (req_text d ''summary'') (\<lambda>su. bindr (text_list d ''concerns'') (\<lambda>co.
     bindr (opt_text d ''retry_reason'') (\<lambda>re. bindr (text_list d ''recommended_actions'') (\<lambda>ac.
       Inr \<lparr>rv_status = st, rv_summary = su, rv_concerns = co, rv_retry_reason = re, rv_actions = ac\<rparr>))))))"

definition verdict_json :: "review_verdict \<Rightarrow> json" where
  "verdict_json r = JObj [(''status'', JStr (rv_status r)), (''summary'', JStr (rv_summary r)),
     (''concerns'', JArr (map JStr (rv_concerns r))), (''retry_reason'', json_opt (rv_retry_reason r)),
     (''recommended_actions'', JArr (map JStr (rv_actions r)))]"

definition PRIORITIES :: "string list" where
  "PRIORITIES = [''HIGH'', ''MEDIUM'', ''LOW'']"

definition validate_discovery :: "json \<Rightarrow> discovery_task result" where
  "validate_discovery v =
     bindr (only_fields [''title'', ''priority'', ''description'', ''file_hint''] v) (\<lambda>d.
     bindr (req_text d ''title'') (\<lambda>t.
     bindr (case dget d ''priority'' of Some (JStr s) \<Rightarrow> if List.member PRIORITIES s then Inr s else Inl (validation_error ''priority'')
          | _ \<Rightarrow> Inl (validation_error ''priority'')) (\<lambda>p.
     bindr (req_text d ''description'') (\<lambda>de. bindr (req_text d ''file_hint'') (\<lambda>h.
       Inr \<lparr>dt_title = t, dt_priority = p, dt_description = de, dt_file_hint = h\<rparr>)))))"

section \<open>Parsing model output\<close>

definition structured_error :: "string \<Rightarrow> exn" where
  "structured_error m = Exn ''StructuredOutputError'' m"

definition parse_json_candidate :: "(string \<Rightarrow> string option) \<Rightarrow> string \<Rightarrow> json option" where
  "parse_json_candidate repair candidate = (case repair candidate of None \<Rightarrow> None | Some t \<Rightarrow> loads t)"

text \<open>
  A candidate that parses to \<open>null\<close> counts as not parsed. The candidates are the whole text
  and its fenced blocks.
\<close>

fun first_parsed :: "(string \<Rightarrow> string option) \<Rightarrow> string list \<Rightarrow> json option" where
  "first_parsed repair [] = None"
| "first_parsed repair (c # cs) =
     (if c = [] then first_parsed repair cs
      else case parse_json_candidate repair c of
          None \<Rightarrow> first_parsed repair cs
        | Some JNull \<Rightarrow> first_parsed repair cs
        | Some v \<Rightarrow> Some v)"

definition extract_json_payload :: "(string \<Rightarrow> string option) \<Rightarrow> string \<Rightarrow> json option" where
  "extract_json_payload repair text = first_parsed repair (strip text # fence_blocks [''json'', []] text)"

definition coerce_payload :: "(string \<Rightarrow> string option) \<Rightarrow> json \<Rightarrow> json result" where
  "coerce_payload repair payload = (case payload of
      JObj d \<Rightarrow> Inr payload
    | JArr vs \<Rightarrow> Inr payload
    | JStr s \<Rightarrow> (case extract_json_payload repair s of
          Some v \<Rightarrow> Inr v | None \<Rightarrow> Inl (structured_error ''Could not extract structured payload''))
    | _ \<Rightarrow> Inl (structured_error ''Could not extract structured payload''))"

definition validate_payload ::
  "(string \<Rightarrow> string option) \<Rightarrow> (json \<Rightarrow> 'm result) \<Rightarrow> json \<Rightarrow> 'm result" where
  "validate_payload repair validate payload = (case bindr (coerce_payload repair payload) validate of
      Inr m \<Rightarrow> Inr m
    | Inl e \<Rightarrow> Inl (structured_error (exn_msg e)))"

definition parse_task_proposal :: "(string \<Rightarrow> string option) \<Rightarrow> json \<Rightarrow> task_proposal result" where
  "parse_task_proposal repair payload = validate_payload repair validate_proposal payload"

definition parse_review_verdict :: "(string \<Rightarrow> string option) \<Rightarrow> json \<Rightarrow> review_verdict result" where
  "parse_review_verdict repair payload = validate_payload repair validate_verdict payload"

text \<open>\<open>re.split(r"\nTASK \d+:\n", text)\<close>\<close>

definition task_break :: "string \<Rightarrow> (unit \<times> string) option" where
  "task_break s = (case eat ([CHR 0x0A] @ ''TASK '') s of
      None \<Rightarrow> None
    | Some r \<Rightarrow> if takeWhile is_digit r = [] then None
        else map_option (\<lambda>x. ((), x)) (eat (CHR '':'' # [CHR 0x0A]) (dropWhile is_digit r)))"

function split_tasks :: "string \<Rightarrow> string \<Rightarrow> string list" where
  "split_tasks cur [] = [rev cur]"
| "split_tasks cur (c # cs) = (case task_break (c # cs) of
      None \<Rightarrow> split_tasks (c # cur) cs
    | Some (_, rest) \<Rightarrow> rev cur # (if length rest < Suc (length cs) then split_tasks [] rest else split_tasks [] cs))"
  by pat_completeness auto
termination by (relation "measure (\<lambda>(cur, s). length s)") auto

text \<open>A label followed by optional white space: what follows it.\<close>

definition after_label :: "string \<Rightarrow> string \<Rightarrow> string option" where
  "after_label label block = map_option (\<lambda>(a, b). lstrip b) (find_lit label block)"

definition line_of :: "string \<Rightarrow> string" where
  "line_of s = takeWhile (\<lambda>c. c \<noteq> CHR 0x0A) s"

definition priority_at :: "string \<Rightarrow> (string \<times> string) option" where
  "priority_at s = (case eat ''Priority:'' s of None \<Rightarrow> None | Some r \<Rightarrow> eat_any PRIORITIES (lstrip r))"

definition discovery_block :: "string \<Rightarrow> json list" where
  "discovery_block block =
     (if \<not> contains block ''Title:'' then []
      else case (after_label ''Title:'' block, search_first priority_at block, after_label ''Description:'' block, after_label ''File hint:'' block) of
          (Some t, Some (p, _), Some de, Some h) \<Rightarrow>
            [JObj [(''title'', JStr (strip (line_of t))), (''priority'', JStr (strip p)),
              (''description'', JStr (strip (case find_lit ''File hint:'' de of None \<Rightarrow> de | Some (a, b) \<Rightarrow> a))),
              (''file_hint'', JStr (strip (line_of h)))]]
        | _ \<Rightarrow> [])"

definition extract_discovery_task_blocks :: "string \<Rightarrow> json list" where
  "extract_discovery_task_blocks text = concat (map discovery_block (split_tasks [] text))"

fun map_results :: "('a \<Rightarrow> 'b result) \<Rightarrow> 'a list \<Rightarrow> 'b list result" where
  "map_results f [] = Inr []"
| "map_results f (x # xs) = bindr (f x) (\<lambda>y. bindr (map_results f xs) (\<lambda>ys. Inr (y # ys)))"

text \<open>The items of \<open>tasks\<close> are what iterating the value gives; a number or \<open>None\<close> there raises \<open>TypeError\<close>.\<close>

definition iter_json :: "json \<Rightarrow> json list result" where
  "iter_json v = (case v of
      JArr vs \<Rightarrow> Inr vs
    | JObj d \<Rightarrow> Inr (map JStr (dkeys d))
    | JStr s \<Rightarrow> Inr (map (\<lambda>c. JStr [c]) s)
    | _ \<Rightarrow> Inl (Exn ''TypeError'' ''not iterable''))"

definition parse_discovery_tasks :: "(string \<Rightarrow> string option) \<Rightarrow> json \<Rightarrow> discovery_task list result" where
  "parse_discovery_tasks repair payload =
     bindr (case coerce_payload repair payload of
         Inr v \<Rightarrow> Inr v
       | Inl e \<Rightarrow> (case payload of JStr s \<Rightarrow> Inr (JArr (extract_discovery_task_blocks s)) | _ \<Rightarrow> Inl e)) (\<lambda>data.
     bindr (case data of
         JObj d \<Rightarrow> iter_json (dgetd d ''tasks'' (JArr [data]))
       | JArr vs \<Rightarrow> Inr vs
       | _ \<Rightarrow> Inl (structured_error ''Discovery payload must be an object or list'')) (\<lambda>items.
       case map_results validate_discovery items of
         Inr ts \<Rightarrow> Inr ts
       | Inl e \<Rightarrow> Inl (structured_error (exn_msg e))))"

definition format_review_verdict :: "review_verdict \<Rightarrow> string" where
  "format_review_verdict r = join [CHR 0x0A]
     ([''Status: '' @ rv_status r, ''Summary: '' @ rv_summary r] @
      (if rv_concerns r = [] then [] else ''Concerns:'' # map (\<lambda>c. ''- '' @ c) (rv_concerns r)) @
      (case rv_retry_reason r of None \<Rightarrow> [] | Some s \<Rightarrow> if s = [] then [] else [''Retry reason: '' @ s]) @
      (if rv_actions r = [] then [] else ''Recommended actions:'' # map (\<lambda>a. ''- '' @ a) (rv_actions r)))"

text \<open>
  \<open>request_structured_output\<close>: the client's own structured completion (\<open>client\<close>), else the
  text of a plain completion, validated.
\<close>

definition response_content :: "string option \<Rightarrow> string option \<Rightarrow> string" where
  "response_content content tool_calls = (case content of
      Some c \<Rightarrow> c
    | None \<Rightarrow> (case tool_calls of None \<Rightarrow> [] | Some t \<Rightarrow> t))"

definition request_structured_output ::
  "(string \<Rightarrow> string option) \<Rightarrow> (json \<Rightarrow> 'm result) \<Rightarrow> 'm result \<Rightarrow> (string option \<times> string option) result \<Rightarrow> 'm result" where
  "request_structured_output repair validate client completion = (case client of
      Inr m \<Rightarrow> Inr m
    | Inl e \<Rightarrow> if exn_type e = ''CancelledError'' then Inl e
        else bindr completion (\<lambda>(content, tool_calls).
          validate_payload repair validate (JStr (response_content content tool_calls))))"

section \<open>Decisions\<close>

definition ranked_rules :: "(string list \<times> string \<times> string) list" where
  "ranked_rules =
     [([''review'', ''critic'', ''safety'', ''quality'', ''test'', ''validate''], ''Critic'', ''goal requires structured review''),
      ([''idea'', ''plan'', ''research'', ''explore'', ''trend'', ''discover''], ''Ideator'', ''goal requires discovery and planning''),
      ([''health'', ''status'', ''queue'', ''monitor''], ''Pulse'', ''goal requires runtime health visibility''),
      ([''budget'', ''cost'', ''spend'', ''quota''], ''FinOps'', ''goal requires cost and budget analysis''),
      ([''build'', ''implement'', ''code'', ''create'', ''fix''], ''Builder'', ''goal requires implementation work'')]"

definition choose_delegate :: "bool \<Rightarrow> bool \<Rightarrow> string \<Rightarrow> string list \<Rightarrow> delegation_decision result" where
  "choose_delegate ai_enabled ai_available user_goal available =
     (if available = [] then Inl (Exn ''ValueError'' ''available_agents must not be empty'')
      else let goal = lower (strip user_goal) in
        case filter (\<lambda>(ks, c, r). List.member available c \<and> list_ex (contains goal) ks) ranked_rules of
          (ks, c, r) # rest \<Rightarrow>
            DelegationDecision c r (if c = ''Ideator'' \<or> c = ''Critic'' then [''repo.read_file''] else []) None
        | [] \<Rightarrow> DelegationDecision (if List.member available ''Builder'' then ''Builder'' else hd available)
            (if ai_enabled \<and> \<not> ai_available then ''pydantic-ai decisioning unavailable; using deterministic fallback''
             else ''default routing'') [] None)"

definition build_task_proposal ::
  "(string \<Rightarrow> string option) \<Rightarrow> string \<Rightarrow> string \<Rightarrow> string list \<Rightarrow> string \<Rightarrow> string list option \<Rightarrow> string option \<Rightarrow> task_proposal result" where
  "build_task_proposal repair title description criteria agent caps summary =
     parse_task_proposal repair (proposal_json \<lparr>pr_title = title,
       pr_summary = (case summary of None \<Rightarrow> description | Some s \<Rightarrow> if s = [] then description else s),
       pr_description = description, pr_criteria = criteria, pr_agent = agent,
       pr_capabilities = (case caps of None \<Rightarrow> [] | Some c \<Rightarrow> c)\<rparr>)"

section \<open>The specialist registry\<close>

text \<open>\<open>strip().casefold()\<close> on code points below 256: the lower case, with the sharp s as two letters.\<close>

definition casefold :: "string \<Rightarrow> string" where
  "casefold s = concat (map (\<lambda>c. if c = CHR 0xDF then ''ss'' else [lower_char c]) s)"

definition normalize_specialist_name :: "string \<Rightarrow> string" where
  "normalize_specialist_name name = casefold (strip name)"

definition DEFAULT_PHASE_OWNERS :: "(phase, string list) dict" where
  "DEFAULT_PHASE_OWNERS = [(PLAN, [''Ideator'']), (ARCHITECT, [''Architect'']), (IMPLEMENT, [''Builder'']),
     (REVIEW, [''Critic'']), (GOVERN, [''Governor'']), (OPERATE, [''Pulse'', ''FinOps''])]"

record specialist_registry =
  sp_registrations :: "(string, specialist_registration) dict"
  sp_owners :: "(phase, string list) dict"

definition SpecialistRegistry :: specialist_registry where
  "SpecialistRegistry = \<lparr>sp_registrations = [], sp_owners = DEFAULT_PHASE_OWNERS\<rparr>"

definition register_specialist :: "specialist_registration \<Rightarrow> specialist_registry \<Rightarrow> specialist_registry result" where
  "register_specialist r reg =
     (let key = normalize_specialist_name (sr_name r) in
      if dmem key (sp_registrations reg)
      then Inl (Exn ''ValueError'' (''specialist '' @ [CHR 0x27] @ sr_name r @ [CHR 0x27] @ '' is already registered''))
      else Inr (reg\<lparr>sp_registrations := dset key r (sp_registrations reg)\<rparr>))"

definition get_specialist :: "string \<Rightarrow> specialist_registry \<Rightarrow> specialist_registration option" where
  "get_specialist name reg = dget (sp_registrations reg) (normalize_specialist_name name)"

definition list_specialists :: "specialist_registry \<Rightarrow> specialist_registration list" where
  "list_specialists reg = dvalues (sp_registrations reg)"

definition owners_of :: "phase \<Rightarrow> specialist_registry \<Rightarrow> string list" where
  "owners_of p reg = dgetd (sp_owners reg) p []"

definition assign_owner :: "phase \<Rightarrow> string \<Rightarrow> specialist_registry \<Rightarrow> specialist_registry" where
  "assign_owner p agent reg =
     (let owners = dgetd (sp_owners reg) p [] in
      reg\<lparr>sp_owners := dset p (if List.member owners agent then owners else owners @ [agent]) (sp_owners reg)\<rparr>)"

section \<open>What parsing guarantees\<close>

lemma req_text_Inr: "req_text d k = Inr s \<longleftrightarrow> dget d k = Some (JStr s) \<and> s \<noteq> []"
  by (auto simp: req_text_def split: option.splits json.splits if_splits)

lemma coerce_dict [simp]: "coerce_payload repair (JObj d) = Inr (JObj d)"
  by (simp add: coerce_payload_def)

lemma validate_payload_dict [simp]:
  "validate_payload repair validate (JObj d) = (case validate (JObj d) of Inr m \<Rightarrow> Inr m | Inl e \<Rightarrow> Inl (structured_error (exn_msg e)))"
  by (simp add: validate_payload_def)

definition verdict_ok :: "review_verdict \<Rightarrow> bool" where
  "verdict_ok v \<longleftrightarrow> List.member REVIEW_STATUSES (rv_status v) \<and> rv_summary v \<noteq> []"

definition proposal_ok :: "task_proposal \<Rightarrow> bool" where
  "proposal_ok p \<longleftrightarrow> pr_title p \<noteq> [] \<and> pr_summary p \<noteq> [] \<and> pr_description p \<noteq> [] \<and> pr_agent p \<noteq> []"

lemma choice_Inr:
  "(case dget d k of Some (JStr s) \<Rightarrow> if List.member xs s then Inr s else Inl e | _ \<Rightarrow> Inl e') = Inr s \<longleftrightarrow>
    dget d k = Some (JStr s) \<and> List.member xs s"
  by (auto split: option.splits json.splits if_splits)

lemma validate_verdict_ok:
  assumes "validate_verdict x = Inr v"
  shows "verdict_ok v"
proof -
  from assms obtain d st su co re ac where "List.member REVIEW_STATUSES st" "req_text d ''summary'' = Inr su"
    "v = \<lparr>rv_status = st, rv_summary = su, rv_concerns = co, rv_retry_reason = re, rv_actions = ac\<rparr>"
    unfolding validate_verdict_def bindr_Inr_iff choice_Inr by blast
  then show ?thesis by (simp add: verdict_ok_def req_text_Inr)
qed

lemma validate_proposal_ok: "validate_proposal x = Inr p \<Longrightarrow> proposal_ok p"
  by (auto simp: validate_proposal_def proposal_ok_def result_simps req_text_Inr)

lemma validate_verdict_json: "verdict_ok v \<Longrightarrow> validate_verdict (verdict_json v) = Inr v"
  by (cases v) (auto simp: validate_verdict_def verdict_json_def verdict_ok_def only_fields_def dkeys_def text_list_def
      opt_text_def dgetd_def json_opt_def req_text_def split: option.splits)

lemma validate_proposal_json: "proposal_ok p \<Longrightarrow> validate_proposal (proposal_json p) = Inr p"
  by (cases p) (simp add: validate_proposal_def proposal_json_def proposal_ok_def only_fields_def dkeys_def text_list_def
      dgetd_def req_text_def)

lemma validate_payload_Inr: "validate_payload repair validate x = Inr m \<Longrightarrow> \<exists>y. validate y = Inr m"
  by (auto simp: validate_payload_def result_simps split: sum.splits)

text \<open>C34: contracts survive the exchange. Whatever the model output a verdict was parsed from, its
  status is one of the three, its summary is not empty, and parsing its dump gives the same
  verdict; the same holds for task proposals and their four required texts.\<close>

theorem contract_roundtrip:
  "(parse_review_verdict repair x = Inr v \<longrightarrow>
      verdict_ok v \<and> parse_review_verdict repair' (verdict_json v) = Inr v)
   \<and> (parse_task_proposal repair y = Inr p \<longrightarrow>
      proposal_ok p \<and> parse_task_proposal repair' (proposal_json p) = Inr p)"
proof (intro conjI impI)
  assume "parse_review_verdict repair x = Inr v"
  from validate_payload_Inr [OF this [unfolded parse_review_verdict_def]] show ok: "verdict_ok v"
    using validate_verdict_ok by auto
  show "parse_review_verdict repair' (verdict_json v) = Inr v"
    using validate_verdict_json [OF ok] by (simp add: parse_review_verdict_def verdict_json_def)
next
  assume "parse_task_proposal repair y = Inr p"
  from validate_payload_Inr [OF this [unfolded parse_task_proposal_def]] show ok: "proposal_ok p"
    using validate_proposal_ok by auto
  show "parse_task_proposal repair' (proposal_json p) = Inr p"
    using validate_proposal_json [OF ok] by (simp add: parse_task_proposal_def proposal_json_def)
qed

definition demo_verdict :: review_verdict where
  "demo_verdict = \<lparr>rv_status = ''retry'', rv_summary = ''s'', rv_concerns = [''c''], rv_retry_reason = Some ''r'', rv_actions = []\<rparr>"

theorem contract_roundtrip_witness:
  "parse_review_verdict (\<lambda>s. None) (verdict_json demo_verdict) = Inr demo_verdict"
proof -
  have "parse_review_verdict (\<lambda>s. Some s) (JObj [(''summary'', JStr ''s''), (''status'', JStr ''retry''),
      (''concerns'', JArr [JStr ''c'']), (''retry_reason'', JStr ''r'')]) = Inr demo_verdict"
    by (simp add: parse_review_verdict_def validate_verdict_def only_fields_def dkeys_def REVIEW_STATUSES_def
        req_text_def text_list_def opt_text_def dgetd_def demo_verdict_def)
  with contract_roundtrip [where repair = "\<lambda>s. Some s" and repair' = "\<lambda>s. None" and v = demo_verdict] show ?thesis by blast
qed

text \<open>A delegation names an agent that is there. With at least one available agent, all with
  a name, the choice returns a decision whose target is available and whose reason is not
  empty, and it asks for the read capability only for the two agents that review and
  plan; without agents it raises.\<close>

theorem choose_delegate_sound:
  assumes "list_all (\<lambda>a. a \<noteq> []) available"
  shows "case choose_delegate ai_enabled ai_available user_goal available of
      Inr d \<Rightarrow> List.member available (dd_target d) \<and> dd_reason d \<noteq> [] \<and> dd_hint d = None \<and>
        (dd_capabilities d = [] \<or> dd_capabilities d = [''repo.read_file''] \<and> (dd_target d = ''Ideator'' \<or> dd_target d = ''Critic''))
    | Inl e \<Rightarrow> available = [] \<and> exn_type e = ''ValueError''"
proof (cases "available = []")
  case True
  then show ?thesis by (simp add: choose_delegate_def)
next
  case False
  let ?fs = "filter (\<lambda>(ks, c, r). List.member available c \<and> list_ex (contains (lower (strip user_goal))) ks) ranked_rules"
  have hd: "hd available \<noteq> []" "hd available \<in> set available" using assms False by (auto simp: list_all_iff)
  show ?thesis
  proof (cases ?fs)
    case Nil
    then show ?thesis using False hd by (auto simp: choose_delegate_def Let_def DelegationDecision_def)
  next
    case (Cons x rest)
    obtain ks c r where x: "x = (ks, c, r)" by (metis prod_cases3)
    have "(ks, c, r) \<in> set ?fs" unfolding Cons x by simp
    then have m: "(ks, c, r) \<in> set ranked_rules" "List.member available c" unfolding set_filter by auto
    then have "r \<noteq> []" "c \<noteq> []" by (auto simp: ranked_rules_def)
    with Cons x m(2) False show ?thesis by (simp add: choose_delegate_def Let_def DelegationDecision_def)
  qed
qed

theorem choose_delegate_sound_witness:
  "case choose_delegate True False '' Fix the tests '' [''Builder'', ''Critic''] of
      Inr d \<Rightarrow> List.member [''Builder'', ''Critic''] (dd_target d) | Inl e \<Rightarrow> False"
  using choose_delegate_sound [of "[''Builder'', ''Critic'']" True False "'' Fix the tests ''"]
  by (simp split: sum.splits)

text \<open>Every task a discovery returns satisfies its contract.\<close>

lemma map_results_Inr: "map_results f xs = Inr ys \<Longrightarrow> y \<in> set ys \<Longrightarrow> \<exists>x. f x = Inr y"
  by (induction xs arbitrary: ys) (auto simp: result_simps)

lemma discovery_valid:
  assumes "parse_discovery_tasks repair payload = Inr ts" "t \<in> set ts"
  shows "dt_title t \<noteq> [] \<and> List.member PRIORITIES (dt_priority t) \<and> dt_description t \<noteq> [] \<and> dt_file_hint t \<noteq> []"
proof -
  from assms(1) obtain items where "(case map_results validate_discovery items of
      Inr ts \<Rightarrow> Inr ts | Inl e \<Rightarrow> Inl (structured_error (exn_msg e))) = Inr ts"
    unfolding parse_discovery_tasks_def bindr_Inr_iff by blast
  then have "map_results validate_discovery items = Inr ts" by (cases "map_results validate_discovery items") auto
  from map_results_Inr [OF this assms(2)] obtain x where "validate_discovery x = Inr t" ..
  then show ?thesis unfolding validate_discovery_def bindr_Inr_iff choice_Inr req_text_Inr by auto
qed

lemma legacy_blocks:
  "extract_discovery_task_blocks ([CHR 0x0A] @ ''TASK 1:'' @ [CHR 0x0A] @ ''Title: a'' @ [CHR 0x0A] @ ''Priority: LOW'' @ [CHR 0x0A] @
      ''Description: d'' @ [CHR 0x0A] @ ''File hint: f'') =
   [JObj [(''title'', JStr ''a''), (''priority'', JStr ''LOW''), (''description'', JStr ''d''), (''file_hint'', JStr ''f'')]]"
  by code_simp

lemma registered_found:
  "register_specialist r reg = Inr reg' \<Longrightarrow>
    normalize_specialist_name n = normalize_specialist_name (sr_name r) \<Longrightarrow> get_specialist n reg' = Some r"
  by (auto simp: register_specialist_def get_specialist_def Let_def split: if_splits)

lemma register_twice_raises:
  "register_specialist r reg = Inr reg' \<Longrightarrow> normalize_specialist_name (sr_name r2) = normalize_specialist_name (sr_name r) \<Longrightarrow>
    \<exists>e. register_specialist r2 reg' = Inl e"
  by (auto simp: register_specialist_def Let_def split: if_splits)

lemma assign_owner_idem: "assign_owner p a (assign_owner p a reg) = assign_owner p a reg"
  by (auto simp: assign_owner_def Let_def dgetd_def dset_same)

end
