(* ===== verification/Planner.thy ===== *)
theory Planner
  imports Capabilities Contracts
begin

text \<open>
  The planner of \<open>src/planner.py\<close>: it extracts tool calls from model text, executes them
  and feeds the results back for a bounded number of turns. Arguments of the model: the
  JSON repair, the model turns (\<open>llm\<close>, the completion service behind its retries), the
  registered tools, the order in which the event loop runs the calls of a turn, and the
  configured size limit. The world is any state the tools and the service act on, beside the
  metrics registry.
\<close>

section \<open>Tool calls\<close>

definition KNOWN_TOOLS :: "string list" where
  "KNOWN_TOOLS = [''read_file'', ''write_file'', ''list_directory'', ''read_repo_file'', ''list_repo_contents'',
     ''search_web'', ''execute_python_code'']"

record tool_call =
  pt_name :: json
  pt_args :: json

definition mk_call :: "json \<Rightarrow> json \<Rightarrow> tool_call" where
  "mk_call name args = \<lparr>pt_name = name, pt_args = args\<rparr>"

text \<open>\<open>PlannerToolCall.model_validate_json\<close>\<close>

definition validate_tool_call :: "json \<Rightarrow> (string \<times> (string, json) dict) option" where
  "validate_tool_call v = (case v of
      JObj d \<Rightarrow> (case (dget d ''action'', dget d ''tool_name'', dgetd d ''args'' (JObj [])) of
          (Some (JStr a), Some (JStr n), JObj args) \<Rightarrow> if a = ''tool_call'' then Some (n, args) else None
        | _ \<Rightarrow> None)
    | _ \<Rightarrow> None)"

definition repair_and_validate_tool_json :: "(string \<Rightarrow> string option) \<Rightarrow> string \<Rightarrow> tool_call option" where
  "repair_and_validate_tool_json repair raw = (case parse_json_candidate repair raw of
      None \<Rightarrow> None
    | Some v \<Rightarrow> (case validate_tool_call v of
          None \<Rightarrow> None
        | Some (n, args) \<Rightarrow> if List.member KNOWN_TOOLS n then Some (mk_call (JStr n) (JObj args)) else None))"

definition or_else :: "json \<Rightarrow> json \<Rightarrow> json" where
  "or_else a b = (if truthy a then a else b)"

text \<open>Membership of a set of names: unhashable values raise.\<close>

definition in_names :: "string list \<Rightarrow> json \<Rightarrow> bool result" where
  "in_names names v = (if \<not> hashable v then Inl (Exn ''TypeError'' ''unhashable type'')
     else Inr (case v of JStr s \<Rightarrow> List.member names s | _ \<Rightarrow> False))"

text \<open>\<open>k in v\<close> for the value of \<open>args\<close>.\<close>

definition key_in :: "string \<Rightarrow> json \<Rightarrow> bool result" where
  "key_in k v = (case v of
      JObj d \<Rightarrow> Inr (dmem k d)
    | JStr s \<Rightarrow> Inr (contains s k)
    | JArr vs \<Rightarrow> Inr (list_ex (\<lambda>x. x = JStr k) vs)
    | _ \<Rightarrow> Inl (Exn ''TypeError'' ''not iterable''))"

definition without :: "string list \<Rightarrow> (string, json) dict \<Rightarrow> (string, json) dict" where
  "without ks d = filter (\<lambda>(k, v). \<not> List.member ks k) d"

definition normalize_call :: "(string, json) dict \<Rightarrow> tool_call result" where
  "normalize_call item = (case dget item ''arguments'' of
      Some (JObj inner) \<Rightarrow>
       (let name = or_else (dgetd inner ''tool_name'' JNull) (dgetd item ''tool_name'' JNull);
            args = or_else (dgetd inner ''args'' JNull) (JObj (without [''tool_name'', ''args''] inner))
        in if truthy name then Inr (mk_call name args)
           else bindr (key_in ''path'' args) (\<lambda>p. bindr (if p then key_in ''content'' args else Inr False) (\<lambda>c.
             Inr (mk_call (JStr (if p \<and> c then ''write_file'' else if p then ''read_file'' else [])) args))))
    | _ \<Rightarrow> Inr (mk_call (dgetd item ''tool_name'' (JStr [])) (dgetd item ''args'' (JObj []))))"

definition tools_entry :: "json \<Rightarrow> tool_call list result" where
  "tools_entry tool = (case tool of
      JObj t \<Rightarrow>
       (let name = or_else (dgetd t ''name'' JNull) (dgetd t ''tool_name'' JNull);
            args = or_else (dgetd t ''arguments'' JNull) (dgetd t ''args'' (JObj []))
        in bindr (in_names KNOWN_TOOLS name) (\<lambda>b. Inr (if b then [mk_call name args] else [])))
    | _ \<Rightarrow> Inr [])"

definition append_results :: "'a list result \<Rightarrow> 'a list result \<Rightarrow> 'a list result" where
  "append_results a b = bindr a (\<lambda>xs. bindr b (\<lambda>ys. Inr (xs @ ys)))"

fun concat_results :: "('a \<Rightarrow> 'b list result) \<Rightarrow> 'a list \<Rightarrow> 'b list result" where
  "concat_results f [] = Inr []"
| "concat_results f (x # xs) = append_results (f x) (concat_results f xs)"

definition extract_dict :: "(string, json) dict \<Rightarrow> tool_call list result" where
  "extract_dict data =
     (if dget data ''action'' = Some (JStr ''tool_call'') then bindr (normalize_call data) (\<lambda>c. Inr [c])
      else bindr (in_names KNOWN_TOOLS (dgetd data ''action'' (JStr []))) (\<lambda>known.
        if known then Inr [mk_call (dgetd data ''action'' (JStr []))
          (or_else (dgetd data ''args'' JNull) (or_else (dgetd data ''arguments'' JNull)
            (JObj (without [''action'', ''args'', ''arguments''] data))))]
        else case dget data ''tools'' of
            Some (JArr ts) \<Rightarrow> concat_results tools_entry ts
          | _ \<Rightarrow> if dmem ''tool_name'' data then bindr (normalize_call data) (\<lambda>c. Inr [c]) else Inr []))"

fun extract_tool_calls :: "json \<Rightarrow> tool_call list result"
  and extract_tool_calls_list :: "json list \<Rightarrow> tool_call list result" where
  "extract_tool_calls (JArr vs) = extract_tool_calls_list vs"
| "extract_tool_calls (JObj d) = extract_dict d"
| "extract_tool_calls v = Inr []"
| "extract_tool_calls_list [] = Inr []"
| "extract_tool_calls_list (v # vs) = append_results (extract_tool_calls v) (extract_tool_calls_list vs)"

section \<open>Calls in text\<close>

definition block_calls :: "(string \<Rightarrow> string option) \<Rightarrow> string \<Rightarrow> tool_call list result" where
  "block_calls repair raw = (case repair_and_validate_tool_json repair raw of
      Some c \<Rightarrow> Inr [c]
    | None \<Rightarrow> (case parse_json_candidate repair raw of
          None \<Rightarrow> Inr [] | Some JNull \<Rightarrow> Inr [] | Some v \<Rightarrow> extract_tool_calls v))"

definition QUOTE :: string where
  "QUOTE = [CHR 0x22]"

text \<open>\<open>{"tool_name": "...", "args": {...}}\<close>\<close>

definition inline_at :: "string \<Rightarrow> ((string \<times> string) \<times> string) option" where
  "inline_at s =
     Option.bind (eat ''{'' s) (\<lambda>s1. Option.bind (eat (QUOTE @ ''tool_name'' @ QUOTE) (lstrip s1)) (\<lambda>s2.
     Option.bind (eat_spaced (CHR '':'') s2) (\<lambda>s3. Option.bind (quoted s3) (\<lambda>(name, s4).
     Option.bind (eat_spaced (CHR '','') s4) (\<lambda>s5. Option.bind (eat (QUOTE @ ''args'' @ QUOTE) s5) (\<lambda>s6.
     Option.bind (eat_spaced (CHR '':'') s6) (\<lambda>s7. Option.bind (eat ''{'' s7) (\<lambda>s8.
       let body = takeWhile (\<lambda>c. c \<noteq> CHR ''}'') s8 in
       Option.bind (eat ''}'' (dropWhile (\<lambda>c. c \<noteq> CHR ''}'') s8)) (\<lambda>s9.
       Option.bind (eat ''}'' (lstrip s9)) (\<lambda>s10. Some ((name, ''{'' @ body @ ''}''), s10)))))))))))"

definition inline_calls :: "string \<Rightarrow> tool_call list" where
  "inline_calls text = concat (map (\<lambda>(name, args). case loads args of None \<Rightarrow> [] | Some v \<Rightarrow> [mk_call (JStr name) v])
     (find_all inline_at text))"

text \<open>\<open>read_file("path")\<close> and its like\<close>

definition SIMPLE_TOOLS :: "string list" where
  "SIMPLE_TOOLS = [''read_file'', ''list_directory'', ''read_repo_file'', ''list_repo_contents'', ''search_web'', ''execute_python_code'']"

definition simple_at :: "string \<Rightarrow> ((string \<times> string) \<times> string) option" where
  "simple_at s = Option.bind (eat_any SIMPLE_TOOLS s) (\<lambda>(name, s1). Option.bind (eat_spaced (CHR ''('') s1) (\<lambda>s2.
     Option.bind (quoted s2) (\<lambda>(arg, s3). Option.bind (eat '')'' (lstrip s3)) (\<lambda>s4. Some ((name, arg), s4)))))"

definition simple_calls :: "string \<Rightarrow> tool_call list" where
  "simple_calls text = map (\<lambda>(name, arg). mk_call (JStr name) (JObj [(''path'', JStr arg)])) (find_all simple_at text)"

text \<open>\<open>write_file\<close> out of malformed JSON: the path, and everything up to the last quote.\<close>

definition field_at :: "string \<Rightarrow> string \<Rightarrow> (string \<times> string) option" where
  "field_at key s = Option.bind (eat (QUOTE @ key @ QUOTE) s) (\<lambda>s1. Option.bind (eat_spaced (CHR '':'') s1) quoted)"

definition open_at :: "string \<Rightarrow> string \<Rightarrow> (unit \<times> string) option" where
  "open_at key s = Option.bind (eat (QUOTE @ key @ QUOTE) s) (\<lambda>s1. Option.bind (eat_spaced (CHR '':'') s1) (\<lambda>s2.
     map_option (\<lambda>s3. ((), s3)) (eat QUOTE s2)))"

definition until_last_quote :: "string \<Rightarrow> string" where
  "until_last_quote s = (if List.member s (CHR 0x22) then rev (tl (dropWhile (\<lambda>c. c \<noteq> CHR 0x22) (rev s))) else s)"

definition write_file_calls :: "nat \<Rightarrow> string \<Rightarrow> tool_call list" where
  "write_file_calls max_bytes raw =
     (if \<not> contains raw (QUOTE @ ''write_file'' @ QUOTE) \<and> \<not> contains raw (QUOTE @ ''action'' @ QUOTE) then []
      else case (search_first (field_at ''path'') raw, search_first (open_at ''content'') raw) of
          (Some (path, _), Some (_, rest)) \<Rightarrow>
            if max_bytes < length rest then []
            else [mk_call (JStr ''write_file'') (JObj [(''path'', JStr path), (''content'', JStr (until_last_quote rest))])]
        | _ \<Rightarrow> [])"

definition parse_tool_calls :: "(string \<Rightarrow> string option) \<Rightarrow> nat \<Rightarrow> string \<Rightarrow> tool_call list result" where
  "parse_tool_calls repair max_bytes text =
     (let scan_ok = utf8_size text \<le> max_bytes;
          blocks = (if scan_ok then fence_blocks [''json'', ''python''] text else [])
      in bindr (concat_results (block_calls repair) blocks) (\<lambda>c0. Inr (
        if c0 \<noteq> [] then c0
        else if inline_calls text \<noteq> [] then inline_calls text
        else if simple_calls text \<noteq> [] then simple_calls text
        else concat (map (write_file_calls max_bytes) blocks))))"

section \<open>Execution\<close>

type_synonym 'w planner_world = "'w \<times> metrics_registry \<times> fs"

text \<open>The name is a text here: it was looked up in the registry.\<close>

definition execute_tool_call ::
  "(real \<Rightarrow> string) \<Rightarrow> string \<Rightarrow> (string, 'w tool) dict \<Rightarrow> tool_call \<Rightarrow> 'w planner_world \<Rightarrow> 'w planner_world \<times> (string, json) dict result" where
  "execute_tool_call frepr no_mapping reg call w =
     (let name = pt_name call;
          found = (case name of JStr n \<Rightarrow> map_option (Pair n) (dget reg n) | _ \<Rightarrow> None);
          failed = (\<lambda>n e w1 m. ((w1, record_tool_call n 0 (Some e) m),
            Inr [(''status'', JStr ''error''), (''tool_name'', JStr n), (''message'', JStr (exn_msg e))]))
      in if \<not> hashable name then (w, Inl (Exn ''TypeError'' ''unhashable type''))
         else case found of
             None \<Rightarrow> (w, Inr [(''status'', JStr ''error''),
               (''message'', JStr (''Tool '' @ [CHR 0x27] @ py_str frepr name @ [CHR 0x27] @ '' not found.''))])
           | Some (n, f) \<Rightarrow> (case pt_args call of
                 JObj d \<Rightarrow> (case f d (fst w) of
                     (w1, Inr v) \<Rightarrow> ((w1, record_tool_call n 0 None (snd w)),
                       Inr [(''status'', JStr ''success''), (''tool_name'', JStr n), (''output'', v)])
                   | (w1, Inl e) \<Rightarrow> if is_exception e then failed n e w1 (snd w) else ((w1, snd w), Inl e))
               | _ \<Rightarrow> failed n (Exn ''TypeError'' no_mapping) (fst w) (snd w)))"

text \<open>The arrow of the result lines is outside the code points of the model: its UTF-8 bytes stand for it.\<close>

definition result_line :: "(real \<Rightarrow> string) \<Rightarrow> (string, json) dict \<Rightarrow> string" where
  "result_line frepr r = ''Tool '' @ [CHR 0x27] @ py_str frepr (dgetd r ''tool_name'' JNull) @ [CHR 0x27] @ '': '' @
     py_str frepr (dgetd r ''status'' JNull) @ '' '' @ [CHR 0xE2, CHR 0x86, CHR 0x92] @ '' '' @
     py_str frepr (dgetd r ''output'' (dgetd r ''message'' (JStr [])))"

definition filter_allowed :: "string list option \<Rightarrow> tool_call list \<Rightarrow> tool_call list result" where
  "filter_allowed allowed calls = (case allowed of
      None \<Rightarrow> Inr calls
    | Some names \<Rightarrow> concat_results (\<lambda>c. bindr (in_names names (pt_name c)) (\<lambda>b. Inr (if b then [c] else []))) calls)"

definition execute_calls ::
  "(real \<Rightarrow> string) \<Rightarrow> string \<Rightarrow> (string, 'w tool) dict \<Rightarrow> nat list \<Rightarrow> tool_call list \<Rightarrow> 'w planner_world
    \<Rightarrow> 'w planner_world \<times> string result" where
  "execute_calls frepr no_mapping reg order calls w =
     (case run_order (execute_tool_call frepr no_mapping reg) calls order w of
        (w', rs) \<Rightarrow> (w', case first_error (dvalues rs) of
            Some e \<Rightarrow> Inl e
          | None \<Rightarrow> Inr (join [CHR 0x0A] (concat (map (\<lambda>i. case dget rs i of Some (Inr r) \<Rightarrow> [result_line frepr r] | _ \<Rightarrow> [])
              [0..<length calls])))))"

section \<open>The loop\<close>

definition TOOL_PROMPT_SUFFIX :: string where
  "TOOL_PROMPT_SUFFIX = join [CHR 0x0A]
    [[],
     [],
     ''---'',
     ''TOOL INSTRUCTIONS:'',
     ''You have access to the following tools. When you need to use a tool,'',
     ''output a JSON code block with the tool call details. You may emit multiple'',
     ''tool calls in a single response by including a JSON array.'',
     [],
     ''CRITICAL: You MUST always respond with text. Never return an empty response.'',
     ''If you have nothing to say, explain your reasoning.'',
     [],
     ''Available tools:'',
     ''- read_file(path): Read a text file within the project.'',
     ''- write_file(path, content): Write text content to a file (allowed dirs: src/, tests/, docs/, staged_agents/).'',
     ''- list_directory(path='' @ [CHR 0x22] @ ''.'' @ [CHR 0x22] @ ''): List files and directories.'',
     ''- read_repo_file(path): Read a file from the configured GitHub repository.'',
     ''- list_repo_contents(path='' @ [CHR 0x22] @ [CHR 0x22] @ ''): List files/directories in the GitHub repo.'',
     ''- search_web(query, max_results=3): Search the web.'',
     ''- execute_python_code(code): Execute Python in a sandbox.'',
     [],
     ''TOOL CALL FORMAT (use exactly this markdown block):'',
     [CHR 0x60] @ [CHR 0x60] @ [CHR 0x60] @ ''json'',
     ''{'' @ [CHR 0x22] @ ''action'' @ [CHR 0x22] @ '': '' @ [CHR 0x22] @ ''tool_call'' @ [CHR 0x22] @ '', '' @ [CHR 0x22] @ ''tool_name'' @ [CHR 0x22] @ '': '' @ [CHR 0x22] @ ''read_file'' @ [CHR 0x22] @ '', '' @ [CHR 0x22] @ ''args'' @ [CHR 0x22] @ '': {'' @ [CHR 0x22] @ ''path'' @ [CHR 0x22] @ '': '' @ [CHR 0x22] @ ''src/main.py'' @ [CHR 0x22] @ ''}}'',
     [CHR 0x60] @ [CHR 0x60] @ [CHR 0x60],
     [],
     ''Or for multiple calls:'',
     [CHR 0x60] @ [CHR 0x60] @ [CHR 0x60] @ ''json'',
     ''['',
     ''  {'' @ [CHR 0x22] @ ''action'' @ [CHR 0x22] @ '': '' @ [CHR 0x22] @ ''tool_call'' @ [CHR 0x22] @ '', '' @ [CHR 0x22] @ ''tool_name'' @ [CHR 0x22] @ '': '' @ [CHR 0x22] @ ''read_file'' @ [CHR 0x22] @ '', '' @ [CHR 0x22] @ ''args'' @ [CHR 0x22] @ '': {'' @ [CHR 0x22] @ ''path'' @ [CHR 0x22] @ '': '' @ [CHR 0x22] @ ''src/main.py'' @ [CHR 0x22] @ ''}},'',
     ''  {'' @ [CHR 0x22] @ ''action'' @ [CHR 0x22] @ '': '' @ [CHR 0x22] @ ''tool_call'' @ [CHR 0x22] @ '', '' @ [CHR 0x22] @ ''tool_name'' @ [CHR 0x22] @ '': '' @ [CHR 0x22] @ ''list_directory'' @ [CHR 0x22] @ '', '' @ [CHR 0x22] @ ''args'' @ [CHR 0x22] @ '': {'' @ [CHR 0x22] @ ''path'' @ [CHR 0x22] @ '': '' @ [CHR 0x22] @ ''src'' @ [CHR 0x22] @ ''}}'',
     '']'',
     [CHR 0x60] @ [CHR 0x60] @ [CHR 0x60],
     [],
     ''After each tool execution, you will receive the results and can continue.'',
     ''If you don'' @ [CHR 0x27] @ ''t need any tools, just respond normally without JSON blocks.'',
     []]"

definition build_tool_suffix :: "string list option \<Rightarrow> string" where
  "build_tool_suffix allowed = (case allowed of
      None \<Rightarrow> TOOL_PROMPT_SUFFIX
    | Some names \<Rightarrow> join [CHR 0x0A] (filter (\<lambda>line. if startswith (strip line) ''- ''
          then List.member names (strip (takeWhile (\<lambda>c. c \<noteq> CHR ''('') (drop 2 line))) else True)
        (splitlines TOOL_PROMPT_SUFFIX)))"

type_synonym messages = "(string \<times> string) list"

record 'w planner_env =
  pe_repair :: "string \<Rightarrow> string option"
  pe_max_bytes :: nat
  pe_frepr :: "real \<Rightarrow> string"
  pe_no_mapping :: string
  pe_tools :: "(string, 'w tool) dict"
  pe_llm :: "messages \<Rightarrow> 'w \<Rightarrow> 'w \<times> string result"
  pe_order :: "messages \<Rightarrow> nat \<Rightarrow> nat list"
  pe_allowed :: "string list option"

definition llm_turn :: "'w planner_env \<Rightarrow> messages \<Rightarrow> 'w planner_world \<Rightarrow> 'w planner_world \<times> string result" where
  "llm_turn env msgs w = (case pe_llm env msgs (fst w) of (w1, r) \<Rightarrow> ((w1, snd w), r))"

definition FINAL_PROMPT :: string where
  "FINAL_PROMPT = ''You have received the latest tool results. Respond with a final plain-text answer now. Do not call any more tools or return JSON.''"

definition finalize_planner ::
  "'w planner_env \<Rightarrow> messages \<Rightarrow> string \<Rightarrow> string \<Rightarrow> 'w planner_world \<Rightarrow> 'w planner_world \<times> string result" where
  "finalize_planner env msgs last_text text w = (case llm_turn env (msgs @ [(''user'', FINAL_PROMPT)]) w of
      (w1, Inl e) \<Rightarrow> (w1, Inl e)
    | (w1, Inr final) \<Rightarrow>
        (let fallback = (if last_text \<noteq> [] then last_text else text) in
         if final = [] then (w1, Inr fallback)
         else (w1, bindr (parse_tool_calls (pe_repair env) (pe_max_bytes env) final) (\<lambda>calls.
           Inr (if calls = [] then final else fallback)))))"

fun planner_loop ::
  "'w planner_env \<Rightarrow> nat \<Rightarrow> messages \<Rightarrow> string \<Rightarrow> string \<Rightarrow> 'w planner_world \<Rightarrow> 'w planner_world \<times> string result" where
  "planner_loop env 0 msgs last_text text w = finalize_planner env msgs last_text text w"
| "planner_loop env (Suc n) msgs last_text text0 w = (case llm_turn env msgs w of
      (w1, Inl e) \<Rightarrow> (w1, Inl e)
    | (w1, Inr text) \<Rightarrow>
       (case bindr (parse_tool_calls (pe_repair env) (pe_max_bytes env) text) (filter_allowed (pe_allowed env)) of
          Inl e \<Rightarrow> (w1, Inl e)
        | Inr calls \<Rightarrow>
            if calls = [] then (w1, Inr text)
            else (case execute_calls (pe_frepr env) (pe_no_mapping env) (pe_tools env) (pe_order env msgs (length calls)) calls w1 of
                (w2, Inl e) \<Rightarrow> (w2, Inl e)
              | (w2, Inr result_text) \<Rightarrow>
                  planner_loop env n (msgs @ [(''assistant'', text), (''user'', ''Tool results:'' @ [CHR 0x0A] @ result_text)])
                    result_text text w2)))"

definition run_planner ::
  "'w planner_env \<Rightarrow> string \<Rightarrow> string \<Rightarrow> int \<Rightarrow> 'w planner_world \<Rightarrow> 'w planner_world \<times> string result" where
  "run_planner env user_prompt system_prompt max_iterations w =
     (if max_iterations \<le> 0 then (w, Inr [])
      else planner_loop env (nat max_iterations)
        [(''system'', system_prompt @ build_tool_suffix (pe_allowed env)), (''user'', user_prompt)] [] [] w)"

text \<open>\<open>run_planner_structured\<close> hands its two messages to the structured completion.\<close>

definition run_planner_structured ::
  "(string \<Rightarrow> string option) \<Rightarrow> (json \<Rightarrow> 'm result) \<Rightarrow> (messages \<Rightarrow> 'm result) \<Rightarrow> (messages \<Rightarrow> (string option \<times> string option) result)
    \<Rightarrow> string \<Rightarrow> string \<Rightarrow> 'm result" where
  "run_planner_structured repair validate client completion user_prompt system_prompt =
     (let msgs = [(''system'', system_prompt), (''user'', user_prompt)] in
      request_structured_output repair validate (client msgs) (completion msgs))"

section \<open>What the planner may do\<close>

definition orders_ok :: "'w planner_env \<Rightarrow> bool" where
  "orders_ok env \<longleftrightarrow> (\<forall>msgs n. mset (pe_order env msgs n) = mset [0..<n])"

lemma orders_okD: "orders_ok env \<Longrightarrow> set (pe_order env msgs n) = {..<n}"
  unfolding orders_ok_def by (metis atLeast_upt set_mset_mset)

lemma run_order_inv:
  assumes "\<And>i w. i \<in> set ks \<Longrightarrow> J w \<Longrightarrow> J (fst (f (reqs ! i) w))" "J w"
  shows "J (fst (run_order f reqs ks w))"
  using assms
proof (induction ks arbitrary: w)
  case (Cons i ks)
  have "J (fst (f (reqs ! i) w))" using Cons.prems by simp
  with Cons show ?case by (simp add: case_prod_beta)
qed simp

lemma run_order_keys: "map fst (snd (run_order f reqs ks w)) = ks"
  by (induction ks arbitrary: w) (simp_all add: case_prod_beta)

lemma append_results_Inr: "append_results a b = Inr zs \<longleftrightarrow> (\<exists>xs ys. a = Inr xs \<and> b = Inr ys \<and> zs = xs @ ys)"
  by (auto simp: append_results_def bindr_Inr_iff)

lemma concat_results_member:
  "concat_results f xs = Inr zs \<Longrightarrow> z \<in> set zs \<Longrightarrow> \<exists>x ys. x \<in> set xs \<and> f x = Inr ys \<and> z \<in> set ys"
  by (induction xs arbitrary: zs) (auto simp: append_results_Inr, blast+)

lemma filter_allowed_names:
  assumes "filter_allowed (Some names) calls = Inr cs" "c \<in> set cs"
  shows "\<exists>n. pt_name c = JStr n \<and> List.member names n"
proof -
  obtain ys d where "bindr (in_names names (pt_name d)) (\<lambda>b. Inr (if b then [d] else [])) = Inr ys" "c \<in> set ys"
    using assms unfolding filter_allowed_def option.case by (meson concat_results_member)
  then have "in_names names (pt_name c) = Inr True" by (auto simp: bindr_Inr_iff split: if_splits)
  then show ?thesis by (auto simp: in_names_def split: if_splits json.splits)
qed

definition tools_keep :: "'w planner_env \<Rightarrow> ('w \<Rightarrow> bool) \<Rightarrow> bool" where
  "tools_keep env P \<longleftrightarrow> (\<forall>n f d v. dget (pe_tools env) n = Some f \<longrightarrow>
     (case pe_allowed env of None \<Rightarrow> True | Some names \<Rightarrow> List.member names n) \<longrightarrow> P v \<longrightarrow> P (fst (f d v)))"

lemma execute_tool_call_inv:
  assumes "\<And>n f d v. dget reg n = Some f \<Longrightarrow> pt_name call = JStr n \<Longrightarrow> P v \<Longrightarrow> P (fst (f d v))" "P (fst w)"
  shows "P (fst (fst (execute_tool_call frepr nm reg call w)))"
proof (cases "case pt_name call of JStr n \<Rightarrow> map_option (Pair n) (dget reg n) | _ \<Rightarrow> None")
  case None
  then show ?thesis using assms(2) by (simp add: execute_tool_call_def Let_def)
next
  case (Some x)
  then obtain n f where f: "x = (n, f)" "dget reg n = Some f" "pt_name call = JStr n" by (cases "pt_name call") auto
  note step = assms(1) [OF f(2,3) assms(2)]
  show ?thesis using f(1) step assms(2)
    by (cases "pt_args call"; cases "hashable (pt_name call)")
      (simp_all add: execute_tool_call_def Let_def Some case_prod_beta split: sum.splits)
qed

lemma execute_calls_inv:
  assumes "tools_keep env P" "orders_ok env" "bindr cs0 (filter_allowed (pe_allowed env)) = Inr calls" "P (fst w)"
  shows "P (fst (fst (execute_calls frepr nm (pe_tools env) (pe_order env msgs (length calls)) calls w)))"
proof -
  have name: "case pe_allowed env of None \<Rightarrow> True | Some names \<Rightarrow> List.member names n"
    if "c \<in> set calls" "pt_name c = JStr n" for c n
  proof (cases "pe_allowed env")
    case (Some names)
    with assms(3) obtain cs where "filter_allowed (Some names) cs = Inr calls" by (auto simp: bindr_Inr_iff)
    from filter_allowed_names [OF this that(1)] that(2) Some show ?thesis by simp
  qed simp
  have "P (fst (fst (run_order (execute_tool_call frepr nm (pe_tools env)) calls (pe_order env msgs (length calls)) w)))"
  proof (rule run_order_inv [where J = "\<lambda>w. P (fst w)"])
    fix i and w :: "'a planner_world" assume i: "i \<in> set (pe_order env msgs (length calls))" and w: "P (fst w)"
    have c: "calls ! i \<in> set calls" using orders_okD [OF assms(2), of msgs "length calls"] i by simp
    show "P (fst (fst (execute_tool_call frepr nm (pe_tools env) (calls ! i) w)))"
    proof (rule execute_tool_call_inv [where P = P])
      fix n f d v assume f: "dget (pe_tools env) n = Some f" and n: "pt_name (calls ! i) = JStr n" and v: "P v"
      show "P (fst (f d v))" using assms(1) [unfolded tools_keep_def] f name [OF c n] v by blast
    qed (rule w)
  qed (rule assms(4))
  then show ?thesis by (simp add: execute_calls_def case_prod_beta)
qed

lemma planner_loop_inv:
  assumes "\<And>k. tools_keep env (I k)" "orders_ok env" "\<And>msgs k v. I k v \<Longrightarrow> I (Suc k) (fst (pe_llm env msgs v))" "I k (fst w)"
  shows "\<exists>j \<le> k + Suc n. I j (fst (fst (planner_loop env n msgs last_text text0 w)))"
  using assms(4)
proof (induction n arbitrary: k msgs last_text text0 w)
  case 0
  have "I (Suc k) (fst (fst (finalize_planner env msgs last_text text0 w)))"
    using assms(3) [OF 0] by (simp add: finalize_planner_def llm_turn_def case_prod_beta Let_def split: sum.splits)
  then show ?case by auto
next
  case (Suc n)
  obtain w1 r where t: "llm_turn env msgs w = (w1, r)" by fastforce
  have i1: "I (Suc k) (fst w1)" using assms(3) [OF Suc.prems] t by (auto simp: llm_turn_def case_prod_beta)
  show ?case
  proof (cases r)
    case (Inl e)
    then show ?thesis using i1 t by (intro exI [of _ "Suc k"]) simp
  next
    case (Inr txt1)
    show ?thesis
    proof (cases "bindr (parse_tool_calls (pe_repair env) (pe_max_bytes env) txt1) (filter_allowed (pe_allowed env))")
      case (Inl e)
      then show ?thesis using i1 t Inr by (intro exI [of _ "Suc k"]) simp
    next
      case calls: (Inr calls)
      show ?thesis
      proof (cases "calls = []")
        case True
        then show ?thesis using i1 t Inr calls by (intro exI [of _ "Suc k"]) simp
      next
        case False
        obtain w2 r2 where e: "execute_calls (pe_frepr env) (pe_no_mapping env) (pe_tools env) (pe_order env msgs (length calls)) calls w1 = (w2, r2)"
          by fastforce
        have i2: "I (Suc k) (fst w2)" using execute_calls_inv [OF assms(1,2) calls i1, of "pe_frepr env" "pe_no_mapping env" msgs] e by simp
        show ?thesis
        proof (cases r2)
          case (Inl e')
          then show ?thesis using i2 t Inr calls False e by (intro exI [of _ "Suc k"]) simp
        next
          case (Inr rt)
          from Suc.IH [OF i2] obtain j where "j \<le> Suc k + Suc n"
            "I j (fst (fst (planner_loop env n (msgs @ [(''assistant'', txt1), (''user'', ''Tool results:'' @ [CHR 0x0A] @ rt)]) rt txt1 w2)))"
            by blast
          then show ?thesis using t \<open>r = Inr txt1\<close> calls False e Inr by (intro exI [of _ j]) simp
        qed
      qed
    qed
  qed
qed

text \<open>C10: the planner stays within its tools and its turns. If every allowed tool keeps an
  invariant, and a model turn keeps it while a counter goes up by one, then a run of the
  planner, whatever the model answers and whatever the other registered tools would do,
  keeps the invariant, and makes at most one model turn more than the iteration limit.\<close>

theorem planner_sandbox:
  assumes "orders_ok env" and "\<And>k. tools_keep env (I k)"
    and "\<And>msgs k v. I k v \<Longrightarrow> I (Suc k) (fst (pe_llm env msgs v))" and "I 0 (fst w)"
  shows "\<exists>j \<le> (if max_iterations \<le> 0 then 0 else nat max_iterations + 1).
    I j (fst (fst (run_planner env user_prompt system_prompt max_iterations w)))"
proof (cases "max_iterations \<le> 0")
  case True
  then show ?thesis using assms(4) by (simp add: run_planner_def)
next
  case False
  then show ?thesis using planner_loop_inv [of env I 0 w, OF assms(2,1,3,4), of "nat max_iterations"] by (simp add: run_planner_def)
qed

lemma execute_calls_text:
  assumes "execute_calls frepr nm reg order calls w = (w', Inr rt)" "set order = {..<length calls}" "calls \<noteq> []"
  shows "startswith rt ''Tool ''"
proof -
  obtain w1 rs where r: "run_order (execute_tool_call frepr nm reg) calls order w = (w1, rs)" by fastforce
  have "map fst rs = order" using run_order_keys [of "execute_tool_call frepr nm reg" calls order w] r by simp
  then have "0 \<in> fst ` set rs" using assms(2,3) by (metis image_set length_greater_0_conv lessThan_iff)
  then obtain v where v: "dget rs 0 = Some v" by (metis map_of_eq_None_iff not_Some_eq)
  then have "v \<in> set (dvalues rs)" using dget_in_set [OF v] by (force simp: dvalues_def)
  moreover have ne: "first_error (dvalues rs) = None" using assms(1) r by (simp add: execute_calls_def split: option.splits)
  ultimately obtain x where x: "v = Inr x" by (auto simp: first_error_None)
  have up: "[0..<length calls] = 0 # [1..<length calls]" using assms(3) by (simp add: upt_conv_Cons)
  obtain ys where "rt = join [CHR 0x0A] (result_line frepr x # ys)"
    using assms(1) unfolding execute_calls_def r prod.case ne option.case up by (simp add: v x) blast
  then show ?thesis by (cases ys) (simp_all add: result_line_def startswith_def)
qed

lemma parse_Nil: "parse_tool_calls repair n [] = Inr []"
  by (simp add: parse_tool_calls_def fence_blocks_def inline_calls_def simple_calls_def)

lemma filter_allowed_Nil [simp]: "filter_allowed a [] = Inr []"
  by (simp add: filter_allowed_def split: option.splits)

lemma planner_loop_answer:
  assumes "orders_ok env" "planner_loop env n msgs last_text text0 w = (w', Inr ans)" "n = 0 \<longrightarrow> startswith last_text ''Tool ''"
  shows "bindr (parse_tool_calls (pe_repair env) (pe_max_bytes env) ans) (filter_allowed (pe_allowed env)) = Inr [] \<or> startswith ans ''Tool ''"
  using assms(2,3)
proof (induction n arbitrary: msgs last_text text0 w)
  case 0
  then have "last_text \<noteq> []" by (auto simp: startswith_def)
  with 0 show ?case
    by (auto simp: finalize_planner_def Let_def bindr_Inr_iff split: prod.splits sum.splits if_splits)
next
  case (Suc n)
  obtain w1 r where t: "llm_turn env msgs w = (w1, r)" by fastforce
  with Suc.prems(1) obtain txt1 where r: "r = Inr txt1" by (cases r) auto
  let ?calls = "bindr (parse_tool_calls (pe_repair env) (pe_max_bytes env) txt1) (filter_allowed (pe_allowed env))"
  from Suc.prems(1) t r obtain calls where calls: "?calls = Inr calls" by (cases ?calls) auto
  show ?case
  proof (cases "calls = []")
    case True
    with Suc.prems(1) t r calls show ?thesis by simp
  next
    case False
    obtain w2 r2 where e: "execute_calls (pe_frepr env) (pe_no_mapping env) (pe_tools env) (pe_order env msgs (length calls)) calls w1 = (w2, r2)"
      by fastforce
    with Suc.prems(1) t r calls False obtain rt where rt: "r2 = Inr rt"
      "planner_loop env n (msgs @ [(''assistant'', txt1), (''user'', ''Tool results:'' @ [CHR 0x0A] @ rt)]) rt txt1 w2 = (w', Inr ans)"
      by (cases r2) auto
    from Suc.IH [OF rt(2)] execute_calls_text [OF e [unfolded rt(1)] orders_okD [OF assms(1)] False] show ?thesis by blast
  qed
qed

text \<open>The planner's answer asks for nothing more. Every text it returns either contains no tool
  call that is allowed, or is the list of the latest tool results (when the model still
  called tools, or said nothing, after the last turn).\<close>

theorem planner_answer:
  assumes "orders_ok env" and "run_planner env user_prompt system_prompt max_iterations w = (w', Inr ans)"
  shows "bindr (parse_tool_calls (pe_repair env) (pe_max_bytes env) ans) (filter_allowed (pe_allowed env)) = Inr [] \<or> startswith ans ''Tool ''"
proof (cases "max_iterations \<le> 0")
  case True
  then show ?thesis using assms(2) by (simp add: run_planner_def parse_Nil)
next
  case False
  then show ?thesis using assms(2) by (intro planner_loop_answer [OF assms(1)]) (auto simp: run_planner_def)
qed

text \<open>A fenced call is recognised. A text with one JSON block, without other back quotes and
  within the size limit, whose block repairs to a canonical tool call, gives exactly that
  call, whatever the name: the list of known tools does not restrict it.\<close>

theorem fenced_call_parsed:
  assumes "\<not> List.member pre (CHR 0x60)" and "\<not> List.member raw (CHR 0x60)" and "\<not> List.member post (CHR 0x60)"
    and "repair (strip raw) = Some t" and "loads t = Some (JObj d)" and "dget d ''action'' = Some (JStr ''tool_call'')"
    and "dget d ''tool_name'' = Some (JStr n)" and "dget d ''args'' = Some (JObj args)" and "dget d ''arguments'' = None"
    and "utf8_size (pre @ FENCE @ ''json'' @ raw @ FENCE @ post) \<le> max_bytes"
  shows "parse_tool_calls repair max_bytes (pre @ FENCE @ ''json'' @ raw @ FENCE @ post) = Inr [mk_call (JStr n) (JObj args)]"
proof -
  have "eat ''json'' (''json'' @ raw @ FENCE @ post) = Some (raw @ FENCE @ post)" by (rule eat_append)
  then have "eat_any [''json'', ''python''] (''json'' @ raw @ FENCE @ post) = Some (''json'', raw @ FENCE @ post)"
    unfolding eat_any.simps by (simp only: option.case)
  then have b: "fence_blocks [''json'', ''python''] (pre @ FENCE @ ''json'' @ raw @ FENCE @ post) = [strip raw]"
    by (rule fence_blocks_one) (use assms(1-3) in auto)
  have "parse_json_candidate repair (strip raw) = Some (JObj d)" using assms(4,5) by (simp add: parse_json_candidate_def)
  then have "block_calls repair (strip raw) = Inr [mk_call (JStr n) (JObj args)]"
    using assms(6-9) by (simp add: block_calls_def repair_and_validate_tool_json_def validate_tool_call_def extract_dict_def
        normalize_call_def dgetd_def)
  then have "concat_results (block_calls repair) [strip raw] = Inr [mk_call (JStr n) (JObj args)]"
    by (simp add: append_results_def)
  with assms(10) b show ?thesis unfolding parse_tool_calls_def Let_def by (simp del: append.simps)
qed

section \<open>A concrete run\<close>

text \<open>The world counts the model turns; the model first calls a tool that is not allowed.\<close>

definition demo_llm :: "messages \<Rightarrow> nat \<times> nat \<Rightarrow> (nat \<times> nat) \<times> string result" where
  "demo_llm msgs v = ((Suc (fst v), snd v), Inr (''read_file('' @ QUOTE @ ''a'' @ QUOTE @ '')''))"

definition demo_env :: "(nat \<times> nat) planner_env" where
  "demo_env = \<lparr>pe_repair = Some, pe_max_bytes = 0, pe_frepr = \<lambda>x. [], pe_no_mapping = [],
     pe_tools = [(''read_file'', \<lambda>d v. (v, Inr JNull)), (''write_file'', \<lambda>d v. ((fst v, Suc (snd v)), Inr JNull))],
     pe_llm = demo_llm, pe_order = \<lambda>msgs n. [0..<n], pe_allowed = Some [''read_file'']\<rparr>"

definition demo_planner_world :: "(nat \<times> nat) planner_world" where
  "demo_planner_world = ((0, 0), \<lparr>mr_filename = ''m'', mr_agents = [], mr_tools = [], mr_tokens = []\<rparr>, \<lparr>docs = [], logs = []\<rparr>)"

theorem planner_sandbox_witness:
  "fst (fst (fst (run_planner demo_env ''q'' [] 2 demo_planner_world))) \<le> 3
    \<and> snd (fst (fst (run_planner demo_env ''q'' [] 2 demo_planner_world))) = 0"
proof -
  let ?I = "\<lambda>k (v :: nat \<times> nat). fst v = k \<and> snd v = 0"
  have o: "orders_ok demo_env" by (simp add: orders_ok_def demo_env_def)
  have t: "tools_keep demo_env (?I k)" for k by (auto simp: tools_keep_def demo_env_def split: if_splits)
  have l: "?I (Suc k) (fst (pe_llm demo_env msgs v))" if "?I k v" for msgs k v
    using that by (simp add: demo_env_def demo_llm_def)
  have i: "?I 0 (fst demo_planner_world)" by (simp add: demo_planner_world_def)
  from planner_sandbox [of demo_env ?I, OF o t l i, of 2 "''q''" "[]"] show ?thesis by auto
qed

theorem planner_answer_witness:
  "\<exists>w' ans. run_planner demo_env ''q'' [] 1 demo_planner_world = (w', Inr ans) \<and>
    (bindr (parse_tool_calls Some 0 ans) (filter_allowed (Some [''read_file''])) = Inr [] \<or> startswith ans ''Tool '')"
proof -
  have o: "orders_ok demo_env" by (simp add: orders_ok_def demo_env_def)
  have p: "parse_tool_calls Some 0 (''read_file('' @ QUOTE @ ''a'' @ QUOTE @ '')'') =
      Inr [mk_call (JStr ''read_file'') (JObj [(''path'', JStr ''a'')])]" by code_simp
  obtain w' ans where r: "run_planner demo_env ''q'' [] 1 demo_planner_world = (w', Inr ans)"
    by (simp add: run_planner_def demo_env_def llm_turn_def demo_llm_def p filter_allowed_def append_results_def in_names_def
        mk_call_def hashable_def execute_calls_def finalize_planner_def dvalues_def Let_def
        del: append.simps append_Cons append_Nil) (simp add: execute_tool_call_def hashable_def)
  have "pe_repair demo_env = Some" "pe_max_bytes demo_env = 0" "pe_allowed demo_env = Some [''read_file'']"
    by (simp_all add: demo_env_def)
  with planner_answer [OF o r] r show ?thesis by metis
qed

theorem fenced_call_parsed_witness:
  "parse_tool_calls (\<lambda>s. Some (''{'' @ QUOTE @ ''action'' @ QUOTE @ '':'' @ QUOTE @ ''tool_call'' @ QUOTE @ '','' @ QUOTE @ ''tool_name'' @ QUOTE @ '':''
      @ QUOTE @ ''execute_capability'' @ QUOTE @ '','' @ QUOTE @ ''args'' @ QUOTE @ '':{}}'')) 100 (''go '' @ FENCE @ ''json'' @ ''x'' @ FENCE @ []) =
    Inr [mk_call (JStr ''execute_capability'') (JObj [])]"
proof -
  let ?t = "''{'' @ QUOTE @ ''action'' @ QUOTE @ '':'' @ QUOTE @ ''tool_call'' @ QUOTE @ '','' @ QUOTE @ ''tool_name'' @ QUOTE @ '':''
      @ QUOTE @ ''execute_capability'' @ QUOTE @ '','' @ QUOTE @ ''args'' @ QUOTE @ '':{}}''"
  have l: "loads ?t = Some (JObj [(''action'', JStr ''tool_call''), (''tool_name'', JStr ''execute_capability''), (''args'', JObj [])])"
    by code_simp
  show ?thesis
    by (rule fenced_call_parsed [where repair = "\<lambda>s. Some ?t" and t = ?t, OF _ _ _ refl l]) (simp_all add: utf8_size_def FENCE_def)
qed

end
