(* ===== verification/Model_Router.thy ===== *)
theory Model_Router
  imports Regex Metrics
begin

text \<open>
  The model router of \<open>src/services/model_router.py\<close>: the performance records, the
  registry of models by capability (with the fallback chain of \<open>src/config.py\<close>), the
  classification of task descriptions, the choice of a model and the execution with
  fallback. Seconds and scores are exact reals; the settings are arguments.
\<close>

section \<open>The models of the configuration\<close>

definition OLLAMA_CLOUD_MODELS :: "string list" where
  "OLLAMA_CLOUD_MODELS = [''ollama/minimax-m2.7:cloud'', ''ollama/kimi-k2.6:cloud'', ''ollama/glm-5.1:cloud'',
     ''ollama/deepseek-v4-flash:cloud'', ''ollama/gemma4:cloud'', ''ollama/qwen3-coder-next:cloud'',
     ''ollama/devstral-2:cloud'', ''ollama/kimi-k2.5:cloud'', ''ollama/nemotron-3-super:cloud'',
     ''ollama/glm-5:cloud'', ''ollama/minimax-m2.5:cloud'', ''ollama/qwen3.5:cloud'',
     ''ollama/nemotron-3-nano:cloud'', ''ollama/ministral-3:cloud'', ''ollama/rnj-1:cloud'',
     ''ollama/gemini-3-flash:cloud'', ''ollama/glm-4.7:cloud'', ''ollama/devstral-small-2:cloud'',
     ''ollama/cogito-2.1:cloud'', ''ollama/qwen3-next:cloud'']"

text \<open>\<open>llm_model\<close> is the environment variable \<open>LLM_MODEL\<close>.\<close>

definition default_fallback_models :: "string option \<Rightarrow> string list" where
  "default_fallback_models llm_model =
     (let p0 = (case llm_model of None \<Rightarrow> ''ollama/minimax-m2.7:cloud'' | Some m \<Rightarrow> m);
          primary = (if startswith p0 ''ollama/'' then p0 else ''ollama/'' @ p0)
      in primary # filter (\<lambda>m. m \<noteq> primary) OLLAMA_CLOUD_MODELS)"

section \<open>Capabilities, complexity, performance\<close>

datatype model_capability = CODE | REVIEW | ANALYSIS | CREATIVE | QUICK

datatype task_complexity = LOW | MEDIUM | HIGH | CRITICAL

definition all_capabilities :: "model_capability list" where
  "all_capabilities = [CODE, REVIEW, ANALYSIS, CREATIVE, QUICK]"

lemma in_all_capabilities [simp]: "c \<in> set all_capabilities"
  by (cases c) (simp_all add: all_capabilities_def)

record model_performance =
  mp_name :: string
  mp_success :: nat
  mp_failure :: nat
  mp_time :: real
  mp_tokens :: int
  mp_errors :: "(string, nat) dict"

definition ModelPerformance :: "string \<Rightarrow> model_performance" where
  "ModelPerformance name = \<lparr>mp_name = name, mp_success = 0, mp_failure = 0, mp_time = 0, mp_tokens = 0, mp_errors = []\<rparr>"

definition record_success :: "real \<Rightarrow> int \<Rightarrow> model_performance \<Rightarrow> model_performance" where
  "record_success response_time tokens p = p\<lparr>mp_success := mp_success p + 1,
     mp_time := mp_time p + response_time, mp_tokens := mp_tokens p + tokens\<rparr>"

definition record_failure :: "string \<Rightarrow> model_performance \<Rightarrow> model_performance" where
  "record_failure error_type p = p\<lparr>mp_failure := mp_failure p + 1,
     mp_errors := dset error_type (dgetd (mp_errors p) error_type 0 + 1) (mp_errors p)\<rparr>"

definition total_requests :: "model_performance \<Rightarrow> nat" where
  "total_requests p = mp_success p + mp_failure p"

definition mp_success_rate :: "model_performance \<Rightarrow> real" where
  "mp_success_rate p = (if total_requests p = 0 then 0 else real (mp_success p) / real (total_requests p))"

definition average_response_time :: "model_performance \<Rightarrow> real" where
  "average_response_time p = (if mp_success p = 0 then 0 else mp_time p / real (mp_success p))"

section \<open>The registry\<close>

definition MODEL_COST_TABLE :: "(string, real) dict" where
  "MODEL_COST_TABLE = map (\<lambda>m. (m, 0)) [''ollama/minimax-m2.7:cloud'', ''ollama/kimi-k2.6:cloud'',
     ''ollama/glm-5.1:cloud'', ''ollama/deepseek-v4-flash:cloud'', ''ollama/gemma4:cloud'',
     ''ollama/qwen3-coder-next:cloud'', ''ollama/devstral-2:cloud'', ''ollama/kimi-k2.5:cloud'',
     ''ollama/nemotron-3-super:cloud'', ''ollama/glm-5:cloud'', ''ollama/minimax-m2.5:cloud'',
     ''ollama/qwen3.5:cloud'', ''ollama/nemotron-3-nano:cloud'', ''ollama/ministral-3:cloud'',
     ''ollama/rnj-1:cloud'', ''ollama/gemini-3-flash:cloud'', ''ollama/glm-4.7:cloud'',
     ''ollama/devstral-small-2:cloud'', ''ollama/cogito-2.1:cloud'', ''ollama/qwen3-next:cloud'']"

type_synonym model_registry = "(model_capability, string list) dict"

definition DEFAULT_CAPABILITIES :: model_registry where
  "DEFAULT_CAPABILITIES = [
     (CODE, [''ollama/minimax-m2.7:cloud'', ''ollama/glm-5.1:cloud'', ''ollama/qwen3-coder-next:cloud'',
        ''ollama/devstral-2:cloud'', ''ollama/kimi-k2.6:cloud'', ''ollama/glm-4.7:cloud'', ''ollama/devstral-small-2:cloud'']),
     (REVIEW, [''ollama/kimi-k2.6:cloud'', ''ollama/kimi-k2.5:cloud'', ''ollama/glm-5.1:cloud'',
        ''ollama/minimax-m2.7:cloud'', ''ollama/deepseek-v4-flash:cloud'']),
     (ANALYSIS, [''ollama/glm-5:cloud'', ''ollama/kimi-k2.6:cloud'', ''ollama/deepseek-v4-flash:cloud'',
        ''ollama/gemma4:cloud'', ''ollama/minimax-m2.7:cloud'']),
     (CREATIVE, [''ollama/kimi-k2.5:cloud'', ''ollama/gemma4:cloud'', ''ollama/glm-5:cloud'', ''ollama/qwen3.5:cloud'']),
     (QUICK, [''ollama/ministral-3:cloud'', ''ollama/nemotron-3-nano:cloud'', ''ollama/rnj-1:cloud'', ''ollama/gemini-3-flash:cloud''])]"

text \<open>
  Every capability is a key of the registry from the start (\<open>registry_keys\<close> below), so
  indexing it never raises.
\<close>

definition get_models_for_capability :: "model_capability \<Rightarrow> model_registry \<Rightarrow> string list" where
  "get_models_for_capability c reg = dgetd reg c []"

definition register_model_capability :: "string \<Rightarrow> model_capability \<Rightarrow> model_registry \<Rightarrow> model_registry" where
  "register_model_capability model c reg =
     (let ms = get_models_for_capability c reg in
      if List.member ms model then reg else dset c (ms @ [model]) reg)"

definition register_for :: "string \<Rightarrow> model_capability list \<Rightarrow> model_registry \<Rightarrow> model_registry" where
  "register_for model cs reg = fold (register_model_capability model) cs reg"

definition register_model_by_heuristics :: "string \<Rightarrow> model_registry \<Rightarrow> model_registry" where
  "register_model_by_heuristics model reg =
     (let name = lower model;
          r1 = (if list_ex (contains name) [''mini'', ''flash'', ''-fast''] then register_for model [QUICK, ANALYSIS] reg else reg);
          r2 = (if list_ex (contains name) [''gpt-4'', ''claude'', ''opus'', ''pro'']
                then register_for model [CODE, REVIEW, CREATIVE, ANALYSIS] r1 else r1)
      in if list_ex (\<lambda>ms. List.member ms model) (dvalues r2) then r2 else register_for model all_capabilities r2)"

definition register_config_models :: "string list \<Rightarrow> model_registry \<Rightarrow> model_registry" where
  "register_config_models fallback_models reg = fold register_model_by_heuristics fallback_models reg"

definition ModelRegistry :: "string list \<Rightarrow> model_registry" where
  "ModelRegistry fallback_models = register_config_models fallback_models DEFAULT_CAPABILITIES"

definition get_model_cost :: "string \<Rightarrow> real" where
  "get_model_cost model = dgetd MODEL_COST_TABLE model (1 / 100)"

text \<open>The order of a list made from a set is arbitrary: the argument \<open>order\<close>.\<close>

definition get_all_models :: "(string list \<Rightarrow> string list) \<Rightarrow> model_registry \<Rightarrow> string list" where
  "get_all_models order reg = order (remdups (concat (dvalues reg)))"

section \<open>Classification\<close>

text \<open>The pattern texts: \<open>words [p, q]\<close> is \<open>\b(p|q)\b\<close>, \<open>span a b\<close> is \<open>a.*b\<close>.\<close>

definition words :: "regex list \<Rightarrow> regex" where
  "words ps = seqs [WordB, alts ps, WordB]"

definition span :: "string \<Rightarrow> string \<Rightarrow> regex" where
  "span a b = seqs [liti a, dots, liti b]"

definition TASK_PATTERNS :: "(model_capability, regex list) dict" where
  "TASK_PATTERNS = [
     (CODE, [words (map liti [''code'', ''coding'', ''programming'', ''function'', ''script'', ''class'', ''api'', ''endpoint'']),
             words [liti ''implementation'', liti ''implement'', span ''write'' ''python'', span ''write'' ''javascript''],
             words [liti ''debug'', span ''fix'' ''bug'', liti ''refactor'', span ''optimize'' ''code'']]),
     (REVIEW, [words [liti ''review'', liti ''reviewing'', liti ''audit'', span ''analyze'' ''code'', span ''check'' ''quality''],
               words [span ''find'' ''bug'', span ''detect'' ''issue'', span ''code'' ''review'']]),
     (ANALYSIS, [words (map liti [''analyze'', ''analysis'', ''evaluate'', ''assess'', ''compare'', ''investigate'']),
                 words [span ''extract'' ''insight'', span ''pattern'' ''identification'', span ''data'' ''analysis'']]),
     (CREATIVE, [words (map liti [''generate'', ''create'', ''write'', ''draft'', ''compose'', ''design'']),
                 words (map liti [''story'', ''article'', ''blog'', ''content'', ''creative''])]),
     (QUICK, [words (map liti [''hi'', ''hello'', ''hey'', ''quick'', ''simple'', ''brief'', ''short'']),
              words [seqs [liti ''one'', Ch is_space, spaces, alts (map liti [''word'', ''sentence'', ''line''])]]])]"

definition COMPLEXITY_PATTERNS :: "(task_complexity, regex list) dict" where
  "COMPLEXITY_PATTERNS = [
     (LOW, [seqs [Bol, spaces, alts (map liti [''hi'', ''hello'', ''hey'', ''bye'', ''ok'', ''yes'', ''no'']), spaces, Eol],
            words (map liti [''quick'', ''simple'', ''short'', ''brief''])]),
     (HIGH, [words [liti ''architecture'', span ''design'' ''pattern'', liti ''microservice'', liti ''distributed''],
             words [span ''performance'' ''optimization'', liti ''scale'', span ''large'' ''dataset''],
             words (map liti [''complex'', ''complicated'', ''sophisticated'', ''enterprise''])]),
     (CRITICAL, [words (map liti [''critical'', ''production'', ''security'', ''vulnerability'', ''exploit'']),
                 words [span ''data'' ''breach'', span ''incident'' ''response'', span ''system'' ''down'']])]"

fun first_capability :: "string \<Rightarrow> (model_capability \<times> regex list) list \<Rightarrow> model_capability" where
  "first_capability s [] = ANALYSIS"
| "first_capability s ((c, ps) # cs) = (if list_ex (\<lambda>p. search p s) ps then c else first_capability s cs)"

definition classify_task_capability :: "string \<Rightarrow> model_capability" where
  "classify_task_capability task = first_capability (lower task) TASK_PATTERNS"

definition indicates :: "task_complexity \<Rightarrow> string \<Rightarrow> bool" where
  "indicates c s = list_ex (\<lambda>p. search p s) (dgetd COMPLEXITY_PATTERNS c [])"

definition classify_task_complexity :: "string \<Rightarrow> task_complexity" where
  "classify_task_complexity task =
     (let s = lower task; n = length (split_ws task) in
      if indicates CRITICAL s then CRITICAL
      else if indicates HIGH s then HIGH
      else if indicates LOW s then LOW
      else if n < 10 then LOW else if 100 < n then HIGH else MEDIUM)"

section \<open>Routing\<close>

record model_router =
  ro_registry :: model_registry
  ro_tracking :: "(string, model_performance) dict"

definition ModelRouter :: "string list \<Rightarrow> model_router" where
  "ModelRouter fallback_models = \<lparr>ro_registry = ModelRegistry fallback_models, ro_tracking = []\<rparr>"

definition HIGH_CAP :: "string list" where
  "HIGH_CAP = [''ollama/kimi-k2.6:cloud'', ''ollama/deepseek-v4-flash:cloud'', ''ollama/glm-5:cloud'', ''ollama/minimax-m2.7:cloud'']"

definition CHEAP_MODELS :: "string list" where
  "CHEAP_MODELS = [''ollama/kimi-k2.6:cloud-mini'', ''ollama/qwen3.5:cloud'', ''ollama/gemma4:cloud'']"

definition filter_by_complexity :: "string list \<Rightarrow> task_complexity \<Rightarrow> string list" where
  "filter_by_complexity candidates c =
     (case c of
        CRITICAL \<Rightarrow> (let f = filter (List.member HIGH_CAP) candidates in if f \<noteq> [] then f else candidates)
      | LOW \<Rightarrow> filter (List.member CHEAP_MODELS) candidates @ filter (\<lambda>m. \<not> List.member CHEAP_MODELS m) candidates
      | _ \<Rightarrow> candidates)"

definition performance_score :: "(string, model_performance) dict \<Rightarrow> string \<Rightarrow> real" where
  "performance_score tracking model = (case dget tracking model of
      None \<Rightarrow> 1 / 2
    | Some p \<Rightarrow> if total_requests p = 0 then 1 / 2
        else 7 / 10 * mp_success_rate p + 3 / 10 * max 0 (1 - average_response_time p / 10))"

definition rank_models_by_performance :: "(string, model_performance) dict \<Rightarrow> string list \<Rightarrow> string list" where
  "rank_models_by_performance tracking candidates =
     (if tracking = [] then candidates else sort_desc (performance_score tracking) candidates)"

definition get_quick_preference_score :: "(string, model_performance) dict \<Rightarrow> string \<Rightarrow> real" where
  "get_quick_preference_score tracking model = (case dget tracking model of
      None \<Rightarrow> 1 / 2
    | Some p \<Rightarrow> 1 / 2 * mp_success_rate p + 1 / 2 * max 0 (1 - average_response_time p / 5))"

definition index_error :: exn where
  "index_error = Exn ''IndexError'' ''list index out of range''"

fun cheaper_candidate :: "(string, model_performance) dict \<Rightarrow> string \<Rightarrow> string list \<Rightarrow> string" where
  "cheaper_candidate tracking best [] = best"
| "cheaper_candidate tracking best (m # ms) =
     (if get_model_cost best \<le> 0 then cheaper_candidate tracking best ms
      else if get_model_cost m / get_model_cost best < 1 / 2
        \<and> get_quick_preference_score tracking best * (9 / 10) \<le> get_quick_preference_score tracking m then m
      else cheaper_candidate tracking best ms)"

definition apply_cost_tradeoff ::
  "string list \<Rightarrow> (string, model_performance) dict \<Rightarrow> string list \<Rightarrow> model_capability \<Rightarrow> task_complexity \<Rightarrow> string result" where
  "apply_cost_tradeoff fallback_models tracking ranked task_type c =
     (case ranked of
        [] \<Rightarrow> (case fallback_models of [] \<Rightarrow> Inl index_error | m # ms \<Rightarrow> Inr m)
      | best # others \<Rightarrow>
          if c = CRITICAL then Inr best
          else if task_type = QUICK \<or> c = LOW then Inr (cheaper_candidate tracking best others)
          else Inr best)"

definition route :: "string list \<Rightarrow> model_capability \<Rightarrow> task_complexity \<Rightarrow> model_router \<Rightarrow> string result" where
  "route fallback_models task_type c ro =
     (let ms = get_models_for_capability task_type (ro_registry ro);
          candidates = (if ms = [] then fallback_models else ms);
          ranked = rank_models_by_performance (ro_tracking ro) (filter_by_complexity candidates c)
      in apply_cost_tradeoff fallback_models (ro_tracking ro) ranked task_type c)"

definition get_model_for_task ::
  "string list \<Rightarrow> string \<Rightarrow> model_capability option \<Rightarrow> task_complexity option \<Rightarrow> model_router \<Rightarrow> string result" where
  "get_model_for_task fallback_models task capability c ro =
     route fallback_models
       (case capability of None \<Rightarrow> classify_task_capability task | Some cap \<Rightarrow> cap)
       (case c of None \<Rightarrow> classify_task_complexity task | Some x \<Rightarrow> x) ro"

definition track_model_performance ::
  "string \<Rightarrow> bool \<Rightarrow> real option \<Rightarrow> int \<Rightarrow> string option \<Rightarrow> model_router \<Rightarrow> model_router" where
  "track_model_performance name ok response_time tokens error_type ro =
     (let p = dgetd (ro_tracking ro) name (ModelPerformance name);
          p' = (if ok then (case response_time of Some t \<Rightarrow> record_success t tokens p | None \<Rightarrow> p)
                else record_failure (case error_type of None \<Rightarrow> ''unknown'' | Some e \<Rightarrow> if e = [] then ''unknown'' else e) p)
      in ro\<lparr>ro_tracking := dset name p' (ro_tracking ro)\<rparr>)"

definition get_fallback_chain :: "string list \<Rightarrow> string \<Rightarrow> model_capability option \<Rightarrow> model_router \<Rightarrow> string list" where
  "get_fallback_chain fallback_models primary capability ro =
     (let candidates = (case capability of
            Some c \<Rightarrow> remove1 primary (get_models_for_capability c (ro_registry ro))
          | None \<Rightarrow> filter (\<lambda>m. m \<noteq> primary) fallback_models)
      in primary # rank_models_by_performance (ro_tracking ro) candidates)"

text \<open>
  The execution: \<open>execute_fn\<close> changes a world and returns or raises, \<open>clock\<close> is the
  performance counter of a world. Only the classes \<open>except Exception\<close> sees are tracked;
  a cancellation passes.
\<close>

fun try_models ::
  "('w \<Rightarrow> real) \<Rightarrow> (string \<Rightarrow> 'w \<Rightarrow> 'w \<times> 'v result) \<Rightarrow> string list \<Rightarrow> exn option \<Rightarrow> model_router \<times> 'w
    \<Rightarrow> (model_router \<times> 'w) \<times> 'v result" where
  "try_models clock execute_fn [] last_exception rw = (rw, Inl (case last_exception of
       Some e \<Rightarrow> e | None \<Rightarrow> Exn ''RuntimeError'' ''All models failed with no exception''))"
| "try_models clock execute_fn (m # ms) last_exception (ro, w) = (case execute_fn m w of
      (w', Inr v) \<Rightarrow> ((track_model_performance m True (Some (clock w' - clock w)) 0 None ro, w'), Inr v)
    | (w', Inl e) \<Rightarrow> if is_exception e
        then try_models clock execute_fn ms (Some e) (track_model_performance m False None 0 (Some (exn_type e)) ro, w')
        else ((ro, w'), Inl e))"

definition execute_with_fallback ::
  "string list \<Rightarrow> ('w \<Rightarrow> real) \<Rightarrow> string \<Rightarrow> (string \<Rightarrow> 'w \<Rightarrow> 'w \<times> 'v result) \<Rightarrow> string list option \<Rightarrow> model_capability option
    \<Rightarrow> model_router \<times> 'w \<Rightarrow> (model_router \<times> 'w) \<times> 'v result" where
  "execute_with_fallback fallback_models clock task execute_fn models capability rw =
     (case (case models of Some ms \<Rightarrow> Inr ms
          | None \<Rightarrow> bindr (get_model_for_task fallback_models task capability None (fst rw))
              (\<lambda>primary. Inr (get_fallback_chain fallback_models primary capability (fst rw)))) of
        Inl e \<Rightarrow> (rw, Inl e)
      | Inr ms \<Rightarrow> try_models clock execute_fn ms None rw)"

definition estimate_cost :: "string \<Rightarrow> int \<Rightarrow> real" where
  "estimate_cost model tokens = of_int tokens / 1000 * get_model_cost model"

definition get_model_performance_summary :: "model_router \<Rightarrow> json" where
  "get_model_performance_summary ro = JObj (map (\<lambda>(name, p). (name, JObj
     [(''success_rate'', JFloat (mp_success_rate p)), (''avg_response_time'', JFloat (average_response_time p)),
      (''total_requests'', JInt (int (total_requests p))),
      (''error_breakdown'', JObj (map (\<lambda>(e, n). (e, JInt (int n))) (mp_errors p)))])) (ro_tracking ro))"

section \<open>The backend\<close>

text \<open>
  \<open>get_backend\<close> and \<open>src/services/ollama_cloud_backend.py\<close>. The client of the library is
  an argument that maps the options of a call to its raw response; \<open>env_key\<close> is the
  environment variable \<open>OLLAMA_API_KEY\<close>.
\<close>

record ollama_backend =
  ob_model :: string
  ob_base_url :: string
  ob_api_key :: "string option"

definition OllamaCloudBackend :: "string \<Rightarrow> string \<Rightarrow> string option \<Rightarrow> string option \<Rightarrow> ollama_backend" where
  "OllamaCloudBackend model base_url api_key env_key = \<lparr>ob_model = model, ob_base_url = base_url,
     ob_api_key = (case api_key of None \<Rightarrow> env_key | Some k \<Rightarrow> if k = [] then env_key else Some k)\<rparr>"

definition get_backend :: "string \<Rightarrow> string option \<Rightarrow> string option \<Rightarrow> string \<Rightarrow> ollama_backend option" where
  "get_backend base_url api_key env_key model =
     (if startswith model ''ollama/'' then Some (OllamaCloudBackend (replace_all ''ollama/'' [] model) base_url api_key env_key) else None)"

definition client_kwargs :: "ollama_backend \<Rightarrow> (string, json) dict" where
  "client_kwargs b = (''host'', JStr (ob_base_url b)) # (case ob_api_key b of
      None \<Rightarrow> [] | Some k \<Rightarrow> if k = [] then [] else [(''headers'', JObj [(''Authorization'', JStr (''Bearer '' @ k))])])"

definition chat_opts :: "ollama_backend \<Rightarrow> json list \<Rightarrow> bool \<Rightarrow> (string, json) dict \<Rightarrow> (string, json) dict" where
  "chat_opts b messages stream kwargs =
     dupdate [(''model'', JStr (ob_model b)), (''messages'', JArr messages), (''stream'', JBool stream)] kwargs"

definition message_content :: "json \<Rightarrow> json result" where
  "message_content raw = (case raw of
      JObj d \<Rightarrow> (case dgetd d ''message'' (JObj []) of
          JObj m \<Rightarrow> Inr (dgetd m ''content'' (JStr []))
        | _ \<Rightarrow> Inl (attribute_error ''get''))
    | _ \<Rightarrow> Inl (attribute_error ''get''))"

definition json_field :: "json \<Rightarrow> string \<Rightarrow> json \<Rightarrow> json" where
  "json_field v k dflt = (case v of JObj d \<Rightarrow> dgetd d k dflt | _ \<Rightarrow> dflt)"

definition chat :: "((string, json) dict \<Rightarrow> json result) \<Rightarrow> ollama_backend \<Rightarrow> json list \<Rightarrow> bool \<Rightarrow> (string, json) dict \<Rightarrow> json result" where
  "chat client b messages stream kwargs =
     bindr (client (chat_opts b messages stream kwargs)) (\<lambda>raw.
       if stream then Inr raw
       else bindr (message_content raw) (\<lambda>content.
         let p = json_field raw ''prompt_eval_count'' (JInt 0); e = json_field raw ''eval_count'' (JInt 0) in
         bindr (py_add p e) (\<lambda>total. Inr (JObj [
           (''choices'', JArr [JObj [(''index'', JInt 0),
              (''message'', JObj [(''role'', JStr ''assistant''), (''content'', content)]), (''finish_reason'', JStr ''stop'')]]),
           (''usage'', JObj [(''prompt_tokens'', p), (''completion_tokens'', e), (''total_tokens'', total)]),
           (''model'', JStr (ob_model b))]))))"

text \<open>The chunks a stream yields, and the exception that ends it, if any.\<close>

fun chat_chunks :: "json list \<Rightarrow> json list \<times> exn option" where
  "chat_chunks [] = ([], None)"
| "chat_chunks (c # cs) = (case message_content c of
      Inl e \<Rightarrow> ([], Some e)
    | Inr v \<Rightarrow> (case chat_chunks cs of (vs, err) \<Rightarrow> (if truthy v then v # vs else vs, err)))"

definition chat_stream ::
  "((string, json) dict \<Rightarrow> json list result) \<Rightarrow> ollama_backend \<Rightarrow> json list \<Rightarrow> (string, json) dict \<Rightarrow> json list \<times> exn option" where
  "chat_stream client b messages kwargs = (case client (chat_opts b messages True kwargs) of
      Inl e \<Rightarrow> ([], Some e) | Inr chunks \<Rightarrow> chat_chunks chunks)"

section \<open>The registry keeps a model for every capability\<close>

definition registry_ok :: "model_registry \<Rightarrow> bool" where
  "registry_ok reg \<longleftrightarrow> dwf reg \<and> dkeys reg = all_capabilities \<and>
     list_all (\<lambda>ms. ms \<noteq> [] \<and> distinct ms) (dvalues reg)"

lemma registry_get: "registry_ok reg \<Longrightarrow> \<exists>ms. dget reg c = Some ms \<and> ms \<noteq> [] \<and> distinct ms"
proof -
  assume ok: "registry_ok reg"
  have "c \<in> set (dkeys reg)" using ok by (simp add: registry_ok_def)
  then obtain ms where "dget reg c = Some ms"
    using dmem_iff [of c reg] dmem_Some [of c reg] by (auto simp: dkeys_def)
  with dget_in_set [OF this] ok show ?thesis by (force simp: registry_ok_def list_all_iff dvalues_def)
qed

lemma registry_keys: "registry_ok reg \<Longrightarrow> dmem c reg"
  using registry_get [of reg c] by (auto simp: dmem_Some)

lemma models_ok: "registry_ok reg \<Longrightarrow> get_models_for_capability c reg \<noteq> [] \<and> distinct (get_models_for_capability c reg)"
  using registry_get [of reg c] by (auto simp: get_models_for_capability_def dgetd_def)

lemma registry_ok_register: "registry_ok reg \<Longrightarrow> registry_ok (register_model_capability m c reg)"
proof (cases "List.member (get_models_for_capability c reg) m")
  case False
  assume ok: "registry_ok reg"
  let ?ms = "get_models_for_capability c reg @ [m]"
  have "distinct ?ms \<and> ?ms \<noteq> []" using models_ok [OF ok, of c] False by simp
  moreover have "set (dset c ?ms reg) = insert (c, ?ms) {p \<in> set reg. fst p \<noteq> c}"
    using ok by (intro set_dset) (simp add: registry_ok_def)
  moreover have "dkeys (dset c ?ms reg) = dkeys reg" using registry_keys [OF ok] by (simp add: dkeys_dset)
  ultimately show ?thesis using ok False
    unfolding registry_ok_def register_model_capability_def Let_def list_all_iff dvalues_def by auto
qed (simp add: register_model_capability_def Let_def)

lemma registry_ok_fold:
  "(\<And>x reg. registry_ok reg \<Longrightarrow> registry_ok (f x reg)) \<Longrightarrow> registry_ok reg \<Longrightarrow> registry_ok (fold f xs reg)"
  by (induction xs arbitrary: reg) simp_all

lemma registry_ok_register_for: "registry_ok reg \<Longrightarrow> registry_ok (register_for m cs reg)"
  unfolding register_for_def by (rule registry_ok_fold) (rule registry_ok_register)

lemma registry_ok_heuristics: "registry_ok reg \<Longrightarrow> registry_ok (register_model_by_heuristics m reg)"
  unfolding register_model_by_heuristics_def Let_def by (simp add: registry_ok_register_for)

lemma registry_ok_default: "registry_ok DEFAULT_CAPABILITIES"
  by (simp add: registry_ok_def DEFAULT_CAPABILITIES_def dwf_def dkeys_def dvalues_def all_capabilities_def)

lemma model_registry_ok_init: "registry_ok (ModelRegistry fallback_models)"
  unfolding ModelRegistry_def register_config_models_def
  by (rule registry_ok_fold [OF registry_ok_heuristics registry_ok_default])

section \<open>Routers in use\<close>

text \<open>What clients do to a router between two choices: they register models and report outcomes.\<close>

datatype router_op =
    RegisterModel string model_capability
  | Report string bool "real option" int "string option"

fun router_step :: "router_op \<Rightarrow> model_router \<Rightarrow> model_router" where
  "router_step (RegisterModel m c) ro = ro\<lparr>ro_registry := register_model_capability m c (ro_registry ro)\<rparr>"
| "router_step (Report m ok t n e) ro = track_model_performance m ok t n e ro"

definition run_router :: "string list \<Rightarrow> router_op list \<Rightarrow> model_router" where
  "run_router fallback_models ops = fold router_step ops (ModelRouter fallback_models)"

lemma registry_track [simp]: "ro_registry (track_model_performance m ok t n e ro) = ro_registry ro"
  by (simp add: track_model_performance_def Let_def)

lemma run_router_ok: "registry_ok (ro_registry (run_router fallback_models ops))"
proof -
  have "registry_ok (ro_registry ro) \<Longrightarrow> registry_ok (ro_registry (fold router_step ops ro))" for ro
  proof (induction ops arbitrary: ro)
    case (Cons op ops)
    from Cons.IH [of "router_step op ro"] Cons.prems show ?case
      by (cases op) (simp_all add: registry_ok_register)
  qed simp
  then show ?thesis by (simp add: run_router_def ModelRouter_def model_registry_ok_init)
qed

section \<open>The choice of a model\<close>

lemma set_filter_by_complexity: "set (filter_by_complexity ms c) \<subseteq> set ms"
  by (auto simp: filter_by_complexity_def Let_def split: task_complexity.splits)

lemma filter_by_complexity_Nil: "filter_by_complexity ms c = [] \<longleftrightarrow> ms = []"
  by (cases c) (auto simp: filter_by_complexity_def Let_def filter_empty_conv)

lemma set_rank [simp]: "set (rank_models_by_performance tr ms) = set ms"
  by (simp add: rank_models_by_performance_def)

lemma rank_Nil [simp]: "rank_models_by_performance tr ms = [] \<longleftrightarrow> ms = []"
  by (simp add: rank_models_by_performance_def)

lemma distinct_rank [simp]: "distinct (rank_models_by_performance tr ms) = distinct ms"
  by (simp add: rank_models_by_performance_def sort_desc_def)

lemma sorted_rank: "sorted_wrt (\<lambda>x y. performance_score tr y \<le> performance_score tr x) (rank_models_by_performance tr ms)"
proof (cases "tr = []")
  case True
  have "sorted_wrt (\<lambda>x y. True) ms" by (induction ms) simp_all
  with True show ?thesis by (simp add: rank_models_by_performance_def performance_score_def)
qed (simp add: rank_models_by_performance_def sorted_sort_desc)

lemma hd_rank: "x \<in> set ms \<Longrightarrow> performance_score tr x \<le> performance_score tr (hd (rank_models_by_performance tr ms))"
proof -
  assume x: "x \<in> set ms"
  then obtain b bs where r: "rank_models_by_performance tr ms = b # bs" by (cases "rank_models_by_performance tr ms") auto
  moreover have "x = b \<or> x \<in> set bs" using x set_rank [of tr ms] unfolding r by auto
  moreover have "\<forall>y \<in> set bs. performance_score tr y \<le> performance_score tr b" using sorted_rank [of tr ms] unfolding r by simp
  ultimately show ?thesis by auto
qed

lemma cheaper_candidate_in: "cheaper_candidate tr best ms \<in> set (best # ms)"
  by (induction ms) auto

lemma cheaper_free: "get_model_cost best \<le> 0 \<Longrightarrow> cheaper_candidate tr best ms = best"
  by (induction ms) simp_all

text \<open>A router always answers, with a model that fits. Whatever was registered and reported,
  the choice is a model registered for the capability; for a critical task it is one of the
  most capable ones when there is one; and unless the task is quick or simple no allowed
  candidate has a better record.\<close>

theorem route_sound:
  fixes fallback_models and ops and t and c
  defines "ro \<equiv> run_router fallback_models ops"
  defines "ms \<equiv> get_models_for_capability t (ro_registry ro)"
  shows "\<exists>m. route fallback_models t c ro = Inr m \<and> m \<in> set ms
    \<and> (c = CRITICAL \<and> list_ex (List.member HIGH_CAP) ms \<longrightarrow> List.member HIGH_CAP m)
    \<and> (c = CRITICAL \<or> t \<noteq> QUICK \<and> c \<noteq> LOW \<longrightarrow>
        (\<forall>x \<in> set (filter_by_complexity ms c). performance_score (ro_tracking ro) x \<le> performance_score (ro_tracking ro) m))"
proof -
  let ?f = "filter_by_complexity ms c"
  let ?r = "rank_models_by_performance (ro_tracking ro) ?f"
  have ms: "ms \<noteq> []" unfolding ms_def ro_def using models_ok [OF run_router_ok] by blast
  then have "?r \<noteq> []" by (simp add: filter_by_complexity_Nil)
  then obtain best others where r: "?r = best # others" by (cases ?r) auto
  have f: "set (best # others) = set ?f" using r set_rank [of "ro_tracking ro" ?f] by simp
  have rt: "route fallback_models t c ro = apply_cost_tradeoff fallback_models (ro_tracking ro) (best # others) t c"
    using ms r by (simp add: route_def Let_def ms_def)
  have best: "\<forall>x \<in> set ?f. performance_score (ro_tracking ro) x \<le> performance_score (ro_tracking ro) best"
    using hd_rank [of _ ?f "ro_tracking ro"] r by auto
  have high: "List.member HIGH_CAP x" if "c = CRITICAL" "list_ex (List.member HIGH_CAP) ms" "x \<in> set ?f" for x
    using that by (auto simp: filter_by_complexity_def Let_def list_ex_iff filter_empty_conv split: if_splits)
  show ?thesis
  proof (cases "c \<noteq> CRITICAL \<and> (t = QUICK \<or> c = LOW)")
    case True
    let ?m = "cheaper_candidate (ro_tracking ro) best others"
    have "?m \<in> set ?f" using cheaper_candidate_in [of "ro_tracking ro" best others] f by blast
    then have "?m \<in> set ms" using set_filter_by_complexity by blast
    with True rt show ?thesis by (intro exI [of _ ?m]) (auto simp: apply_cost_tradeoff_def)
  next
    case False
    have "best \<in> set ?f" using f by auto
    moreover have "route fallback_models t c ro = Inr best" using False rt by (auto simp: apply_cost_tradeoff_def)
    ultimately show ?thesis using best high set_filter_by_complexity [of ms c] by (intro exI [of _ best]) blast
  qed
qed

theorem route_sound_witness:
  "\<exists>m. route [] CODE CRITICAL (run_router [] [Report ''ollama/kimi-k2.6:cloud'' True (Some 1) 10 None]) = Inr m
    \<and> List.member HIGH_CAP m"
proof -
  let ?ro = "run_router [] [Report ''ollama/kimi-k2.6:cloud'' True (Some 1) 10 None]"
  have "get_models_for_capability CODE (ro_registry ?ro) = [''ollama/minimax-m2.7:cloud'', ''ollama/glm-5.1:cloud'',
      ''ollama/qwen3-coder-next:cloud'', ''ollama/devstral-2:cloud'', ''ollama/kimi-k2.6:cloud'', ''ollama/glm-4.7:cloud'',
      ''ollama/devstral-small-2:cloud'']"
    by (simp add: run_router_def ModelRouter_def ModelRegistry_def register_config_models_def get_models_for_capability_def
        DEFAULT_CAPABILITIES_def dgetd_def)
  then have "list_ex (List.member HIGH_CAP) (get_models_for_capability CODE (ro_registry ?ro))"
    by (simp add: HIGH_CAP_def)
  with route_sound [of "[]" CODE CRITICAL "[Report ''ollama/kimi-k2.6:cloud'' True (Some 1) 10 None]"] show ?thesis by blast
qed

section \<open>Execution with fallback\<close>

text \<open>The chain of fallbacks. It starts with the primary model, tries none twice, offers
  every other candidate (of the capability, or of the configured fallbacks), the better
  record first.\<close>

theorem fallback_chain_complete:
  fixes fallback_models and ops and primary and capability
  defines "ro \<equiv> run_router fallback_models ops"
  assumes "distinct fallback_models"
  shows "\<exists>rest. get_fallback_chain fallback_models primary capability ro = primary # rest
    \<and> distinct (primary # rest)
    \<and> set (primary # rest) = insert primary (set (case capability of Some c \<Rightarrow> get_models_for_capability c (ro_registry ro) | None \<Rightarrow> fallback_models))
    \<and> sorted_wrt (\<lambda>x y. performance_score (ro_tracking ro) y \<le> performance_score (ro_tracking ro) x) rest"
proof -
  let ?all = "case capability of Some c \<Rightarrow> get_models_for_capability c (ro_registry ro) | None \<Rightarrow> fallback_models"
  let ?cands = "case capability of Some c \<Rightarrow> remove1 primary (get_models_for_capability c (ro_registry ro))
      | None \<Rightarrow> filter (\<lambda>m. m \<noteq> primary) fallback_models"
  have d: "distinct ?all" using assms models_ok [OF run_router_ok] by (auto simp: ro_def split: option.splits)
  then have c: "distinct ?cands" "set ?cands = set ?all - {primary}" by (auto split: option.splits)
  show ?thesis using c sorted_rank [of "ro_tracking ro" ?cands]
    by (intro exI [of _ "rank_models_by_performance (ro_tracking ro) ?cands"]) (simp add: get_fallback_chain_def Let_def insert_absorb)
qed

theorem fallback_chain_complete_witness:
  "\<exists>rest. get_fallback_chain [''a'', ''b''] ''a'' None (run_router [''a'', ''b''] []) = ''a'' # rest \<and> set (''a'' # rest) = {''a'', ''b''}"
  using fallback_chain_complete [of "[''a'', ''b'']" "''a''" None "[]"] by auto

text \<open>All outcomes a router has tracked.\<close>

definition requests :: "model_router \<Rightarrow> int" where
  "requests ro = dsum (\<lambda>p. int (total_requests p)) (ro_tracking ro)"

lemma requests_track:
  assumes "dwf (ro_tracking ro)"
  shows "requests (track_model_performance m ok t n e ro) = requests ro + (if ok \<and> t = None then 0 else 1)"
    and "dwf (ro_tracking (track_model_performance m ok t n e ro))"
proof -
  show "dwf (ro_tracking (track_model_performance m ok t n e ro))"
    using assms by (simp add: track_model_performance_def Let_def)
  show "requests (track_model_performance m ok t n e ro) = requests ro + (if ok \<and> t = None then 0 else 1)"
    using assms
    by (auto simp: track_model_performance_def Let_def requests_def dsum_dset dgetd_def record_success_def record_failure_def
        total_requests_def ModelPerformance_def split: option.splits)
qed

text \<open>
  \<open>attempts\<close> holds when the execution tried the models of a list one after the other: it
  passed through the worlds \<open>ws\<close>, each call but the last of them raised, and the run ended
  with the first call that did not raise an \<open>Exception\<close>, or after all of them with the
  last one raised.
\<close>

definition attempts ::
  "(string \<Rightarrow> 'w \<Rightarrow> 'w \<times> 'v result) \<Rightarrow> string list \<Rightarrow> exn option \<Rightarrow> 'w list \<Rightarrow> 'w \<times> 'v result \<Rightarrow> bool" where
  "attempts execute_fn ms last_exception ws out \<longleftrightarrow>
     (\<exists>es. length ws = Suc (length es) \<and> length es \<le> length ms
       \<and> (\<forall>i < length es. execute_fn (ms ! i) (ws ! i) = (ws ! Suc i, Inl (es ! i)) \<and> is_exception (es ! i))
       \<and> (if length es = length ms
          then out = (last ws, Inl (case (if es = [] then last_exception else Some (last es)) of Some e \<Rightarrow> e
                 | None \<Rightarrow> Exn ''RuntimeError'' ''All models failed with no exception''))
          else execute_fn (ms ! length es) (last ws) = out \<and> (case snd out of Inl e \<Rightarrow> \<not> is_exception e | Inr v \<Rightarrow> True)))"

lemma attempts_Nil: "attempts f [] le [w] (w, Inl (case le of Some e \<Rightarrow> e
    | None \<Rightarrow> Exn ''RuntimeError'' ''All models failed with no exception''))"
  unfolding attempts_def by (rule exI [of _ "[]"]) simp

lemma attempts_done:
  "f m w = out \<Longrightarrow> (case snd out of Inl e \<Rightarrow> \<not> is_exception e | Inr v \<Rightarrow> True) \<Longrightarrow> attempts f (m # ms) le [w] out"
  unfolding attempts_def by (rule exI [of _ "[]"]) simp

lemma attempts_Cons:
  assumes "f m w = (hd ws, Inl e)" "is_exception e" "attempts f ms (Some e) ws out"
  shows "attempts f (m # ms) le (w # ws) out"
proof -
  from assms(3) obtain es where es: "length ws = Suc (length es)" "length es \<le> length ms"
    "\<forall>i < length es. f (ms ! i) (ws ! i) = (ws ! Suc i, Inl (es ! i)) \<and> is_exception (es ! i)"
    "if length es = length ms
          then out = (last ws, Inl (case (if es = [] then Some e else Some (last es)) of Some e \<Rightarrow> e
                 | None \<Rightarrow> Exn ''RuntimeError'' ''All models failed with no exception''))
          else f (ms ! length es) (last ws) = out \<and> (case snd out of Inl e \<Rightarrow> \<not> is_exception e | Inr v \<Rightarrow> True)"
    unfolding attempts_def by auto
  have "f ((m # ms) ! i) ((w # ws) ! i) = ((w # ws) ! Suc i, Inl ((e # es) ! i)) \<and> is_exception ((e # es) ! i)"
    if "i < length (e # es)" for i
  proof (cases i)
    case 0
    have "ws \<noteq> []" using es(1) by auto
    with 0 assms(1,2) show ?thesis by (simp add: hd_conv_nth)
  next
    case (Suc j)
    with es(3) that show ?thesis by simp
  qed
  moreover have "last (w # ws) = last ws" using es(1) by auto
  ultimately show ?thesis using es unfolding attempts_def
    by (intro exI [of _ "e # es"]) (simp split: if_split_asm)
qed

lemma attempts_ne:
  assumes "attempts f ms le ws out"
  shows "ws \<noteq> []"
proof -
  from assms obtain es :: "exn list" where "length ws = Suc (length es)" unfolding attempts_def by blast
  then show ?thesis by auto
qed

lemma try_models_attempts:
  assumes "dwf (ro_tracking ro)" "try_models clock f ms le (ro, w) = ((ro', w'), r)"
  shows "\<exists>ws. hd ws = w \<and> attempts f ms le ws (w', r) \<and> ro_registry ro' = ro_registry ro
    \<and> requests ro' = requests ro + int (length ws - 1) + (case r of Inr v \<Rightarrow> 1 | Inl e \<Rightarrow> 0)"
  using assms
proof (induction ms arbitrary: ro w le)
  case Nil
  then show ?case using attempts_Nil [of f le w] by (intro exI [of _ "[w]"]) auto
next
  case (Cons m ms)
  obtain w1 r1 where f: "f m w = (w1, r1)" by fastforce
  show ?case
  proof (cases "\<exists>e. r1 = Inl e \<and> is_exception e")
    case False
    then have d: "attempts f (m # ms) le [w] (w1, r1)" using f by (intro attempts_done) (auto split: sum.splits)
    show ?thesis
    proof (cases r1)
      case (Inl e)
      with d False Cons.prems f show ?thesis by (intro exI [of _ "[w]"]) auto
    next
      case (Inr v)
      with d Cons.prems f show ?thesis by (intro exI [of _ "[w]"]) (auto simp: requests_track)
    qed
  next
    case True
    then obtain e where e: "r1 = Inl e" "is_exception e" by blast
    let ?ro = "track_model_performance m False None 0 (Some (exn_type e)) ro"
    from Cons.prems f e have "try_models clock f ms (Some e) (?ro, w1) = ((ro', w'), r)" by simp
    note IH = Cons.IH [OF requests_track(2) [OF Cons.prems(1)] this]
    have one: "requests ?ro = requests ro + 1" by (simp add: requests_track(1) [OF Cons.prems(1)])
    from IH obtain ws where ws: "hd ws = w1" "attempts f ms (Some e) ws (w', r)" "ro_registry ro' = ro_registry ro"
      "requests ro' = requests ro + 1 + int (length ws - 1) + (case r of Inr v \<Rightarrow> 1 | Inl e \<Rightarrow> 0)"
      unfolding one registry_track by blast
    have "ws \<noteq> []" by (rule attempts_ne [OF ws(2)])
    then have len: "int (length (w # ws) - 1) = 1 + int (length ws - 1)" by (cases ws) auto
    have "f m w = (hd ws, Inl e)" unfolding f e(1) ws(1) by (rule refl)
    then have "attempts f (m # ms) le (w # ws) (w', r)" using e(2) ws(2) by (rule attempts_Cons)
    moreover have "requests ro' = requests ro + int (length (w # ws) - 1) + (case r of Inr v \<Rightarrow> 1 | Inl e \<Rightarrow> 0)"
      unfolding ws(4) len by simp
    ultimately show ?thesis using ws(3) by (intro exI [of _ "w # ws"] conjI) simp_all
  qed
qed

lemma run_router_dwf: "dwf (ro_tracking (run_router fallback_models ops))"
proof -
  have "dwf (ro_tracking ro) \<Longrightarrow> dwf (ro_tracking (fold router_step ops ro))" for ro
  proof (induction ops arbitrary: ro)
    case (Cons op ops)
    from Cons.IH [of "router_step op ro"] Cons.prems show ?case
      by (cases op) (simp_all add: requests_track)
  qed simp
  then show ?thesis by (simp add: run_router_def ModelRouter_def)
qed

text \<open>Execution with fallback gives the first success. Without a list of models the run tries
  the routed model of the capability and then its fallbacks, each at most once, stops at the
  first call that returns (or is cancelled), and raises the last failure when all of them
  fail; every attempt that returned or failed is tracked, once.\<close>

theorem execute_with_fallback_first:
  fixes fallback_models and ops and c
  defines "ro \<equiv> run_router fallback_models ops"
  assumes "execute_with_fallback fallback_models clock task f None (Some c) (ro, w) = ((ro', w'), r)"
  shows "\<exists>m rest ws. m \<in> set (get_models_for_capability c (ro_registry ro)) \<and> distinct (m # rest)
    \<and> set (m # rest) = set (get_models_for_capability c (ro_registry ro))
    \<and> hd ws = w \<and> attempts f (m # rest) None ws (w', r)
    \<and> requests ro' = requests ro + int (length ws - 1) + (case r of Inr v \<Rightarrow> 1 | Inl e \<Rightarrow> 0)"
proof -
  let ?ms = "get_models_for_capability c (ro_registry ro)"
  let ?cx = "classify_task_complexity task"
  have "\<exists>m. route fallback_models c ?cx ro = Inr m \<and> m \<in> set ?ms"
  proof -
    let ?r = "rank_models_by_performance (ro_tracking ro) (filter_by_complexity ?ms ?cx)"
    have ne: "?ms \<noteq> []" unfolding ro_def using models_ok [OF run_router_ok] by blast
    then obtain b bs where r: "?r = b # bs" by (cases ?r) (auto simp: filter_by_complexity_Nil)
    then have "set (b # bs) \<subseteq> set ?ms"
      using set_rank [of "ro_tracking ro" "filter_by_complexity ?ms ?cx"] set_filter_by_complexity [of ?ms ?cx] by simp
    with cheaper_candidate_in [of "ro_tracking ro" b bs] ne r show ?thesis
      by (auto simp: route_def Let_def apply_cost_tradeoff_def)
  qed
  then obtain m where m: "route fallback_models c ?cx ro = Inr m" "m \<in> set ?ms" by blast
  let ?rest = "rank_models_by_performance (ro_tracking ro) (remove1 m ?ms)"
  have dist: "distinct ?ms" unfolding ro_def using models_ok [OF run_router_ok] by blast
  have "try_models clock f (m # ?rest) None (ro, w) = ((ro', w'), r)"
    using assms(2) m by (simp add: execute_with_fallback_def get_model_for_task_def get_fallback_chain_def Let_def)
  from try_models_attempts [OF run_router_dwf [of fallback_models ops, folded ro_def] this] dist m(2) show ?thesis
    by (intro exI [of _ m] exI [of _ ?rest]) (auto simp: insert_absorb)
qed

theorem execute_with_fallback_first_witness:
  "\<exists>m rest ws. m \<in> set (get_models_for_capability QUICK (ro_registry (run_router [] [])))
    \<and> set (m # rest) = set (get_models_for_capability QUICK (ro_registry (run_router [] [])))
    \<and> attempts (\<lambda>m w. (Suc w, Inr m)) (m # rest) None ws
        (case execute_with_fallback [] real ''hi'' (\<lambda>m w. (Suc w, Inr m)) None (Some QUICK) (run_router [] [], 0) of ((ro', w'), r) \<Rightarrow> (w', r))"
proof -
  let ?f = "\<lambda>m w. (Suc w, Inr m) :: nat \<times> string result"
  obtain ro' w' r where e: "execute_with_fallback [] real ''hi'' ?f None (Some QUICK) (run_router [] [], 0) = ((ro', w'), r)"
    by (metis prod.exhaust)
  from execute_with_fallback_first [OF e] show ?thesis unfolding e by auto
qed

section \<open>The performance records\<close>

definition performance_ok :: "model_performance \<Rightarrow> bool" where
  "performance_ok p \<longleftrightarrow> dwf (mp_errors p) \<and> dsum int (mp_errors p) = int (mp_failure p) \<and> 0 \<le> mp_time p"

definition honest :: "router_op \<Rightarrow> bool" where
  "honest op = (case op of Report m ok (Some t) n e \<Rightarrow> 0 \<le> t | _ \<Rightarrow> True)"

definition is_report :: "string \<Rightarrow> bool \<Rightarrow> router_op \<Rightarrow> bool" where
  "is_report m ok op = (case op of Report m' ok' t n e \<Rightarrow> m' = m \<and> ok' = ok \<and> (ok \<longrightarrow> t \<noteq> None) | _ \<Rightarrow> False)"

definition reports :: "string \<Rightarrow> bool \<Rightarrow> router_op list \<Rightarrow> nat" where
  "reports m ok ops = count_if (is_report m ok) ops"

lemma performance_ok_new: "performance_ok (ModelPerformance m)"
  by (simp add: performance_ok_def ModelPerformance_def)

lemma performance_ok_success: "performance_ok p \<Longrightarrow> 0 \<le> t \<Longrightarrow> performance_ok (record_success t n p)"
  by (simp add: performance_ok_def record_success_def)

lemma performance_ok_failure: "performance_ok p \<Longrightarrow> performance_ok (record_failure e p)"
  by (auto simp: performance_ok_def record_failure_def dsum_dset dgetd_def split: option.splits)

lemma mp_success_rate_bounds: "0 \<le> mp_success_rate p \<and> mp_success_rate p \<le> 1"
  by (simp add: mp_success_rate_def total_requests_def)

lemma weighted: "0 \<le> a \<Longrightarrow> a \<le> 1 \<Longrightarrow> 0 \<le> b \<Longrightarrow> b \<le> 1 \<Longrightarrow> 0 \<le> 7 / 10 * a + 3 / 10 * b \<and> 7 / 10 * a + 3 / 10 * b \<le> (1 :: real)"
  by simp

lemma performance_score_bounds:
  "list_all (\<lambda>p. 0 \<le> mp_time p) (dvalues tr) \<Longrightarrow> 0 \<le> performance_score tr m \<and> performance_score tr m \<le> 1"
proof (cases "dget tr m")
  case (Some p)
  assume "list_all (\<lambda>p. 0 \<le> mp_time p) (dvalues tr)"
  with dget_in_set [OF Some] have "0 \<le> mp_time p" by (auto simp: list_all_iff dvalues_def)
  then have "0 \<le> average_response_time p" by (simp add: average_response_time_def)
  then have "max 0 (1 - average_response_time p / 10) \<le> 1" "0 \<le> max 0 (1 - average_response_time p / 10)" by simp_all
  then have "0 \<le> 7 / 10 * mp_success_rate p + 3 / 10 * max 0 (1 - average_response_time p / 10)
      \<and> 7 / 10 * mp_success_rate p + 3 / 10 * max 0 (1 - average_response_time p / 10) \<le> 1"
    using mp_success_rate_bounds [of p] by (intro weighted) simp_all
  with Some show ?thesis by (cases "total_requests p = 0") (simp_all only: performance_score_def option.case if_True if_False, simp_all)
qed (simp add: performance_score_def)

lemma track_lookup:
  "dget (ro_tracking (track_model_performance m ok t n e ro)) m' =
    (if m' = m then Some (let p = dgetd (ro_tracking ro) m (ModelPerformance m) in
        if ok then (case t of Some t \<Rightarrow> record_success t n p | None \<Rightarrow> p)
        else record_failure (case e of None \<Rightarrow> ''unknown'' | Some e \<Rightarrow> if e = [] then ''unknown'' else e) p)
     else dget (ro_tracking ro) m')"
  by (simp add: track_model_performance_def Let_def)

lemma dgetd_track:
  "dgetd (ro_tracking (track_model_performance m ok t n e ro)) m d = (let p = dgetd (ro_tracking ro) m (ModelPerformance m) in
        if ok then (case t of Some t \<Rightarrow> record_success t n p | None \<Rightarrow> p)
        else record_failure (case e of None \<Rightarrow> ''unknown'' | Some e \<Rightarrow> if e = [] then ''unknown'' else e) p)"
  by (simp add: dgetd_def [of "ro_tracking (track_model_performance m ok t n e ro)"] track_lookup)

lemma run_router_snoc: "run_router fb (ops @ [op]) = router_step op (run_router fb ops)"
  by (simp add: run_router_def)

lemma run_router_Nil: "ro_tracking (run_router fb []) = []"
  by (simp add: run_router_def ModelRouter_def)

text \<open>The records are exact and the rates are rates. After any registrations and honest
  reports, the record of a model counts its successes and its failures, its error counts
  add up to the failures, and its success rate and its score lie between 0 and 1.\<close>

theorem performance_exact:
  assumes "list_all honest ops"
  shows "let tr = ro_tracking (run_router fallback_models ops); p = dgetd tr m (ModelPerformance m) in
    mp_success p = reports m True ops \<and> mp_failure p = reports m False ops
    \<and> dsum int (mp_errors p) = int (reports m False ops)
    \<and> 0 \<le> mp_success_rate p \<and> mp_success_rate p \<le> 1 \<and> 0 \<le> performance_score tr m \<and> performance_score tr m \<le> 1"
proof -
  let ?tr = "\<lambda>ops. ro_tracking (run_router fallback_models ops)"
  let ?p = "\<lambda>ops m. dgetd (?tr ops) m (ModelPerformance m)"
  have main: "list_all honest ops \<Longrightarrow> mp_success (?p ops m) = reports m True ops \<and> mp_failure (?p ops m) = reports m False ops
      \<and> performance_ok (?p ops m)" for ops m
  proof (induction ops rule: rev_induct)
    case Nil
    then show ?case by (simp add: run_router_Nil dgetd_def reports_def performance_ok_new) (simp add: ModelPerformance_def)
  next
    case (snoc op ops)
    then have IH: "mp_success (?p ops m) = reports m True ops" "mp_failure (?p ops m) = reports m False ops" "performance_ok (?p ops m)"
      and h: "honest op" by auto
    show ?case
    proof (cases op)
      case (RegisterModel m' c)
      with IH show ?thesis by (simp add: run_router_snoc reports_def is_report_def)
    next
      case (Report m' ok t n e)
      show ?thesis
      proof (cases "m' = m")
        case True
        have "?p (ops @ [op]) m = (if ok then (case t of Some t \<Rightarrow> record_success t n (?p ops m) | None \<Rightarrow> ?p ops m)
            else record_failure (case e of None \<Rightarrow> ''unknown'' | Some e \<Rightarrow> if e = [] then ''unknown'' else e) (?p ops m))"
          using Report True by (simp add: run_router_snoc dgetd_track Let_def)
        with IH h Report True show ?thesis
by (cases ok; cases t)
            (simp_all add: reports_def is_report_def honest_def performance_ok_success performance_ok_failure,
             simp_all add: record_success_def record_failure_def)
      next
        case False
        then have "?p (ops @ [op]) m = ?p ops m" using Report by (simp add: run_router_snoc dgetd_def track_lookup)
        with IH False Report show ?thesis by (simp add: reports_def is_report_def)
      qed
    qed
  qed
  have "list_all (\<lambda>p. 0 \<le> mp_time p) (dvalues (?tr ops))"
  proof -
    have "0 \<le> mp_time p" if "(k, p) \<in> set (?tr ops)" for k p
    proof -
      have "dget (?tr ops) k = Some p" using that run_router_dwf by (simp add: dget_iff_set)
      with main [OF assms, of k] show ?thesis by (simp add: dgetd_def performance_ok_def)
    qed
    then show ?thesis by (auto simp: list_all_iff dvalues_def)
  qed
  from performance_score_bounds [OF this, of m] main [OF assms, of m] mp_success_rate_bounds show ?thesis
    by (simp add: Let_def performance_ok_def)
qed

theorem performance_exact_witness:
  "mp_success (dgetd (ro_tracking (run_router [] [Report ''a'' True (Some 1) 5 None, Report ''a'' False None 0 None])) ''a'' (ModelPerformance ''a'')) = 1"
  using performance_exact [of "[Report ''a'' True (Some 1) 5 None, Report ''a'' False None 0 None]" "[]" "''a''"]
  by (simp add: honest_def reports_def is_report_def Let_def)

end
