(* ===== verification/Model_Performance.thy ===== *)
theory Model_Performance
  imports State_Manager
begin

text \<open>
  The persistent performance tracker of \<open>src/observability/model_performance.py\<close>: metrics by
  model in the memory of a process, merged into a shared file after every record. Seconds
  and costs are exact reals. A file whose fields have other types than the ones written is
  outside the model (the outer \<open>None\<close>), except entries that are no dictionaries, on which the
  reader raises.
\<close>

section \<open>Metrics of a model\<close>

record model_metrics =
  mm_name :: string
  mm_total :: int
  mm_success :: int
  mm_failure :: int
  mm_time :: real
  mm_cost :: real
  mm_last :: string
  mm_errors :: "(string, int) dict"

definition ModelMetrics :: "string \<Rightarrow> model_metrics" where
  "ModelMetrics name = \<lparr>mm_name = name, mm_total = 0, mm_success = 0, mm_failure = 0, mm_time = 0, mm_cost = 0,
     mm_last = [], mm_errors = []\<rparr>"

definition mm_record_success :: "real \<Rightarrow> real \<Rightarrow> model_metrics \<Rightarrow> model_metrics" where
  "mm_record_success response_time cost m = m\<lparr>mm_total := mm_total m + 1, mm_success := mm_success m + 1,
     mm_time := mm_time m + response_time, mm_cost := mm_cost m + cost\<rparr>"

definition mm_record_failure :: "string \<Rightarrow> real \<Rightarrow> model_metrics \<Rightarrow> model_metrics" where
  "mm_record_failure error_type cost m = m\<lparr>mm_total := mm_total m + 1, mm_failure := mm_failure m + 1,
     mm_errors := dset error_type (dgetd (mm_errors m) error_type 0 + 1) (mm_errors m),
     mm_last := error_type, mm_cost := mm_cost m + cost\<rparr>"

definition mm_success_rate :: "model_metrics \<Rightarrow> real" where
  "mm_success_rate m = (if mm_total m = 0 then 0 else of_int (mm_success m) / of_int (mm_total m))"

definition mm_error_rate :: "model_metrics \<Rightarrow> real" where
  "mm_error_rate m = (if mm_total m = 0 then 0 else of_int (mm_failure m) / of_int (mm_total m))"

definition mm_average_response_time :: "model_metrics \<Rightarrow> real" where
  "mm_average_response_time m = (if mm_success m = 0 then 0 else mm_time m / of_int (mm_success m))"

definition mm_average_cost :: "model_metrics \<Rightarrow> real" where
  "mm_average_cost m = (if mm_total m = 0 then 0 else mm_cost m / of_int (mm_total m))"

definition counts_json :: "(string, int) dict \<Rightarrow> json" where
  "counts_json d = JObj (map (\<lambda>(e, n). (e, JInt n)) d)"

definition mm_to_dict :: "model_metrics \<Rightarrow> json" where
  "mm_to_dict m = JObj [(''model_name'', JStr (mm_name m)), (''requests_total'', JInt (mm_total m)),
     (''requests_success'', JInt (mm_success m)), (''requests_failure'', JInt (mm_failure m)),
     (''success_rate'', JFloat (mm_success_rate m)), (''error_rate'', JFloat (mm_error_rate m)),
     (''average_response_time'', JFloat (mm_average_response_time m)),
     (''average_cost_per_request'', JFloat (mm_average_cost m)), (''total_cost_usd'', JFloat (mm_cost m)),
     (''last_error'', JStr (mm_last m)), (''error_breakdown'', counts_json (mm_errors m))]"

text \<open>\<open>asdict\<close>, which is what the file holds.\<close>

definition mm_asdict :: "model_metrics \<Rightarrow> json" where
  "mm_asdict m = JObj [(''model_name'', JStr (mm_name m)), (''requests_total'', JInt (mm_total m)),
     (''requests_success'', JInt (mm_success m)), (''requests_failure'', JInt (mm_failure m)),
     (''response_time_sum'', JFloat (mm_time m)), (''cost_usd_sum'', JFloat (mm_cost m)),
     (''last_error'', JStr (mm_last m)), (''error_counts'', counts_json (mm_errors m))]"

definition text_field :: "(string, json) dict \<Rightarrow> string \<Rightarrow> string \<Rightarrow> string option" where
  "text_field d k dflt = (case dget d k of None \<Rightarrow> Some dflt | Some (JStr s) \<Rightarrow> Some s | _ \<Rightarrow> None)"

definition count_field :: "(string, json) dict \<Rightarrow> string \<Rightarrow> int option" where
  "count_field d k = (case dget d k of None \<Rightarrow> Some 0 | Some (JInt i) \<Rightarrow> Some i | _ \<Rightarrow> None)"

definition real_field :: "(string, json) dict \<Rightarrow> string \<Rightarrow> real option" where
  "real_field d k = (case dget d k of None \<Rightarrow> Some 0 | Some (JFloat x) \<Rightarrow> Some x | Some (JInt i) \<Rightarrow> Some (of_int i) | _ \<Rightarrow> None)"

fun read_counts :: "(string, json) dict \<Rightarrow> (string, int) dict option" where
  "read_counts [] = Some []"
| "read_counts ((e, v) # d) = (case (v, read_counts d) of (JInt n, Some r) \<Rightarrow> Some ((e, n) # r) | _ \<Rightarrow> None)"

definition counts_field :: "(string, json) dict \<Rightarrow> string \<Rightarrow> (string, int) dict option" where
  "counts_field d k = (case dget d k of None \<Rightarrow> Some [] | Some (JObj e) \<Rightarrow> read_counts e | _ \<Rightarrow> None)"

definition mm_from_dict :: "json \<Rightarrow> model_metrics result option" where
  "mm_from_dict v = (case v of
      JObj d \<Rightarrow> (case (text_field d ''model_name'' ''unknown'', count_field d ''requests_total'', count_field d ''requests_success'',
            count_field d ''requests_failure'', real_field d ''response_time_sum'', real_field d ''cost_usd_sum'',
            text_field d ''last_error'' [], counts_field d ''error_counts'') of
          (Some n, Some t, Some s, Some f, Some r, Some c, Some l, Some e) \<Rightarrow>
            Some (Inr \<lparr>mm_name = n, mm_total = t, mm_success = s, mm_failure = f, mm_time = r, mm_cost = c, mm_last = l, mm_errors = e\<rparr>)
        | _ \<Rightarrow> None)
    | _ \<Rightarrow> Some (Inl (attribute_error ''get'')))"

section \<open>The tracker\<close>

record performance_tracker =
  pt_filename :: string
  pt_metrics :: "(string, model_metrics) dict"

definition snapshot_of :: "(string, model_metrics) dict \<Rightarrow> (string, json) dict" where
  "snapshot_of ms = map (\<lambda>(n, m). (n, mm_asdict m)) ms"

text \<open>The dictionary in the file; an empty, malformed or other file counts as empty.\<close>

definition disk_models :: "string \<Rightarrow> fs \<Rightarrow> (string, json) dict" where
  "disk_models f w = (case dget (docs w) f of Some (Doc (JObj d)) \<Rightarrow> d | _ \<Rightarrow> [])"

text \<open>
  \<open>_persist\<close>: the merged dictionary starts from the file, then takes every entry of the
  snapshot; assigning the entries of the file again changes nothing. It is written
  atomically; at last the models that only the file has are read into memory.
\<close>

definition merge_snapshot :: "(string, json) dict \<Rightarrow> (string, json) dict \<Rightarrow> (string, json) dict" where
  "merge_snapshot snapshot disk = dupdate disk snapshot"

fun sync_back :: "(string, json) dict \<Rightarrow> (string, model_metrics) dict \<Rightarrow> ((string, model_metrics) dict \<times> exn option) option" where
  "sync_back [] ms = Some (ms, None)"
| "sync_back ((n, v) # d) ms = (if dmem n ms then sync_back d ms
     else (case mm_from_dict v of
        None \<Rightarrow> None
      | Some (Inl e) \<Rightarrow> Some (ms, Some e)
      | Some (Inr m) \<Rightarrow> sync_back d (dset n m ms)))"

definition touch :: "string \<Rightarrow> fs \<Rightarrow> fs" where
  "touch f w = (if dmem f (docs w) then w else w\<lparr>docs := dset f Blank (docs w)\<rparr>)"

definition persist_performance ::
  "fault \<Rightarrow> string \<Rightarrow> (string, json) dict \<Rightarrow> performance_tracker \<Rightarrow> fs \<Rightarrow> (performance_tracker \<times> fs \<times> unit result) option" where
  "persist_performance flt tmp snapshot pt w =
     (let w1 = touch (pt_filename pt) w;
          merged = merge_snapshot snapshot (disk_models (pt_filename pt) w1)
      in case atomic_write_json flt tmp (pt_filename pt) merged w1 of
           (w', Inl e) \<Rightarrow> Some (pt, w', Inl e)
         | (w', Inr _) \<Rightarrow> (case sync_back merged (pt_metrics pt) of
               None \<Rightarrow> None
             | Some (ms, err) \<Rightarrow> Some (pt\<lparr>pt_metrics := ms\<rparr>, w', (case err of None \<Rightarrow> Inr () | Some e \<Rightarrow> Inl e))))"

definition update_metrics ::
  "fault \<Rightarrow> string \<Rightarrow> string \<Rightarrow> (model_metrics \<Rightarrow> model_metrics) \<Rightarrow> performance_tracker \<Rightarrow> fs
    \<Rightarrow> (performance_tracker \<times> fs \<times> unit result) option" where
  "update_metrics flt tmp name f pt w =
     (let ms = dset name (f (dgetd (pt_metrics pt) name (ModelMetrics name))) (pt_metrics pt)
      in persist_performance flt tmp (snapshot_of ms) (pt\<lparr>pt_metrics := ms\<rparr>) w)"

definition tracker_record_success ::
  "fault \<Rightarrow> string \<Rightarrow> string \<Rightarrow> real \<Rightarrow> real \<Rightarrow> performance_tracker \<Rightarrow> fs \<Rightarrow> (performance_tracker \<times> fs \<times> unit result) option" where
  "tracker_record_success flt tmp name response_time cost pt w =
     update_metrics flt tmp name (mm_record_success response_time cost) pt w"

definition tracker_record_failure ::
  "fault \<Rightarrow> string \<Rightarrow> string \<Rightarrow> string \<Rightarrow> real \<Rightarrow> performance_tracker \<Rightarrow> fs \<Rightarrow> (performance_tracker \<times> fs \<times> unit result) option" where
  "tracker_record_failure flt tmp name error_type cost pt w =
     update_metrics flt tmp name (mm_record_failure error_type cost) pt w"

definition tracker_get_metrics :: "string \<Rightarrow> performance_tracker \<Rightarrow> model_metrics option" where
  "tracker_get_metrics name pt = dget (pt_metrics pt) name"

definition tracker_get_all_metrics :: "performance_tracker \<Rightarrow> (string, model_metrics) dict" where
  "tracker_get_all_metrics pt = pt_metrics pt"

definition tracker_get_summary :: "performance_tracker \<Rightarrow> json" where
  "tracker_get_summary pt = JObj (map (\<lambda>(n, m). (n, mm_to_dict m)) (pt_metrics pt))"

definition model_score :: "model_metrics \<Rightarrow> real" where
  "model_score m = 7 / 10 * mm_success_rate m +
     (if 0 < mm_average_response_time m then 3 / 10 * max 0 (1 - mm_average_response_time m / 10) else 15 / 100)"

definition valid_models :: "real \<Rightarrow> string list \<Rightarrow> performance_tracker \<Rightarrow> (string \<times> real) list" where
  "valid_models min_rate candidates pt = List.map_filter (\<lambda>c. case dget (pt_metrics pt) c of
      Some m \<Rightarrow> if min_rate \<le> mm_success_rate m then Some (c, model_score m) else None
    | None \<Rightarrow> None) candidates"

definition get_best_model_for_capability :: "string list \<Rightarrow> real \<Rightarrow> performance_tracker \<Rightarrow> string option" where
  "get_best_model_for_capability candidates min_rate pt =
     (case sort_desc snd (valid_models min_rate candidates pt) of
        [] \<Rightarrow> (case candidates of [] \<Rightarrow> None | c # cs \<Rightarrow> Some c)
      | (c, s) # rest \<Rightarrow> Some c)"

definition get_models_with_high_error_rate :: "real \<Rightarrow> int \<Rightarrow> performance_tracker \<Rightarrow> string list" where
  "get_models_with_high_error_rate threshold min_requests pt =
     map fst (filter (\<lambda>(n, m). min_requests \<le> mm_total m \<and> threshold \<le> mm_error_rate m) (pt_metrics pt))"

definition reset_performance :: "performance_tracker \<times> fs \<Rightarrow> performance_tracker \<times> fs" where
  "reset_performance = (\<lambda>(pt, w). (pt\<lparr>pt_metrics := []\<rparr>, w\<lparr>docs := ddel (pt_filename pt) (docs w)\<rparr>))"

text \<open>Loading: a dictionary comprehension, so an entry that raises leaves nothing; the handler
  does not catch the \<open>AttributeError\<close> of an entry that is no dictionary.\<close>

fun load_all :: "(string, json) dict \<Rightarrow> (string, model_metrics) dict \<Rightarrow> (string, model_metrics) dict result option" where
  "load_all [] acc = Some (Inr acc)"
| "load_all ((n, v) # d) acc = (case mm_from_dict v of
      None \<Rightarrow> None
    | Some (Inl e) \<Rightarrow> Some (Inl e)
    | Some (Inr m) \<Rightarrow> load_all d (dset n m acc))"

definition load_performance :: "string \<Rightarrow> fs \<Rightarrow> performance_tracker result option" where
  "load_performance f w = map_option (\<lambda>r. bindr r (\<lambda>ms. Inr \<lparr>pt_filename = f, pt_metrics = ms\<rparr>)) (load_all (disk_models f w) [])"

section \<open>Reading back what was written\<close>

lemma read_counts_map [simp]: "read_counts (map (\<lambda>(e, n). (e, JInt n)) d) = Some d"
  by (induction d) auto

lemma mm_from_asdict [simp]: "mm_from_dict (mm_asdict m) = Some (Inr m)"
  by (simp add: mm_from_dict_def mm_asdict_def text_field_def count_field_def real_field_def counts_field_def counts_json_def)

lemma dget_snapshot: "dget (snapshot_of ms) n = map_option mm_asdict (dget ms n)"
  by (induction ms) (auto simp: snapshot_of_def)

lemma load_all_snapshot: "dwf (acc @ ms) \<Longrightarrow> load_all (snapshot_of ms) acc = Some (Inr (acc @ ms))"
proof (induction ms arbitrary: acc)
  case (Cons x ms)
  obtain n m where x: "x = (n, m)" by fastforce
  with Cons.prems have "dget acc n = None" by (auto simp: dwf_def map_of_eq_None_iff)
  then have "dset n m acc = acc @ [x]" using x by (simp add: dset_absent)
  with Cons.IH [of "acc @ [x]"] Cons.prems x show ?case by (simp add: snapshot_of_def)
qed (simp add: snapshot_of_def)

lemma sync_back_known: "list_all (\<lambda>(n, v). dmem n ms) d \<Longrightarrow> sync_back d ms = Some (ms, None)"
  by (induction d) auto

lemma snapshot_dset: "snapshot_of (dset n m ms) = dset n (mm_asdict m) (snapshot_of ms)"
  by (induction ms) (auto simp: snapshot_of_def)

lemma dwf_snapshot [simp]: "dwf (snapshot_of ms) = dwf ms"
  by (simp add: dwf_def snapshot_of_def comp_def case_prod_beta)

section \<open>A tracker and its file\<close>

text \<open>What one process reports: outcomes of requests to models.\<close>

datatype outcome = Success real real | Failure string real

fun outcome_update :: "outcome \<Rightarrow> model_metrics \<Rightarrow> model_metrics" where
  "outcome_update (Success t c) = mm_record_success t c"
| "outcome_update (Failure e c) = mm_record_failure e c"

fun report :: "string \<Rightarrow> string \<times> outcome \<Rightarrow> performance_tracker \<Rightarrow> fs \<Rightarrow> (performance_tracker \<times> fs \<times> unit result) option" where
  "report tmp (n, Success t c) pt w = tracker_record_success NoFault tmp n t c pt w"
| "report tmp (n, Failure e c) pt w = tracker_record_failure NoFault tmp n e c pt w"

fun run_reports :: "string \<Rightarrow> (string \<times> outcome) list \<Rightarrow> performance_tracker \<times> fs \<Rightarrow> (performance_tracker \<times> fs) option" where
  "run_reports tmp [] (pt, w) = Some (pt, w)"
| "run_reports tmp (r # rs) (pt, w) = (case report tmp r pt w of
      Some (pt', w', Inr _) \<Rightarrow> run_reports tmp rs (pt', w') | _ \<Rightarrow> None)"

definition synced :: "performance_tracker \<Rightarrow> fs \<Rightarrow> bool" where
  "synced pt w \<longleftrightarrow> dwf (pt_metrics pt) \<and> disk_models (pt_filename pt) w = snapshot_of (pt_metrics pt)"

lemma report_eq: "report tmp (n, out) pt w = update_metrics NoFault tmp n (outcome_update out) pt w"
  by (cases out) (simp_all add: tracker_record_success_def tracker_record_failure_def)

lemma disk_models_touch [simp]: "disk_models f (touch g w) = disk_models f w"
  by (auto simp: disk_models_def touch_def dmem_Some split: option.splits)

lemma disk_models_write: "tmp \<noteq> f \<Longrightarrow> disk_models f (fst (atomic_write_json NoFault tmp f d w)) = d"
  by (simp add: atomic_write_json_def disk_models_def)

lemma atomic_write_NoFault: "\<exists>w'. atomic_write_json NoFault tmp f d w = (w', Inr ())"
  by (simp add: atomic_write_json_def)

lemma update_synced:
  assumes "synced pt w" "tmp \<noteq> pt_filename pt"
  shows "\<exists>w'. update_metrics NoFault tmp n f pt w =
      Some (pt\<lparr>pt_metrics := dset n (f (dgetd (pt_metrics pt) n (ModelMetrics n))) (pt_metrics pt)\<rparr>, w', Inr ())
    \<and> synced (pt\<lparr>pt_metrics := dset n (f (dgetd (pt_metrics pt) n (ModelMetrics n))) (pt_metrics pt)\<rparr>) w'"
proof -
  let ?ms = "dset n (f (dgetd (pt_metrics pt) n (ModelMetrics n))) (pt_metrics pt)"
  let ?d = "snapshot_of ?ms"
  let ?w1 = "touch (pt_filename pt) w"
  have wf: "dwf (pt_metrics pt)" and disk: "disk_models (pt_filename pt) w = snapshot_of (pt_metrics pt)"
    using assms(1) by (simp_all add: synced_def)
  have m: "merge_snapshot ?d (disk_models (pt_filename pt) ?w1) = ?d"
    unfolding merge_snapshot_def disk_models_touch disk snapshot_dset using wf by (intro dupdate_dset) simp
  obtain w' where w': "atomic_write_json NoFault tmp (pt_filename pt) ?d ?w1 = (w', Inr ())" using atomic_write_NoFault by blast
  have "sync_back ?d ?ms = Some (?ms, None)"
    by (rule sync_back_known) (force simp: list_all_iff snapshot_of_def dmem_iff)
  then have "update_metrics NoFault tmp n f pt w = Some (pt\<lparr>pt_metrics := ?ms\<rparr>, w', Inr ())"
    using m w' by (simp add: update_metrics_def persist_performance_def Let_def)
  moreover have "disk_models (pt_filename pt) w' = ?d" using disk_models_write [OF assms(2), of ?d ?w1] w' by simp
  ultimately show ?thesis using wf by (simp add: synced_def)
qed

section \<open>What the metrics count\<close>

definition outcomes_of :: "string \<Rightarrow> (string \<times> outcome) list \<Rightarrow> outcome list" where
  "outcomes_of n rs = map snd (filter (\<lambda>r. fst r = n) rs)"

definition successes :: "outcome list \<Rightarrow> nat" where
  "successes os = count_if (\<lambda>x. case x of Success t c \<Rightarrow> True | _ \<Rightarrow> False) os"

definition total_time :: "outcome list \<Rightarrow> real" where
  "total_time os = sum_list (map (\<lambda>x. case x of Success t c \<Rightarrow> t | _ \<Rightarrow> 0) os)"

definition total_cost :: "outcome list \<Rightarrow> real" where
  "total_cost os = sum_list (map (\<lambda>x. case x of Success t c \<Rightarrow> c | Failure e c \<Rightarrow> c) os)"

text \<open>The entry of a model in terms of its outcomes; without any it is the new entry.\<close>

definition metrics_fit :: "outcome list \<Rightarrow> model_metrics \<Rightarrow> bool" where
  "metrics_fit os m \<longleftrightarrow> mm_total m = int (length os) \<and> mm_success m = int (successes os)
     \<and> mm_failure m = int (length os) - int (successes os) \<and> mm_time m = total_time os \<and> mm_cost m = total_cost os
     \<and> dwf (mm_errors m) \<and> dsum id (mm_errors m) = mm_failure m"

lemma metrics_fit_new: "metrics_fit [] (ModelMetrics n)"
  by (simp add: metrics_fit_def ModelMetrics_def successes_def total_time_def total_cost_def)

lemma metrics_fit_snoc: "metrics_fit os m \<Longrightarrow> metrics_fit (os @ [out]) (outcome_update out m)"
  by (cases out) (auto simp: metrics_fit_def mm_record_success_def mm_record_failure_def successes_def total_time_def total_cost_def
      dsum_dset dgetd_def split: option.splits)

lemma outcomes_of_Cons: "outcomes_of n ((k, out) # rs) = (if k = n then out # outcomes_of n rs else outcomes_of n rs)"
  by (simp add: outcomes_of_def)

lemma run_reports_fit:
  assumes "synced pt w" "tmp \<noteq> pt_filename pt"
    "\<And>n. metrics_fit (os n) (dgetd (pt_metrics pt) n (ModelMetrics n))"
  shows "\<exists>pt' w'. run_reports tmp rs (pt, w) = Some (pt', w') \<and> synced pt' w' \<and> pt_filename pt' = pt_filename pt
    \<and> (\<forall>n. metrics_fit (os n @ outcomes_of n rs) (dgetd (pt_metrics pt') n (ModelMetrics n)))"
  using assms
proof (induction rs arbitrary: pt w os)
  case Nil
  then show ?case by (simp add: outcomes_of_def)
next
  case (Cons r rs)
  obtain k out where r: "r = (k, out)" by fastforce
  let ?pt = "pt\<lparr>pt_metrics := dset k (outcome_update out (dgetd (pt_metrics pt) k (ModelMetrics k))) (pt_metrics pt)\<rparr>"
  let ?os = "\<lambda>n. if n = k then os n @ [out] else os n"
  from update_synced [OF Cons.prems(1,2), of k "outcome_update out"] obtain w1
    where u: "update_metrics NoFault tmp k (outcome_update out) pt w = Some (?pt, w1, Inr ())" and s: "synced ?pt w1" by blast
  have "metrics_fit (?os n) (dgetd (pt_metrics ?pt) n (ModelMetrics n))" for n
    using Cons.prems(3) [of n] metrics_fit_snoc [of "os n" "dgetd (pt_metrics pt) n (ModelMetrics n)" out]
    by (cases "n = k") (simp_all add: dgetd_def)
  from Cons.IH [OF s _ this] Cons.prems(2) obtain pt' w' where pt': "run_reports tmp rs (?pt, w1) = Some (pt', w')"
    "synced pt' w'" "pt_filename pt' = pt_filename pt"
    "\<forall>n. metrics_fit (?os n @ outcomes_of n rs) (dgetd (pt_metrics pt') n (ModelMetrics n))" by auto
  have "run_reports tmp (r # rs) (pt, w) = Some (pt', w')" using u pt'(1) by (simp add: r report_eq)
  moreover have "?os n @ outcomes_of n rs = os n @ outcomes_of n (r # rs)" for n by (simp add: r outcomes_of_Cons)
  ultimately show ?case using pt'(2,3,4) by auto
qed

lemma metrics_fit_rates: "metrics_fit os m \<Longrightarrow> 0 < mm_total m \<Longrightarrow> mm_success_rate m + mm_error_rate m = 1"
  by (simp add: metrics_fit_def mm_success_rate_def mm_error_rate_def add_divide_distrib [symmetric])

text \<open>The metrics survive a restart and count the requests. On a file of its own, whatever
  outcomes a tracker records, a process that loads the file then holds exactly its
  metrics, which for every model count its requests, successes and failures (by error too),
  and add up its times and costs; the two rates of a model that was used add up to one.\<close>

theorem performance_survives_restart:
  assumes "dget (docs w) f = None" and "tmp \<noteq> f"
  shows "\<exists>pt w'. run_reports tmp rs (\<lparr>pt_filename = f, pt_metrics = []\<rparr>, w) = Some (pt, w')
    \<and> load_performance f w' = Some (Inr pt)
    \<and> (\<forall>n. let m = dgetd (pt_metrics pt) n (ModelMetrics n) in metrics_fit (outcomes_of n rs) m
        \<and> (mm_total m = 0 \<or> mm_success_rate m + mm_error_rate m = 1))"
proof -
  let ?pt = "\<lparr>pt_filename = f, pt_metrics = []\<rparr>"
  have "synced ?pt w" using assms(1) by (simp add: synced_def disk_models_def snapshot_of_def)
  moreover have "metrics_fit [] (dgetd (pt_metrics ?pt) n (ModelMetrics n))" for n by (simp add: dgetd_def metrics_fit_new)
  ultimately obtain pt w' where pt: "run_reports tmp rs (?pt, w) = Some (pt, w')" "synced pt w'" "pt_filename pt = f"
    "\<forall>n. metrics_fit (outcomes_of n rs) (dgetd (pt_metrics pt) n (ModelMetrics n))"
    using run_reports_fit [of ?pt w tmp "\<lambda>n. []" rs] assms(2) by auto
  have "load_performance f w' = Some (Inr pt)"
    using pt(2,3) load_all_snapshot [of "[]" "pt_metrics pt"] by (simp add: load_performance_def synced_def)
  moreover have "mm_total m = 0 \<or> mm_success_rate m + mm_error_rate m = 1" if "metrics_fit os m" for os m
    using that metrics_fit_rates [OF that] by (auto simp: metrics_fit_def)
  ultimately show ?thesis using pt(1,4) unfolding Let_def by blast
qed

theorem performance_survives_restart_witness:
  "\<exists>pt w'. run_reports ''t'' [(''a'', Success 1 0), (''a'', Failure ''E'' 0)] (\<lparr>pt_filename = ''p'', pt_metrics = []\<rparr>, \<lparr>docs = [], logs = []\<rparr>) = Some (pt, w')
    \<and> load_performance ''p'' w' = Some (Inr pt)"
  using performance_survives_restart [of "\<lparr>docs = [], logs = []\<rparr>" "''p''" "''t''" "[(''a'', Success 1 0), (''a'', Failure ''E'' 0)]"]
  by auto

section \<open>Two processes, and the choice\<close>

text \<open>
  A model both processes used: the second writer replaces the other's entry, whose requests
  are lost, though the class is documented to aggregate across processes.
\<close>

lemma other_process_lost:
  assumes "tmp \<noteq> f" "dwf (disk_models f w)" "update_metrics NoFault tmp n g \<lparr>pt_filename = f, pt_metrics = [(n, m)]\<rparr> w = Some (pt', w', r)"
  shows "dget (disk_models f w') n = Some (mm_asdict (g m))"
proof -
  let ?pt = "\<lparr>pt_filename = f, pt_metrics = [(n, m)]\<rparr>"
  let ?d = "merge_snapshot (snapshot_of [(n, g m)]) (disk_models f w)"
  obtain w2 where w2: "atomic_write_json NoFault tmp f ?d (touch f w) = (w2, Inr ())" using atomic_write_NoFault by blast
  then have "w' = w2" using assms(3) by (auto simp: update_metrics_def persist_performance_def dgetd_def Let_def split: option.splits prod.splits)
  then have "disk_models f w' = ?d" using disk_models_write [OF assms(1), of ?d "touch f w"] w2 by simp
  then show ?thesis by (simp add: merge_snapshot_def snapshot_of_def dupdate_def)
qed

lemma hd_sort_desc_stable:
  assumes "sort_desc f xs = y # ys"
  shows "y \<in> set xs" "\<And>x. x \<in> set xs \<Longrightarrow> f x \<le> f y"
  using assms hd_sort_desc_max [of _ xs f] set_sort_desc [of f xs] by auto

text \<open>The tracker recommends the best proven model. If some candidate has a record that is good
  enough, the answer is such a candidate, with the best score of them; otherwise it is the
  first candidate, if any.\<close>

theorem best_model_sound:
  "case get_best_model_for_capability candidates min_rate pt of
     None \<Rightarrow> candidates = []
   | Some c \<Rightarrow> c \<in> set candidates \<and>
       (if \<exists>x \<in> set candidates. \<exists>m. dget (pt_metrics pt) x = Some m \<and> min_rate \<le> mm_success_rate m
        then \<exists>m. dget (pt_metrics pt) c = Some m \<and> min_rate \<le> mm_success_rate m
          \<and> (\<forall>x \<in> set candidates. case dget (pt_metrics pt) x of
               Some m' \<Rightarrow> min_rate \<le> mm_success_rate m' \<longrightarrow> model_score m' \<le> model_score m | None \<Rightarrow> True)
        else c = hd candidates)"
proof -
  let ?v = "valid_models min_rate candidates pt"
  have v: "(c, s) \<in> set ?v \<longleftrightarrow> c \<in> set candidates \<and> (\<exists>m. dget (pt_metrics pt) c = Some m \<and> min_rate \<le> mm_success_rate m \<and> s = model_score m)"
    for c s
    by (force simp: valid_models_def List.map_filter_def split: option.splits if_splits)
  show ?thesis
  proof (cases "sort_desc snd ?v")
    case Nil
    then have n: "\<not> (\<exists>x \<in> set candidates. \<exists>m. dget (pt_metrics pt) x = Some m \<and> min_rate \<le> mm_success_rate m)"
      using v by fastforce
    then show ?thesis unfolding if_not_P [OF n] using Nil
      by (cases candidates) (simp_all add: get_best_model_for_capability_def)
  next
    case (Cons y ys)
    obtain c s where y: "y = (c, s)" by fastforce
    note best = hd_sort_desc_stable [OF Cons [unfolded y]]
    from best(1) v obtain m where m: "c \<in> set candidates" "dget (pt_metrics pt) c = Some m" "min_rate \<le> mm_success_rate m" "s = model_score m"
      by blast
    have "model_score m' \<le> model_score m" if "x \<in> set candidates" "dget (pt_metrics pt) x = Some m'" "min_rate \<le> mm_success_rate m'" for x m'
    proof -
      have "(x, model_score m') \<in> set ?v" using that v by blast
      from best(2) [OF this] m(4) show ?thesis by simp
    qed
    then have "\<forall>x \<in> set candidates. case dget (pt_metrics pt) x of
               Some m' \<Rightarrow> min_rate \<le> mm_success_rate m' \<longrightarrow> model_score m' \<le> model_score m | None \<Rightarrow> True"
      by (auto split: option.splits)
    with m Cons y show ?thesis by (auto simp: get_best_model_for_capability_def)
  qed
qed

theorem best_model_sound_witness:
  "get_best_model_for_capability [''a'', ''b''] (1 / 2) \<lparr>pt_filename = ''p'', pt_metrics = [(''b'', mm_record_success 1 0 (ModelMetrics ''b''))]\<rparr> = Some ''b''"
  using best_model_sound [where candidates = "[''a'', ''b'']" and min_rate = "1 / 2" and pt = "\<lparr>pt_filename = ''p'', pt_metrics = [(''b'', mm_record_success 1 0 (ModelMetrics ''b''))]\<rparr>"]
  by (auto simp: mm_record_success_def ModelMetrics_def mm_success_rate_def split: option.splits)

end
