(* ===== verification/Vector_Index.thy ===== *)
theory Vector_Index
  imports PyText
begin

text \<open>
  The vector index of \<open>src/services/vector_index.py\<close>: the protocol of a backend, the null
  placeholder and the sqlite backend with its two tables. The tables are dictionaries by
  row number, their SQL statements are written out; a transaction that fails (\<open>fault\<close>) rolls
  back. The embedding function changes a world (its quota) and may raise. The nearest
  neighbour search of the extension is the parameter \<open>nearest\<close>, which gives the row numbers
  with their distances.
\<close>

section \<open>Documents and tables\<close>

type_synonym vector = "real list"

type_synonym 'e embedder = "string list \<Rightarrow> 'e \<Rightarrow> 'e \<times> vector list result"

type_synonym metadata = "(string, json) dict"

definition unavailable :: "string \<Rightarrow> exn" where
  "unavailable msg = Exn ''VectorBackendUnavailable'' msg"

record search_hit =
  sh_doc_id :: string
  sh_text :: string
  sh_score :: real
  sh_metadata :: metadata

record vec_db =
  vi_index :: "(nat, vector) dict"
  vi_meta :: "(nat, string \<times> string \<times> metadata) dict"

definition empty_db :: vec_db where
  "empty_db = \<lparr>vi_index = [], vi_meta = []\<rparr>"

text \<open>\<open>SELECT rowid FROM meta WHERE doc_id = ?\<close>\<close>

definition rowid_of :: "string \<Rightarrow> vec_db \<Rightarrow> nat option" where
  "rowid_of doc_id db = map_option fst (find (\<lambda>(r, d, t, m). d = doc_id) (vi_meta db))"

text \<open>The row number of an insertion: one more than the largest.\<close>

definition next_rowid :: "vec_db \<Rightarrow> nat" where
  "next_rowid db = Suc (fold max (dkeys (vi_meta db)) 0)"

text \<open>The statements of one transaction of \<open>upsert\<close> and of \<open>delete\<close>.\<close>

definition upsert_rows :: "string \<Rightarrow> string \<times> metadata \<times> vector \<Rightarrow> vec_db \<Rightarrow> vec_db" where
  "upsert_rows doc_id = (\<lambda>(text, md, v) db. case rowid_of doc_id db of
      Some r \<Rightarrow> \<lparr>vi_index = dset r v (ddel r (vi_index db)), vi_meta = dset r (doc_id, text, md) (vi_meta db)\<rparr>
    | None \<Rightarrow> (let r = next_rowid db in
        \<lparr>vi_index = dset r v (vi_index db), vi_meta = dset r (doc_id, text, md) (vi_meta db)\<rparr>))"

definition delete_rows :: "string \<Rightarrow> vec_db \<Rightarrow> vec_db" where
  "delete_rows doc_id db = (case rowid_of doc_id db of
      None \<Rightarrow> db
    | Some r \<Rightarrow> \<lparr>vi_index = ddel r (vi_index db), vi_meta = ddel r (vi_meta db)\<rparr>)"

section \<open>The operations\<close>

definition encode_vector :: "nat \<Rightarrow> vector \<Rightarrow> vector result" where
  "encode_vector dims v = (if length v \<noteq> dims
     then Inl (unavailable (''embedder returned vector of length '' @ str_of_nat (length v) @
       '' but backend is dimension '' @ str_of_nat dims)) else Inr v)"

definition embed_single :: "'e embedder \<Rightarrow> nat \<Rightarrow> string \<Rightarrow> 'e \<Rightarrow> 'e \<times> vector result" where
  "embed_single emb dims text e = (case emb [text] e of
      (e', Inl x) \<Rightarrow> (e', Inl x)
    | (e', Inr [v]) \<Rightarrow> (e', encode_vector dims v)
    | (e', Inr vs) \<Rightarrow> (e', Inl (unavailable ''embedder returned malformed output; expected 1 vector'')))"

definition sqlite_error :: exn where
  "sqlite_error = Exn ''OperationalError'' []"

definition upsert ::
  "'e embedder \<Rightarrow> nat \<Rightarrow> bool \<Rightarrow> string \<Rightarrow> string \<Rightarrow> metadata \<Rightarrow> vec_db \<times> 'e \<Rightarrow> (vec_db \<times> 'e) \<times> unit result" where
  "upsert emb dims fault doc_id text md = (\<lambda>(db, e). case embed_single emb dims text e of
      (e', Inl x) \<Rightarrow> ((db, e'), Inl x)
    | (e', Inr v) \<Rightarrow> if fault \<or> (rowid_of doc_id db = None \<and> dmem (next_rowid db) (vi_index db)) then ((db, e'), Inl sqlite_error)
        else ((upsert_rows doc_id (text, md, v) db, e'), Inr ()))"

definition delete_doc :: "bool \<Rightarrow> string \<Rightarrow> vec_db \<Rightarrow> vec_db \<times> unit result" where
  "delete_doc fault doc_id db = (if fault then (db, Inl sqlite_error) else (delete_rows doc_id db, Inr ()))"

definition clear_index :: "vec_db \<Rightarrow> vec_db" where
  "clear_index db = empty_db"

text \<open>\<open>known_doc_ids\<close>, a set: the list in the order of the rows.\<close>

definition corpus_of :: "(real \<Rightarrow> string) \<Rightarrow> metadata \<Rightarrow> string" where
  "corpus_of frepr md = lower (strip (py_str frepr (dgetd md ''corpus'' (JStr []))))"

definition known_doc_ids :: "(real \<Rightarrow> string) \<Rightarrow> string list option \<Rightarrow> vec_db \<Rightarrow> string list" where
  "known_doc_ids frepr corpora db = (case corpora of
      None \<Rightarrow> map (\<lambda>(r, d, t, m). d) (vi_meta db)
    | Some cs \<Rightarrow> (let wanted = map (\<lambda>c. lower (strip c)) cs in
        map (\<lambda>(r, d, t, m). d) (filter (\<lambda>(r, d, t, m). List.member wanted (corpus_of frepr m)) (vi_meta db))))"

type_synonym nearest = "(nat, vector) dict \<Rightarrow> vector \<Rightarrow> nat \<Rightarrow> (nat \<times> real) list"

definition hit_of :: "vec_db \<Rightarrow> nat \<times> real \<Rightarrow> search_hit list" where
  "hit_of db = (\<lambda>(r, d). case dget (vi_meta db) r of
      None \<Rightarrow> []
    | Some (doc, text, md) \<Rightarrow> [\<lparr>sh_doc_id = doc, sh_text = text, sh_score = 1 / (1 + d),
        sh_metadata = dset ''distance'' (JFloat d) md\<rparr>])"

definition query_index ::
  "'e embedder \<Rightarrow> nat \<Rightarrow> nearest \<Rightarrow> string \<Rightarrow> int \<Rightarrow> vec_db \<times> 'e \<Rightarrow> (vec_db \<times> 'e) \<times> search_hit list result" where
  "query_index emb dims nearest text top_k = (\<lambda>(db, e).
     if top_k \<le> 0 then ((db, e), Inr [])
     else case embed_single emb dims text e of
       (e', Inl x) \<Rightarrow> ((db, e'), Inl x)
     | (e', Inr v) \<Rightarrow> ((db, e'), Inr (concat (map (hit_of db) (sort_key snd (nearest (vi_index db) v (nat top_k)))))))"

section \<open>Backends\<close>

text \<open>
  \<open>resolve_vector_backend\<close>: \<open>installed\<close> is whether the extension can be imported,
  \<open>load_error\<close> the error of loading it into a connection.
\<close>

datatype 'e backend = NullVectorIndex | SqliteVecBackend "'e embedder" nat

definition VECTOR_NAMES :: "string list" where
  "VECTOR_NAMES = [''vector'', ''sqlite-vec'', ''sqlitevec'']"

definition backend_setting :: "string \<Rightarrow> string" where
  "backend_setting name = lower (strip (if name = [] then ''keyword'' else name))"

definition open_backend :: "bool \<Rightarrow> exn option \<Rightarrow> 'e embedder \<Rightarrow> nat \<Rightarrow> 'e backend result" where
  "open_backend installed load_error emb dims =
     (if \<not> installed then Inl (unavailable ''sqlite-vec is not installed; run `pip install sqlite-vec` or install the [memory] extra.'')
      else case load_error of
        Some x \<Rightarrow> Inl (unavailable (''sqlite-vec extension failed to load: '' @ exn_msg x))
      | None \<Rightarrow> Inr (SqliteVecBackend emb dims))"

definition resolve_vector_backend :: "bool \<Rightarrow> exn option \<Rightarrow> string \<Rightarrow> 'e embedder option \<Rightarrow> nat \<Rightarrow> 'e backend result" where
  "resolve_vector_backend installed load_error setting embedder dims =
     (let resolved = backend_setting setting in
      if \<not> List.member VECTOR_NAMES resolved
      then Inl (unavailable (''retrieval backend '' @ repr_str resolved @ '' is not a vector backend; stay on keyword retrieval''))
      else if \<not> installed then Inr NullVectorIndex
      else case embedder of None \<Rightarrow> Inr NullVectorIndex | Some emb \<Rightarrow> open_backend installed load_error emb dims)"

definition backend_upsert ::
  "'e backend \<Rightarrow> bool \<Rightarrow> string \<Rightarrow> string \<Rightarrow> metadata \<Rightarrow> vec_db \<times> 'e \<Rightarrow> (vec_db \<times> 'e) \<times> unit result" where
  "backend_upsert b fault doc_id text md s = (case b of
      NullVectorIndex \<Rightarrow> (s, Inr ())
    | SqliteVecBackend emb dims \<Rightarrow> upsert emb dims fault doc_id text md s)"

definition backend_query ::
  "'e backend \<Rightarrow> nearest \<Rightarrow> string \<Rightarrow> int \<Rightarrow> vec_db \<times> 'e \<Rightarrow> (vec_db \<times> 'e) \<times> search_hit list result" where
  "backend_query b nearest text top_k s = (case b of
      NullVectorIndex \<Rightarrow> (s, Inl (unavailable (''NullVectorIndex cannot serve queries; supply an Embedder and '' @
        ''install sqlite-vec to enable real vector retrieval.'')))
    | SqliteVecBackend emb dims \<Rightarrow> query_index emb dims nearest text top_k s)"

section \<open>The tables agree\<close>

text \<open>
  The invariant of the two tables: distinct row numbers, the same in both, and no document
  twice. Under it the tables are a store of documents by id.
\<close>

definition meta_ids :: "vec_db \<Rightarrow> string list" where
  "meta_ids db = map (\<lambda>(r, d, t, m). d) (vi_meta db)"

definition tables_ok :: "vec_db \<Rightarrow> bool" where
  "tables_ok db \<longleftrightarrow> dwf (vi_index db) \<and> dwf (vi_meta db) \<and> distinct (meta_ids db)
     \<and> set (dkeys (vi_index db)) = set (dkeys (vi_meta db))"

definition doc_of :: "vec_db \<Rightarrow> string \<Rightarrow> (string \<times> metadata \<times> vector) option" where
  "doc_of db doc_id = (case rowid_of doc_id db of
      None \<Rightarrow> None
    | Some r \<Rightarrow> (case (dget (vi_meta db) r, dget (vi_index db) r) of
        (Some (d, t, m), Some v) \<Rightarrow> Some (t, m, v) | _ \<Rightarrow> None))"

lemma rowid_Some: "rowid_of d db = Some r \<Longrightarrow> \<exists>t m. (r, d, t, m) \<in> set (vi_meta db)"
  by (auto simp: rowid_of_def find_Some_iff) (metis nth_mem)

lemma rowid_None: "rowid_of d db = None \<longleftrightarrow> d \<notin> set (meta_ids db)"
  by (force simp: rowid_of_def find_None_iff meta_ids_def)

lemma distinct_key_unique:
  "distinct (map f xs) \<Longrightarrow> x \<in> set xs \<Longrightarrow> y \<in> set xs \<Longrightarrow> f x = f y \<Longrightarrow> x = y"
  by (metis distinct_map inj_on_def)

lemma rowid_iff:
  assumes "tables_ok db"
  shows "rowid_of d db = Some r \<longleftrightarrow> (\<exists>t m. dget (vi_meta db) r = Some (d, t, m))"
proof
  assume "rowid_of d db = Some r"
  with rowid_Some [OF this] assms show "\<exists>t m. dget (vi_meta db) r = Some (d, t, m)"
    by (auto simp: tables_ok_def dget_iff_set)
next
  assume "\<exists>t m. dget (vi_meta db) r = Some (d, t, m)"
  then obtain t m where m: "(r, d, t, m) \<in> set (vi_meta db)" using dget_in_set by metis
  then have "d \<in> set (meta_ids db)" by (force simp: meta_ids_def)
  then obtain r' where r': "rowid_of d db = Some r'" using rowid_None [of d db] by (cases "rowid_of d db") auto
  with rowid_Some obtain t' m' where m': "(r', d, t', m') \<in> set (vi_meta db)" by blast
  have "(r', d, t', m') = (r, d, t, m)"
    using assms m m' by (intro distinct_key_unique [of "\<lambda>(r, d, t, m). d" "vi_meta db"]) (auto simp: tables_ok_def meta_ids_def)
  with r' show "rowid_of d db = Some r" by simp
qed

lemma fold_max_le: "(x :: nat) \<in> set xs \<Longrightarrow> x \<le> fold max xs a"
  by (metis List.finite_set Max.set_eq_fold Max_ge list.set_intros(2))

lemma next_rowid_fresh: "dget (vi_meta db) (next_rowid db) = None"
proof (rule ccontr)
  assume "dget (vi_meta db) (next_rowid db) \<noteq> None"
  then have "next_rowid db \<in> set (dkeys (vi_meta db))" by (simp add: map_of_eq_None_iff dkeys_def)
  from fold_max_le [OF this, of 0] show False by (simp add: next_rowid_def)
qed

lemma index_meta: "tables_ok db \<Longrightarrow> dget (vi_index db) r = None \<longleftrightarrow> dget (vi_meta db) r = None"
  by (simp add: tables_ok_def map_of_eq_None_iff dkeys_def)

lemma keys_dset [simp]: "set (dkeys (dset k v d)) = insert k (set (dkeys d))"
proof (cases "dmem k d")
  case True
  then have "k \<in> set (dkeys d)" by (simp add: dmem_iff dkeys_def)
  with True show ?thesis by (simp add: dkeys_dset insert_absorb)
qed (simp add: dkeys_dset)

lemma keys_ddel [simp]: "set (dkeys (ddel k d)) = set (dkeys d) - {k}"
  by (auto simp: dkeys_def delete_keys)

lemma row_pos:
  assumes "rowid_of doc_id db = Some r" "dwf (vi_meta db)"
  obtains l rr t m where "vi_meta db = l @ (r, doc_id, t, m) # rr" "dget l r = None" "dget rr r = None"
proof -
  from rowid_Some [OF assms(1)] obtain t m where "(r, doc_id, t, m) \<in> set (vi_meta db)" by blast
  then obtain l rr where s: "vi_meta db = l @ (r, doc_id, t, m) # rr" by (meson split_list)
  with assms(2) have "dget l r = None" "dget rr r = None" by (auto simp: dwf_def map_of_eq_None_iff)
  with s show thesis by (rule that)
qed

lemma ddel_middle: "dget l k = None \<Longrightarrow> dget r k = None \<Longrightarrow> ddel k (l @ (k, v) # r) = l @ r"
proof -
  assume "dget l k = None" "dget r k = None"
  then have "ddel k l = l" "ddel k r = r" by (simp_all add: ddel_absent)
  then show ?thesis by (simp add: AList.delete_eq)
qed

lemma tables_ok_upsert: "tables_ok db \<Longrightarrow> tables_ok (upsert_rows doc_id x db)"
proof -
  assume ok: "tables_ok db"
  obtain t m v where x: "x = (t, m, v)" by (metis prod_cases3)
  show ?thesis
  proof (cases "rowid_of doc_id db")
    case None
    let ?r = "next_rowid db"
    have "vi_meta (upsert_rows doc_id x db) = vi_meta db @ [(?r, doc_id, t, m)]"
      using None x by (simp add: upsert_rows_def Let_def dset_absent next_rowid_fresh)
    moreover have "dwf (dset ?r (doc_id, t, m) (vi_meta db))"
      "set (dkeys (dset ?r (doc_id, t, m) (vi_meta db))) = insert ?r (set (dkeys (vi_meta db)))"
      using ok by (simp_all add: tables_ok_def)
    moreover have "doc_id \<notin> set (meta_ids db)" using None rowid_None by simp
    ultimately show ?thesis using ok None x
      by (simp add: tables_ok_def upsert_rows_def Let_def meta_ids_def del: keys_dset) simp
  next
    case (Some r)
    have wf: "dwf (vi_meta db)" using ok by (simp add: tables_ok_def)
    from row_pos [OF Some wf] obtain l rr t0 m0 where s: "vi_meta db = l @ (r, doc_id, t0, m0) # rr" "dget l r = None" .
    have "vi_meta (upsert_rows doc_id x db) = l @ (r, doc_id, t, m) # rr"
      using Some x by (simp add: upsert_rows_def s dset_middle)
    then have "meta_ids (upsert_rows doc_id x db) = meta_ids db" by (simp add: meta_ids_def s)
    moreover have "r \<in> set (dkeys (vi_meta db))" using s by (simp add: dkeys_def)
    ultimately show ?thesis using ok Some x
      by (auto simp: tables_ok_def upsert_rows_def)
  qed
qed

lemma tables_ok_delete: "tables_ok db \<Longrightarrow> tables_ok (delete_rows doc_id db)"
proof (cases "rowid_of doc_id db")
  case (Some r)
  assume ok: "tables_ok db"
  then have wf: "dwf (vi_meta db)" by (simp add: tables_ok_def)
  from row_pos [OF Some wf] obtain l rr t m where s: "vi_meta db = l @ (r, doc_id, t, m) # rr" "dget l r = None" "dget rr r = None" .
  have "ddel r (vi_meta db) = l @ rr" unfolding s(1) using s(2,3) by (rule ddel_middle)
  then have "distinct (meta_ids (delete_rows doc_id db))"
    using ok Some by (simp add: delete_rows_def meta_ids_def tables_ok_def s(1))
  with ok Some show ?thesis by (simp add: tables_ok_def delete_rows_def)
qed (simp add: delete_rows_def)

lemma doc_of_iff:
  assumes "tables_ok db"
  shows "doc_of db d = Some (t, m, v) \<longleftrightarrow> (\<exists>r. dget (vi_meta db) r = Some (d, t, m) \<and> dget (vi_index db) r = Some v)"
proof (cases "rowid_of d db")
  case None
  then have "\<not> (\<exists>r. dget (vi_meta db) r = Some (d, t, m))" using rowid_iff [OF assms, of d] by auto
  with None show ?thesis by (auto simp: doc_of_def)
next
  case (Some r)
  then obtain t' m' where m: "dget (vi_meta db) r = Some (d, t', m')" using rowid_iff [OF assms, of d r] by blast
  then obtain v' where v: "dget (vi_index db) r = Some v'" using index_meta [OF assms, of r] by (cases "dget (vi_index db) r") auto
  have "r' = r" if "dget (vi_meta db) r' = Some (d, t, m)" for r'
    using rowid_iff [OF assms, of d r'] that Some by auto
  with Some m v show ?thesis by (auto simp: doc_of_def)
qed

text \<open>The row an insertion writes, and the tables after it, as maps.\<close>

lemma upsert_maps:
  assumes "tables_ok db"
  obtains r where "dget (vi_meta (upsert_rows d (t, m, v) db)) = (dget (vi_meta db))(r \<mapsto> (d, t, m))"
    "dget (vi_index (upsert_rows d (t, m, v) db)) = (dget (vi_index db))(r \<mapsto> v)"
    "\<And>r' t' m'. dget (vi_meta db) r' = Some (d, t', m') \<Longrightarrow> r' = r"
    "\<And>d' t' m'. dget (vi_meta db) r = Some (d', t', m') \<Longrightarrow> d' = d"
proof (cases "rowid_of d db")
  case None
  then have "dget (vi_meta db) r' \<noteq> Some (d, t', m')" for r' t' m' using rowid_iff [OF assms, of d r'] by auto
  then show thesis
    by (intro that [of "next_rowid db"]) (simp_all add: None upsert_rows_def Let_def fun_eq_iff next_rowid_fresh)
next
  case (Some r)
  then obtain t0 m0 where m0: "dget (vi_meta db) r = Some (d, t0, m0)" using rowid_iff [OF assms] by blast
  show thesis
  proof (rule that [of r])
    show "r' = r" if "dget (vi_meta db) r' = Some (d, t', m')" for r' t' m'
      using rowid_iff [OF assms, of d r'] that Some by auto
    show "d' = d" if "dget (vi_meta db) r = Some (d', t', m')" for d' t' m' using m0 that by simp
  qed (simp_all add: Some upsert_rows_def fun_eq_iff)
qed

lemma triple_option_ext: "(\<And>t m v. a = Some (t, m, v) \<longleftrightarrow> b = Some (t, m, v)) \<Longrightarrow> a = b"
  by (cases a; cases b) auto

lemma doc_of_upsert:
  assumes "tables_ok db"
  shows "doc_of (upsert_rows d x db) d' = (if d' = d then Some x else doc_of db d')"
proof (rule triple_option_ext)
  fix t' m' v'
  obtain t m v where x: "x = (t, m, v)" by (metis prod_cases3)
  note ok = tables_ok_upsert [OF assms, of d x]
  from upsert_maps [OF assms, of d t m v] obtain r where r:
    "dget (vi_meta (upsert_rows d x db)) = (dget (vi_meta db))(r \<mapsto> (d, t, m))"
    "dget (vi_index (upsert_rows d x db)) = (dget (vi_index db))(r \<mapsto> v)"
    "\<And>r' t' m'. dget (vi_meta db) r' = Some (d, t', m') \<Longrightarrow> r' = r"
    "\<And>d' t' m'. dget (vi_meta db) r = Some (d', t', m') \<Longrightarrow> d' = d"
    unfolding x by blast
  show "doc_of (upsert_rows d x db) d' = Some (t', m', v') \<longleftrightarrow> (if d' = d then Some x else doc_of db d') = Some (t', m', v')"
    unfolding doc_of_iff [OF ok] r(1,2)
  proof (cases "d' = d")
    case True
    then show "(\<exists>ra. ((dget (vi_meta db))(r \<mapsto> (d, t, m))) ra = Some (d', t', m') \<and> ((dget (vi_index db))(r \<mapsto> v)) ra = Some v') \<longleftrightarrow>
        (if d' = d then Some x else doc_of db d') = Some (t', m', v')"
      using r(3) x by (auto split: if_splits)
  next
    case False
    then have "((dget (vi_meta db))(r \<mapsto> (d, t, m))) ra = Some (d', t', m') \<longleftrightarrow> ra \<noteq> r \<and> dget (vi_meta db) ra = Some (d', t', m')" for ra
      by auto
    moreover have "dget (vi_meta db) ra = Some (d', t', m') \<Longrightarrow> ra \<noteq> r" for ra using r(4) False by blast
    ultimately show "(\<exists>ra. ((dget (vi_meta db))(r \<mapsto> (d, t, m))) ra = Some (d', t', m') \<and> ((dget (vi_index db))(r \<mapsto> v)) ra = Some v') \<longleftrightarrow>
        (if d' = d then Some x else doc_of db d') = Some (t', m', v')"
      using False doc_of_iff [OF assms, of d' t' m' v'] by auto
  qed
qed

lemma doc_of_delete:
  assumes "tables_ok db"
  shows "doc_of (delete_rows d db) d' = (if d' = d then None else doc_of db d')"
proof (cases "rowid_of d db")
  case None
  then show ?thesis by (auto simp: delete_rows_def doc_of_def)
next
  case (Some r)
  then obtain t0 m0 where m0: "dget (vi_meta db) r = Some (d, t0, m0)" using rowid_iff [OF assms] by blast
  have uniq: "r' = r" if "dget (vi_meta db) r' = Some (d, t', m')" for r' t' m'
    using rowid_iff [OF assms, of d r'] that Some by auto
  note ok = tables_ok_delete [OF assms, of d]
  show ?thesis
  proof (rule triple_option_ext)
    fix t' m' v'
    have "(\<exists>ra. dget (vi_meta (delete_rows d db)) ra = Some (d', t', m') \<and> dget (vi_index (delete_rows d db)) ra = Some v') \<longleftrightarrow>
        d' \<noteq> d \<and> (\<exists>ra. dget (vi_meta db) ra = Some (d', t', m') \<and> dget (vi_index db) ra = Some v')"
    proof -
      have "ra \<noteq> r \<and> dget (vi_meta db) ra = Some (d', t', m') \<longleftrightarrow> d' \<noteq> d \<and> dget (vi_meta db) ra = Some (d', t', m')" for ra
        using m0 uniq by fastforce
      then show ?thesis by (auto simp: delete_rows_def Some split: if_splits)
    qed
    then show "doc_of (delete_rows d db) d' = Some (t', m', v') \<longleftrightarrow> (if d' = d then None else doc_of db d') = Some (t', m', v')"
      unfolding doc_of_iff [OF ok] doc_of_iff [OF assms, symmetric] by auto
  qed
qed

interpretation vec_store: keyed_store doc_of upsert_rows delete_rows tables_ok
  by unfold_locales (simp_all add: doc_of_upsert doc_of_delete tables_ok_upsert tables_ok_delete)

lemma tables_ok_empty [simp]: "tables_ok empty_db"
  by (simp add: tables_ok_def empty_db_def meta_ids_def dkeys_def)

lemma doc_of_empty [simp]: "doc_of empty_db d = None"
  by (simp add: doc_of_def rowid_of_def empty_db_def)

lemma doc_of_meta_ids: "tables_ok db \<Longrightarrow> (doc_of db d = None) = (d \<notin> set (meta_ids db))"
proof -
  assume ok: "tables_ok db"
  show ?thesis
  proof (cases "rowid_of d db")
    case None
    then show ?thesis using rowid_None [of d db] by (simp add: doc_of_def)
  next
    case (Some r)
    then obtain t m where "dget (vi_meta db) r = Some (d, t, m)" using rowid_iff [OF ok] by blast
    moreover from this obtain v where "dget (vi_index db) r = Some v" using index_meta [OF ok, of r] by (cases "dget (vi_index db) r") auto
    ultimately have "doc_of db d = Some (t, m, v)" using Some by (simp add: doc_of_def)
    then show ?thesis using Some rowid_None [of d db] by simp
  qed
qed

section \<open>The index over time\<close>

text \<open>
  What clients do to the backend, with the transactions that fail. A run returns the tables,
  the world of the embedding and the log of the changes that were committed.
\<close>

datatype index_op =
    Upsert bool string string metadata
  | Delete bool string
  | Clear

fun index_step :: "'e embedder \<Rightarrow> nat \<Rightarrow> index_op \<Rightarrow> vec_db \<times> 'e \<Rightarrow> vec_db \<times> 'e" where
  "index_step emb dims (Upsert fault d t m) s = fst (upsert emb dims fault d t m s)"
| "index_step emb dims (Delete fault d) (db, e) = (fst (delete_doc fault d db), e)"
| "index_step emb dims Clear (db, e) = (clear_index db, e)"

text \<open>Every stored document has the vector its text was embedded to, of the right length.\<close>

definition vectors_fit :: "(string \<Rightarrow> vector \<Rightarrow> bool) \<Rightarrow> nat \<Rightarrow> vec_db \<Rightarrow> bool" where
  "vectors_fit fits dims db \<longleftrightarrow> (\<forall>d t m v. doc_of db d = Some (t, m, v) \<longrightarrow> length v = dims \<and> fits t v)"

lemma embed_single_Inr:
  assumes "embed_single emb dims t e = (e', Inr v)"
  shows "emb [t] e = (e', Inr [v]) \<and> length v = dims"
  using assms by (auto simp: embed_single_def encode_vector_def split: prod.splits sum.splits list.splits if_splits)

lemma upsert_ok_index: "tables_ok db \<Longrightarrow> \<not> (rowid_of d db = None \<and> dmem (next_rowid db) (vi_index db))"
  using index_meta [of db "next_rowid db"] next_rowid_fresh [of db] by (auto simp: dmem_Some)

lemma upsert_cases:
  assumes "tables_ok db"
  obtains (failed) e' err where "upsert emb dims fault d t m (db, e) = ((db, e'), Inl err)"
  | (stored) e' v where "upsert emb dims fault d t m (db, e) = ((upsert_rows d (t, m, v) db, e'), Inr ())"
      "emb [t] e = (e', Inr [v])" "length v = dims"
proof (cases "embed_single emb dims t e")
  case (Pair e' r)
  show thesis
  proof (cases r)
    case (Inl x)
    with Pair show thesis by (intro failed) (simp add: upsert_def)
  next
    case (Inr v)
    show thesis
    proof (cases fault)
      case True
      with Pair Inr show thesis by (intro failed) (simp add: upsert_def)
    next
      case False
      from embed_single_Inr [OF Pair [unfolded Inr]] have "emb [t] e = (e', Inr [v])" "length v = dims" by simp_all
      moreover have "upsert emb dims fault d t m (db, e) = ((upsert_rows d (t, m, v) db, e'), Inr ())"
        using False Pair Inr upsert_ok_index [OF assms, of d] by (simp add: upsert_def)
      ultimately show thesis by (intro stored)
    qed
  qed
qed

lemma index_step_ok:
  assumes "\<And>t e e' v. emb [t] e = (e', Inr [v]) \<Longrightarrow> fits t v"
    and "tables_ok db" "vectors_fit fits dims db"
  shows "tables_ok (fst (index_step emb dims x (db, e))) \<and> vectors_fit fits dims (fst (index_step emb dims x (db, e)))"
proof (cases x)
  case (Upsert fault d t m)
  show ?thesis
  proof (cases rule: upsert_cases [OF assms(2), of emb dims fault d t m e, case_names failed stored])
    case (failed e' x)
    with assms Upsert show ?thesis by simp
  next
    case (stored e' v)
    then show ?thesis using assms(2,3) assms(1) [OF stored(2)] Upsert
      by (auto simp: vectors_fit_def vec_store.look_put vec_store.ok_put)
  qed
next
  case (Delete fault d)
  with assms show ?thesis by (auto simp: delete_doc_def vectors_fit_def vec_store.look_del vec_store.ok_del)
next
  case Clear
  then show ?thesis by (simp add: clear_index_def vectors_fit_def)
qed


end
