(* ===== verification/Embedder.thy ===== *)
theory Embedder
  imports Embed_Quota Contracts Vector_Index Metrics
begin

text \<open>
  The embedder of \<open>src/services/embedder.py\<close>: the budget check before a call, the reading of
  the response and the recording of the tokens it used. The call of the provider is the
  parameter \<open>provider\<close>, from the texts to its response or the exception it raises; the
  blocking and the asynchronous entry take the same steps.
\<close>

section \<open>The embedder\<close>

record embed_env =
  ee_cap :: int
  ee_fromiso :: "string \<Rightarrow> int option"
  ee_day :: int
  ee_today :: string
  ee_fault :: fault
  ee_tmp :: string
  ee_litellm :: "exn option"
  ee_provider :: "string list \<Rightarrow> json result"

type_synonym embed_world = "state_manager \<times> fs"

text \<open>\<open>_precheck\<close>: the estimate, or the refusal.\<close>

definition precheck :: "embed_env \<Rightarrow> string list \<Rightarrow> state_manager \<Rightarrow> int result" where
  "precheck env texts sm = (let n = estimate_tokens texts in
     case check_quota_tokens (ee_cap env) (ee_today env) n sm of
       Inr _ \<Rightarrow> Inr n
     | Inl x \<Rightarrow> Inl (if exn_type x = ''EmbedQuotaExceeded'' then unavailable (''embed quota exceeded: '' @ exn_msg x) else x))"

definition import_litellm :: "embed_env \<Rightarrow> unit result" where
  "import_litellm env = (case ee_litellm env of
      None \<Rightarrow> Inr ()
    | Some x \<Rightarrow> Inl (unavailable (''litellm not installed; cannot produce embeddings: '' @ exn_msg x)))"

definition json_float :: "json \<Rightarrow> real result" where
  "json_float v = (case v of
      JFloat x \<Rightarrow> Inr x
    | JInt i \<Rightarrow> Inr (of_int i)
    | JBool b \<Rightarrow> Inr (of_bool b)
    | JStr s \<Rightarrow> (case py_float s of Some x \<Rightarrow> Inr x | None \<Rightarrow> Inl (Exn ''ValueError'' s))
    | _ \<Rightarrow> Inl (Exn ''TypeError'' ''float()''))"

definition subscript :: "json \<Rightarrow> string \<Rightarrow> json result" where
  "subscript v k = (case v of
      JObj d \<Rightarrow> (case dget d k of Some x \<Rightarrow> Inr x | None \<Rightarrow> Inl (Exn ''KeyError'' k))
    | _ \<Rightarrow> Inl (Exn ''TypeError'' ''not subscriptable''))"

definition item_vector :: "json \<Rightarrow> vector result" where
  "item_vector item = bindr (subscript item ''embedding'') (\<lambda>v. bindr (iter_json v) (map_results json_float))"

text \<open>Every error of the shape of the response is one of the three that are caught.\<close>

definition response_vectors :: "json \<Rightarrow> vector list result" where
  "response_vectors response =
     (case bindr (subscript response ''data'') (\<lambda>v. bindr (iter_json v) (map_results item_vector)) of
        Inr vs \<Rightarrow> Inr vs | Inl x \<Rightarrow> Inl (unavailable ''malformed embedding response''))"

text \<open>The usage block; only a number text that is no number raises (\<open>ValueError\<close> is not caught).\<close>

definition used_tokens :: "json \<Rightarrow> int \<Rightarrow> int result" where
  "used_tokens response estimate = (case response of
      JObj d \<Rightarrow> (case dget d ''usage'' of
          Some (JObj u) \<Rightarrow>
            (let t = dgetd u ''total_tokens'' JNull; total = (if truthy t then t else dgetd u ''prompt_tokens'' JNull) in
             if total = JNull then Inr estimate
             else case json_int total of
                 Inr n \<Rightarrow> Inr n
               | Inl x \<Rightarrow> if exn_type x = ''TypeError'' \<or> exn_type x = ''KeyError'' then Inr estimate else Inl x)
        | _ \<Rightarrow> Inr estimate)
    | _ \<Rightarrow> Inr estimate)"

definition parse_and_record :: "embed_env \<Rightarrow> json \<Rightarrow> int \<Rightarrow> embed_world \<Rightarrow> embed_world \<times> vector list result" where
  "parse_and_record env response estimate = (\<lambda>(sm, w).
     case response_vectors response of
       Inl x \<Rightarrow> ((sm, w), Inl x)
     | Inr vs \<Rightarrow> (case used_tokens response estimate of
         Inl x \<Rightarrow> ((sm, w), Inl x)
       | Inr n \<Rightarrow> (case record_usage (ee_fromiso env) (ee_day env) (ee_today env) (ee_fault env) (ee_tmp env) n sm w of
             (sm', w', Inl x) \<Rightarrow> ((sm', w'), Inl x)
           | (sm', w', Inr _) \<Rightarrow> ((sm', w'), Inr vs))))"

definition embed_texts :: "embed_env \<Rightarrow> embed_world embedder" where
  "embed_texts env texts = (\<lambda>(sm, w).
     if texts = [] then ((sm, w), Inr [])
     else case bindr (precheck env texts sm) (\<lambda>n. bindr (import_litellm env) (\<lambda>_.
           case ee_provider env texts of
             Inr response \<Rightarrow> Inr (n, response)
           | Inl x \<Rightarrow> Inl (if is_exception x then unavailable (''embedding call failed: '' @ exn_msg x) else x))) of
       Inl x \<Rightarrow> ((sm, w), Inl x)
     | Inr (n, response) \<Rightarrow> parse_and_record env response n (sm, w))"

text \<open>
  \<open>build_default_embedder\<close>; the constructor of the embedder without quota or state manager
  raises.
\<close>

definition LiteLLMEmbedder :: "'q option \<Rightarrow> 's option \<Rightarrow> ('s \<Rightarrow> 'q) \<Rightarrow> 'q result" where
  "LiteLLMEmbedder quota state_manager mk = (case (quota, state_manager) of
      (None, None) \<Rightarrow> Inl (Exn ''ValueError'' ''LiteLLMEmbedder requires either a shared EmbedQuota or a StateManager'')
    | (None, Some s) \<Rightarrow> Inr (mk s)
    | (Some q, _) \<Rightarrow> Inr q)"

definition build_default_embedder :: "bool \<Rightarrow> string option \<Rightarrow> string \<Rightarrow> 's option \<Rightarrow> 's option" where
  "build_default_embedder test_mode api_key backend state_manager =
     (if test_mode then None
      else if api_key = None \<or> api_key = Some [] then None
      else if \<not> List.member VECTOR_NAMES (lower (strip backend)) then None
      else state_manager)"

section \<open>What a call charges\<close>

lemma estimate_pos: "texts \<noteq> [] \<Longrightarrow> 0 < estimate_tokens texts"
proof (induction texts)
  case (Cons t ts)
  show ?case
  proof (cases "ts = []")
    case False
    with Cons show ?thesis by (simp add: estimate_tokens_def)
  qed (simp add: estimate_tokens_def)
qed simp

lemma precheck_cases:
  assumes "used_today (ee_today env) sm = Inr u" "texts \<noteq> []"
  shows "precheck env texts sm = (if u + estimate_tokens texts \<le> ee_cap env then Inr (estimate_tokens texts)
    else Inl (unavailable (''embed quota exceeded: daily embed cap '' @ str_of_int (ee_cap env) @ '' would be exceeded (used='' @
      str_of_int u @ '', requested='' @ str_of_int (estimate_tokens texts) @ '')'')))"
  using assms estimate_pos [OF assms(2)] by (simp add: precheck_def check_quota_tokens_def Let_def)

lemma record_usage_cases:
  assumes "fromiso today = Some day" "used_today today sm = Inr u"
    "record_usage fromiso day today flt tmp n sm w = (sm', w', r)"
  shows "(n \<le> 0 \<and> sm' = sm \<and> w' = w \<and> r = Inr u) \<or> (0 < n \<and> used_today today sm' = Inr (u + n))"
proof (cases "n \<le> 0")
  case True
  with assms(2,3) show ?thesis by (simp add: record_usage_def)
next
  case False
  then have "used_today today (fst (record_usage fromiso day today flt tmp n sm w)) = Inr (u + n)"
    using assms(1,2) by (intro used_after_record) simp_all
  with assms(3) False show ?thesis by simp
qed

text \<open>The embedder stays within its budget and charges what it used. From a readable budget,
  a call that would pass the cap by its estimate is refused as unavailable and changes
  nothing; vectors are returned only for a request within the cap and a well-shaped
  response, and then the budget has grown by the tokens the response reports (or the
  estimate); a call that raises leaves the budget, or has charged it when only the write of
  the state file failed.\<close>

theorem embedder_charges:
  assumes "ee_fromiso env (ee_today env) = Some (ee_day env)" and "used_today (ee_today env) sm = Inr u"
    and "embed_texts env texts (sm, w) = ((sm', w'), r)"
  shows "if texts = [] then r = Inr [] \<and> sm' = sm \<and> w' = w
    else if ee_cap env < u + estimate_tokens texts then (\<exists>msg. r = Inl (unavailable msg)) \<and> sm' = sm \<and> w' = w
    else case r of
      Inr vs \<Rightarrow> \<exists>response n. ee_provider env texts = Inr response \<and> response_vectors response = Inr vs
        \<and> used_tokens response (estimate_tokens texts) = Inr n \<and> used_today (ee_today env) sm' = Inr (u + max 0 n)
    | Inl x \<Rightarrow> sm' = sm \<and> w' = w \<or> (\<exists>n. 0 < n \<and> used_today (ee_today env) sm' = Inr (u + n))"
proof (cases "texts = [] \<or> ee_cap env < u + estimate_tokens texts")
  case True
  with assms(2,3) show ?thesis
    by (auto simp: embed_texts_def precheck_cases)
next
  case False
  let ?n = "estimate_tokens texts"
  have p: "precheck env texts sm = Inr ?n" using False assms(2) by (simp add: precheck_cases)
  show ?thesis
  proof (cases "\<exists>response vs n. import_litellm env = Inr () \<and> ee_provider env texts = Inr response
      \<and> response_vectors response = Inr vs \<and> used_tokens response ?n = Inr n")
    case False
    then have "sm' = sm \<and> w' = w \<and> (\<exists>x. r = Inl x)"
      using assms(3) \<open>\<not> (texts = [] \<or> _)\<close> p
      by (cases "import_litellm env"; cases "ee_provider env texts")
        (auto simp: embed_texts_def parse_and_record_def split: sum.splits dest: sym)
    with \<open>\<not> (texts = [] \<or> _)\<close> show ?thesis by auto
  next
    case True
    then obtain response vs n where rv: "import_litellm env = Inr ()" "ee_provider env texts = Inr response"
      "response_vectors response = Inr vs" "used_tokens response ?n = Inr n" by blast
    obtain sm1 w1 r1 where rec: "record_usage (ee_fromiso env) (ee_day env) (ee_today env) (ee_fault env) (ee_tmp env) n sm w = (sm1, w1, r1)"
      by (metis prod_cases3)
    have eq: "((sm', w'), r) = (case r1 of Inl x \<Rightarrow> ((sm1, w1), Inl x) | Inr _ \<Rightarrow> ((sm1, w1), Inr vs))"
      using assms(3) False p rv rec by (auto simp: embed_texts_def parse_and_record_def split: sum.splits)
    have c: "(n \<le> 0 \<and> sm1 = sm \<and> w1 = w \<and> r1 = Inr u) \<or> (0 < n \<and> used_today (ee_today env) sm1 = Inr (u + n))"
      by (rule record_usage_cases [OF assms(1,2) rec])
    show ?thesis
    proof (cases r1)
      case (Inl x)
      with eq c have "0 < n \<and> used_today (ee_today env) sm' = Inr (u + n)" "r = Inl x" by auto
      with False show ?thesis by auto
    next
      case (Inr i)
      with eq have "sm' = sm1" "r = Inr vs" by auto
      with c assms(2) have "used_today (ee_today env) sm' = Inr (u + max 0 n)" by auto
      with False rv \<open>r = Inr vs\<close> show ?thesis by auto
    qed
  qed
qed

definition demo_embed_env :: embed_env where
  "demo_embed_env = \<lparr>ee_cap = 10, ee_fromiso = demo_day, ee_day = 1, ee_today = ''2024-01-02'', ee_fault = NoFault, ee_tmp = ''t'',
     ee_litellm = None, ee_provider = (\<lambda>ts. Inr (JObj [(''data'', JArr [JObj [(''embedding'', JArr [JFloat 1])]])]))\<rparr>"

theorem embedder_charges_witness:
  "used_today ''2024-01-02'' (fst (fst (embed_texts demo_embed_env [''abcdefgh''] (demo_manager ''s'' [], \<lparr>docs = [], logs = []\<rparr>)))) = Inr 2"
proof -
  let ?s = "demo_manager ''s'' []"
  obtain sm' w' r where e: "embed_texts demo_embed_env [''abcdefgh''] (?s, \<lparr>docs = [], logs = []\<rparr>) = ((sm', w'), r)" by (metis prod.exhaust)
  have u: "used_today (ee_today demo_embed_env) ?s = Inr 0"
    by (simp add: used_today_def bucket_def demo_manager_def dgetd_def)
  have "r = Inr [[1]]"
    using e by (auto simp: embed_texts_def demo_embed_env_def precheck_def check_quota_tokens_def used_today_def bucket_def demo_manager_def
      dgetd_def estimate_tokens_def import_litellm_def parse_and_record_def response_vectors_def subscript_def iter_json_def
      item_vector_def json_float_def used_tokens_def record_usage_def save_bucket_def atomic_write_json_def Let_def split: prod.splits)
  moreover have "ee_fromiso demo_embed_env (ee_today demo_embed_env) = Some (ee_day demo_embed_env)"
    by (simp add: demo_embed_env_def demo_day_def)
  ultimately show ?thesis using embedder_charges [OF _ u e] unfolding e
    by (simp add: demo_embed_env_def estimate_tokens_def used_tokens_def dgetd_def)
qed

end
