(* ===== verification/Retrieval.thy ===== *)
theory Retrieval
  imports Vector_Index Filesystem Regex
begin

text \<open>
  The retrieval of planning context of \<open>src/services/retrieval_context.py\<close>: the validated
  query, the documents of the approved corpora, keyword and vector retrieval with the
  degradation from one to the other, the synchronisation of the index with the files, the
  cache and the metrics. The llama-index retriever (if installed), the digest and the clock
  are arguments; scores are exact reals.
\<close>

section \<open>Metrics\<close>

record retrieval_metrics =
  rm_queries :: nat
  rm_hits :: nat
  rm_misses :: nat
  rm_latency :: real
  rm_errors :: nat
  rm_scores :: "real list"

definition RetrievalMetrics :: retrieval_metrics where
  "RetrievalMetrics = \<lparr>rm_queries = 0, rm_hits = 0, rm_misses = 0, rm_latency = 0, rm_errors = 0, rm_scores = []\<rparr>"

definition record_query :: "real \<Rightarrow> bool \<Rightarrow> retrieval_metrics \<Rightarrow> retrieval_metrics" where
  "record_query latency_ms cache_hit m =
     (let m1 = m\<lparr>rm_queries := rm_queries m + 1, rm_latency := rm_latency m + latency_ms\<rparr>
      in if cache_hit then m1\<lparr>rm_hits := rm_hits m1 + 1\<rparr> else m1\<lparr>rm_misses := rm_misses m1 + 1\<rparr>)"

definition record_error :: "retrieval_metrics \<Rightarrow> retrieval_metrics" where
  "record_error m = m\<lparr>rm_errors := rm_errors m + 1\<rparr>"

definition record_relevance :: "real \<Rightarrow> retrieval_metrics \<Rightarrow> retrieval_metrics" where
  "record_relevance score m = m\<lparr>rm_scores := rm_scores m @ [score]\<rparr>"

definition average_latency_ms :: "retrieval_metrics \<Rightarrow> real" where
  "average_latency_ms m = (if rm_queries m = 0 then 0 else rm_latency m / real (rm_queries m))"

definition average_relevance :: "retrieval_metrics \<Rightarrow> real" where
  "average_relevance m = (if rm_scores m = [] then 0 else sum_list (rm_scores m) / real (length (rm_scores m)))"

definition retrieval_as_dict :: "retrieval_metrics \<Rightarrow> json" where
  "retrieval_as_dict m = JObj [(''total_queries'', JInt (int (rm_queries m))), (''cache_hits'', JInt (int (rm_hits m))),
     (''cache_misses'', JInt (int (rm_misses m))),
     (''cache_hit_rate'', JFloat (if 0 < rm_queries m then real (rm_hits m) / real (rm_queries m) else 0)),
     (''average_latency_ms'', JFloat (average_latency_ms m)), (''average_relevance'', JFloat (average_relevance m)),
     (''errors'', JInt (int (rm_errors m)))]"

section \<open>The cache\<close>

definition RETRIEVAL_CACHE_TTL :: real where
  "RETRIEVAL_CACHE_TTL = 300"

type_synonym retrieval_cache = "(string, json \<times> real) dict"

definition make_key :: "string \<Rightarrow> string list \<Rightarrow> int \<Rightarrow> string" where
  "make_key q corpus top_k = q @ '':'' @ join '':'' (sort corpus) @ '':'' @ str_of_int top_k"

definition cache_get :: "real \<Rightarrow> real \<Rightarrow> string \<Rightarrow> string list \<Rightarrow> int \<Rightarrow> retrieval_cache \<Rightarrow> retrieval_cache \<times> json option" where
  "cache_get ttl now q corpus top_k c = (let k = make_key q corpus top_k in case dget c k of
      None \<Rightarrow> (c, None)
    | Some (result, ts) \<Rightarrow> if now - ts < ttl then (c, Some result) else (ddel k c, None))"

definition cache_set :: "real \<Rightarrow> string \<Rightarrow> string list \<Rightarrow> int \<Rightarrow> json \<Rightarrow> retrieval_cache \<Rightarrow> retrieval_cache" where
  "cache_set now q corpus top_k result c = dset (make_key q corpus top_k) (result, now) c"

definition cache_metrics :: "real \<Rightarrow> real \<Rightarrow> retrieval_cache \<Rightarrow> json" where
  "cache_metrics ttl now c = (let expired = count_if (\<lambda>(r, ts). ttl \<le> now - ts) (dvalues c) in
     JObj [(''size'', JInt (int (length c))), (''expired'', JInt (int expired)), (''active'', JInt (int (length c) - int expired))])"

section \<open>Queries\<close>

definition APPROVED_CORPORA :: "string list" where
  "APPROVED_CORPORA = [''specs'', ''plans'', ''history'']"

definition QUERY_TYPE_CORPUS_MAP :: "(string, string list) dict" where
  "QUERY_TYPE_CORPUS_MAP = [(''specs'', [''specs'']), (''plans'', [''plans'']), (''history'', [''history'']),
     (''adr'', [''specs'', ''plans'']), (''patterns'', [''specs'', ''history'']), (''guidelines'', [''specs'']),
     (''all'', APPROVED_CORPORA)]"

record retrieval_query =
  rq_query :: string
  rq_corpus :: "string list"
  rq_top_k :: int
  rq_type :: "string option"

fun normalize_corpus :: "string list \<Rightarrow> string list \<Rightarrow> string list result" where
  "normalize_corpus [] acc = Inr acc"
| "normalize_corpus (item # items) acc = (let name = lower (strip item) in
     if \<not> List.member APPROVED_CORPORA name then Inl (validation_error (''Unsupported retrieval corpus: '' @ item))
     else normalize_corpus items (if List.member acc name then acc else acc @ [name]))"

text \<open>The constructor; a known query type replaces the corpus.\<close>

definition RetrievalQuery :: "string \<Rightarrow> string list option \<Rightarrow> int \<Rightarrow> string option \<Rightarrow> retrieval_query result" where
  "RetrievalQuery q corpus top_k query_type =
     (if q = [] then Inl (validation_error ''query'')
      else bindr (case corpus of None \<Rightarrow> Inr APPROVED_CORPORA | Some c \<Rightarrow> normalize_corpus c []) (\<lambda>cs.
        if top_k < 1 \<or> 10 < top_k then Inl (validation_error ''top_k'')
        else Inr \<lparr>rq_query = q,
          rq_corpus = (case query_type of None \<Rightarrow> cs | Some t \<Rightarrow> dgetd QUERY_TYPE_CORPUS_MAP t cs),
          rq_top_k = top_k, rq_type = query_type\<rparr>))"

section \<open>Documents\<close>

definition is_file :: "file_tree \<Rightarrow> file_path \<Rightarrow> bool" where
  "is_file t p = (case stat t p of Some (TextFile s) \<Rightarrow> True | Some (BinaryFile n) \<Rightarrow> True | _ \<Rightarrow> False)"

text \<open>\<open>sorted(dir.glob("**/*.md"))\<close>: the double star does not enter linked directories.\<close>

definition md_files :: "file_tree \<Rightarrow> file_path \<Rightarrow> file_path list" where
  "md_files t dir = (case real_path t [] [] dir of
      None \<Rightarrow> []
    | Some r \<Rightarrow> sort (map (\<lambda>p. dir @ drop (length r) p)
        (filter (\<lambda>p. strict_prefix r p \<and> glob_match ''*.md'' (last p)) (dkeys t))))"

definition corpus_files :: "file_tree \<Rightarrow> file_path \<Rightarrow> string \<Rightarrow> (string \<times> file_path) list" where
  "corpus_files t root_dir c =
     (if c = ''specs'' then map (Pair c) (filter (is_file t) (md_files t (root_dir @ [''dcs'', ''superpowers'', ''specs''])))
      else if c = ''plans'' then map (Pair c) (filter (is_file t) (md_files t (root_dir @ [''dcs'', ''superpowers'', ''plans''])))
      else if c = ''history'' then (if is_file t (root_dir @ [''.swarm_history'']) then [(c, root_dir @ [''.swarm_history''])] else [])
      else [])"

definition collect_corpus_files :: "file_tree \<Rightarrow> file_path \<Rightarrow> string list \<Rightarrow> (string \<times> file_path) list" where
  "collect_corpus_files t root_dir corpus = concat (map (corpus_files t root_dir) corpus)"

record document =
  dc_path :: string
  dc_corpus :: string
  dc_text :: string

definition doc_id :: "file_path \<Rightarrow> file_path \<Rightarrow> string" where
  "doc_id root_dir p = join ''/'' (drop (length root_dir) p)"

definition read_stripped :: "file_tree \<Rightarrow> file_path \<Rightarrow> string result" where
  "read_stripped t p = (case stat t p of
      None \<Rightarrow> Inl (Exn ''FileNotFoundError'' [])
    | Some e \<Rightarrow> bindr (read_text e) (\<lambda>s. Inr (strip s)))"

fun load_documents :: "file_tree \<Rightarrow> file_path \<Rightarrow> (string \<times> file_path) list \<Rightarrow> document list result" where
  "load_documents t root_dir [] = Inr []"
| "load_documents t root_dir ((c, p) # fs) = bindr (read_stripped t p) (\<lambda>content.
     bindr (load_documents t root_dir fs) (\<lambda>ds.
       Inr (if content = [] then ds else \<lparr>dc_path = doc_id root_dir p, dc_corpus = c, dc_text = content\<rparr> # ds)))"

section \<open>Text\<close>

text \<open>The words of \<open>re.split(r"\W+", s)\<close> that are not empty, and \<open>s.find(token)\<close>.\<close>

fun runs_of :: "(char \<Rightarrow> bool) \<Rightarrow> string \<Rightarrow> string \<Rightarrow> string list" where
  "runs_of P [] cur = (if cur = [] then [] else [rev cur])"
| "runs_of P (c # cs) cur = (if P c then runs_of P cs (c # cur)
     else if cur = [] then runs_of P cs [] else rev cur # runs_of P cs [])"

fun find_text :: "string \<Rightarrow> string \<Rightarrow> nat option" where
  "find_text tok [] = (if tok = [] then Some 0 else None)"
| "find_text tok (c # cs) = (if prefix tok (c # cs) then Some 0 else map_option Suc (find_text tok cs))"

definition SNIPPET_LIMIT :: nat where
  "SNIPPET_LIMIT = 240"

fun snippet_at :: "nat \<Rightarrow> string \<Rightarrow> string list \<Rightarrow> string option" where
  "snippet_at limit s [] = None"
| "snippet_at limit s (tok # toks) = (case find_text tok (lower s) of
      None \<Rightarrow> snippet_at limit s toks
    | Some i \<Rightarrow> (let start = i - limit div 3; sn = take (min (start + limit) (length s) - start) (drop start s)
        in Some (if start = 0 then sn else ''...'' @ sn)))"

definition build_snippet :: "string \<Rightarrow> string \<Rightarrow> nat \<Rightarrow> string" where
  "build_snippet text q limit =
     (let s = strip (collapse_ws text) in
      if length s \<le> limit then s
      else case snippet_at limit s (runs_of is_word (lower q) []) of
          Some sn \<Rightarrow> sn
        | None \<Rightarrow> rstrip (take limit s) @ ''...'')"

definition tokenize :: "string \<Rightarrow> string list" where
  "tokenize text = map lower (filter (\<lambda>w. 2 \<le> length w) (runs_of is_alpha text []))"

definition QUERY_EXPANSIONS :: "(string, string list) dict" where
  "QUERY_EXPANSIONS = [
     (''python'', [''python'', ''py'', ''pythonic'']), (''api'', [''api'', ''rest'', ''endpoint'', ''routes'']),
     (''test'', [''test'', ''testing'', ''pytest'', ''unittest'']), (''database'', [''database'', ''db'', ''sql'', ''storage'']),
     (''validation'', [''validation'', ''validate'', ''validator'']), (''async'', [''async'', ''await'', ''asyncio'', ''coroutine'']),
     (''error'', [''error'', ''exception'', ''raise'', ''error handling'']),
     (''config'', [''config'', ''configuration'', ''settings'', ''env'']), (''schema'', [''schema'', ''model'', ''pydantic'', ''structure''])]"

fun keep_first :: "string list \<Rightarrow> string list \<Rightarrow> string list" where
  "keep_first seen [] = []"
| "keep_first seen (t # ts) = (if List.member seen t then keep_first seen ts else t # keep_first (t # seen) ts)"

definition expand_query :: "string \<Rightarrow> string list \<Rightarrow> string" where
  "expand_query q domain_hints =
     join '' '' (keep_first [] (q # concat (map (\<lambda>(category, terms).
        if List.member domain_hints category \<or> list_ex (contains (lower q)) terms then terms else []) QUERY_EXPANSIONS)))"

definition compute_relevance_score :: "json \<Rightarrow> real" where
  "compute_relevance_score raw = (case num_of raw of
      None \<Rightarrow> 1 / 2
    | Some x \<Rightarrow> if x < 0 then (x + 1) / 2 else min x 1)"

section \<open>Keyword retrieval\<close>

text \<open>The dictionaries of the sources, before their relevance is added.\<close>

record source =
  so_path :: json
  so_corpus :: json
  so_score :: json
  so_snippet :: string

type_synonym llama = "document list \<Rightarrow> string \<Rightarrow> (json \<times> json \<times> json \<times> string) list result"

definition jaccard :: "string list \<Rightarrow> string list \<Rightarrow> real" where
  "jaccard a b = (let overlap = count_if (List.member b) (remdups a); union = length (remdups (a @ b))
     in if union = 0 then 0 else real overlap / real union)"

definition keyword_scores :: "string \<Rightarrow> document list \<Rightarrow> (real \<times> document) list" where
  "keyword_scores q dcs = map (\<lambda>d. (jaccard (tokenize q) (tokenize (dc_text d)), d))
     (filter (\<lambda>d. tokenize (dc_text d) \<noteq> []) dcs)"

definition keyword_rank :: "retrieval_query \<Rightarrow> document list \<Rightarrow> source list" where
  "keyword_rank r dcs = map (\<lambda>(score, d). \<lparr>so_path = JStr (dc_path d), so_corpus = JStr (dc_corpus d),
       so_score = JFloat (round_to 4 score), so_snippet = build_snippet (dc_text d) (rq_query r) SNIPPET_LIMIT\<rparr>)
     (take (nat (rq_top_k r)) (sort_desc fst (keyword_scores (rq_query r) dcs)))"

definition keyword_retrieve :: "llama option \<Rightarrow> file_tree \<Rightarrow> file_path \<Rightarrow> retrieval_query \<Rightarrow> source list result" where
  "keyword_retrieve llama t root_dir r =
     bindr (load_documents t root_dir (collect_corpus_files t root_dir (rq_corpus r))) (\<lambda>dcs.
       if dcs = [] then Inr []
       else case llama of
         None \<Rightarrow> Inr (keyword_rank r dcs)
       | Some retriever \<Rightarrow> bindr (retriever dcs (rq_query r)) (\<lambda>nodes.
           Inr (map (\<lambda>(path, corpus, score, text). \<lparr>so_path = path, so_corpus = corpus, so_score = score,
              so_snippet = build_snippet text (rq_query r) SNIPPET_LIMIT\<rparr>) (take (nat (rq_top_k r)) nodes))))"

section \<open>Vector retrieval\<close>

text \<open>
  The state of the module and the index: the cache, the metrics, the content digests, the
  tables of the index and the world of the embedder; and what they depend on.
\<close>

record 'e retrieval =
  rg_cache :: retrieval_cache
  rg_metrics :: retrieval_metrics
  rg_hashes :: "(string, string) dict"
  rg_db :: vec_db
  rg_world :: 'e

record 'e retrieval_env =
  re_root :: file_path
  re_tree :: file_tree
  re_setting :: string
  re_installed :: bool
  re_load_error :: "exn option"
  re_embedder :: "'e embedder option"
  re_dims :: nat
  re_nearest :: nearest
  re_sha :: "string \<Rightarrow> string"
  re_frepr :: "real \<Rightarrow> string"
  re_llama :: "llama option"
  re_fault :: "string \<Rightarrow> bool"

type_synonym 'e index_state = "(string, string) dict \<times> vec_db \<times> 'e"

definition persists :: "'e backend \<Rightarrow> bool" where
  "persists b = (case b of NullVectorIndex \<Rightarrow> False | SqliteVecBackend emb dims \<Rightarrow> True)"

text \<open>One file of the synchronisation: unreadable and empty files are skipped, an unchanged
  digest spares the embedding, a failed insertion takes the digest back.\<close>

definition sync_file ::
  "'e retrieval_env \<Rightarrow> 'e backend \<Rightarrow> string \<times> file_path \<Rightarrow> 'e index_state \<Rightarrow> 'e index_state \<times> string option result" where
  "sync_file env b f = (\<lambda>(h, db, e). case read_stripped (re_tree env) (snd f) of
      Inl x \<Rightarrow> ((h, db, e), Inr None)
    | Inr text \<Rightarrow> if text = [] then ((h, db, e), Inr None)
        else (let d = doc_id (re_root env) (snd f); sha = re_sha env text in
          if persists b \<and> dget h d = Some sha then ((h, db, e), Inr (Some d))
          else (let h1 = (if persists b then dset d sha h else h) in
            case backend_upsert b (re_fault env d) d text [(''corpus'', JStr (fst f)), (''path'', JStr d)] (db, e) of
              ((db', e'), Inr _) \<Rightarrow> ((h1, db', e'), Inr (Some d))
            | ((db', e'), Inl x) \<Rightarrow> ((if persists b \<and> is_exception x then ddel d h1 else h1, db', e'), Inl x))))"

fun sync_files ::
  "'e retrieval_env \<Rightarrow> 'e backend \<Rightarrow> (string \<times> file_path) list \<Rightarrow> 'e index_state \<Rightarrow> 'e index_state \<times> string list result" where
  "sync_files env b [] s = (s, Inr [])"
| "sync_files env b (f # fs) s = (case sync_file env b f s of
      (s', Inl x) \<Rightarrow> (s', Inl x)
    | (s', Inr d) \<Rightarrow> (case sync_files env b fs s' of
        (s'', Inl x) \<Rightarrow> (s'', Inl x)
      | (s'', Inr ds) \<Rightarrow> (s'', Inr (case d of None \<Rightarrow> ds | Some i \<Rightarrow> i # ds))))"

text \<open>The removal of the documents of the synchronised corpora whose files are gone.\<close>

fun drop_stale :: "(string \<Rightarrow> bool) \<Rightarrow> string list \<Rightarrow> 'e index_state \<Rightarrow> 'e index_state \<times> unit result" where
  "drop_stale fault [] s = (s, Inr ())"
| "drop_stale fault (d # ds) (h, db, e) = (case delete_doc (fault d) d db of
      (db', Inl x) \<Rightarrow> ((h, db', e), Inl x)
    | (db', Inr _) \<Rightarrow> drop_stale fault ds (ddel d h, db', e))"

definition sync_corpus_to_backend ::
  "'e retrieval_env \<Rightarrow> 'e backend \<Rightarrow> string list \<Rightarrow> 'e index_state \<Rightarrow> 'e index_state \<times> nat result" where
  "sync_corpus_to_backend env b corpus s =
     (case sync_files env b (collect_corpus_files (re_tree env) (re_root env) corpus) s of
        (s', Inl x) \<Rightarrow> (s', Inl x)
      | ((h, db, e), Inr seen) \<Rightarrow>
          if \<not> persists b then ((h, db, e), Inr (length (remdups seen)))
          else (case drop_stale (re_fault env) (filter (\<lambda>d. \<not> List.member seen d) (known_doc_ids (re_frepr env) (Some corpus) db)) (h, db, e) of
              (s'', Inl x) \<Rightarrow> (s'', Inl x)
            | (s'', Inr _) \<Rightarrow> (s'', Inr (length (remdups seen)))))"

definition source_of_hit :: "string \<Rightarrow> search_hit \<Rightarrow> source" where
  "source_of_hit q h = \<lparr>so_path = dgetd (sh_metadata h) ''path'' (JStr (sh_doc_id h)),
     so_corpus = dgetd (sh_metadata h) ''corpus'' JNull, so_score = JFloat (sh_score h),
     so_snippet = build_snippet (sh_text h) q SNIPPET_LIMIT\<rparr>"

definition vector_retrieve :: "'e retrieval_env \<Rightarrow> retrieval_query \<Rightarrow> 'e index_state \<Rightarrow> 'e index_state \<times> source list result" where
  "vector_retrieve env r s =
     (case resolve_vector_backend (re_installed env) (re_load_error env) (re_setting env) (re_embedder env) (re_dims env) of
        Inl x \<Rightarrow> (s, Inl x)
      | Inr b \<Rightarrow> (case sync_corpus_to_backend env b (rq_corpus r) s of
          (s', Inl x) \<Rightarrow> (s', Inl x)
        | ((h, db, e), Inr n) \<Rightarrow> if n = 0 then ((h, db, e), Inr [])
            else (case backend_query b (re_nearest env) (rq_query r) (rq_top_k r) (db, e) of
                ((db', e'), Inl x) \<Rightarrow> ((h, db', e'), Inl x)
              | ((db', e'), Inr hits) \<Rightarrow> ((h, db', e'), Inr (map (source_of_hit (rq_query r)) hits)))))"

section \<open>The entry\<close>

definition retrieve_sources :: "'e retrieval_env \<Rightarrow> retrieval_query \<Rightarrow> 'e index_state \<Rightarrow> 'e index_state \<times> source list result" where
  "retrieve_sources env r s =
     (let keyword = keyword_retrieve (re_llama env) (re_tree env) (re_root env) r in
      if \<not> List.member VECTOR_NAMES (backend_setting (re_setting env)) then (s, keyword)
      else case vector_retrieve env r s of
          (s', Inr sources) \<Rightarrow> (s', Inr sources)
        | (s', Inl x) \<Rightarrow> (s', if is_exception x then keyword else Inl x))"

definition source_json :: "source \<Rightarrow> json" where
  "source_json so = JObj [(''path'', so_path so), (''corpus'', so_corpus so), (''score'', so_score so),
     (''snippet'', JStr (so_snippet so)), (''relevance'', JFloat (compute_relevance_score (so_score so)))]"

definition result_json :: "retrieval_query \<Rightarrow> source list \<Rightarrow> real \<Rightarrow> string \<Rightarrow> json list option \<Rightarrow> json" where
  "result_json r sources latency_ms backend graph = JObj
     ([(''query'', JStr (rq_query r)), (''corpus'', JArr (map JStr (rq_corpus r))), (''sources'', JArr (map source_json sources)),
       (''metrics'', JObj [(''latency_ms'', JFloat latency_ms), (''backend'', JStr backend), (''sources_count'', JInt (int (length sources)))])]
      @ (case graph of None \<Rightarrow> [] | Some g \<Rightarrow> [(''graph_context'', JArr g)]))"

text \<open>
  The clock is read when the cache is looked up, before and after the scoring, and when the
  result is stored. \<open>graph\<close> is the memory graph's search, when a graph was given.
\<close>

record clock =
  ck_get :: real
  ck_start :: real
  ck_end :: real
  ck_set :: real

definition retrieve_context ::
  "'e retrieval_env \<Rightarrow> clock \<Rightarrow> bool \<Rightarrow> (string \<Rightarrow> int \<Rightarrow> json list result) option \<Rightarrow> retrieval_query \<Rightarrow> 'e retrieval
    \<Rightarrow> 'e retrieval \<times> json result" where
  "retrieve_context env ck use_cache graph r g =
     (case retrieve_sources env r (rg_hashes g, rg_db g, rg_world g) of
        ((h, db, e), Inl x) \<Rightarrow> (g\<lparr>rg_hashes := h, rg_db := db, rg_world := e\<rparr>, Inl x)
      | ((h, db, e), Inr sources) \<Rightarrow>
          (let g1 = g\<lparr>rg_hashes := h, rg_db := db, rg_world := e\<rparr>;
               (c, cached) = (if use_cache then cache_get RETRIEVAL_CACHE_TTL (ck_get ck) (rq_query r) (rq_corpus r) (rq_top_k r) (rg_cache g1)
                 else (rg_cache g1, None));
               g2 = g1\<lparr>rg_cache := c\<rparr>
           in case cached of
               Some result \<Rightarrow> (g2\<lparr>rg_metrics := record_query 0 True (rg_metrics g2)\<rparr>, Inr result)
             | None \<Rightarrow>
                 (let m = fold (\<lambda>so. record_relevance (compute_relevance_score (so_score so))) sources (rg_metrics g2);
                      latency_ms = (ck_end ck - ck_start ck) * 1000;
                      graph_context = map_option (\<lambda>find. case find (rq_query r) (rq_top_k r) of Inr ns \<Rightarrow> ns | Inl x \<Rightarrow> []) graph;
                      result = result_json r sources latency_ms (backend_setting (re_setting env)) graph_context
                  in (g2\<lparr>rg_metrics := record_query latency_ms False m,
                        rg_cache := (if use_cache then cache_set (ck_set ck) (rq_query r) (rq_corpus r) (rq_top_k r) result (rg_cache g2)
                          else rg_cache g2)\<rparr>, Inr result))))"

definition planning_arguments :: "string \<Rightarrow> string list option \<Rightarrow> int \<Rightarrow> (string, json) dict" where
  "planning_arguments q corpus top_k = [(''query'', JStr q),
     (''corpus'', JArr (map JStr (case corpus of None \<Rightarrow> APPROVED_CORPORA | Some c \<Rightarrow> if c = [] then APPROVED_CORPORA else c))),
     (''top_k'', JInt top_k)]"

end
