(* ===== verification/Retrieval_Properties.thy ===== *)
theory Retrieval_Properties
  imports Retrieval
begin

text \<open>
  What retrieval promises: validated queries, ranked and bounded keyword results, the
  degradation to keywords without an index, the synchronisation of the index with the files,
  and what the key of the cache does not tell apart.
\<close>

section \<open>Queries\<close>

lemma normalize_corpus_ok:
  "normalize_corpus items acc = Inr cs \<Longrightarrow> distinct acc \<Longrightarrow> list_all (List.member APPROVED_CORPORA) acc \<Longrightarrow>
    distinct cs \<and> list_all (List.member APPROVED_CORPORA) cs"
proof (induction items arbitrary: acc)
  case (Cons item items)
  let ?n = "lower (strip item)"
  from Cons.prems(1) have ok: "List.member APPROVED_CORPORA ?n"
    and rest: "normalize_corpus items (if List.member acc ?n then acc else acc @ [?n]) = Inr cs"
    by (auto simp: Let_def split: if_splits)
  show ?case by (rule Cons.IH [OF rest]) (use Cons.prems(2,3) ok in auto)
qed simp

definition query_ok :: "retrieval_query \<Rightarrow> bool" where
  "query_ok r \<longleftrightarrow> rq_query r \<noteq> [] \<and> 1 \<le> rq_top_k r \<and> rq_top_k r \<le> 10 \<and> distinct (rq_corpus r)
     \<and> list_all (List.member APPROVED_CORPORA) (rq_corpus r)"

lemma type_map_ok: "dget QUERY_TYPE_CORPUS_MAP t = Some cs \<Longrightarrow> distinct cs \<and> list_all (List.member APPROVED_CORPORA) cs"
  by (auto simp: QUERY_TYPE_CORPUS_MAP_def APPROVED_CORPORA_def split: if_splits)

text \<open>C21: A query that is accepted is within bounds. Its text is not empty, it asks for one to ten
  results, and its corpora are approved ones, each once, also when a query type replaced
  them.\<close>

theorem retrieval_query_valid:
  assumes "RetrievalQuery q corpus top_k query_type = Inr r"
  shows "query_ok r \<and> rq_query r = q \<and> rq_top_k r = top_k"
proof -
  have b: "q \<noteq> []" using assms by (cases "q = []") (simp_all add: RetrievalQuery_def)
  with assms have "bindr (case corpus of None \<Rightarrow> Inr APPROVED_CORPORA | Some c \<Rightarrow> normalize_corpus c []) (\<lambda>cs.
        if top_k < 1 \<or> 10 < top_k then Inl (validation_error ''top_k'')
        else Inr \<lparr>rq_query = q, rq_corpus = (case query_type of None \<Rightarrow> cs | Some t \<Rightarrow> dgetd QUERY_TYPE_CORPUS_MAP t cs),
          rq_top_k = top_k, rq_type = query_type\<rparr>) = Inr r"
    unfolding RetrievalQuery_def by simp
  then obtain cs where cs: "(case corpus of None \<Rightarrow> Inr APPROVED_CORPORA | Some c \<Rightarrow> normalize_corpus c []) = Inr cs"
    and e: "(if top_k < 1 \<or> 10 < top_k then Inl (validation_error ''top_k'')
        else Inr \<lparr>rq_query = q, rq_corpus = (case query_type of None \<Rightarrow> cs | Some t \<Rightarrow> dgetd QUERY_TYPE_CORPUS_MAP t cs),
          rq_top_k = top_k, rq_type = query_type\<rparr>) = Inr r"
    unfolding bindr_Inr_iff by blast
  have k: "\<not> (top_k < 1 \<or> 10 < top_k)" using e by (cases "top_k < 1 \<or> 10 < top_k") simp_all
  have r: "r = \<lparr>rq_query = q, rq_corpus = (case query_type of None \<Rightarrow> cs | Some t \<Rightarrow> dgetd QUERY_TYPE_CORPUS_MAP t cs),
          rq_top_k = top_k, rq_type = query_type\<rparr>"
    using e k by simp
  have ok: "distinct cs \<and> list_all (List.member APPROVED_CORPORA) cs"
  proof (cases corpus)
    case None
    with cs show ?thesis by (auto simp: APPROVED_CORPORA_def)
  next
    case (Some c)
    with cs normalize_corpus_ok [of c "[]" cs] show ?thesis by simp
  qed
  have "distinct (dgetd QUERY_TYPE_CORPUS_MAP t cs) \<and> list_all (List.member APPROVED_CORPORA) (dgetd QUERY_TYPE_CORPUS_MAP t cs)" for t
  proof (cases "dget QUERY_TYPE_CORPUS_MAP t")
    case (Some ts)
    from type_map_ok [OF Some] Some show ?thesis by (simp add: dgetd_def)
  qed (use ok in \<open>simp add: dgetd_def\<close>)
  then have c: "distinct (rq_corpus r) \<and> list_all (List.member APPROVED_CORPORA) (rq_corpus r)"
    unfolding r using ok by (cases query_type) (simp_all only: retrieval_query.select_convs option.case)
  have "rq_query r = q" "rq_top_k r = top_k" unfolding r by simp_all
  with b k c show ?thesis unfolding query_ok_def by simp
qed

theorem retrieval_query_valid_witness:
  "\<exists>r. RetrievalQuery ''q'' (Some ['' Plans'', ''plans'']) 3 None = Inr r \<and> query_ok r"
proof -
  have n: "lower (strip '' Plans'') = ''plans''" "lower (strip ''plans'') = ''plans''" by code_simp+
  have "\<exists>r. RetrievalQuery ''q'' (Some ['' Plans'', ''plans'']) 3 None = Inr r"
    by (simp add: RetrievalQuery_def APPROVED_CORPORA_def n Let_def)
  with retrieval_query_valid show ?thesis by blast
qed

section \<open>Keyword results\<close>

lemma jaccard_bounds: "0 \<le> jaccard a b \<and> jaccard a b \<le> 1"
proof -
  have "count_if (List.member b) (remdups a) \<le> length (remdups a)" by (rule count_if_le)
  also have "\<dots> = card (set a)" by (simp add: length_remdups_card_conv)
  also have "\<dots> \<le> card (set (a @ b))" by (intro card_mono) auto
  also have "\<dots> = length (remdups (a @ b))" by (simp only: length_remdups_card_conv)
  finally have "count_if (List.member b) (remdups a) \<le> length (remdups (a @ b))" .
  then show ?thesis unfolding jaccard_def Let_def by (simp add: divide_le_eq_1)
qed

definition doc_score :: "retrieval_query \<Rightarrow> document \<Rightarrow> real" where
  "doc_score r d = jaccard (tokenize (rq_query r)) (tokenize (dc_text d))"

lemma keyword_scores_set:
  "(x, d) \<in> set (keyword_scores (rq_query r) ds) \<longleftrightarrow> d \<in> set ds \<and> tokenize (dc_text d) \<noteq> [] \<and> x = doc_score r d"
  by (auto simp: keyword_scores_def doc_score_def)

lemma best_of_sorted:
  assumes "sorted_wrt (\<lambda>x y. (f y :: real) \<le> f x) xs" "x \<in> set xs" "x \<notin> set (take n xs)" "y \<in> set (take n xs)"
  shows "f x \<le> f y"
proof -
  have "x \<in> set (drop n xs)" using assms(2,3) set_append [of "take n xs" "drop n xs"] by simp
  moreover have "sorted_wrt (\<lambda>x y. f y \<le> f x) (take n xs @ drop n xs)" using assms(1) by simp
  ultimately show ?thesis using assms(4) unfolding sorted_wrt_append by blast
qed

text \<open>Keyword retrieval returns the best matches. At most \<open>top_k\<close> documents are chosen, each one
  of the given that has words, with its score in [0, 1], the better first, and no document
  with words that is left out scores higher than one that is returned.\<close>

theorem keyword_rank_best:
  "\<exists>chosen. keyword_rank r ds = map (\<lambda>(score, d). \<lparr>so_path = JStr (dc_path d), so_corpus = JStr (dc_corpus d),
       so_score = JFloat (round_to 4 score), so_snippet = build_snippet (dc_text d) (rq_query r) SNIPPET_LIMIT\<rparr>) chosen
    \<and> length chosen \<le> nat (rq_top_k r)
    \<and> list_all (\<lambda>(score, d). List.member ds d \<and> score = doc_score r d \<and> 0 \<le> score \<and> score \<le> 1) chosen
    \<and> sorted_wrt (\<lambda>x y. fst y \<le> fst x) chosen
    \<and> (\<forall>d \<in> set ds. tokenize (dc_text d) \<noteq> [] \<longrightarrow> (doc_score r d, d) \<in> set chosen \<or> (\<forall>x \<in> set chosen. doc_score r d \<le> fst x))"
proof -
  let ?s = "sort_desc fst (keyword_scores (rq_query r) ds)"
  let ?c = "take (nat (rq_top_k r)) ?s"
  have srt: "sorted_wrt (\<lambda>x y. fst y \<le> fst x) ?s" by (rule sorted_sort_desc)
  have mem: "list_all (\<lambda>(score, d). List.member ds d \<and> score = doc_score r d \<and> 0 \<le> score \<and> score \<le> 1) ?c"
    unfolding list_all_iff
  proof (rule ballI, clarify)
    fix x d assume "(x, d) \<in> set ?c"
    then have "(x, d) \<in> set (keyword_scores (rq_query r) ds)" using set_take_subset [of "nat (rq_top_k r)" ?s] by auto
    then show "List.member ds d \<and> x = doc_score r d \<and> 0 \<le> x \<and> x \<le> 1"
      using jaccard_bounds by (auto simp: keyword_scores_set doc_score_def)
  qed
  have "(doc_score r d, d) \<in> set ?c \<or> (\<forall>x \<in> set ?c. doc_score r d \<le> fst x)" if d: "d \<in> set ds" "tokenize (dc_text d) \<noteq> []" for d
  proof (cases "(doc_score r d, d) \<in> set ?c")
    case False
    have m: "(doc_score r d, d) \<in> set ?s" using d by (simp add: keyword_scores_set)
    have "doc_score r d \<le> fst y" if "y \<in> set ?c" for y
      using best_of_sorted [OF srt m False that] by simp
    then show ?thesis by blast
  qed simp
  with mem sorted_wrt_take [OF srt] show ?thesis
    by (intro exI [of _ ?c] conjI) (simp_all add: keyword_rank_def)
qed

theorem keyword_rank_best_witness:
  "length (keyword_rank \<lparr>rq_query = ''queue'', rq_corpus = [], rq_top_k = 1, rq_type = None\<rparr>
     [\<lparr>dc_path = ''a'', dc_corpus = ''specs'', dc_text = ''other''\<rparr>, \<lparr>dc_path = ''b'', dc_corpus = ''specs'', dc_text = ''queue''\<rparr>]) \<le> 1"
  using keyword_rank_best [of "\<lparr>rq_query = ''queue'', rq_corpus = [], rq_top_k = 1, rq_type = None\<rparr>"
     "[\<lparr>dc_path = ''a'', dc_corpus = ''specs'', dc_text = ''other''\<rparr>, \<lparr>dc_path = ''b'', dc_corpus = ''specs'', dc_text = ''queue''\<rparr>]"]
  by auto

text \<open>A snippet has at most the limit and three dots.\<close>

lemma snippet_at_length: "snippet_at limit s toks = Some sn \<Longrightarrow> length sn \<le> limit + 3"
  by (induction toks) (auto simp: Let_def split: option.splits if_splits)

lemma rstrip_length: "length (rstrip s) \<le> length s"
  using rstrip_prefix [of s] by (rule prefix_length_le)

lemma snippet_length: "length (build_snippet text q limit) \<le> limit + 3"
  using snippet_at_length [of limit] rstrip_length [of "take limit (strip (collapse_ws text))"]
  by (auto simp: build_snippet_def Let_def split: option.splits)

section \<open>The relevance score and the cache\<close>

text \<open>
  The relevance lies in [0, 1] for the scores of the two backends; below -1, which the
  comment admits as a scale, it is negative.
\<close>

lemma relevance_bounds: "num_of v = None \<or> (\<exists>x. num_of v = Some x \<and> -1 \<le> x) \<Longrightarrow>
    0 \<le> compute_relevance_score v \<and> compute_relevance_score v \<le> 1"
  by (auto simp: compute_relevance_score_def min_def split: option.splits)

lemma relevance_negative: "compute_relevance_score (JFloat (- 3)) = - 1"
  by (simp add: compute_relevance_score_def)

text \<open>
  The cache key joins its parts with colons: a query that ends like a corpus name shares the
  key of another query on more corpora, and gets its cached result.
\<close>

lemma cache_key_collision: "make_key ''queue:plans'' [''history''] 3 = make_key ''queue'' [''plans'', ''history''] 3 \<or>
    make_key ''queue:history'' [''plans''] 3 = make_key ''queue'' [''plans'', ''history''] 3"
proof -
  have "sort [''plans'', ''history''] = [''history'', ''plans'']" by code_simp
  then show ?thesis by (simp add: make_key_def)
qed

lemma cache_returns_other:
  assumes "make_key q1 c1 k1 = make_key q2 c2 k2" "now - ts < ttl"
  shows "snd (cache_get ttl now q2 c2 k2 (cache_set ts q1 c1 k1 result cache)) = Some result"
  using assms by (simp add: cache_get_def cache_set_def Let_def)

end
