(* ===== verification/Retrieval_Sync.thy ===== *)
theory Retrieval_Sync
  imports Retrieval
begin

text \<open>
  The synchronisation of the vector index with the files (\<open>_sync_corpus_to_backend\<close> of
  \<open>src/services/retrieval_context.py\<close>) and the degradation to keyword retrieval when there
  is no index. The interface of the index used here is \<open>keyed_store\<close>, interpreted in
  \<open>Vector_Index\<close>.
\<close>

section \<open>One file\<close>

text \<open>A remembered digest is the digest of the text the index holds for the document.\<close>

definition coherent :: "(string \<Rightarrow> string) \<Rightarrow> (string, string) dict \<Rightarrow> vec_db \<Rightarrow> bool" where
  "coherent sha h db \<longleftrightarrow> (\<forall>d s. dget h d = Some s \<longrightarrow> (\<exists>t m v. doc_of db d = Some (t, m, v) \<and> sha t = s))"

definition index_ok :: "(string \<Rightarrow> string) \<Rightarrow> 'e index_state \<Rightarrow> bool" where
  "index_ok sha s = (case s of (h, db, e) \<Rightarrow> tables_ok db \<and> coherent sha h db)"

definition file_text :: "'e retrieval_env \<Rightarrow> file_path \<Rightarrow> string option" where
  "file_text env p = (case read_stripped (re_tree env) p of Inr t \<Rightarrow> if t = [] then None else Some t | Inl x \<Rightarrow> None)"

definition holds_text :: "'e index_state \<Rightarrow> string \<Rightarrow> string \<Rightarrow> bool" where
  "holds_text s d t = (case s of (h, db, e) \<Rightarrow> (\<exists>m v. doc_of db d = Some (t, m, v)))"

lemma coherent_upsert:
  assumes "coherent sha h db" "tables_ok db"
  shows "coherent sha (dset d (sha t) h) (upsert_rows d (t, m, v) db)"
  unfolding coherent_def
proof (intro allI impI)
  fix d' s assume s: "dget (dset d (sha t) h) d' = Some s"
  show "\<exists>t' m' v'. doc_of (upsert_rows d (t, m, v) db) d' = Some (t', m', v') \<and> sha t' = s"
  proof (cases "d' = d")
    case True
    with s show ?thesis by (simp add: vec_store.look_put [OF assms(2)])
  next
    case False
    with s assms(1) show ?thesis by (simp add: vec_store.look_put [OF assms(2)] coherent_def)
  qed
qed

lemma coherent_ddel: "coherent sha h db \<Longrightarrow> coherent sha (ddel d h) db"
  unfolding coherent_def by simp

lemma coherent_ddel_dset: "coherent sha h db \<Longrightarrow> coherent sha (ddel d (dset d s h)) db"
  unfolding coherent_def by simp

lemma coherent_delete:
  assumes "coherent sha h db" "tables_ok db"
  shows "coherent sha (ddel d h) (delete_rows d db)"
  using assms(1) unfolding coherent_def by (simp add: vec_store.look_del [OF assms(2)])

text \<open>What one file does, in one of three ways.\<close>

lemma sync_file_cases:
  assumes ok: "index_ok (re_sha env) s" and inj: "inj (re_sha env)"
    and sf: "sync_file env (SqliteVecBackend emb dims) (c, p) s = (s', r)"
  obtains (skip) "file_text env p = None" "s' = s" "r = Inr None"
  | (held) t where "file_text env p = Some t" "r = Inr (Some (doc_id (re_root env) p))" "index_ok (re_sha env) s'"
      "holds_text s' (doc_id (re_root env) p) t"
      "\<And>d u. d \<noteq> doc_id (re_root env) p \<Longrightarrow> holds_text s' d u = holds_text s d u"
  | (raised) x where "r = Inl x" "is_exception x \<Longrightarrow> index_ok (re_sha env) s'"
proof -
  obtain h db e where s: "s = (h, db, e)" by (metis prod_cases3)
  have ok': "tables_ok db" "coherent (re_sha env) h db" using ok s by (simp_all add: index_ok_def)
  let ?d = "doc_id (re_root env) p"
  show thesis
  proof (cases "file_text env p")
    case None
    then have "s' = s \<and> r = Inr None"
      using sf s by (auto simp: sync_file_def file_text_def split: sum.splits if_splits)
    with None show thesis by (intro skip) simp_all
  next
    case (Some t)
    then have t: "read_stripped (re_tree env) p = Inr t" "t \<noteq> []"
      by (auto simp: file_text_def split: sum.splits if_splits)
    show thesis
    proof (cases "dget h ?d = Some (re_sha env t)")
      case True
      then have r: "s' = s" "r = Inr (Some ?d)" using sf s t by (auto simp: sync_file_def persists_def)
      from True ok'(2) obtain t' m v where "doc_of db ?d = Some (t', m, v)" "re_sha env t' = re_sha env t"
        unfolding coherent_def by blast
      then have "holds_text s' ?d t" using injD [OF inj] r(1) s by (simp add: holds_text_def)
      with Some r ok show thesis by (intro held) simp_all
    next
      case False
      let ?m = "[(''corpus'', JStr c), (''path'', JStr ?d)]"
      have sf1: "(s', r) = (case backend_upsert (SqliteVecBackend emb dims) (re_fault env ?d) ?d t ?m (db, e) of
              ((db', e'), Inr _) \<Rightarrow> ((dset ?d (re_sha env t) h, db', e'), Inr (Some ?d))
            | ((db', e'), Inl x) \<Rightarrow> ((if is_exception x then ddel ?d (dset ?d (re_sha env t) h) else dset ?d (re_sha env t) h, db', e'), Inl x))"
        using sf [symmetric] s t False by (simp add: sync_file_def persists_def Let_def)
      show thesis
      proof (cases rule: upsert_cases [OF ok'(1), of emb dims "re_fault env ?d" ?d t ?m e, case_names failed stored])
        case (failed e' x)
        with sf1 have r: "r = Inl x"
          "s' = (if is_exception x then ddel ?d (dset ?d (re_sha env t) h) else dset ?d (re_sha env t) h, db, e')"
          by (simp_all add: backend_upsert_def)
        show thesis
          by (rule raised [OF r(1)]) (use ok' r(2) coherent_ddel_dset in \<open>simp add: index_ok_def\<close>)
      next
        case (stored e' v)
        with sf1 have r: "r = Inr (Some ?d)" "s' = (dset ?d (re_sha env t) h, upsert_rows ?d (t, ?m, v) db, e')"
          by (simp_all add: backend_upsert_def)
        show thesis
        proof (rule held [OF Some r(1)])
          show "index_ok (re_sha env) s'" unfolding r(2) index_ok_def
            using coherent_upsert [OF ok'(2,1)] vec_store.ok_put [OF ok'(1)] by simp
          show "holds_text s' ?d t" unfolding r(2) holds_text_def by (simp add: vec_store.look_put [OF ok'(1)])
          show "holds_text s' d u = holds_text s d u" if "d \<noteq> ?d" for d u
            unfolding r(2) s holds_text_def using that by (simp add: vec_store.look_put [OF ok'(1)])
        qed
      qed
    qed
  qed
qed

section \<open>All files\<close>

definition file_ids :: "'e retrieval_env \<Rightarrow> (string \<times> file_path) list \<Rightarrow> string list" where
  "file_ids env fs = map (\<lambda>(c, p). doc_id (re_root env) p) (filter (\<lambda>(c, p). file_text env p \<noteq> None) fs)"

text \<open>Different files have different document ids.\<close>

definition ids_distinct :: "'e retrieval_env \<Rightarrow> (string \<times> file_path) list \<Rightarrow> bool" where
  "ids_distinct env fs \<longleftrightarrow> distinct (map (\<lambda>(c, p). doc_id (re_root env) p) fs)"

lemma sync_files_ok:
  assumes "inj (re_sha env)"
    and "index_ok (re_sha env) s" "ids_distinct env fs"
    and "sync_files env (SqliteVecBackend emb dims) fs s = (s', Inr seen)"
  shows "index_ok (re_sha env) s' \<and> seen = file_ids env fs
    \<and> (\<forall>(c, p) \<in> set fs. \<forall>t. file_text env p = Some t \<longrightarrow> holds_text s' (doc_id (re_root env) p) t)
    \<and> (\<forall>d u. d \<notin> set (map (\<lambda>(c, p). doc_id (re_root env) p) fs) \<longrightarrow> holds_text s' d u = holds_text s d u)"
  using assms(2-4)
proof (induction fs arbitrary: s seen)
  case Nil
  then show ?case by (simp add: file_ids_def)
next
  case (Cons f fs)
  obtain c p where f: "f = (c, p)" by fastforce
  let ?id = "doc_id (re_root env)"
  obtain s1 r1 where one: "sync_file env (SqliteVecBackend emb dims) (c, p) s = (s1, r1)" by fastforce
  have dist: "ids_distinct env fs" "?id p \<notin> set (map (\<lambda>(c, p). ?id p) fs)"
    using Cons.prems(2) by (auto simp: ids_distinct_def f)
  show ?case
  proof (cases rule: sync_file_cases [OF Cons.prems(1) assms(1) one, case_names skip held raised])
    case skip
    with Cons.prems(3) one have rest: "sync_files env (SqliteVecBackend emb dims) fs s = (s', Inr seen)"
      by (auto simp: f split: prod.splits sum.splits)
    note IH = Cons.IH [OF Cons.prems(1) dist(1) rest]
    then show ?thesis using skip(1) by (auto simp: f file_ids_def)
  next
    case (held t)
    from Cons.prems(3) one held(2) obtain ds where rest: "sync_files env (SqliteVecBackend emb dims) fs s1 = (s', Inr ds)"
      and seen: "seen = ?id p # ds" by (auto simp: f split: prod.splits sum.splits)
    note IH = Cons.IH [OF held(3) dist(1) rest]
    have "holds_text s' (?id p) t" using IH dist(2) held(4) by blast
    moreover have "holds_text s' d u = holds_text s d u" if "d \<noteq> ?id p" "d \<notin> set (map (\<lambda>(c, p). ?id p) fs)" for d u
      using IH that held(5) [OF that(1), of u] by blast
    ultimately show ?thesis using IH held(1) seen by (auto simp: f file_ids_def)
  next
    case (raised x)
    with Cons.prems(3) one show ?thesis by (simp add: f)
  qed
qed

section \<open>Stale documents\<close>

lemma meta_delete_subset: "set (vi_meta (delete_rows d db)) \<subseteq> set (vi_meta db)"
  by (auto simp: delete_rows_def AList.delete_eq split: option.splits)

lemma drop_stale_ok:
  assumes "index_ok sha s" "drop_stale fault ds s = (s', Inr ())"
  shows "index_ok sha s' \<and> (\<forall>d u. holds_text s' d u = (d \<notin> set ds \<and> holds_text s d u))
    \<and> set (vi_meta (fst (snd s'))) \<subseteq> set (vi_meta (fst (snd s)))"
  using assms
proof (induction ds arbitrary: s)
  case (Cons d ds)
  obtain h db e where s: "s = (h, db, e)" by (metis prod_cases3)
  from Cons.prems(2) have f: "\<not> fault d" and rest: "drop_stale fault ds (ddel d h, delete_rows d db, e) = (s', Inr ())"
    by (auto simp: s delete_doc_def split: if_splits)
  have ok: "tables_ok db" "coherent sha h db" using Cons.prems(1) by (simp_all add: s index_ok_def)
  then have "index_ok sha (ddel d h, delete_rows d db, e)"
    by (simp add: index_ok_def coherent_delete vec_store.ok_del)
  note IH = Cons.IH [OF this rest]
  have "holds_text (ddel d h, delete_rows d db, e) d' u = (d' \<noteq> d \<and> holds_text s d' u)" for d' u
    by (simp add: holds_text_def s vec_store.look_del [OF ok(1)])
  with IH meta_delete_subset [of d db] show ?case by (auto simp: s)
qed simp

lemma known_subset: "set (vi_meta db') \<subseteq> set (vi_meta db) \<Longrightarrow> set (known_doc_ids frepr c db') \<subseteq> set (known_doc_ids frepr c db)"
  by (force simp: known_doc_ids_def Let_def split: option.splits)

lemma known_holds:
  assumes "tables_ok db" "d \<in> set (known_doc_ids frepr c db)"
  shows "\<exists>t m v. doc_of db d = Some (t, m, v)"
proof -
  have "d \<in> set (meta_ids db)" using assms(2) by (force simp: known_doc_ids_def Let_def meta_ids_def split: option.splits)
  then show ?thesis using doc_of_meta_ids [OF assms(1), of d] by (cases "doc_of db d") auto
qed


definition demo_retrieval_env :: "nat retrieval_env" where
  "demo_retrieval_env = \<lparr>re_root = [], re_tree = [([''.swarm_history''], TextFile ''done'')], re_setting = ''vector'',
     re_installed = True, re_load_error = None, re_embedder = None, re_dims = 1, re_nearest = (\<lambda>ix v k. []),
     re_sha = id, re_frepr = (\<lambda>x. []), re_llama = None, re_fault = (\<lambda>d. False)\<rparr>"

definition demo_embedder :: "nat embedder" where
  "demo_embedder texts n = (Suc n, Inr (map (\<lambda>t. [real (length t)]) texts))"

lemma demo_files: "collect_corpus_files (re_tree demo_retrieval_env) (re_root demo_retrieval_env) [''history''] = [(''history'', [''.swarm_history''])]"
  by (simp add: demo_retrieval_env_def collect_corpus_files_def corpus_files_def is_file_def stat_def link_at_def entry_at_def)

lemma demo_text: "read_stripped (re_tree demo_retrieval_env) [''.swarm_history''] = Inr ''done''"
  by (simp add: demo_retrieval_env_def read_stripped_def stat_def link_at_def entry_at_def read_text_def strip_def lstrip_def
      rstrip_def is_space_def)


section \<open>Degradation\<close>

text \<open>Without an index retrieval is keyword retrieval. With a keyword backend, or no
  extension, or no embedder, the sources are those of keyword retrieval and neither index
  nor digests change; only when no file of the corpora can be indexed is the answer empty
  although keyword retrieval might raise on an unreadable file.\<close>

theorem degraded_equals_keyword:
  assumes "\<not> List.member VECTOR_NAMES (backend_setting (re_setting env)) \<or> \<not> re_installed env \<or> re_embedder env = None"
  shows "retrieve_sources env r s = (s, keyword_retrieve (re_llama env) (re_tree env) (re_root env) r)
    \<or> retrieve_sources env r s = (s, Inr []) \<and> file_ids env (collect_corpus_files (re_tree env) (re_root env) (rq_corpus r)) = []"
proof (cases "List.member VECTOR_NAMES (backend_setting (re_setting env))")
  case False
  then show ?thesis by (simp add: retrieve_sources_def)
next
  case True
  then have null: "resolve_vector_backend (re_installed env) (re_load_error env) (re_setting env) (re_embedder env) (re_dims env) = Inr NullVectorIndex"
    using assms by (auto simp: resolve_vector_backend_def Let_def)
  have "sync_files env NullVectorIndex fs s = (s, Inr (file_ids env fs))" for fs
  proof (induction fs)
    case (Cons f fs)
    obtain c p where f: "f = (c, p)" by fastforce
    obtain h db e where s: "s = (h, db, e)" by (metis prod_cases3)
    have "sync_file env NullVectorIndex f s = (s, Inr (if file_text env p = None then None else Some (doc_id (re_root env) p)))"
      by (auto simp: f s sync_file_def persists_def backend_upsert_def file_text_def Let_def split: sum.splits)
    with Cons.IH show ?case by (auto simp: f file_ids_def)
  qed (simp add: file_ids_def)
  then have sync: "sync_corpus_to_backend env NullVectorIndex corpus s =
      (s, Inr (length (remdups (file_ids env (collect_corpus_files (re_tree env) (re_root env) corpus)))))" for corpus
    by (cases s) (simp add: sync_corpus_to_backend_def persists_def)
  show ?thesis
  proof (cases "file_ids env (collect_corpus_files (re_tree env) (re_root env) (rq_corpus r)) = []")
    case empty: True
    then show ?thesis using True null sync by (cases s) (simp add: retrieve_sources_def vector_retrieve_def)
  next
    case False
    then have "0 < length (remdups (file_ids env (collect_corpus_files (re_tree env) (re_root env) (rq_corpus r))))" by simp
    then have "vector_retrieve env r s = (s, Inl (unavailable (''NullVectorIndex cannot serve queries; supply an Embedder and '' @
        ''install sqlite-vec to enable real vector retrieval.'')))"
      using null sync by (cases s) (simp add: vector_retrieve_def backend_query_def)
    then show ?thesis using True by (simp add: retrieve_sources_def Let_def is_exception_def unavailable_def)
  qed
qed

theorem degraded_equals_keyword_witness:
  "retrieve_sources demo_retrieval_env \<lparr>rq_query = ''x'', rq_corpus = [''history''], rq_top_k = 3, rq_type = None\<rparr> ([], empty_db, 0)
    = (([], empty_db, 0), keyword_retrieve None [([''.swarm_history''], TextFile ''done'')] []
        \<lparr>rq_query = ''x'', rq_corpus = [''history''], rq_top_k = 3, rq_type = None\<rparr>)"
proof -
  have "file_ids demo_retrieval_env (collect_corpus_files (re_tree demo_retrieval_env) (re_root demo_retrieval_env) [''history'']) \<noteq> []"
    unfolding demo_files by (simp add: file_ids_def file_text_def demo_text)
  then show ?thesis
    using degraded_equals_keyword [of demo_retrieval_env "\<lparr>rq_query = ''x'', rq_corpus = [''history''], rq_top_k = 3, rq_type = None\<rparr>" "([], empty_db, 0)"]
    by (simp add: demo_retrieval_env_def)
qed

end
