(* ===== verification/Effects.thy ===== *)
theory Effects
  imports Prelude
begin

text \<open>
  Programs that change a state and may raise, and the logic in which the long handlers
  of the program are verified: a step takes the state and returns the state and a
  result, a raise keeps the state it had reached. A triple says what holds after a
  return and what holds after a raise; \<open>keeps\<close> is the triple of an invariant.
\<close>

named_theorems triples "structural rules of the triples"
named_theorems effect_simps "what the primitive steps do"

section \<open>Steps\<close>

type_synonym ('s, 'a) step = "'s \<Rightarrow> 's \<times> 'a result"

definition ret :: "'a \<Rightarrow> ('s, 'a) step" where
  "ret x s = (s, Inr x)"

definition throw :: "exn \<Rightarrow> ('s, 'a) step" where
  "throw e s = (s, Inl e)"

definition lift_res :: "'a result \<Rightarrow> ('s, 'a) step" where
  "lift_res r s = (s, r)"

definition bnd :: "('s, 'a) step \<Rightarrow> ('a \<Rightarrow> ('s, 'b) step) \<Rightarrow> ('s, 'b) step" where
  "bnd m f s = (case m s of (s', Inl e) \<Rightarrow> (s', Inl e) | (s', Inr x) \<Rightarrow> f x s')"

definition seq_step :: "('s, 'a) step \<Rightarrow> ('s, 'b) step \<Rightarrow> ('s, 'b) step" where
  "seq_step m n = bnd m (\<lambda>_. n)"

text \<open>\<open>try: m except E as e: h(e)\<close>, for the exceptions the clause catches.\<close>

definition catch_if :: "(exn \<Rightarrow> bool) \<Rightarrow> ('s, 'a) step \<Rightarrow> (exn \<Rightarrow> ('s, 'a) step) \<Rightarrow> ('s, 'a) step" where
  "catch_if C m h s = (case m s of (s', Inl e) \<Rightarrow> if C e then h e s' else (s', Inl e) | (s', Inr x) \<Rightarrow> (s', Inr x))"

text \<open>The outcome of a step as a value, for the exceptions that are caught.\<close>

definition attempt :: "(exn \<Rightarrow> bool) \<Rightarrow> ('s, 'a) step \<Rightarrow> ('s, 'a result) step" where
  "attempt C m s = (case m s of (s', Inl e) \<Rightarrow> (s', if C e then Inr (Inl e) else Inl e) | (s', Inr x) \<Rightarrow> (s', Inr (Inr x)))"

definition get_st :: "('s \<Rightarrow> 'a) \<Rightarrow> ('s, 'a) step" where
  "get_st f s = (s, Inr (f s))"

definition modify :: "('s \<Rightarrow> 's) \<Rightarrow> ('s, unit) step" where
  "modify f s = (f s, Inr ())"

fun each :: "('a \<Rightarrow> ('s, 'b) step) \<Rightarrow> 'a list \<Rightarrow> ('s, 'b list) step" where
  "each f [] = ret []"
| "each f (x # xs) = bnd (f x) (\<lambda>y. bnd (each f xs) (\<lambda>ys. ret (y # ys)))"

lemma effect_unfold [effect_simps]:
  "ret x s = (s, Inr x)" "throw e s = (s, Inl e)" "lift_res r s = (s, r)"
  "get_st f s = (s, Inr (f s))" "modify g s = (g s, Inr ())"
  by (simp_all add: ret_def throw_def lift_res_def get_st_def modify_def)

lemma bnd_simps [effect_simps]:
  "m s = (s', Inr x) \<Longrightarrow> bnd m f s = f x s'"
  "m s = (s', Inl e) \<Longrightarrow> bnd m f s = (s', Inl e)"
  by (simp_all add: bnd_def)

lemma bnd_prim [simp]:
  "bnd (ret x) f = f x" "bnd (throw e) f = throw e" "bnd (lift_res (Inr x)) f = f x" "bnd (lift_res (Inl e)) f = throw e"
  by (rule ext, simp add: bnd_def effect_unfold)+

lemma bnd_InrE:
  assumes "bnd m f s = (s', Inr y)"
  obtains s1 x where "m s = (s1, Inr x)" "f x s1 = (s', Inr y)"
  using assms by (auto simp: bnd_def split: prod.splits sum.splits)

lemma bnd_assoc: "bnd (bnd m f) g = bnd m (\<lambda>x. bnd (f x) g)"
  by (rule ext) (simp add: bnd_def split: prod.splits sum.splits)

section \<open>Triples\<close>

definition triple :: "('s \<Rightarrow> bool) \<Rightarrow> ('s, 'a) step \<Rightarrow> ('a \<Rightarrow> 's \<Rightarrow> bool) \<Rightarrow> (exn \<Rightarrow> 's \<Rightarrow> bool) \<Rightarrow> bool" where
  "triple P m Q E \<longleftrightarrow> (\<forall>s. P s \<longrightarrow> (case m s of (s', Inr x) \<Rightarrow> Q x s' | (s', Inl e) \<Rightarrow> E e s'))"

definition keeps :: "('s \<Rightarrow> bool) \<Rightarrow> ('s, 'a) step \<Rightarrow> bool" where
  "keeps I m \<longleftrightarrow> triple I m (\<lambda>_. I) (\<lambda>_. I)"

lemma triple_Inr: "triple P m Q E \<Longrightarrow> P s \<Longrightarrow> m s = (s', Inr x) \<Longrightarrow> Q x s'"
  by (force simp: triple_def)

lemma triple_Inl: "triple P m Q E \<Longrightarrow> P s \<Longrightarrow> m s = (s', Inl e) \<Longrightarrow> E e s'"
  by (force simp: triple_def)

lemma tripleI:
  "(\<And>s s' x. P s \<Longrightarrow> m s = (s', Inr x) \<Longrightarrow> Q x s') \<Longrightarrow> (\<And>s s' e. P s \<Longrightarrow> m s = (s', Inl e) \<Longrightarrow> E e s') \<Longrightarrow> triple P m Q E"
  by (simp add: triple_def split: prod.splits sum.splits)

lemma triple_conseq:
  "triple P' m Q' E' \<Longrightarrow> (\<And>s. P s \<Longrightarrow> P' s) \<Longrightarrow> (\<And>x s. Q' x s \<Longrightarrow> Q x s) \<Longrightarrow> (\<And>e s. E' e s \<Longrightarrow> E e s) \<Longrightarrow> triple P m Q E"
  unfolding triple_def by (fastforce split: prod.splits sum.splits)

lemma triple_bnd [triples]:
  "triple P m R E \<Longrightarrow> (\<And>x. triple (R x) (f x) Q E) \<Longrightarrow> triple P (bnd m f) Q E"
  unfolding triple_def bnd_def by (fastforce split: prod.splits sum.splits)

lemma triple_seq [triples]: "triple P m (\<lambda>_. R) E \<Longrightarrow> triple R n Q E \<Longrightarrow> triple P (seq_step m n) Q E"
  unfolding seq_step_def by (rule triple_bnd)

lemma triple_catch [triples]:
  assumes "triple P m Q R" and "\<And>e. C e \<Longrightarrow> triple (R e) (h e) Q E" and "\<And>e s. \<not> C e \<Longrightarrow> R e s \<Longrightarrow> E e s"
  shows "triple P (catch_if C m h) Q E"
  unfolding triple_def
proof (intro allI impI)
  fix s assume P: "P s"
  obtain s' r where m: "m s = (s', r)" by fastforce
  show "case catch_if C m h s of (s', Inr x) \<Rightarrow> Q x s' | (s', Inl e) \<Rightarrow> E e s'"
  proof (cases r)
    case (Inl e)
    then have "R e s'" using triple_Inl [OF assms(1) P] m by simp
    then show ?thesis using assms(2,3) [of e] m Inl by (simp add: catch_if_def triple_def)
  next
    case (Inr x)
    then show ?thesis using triple_Inr [OF assms(1) P] m by (simp add: catch_if_def)
  qed
qed

lemma triple_attempt [triples]:
  assumes "triple P m (\<lambda>x. Q (Inr x)) R" and "\<And>e s. C e \<Longrightarrow> R e s \<Longrightarrow> Q (Inl e) s" and "\<And>e s. \<not> C e \<Longrightarrow> R e s \<Longrightarrow> E e s"
  shows "triple P (attempt C m) Q E"
  unfolding triple_def
proof (intro allI impI)
  fix s assume P: "P s"
  obtain s' r where m: "m s = (s', r)" by fastforce
  show "case attempt C m s of (s', Inr x) \<Rightarrow> Q x s' | (s', Inl e) \<Rightarrow> E e s'"
  proof (cases r)
    case (Inl e)
    then have "R e s'" using triple_Inl [OF assms(1) P] m by simp
    then show ?thesis using assms(2,3) [of e] m Inl by (simp add: attempt_def)
  next
    case (Inr x)
    then show ?thesis using triple_Inr [OF assms(1) P] m by (simp add: attempt_def)
  qed
qed

lemma triple_ret [triples]: "(\<And>s. P s \<Longrightarrow> Q x s) \<Longrightarrow> triple P (ret x) Q E"
  by (simp add: triple_def effect_unfold)

lemma triple_throw [triples]: "(\<And>s. P s \<Longrightarrow> E e s) \<Longrightarrow> triple P (throw e) Q E"
  by (simp add: triple_def effect_unfold)

lemma triple_get [triples]: "(\<And>s. P s \<Longrightarrow> Q (f s) s) \<Longrightarrow> triple P (get_st f) Q E"
  by (simp add: triple_def effect_unfold)

lemma triple_modify [triples]: "(\<And>s. P s \<Longrightarrow> Q () (g s)) \<Longrightarrow> triple P (modify g) Q E"
  by (simp add: triple_def effect_unfold)

lemma triple_lift [triples]:
  "(\<And>s x. P s \<Longrightarrow> r = Inr x \<Longrightarrow> Q x s) \<Longrightarrow> (\<And>s e. P s \<Longrightarrow> r = Inl e \<Longrightarrow> E e s) \<Longrightarrow> triple P (lift_res r) Q E"
  by (simp add: triple_def effect_unfold split: sum.splits)

lemma triple_if [triples]: "(b \<Longrightarrow> triple P m Q E) \<Longrightarrow> (\<not> b \<Longrightarrow> triple P n Q E) \<Longrightarrow> triple P (if b then m else n) Q E"
  by simp

lemma triple_pure: "(b \<Longrightarrow> triple P m Q E) \<Longrightarrow> triple (\<lambda>s. P s \<and> b) m Q E"
  by (simp add: triple_def)

section \<open>Invariants\<close>

lemma keeps_triple: "keeps I m \<Longrightarrow> triple I m (\<lambda>_. I) (\<lambda>_. I)"
  by (simp add: keeps_def)

lemma keeps_iff: "keeps I m \<longleftrightarrow> (\<forall>s. I s \<longrightarrow> I (fst (m s)))"
proof -
  have "(case m s of (s', Inr x) \<Rightarrow> I s' | (s', Inl e) \<Rightarrow> I s') \<longleftrightarrow> I (fst (m s))" for s
    by (cases "m s"; cases "snd (m s)") auto
  then show ?thesis unfolding keeps_def triple_def by simp
qed

lemma keepsD: "keeps I m \<Longrightarrow> I s \<Longrightarrow> I (fst (m s))"
  by (simp add: keeps_iff)

lemma keepsI: "(\<And>s. I s \<Longrightarrow> I (fst (m s))) \<Longrightarrow> keeps I m"
  by (simp add: keeps_iff)

lemma keeps_prim [triples]:
  "keeps I (ret x)" "keeps I (throw e)" "keeps I (get_st f)" "keeps I (lift_res r)"
  by (simp_all add: keeps_def triple_def effect_unfold split: sum.splits)

lemma keeps_modify: "(\<And>s. I s \<Longrightarrow> I (g s)) \<Longrightarrow> keeps I (modify g)"
  by (rule keepsI) (simp add: effect_unfold)

lemma keeps_bnd [triples]: "keeps I m \<Longrightarrow> (\<And>x. keeps I (f x)) \<Longrightarrow> keeps I (bnd m f)"
  unfolding keeps_def by (rule triple_bnd)

lemma keeps_seq [triples]: "keeps I m \<Longrightarrow> keeps I n \<Longrightarrow> keeps I (seq_step m n)"
  unfolding seq_step_def by (rule keeps_bnd)

lemma keeps_catch [triples]: "keeps I m \<Longrightarrow> (\<And>e. C e \<Longrightarrow> keeps I (h e)) \<Longrightarrow> keeps I (catch_if C m h)"
  unfolding keeps_def by (rule triple_catch) auto

lemma keeps_attempt [triples]: "keeps I m \<Longrightarrow> keeps I (attempt C m)"
  unfolding keeps_def by (rule triple_attempt) auto

lemma keeps_if [triples]: "(b \<Longrightarrow> keeps I m) \<Longrightarrow> (\<not> b \<Longrightarrow> keeps I n) \<Longrightarrow> keeps I (if b then m else n)"
  by simp

lemma keeps_option [triples]:
  "(v = None \<Longrightarrow> keeps I m) \<Longrightarrow> (\<And>x. v = Some x \<Longrightarrow> keeps I (f x)) \<Longrightarrow> keeps I (case v of None \<Rightarrow> m | Some x \<Rightarrow> f x)"
  by (cases v) auto

lemma keeps_sum [triples]:
  "(\<And>x. v = Inl x \<Longrightarrow> keeps I (f x)) \<Longrightarrow> (\<And>x. v = Inr x \<Longrightarrow> keeps I (g x)) \<Longrightarrow> keeps I (case v of Inl x \<Rightarrow> f x | Inr x \<Rightarrow> g x)"
  by (cases v) auto

lemma keeps_prod [triples]: "(\<And>x y. v = (x, y) \<Longrightarrow> keeps I (f x y)) \<Longrightarrow> keeps I (case v of (x, y) \<Rightarrow> f x y)"
  by (cases v) auto

lemma keeps_each [triples]: "(\<And>x. x \<in> set xs \<Longrightarrow> keeps I (f x)) \<Longrightarrow> keeps I (each f xs)"
  by (induction xs) (auto intro!: keeps_bnd keeps_prim)

lemma keeps_conj: "keeps I m \<Longrightarrow> keeps J m \<Longrightarrow> keeps (\<lambda>s. I s \<and> J s) m"
  by (rule keepsI) (auto dest: keepsD)

text \<open>A view that a step leaves unchanged.\<close>

definition silent :: "('s \<Rightarrow> 'v) \<Rightarrow> ('s, 'a) step \<Rightarrow> bool" where
  "silent view m \<longleftrightarrow> (\<forall>s. view (fst (m s)) = view s)"

lemma silent_keeps: "silent view m \<longleftrightarrow> (\<forall>v. keeps (\<lambda>s. view s = v) m)"
proof
  assume "\<forall>v. keeps (\<lambda>s. view s = v) m"
  then have "view (fst (m s)) = view s" for s using keepsD [of "\<lambda>t. view t = view s" m s] by simp
  then show "silent view m" by (simp add: silent_def)
next
  assume "silent view m"
  then show "\<forall>v. keeps (\<lambda>s. view s = v) m" by (auto simp: silent_def intro!: keepsI)
qed

lemma silent_bnd: "silent view m \<Longrightarrow> (\<And>x. silent view (f x)) \<Longrightarrow> silent view (bnd m f)"
  unfolding silent_keeps by (intro allI keeps_bnd) auto

end
