(* ===== verification/Governance.thy ===== *)
theory Governance
  imports Contracts Cost_Tracker Content_Guards Workflow_Graphs Quality_Gates
begin

text \<open>
  The agents that own a phase, without their LLM: the architecture note of
  \<open>src/agents/architect.py\<close>, the release decision of \<open>src/agents/governor.py\<close>, the review
  tools of \<open>src/agents/critic.py\<close>, and the client of the external gate,
  \<open>src/mcp/sdlc_client.py\<close>. The text formats of a timestamp are parameters (\<open>isof\<close> of
  \<open>isoformat\<close>, \<open>dumpf\<close> and \<open>parse_at\<close> of pydantic), as is Python's text of a float
  (\<open>frepr\<close>); agent wrappers and prompts are configuration.
\<close>

section \<open>The architecture note\<close>

record architecture_note =
  an_task_id :: string
  an_title :: string
  an_context :: string
  an_decision :: string
  an_consequences :: "string list"
  an_alternatives :: "string list"
  an_paths :: "string list"
  an_created :: int

definition ArchitectureNote ::
  "string \<Rightarrow> string \<Rightarrow> string \<Rightarrow> string \<Rightarrow> string list \<Rightarrow> string list \<Rightarrow> string list \<Rightarrow> int \<Rightarrow> architecture_note result" where
  "ArchitectureNote task_id title cx decision consequences alternatives paths made =
     (if task_id = [] \<or> 80 < length task_id then Inl (validation_error ''task_id'')
      else if title = [] then Inl (validation_error ''title'')
      else if cx = [] then Inl (validation_error ''context'')
      else if decision = [] then Inl (validation_error ''decision'')
      else Inr \<lparr>an_task_id = task_id, an_title = title, an_context = cx, an_decision = decision,
        an_consequences = consequences, an_alternatives = alternatives, an_paths = paths, an_created = made\<rparr>)"

definition bullet_section :: "string \<Rightarrow> (string \<Rightarrow> string) \<Rightarrow> string list \<Rightarrow> string list" where
  "bullet_section title f xs = (if xs = [] then [] else title # map (\<lambda>x. ''- '' @ f x) xs @ [[]])"

definition tick :: "string \<Rightarrow> string" where
  "tick s = [CHR 0x60] @ s @ [CHR 0x60]"

definition as_markdown :: "(int \<Rightarrow> string) \<Rightarrow> architecture_note \<Rightarrow> string" where
  "as_markdown isof n = rstrip (join [CHR 0x0A]
     ([''# '' @ an_title n, [],
       ''_Task: '' @ tick (an_task_id n) @ '' '' @ [CHR 0xB7] @ '' Created: '' @ isof (an_created n) @ ''_'', [],
       ''## Context'', an_context n, [], ''## Decision'', an_decision n, []] @
      bullet_section ''## Alternatives considered'' id (an_alternatives n) @
      bullet_section ''## Consequences'' id (an_consequences n) @
      bullet_section ''## Touched paths'' tick (an_paths n))) @ [CHR 0x0A]"

definition dump_note :: "(int \<Rightarrow> string) \<Rightarrow> architecture_note \<Rightarrow> (string, json) dict" where
  "dump_note dumpf n = [(''task_id'', JStr (an_task_id n)), (''title'', JStr (an_title n)),
     (''context'', JStr (an_context n)), (''decision'', JStr (an_decision n)),
     (''consequences'', JArr (map JStr (an_consequences n))),
     (''alternatives_considered'', JArr (map JStr (an_alternatives n))),
     (''touched_paths'', JArr (map JStr (an_paths n))), (''created_at'', JStr (dumpf (an_created n)))]"

definition draft_architecture_note ::
  "(int \<Rightarrow> string) \<Rightarrow> int \<Rightarrow> string \<Rightarrow> string \<Rightarrow> string \<Rightarrow> string \<Rightarrow> string list \<Rightarrow> string list \<Rightarrow> string list
    \<Rightarrow> (string, json) dict result" where
  "draft_architecture_note dumpf now task_id title cx decision consequences alternatives paths =
     bindr (ArchitectureNote task_id title cx decision consequences alternatives paths now)
       (\<lambda>n. Inr (dump_note dumpf n))"

definition validate_note :: "(json \<Rightarrow> int option) \<Rightarrow> int \<Rightarrow> json \<Rightarrow> architecture_note result" where
  "validate_note parse_at now v =
     bindr (only_fields [''task_id'', ''title'', ''context'', ''decision'', ''consequences'',
         ''alternatives_considered'', ''touched_paths'', ''created_at''] v) (\<lambda>d.
     bindr (req_text d ''task_id'') (\<lambda>i. bindr (req_text d ''title'') (\<lambda>t. bindr (req_text d ''context'') (\<lambda>c.
     bindr (req_text d ''decision'') (\<lambda>de. bindr (text_list d ''consequences'') (\<lambda>co.
     bindr (text_list d ''alternatives_considered'') (\<lambda>al. bindr (text_list d ''touched_paths'') (\<lambda>tp.
     bindr (case dget d ''created_at'' of None \<Rightarrow> Inr now
         | Some x \<Rightarrow> (case parse_at x of None \<Rightarrow> Inl (validation_error ''created_at'') | Some a \<Rightarrow> Inr a)) (\<lambda>made.
       ArchitectureNote i t c de co al tp made)))))))))"

definition architecture_gate_payload ::
  "(json \<Rightarrow> int option) \<Rightarrow> (int \<Rightarrow> string) \<Rightarrow> int \<Rightarrow> json \<Rightarrow> (string, json) dict result" where
  "architecture_gate_payload parse_at isof now note =
     bindr (validate_note parse_at now note) (\<lambda>n.
       Inr [(''body'', JStr (as_markdown isof n)), (''phase'', JStr (phase_value ARCHITECT))])"

section \<open>The release decision\<close>

record governance_verdict =
  gv_task_id :: string
  gv_ready :: bool
  gv_evidence :: "(string, json) dict"
  gv_concerns :: "string list"

definition gv_dict :: "governance_verdict \<Rightarrow> (string, json) dict" where
  "gv_dict v = [(''task_id'', JStr (gv_task_id v)), (''ready'', JBool (gv_ready v)),
     (''evidence'', JObj (gv_evidence v)), (''concerns'', JArr (map JStr (gv_concerns v)))]"

text \<open>The quota check of the governor records the cost before it compares. \<open>None\<close> is a cost
  file of another shape, as in \<open>Cost_Tracker\<close>.\<close>

definition governor_quota ::
  "real \<Rightarrow> fault \<Rightarrow> string \<Rightarrow> string \<Rightarrow> real \<Rightarrow> cost_tracker \<Rightarrow> fs \<Rightarrow> (cost_tracker \<times> fs \<times> (string, json) dict result) option" where
  "governor_quota budget flt tmp task_id cost ct w =
     (case record_cost flt tmp task_id ''governor'' cost ct w of
        None \<Rightarrow> None
      | Some (ct', w', Inl e) \<Rightarrow> Some (ct', w', Inl e)
      | Some (ct', w', Inr _) \<Rightarrow> (let spent = get_total_spend ct' in Some (ct', w', Inr
          (if budget < spent
           then [(''status'', JStr ''BUDGET_EXCEEDED''), (''limit_usd'', JFloat budget), (''current_usd'', JFloat spent)]
           else [(''status'', JStr ''OK''), (''current_usd'', JFloat spent), (''budget_usd'', JFloat budget)]))))"

definition float_of :: "json \<Rightarrow> real result" where
  "float_of v = (case v of
      JStr s \<Rightarrow> (case py_float s of Some x \<Rightarrow> Inr x | None \<Rightarrow> Inl (Exn ''ValueError'' ''could not convert string to float''))
    | _ \<Rightarrow> (case num_of v of Some x \<Rightarrow> Inr x | None \<Rightarrow> Inl (Exn ''TypeError'' ''float() argument'')))"

definition body_concerns :: "string \<Rightarrow> int \<Rightarrow> string list" where
  "body_concerns body min_bytes =
     (if is_low_value_content (Some body) min_bytes then [''release note is too thin or contains only leakage''] else [])"

definition quota_concerns :: "real \<Rightarrow> real \<Rightarrow> string list" where
  "quota_concerns budget spent =
     (if budget < spent then [''budget exceeded ('' @ fmt_fixed 2 spent @ '' > '' @ fmt_fixed 2 budget @ '')''] else [])"

definition second_status :: "(real \<Rightarrow> string) \<Rightarrow> (string, json) dict \<Rightarrow> string" where
  "second_status frepr sp = py_str frepr (dgetd sp ''status'' (JStr ''retry''))"

definition second_concerns :: "(real \<Rightarrow> string) \<Rightarrow> (string, json) dict option \<Rightarrow> string list" where
  "second_concerns frepr sp = (case sp of None \<Rightarrow> []
     | Some d \<Rightarrow> if second_status frepr d \<noteq> ''pass'' then [''second-pass review returned status='' @ second_status frepr d] else [])"

definition run_governance_review ::
  "(real \<Rightarrow> string) \<Rightarrow> real \<Rightarrow> fault \<Rightarrow> string \<Rightarrow> string \<Rightarrow> (string, json) dict
    \<Rightarrow> ((string, json) dict \<Rightarrow> (string, json) dict result) option \<Rightarrow> int \<Rightarrow> cost_tracker \<Rightarrow> fs
    \<Rightarrow> (cost_tracker \<times> fs \<times> governance_verdict result) option" where
  "run_governance_review frepr budget flt tmp task_id payload reviewer min_bytes ct w =
     (let body = py_str frepr (dgetd payload ''body'' (JStr []));
          guard = (''content_guard'', JObj [(''body_len'', JInt (int (length body))),
            (''low_value'', JBool (is_low_value_content (Some body) min_bytes))]) in
      case float_of (dgetd payload ''cost_usd'' (JFloat 0)) of
        Inl e \<Rightarrow> Some (ct, w, Inl e)
      | Inr cost \<Rightarrow> (case governor_quota budget flt tmp task_id cost ct w of
          None \<Rightarrow> None
        | Some (ct', w', Inl e) \<Rightarrow> Some (ct', w', Inl e)
        | Some (ct', w', Inr quota) \<Rightarrow>
           Some (ct', w', bindr (case reviewer of None \<Rightarrow> Inr None | Some f \<Rightarrow> bindr (f payload) (\<lambda>d. Inr (Some d))) (\<lambda>sp.
             let concerns = body_concerns body min_bytes @ quota_concerns budget (get_total_spend ct') @ second_concerns frepr sp
             in Inr \<lparr>gv_task_id = task_id, gv_ready = (concerns = []),
                  gv_evidence = [guard, (''finops'', JObj quota)] @ (case sp of None \<Rightarrow> [] | Some d \<Rightarrow> [(''second_pass'', JObj d)]),
                  gv_concerns = concerns\<rparr>))))"

section \<open>The external gate\<close>

text \<open>
  \<open>_invoke\<close>: the bridge function has a parameter \<open>args\<close> and no \<open>tool_args\<close>, so the call
  raises \<open>TypeError\<close> before any process is started, and the handler of the exception turns it
  into an error result. \<open>bridge_ok\<close> is whether the module can be imported.
\<close>

definition BRIDGE_PARAMETERS :: "string list" where
  "BRIDGE_PARAMETERS = [''server_id'', ''tool_name'', ''args'']"

definition call_bridge :: "(string, json) dict \<Rightarrow> string result \<Rightarrow> string result" where
  "call_bridge kwargs invocation =
     (case find (\<lambda>k. \<not> List.member BRIDGE_PARAMETERS k) (dkeys kwargs) of
        Some k \<Rightarrow> Inl (Exn ''TypeError'' (''call_smithery_tool() got an unexpected keyword argument '' @ repr_str k))
      | None \<Rightarrow> if list_all (\<lambda>p. dmem p kwargs) BRIDGE_PARAMETERS then invocation
          else Inl (Exn ''TypeError'' ''call_smithery_tool() missing a required argument''))"

definition invoke_tool :: "bool \<Rightarrow> bool \<Rightarrow> string result \<Rightarrow> string \<Rightarrow> (string, json) dict \<Rightarrow> (string, json) dict" where
  "invoke_tool enabled bridge_ok invocation tool payload =
     (if \<not> enabled then [(''status'', JStr ''skipped''), (''reason'', JStr ''SDLC_MCP_ENABLED=false'')]
      else if \<not> bridge_ok then [(''status'', JStr ''skipped''), (''reason'', JStr ''smithery_bridge unavailable'')]
      else (case call_bridge [(''server_id'', JStr ''sdlc''), (''tool_name'', JStr tool), (''tool_args'', JObj payload)] invocation of
          Inr r \<Rightarrow> [(''status'', JStr ''ok''), (''tool'', JStr tool), (''result'', JStr r)]
        | Inl e \<Rightarrow> if exn_type e = ''TimeoutError'' then [(''status'', JStr ''timeout''), (''tool'', JStr tool)]
            else [(''status'', JStr ''error''), (''tool'', JStr tool), (''error'', JStr (exn_msg e))]))"

definition TOOL_QUALITY_GATE_PR :: string where
  "TOOL_QUALITY_GATE_PR = ''sdlc_quality_gate_pr''"

definition create_adr ::
  "bool \<Rightarrow> bool \<Rightarrow> string result \<Rightarrow> string \<Rightarrow> string \<Rightarrow> string \<Rightarrow> string \<Rightarrow> string list \<Rightarrow> (string, json) dict" where
  "create_adr enabled bridge_ok invocation task_id title cx decision consequences =
     invoke_tool enabled bridge_ok invocation ''chimera_adr_create'' [(''task_id'', JStr task_id), (''title'', JStr title),
       (''context'', JStr cx), (''decision'', JStr decision), (''consequences'', JArr (map JStr consequences))]"

definition commit_phase ::
  "bool \<Rightarrow> bool \<Rightarrow> string result \<Rightarrow> string \<Rightarrow> string \<Rightarrow> string \<Rightarrow> string \<Rightarrow> (string, json) dict" where
  "commit_phase enabled bridge_ok invocation task_id from_phase to_phase reason =
     invoke_tool enabled bridge_ok invocation ''sdlc_phase_commit'' [(''task_id'', JStr task_id),
       (''from_phase'', JStr from_phase), (''to_phase'', JStr to_phase), (''reason'', JStr reason)]"

definition submit_quality_gate :: "bool \<Rightarrow> bool \<Rightarrow> string result \<Rightarrow> int \<Rightarrow> json list \<Rightarrow> (string, json) dict" where
  "submit_quality_gate enabled bridge_ok invocation pr gates =
     invoke_tool enabled bridge_ok invocation TOOL_QUALITY_GATE_PR [(''pr_number'', JInt pr), (''gates'', JArr gates)]"

text \<open>The state of the client is the set of its scheduled submissions, kept as the list of their
  payloads; one leaves it when it is done or cancelled.\<close>

definition submit_gate_decision ::
  "bool \<Rightarrow> bool \<Rightarrow> bool \<Rightarrow> string result \<Rightarrow> string \<Rightarrow> json \<Rightarrow> (string, json) dict list \<Rightarrow> (string, json) dict list \<times> (string, json) dict" where
  "submit_gate_decision enabled loop_running bridge_ok invocation task_id verdict pending =
     (let payload = [(''task_id'', JStr task_id), (''verdict'', verdict)] in
      if \<not> enabled then (pending, [(''status'', JStr ''skipped''), (''reason'', JStr ''SDLC_MCP_ENABLED=false'')])
      else if \<not> loop_running then (pending, invoke_tool enabled bridge_ok invocation TOOL_QUALITY_GATE_PR payload)
      else (pending @ [payload], [(''status'', JStr ''scheduled''), (''tool'', JStr TOOL_QUALITY_GATE_PR)]))"

definition submission_done :: "(string, json) dict \<Rightarrow> (string, json) dict list \<Rightarrow> (string, json) dict list" where
  "submission_done p pending = remove1 p pending"

text \<open>\<open>finishes p\<close>: a cancelled submission ends within the timeout.\<close>

definition cancel_pending_tasks ::
  "((string, json) dict \<Rightarrow> bool) \<Rightarrow> (string, json) dict list \<Rightarrow> (string, json) dict list" where
  "cancel_pending_tasks finishes pending = filter (\<lambda>p. \<not> finishes p) pending"

definition register_external_gate ::
  "bool \<Rightarrow> bool \<Rightarrow> bool \<Rightarrow> bool \<Rightarrow> string result \<Rightarrow> string \<Rightarrow> json \<Rightarrow> (string, json) dict list
    \<Rightarrow> (string, json) dict list \<times> (string, json) dict" where
  "register_external_gate enabled client_ok loop_running bridge_ok invocation task_id verdict pending =
     (if \<not> enabled then (pending, [(''status'', JStr ''sdlc.gate.skipped''), (''task_id'', JStr task_id),
         (''reason'', JStr ''SDLC_MCP_ENABLED=false'')])
      else if \<not> client_ok then (pending, [(''status'', JStr ''sdlc.gate.skipped''), (''task_id'', JStr task_id),
         (''reason'', JStr ''sdlc_client missing'')])
      else (case submit_gate_decision enabled loop_running bridge_ok invocation task_id verdict pending of
         (pending', r) \<Rightarrow> (pending', [(''status'', JStr ''sdlc.gate.submitted''), (''task_id'', JStr task_id), (''result'', JObj r)])))"

section \<open>The critic\<close>

text \<open>\<open>evaluate\<close>: \<open>readf\<close> opens the staged file, \<open>sandbox\<close> runs the code.\<close>

definition fail_result :: "string \<Rightarrow> (string, json) dict" where
  "fail_result reason = [(''status'', JStr ''FAIL''), (''reason'', JStr reason)]"

definition evaluate_staged :: "(string \<Rightarrow> string result) \<Rightarrow> (string \<Rightarrow> string result) \<Rightarrow> string \<Rightarrow> (string, json) dict" where
  "evaluate_staged readf sandbox path =
     (if \<not> endswith path ''.py'' then fail_result ''Not a python file''
      else (case bindr (readf path) sandbox of
         Inl e \<Rightarrow> fail_result (exn_msg e)
       | Inr out \<Rightarrow> if startswith out ''Error:'' then fail_result out
           else [(''status'', JStr ''PASS''), (''score'', JFloat 1), (''output'', JStr out)]))"

definition DANGEROUS_KEYWORDS :: "string list" where
  "DANGEROUS_KEYWORDS = [''os.system'', ''subprocess.'', ''shutil.'', ''pty.'', ''posix.'', ''builtins.eval'', ''builtins.exec'']"

text \<open>What became of the process: output and errors, a timeout, or an exception.\<close>

datatype run_outcome = Finished string string | TimedOut | Crashed exn

definition execute_python_code :: "(string \<Rightarrow> run_outcome) \<Rightarrow> string \<Rightarrow> string" where
  "execute_python_code run code =
     (if list_ex (contains code) DANGEROUS_KEYWORDS then ''Error: Dangerous operations detected.''
      else (case run code of
         Finished out err \<Rightarrow> if err \<noteq> [] then ''Error: '' @ err else strip out
       | TimedOut \<Rightarrow> ''Error: Execution Timeout.''
       | Crashed e \<Rightarrow> ''Error: '' @ exn_msg e))"

definition create_review_verdict :: "(string \<Rightarrow> string option) \<Rightarrow> json \<Rightarrow> json result" where
  "create_review_verdict repair payload = bindr (parse_review_verdict repair payload) (\<lambda>v. Inr (verdict_json v))"

definition get_review_graph_decision ::
  "(string \<Rightarrow> string option) \<Rightarrow> graph_invoke option \<Rightarrow> json \<Rightarrow> int \<Rightarrow> int \<Rightarrow> graph_decision result" where
  "get_review_graph_decision repair langgraph payload attempts max_retries =
     bindr (parse_review_verdict repair payload) (\<lambda>v.
     bindr (ReviewLoopState attempts (rv_status v) (rv_summary v)) (\<lambda>s.
       run_review_rework_cycle langgraph s max_retries))"

section \<open>Properties\<close>

text \<open>The note survives the exchange: what \<open>draft\<close> dumps, the gate reads back.\<close>

lemma validate_dump_note:
  assumes "an_task_id n \<noteq> []" "length (an_task_id n) \<le> 80" "an_title n \<noteq> []" "an_context n \<noteq> []" "an_decision n \<noteq> []"
    and "parse_at (JStr (dumpf (an_created n))) = Some (an_created n)"
  shows "validate_note parse_at now (JObj (dump_note dumpf n)) = Inr n"
  using assms by (simp add: validate_note_def dump_note_def only_fields_def dkeys_def req_text_def text_list_def
      dgetd_def ArchitectureNote_def)

lemma ArchitectureNote_ok:
  "ArchitectureNote i t c de co al tp m = Inr n \<Longrightarrow>
     i \<noteq> [] \<and> length i \<le> 80 \<and> t \<noteq> [] \<and> c \<noteq> [] \<and> de \<noteq> [] \<and> n = \<lparr>an_task_id = i, an_title = t, an_context = c, an_decision = de, an_consequences = co,
       an_alternatives = al, an_paths = tp, an_created = m\<rparr>"
  by (auto simp: ArchitectureNote_def split: if_splits)

text \<open>A drafted note passes to the gate unchanged. Whatever input the architect accepts,
  the gate reads the dumped note back and hands the content guard a body that is the
  rendering of exactly this note; what the architect refuses is one of its four bounds.\<close>

theorem note_reaches_gate:
  assumes "parse_at (JStr (dumpf now)) = Some now"
  shows "case draft_architecture_note dumpf now i t c de co al tp of
      Inr d \<Rightarrow> architecture_gate_payload parse_at isof now' (JObj d) =
        Inr [(''body'', JStr (as_markdown isof \<lparr>an_task_id = i, an_title = t, an_context = c, an_decision = de,
               an_consequences = co, an_alternatives = al, an_paths = tp, an_created = now\<rparr>)), (''phase'', JStr ''ARCHITECT'')]
    | Inl e \<Rightarrow> exn_type e = ''ValidationError'' \<and> (i = [] \<or> 80 < length i \<or> t = [] \<or> c = [] \<or> de = [])"
proof (cases "ArchitectureNote i t c de co al tp now")
  case (Inl e)
  then show ?thesis by (auto simp: draft_architecture_note_def ArchitectureNote_def validation_error_def split: if_splits)
next
  case (Inr n)
  note ok = ArchitectureNote_ok [OF Inr]
  have "validate_note parse_at now' (JObj (dump_note dumpf n)) = Inr n"
    by (rule validate_dump_note) (use ok assms in simp_all)
  then show ?thesis using ok by (simp add: draft_architecture_note_def Inr architecture_gate_payload_def)
qed

theorem note_reaches_gate_witness:
  "\<exists>d. draft_architecture_note (\<lambda>n. ''T'') 5 ''t1'' ''T'' ''c'' ''d'' [] [] [''p''] = Inr d \<and>
     architecture_gate_payload (\<lambda>v. Some 5) (\<lambda>n. ''T'') 6 (JObj d) =
       Inr [(''body'', JStr (as_markdown (\<lambda>n. ''T'') \<lparr>an_task_id = ''t1'', an_title = ''T'', an_context = ''c'', an_decision = ''d'',
               an_consequences = [], an_alternatives = [], an_paths = [''p''], an_created = 5\<rparr>)), (''phase'', JStr ''ARCHITECT'')]"
  using note_reaches_gate [where parse_at = "\<lambda>v. Some 5" and dumpf = "\<lambda>n. ''T''" and now = 5 and i = "''t1''" and t = "''T''"
      and c = "''c''" and de = "''d''" and co = "[]" and al = "[]" and tp = "[''p'']" and isof = "\<lambda>n. ''T''" and now' = 6]
  by (simp add: draft_architecture_note_def ArchitectureNote_def)

text \<open>When a task is ready to ship. On a tracker in step with its file, a review with a
  numeric cost adds that cost to the spend of the task, and finds the task ready exactly
  when the release note has substance, the new total is within the budget and a second
  reviewer, if there is one, says pass; every other outcome lists a concern.\<close>

theorem governance_ready_iff:
  assumes "synced tmp ct w" "float_of (dgetd payload ''cost_usd'' (JFloat 0)) = Inr cost"
    and "case reviewer of None \<Rightarrow> sp = None | Some f \<Rightarrow> \<exists>d. f payload = Inr d \<and> sp = Some d"
  shows "\<exists>ct' w' v. run_governance_review frepr budget NoFault tmp i payload reviewer m ct w = Some (ct', w', Inr v)
    \<and> get_total_spend ct' = get_total_spend ct + cost \<and> gv_task_id v = i
    \<and> (gv_ready v \<longleftrightarrow> \<not> is_low_value_content (Some (py_str frepr (dgetd payload ''body'' (JStr [])))) m
        \<and> get_total_spend ct + cost \<le> budget \<and> (case sp of None \<Rightarrow> True | Some d \<Rightarrow> second_status frepr d = ''pass''))
    \<and> (gv_ready v \<longleftrightarrow> gv_concerns v = [])"
proof -
  have wf: "costs_wf (ct_data ct)" using assms(1) by (simp add: synced_def)
  have spend: "get_total_spend (ct\<lparr>ct_data := add_cost i ''governor'' cost (ct_data ct)\<rparr>) = get_total_spend ct + cost"
    using costs_total_add [OF wf, of i "''governor''" cost] by (simp add: get_total_spend_def costs_total_def)
  obtain w' where rc: "record_cost NoFault tmp i ''governor'' cost ct w =
      Some (ct\<lparr>ct_data := add_cost i ''governor'' cost (ct_data ct)\<rparr>, w', Inr ())"
    using record_cost_synced [OF assms(1)] by blast
  have rev: "(case reviewer of None \<Rightarrow> Inr None | Some f \<Rightarrow> bindr (f payload) (\<lambda>d. Inr (Some d))) = Inr sp"
    using assms(3) by (auto split: option.splits)
  show ?thesis
    by (cases sp) (simp_all add: run_governance_review_def governor_quota_def rc assms(2) rev spend Let_def body_concerns_def
        quota_concerns_def second_concerns_def)
qed

lemma demo_tracker: "synced ''t'' \<lparr>ct_filename = ''f'', ct_data = []\<rparr> \<lparr>docs = [], logs = []\<rparr>"
  by (simp add: synced_def costs_wf_def read_costs_def dmem_def)

theorem governance_ready_iff_witness:
  "\<exists>ct' w' v. run_governance_review (\<lambda>x. []) 10 NoFault ''t'' ''a'' [(''cost_usd'', JInt 12)] None 5
      \<lparr>ct_filename = ''f'', ct_data = []\<rparr> \<lparr>docs = [], logs = []\<rparr> = Some (ct', w', Inr v) \<and> \<not> gv_ready v \<and> get_total_spend ct' = 12"
proof -
  have "float_of (dgetd [(''cost_usd'', JInt 12)] ''cost_usd'' (JFloat 0)) = Inr 12"
    by (simp add: float_of_def dgetd_def)
  from governance_ready_iff [OF demo_tracker this, of None None "\<lambda>x. []" 10 "''a''" 5]
  show ?thesis by (auto simp: get_total_spend_def dvalues_def)
qed

text \<open>No verdict ever reaches the external server. Whatever the configuration and whatever the
  bridge would do, the result of an invocation is never \<open>ok\<close> and does not depend on the
  bridge: the call is refused for its keyword before it starts.\<close>

theorem gate_never_reaches_server:
  "dget (invoke_tool enabled bridge_ok invocation tool payload) ''status'' \<noteq> Some (JStr ''ok'')
   \<and> invoke_tool enabled bridge_ok invocation tool payload = invoke_tool enabled bridge_ok invocation' tool payload"
proof -
  have "call_bridge [(''server_id'', JStr ''sdlc''), (''tool_name'', JStr tool), (''tool_args'', JObj payload)] i =
      Inl (Exn ''TypeError'' (''call_smithery_tool() got an unexpected keyword argument '' @ repr_str ''tool_args''))" for i
    by (simp add: call_bridge_def dkeys_def BRIDGE_PARAMETERS_def)
  then show ?thesis by (simp add: invoke_tool_def)
qed

text \<open>Dangerous code is refused without running it, and the critic reports it as a failure.\<close>

lemma dangerous_refused:
  assumes "list_ex (contains code) DANGEROUS_KEYWORDS" "endswith path ''.py''" "readf path = Inr code"
  shows "evaluate_staged readf (\<lambda>c. Inr (execute_python_code run c)) path = fail_result ''Error: Dangerous operations detected.''"
  using assms by (simp add: evaluate_staged_def execute_python_code_def startswith_def)

text \<open>The critic's graph decision lets the builder go on only after a \<open>retry\<close> within the budget.\<close>

lemma critic_decision_builder:
  assumes "get_review_graph_decision repair None payload n m = Inr d" "gd_next d = ''builder''"
  shows "\<exists>v. parse_review_verdict repair payload = Inr v \<and> rv_status v = ''retry'' \<and> 0 \<le> n \<and> n < m"
proof -
  from assms(1) obtain v where v: "parse_review_verdict repair payload = Inr v" "0 \<le> n"
    "d = review_rework_decision \<lparr>rl_attempts = n, rl_status = rv_status v, rl_summary = rv_summary v\<rparr> m"
    by (auto simp: get_review_graph_decision_def ReviewLoopState_def run_review_rework_cycle_def result_simps split: if_splits)
  from validate_payload_Inr [OF v(1) [unfolded parse_review_verdict_def]] have "verdict_ok v"
    using validate_verdict_ok by auto
  with v assms(2) show ?thesis
    by (auto simp: review_rework_decision_def verdict_ok_def REVIEW_STATUSES_def split: if_splits)
qed

end
