(* ===== verification/Sdlc_Engine.thy ===== *)
theory Sdlc_Engine
  imports Effects Governance Phase_Store Metrics Embed_Quota
begin

text \<open>
  The autonomous engine of \<open>src/autonomous_sdlc.py\<close>: discover, plan, build, review with
  bounded rework, deliver, one cycle after the other. The engine's own state is the
  record \<open>eng\<close>: its state manager with the files, the counters, the metrics, and the
  outside world (\<open>eg_x\<close>): the repository host, the planner with its model, the staged
  files and the clocks, reached through the operations of \<open>sdlc_ops\<close>. The handlers are
  steps of \<open>Effects\<close>; an await that returns is a step, so a cycle is a sequence of steps.
\<close>

section \<open>Task identifiers\<close>

definition slug_char :: "char \<Rightarrow> bool" where
  "slug_char c = (let n = of_char c :: nat in 97 \<le> n \<and> n \<le> 122 \<or> 48 \<le> n \<and> n \<le> 57)"

text \<open>\<open>re.sub(r"[^a-z0-9]+", "-", raw)\<close>: \<open>prev\<close> is whether the last character was replaced.\<close>

fun squeeze :: "bool \<Rightarrow> string \<Rightarrow> string" where
  "squeeze prev [] = []"
| "squeeze prev (c # cs) =
     (if slug_char c then c # squeeze False cs
      else if prev then squeeze True cs else CHR ''-'' # squeeze True cs)"

definition strip_dashes :: "string \<Rightarrow> string" where
  "strip_dashes s = rev (dropWhile (\<lambda>c. c = CHR ''-'') (rev (dropWhile (\<lambda>c. c = CHR ''-'') s)))"

text \<open>\<open>^[a-z0-9][a-z0-9\-]{0,62}$\<close>, where \<open>$\<close> also matches before a final newline.\<close>

definition task_id_chars :: "string \<Rightarrow> bool" where
  "task_id_chars s = (s \<noteq> [] \<and> length s \<le> 63 \<and> slug_char (hd s) \<and> list_all (\<lambda>c. slug_char c \<or> c = CHR ''-'') (tl s))"

definition task_id_re :: "string \<Rightarrow> bool" where
  "task_id_re s = (task_id_chars s \<or> s \<noteq> [] \<and> last s = CHR 0x0A \<and> task_id_chars (butlast s))"

definition slugify_task_id :: "string \<Rightarrow> string \<Rightarrow> nat \<Rightarrow> string result" where
  "slugify_task_id pre title max_len =
     (let raw = lower (strip title); cut = take max_len (strip_dashes (squeeze False raw));
          slug = (if cut = [] then ''untitled'' else cut); task_id = pre @ ''-'' @ slug in
      if task_id_re task_id then Inr task_id
      else Inl (Exn ''ValueError'' (''rejected unsafe task_id derived from title: '' @ repr_str title)))"

section \<open>Reading a review\<close>

text \<open>\<open>re.search(r"Status:\s*(pass|retry|block)", text, re.IGNORECASE)\<close>, on the lower case.\<close>

definition verdict_at :: "string \<Rightarrow> (string \<times> string) option" where
  "verdict_at s = (case eat ''status:'' s of None \<Rightarrow> None | Some r \<Rightarrow> eat_any REVIEW_STATUSES (lstrip r))"

definition extract_review_status :: "string \<Rightarrow> string" where
  "extract_review_status review =
     (let l = lower review in
      case search_first verdict_at l of
        Some (k, rest) \<Rightarrow> k
      | None \<Rightarrow> if contains l ''block'' then ''block''
          else if contains l ''retry'' \<or> contains l ''fail'' \<or> contains l ''issue'' \<or> contains l ''concern'' then ''retry''
          else ''pass'')"

section \<open>State\<close>

record sdlc_config =
  cf_repo :: string
  cf_max_cycles :: int
  cf_sleep :: nat
  cf_max_retries :: int
  cf_pr_limit :: nat
  cf_instructor :: bool
  cf_tool_model :: "string option"

record 'x sdlc_ops =
  so_planner :: "string \<Rightarrow> string \<Rightarrow> int \<Rightarrow> string list option \<Rightarrow> string option \<Rightarrow> ('x, string) step"
  so_structured :: "string \<Rightarrow> string \<Rightarrow> ('x, review_verdict) step"
  so_list_prs :: "('x, json list) step"
  so_read_repo :: "string \<Rightarrow> ('x, string) step"
  so_commit :: "string \<Rightarrow> string \<Rightarrow> string \<Rightarrow> string \<Rightarrow> ('x, string) step"
  so_create_pr :: "string \<Rightarrow> string \<Rightarrow> string \<Rightarrow> ('x, string) step"
  so_merge :: "int \<Rightarrow> string \<Rightarrow> ('x, string) step"
  so_issue :: "string \<Rightarrow> string \<Rightarrow> ('x, string) step"
  so_staged :: "('x, (string \<times> real) list) step"
  so_read_file :: "string \<Rightarrow> ('x, string) step"
  so_write_file :: "string \<Rightarrow> string \<Rightarrow> ('x, string) step"
  so_gate :: "string \<Rightarrow> json \<Rightarrow> ('x, (string, json) dict) step"
  so_time :: "('x, real) step"
  so_clock :: "('x, int \<times> string) step"
  so_stamp :: "('x, fault \<times> string \<times> string) step"
  so_shutdown :: "('x, bool) step"
  so_remove :: "('x, unit) step"
  so_sleep :: "('x, unit) step"
  so_repair :: "string \<Rightarrow> string option"
  so_isof :: "int \<Rightarrow> string"
  so_dumpf :: "int \<Rightarrow> string"
  so_parse_at :: "json \<Rightarrow> int option"
  so_langgraph :: "graph_invoke option"
  so_gates :: "quality_gate list"

record 'x eng =
  eg_sm :: state_manager
  eg_fs :: fs
  eg_cycle :: int
  eg_done :: int
  eg_failed :: int
  eg_metrics :: metrics_registry
  eg_x :: 'x

definition ext :: "('x, 'a) step \<Rightarrow> ('x eng, 'a) step" where
  "ext m s = (case m (eg_x s) of (x', r) \<Rightarrow> (s\<lparr>eg_x := x'\<rparr>, r))"

text \<open>What the state manager's operations do to the engine's state; \<open>so_stamp\<close> says how the
  write goes, which temporary name it uses and what the clock reads.\<close>

definition with_manager ::
  "'x sdlc_ops \<Rightarrow> (fault \<Rightarrow> string \<Rightarrow> string \<Rightarrow> state_manager \<Rightarrow> fs \<Rightarrow> state_manager \<times> fs \<times> 'a result) \<Rightarrow> ('x eng, 'a) step" where
  "with_manager ops f = bnd (ext (so_stamp ops)) (\<lambda>(flt, tmp, now). \<lambda>s.
     (case f flt tmp now (eg_sm s) (eg_fs s) of (sm', w', r) \<Rightarrow> (s\<lparr>eg_sm := sm', eg_fs := w'\<rparr>, r)))"

definition put_row :: "'x sdlc_ops \<Rightarrow> string \<Rightarrow> (string, json) dict \<Rightarrow> string \<Rightarrow> ('x eng, unit) step" where
  "put_row ops task_id data agent = with_manager ops (\<lambda>flt tmp now. set_task flt tmp now task_id data agent)"

definition save_item :: "'x sdlc_ops \<Rightarrow> string \<Rightarrow> work_item \<Rightarrow> ('x eng, unit) step" where
  "save_item ops agent item = with_manager ops (\<lambda>flt tmp now. save_work_item (so_isof ops) flt tmp now agent item)"

text \<open>The item of a task, and whether it was created here: then its payload is the very
  dictionary the state manager holds.\<close>

definition open_item :: "'x sdlc_ops \<Rightarrow> string \<Rightarrow> ('x eng, work_item \<times> bool) step" where
  "open_item ops task_id = bnd (get_st (\<lambda>s. load_work_item (so_parse_at ops) (eg_sm s) task_id)) (\<lambda>l.
     bnd (with_manager ops (\<lambda>flt tmp now. ensure_work_item (so_parse_at ops) (so_isof ops) flt tmp now task_id PLAN)) (\<lambda>item.
       ret (item, l = Inr None)))"

definition share_payload :: "work_item \<Rightarrow> state_manager \<Rightarrow> state_manager" where
  "share_payload item sm = (case get_task sm (wi_id item) of
      Some (JObj d) \<Rightarrow> (case dget d WORK_ITEM_KEY of
          Some (JObj raw) \<Rightarrow> sm\<lparr>sm_data := dset (wi_id item)
             (JObj (dset WORK_ITEM_KEY (JObj (dset ''payload'' (JObj (wi_payload item)) raw)) d)) (sm_data sm)\<rparr>
        | _ \<Rightarrow> sm)
    | _ \<Rightarrow> sm)"

definition with_payload :: "string \<Rightarrow> json \<Rightarrow> work_item \<Rightarrow> work_item" where
  "with_payload k v item = item\<lparr>wi_payload := dset k v (wi_payload item)\<rparr>"

definition put_payload :: "bool \<Rightarrow> string \<Rightarrow> json \<Rightarrow> work_item \<Rightarrow> ('x eng, work_item) step" where
  "put_payload shared k v item = (let item' = with_payload k v item in
     bnd (modify (\<lambda>s. if shared then s\<lparr>eg_sm := share_payload item' (eg_sm s)\<rparr> else s)) (\<lambda>_. ret item'))"

text \<open>\<open>controller.advance\<close>, whose report the engine does not look at.\<close>

definition adv :: "'x sdlc_ops \<Rightarrow> phase \<Rightarrow> string \<Rightarrow> bool \<Rightarrow> work_item \<Rightarrow> ('x eng, work_item) step" where
  "adv ops target reason force item = bnd (ext (so_clock ops)) (\<lambda>(now, ts). \<lambda>s.
     (case advance \<lparr>pc_gates = so_gates ops, pc_sm = Some (eg_sm s)\<rparr> now ts target reason force item (eg_fs s) of
        (item', w', r) \<Rightarrow> (s\<lparr>eg_fs := w'\<rparr>, case r of Inl e \<Rightarrow> Inl e | Inr rep \<Rightarrow> Inr item')))"

section \<open>Discover and plan\<close>

definition discovered_dict :: "discovery_task \<Rightarrow> (string, json) dict" where
  "discovered_dict t = [(''title'', JStr (dt_title t)), (''priority'', JStr (dt_priority t)),
     (''description'', JStr (dt_description t)), (''file_hint'', JStr (dt_file_hint t))]"

definition is_value_error :: "exn \<Rightarrow> bool" where
  "is_value_error e = List.member [''ValueError'', ''StructuredOutputError'', ''ValidationError'', ''JSONDecodeError''] (exn_type e)"

definition FALLBACK_TASKS :: "(string, json) dict list" where
  "FALLBACK_TASKS = [[(''title'', JStr ''Add Architectural Documentation to Core Modules''), (''priority'', JStr ''MEDIUM''),
     (''description'', JStr (''The project lacks high-level README files in the core modules explaining the architectural '' @
     ''patterns and state management flow.'')),
     (''file_hint'', JStr ''src/staged_agents/README_ARCHITECTURE.md'')]]"

definition str_of :: "json \<Rightarrow> string result" where
  "str_of v = (case v of JStr s \<Rightarrow> Inr s | _ \<Rightarrow> Inl (attribute_error ''strip''))"

definition item_at :: "(string, json) dict \<Rightarrow> string \<Rightarrow> string result" where
  "item_at d k = (case dget d k of None \<Rightarrow> Inl (key_error k) | Some v \<Rightarrow> str_of v)"

text \<open>\<open>existing and existing.get("status") in names\<close>\<close>

definition status_among :: "string list \<Rightarrow> state_manager \<Rightarrow> string \<Rightarrow> bool result" where
  "status_among names sm task_id = (case get_task sm task_id of
      None \<Rightarrow> Inr False
    | Some v \<Rightarrow> if \<not> truthy v then Inr False
        else (case v of
            JObj d \<Rightarrow> Inr (case dgetd d ''status'' JNull of JStr s \<Rightarrow> List.member names s | _ \<Rightarrow> False)
          | _ \<Rightarrow> Inl (attribute_error ''get'')))"

fun pick_fallback :: "state_manager \<Rightarrow> (string, json) dict list \<Rightarrow> (string, json) dict list result" where
  "pick_fallback sm [] = Inr [hd FALLBACK_TASKS]"
| "pick_fallback sm (fb # rest) = (case bindr (item_at fb ''title'') (\<lambda>t. slugify_task_id ''sdlc'' t 40) of
      Inl e \<Rightarrow> if is_value_error e then pick_fallback sm rest else Inl e
    | Inr tid \<Rightarrow> bindr (status_among [''COMPLETED'', ''MERGED'', ''DELIVERED''] sm tid) (\<lambda>b.
        if \<not> b then Inr [fb] else pick_fallback sm rest))"

definition discover_prompt :: "sdlc_config \<Rightarrow> string" where
  "discover_prompt cf =
     ''You are a Principal Engineer analyzing the GitHub repository '' @ [CHR 0x27] @ cf_repo cf @ [CHR 0x27] @ ''.'' @
     [CHR 0x0A] @ ''Your goal is to identify ONE critical gap or refactor opportunity and output a task for it.'' @
     [CHR 0x0A, CHR 0x0A] @ ''DECISIVENESS RULES:'' @ [CHR 0x0A] @
     ''1. Run 3-5 tool calls to explore the repo (list_repo_contents, read_repo_file).'' @ [CHR 0x0A] @
     ''2. Once you see ANY gap (missing documentation, inconsistent naming, missing validation, '' @
     ''unfinished feature), STOP EXPLORING.'' @ [CHR 0x0A] @
     ''3. Immediately output your findings as JSON with keys title, priority, description, and '' @ ''file_hint.'' @
     [CHR 0x0A, CHR 0x0A] @ ''DO NOT keep exploring. Be decisive. Output the task JSON as soon as you find one issue.''"

definition discover_system :: string where
  "discover_system =
     ''You are the Discovery & Ideation agent. Your primary metric is DECISIVENESS. Find one issue, '' @
     ''brainstorm a fix, and output task JSON. Never return empty.''"

definition discover :: "'x sdlc_ops \<Rightarrow> sdlc_config \<Rightarrow> ('x eng, (string, json) dict list) step" where
  "discover ops cf = bnd (ext (so_planner ops (discover_prompt cf) discover_system 25 None None)) (\<lambda>result.
     case parse_discovery_tasks (so_repair ops) (JStr result) of
       Inl e \<Rightarrow> if is_value_error e then bnd (get_st (\<lambda>s. pick_fallback (eg_sm s) FALLBACK_TASKS)) lift_res else throw e
     | Inr ts \<Rightarrow> if ts \<noteq> [] then ret (map discovered_dict ts)
         else bnd (get_st (\<lambda>s. pick_fallback (eg_sm s) FALLBACK_TASKS)) lift_res)"

definition priority_rank :: "(string, json) dict \<Rightarrow> nat" where
  "priority_rank t = (case dgetd t ''priority'' (JStr ''LOW'') of
      JStr s \<Rightarrow> if s = ''HIGH'' then 0 else if s = ''MEDIUM'' then 1 else 2 | _ \<Rightarrow> 2)"

definition pull_title :: "json \<Rightarrow> string result" where
  "pull_title p = (case p of
      JObj d \<Rightarrow> (case dget d ''title'' of
          None \<Rightarrow> Inl (key_error ''title'') | Some (JStr t) \<Rightarrow> Inr (lower t) | Some v \<Rightarrow> Inl (attribute_error ''lower''))
    | _ \<Rightarrow> Inl (Exn ''TypeError'' ''indices''))"

definition pr_scan_error :: "exn \<Rightarrow> bool" where
  "pr_scan_error e = List.member [''ConnectionError'', ''BrokenPipeError'', ''ConnectionAbortedError'',
     ''ConnectionRefusedError'', ''ConnectionResetError'', ''TimeoutError'', ''KeyError'', ''TypeError''] (exn_type e)"

definition open_titles :: "'x sdlc_ops \<Rightarrow> sdlc_config \<Rightarrow> ('x eng, string list) step" where
  "open_titles ops cf = catch_if pr_scan_error
     (bnd (ext (so_list_prs ops)) (\<lambda>prs. lift_res (map_results pull_title (take (cf_pr_limit cf) prs)))) (\<lambda>e. ret [])"

fun pick_task ::
  "state_manager \<Rightarrow> string list \<Rightarrow> (string, json) dict list \<Rightarrow> (string, json) dict option result" where
  "pick_task sm titles [] = Inr None"
| "pick_task sm titles (t # ts) = bindr (str_of (dgetd t ''title'' (JStr []))) (\<lambda>raw. let title = strip raw in
     if title = [] then pick_task sm titles ts
     else (case slugify_task_id ''sdlc'' title 40 of
         Inl e \<Rightarrow> pick_task sm titles ts
       | Inr tid \<Rightarrow> bindr (status_among [''COMPLETED'', ''MERGED''] sm tid) (\<lambda>b.
           if b then pick_task sm titles ts
           else if list_ex (\<lambda>pt. contains pt (lower title) \<or> contains (lower title) pt) titles then pick_task sm titles ts
           else Inr (Some (dset ''task_id'' (JStr tid) t)))))"

definition plan :: "'x sdlc_ops \<Rightarrow> sdlc_config \<Rightarrow> (string, json) dict list \<Rightarrow> ('x eng, (string, json) dict option) step" where
  "plan ops cf tasks = bnd (open_titles ops cf) (\<lambda>titles.
     bnd (get_st (\<lambda>s. pick_task (eg_sm s) titles (sort_key priority_rank tasks))) lift_res)"

section \<open>The architecture note\<close>

definition or_text :: "(string, json) dict \<Rightarrow> string \<Rightarrow> string \<Rightarrow> string result" where
  "or_text d k dflt = (let v = dgetd d k JNull in if truthy v then bindr (str_of v) (\<lambda>s. Inr (strip s)) else Inr (strip dflt))"

text \<open>Any exception of the synthesis gives \<open>None\<close>. (Upper case is the one of ASCII letters.)\<close>

definition architecture_note_from_task ::
  "(int \<Rightarrow> string) \<Rightarrow> int \<Rightarrow> (string, json) dict \<Rightarrow> (string, json) dict option" where
  "architecture_note_from_task dumpf now task =
     (case bindr (or_text task ''title'' []) (\<lambda>title. bindr (or_text task ''description'' []) (\<lambda>description.
           bindr (or_text task ''priority'' ''MEDIUM'') (\<lambda>prio. bindr (or_text task ''file_hint'' []) (\<lambda>hint.
             if title = [] \<or> description = [] then Inr None
             else bindr (item_at task ''task_id'') (\<lambda>tid. bindr (draft_architecture_note dumpf now tid title description
                 ''Implement as specified by the Ideator; no additional architectural divergence.''
                 [''Priority: '' @ map upper_char prio,
                  ''Implemented by the Builder agent; delivered through the autonomous SDLC loop.'']
                 [''Defer: leave the gap unaddressed for the next discovery cycle.'']
                 (if hint = [] then [] else [hint])) (\<lambda>n. Inr (Some n))))))) of
        Inr n \<Rightarrow> n
      | Inl e \<Rightarrow> None)"

section \<open>Build and review\<close>

definition NL :: string where
  "NL = [CHR 0x0A]"

definition repo_context :: "'x sdlc_ops \<Rightarrow> (string, json) dict \<Rightarrow> ('x eng, string list) step" where
  "repo_context ops task = bnd (lift_res (str_of (dgetd task ''file_hint'' (JStr [])))) (\<lambda>hint.
     bnd (if hint = [] then ret [] else bnd (ext (so_read_repo ops hint)) (\<lambda>content.
         ret (if startswith content ''Error'' then [] else [''--- '' @ hint @ '' (CURRENT CONTENT) ---'' @ NL @ content]))) (\<lambda>parts.
     if parts \<noteq> [] then ret parts
     else bnd (each (\<lambda>path. bnd (ext (so_read_repo ops path)) (\<lambda>content.
         ret (if startswith content ''Error'' then [] else [''--- '' @ path @ '' ---'' @ NL @ take 1000 content])))
       [''README.md'', ''build.gradle.kts'']) (\<lambda>ps. ret (concat ps))))"

definition builder_prompt :: "string \<Rightarrow> string \<Rightarrow> string \<Rightarrow> string \<Rightarrow> string" where
  "builder_prompt title description hint context_text =
     ''Task: '' @ title @ [CHR 0x0A] @ ''Description: '' @ description @ [CHR 0x0A] @ ''File to create/modify: '' @ hint @
     [CHR 0x0A, CHR 0x0A] @ ''Repository Context:'' @ [CHR 0x0A] @ context_text @ [CHR 0x0A, CHR 0x0A] @
     ''CRITICAL INSTRUCTIONS:'' @ [CHR 0x0A] @ ''1. You are in a RESTRICTED ENVIRONMENT. You ONLY have the '' @ [CHR 0x27] @
     ''write_file'' @ [CHR 0x27] @ '' tool.'' @ [CHR 0x0A] @
     ''2. DO NOT attempt to list directories or read other files. You have all the context you need '' @ ''above.'' @
     [CHR 0x0A] @ ''3. Write the FULL Kotlin implementation (.kt) to fix the task.'' @ [CHR 0x0A] @ ''4. Use '' @ [CHR 0x27] @
     ''write_file'' @ [CHR 0x27] @ '' with path starting with '' @ [CHR 0x27] @ ''src/staged_agents/'' @ [CHR 0x27] @ ''.'' @
     [CHR 0x0A] @ ''5. After writing the file, immediately say DONE: <summary>.'' @ [CHR 0x0A, CHR 0x0A] @
     ''Kotlin Template:'' @ [CHR 0x0A] @ ''package com.chimera.tools'' @ [CHR 0x0A] @ ''// ... implementation ...'' @
     [CHR 0x0A]"

definition builder_system :: string where
  "builder_system =
     ''You are a Senior Kotlin Engineer. Your ONLY allowed action is calling '' @ [CHR 0x27] @ ''write_file'' @ [CHR 0x27] @
     ''. You MUST NOT ask for more context or try to use other tools. Implement the fix in Kotlin and '' @
     ''write it to src/staged_agents/.''"

definition STAGED_DIR :: string where
  "STAGED_DIR = ''src/staged_agents/''"

text \<open>The newest staged file that was written after the start of the build.\<close>

definition newest_staged :: "real \<Rightarrow> (string \<times> real) list \<Rightarrow> string option" where
  "newest_staged start files =
     (case sort_desc snd (filter (\<lambda>(f, t). (endswith f ''.kt'' \<or> endswith f ''.py'' \<or> endswith f ''.md'') \<and> start < t) files) of
        [] \<Rightarrow> None
      | (f, t) # rest \<Rightarrow> Some (STAGED_DIR @ f))"

text \<open>\<open>re.search(r"```label\n(.*?)\n```", text, re.DOTALL)\<close>\<close>

definition code_block :: "string \<Rightarrow> string \<Rightarrow> string option" where
  "code_block label text = (case find_lit (Scan.FENCE @ label @ NL) text of
      None \<Rightarrow> None
    | Some (a, rest) \<Rightarrow> map_option fst (find_lit (NL @ Scan.FENCE) rest))"

definition labelled_block :: "string \<Rightarrow> (string \<times> string) option" where
  "labelled_block text = (case code_block ''kotlin'' text of
      Some c \<Rightarrow> Some (c, ''.kt'')
    | None \<Rightarrow> (case code_block ''python'' text of
        Some c \<Rightarrow> Some (c, ''.py'')
      | None \<Rightarrow> map_option (\<lambda>c. (c, ''.md'')) (code_block ''markdown'' text)))"

definition build :: "'x sdlc_ops \<Rightarrow> sdlc_config \<Rightarrow> (string, json) dict \<Rightarrow> ('x eng, string option) step" where
  "build ops cf task = bnd (lift_res (item_at task ''task_id'')) (\<lambda>task_id.
     bnd (put_row ops task_id (dset ''agent'' (JStr ''Builder'') (dset ''status'' (JStr ''IN_PROGRESS'') task)) ''Builder'') (\<lambda>_.
     bnd (repo_context ops task) (\<lambda>parts.
     bnd (lift_res (item_at task ''title'')) (\<lambda>title. bnd (lift_res (item_at task ''description'')) (\<lambda>description.
     bnd (lift_res (str_of (dgetd task ''file_hint'' (JStr ''N/A'')))) (\<lambda>hint.
     bnd (ext (so_time ops)) (\<lambda>start.
     bnd (ext (so_planner ops (builder_prompt title description hint (join (NL @ NL) parts)) builder_system 6
            (Some [''write_file'']) (cf_tool_model cf))) (\<lambda>result.
     bnd (ext (so_staged ops)) (\<lambda>files.
     case newest_staged start files of
       Some latest \<Rightarrow> bnd (put_row ops task_id [(''status'', JStr ''BUILT''), (''artifact'', JStr latest)] ''Builder'') (\<lambda>_. ret (Some latest))
     | None \<Rightarrow> (case labelled_block result of
         Some (code, extn) \<Rightarrow> (let fpath = STAGED_DIR @ task_id @ extn in
           bnd (ext (so_write_file ops fpath code)) (\<lambda>_.
           bnd (put_row ops task_id [(''status'', JStr ''BUILT''), (''artifact'', JStr fpath)] ''Builder'') (\<lambda>_. ret (Some fpath))))
       | None \<Rightarrow> bnd (put_row ops task_id [(''status'', JStr ''FAILED''), (''reason'', JStr ''no artifact'')] ''Builder'') (\<lambda>_.
           ret None)))))))))))"

definition critic_prompt :: "string \<Rightarrow> string \<Rightarrow> string" where
  "critic_prompt title code =
     ''Review this tool for task: '' @ title @ [CHR 0x0A, CHR 0x0A, CHR 0x60, CHR 0x60, CHR 0x60] @ ''python'' @ [CHR 0x0A] @
     code @ [CHR 0x0A, CHR 0x60, CHR 0x60, CHR 0x60, CHR 0x0A, CHR 0x0A] @
     ''Return a structured review with status (pass/retry/block), summary, concerns, optional '' @
     ''retry_reason, and recommended_actions.''"

definition critic_system :: string where
  "critic_system = ''You are the Critic. Review code for safety, style, and correctness. Never return empty.''"

definition review :: "'x sdlc_ops \<Rightarrow> sdlc_config \<Rightarrow> string \<Rightarrow> (string, json) dict \<Rightarrow> ('x eng, string) step" where
  "review ops cf artifact task = bnd (ext (so_read_file ops artifact)) (\<lambda>code.
     bnd (lift_res (item_at task ''title'')) (\<lambda>title.
     if cf_instructor cf
     then bnd (ext (so_structured ops (critic_prompt title code) critic_system)) (\<lambda>v. ret (format_review_verdict v))
     else ext (so_planner ops (critic_prompt title code) critic_system 3 None None)))"

section \<open>Deliver\<close>

definition last_segment :: "string \<Rightarrow> string" where
  "last_segment s = rev (takeWhile (\<lambda>c. c \<noteq> CHR ''/'') (rev s))"

definition remote_path :: "string \<Rightarrow> string" where
  "remote_path artifact = (let filename = last_segment artifact in
     if endswith filename ''.kt'' then ''src/main/java/com/chimera/tools/'' @ filename
     else if endswith filename ''.md'' \<and> contains filename ''README'' then ''docs/'' @ filename
     else ''tools/'' @ filename)"

definition pr_body :: "string \<Rightarrow> string \<Rightarrow> string \<Rightarrow> string \<Rightarrow> string" where
  "pr_body title priority description rev_text =
     ''## Automated Kotlin Feature Implementation'' @ [CHR 0x0A, CHR 0x0A] @ ''**Task:** '' @ title @ [CHR 0x0A] @
     ''**Priority:** '' @ priority @ [CHR 0x0A] @ ''**Language:** Kotlin'' @ [CHR 0x0A, CHR 0x0A] @ ''**Description:**'' @
     [CHR 0x0A] @ description @ [CHR 0x0A, CHR 0x0A] @ ''**Gap Analysis:**'' @ [CHR 0x0A] @
     ''This Kotlin feature was identified as missing during automated feature scanning of the Android '' @ ''codebase.'' @
     [CHR 0x0A, CHR 0x0A] @ ''**Critic Review:**'' @ [CHR 0x0A] @ take 800 rev_text @ [CHR 0x0A, CHR 0x0A] @ ''---'' @
     [CHR 0x0A] @ ''*Generated by Cognitive Foundry Feature Discovery Engine*''"

definition issue_body :: "string \<Rightarrow> string \<Rightarrow> string \<Rightarrow> string \<Rightarrow> string" where
  "issue_body priority description pr_url rev_text =
     ''**Priority:** '' @ priority @ [CHR 0x0A, CHR 0x0A] @ ''**Description:**'' @ [CHR 0x0A] @ description @
     [CHR 0x0A, CHR 0x0A] @ ''**PR:** '' @ pr_url @ [CHR 0x0A, CHR 0x0A] @ ''**Critic Review:**'' @ [CHR 0x0A] @
     take 500 rev_text"

text \<open>The merge: a number that does not parse, or a merge that raises, is logged and passed over.\<close>

definition merge_pr :: "'x sdlc_ops \<Rightarrow> string \<Rightarrow> string \<Rightarrow> string \<Rightarrow> ('x eng, unit) step" where
  "merge_pr ops pr_url title description = catch_if is_exception
     (case parse_int (last_segment pr_url) of
        None \<Rightarrow> throw (Exn ''ValueError'' ''invalid literal for int()'')
      | Some n \<Rightarrow> bnd (ext (so_merge ops n (''Autonomous Merge: '' @ title @ NL @ NL @ take 200 description))) (\<lambda>_. ret ()))
     (\<lambda>e. ret ())"

text \<open>\<open>None\<close> is a skipped artifact. (The robot in the title of the body is left out.)\<close>

definition deliver ::
  "'x sdlc_ops \<Rightarrow> string \<Rightarrow> (string, json) dict \<Rightarrow> string \<Rightarrow> ('x eng, string option) step" where
  "deliver ops artifact task review_text = bnd (lift_res (item_at task ''task_id'')) (\<lambda>task_id.
     bnd (ext (so_read_file ops artifact)) (\<lambda>code.
     if is_low_value_content (Some code) DEFAULT_MIN_BYTES
     then bnd (put_row ops task_id [(''status'', JStr ''SKIPPED_LOW_VALUE''), (''artifact'', JStr artifact)] ''Builder'') (\<lambda>_. ret None)
     else bnd (ext (so_time ops)) (\<lambda>t. let branch = ''bot/'' @ task_id @ ''-'' @ str_of_int \<lfloor>t\<rfloor> in
       bnd (lift_res (item_at task ''title'')) (\<lambda>title. bnd (lift_res (item_at task ''description'')) (\<lambda>description.
       bnd (lift_res (str_of (dgetd task ''priority'' (JStr ''N/A'')))) (\<lambda>priority.
       bnd (ext (so_commit ops (remote_path artifact) code (''[FeatureBot] '' @ title @ NL @ NL @ take 200 description) branch)) (\<lambda>_.
       bnd (ext (so_create_pr ops (''[FeatureBot] '' @ title) (pr_body title priority description review_text) branch)) (\<lambda>pr_url.
       bnd (merge_pr ops pr_url title description) (\<lambda>_.
       bnd (ext (so_issue ops (''[SDLCBot] '' @ title) (issue_body priority description pr_url review_text))) (\<lambda>issue_url.
       bnd (put_row ops task_id [(''status'', JStr ''DELIVERED''), (''artifact'', JStr artifact), (''branch'', JStr branch),
             (''pr_url'', JStr pr_url), (''issue_url'', JStr issue_url), (''review'', JStr (take 200 review_text))] ''Builder'') (\<lambda>_.
         ret (Some pr_url))))))))))))"

section \<open>A cycle\<close>

definition count_done :: "('x eng, unit) step" where
  "count_done = modify (\<lambda>s. s\<lparr>eg_done := eg_done s + 1\<rparr>)"

definition count_failed :: "('x eng, unit) step" where
  "count_failed = modify (\<lambda>s. s\<lparr>eg_failed := eg_failed s + 1\<rparr>)"

datatype review_end = Passed work_item string string int | Blocked | NoFuel

definition rework_decision ::
  "'x sdlc_ops \<Rightarrow> sdlc_config \<Rightarrow> work_item \<Rightarrow> string \<Rightarrow> int \<Rightarrow> ('x eng, string) step" where
  "rework_decision ops cf item rev_text attempts = bnd (ext (so_clock ops)) (\<lambda>(now, ts). \<lambda>s.
     (case decide_rework (so_langgraph ops) \<lparr>pc_gates = so_gates ops, pc_sm = Some (eg_sm s)\<rparr> ts attempts
        (extract_review_status rev_text) (take 200 rev_text) (cf_max_retries cf) item (eg_fs s) of
        (w', r) \<Rightarrow> (s\<lparr>eg_fs := w'\<rparr>, r)))"

definition block_review :: "'x sdlc_ops \<Rightarrow> string \<Rightarrow> work_item \<Rightarrow> int \<Rightarrow> ('x eng, review_end) step" where
  "block_review ops task_id item attempts = bnd count_failed (\<lambda>_.
     bnd (put_row ops task_id [(''status'', JStr ''REVIEW_BLOCKED''),
        (''reason'', JStr (''critic_stop after '' @ str_of_int attempts))] ''Critic'') (\<lambda>_.
     bnd (save_item ops ''Critic'' item) (\<lambda>_. ret Blocked)))"

text \<open>
  The rework loop (\<open>while True\<close>). \<open>NoFuel\<close> stands for a loop that has not ended within the
  fuel; with the program's own decision it never does, see \<open>rework_ends\<close>.
\<close>

fun rework_loop ::
  "nat \<Rightarrow> 'x sdlc_ops \<Rightarrow> sdlc_config \<Rightarrow> (string, json) dict \<Rightarrow> string \<Rightarrow> work_item \<Rightarrow> string \<Rightarrow> string \<Rightarrow> int
    \<Rightarrow> ('x eng, review_end) step" where
  "rework_loop 0 ops cf task task_id item artifact rev_text attempts = ret NoFuel"
| "rework_loop (Suc n) ops cf task task_id item artifact rev_text attempts =
     bnd (rework_decision ops cf item rev_text attempts) (\<lambda>next_step.
     if next_step = ''stop'' then ret (Passed item artifact rev_text attempts)
     else if next_step = ''critic_stop'' then block_review ops task_id item attempts
     else bnd (build ops cf task) (\<lambda>rebuilt.
       let a = (case rebuilt of None \<Rightarrow> artifact | Some x \<Rightarrow> x);
           item' = (case rebuilt of None \<Rightarrow> item | Some x \<Rightarrow> with_payload ''artifact'' (JStr x) item) in
       bnd (review ops cf a task) (\<lambda>r.
       rework_loop n ops cf task task_id (with_payload ''review'' (JStr r) item') a r (attempts + 1))))"

text \<open>\<open>except Exception\<close> of the delivery.\<close>

definition delivery_failed ::
  "'x sdlc_ops \<Rightarrow> string \<Rightarrow> work_item \<Rightarrow> exn \<Rightarrow> ('x eng, bool) step" where
  "delivery_failed ops task_id item e = bnd count_failed (\<lambda>_.
     bnd (put_row ops task_id [(''status'', JStr ''FAILED''), (''reason'', JStr (exn_msg e))] ''Builder'') (\<lambda>_.
     bnd (save_item ops ''Builder'' item) (\<lambda>_. ret False)))"

definition deliver_phase ::
  "'x sdlc_ops \<Rightarrow> (string, json) dict \<Rightarrow> string \<Rightarrow> work_item \<Rightarrow> string \<Rightarrow> string \<Rightarrow> ('x eng, bool) step" where
  "deliver_phase ops task task_id item artifact rev_text =
     bnd (attempt is_exception (deliver ops artifact task rev_text)) (\<lambda>r. case r of
       Inl e \<Rightarrow> delivery_failed ops task_id item e
     | Inr url \<Rightarrow> (let item1 = with_payload ''pr_url'' (case url of None \<Rightarrow> JNull | Some u \<Rightarrow> JStr u) item in
         bnd (attempt is_exception (adv ops OPERATE (''PR opened: '' @ (case url of None \<Rightarrow> ''None'' | Some u \<Rightarrow> u)) False item1)) (\<lambda>r2. case r2 of
           Inl e \<Rightarrow> delivery_failed ops task_id item1 e
         | Inr item2 \<Rightarrow> bnd count_done (\<lambda>_.
             bnd (attempt is_exception (save_item ops ''Builder'' item2)) (\<lambda>r3. case r3 of
               Inl e \<Rightarrow> delivery_failed ops task_id item2 e
             | Inr u \<Rightarrow> ret True)))))"

text \<open>From the reviewed item to the end of the cycle.\<close>

definition govern_and_deliver ::
  "'x sdlc_ops \<Rightarrow> (string, json) dict \<Rightarrow> string \<Rightarrow> work_item \<Rightarrow> string \<Rightarrow> string \<Rightarrow> int \<Rightarrow> ('x eng, bool) step" where
  "govern_and_deliver ops task task_id item artifact rev_text attempts =
     bnd (adv ops REVIEW ''review passed'' False item) (\<lambda>item1.
     bnd (ext (so_gate ops (wi_id item1) (JObj [(''review'', JStr rev_text), (''ready'', JBool True), (''attempts'', JInt attempts)]))) (\<lambda>gate.
     bnd (adv ops GOVERN ''governance gate recorded'' False (with_payload ''governance'' (JObj gate) item1)) (\<lambda>item2.
       deliver_phase ops task task_id item2 artifact rev_text)))"

text \<open>PLAN to ARCHITECT, with the note if there is one.\<close>

definition architect_phase ::
  "'x sdlc_ops \<Rightarrow> (string, json) dict \<Rightarrow> bool \<Rightarrow> work_item \<Rightarrow> ('x eng, work_item) step" where
  "architect_phase ops task shared item = bnd (ext (so_clock ops)) (\<lambda>(now, ts).
     case architecture_note_from_task (so_dumpf ops) now task of
       Some note \<Rightarrow> bnd (put_payload shared ''architecture'' (JObj note) item) (\<lambda>item1.
         bnd (lift_res (item_at note ''title'')) (\<lambda>title. adv ops ARCHITECT (''ADR drafted: '' @ title) False item1))
     | None \<Rightarrow> adv ops ARCHITECT ''auto-skip: ADR synthesis unavailable'' True item)"

definition work_on_task :: "nat \<Rightarrow> 'x sdlc_ops \<Rightarrow> sdlc_config \<Rightarrow> (string, json) dict \<Rightarrow> ('x eng, bool) step" where
  "work_on_task fuel ops cf task = bnd (lift_res (item_at task ''task_id'')) (\<lambda>task_id.
     bnd (open_item ops task_id) (\<lambda>(item0, shared).
     bnd (put_payload shared ''task'' (JObj task) item0) (\<lambda>item1.
     bnd (architect_phase ops task shared item1) (\<lambda>item2.
     bnd (build ops cf task) (\<lambda>built. case built of
       None \<Rightarrow> bnd count_failed (\<lambda>_. bnd (save_item ops ''Builder'' item2) (\<lambda>_. ret False))
     | Some artifact \<Rightarrow>
       bnd (adv ops IMPLEMENT ''builder produced artifact'' False (with_payload ''artifact'' (JStr artifact) item2)) (\<lambda>item3.
       bnd (review ops cf artifact task) (\<lambda>rev_text.
       bnd (rework_loop fuel ops cf task task_id (with_payload ''review'' (JStr rev_text) item3) artifact rev_text 1) (\<lambda>fin. case fin of
         Passed item4 artifact' rev' attempts \<Rightarrow> govern_and_deliver ops task task_id item4 artifact' rev' attempts
       | Blocked \<Rightarrow> ret False
       | NoFuel \<Rightarrow> throw (Exn ''NoFuel'' [])))))))))"

definition run_cycle :: "nat \<Rightarrow> 'x sdlc_ops \<Rightarrow> sdlc_config \<Rightarrow> ('x eng, bool) step" where
  "run_cycle fuel ops cf = bnd (modify (\<lambda>s. s\<lparr>eg_cycle := eg_cycle s + 1\<rparr>)) (\<lambda>_.
     bnd (discover ops cf) (\<lambda>tasks. if tasks = [] then ret False
       else bnd (plan ops cf tasks) (\<lambda>t. case t of None \<Rightarrow> ret False | Some task \<Rightarrow> work_on_task fuel ops cf task)))"

section \<open>The engine's loop\<close>

text \<open>The sleep looks at the shutdown file before every second.\<close>

fun sleep_loop :: "'x sdlc_ops \<Rightarrow> nat \<Rightarrow> ('x eng, unit) step" where
  "sleep_loop ops 0 = ret ()"
| "sleep_loop ops (Suc k) = bnd (ext (so_shutdown ops)) (\<lambda>b. if b then ret () else bnd (ext (so_sleep ops)) (\<lambda>_. sleep_loop ops k))"

definition shutdown :: "'x sdlc_ops \<Rightarrow> ('x eng, unit) step" where
  "shutdown ops = bnd (ext (so_shutdown ops)) (\<lambda>b. if b then ext (so_remove ops) else ret ())"

definition record_cycle :: "('x eng, unit) step" where
  "record_cycle = modify (\<lambda>s. case record_tool_call ''sdlc.cycle'' 0 None (eg_metrics s, eg_fs s) of
     (r, w) \<Rightarrow> s\<lparr>eg_metrics := r, eg_fs := w\<rparr>)"

definition cycle_once :: "nat \<Rightarrow> 'x sdlc_ops \<Rightarrow> sdlc_config \<Rightarrow> ('x eng, unit) step" where
  "cycle_once fuel ops cf = bnd (attempt is_exception (run_cycle fuel ops cf)) (\<lambda>r. case r of
     Inl e \<Rightarrow> count_failed | Inr b \<Rightarrow> ret ())"

text \<open>Whether the loop goes on after a cycle.\<close>

definition retry_stops :: "sdlc_config \<Rightarrow> int \<Rightarrow> 'x eng \<Rightarrow> bool" where
  "retry_stops cf failed_before s =
     (0 < cf_max_cycles cf \<and> failed_before < eg_failed s \<and>
      gd_next (run_autonomous_retry \<lparr>ar_attempts = eg_cycle s, ar_status = ''retry'',
        ar_failure = ''cycle ended without successful delivery''\<rparr> (cf_max_cycles cf)) = ''stop'')"

text \<open>\<open>run\<close>: at most \<open>n\<close> rounds; the value says whether the loop has ended.\<close>

fun run_engine :: "nat \<Rightarrow> nat \<Rightarrow> 'x sdlc_ops \<Rightarrow> sdlc_config \<Rightarrow> ('x eng, bool) step" where
  "run_engine 0 fuel ops cf = ret False"
| "run_engine (Suc n) fuel ops cf = bnd (ext (so_shutdown ops)) (\<lambda>b.
     if b then bnd (shutdown ops) (\<lambda>_. ret True)
     else bnd (get_st (\<lambda>s. 0 < cf_max_cycles cf \<and> cf_max_cycles cf \<le> eg_cycle s)) (\<lambda>over.
       if over then ret True
       else bnd (get_st eg_failed) (\<lambda>failed_before.
         bnd (cycle_once fuel ops cf) (\<lambda>_.
         bnd record_cycle (\<lambda>_.
         bnd (get_st (retry_stops cf failed_before)) (\<lambda>halt.
           if halt then ret True
           else bnd (get_st (\<lambda>s. cf_max_cycles cf = 0 \<or> eg_cycle s < cf_max_cycles cf)) (\<lambda>more.
             bnd (if more then sleep_loop ops (cf_sleep cf) else ret ()) (\<lambda>_. run_engine n fuel ops cf))))))))"

end
