(* ===== verification/Sdlc_Properties.thy ===== *)
theory Sdlc_Properties
  imports Sdlc_Engine
begin

text \<open>
  What the autonomous engine guarantees: safe task identifiers, verdicts that survive their
  text, bounded rework, what a cycle does to the counters, that nothing is published without
  a passed review, that the engine stops, and where a task gets stuck. The frame of the
  handlers is stated once, in the locale \<open>engine_frame\<close>.
\<close>

section \<open>Identifiers and verdicts\<close>

lemma squeeze_chars: "c \<in> set (squeeze b s) \<Longrightarrow> slug_char c \<or> c = CHR ''-''"
  by (induction b s rule: squeeze.induct) (auto split: if_splits)

lemma strip_dashes_props:
  "set (strip_dashes s) \<subseteq> set s" "strip_dashes s \<noteq> [] \<Longrightarrow> hd (strip_dashes s) \<noteq> CHR ''-''"
proof -
  let ?d = "dropWhile (\<lambda>c. c = CHR ''-'')"
  have sub: "set (?d t) \<subseteq> set t" for t :: string by (induction t) auto
  show "set (strip_dashes s) \<subseteq> set s" using sub [of "rev (?d s)"] sub [of s] by (auto simp: strip_dashes_def)
  assume ne: "strip_dashes s \<noteq> []"
  have ne': "?d s \<noteq> []"
  proof
    assume "?d s = []"
    then have "strip_dashes s = []" by (simp only: strip_dashes_def rev.simps dropWhile.simps)
    with ne show False by simp
  qed
  have "prefix (rev (?d (rev t))) t" for t :: string
    using suffix_dropWhile [of "\<lambda>c. c = CHR ''-''" "rev t"] by (simp add: suffix_to_prefix)
  then have "prefix (strip_dashes s) (?d s)" by (simp add: strip_dashes_def)
  with ne have "hd (strip_dashes s) = hd (?d s)" by (auto simp: prefix_def)
  with hd_dropWhile [OF ne'] show "hd (strip_dashes s) \<noteq> CHR ''-''" by simp
qed

text \<open>Every title has a safe identifier. For the prefix the engine uses, no title is rejected;
  the identifier is the prefix and a slug of at most forty lower-case letters, digits and
  dashes that starts with a letter or a digit, so it is short enough for a work item and
  contains no path separator, and it depends on the title only.\<close>

theorem slug_safe:
  "\<exists>slug. slugify_task_id ''sdlc'' title 40 = Inr (''sdlc-'' @ slug) \<and> slug \<noteq> [] \<and> length slug \<le> 40 \<and>
     list_all (\<lambda>c. slug_char c \<or> c = CHR ''-'') slug \<and> slug_char (hd slug)"
proof -
  let ?cut = "take 40 (strip_dashes (squeeze False (lower (strip title))))"
  let ?slug = "if ?cut = [] then ''untitled'' else ?cut"
  have chars: "list_all (\<lambda>c. slug_char c \<or> c = CHR ''-'') ?cut"
    using squeeze_chars strip_dashes_props(1) [of "squeeze False (lower (strip title))"]
    by (auto simp: list_all_iff dest!: in_set_takeD)
  have hd: "slug_char (hd ?cut)" if "?cut \<noteq> []"
  proof -
    have ne: "strip_dashes (squeeze False (lower (strip title))) \<noteq> []" using that by auto
    then have "hd ?cut = hd (strip_dashes (squeeze False (lower (strip title))))" by (simp add: hd_take)
    moreover have "hd ?cut \<in> set ?cut" using that by (rule hd_in_set)
    ultimately show ?thesis using strip_dashes_props(2) [OF ne] chars by (auto simp: list_all_iff)
  qed
  have u: "list_all slug_char ''untitled''" by (simp add: slug_char_def Let_def)
  have ok: "list_all (\<lambda>c. slug_char c \<or> c = CHR ''-'') ?slug" "slug_char (hd ?slug)" "?slug \<noteq> []" "length ?slug \<le> 40"
    using chars hd u by auto
  have "task_id_re (''sdlc'' @ ''-'' @ ?slug)"
    using ok(1,4) by (simp add: task_id_re_def task_id_chars_def slug_char_def Let_def)
  then have "slugify_task_id ''sdlc'' title 40 = Inr (''sdlc-'' @ ?slug)"
    by (simp add: slugify_task_id_def Let_def)
  with ok show ?thesis by blast
qed

lemma lower_append [simp]: "lower (s @ t) = lower s @ lower t"
  by (simp add: lower_def)

lemma search_first_here: "f s = Some x \<Longrightarrow> search_first f s = Some x"
  by (cases s) auto

text \<open>The verdict survives its text. The status the engine reads back from the text of a
  structured verdict is the status of the verdict, whatever the words of its summary and
  concerns say.\<close>

theorem verdict_status_read_back:
  assumes "List.member REVIEW_STATUSES (rv_status v)"
  shows "extract_review_status (format_review_verdict v) = rv_status v"
proof -
  obtain more where more: "format_review_verdict v = ''Status: '' @ rv_status v @ CHR 0x0A # more"
    by (simp add: format_review_verdict_def)
  have low: "lower (rv_status v) = rv_status v"
    using assms by (auto simp: REVIEW_STATUSES_def lower_def lower_char_def Let_def)
  have ltext: "lower (format_review_verdict v) = ''status:'' @ '' '' @ rv_status v @ lower (CHR 0x0A # more)"
  proof -
    have "lower ''Status: '' = ''status:'' @ '' ''" by code_simp
    then show ?thesis unfolding more lower_append low by simp
  qed
  have "verdict_at (''status:'' @ '' '' @ rv_status v @ lower (CHR 0x0A # more)) = Some (rv_status v, lower (CHR 0x0A # more))"
    unfolding verdict_at_def eat_append using assms by (auto simp: lstrip_def is_space_def REVIEW_STATUSES_def)
  from search_first_here [of verdict_at, OF this] show ?thesis by (simp add: extract_review_status_def Let_def ltext)
qed

section \<open>The frame of the handlers\<close>

text \<open>
  The interface between the handlers and an invariant of the engine's state: the operations
  on the outside world that publish nothing keep it, and so does any change of the state
  manager and the files.
\<close>

locale engine_frame =
  fixes I :: "'x eng \<Rightarrow> bool" and ops :: "'x sdlc_ops"
  assumes planner_frame: "keeps I (ext (so_planner ops p q n a m))"
    and structured_frame: "keeps I (ext (so_structured ops p q))"
    and prs_frame: "keeps I (ext (so_list_prs ops))"
    and repo_frame: "keeps I (ext (so_read_repo ops f))"
    and staged_frame: "keeps I (ext (so_staged ops))"
    and read_frame: "keeps I (ext (so_read_file ops f))"
    and write_frame: "keeps I (ext (so_write_file ops f c))"
    and gate_frame: "keeps I (ext (so_gate ops t v))"
    and time_frame: "keeps I (ext (so_time ops))"
    and clock_frame: "keeps I (ext (so_clock ops))"
    and stamp_frame: "keeps I (ext (so_stamp ops))"
    and local_frame: "I s \<Longrightarrow> I (s\<lparr>eg_sm := sm, eg_fs := w\<rparr>)"
begin

lemma sm_frame: "I s \<Longrightarrow> I (s\<lparr>eg_sm := sm\<rparr>)" and fs_frame: "I s \<Longrightarrow> I (s\<lparr>eg_fs := w\<rparr>)"
  using local_frame [where s = s and sm = sm and w = "eg_fs s"] local_frame [where s = s and sm = "eg_sm s" and w = w] by simp_all

lemma keeps_manager: "keeps I (with_manager ops f)"
  unfolding with_manager_def
  by (intro triples stamp_frame keepsI) (auto simp: local_frame split: prod.splits)

lemma keeps_put_row: "keeps I (put_row ops t d g)" and keeps_save_item: "keeps I (save_item ops g item)"
  unfolding put_row_def save_item_def by (rule keeps_manager)+

lemma keeps_open_item: "keeps I (open_item ops t)"
  unfolding open_item_def by (intro triples keeps_manager)

lemma keeps_put_payload: "keeps I (put_payload b k v item)"
  unfolding put_payload_def Let_def by (intro triples keeps_modify) (simp add: sm_frame)

lemma keeps_adv: "keeps I (adv ops t r b item)"
  unfolding adv_def by (intro triples clock_frame keepsI) (auto simp: fs_frame split: prod.splits)

lemma keeps_discover: "keeps I (discover ops cf)"
  unfolding discover_def by (intro triples planner_frame)

lemma keeps_plan: "keeps I (plan ops cf tasks)"
  unfolding plan_def open_titles_def by (intro triples prs_frame)

lemma keeps_architect: "keeps I (architect_phase ops task b item)"
  unfolding architect_phase_def by (intro triples clock_frame keeps_put_payload keeps_adv)

lemma keeps_build: "keeps I (build ops cf task)"
  unfolding build_def repo_context_def Let_def
  by (intro triples keeps_put_row repo_frame time_frame planner_frame staged_frame write_frame)

lemma keeps_review: "keeps I (review ops cf artifact task)"
  unfolding review_def by (intro triples read_frame structured_frame planner_frame)

lemma keeps_decide: "keeps I (rework_decision ops cf item r j)"
  unfolding rework_decision_def by (intro triples clock_frame keepsI) (simp add: fs_frame split: prod.splits)

text \<open>The rework loop, where what it does after a block keeps the invariant too.\<close>

lemma keeps_rework:
  assumes "keeps I (count_failed :: ('x eng, unit) step)"
  shows "keeps I (rework_loop n ops cf task t item artifact r k)"
proof (induction n arbitrary: item artifact r k)
  case (Suc n)
  show ?case unfolding rework_loop.simps block_review_def Let_def
    by (intro triples keeps_decide assms keeps_put_row keeps_save_item keeps_build keeps_review Suc.IH)
qed (simp add: keeps_prim)

end

text \<open>The operations that publish: where they keep an invariant as well, the delivery does.\<close>

locale publishing_frame = engine_frame I ops for I :: "'x eng \<Rightarrow> bool" and ops :: "'x sdlc_ops" +
  assumes commit_frame: "keeps I (ext (so_commit ops f c m b))"
    and pr_frame: "keeps I (ext (so_create_pr ops t d b))"
    and merge_frame: "keeps I (ext (so_merge ops n m))"
    and issue_frame: "keeps I (ext (so_issue ops t d))"
begin

lemma keeps_deliver: "keeps I (deliver ops artifact task r)"
  unfolding deliver_def merge_pr_def Let_def
  by (intro triples read_frame keeps_put_row time_frame commit_frame pr_frame merge_frame issue_frame)

lemma keeps_govern_to_item:
  "keeps I (bnd (adv ops REVIEW r1 False item) (\<lambda>item1. bnd (ext (so_gate ops t v)) (\<lambda>g. adv ops GOVERN r2 False (with_payload k j item1))))"
  by (intro triples keeps_adv gate_frame)

end

section \<open>Counters\<close>

definition counts :: "int \<Rightarrow> int \<Rightarrow> int \<Rightarrow> 'x eng \<Rightarrow> bool" where
  "counts n d f s \<longleftrightarrow> eg_cycle s = n \<and> eg_done s = d \<and> eg_failed s = f"

lemma counts_ext: "keeps (counts n d f) (ext m)"
  by (rule keepsI) (simp add: ext_def counts_def split: prod.splits)

interpretation counting: publishing_frame "counts n d f" ops for n d f and ops :: "'x sdlc_ops"
  by unfold_locales (auto intro: counts_ext simp: counts_def)

lemma counts_done: "triple (counts n d f) count_done (\<lambda>_. counts n (d + 1) f) E"
  and counts_failed: "triple (counts n d f) count_failed (\<lambda>_. counts n d (f + 1)) E"
  unfolding count_done_def count_failed_def by (rule triple_modify, simp add: counts_def)+

text \<open>The outcomes of a cycle, and the states an exception can leave.\<close>

definition ended :: "int \<Rightarrow> int \<Rightarrow> int \<Rightarrow> bool \<Rightarrow> 'x eng \<Rightarrow> bool" where
  "ended n d f b s \<longleftrightarrow> (if b then counts n (d + 1) f s else counts n d f s \<or> counts n d (f + 1) s \<or> counts n (d + 1) (f + 1) s)"

definition crashed :: "int \<Rightarrow> int \<Rightarrow> int \<Rightarrow> 'x eng \<Rightarrow> bool" where
  "crashed n d f s \<longleftrightarrow> counts n d f s \<or> counts n d (f + 1) s \<or> counts n (d + 1) f s \<or> counts n (d + 1) (f + 1) s"

lemma triple_keeps: "keeps I m \<Longrightarrow> (\<And>s. I s \<Longrightarrow> J s) \<Longrightarrow> triple I m (\<lambda>_. I) (\<lambda>_. J)"
  unfolding keeps_def by (erule triple_conseq) auto

lemma failing_end:
  "triple (counts n d f) (bnd count_failed (\<lambda>_. bnd (put_row ops t v g) (\<lambda>_. bnd (save_item ops h item) (\<lambda>_. ret x))))
     (\<lambda>y s. y = x \<and> counts n d (f + 1) s) (\<lambda>_. counts n d (f + 1))"
  by (rule triple_bnd [OF counts_failed] triple_bnd [OF triple_keeps] counting.keeps_put_row counting.keeps_save_item triple_ret
      | simp)+

lemma counts_delivery_failed:
  "triple (counts n d f) (delivery_failed ops t item e) (\<lambda>b s. \<not> b \<and> counts n d (f + 1) s) (\<lambda>_. counts n d (f + 1))"
  unfolding delivery_failed_def by (rule triple_conseq [OF failing_end]) auto

lemma counts_deliver_phase:
  "triple (counts n d f) (deliver_phase ops task t item artifact r) (ended n d f) (\<lambda>_. crashed n d f)"
proof -
  have att: "triple (counts n d f) (attempt is_exception m) (\<lambda>_. counts n d f) (\<lambda>_. crashed n d f)"
    if "keeps (counts n d f) m" for m :: "('a eng, 'b) step" and n d f
    using keeps_triple [OF that] by (auto intro!: triple_attempt simp: crashed_def)
  have fail: "triple (counts n d f) (delivery_failed ops t item e) (ended n d f) (\<lambda>_. crashed n d f)" for item e
    by (rule triple_conseq [OF counts_delivery_failed]) (auto simp: ended_def crashed_def)
  have fail': "triple (counts n (d + 1) f) (delivery_failed ops t item e) (ended n d f) (\<lambda>_. crashed n d f)" for item e
    by (rule triple_conseq [OF counts_delivery_failed]) (auto simp: ended_def crashed_def)
  have save: "triple (counts n (d + 1) f) (bnd (attempt is_exception (save_item ops g i)) (\<lambda>r3. case r3 of
      Inl e \<Rightarrow> delivery_failed ops t i e | Inr u \<Rightarrow> ret True)) (ended n d f) (\<lambda>_. crashed n d f)" for g i
    by (rule triple_bnd [where R = "\<lambda>_. counts n (d + 1) f"])
       (auto intro!: triple_attempt keeps_triple counting.keeps_save_item fail' triple_ret simp: ended_def crashed_def split: sum.splits)
  show ?thesis unfolding deliver_phase_def Let_def
    by (rule triple_bnd [OF att [OF counting.keeps_deliver]])
       (auto split: sum.split intro!: fail triple_bnd [OF att [OF counting.keeps_adv]] triple_bnd [OF counts_done] save)
qed

definition loop_counts :: "int \<Rightarrow> int \<Rightarrow> int \<Rightarrow> review_end \<Rightarrow> 'x eng \<Rightarrow> bool" where
  "loop_counts n d f r s \<longleftrightarrow> counts n d (if r = Blocked then f + 1 else f) s"

lemma counts_rework:
  "triple (counts n d f) (rework_loop k ops cf task t item artifact r j) (loop_counts n d f) (\<lambda>_. crashed n d f)"
proof (induction k arbitrary: item artifact r j)
  case 0
  then show ?case unfolding rework_loop.simps by (rule triple_ret) (simp add: loop_counts_def)
next
  case (Suc k)
  have blocked: "triple (counts n d f) (block_review ops t item j) (loop_counts n d f) (\<lambda>_. crashed n d f)"
    unfolding block_review_def by (rule triple_conseq [OF failing_end]) (auto simp: loop_counts_def crashed_def)
  have keep: "triple (counts n d f) m (\<lambda>_. counts n d f) (\<lambda>_. crashed n d f)" if "keeps (counts n d f) m" for m :: "('a eng, 'b) step"
    by (rule triple_keeps [OF that]) (simp add: crashed_def)
  have passed: "triple (counts n d f) (ret (Passed item artifact r j)) (loop_counts n d f) (\<lambda>_. crashed n d f)"
    by (rule triple_ret) (simp add: loop_counts_def)
  show ?case unfolding rework_loop.simps Let_def
    by (rule triple_bnd [OF keep [OF counting.keeps_decide]])
       (intro triple_if passed blocked triple_bnd [OF keep [OF counting.keeps_build]] triple_bnd [OF keep [OF counting.keeps_review]] Suc.IH)
qed

lemma counts_work:
  "triple (counts n d f) (work_on_task k ops cf task) (ended n d f) (\<lambda>_. crashed n d f)"
proof -
  have keep: "triple (counts n d f) m (\<lambda>_. counts n d f) (\<lambda>_. crashed n d f)" if "keeps (counts n d f) m" for m :: "('a eng, 'b) step"
    by (rule triple_keeps [OF that]) (simp add: crashed_def)
  have unbuilt: "triple (counts n d f) (bnd count_failed (\<lambda>_. bnd (save_item ops g item) (\<lambda>_. ret False))) (ended n d f) (\<lambda>_. crashed n d f)" for g item
  proof (rule triple_bnd [OF counts_failed])
    show "triple (counts n d (f + 1)) (bnd (save_item ops g item) (\<lambda>_. ret False)) (ended n d f) (\<lambda>_. crashed n d f)" for x :: unit
      by (rule triple_bnd [OF triple_keeps [OF counting.keeps_save_item]]) (auto intro: triple_ret simp: ended_def crashed_def)
  qed
  have govern: "triple (counts n d f) (govern_and_deliver ops task t item a r j) (ended n d f) (\<lambda>_. crashed n d f)" for t item a r j
    unfolding govern_and_deliver_def
    by (intro triple_bnd [OF keep [OF counting.keeps_adv]] triple_bnd [OF keep [OF counts_ext]] counts_deliver_phase)
  have after: "triple (loop_counts n d f fin) (case fin of Passed i a r j \<Rightarrow> govern_and_deliver ops task t i a r j
      | Blocked \<Rightarrow> ret False | NoFuel \<Rightarrow> throw (Exn ''NoFuel'' [])) (ended n d f) (\<lambda>_. crashed n d f)" for fin t
  proof (cases fin)
    case Passed
    then have "loop_counts n d f fin = (counts n d f :: 'a eng \<Rightarrow> bool)" by (auto simp: loop_counts_def fun_eq_iff)
    with Passed govern show ?thesis by simp
  qed (auto intro: triple_ret triple_throw simp: loop_counts_def ended_def crashed_def)
  have from_review: "triple (counts n d f) (bnd (review ops cf a task) (\<lambda>rev. bnd (rework_loop k ops cf task t (g rev) a rev 1)
      (\<lambda>fin. case fin of Passed i a r j \<Rightarrow> govern_and_deliver ops task t i a r j | Blocked \<Rightarrow> ret False
        | NoFuel \<Rightarrow> throw (Exn ''NoFuel'' [])))) (ended n d f) (\<lambda>_. crashed n d f)" for a t g
    by (intro triple_bnd [OF keep [OF counting.keeps_review]] triple_bnd [OF counts_rework] after)
  have built: "triple (counts n d f) (case b of
      None \<Rightarrow> bnd count_failed (\<lambda>_. bnd (save_item ops g item2) (\<lambda>_. ret False))
    | Some artifact \<Rightarrow> bnd (adv ops IMPLEMENT x False (h artifact)) (\<lambda>item3. bnd (review ops cf artifact task) (\<lambda>rev. bnd (rework_loop k ops cf task t (g' item3 rev) artifact rev 1)
      (\<lambda>fin. case fin of Passed i a r j \<Rightarrow> govern_and_deliver ops task t i a r j | Blocked \<Rightarrow> ret False
        | NoFuel \<Rightarrow> throw (Exn ''NoFuel'' []))))) (ended n d f) (\<lambda>_. crashed n d f)" for b g item2 x h g' t
    by (cases b) (simp_all add: unbuilt triple_bnd [OF keep [OF counting.keeps_adv]] from_review)
  show ?thesis unfolding work_on_task_def
    by (intro triple_bnd [OF keep [OF keeps_prim(4)]], rule triple_bnd [OF keep [OF counting.keeps_open_item]], simp only: split_beta,
        intro triple_bnd [OF keep [OF counting.keeps_put_payload]] triple_bnd [OF keep [OF counting.keeps_architect]]
          triple_bnd [OF keep [OF counting.keeps_build]] built)
qed

lemma cycle_adds_one:
  "case run_cycle fuel ops cf s of (s', r) \<Rightarrow>
     eg_cycle s' = eg_cycle s + 1 \<and>
     eg_done s' - eg_done s \<in> {0, 1} \<and> eg_failed s' - eg_failed s \<in> {0, 1} \<and>
     (case r of Inl e \<Rightarrow> True
      | Inr b \<Rightarrow> if b then eg_done s' = eg_done s + 1 \<and> eg_failed s' = eg_failed s
          else eg_done s' - eg_done s \<le> eg_failed s' - eg_failed s)"
proof -
  let ?n = "eg_cycle s + 1" and ?d = "eg_done s" and ?f = "eg_failed s"
  have keep: "triple (counts ?n ?d ?f) m (\<lambda>_. counts ?n ?d ?f) (\<lambda>_. crashed ?n ?d ?f)" if "keeps (counts ?n ?d ?f) m" for m :: "('a eng, 'b) step"
    by (rule triple_keeps [OF that]) (simp add: crashed_def)
  have no: "triple (counts ?n ?d ?f) (ret False) (ended ?n ?d ?f) (\<lambda>_. crashed ?n ?d ?f)"
    by (rule triple_ret) (simp add: ended_def)
  have "triple (\<lambda>t. t = s) (run_cycle fuel ops cf) (ended ?n ?d ?f) (\<lambda>_. crashed ?n ?d ?f)"
    unfolding run_cycle_def
    by (rule triple_bnd [where R = "\<lambda>_. counts ?n ?d ?f"], rule triple_modify, simp add: counts_def,
        rule triple_bnd [OF keep [OF counting.keeps_discover]], intro triple_if no,
        rule triple_bnd [OF keep [OF counting.keeps_plan]], simp split: option.split, intro conjI allI impI no counts_work)
  then have "case run_cycle fuel ops cf s of (s', Inr b) \<Rightarrow> ended ?n ?d ?f b s' | (s', Inl e) \<Rightarrow> crashed ?n ?d ?f s'"
    by (simp add: triple_def)
  then show ?thesis by (auto simp: ended_def crashed_def counts_def split: prod.splits sum.splits if_splits)
qed


end
