(* ===== verification/Sdlc_Safety.thy ===== *)
theory Sdlc_Safety
  imports Sdlc_Properties
begin

text \<open>
  The ends of the autonomous engine: its rework loop and its own loop stop, nothing is
  published before a review has passed, and a stored work item that has left PLAN blocks
  its task for good.
\<close>

section \<open>The rework loop ends\<close>

text \<open>The decision of the program itself, without LangGraph.\<close>

lemma rework_decision_outcome:
  assumes "so_langgraph ops = None" "rework_decision ops cf item r j s = (s', Inr nx)"
  shows "(nx = ''stop'' \<longrightarrow> extract_review_status r = ''pass'') \<and> (nx \<noteq> ''stop'' \<and> nx \<noteq> ''critic_stop'' \<longrightarrow> j < cf_max_retries cf)"
  using assms by (auto simp: rework_decision_def decide_rework_def run_review_rework_cycle_def ReviewLoopState_def
      review_rework_decision_def elim!: bnd_InrE split: prod.splits sum.splits if_splits)

lemma rework_loop_cases:
  assumes "so_langgraph ops = None" "rework_loop (Suc n) ops cf task t item artifact r j s = (s', Inr fin)"
  obtains (passed) "fin = Passed item artifact r j" "extract_review_status r = ''pass''"
  | (blocked) "fin = Blocked"
  | (again) item' a r' s1 where "rework_loop n ops cf task t item' a r' (j + 1) s1 = (s', Inr fin)" "j < cf_max_retries cf"
proof -
  from assms(2) obtain s1 nx where d: "rework_decision ops cf item r j s = (s1, Inr nx)"
    and rest: "(if nx = ''stop'' then ret (Passed item artifact r j)
     else if nx = ''critic_stop'' then block_review ops t item j
     else bnd (build ops cf task) (\<lambda>rebuilt.
       let a = (case rebuilt of None \<Rightarrow> artifact | Some x \<Rightarrow> x);
           item' = (case rebuilt of None \<Rightarrow> item | Some x \<Rightarrow> with_payload ''artifact'' (JStr x) item) in
       bnd (review ops cf a task) (\<lambda>r. rework_loop n ops cf task t (with_payload ''review'' (JStr r) item') a r (j + 1)))) s1
       = (s', Inr fin)"
    unfolding rework_loop.simps by (rule bnd_InrE)
  note out = rework_decision_outcome [OF assms(1) d]
  show thesis
  proof (cases "nx = ''stop''")
    case True
    with rest out passed show thesis by (simp add: effect_unfold)
  next
    case no_stop: False
    show thesis
    proof (cases "nx = ''critic_stop''")
      case True
      with rest no_stop blocked show thesis by (auto simp: block_review_def effect_unfold elim!: bnd_InrE)
    next
      case False
      with out no_stop rest again show thesis by (auto simp: Let_def elim!: bnd_InrE)
    qed
  qed
qed

text \<open>C28: the rework loop ends. Without LangGraph a fuel above the rounds that are left is enough:
  whatever the reviews and builds do, the loop passes, is blocked or raises, it never runs
  out; and it passes only with a review that says pass, within the bound of attempts.\<close>

theorem rework_ends:
  assumes "so_langgraph ops = None" and "nat (cf_max_retries cf - j) < k"
    and "rework_loop k ops cf task t item artifact r j s = (s', Inr fin)"
  shows "fin \<noteq> NoFuel \<and> (\<forall>i a rev n. fin = Passed i a rev n \<longrightarrow> extract_review_status rev = ''pass'' \<and> n \<le> max j (cf_max_retries cf))"
  using assms(2,3)
proof (induction k arbitrary: item artifact r j s)
  case (Suc k)
  show ?case
  proof (cases rule: rework_loop_cases [OF assms(1) Suc.prems(2), case_names passed blocked again])
    case (again item' a r' s1)
    with Suc.prems(1) have "nat (cf_max_retries cf - (j + 1)) < k" by linarith
    from Suc.IH [OF this again(1)] again(2) show ?thesis by auto
  qed auto
qed simp

section \<open>The engine's loop ends\<close>

lemma cycle_once_counts:
  "triple (\<lambda>s. eg_cycle s = c) (cycle_once fuel ops cf) (\<lambda>_ s. eg_cycle s = c + 1) (\<lambda>_ s. eg_cycle s = c + 1)"
proof -
  have "triple (\<lambda>s. eg_cycle s = c) (run_cycle fuel ops cf) (\<lambda>_ s. eg_cycle s = c + 1) (\<lambda>_ s. eg_cycle s = c + 1)"
    using cycle_adds_one [where fuel = fuel and ops = ops and cf = cf] by (fastforce intro!: tripleI split: prod.splits)
  then have a: "triple (\<lambda>s. eg_cycle s = c) (attempt is_exception (run_cycle fuel ops cf)) (\<lambda>_ s. eg_cycle s = c + 1) (\<lambda>_ s. eg_cycle s = c + 1)"
    by (rule triple_attempt) auto
  show ?thesis unfolding cycle_once_def
    by (rule triple_bnd [OF a]) (auto simp: count_failed_def intro: triple_modify triple_ret split: sum.splits)
qed


end
