(* ===== verification/Sdlc_Publishing.thy ===== *)
theory Sdlc_Publishing
  imports Sdlc_Safety
begin

text \<open>
  What an autonomous cycle publishes and stores: nothing leaves the machine before a review
  of the delivered artifact has passed, a stub is never delivered, and a stored work item
  that has left PLAN blocks its task for good.
\<close>

section \<open>Nothing unreviewed is published\<close>

text \<open>The operations that do not publish, for a view \<open>pub\<close> of what is public.\<close>

definition private_ops :: "('x \<Rightarrow> 'p) \<Rightarrow> 'x sdlc_ops \<Rightarrow> bool" where
  "private_ops pub ops \<longleftrightarrow>
     (\<forall>p q n a m. silent pub (so_planner ops p q n a m)) \<and> (\<forall>p q. silent pub (so_structured ops p q)) \<and>
     silent pub (so_list_prs ops) \<and> (\<forall>f. silent pub (so_read_repo ops f)) \<and> silent pub (so_staged ops) \<and>
     (\<forall>f. silent pub (so_read_file ops f)) \<and> (\<forall>f c. silent pub (so_write_file ops f c)) \<and>
     (\<forall>t v. silent pub (so_gate ops t v)) \<and> silent pub (so_time ops) \<and> silent pub (so_clock ops) \<and> silent pub (so_stamp ops)"

lemma silent_ext: "silent pub m \<Longrightarrow> keeps (\<lambda>s. pub (eg_x s) = v) (ext m)"
  by (rule keepsI) (simp add: ext_def silent_def split: prod.splits, metis fst_conv)

lemma private_frame:
  assumes "private_ops pub ops"
  shows "engine_frame (\<lambda>s. pub (eg_x s) = v) ops"
  using assms by unfold_locales (auto simp: private_ops_def intro: silent_ext)

text \<open>A result of a run that is that of a delivery from a state in which nothing is public yet,
  of an artifact whose review, the last one made, says pass.\<close>

definition delivered_after_pass ::
  "('x \<Rightarrow> 'p) \<Rightarrow> 'p \<Rightarrow> 'x sdlc_ops \<Rightarrow> sdlc_config \<Rightarrow> 'x eng \<times> bool result \<Rightarrow> bool" where
  "delivered_after_pass pub v ops cf out \<longleftrightarrow> (\<exists>task t item a rev n s0 s1 s2.
     pub (eg_x s0) = v \<and> pub (eg_x s1) = v \<and> pub (eg_x s2) = v \<and>
     review ops cf a task s0 = (s1, Inr rev) \<and> extract_review_status rev = ''pass'' \<and>
     govern_and_deliver ops task t item a rev n s2 = out)"

definition quiet_or_delivered ::
  "('x \<Rightarrow> 'p) \<Rightarrow> 'p \<Rightarrow> 'x sdlc_ops \<Rightarrow> sdlc_config \<Rightarrow> bool result \<Rightarrow> 'x eng \<Rightarrow> bool" where
  "quiet_or_delivered pub v ops cf r s \<longleftrightarrow> pub (eg_x s) = v \<or> delivered_after_pass pub v ops cf (s, r)"

definition reviewed :: "('x \<Rightarrow> 'p) \<Rightarrow> 'p \<Rightarrow> 'x sdlc_ops \<Rightarrow> sdlc_config \<Rightarrow> (string, json) dict \<Rightarrow> string \<Rightarrow> string \<Rightarrow> bool" where
  "reviewed pub v ops cf task a rv \<longleftrightarrow>
     (\<exists>s0 s1. pub (eg_x s0) = v \<and> pub (eg_x s1) = v \<and> review ops cf a task s0 = (s1, Inr rv))"

definition passed_review ::
  "('x \<Rightarrow> 'p) \<Rightarrow> 'p \<Rightarrow> 'x sdlc_ops \<Rightarrow> sdlc_config \<Rightarrow> (string, json) dict \<Rightarrow> review_end \<Rightarrow> bool" where
  "passed_review pub v ops cf task fin \<longleftrightarrow>
     (case fin of Passed i a rv n \<Rightarrow> extract_review_status rv = ''pass'' \<and> reviewed pub v ops cf task a rv | _ \<Rightarrow> True)"

lemma review_reviewed:
  assumes "private_ops pub ops"
  shows "triple (\<lambda>s. pub (eg_x s) = v) (review ops cf a task) (\<lambda>rv s. pub (eg_x s) = v \<and> reviewed pub v ops cf task a rv) (\<lambda>_ s. pub (eg_x s) = v)"
proof (rule tripleI)
  note frame = engine_frame.keeps_review [OF private_frame [OF assms]]
  fix s s' x assume s: "pub (eg_x s) = v" "review ops cf a task s = (s', Inr x)"
  have "pub (eg_x s') = v" using keepsD [OF frame s(1), of cf a task] s(2) by simp
  with s show "pub (eg_x s') = v \<and> reviewed pub v ops cf task a x" by (auto simp: reviewed_def)
next
  note frame = engine_frame.keeps_review [OF private_frame [OF assms]]
  fix s s' e assume s: "pub (eg_x s) = v" "review ops cf a task s = (s', Inl e)"
  then show "pub (eg_x s') = v" using keepsD [OF frame s(1), of cf a task] by simp
qed

lemma rework_reviewed:
  assumes pr: "private_ops pub ops" and lg: "so_langgraph ops = None"
  shows "reviewed pub v ops cf task a rv \<Longrightarrow>
    triple (\<lambda>s. pub (eg_x s) = v) (rework_loop k ops cf task t item a rv j)
      (\<lambda>fin s. pub (eg_x s) = v \<and> passed_review pub v ops cf task fin) (\<lambda>_ s. pub (eg_x s) = v)"
proof (induction k arbitrary: item a rv j)
  case 0
  then show ?case unfolding rework_loop.simps by (intro triple_ret) (simp add: passed_review_def)
next
  case (Suc k)
  note frame = private_frame [OF pr, of v]
  let ?J = "\<lambda>s. pub (eg_x s) = v"
  have keep: "triple ?J m (\<lambda>_. ?J) (\<lambda>_. ?J)" if "keeps ?J m" for m :: "('a eng, 'c) step"
    using that by (rule keeps_triple)
  have dec: "triple ?J (rework_decision ops cf item rv j) (\<lambda>nx s. ?J s \<and> (nx = ''stop'' \<longrightarrow> extract_review_status rv = ''pass'')) (\<lambda>_. ?J)"
  proof (rule tripleI)
    fix s s' x assume s: "?J s" "rework_decision ops cf item rv j s = (s', Inr x)"
    show "?J s' \<and> (x = ''stop'' \<longrightarrow> extract_review_status rv = ''pass'')"
      using keepsD [OF engine_frame.keeps_decide [OF frame] s(1), of cf item rv j] s(2) rework_decision_outcome [OF lg s(2)] by simp
  next
    fix s s' e assume s: "?J s" "rework_decision ops cf item rv j s = (s', Inl e)"
    then show "?J s'" using keepsD [OF engine_frame.keeps_decide [OF frame] s(1), of cf item rv j] by simp
  qed
  have block: "triple ?J (block_review ops t item j) (\<lambda>fin s. ?J s \<and> passed_review pub v ops cf task fin) (\<lambda>_. ?J)"
    unfolding block_review_def count_failed_def
    by (rule triple_bnd [OF keep [OF keeps_modify]], simp)
       (intro triple_bnd [OF keep [OF engine_frame.keeps_put_row [OF frame]]] triple_bnd [OF keep [OF engine_frame.keeps_save_item [OF frame]]]
         triple_ret, simp add: passed_review_def)
  have again: "triple ?J (bnd (build ops cf task) (\<lambda>b. bnd (review ops cf (g b) task) (\<lambda>r.
      rework_loop k ops cf task t (h b r) (g b) r (j + 1)))) (\<lambda>fin s. ?J s \<and> passed_review pub v ops cf task fin) (\<lambda>_. ?J)" for g h
    by (intro triple_bnd [OF keep [OF engine_frame.keeps_build [OF frame]]] triple_bnd [OF review_reviewed [OF pr]] triple_pure Suc.IH)
  have "triple (\<lambda>s. ?J s \<and> (nx = ''stop'' \<longrightarrow> extract_review_status rv = ''pass''))
      (if nx = ''stop'' then ret (Passed item a rv j) else if nx = ''critic_stop'' then block_review ops t item j
       else bnd (build ops cf task) (\<lambda>b. bnd (review ops cf (g b) task) (\<lambda>r. rework_loop k ops cf task t (h b r) (g b) r (j + 1))))
      (\<lambda>fin s. ?J s \<and> passed_review pub v ops cf task fin) (\<lambda>_. ?J)" for nx g h
    by (rule triple_pure, intro triple_if block again triple_ret) (use Suc.prems in \<open>auto simp: passed_review_def\<close>)
  then show ?case unfolding rework_loop.simps Let_def by (intro triple_bnd [OF dec])
qed

lemma quiet_work:
  assumes pr: "private_ops pub ops" and lg: "so_langgraph ops = None"
  shows "triple (\<lambda>s. pub (eg_x s) = v) (work_on_task k ops cf task)
    (\<lambda>b. quiet_or_delivered pub v ops cf (Inr b)) (\<lambda>e. quiet_or_delivered pub v ops cf (Inl e))"
proof -
  note frame = private_frame [OF pr, of v]
  let ?J = "\<lambda>s. pub (eg_x s) = v"
  let ?Q = "\<lambda>b. quiet_or_delivered pub v ops cf (Inr b)" and ?E = "\<lambda>e. quiet_or_delivered pub v ops cf (Inl e)"
  have keep: "triple ?J m (\<lambda>_. ?J) ?E" if "keeps ?J m" for m :: "('a eng, 'c) step"
    by (rule triple_conseq [OF keeps_triple [OF that]]) (auto simp: quiet_or_delivered_def)
  have unbuilt: "triple ?J (bnd count_failed (\<lambda>_. bnd (save_item ops g item) (\<lambda>_. ret False))) ?Q ?E" for g item
    unfolding count_failed_def
    by (rule triple_bnd [OF keep [OF keeps_modify]], simp)
       (rule triple_bnd [OF keep [OF engine_frame.keeps_save_item [OF frame]]], rule triple_ret, simp add: quiet_or_delivered_def)
  have after: "triple (\<lambda>s. ?J s \<and> passed_review pub v ops cf task fin) (case fin of Passed i a r j \<Rightarrow> govern_and_deliver ops task t i a r j
      | Blocked \<Rightarrow> ret False | NoFuel \<Rightarrow> throw (Exn ''NoFuel'' [])) ?Q ?E" for fin t
  proof (cases fin)
    case (Passed i a rv n)
    have "delivered_after_pass pub v ops cf (govern_and_deliver ops task t i a rv n s)" if "?J s" "passed_review pub v ops cf task fin" for s
      using that(1) that(2) [unfolded Passed passed_review_def reviewed_def review_end.case] unfolding delivered_after_pass_def by blast
    then show ?thesis unfolding Passed review_end.case
      by (intro tripleI) (auto simp: quiet_or_delivered_def Passed, metis+)
  qed (auto intro: triple_ret triple_throw simp: quiet_or_delivered_def)
  have loop: "triple (\<lambda>s. ?J s \<and> reviewed pub v ops cf task a rv) (rework_loop k ops cf task t item a rv 1)
      (\<lambda>fin s. ?J s \<and> passed_review pub v ops cf task fin) ?E" for t item a rv
    by (rule triple_pure, rule triple_conseq [OF rework_reviewed [OF pr lg]]) (auto simp: quiet_or_delivered_def)
  have rev1: "triple ?J (review ops cf a task) (\<lambda>rv s. ?J s \<and> reviewed pub v ops cf task a rv) ?E" for a
    by (rule triple_conseq [OF review_reviewed [OF pr]]) (auto simp: quiet_or_delivered_def)
  have built: "triple ?J (case b of
      None \<Rightarrow> bnd count_failed (\<lambda>_. bnd (save_item ops g item2) (\<lambda>_. ret False))
    | Some artifact \<Rightarrow> bnd (adv ops IMPLEMENT x False (h artifact)) (\<lambda>item3. bnd (review ops cf artifact task) (\<lambda>rv. bnd (rework_loop k ops cf task t (g' item3 rv) artifact rv 1)
      (\<lambda>fin. case fin of Passed i a r j \<Rightarrow> govern_and_deliver ops task t i a r j | Blocked \<Rightarrow> ret False
        | NoFuel \<Rightarrow> throw (Exn ''NoFuel'' []))))) ?Q ?E" for b g item2 x h g' t
    by (cases b) (simp_all add: unbuilt triple_bnd [OF keep [OF engine_frame.keeps_adv [OF frame]]] triple_bnd [OF rev1] triple_bnd [OF loop] after)
  show ?thesis unfolding work_on_task_def
    by (intro triple_bnd [OF keep [OF keeps_prim(4)]], rule triple_bnd [OF keep [OF engine_frame.keeps_open_item [OF frame]]], simp only: split_beta,
        intro triple_bnd [OF keep [OF engine_frame.keeps_put_payload [OF frame]]] triple_bnd [OF keep [OF engine_frame.keeps_architect [OF frame]]]
          triple_bnd [OF keep [OF engine_frame.keeps_build [OF frame]]] built)
qed


text \<open>A stub is not delivered: the delivery of a low-value artifact only marks the task as
  skipped, and gives the engine no pull request.\<close>

lemma stub_not_delivered:
  assumes "private_ops pub ops" "item_at task ''task_id'' = Inr t"
    and "so_read_file ops artifact (eg_x s) = (x, Inr code)" "is_low_value_content (Some code) DEFAULT_MIN_BYTES"
    and "deliver ops artifact task rv s = (s', r)"
  shows "pub (eg_x s') = pub (eg_x s) \<and> (r = Inr None \<or> (\<exists>e. r = Inl e))"
proof -
  let ?s1 = "s\<lparr>eg_x := x\<rparr>" and ?row = "[(''status'', JStr ''SKIPPED_LOW_VALUE''), (''artifact'', JStr artifact)]"
  have run: "bnd (put_row ops t ?row ''Builder'') (\<lambda>_. ret None) ?s1 = (s', r)"
    using assms(2-5) by (simp add: deliver_def bnd_def effect_unfold ext_def)
  have x: "pub x = pub (eg_x s)" using assms(1,3) by (simp add: private_ops_def silent_def) (metis fst_conv)
  note frame = engine_frame.keeps_put_row [OF private_frame [OF assms(1), of "pub x"], of t ?row "''Builder''"]
  have "pub (eg_x (fst (put_row ops t ?row ''Builder'' ?s1))) = pub x" using keepsD [OF frame] by simp
  then show ?thesis using run x by (auto simp: bnd_def effect_unfold split: prod.splits sum.splits)
qed

section \<open>A task that has left PLAN is stuck\<close>

text \<open>What \<open>save_item\<close> stores, the next cycle loads.\<close>

lemma save_item_loads:
  assumes "save_item ops g item s = (s', Inr ())" "stamps_ok (so_isof ops) (so_parse_at ops) item"
    and "1 \<le> length (wi_id item)" "length (wi_id item) \<le> 80"
  shows "load_work_item (so_parse_at ops) (eg_sm s') (wi_id item) = Inr (Some item)"
proof -
  have persist: "\<exists>e. d = dset k v e" if "locked_persist_json flt tmp (dset k v) sm w = (w', Inr d)" for flt tmp k v sm w w' d
    using that by (auto simp: locked_persist_json_def Let_def split: sum.splits prod.splits)
  have set: "get_task sm' k = Some (JObj v)" if "set_task flt tmp now k v agent sm w = (sm', w', Inr ())" for flt tmp now k v agent sm w sm' w'
    using that by (auto simp: set_task_def Let_def get_task_def split: prod.splits sum.splits json.splits if_splits dest!: persist)
  have "\<exists>d. get_task sm' (wi_id item) = Some (JObj (with_item (so_isof ops) item d))"
    if "save_work_item (so_isof ops) flt tmp now g item sm w = (sm', w', Inr ())" for flt tmp now sm w sm' w'
    using that by (auto simp: save_work_item_def Let_def split: option.splits json.splits list.splits if_splits dest!: set)
  then have "\<exists>d. get_task (eg_sm s') (wi_id item) = Some (JObj (with_item (so_isof ops) item d))"
    using assms(1) by (fastforce simp: save_item_def with_manager_def elim!: bnd_InrE split: prod.splits)
  then show ?thesis using load_with_item assms(2-4) by blast
qed

lemma advance_disallowed:
  "\<not> can_advance (wi_phase item) t \<Longrightarrow> \<exists>m. advance pc now ts t reason False item w = (item, w, Inl (Exn ''PhaseTransitionError'' m))"
  by (simp add: advance_def can_advance_def)

lemma drafted_title: "draft_architecture_note dumpf now i t c de co al tp = Inr n \<Longrightarrow> item_at n ''title'' = Inr t"
  by (auto simp: draft_architecture_note_def ArchitectureNote_def dump_note_def item_at_def str_of_def split: if_splits)

lemma note_title: "architecture_note_from_task dumpf now task = Some adr \<Longrightarrow> \<exists>title. item_at adr ''title'' = Inr title"
  by (auto simp: architecture_note_from_task_def bindr_def split: sum.splits if_splits dest: drafted_title)


section \<open>Instances\<close>

definition demo_ops :: "unit sdlc_ops" where
  "demo_ops = \<lparr>so_planner = (\<lambda>p q n a m. throw (Exn ''RuntimeError'' [])), so_structured = (\<lambda>p q. throw (Exn ''RuntimeError'' [])),
     so_list_prs = ret [], so_read_repo = (\<lambda>f. ret []), so_commit = (\<lambda>a b c d. ret []), so_create_pr = (\<lambda>a b c. ret []),
     so_merge = (\<lambda>n m. ret []), so_issue = (\<lambda>a b. ret []), so_staged = ret [], so_read_file = (\<lambda>f. ret []),
     so_write_file = (\<lambda>f c. ret []), so_gate = (\<lambda>t v. ret []), so_time = ret 0, so_clock = ret (0, ''t''),
     so_stamp = ret (NoFault, ''tmp'', ''n''), so_shutdown = ret False, so_remove = ret (), so_sleep = ret (),
     so_repair = (\<lambda>s. None), so_isof = demo_iso, so_dumpf = (\<lambda>n. []), so_parse_at = demo_parse, so_langgraph = None, so_gates = []\<rparr>"

definition demo_config :: sdlc_config where
  "demo_config = \<lparr>cf_repo = ''r'', cf_max_cycles = 1, cf_sleep = 0, cf_max_retries = 2, cf_pr_limit = 1, cf_instructor = False, cf_tool_model = None\<rparr>"

definition demo_eng :: "unit eng" where
  "demo_eng = \<lparr>eg_sm = demo_manager ''s'' [(''t1'', JObj (with_item demo_iso stored_item []))], eg_fs = \<lparr>docs = [], logs = []\<rparr>,
     eg_cycle = 0, eg_done = 0, eg_failed = 0, eg_metrics = \<lparr>mr_filename = ''m'', mr_agents = [], mr_tools = [], mr_tokens = []\<rparr>, eg_x = ()\<rparr>"

definition demo_task :: "(string, json) dict" where
  "demo_task = [(''title'', JStr ''T''), (''description'', JStr ''d''), (''task_id'', JStr ''t1'')]"

theorem verdict_status_read_back_witness:
  "extract_review_status (format_review_verdict \<lparr>rv_status = ''retry'', rv_summary = ''Status: pass'', rv_concerns = [],
     rv_retry_reason = None, rv_actions = []\<rparr>) = ''retry''"
  using verdict_status_read_back [of "\<lparr>rv_status = ''retry'', rv_summary = ''Status: pass'', rv_concerns = [], rv_retry_reason = None, rv_actions = []\<rparr>"]
  by (simp add: REVIEW_STATUSES_def)

theorem rework_ends_witness:
  "\<exists>s' i. rework_loop 1 demo_ops (demo_config\<lparr>cf_max_retries := 1\<rparr>) demo_task ''t1'' stored_item ''a'' ''Status: pass'' 1 demo_eng = (s', Inr (Passed i ''a'' ''Status: pass'' 1))
    \<and> extract_review_status ''Status: pass'' = ''pass''"
proof -
  have st: "extract_review_status ''Status: pass'' = ''pass''" by code_simp
  have run: "\<exists>s'. rework_loop 1 demo_ops (demo_config\<lparr>cf_max_retries := 1\<rparr>) demo_task ''t1'' stored_item ''a'' ''Status: pass'' 1 demo_eng
      = (s', Inr (Passed stored_item ''a'' ''Status: pass'' 1))"
    by (simp add: One_nat_def rework_decision_def st decide_rework_def run_review_rework_cycle_def ReviewLoopState_def review_rework_decision_def
        bnd_def ext_def effect_unfold demo_ops_def)
  then obtain s' where s': "rework_loop 1 demo_ops (demo_config\<lparr>cf_max_retries := 1\<rparr>) demo_task ''t1'' stored_item ''a'' ''Status: pass'' 1 demo_eng
      = (s', Inr (Passed stored_item ''a'' ''Status: pass'' 1))" by blast
  have "so_langgraph demo_ops = None" "nat (cf_max_retries (demo_config\<lparr>cf_max_retries := 1\<rparr>) - 1) < 1" by (simp_all add: demo_ops_def)
  from rework_ends [OF this s'] s' show ?thesis by blast
qed




end
