(* ===== verification/Blueprint.thy ===== *)
theory Blueprint
  imports PyText
begin

text \<open>
  The deterministic planner of \<open>src/orchestration/blueprint_planner.py\<close>: blueprints as lists of
  steps with dependencies, Kahn's algorithm for their order, the plan for a goal and the
  revision after a reflection. Proofs about the order are in \<open>Blueprint_Order\<close>.
\<close>

section \<open>Blueprints\<close>

record workflow_step =
  st_id :: string
  st_action :: string
  st_agent :: string
  st_inputs :: "(string, json) dict"
  st_output :: string
  st_deps :: "string list"

record workflow_blueprint =
  bp_goal :: string
  bp_steps :: "workflow_step list"
  bp_duration :: string
  bp_reflection :: bool

definition WorkflowStep :: "string \<Rightarrow> string \<Rightarrow> string \<Rightarrow> string \<Rightarrow> string list \<Rightarrow> workflow_step" where
  "WorkflowStep i action agent out deps =
     \<lparr>st_id = i, st_action = action, st_agent = agent, st_inputs = [], st_output = out, st_deps = deps\<rparr>"

definition step_by_id :: "workflow_step list \<Rightarrow> string \<Rightarrow> workflow_step option" where
  "step_by_id steps i = find (\<lambda>s. st_id s = i) steps"

section \<open>Kahn's algorithm\<close>

text \<open>The in-degrees and the successors of every identifier, from one pass over the steps.\<close>

fun count_deps ::
  "string \<Rightarrow> string list \<Rightarrow> (string, int) dict \<times> (string, string list) dict
    \<Rightarrow> ((string, int) dict \<times> (string, string list) dict) result" where
  "count_deps i [] da = Inr da"
| "count_deps i (dep # deps) (deg, adj) = (case dget adj dep of
      None \<Rightarrow> Inl (Exn ''KeyError'' dep)
    | Some ns \<Rightarrow> count_deps i deps (dset i (dgetd deg i 0 + 1) deg, dset dep (ns @ [i]) adj))"

fun count_steps ::
  "workflow_step list \<Rightarrow> (string, int) dict \<times> (string, string list) dict
    \<Rightarrow> ((string, int) dict \<times> (string, string list) dict) result" where
  "count_steps [] da = Inr da"
| "count_steps (s # ss) da = bindr (count_deps (st_id s) (st_deps s) da) (count_steps ss)"

definition id_dict :: "'v \<Rightarrow> workflow_step list \<Rightarrow> (string, 'v) dict" where
  "id_dict v steps = fold (\<lambda>s d. dset (st_id s) v d) steps []"

text \<open>One popped identifier: its successors lose an edge, and join the queue when it was the last.\<close>

fun relax :: "string list \<Rightarrow> (string, int) dict \<Rightarrow> string list \<Rightarrow> (string, int) dict \<times> string list" where
  "relax [] deg queue = (deg, queue)"
| "relax (n # ns) deg queue =
     (let k = dgetd deg n 0 - 1 in relax ns (dset n k deg) (if k = 0 then queue @ [n] else queue))"

text \<open>The loop over the queue, on fuel: no identifier is queued twice, so the number of steps is
  enough (\<open>kahn_fuel\<close>); \<open>None\<close> is a loop that is still running.\<close>

fun kahn ::
  "nat \<Rightarrow> workflow_step list \<Rightarrow> (string, string list) dict \<Rightarrow> (string, int) dict \<Rightarrow> string list \<Rightarrow> workflow_step list
    \<Rightarrow> workflow_step list option" where
  "kahn fuel steps adj deg [] order = Some order"
| "kahn 0 steps adj deg (u # queue) order = None"
| "kahn (Suc n) steps adj deg (u # queue) order =
     (case relax (dgetd adj u []) deg queue of (deg', queue') \<Rightarrow>
        kahn n steps adj deg' queue' (order @ (case step_by_id steps u of None \<Rightarrow> [] | Some s \<Rightarrow> [s])))"

definition topological_order :: "workflow_step list \<Rightarrow> workflow_step list result option" where
  "topological_order steps = (case count_steps steps (id_dict 0 steps, id_dict [] steps) of
      Inl e \<Rightarrow> Some (Inl e)
    | Inr (deg, adj) \<Rightarrow> map_option (\<lambda>order.
        if length order \<noteq> length steps then Inl (Exn ''ValueError'' ''Circular dependency detected in workflow'') else Inr order)
        (kahn (length steps) steps adj deg (map fst (filter (\<lambda>(i, k). k = 0) deg)) []))"

section \<open>Plans\<close>

type_synonym workflow_row = "string \<times> string \<times> string \<times> string list"

definition KEYWORDS_TO_WORKFLOW :: "(string, workflow_row list) dict" where
  "KEYWORDS_TO_WORKFLOW =
     [(''auth'', [(''design'', ''Architect'', ''auth design doc'', []),
        (''implement'', ''Builder'', ''auth module'', [''design'']),
        (''review'', ''Critic'', ''review verdict'', [''implement''])]),
      (''refactor'', [(''analyze'', ''RefactorAgent'', ''refactor blueprint'', []),
        (''implement'', ''Builder'', ''refactored code'', [''analyze'']),
        (''review'', ''Critic'', ''review verdict'', [''implement''])]),
      (''feature'', [(''ideate'', ''Ideator'', ''task proposal'', []),
        (''design'', ''Architect'', ''design doc'', [''ideate'']),
        (''implement'', ''Builder'', ''feature code'', [''design'']),
        (''review'', ''Critic'', ''review verdict'', [''implement''])]),
      (''test'', [(''generate_tests'', ''Builder'', ''test cases'', []),
        (''run_tests'', ''Critic'', ''test results'', [''generate_tests''])])]"

definition COMPLEXITY_THRESHOLD :: nat where
  "COMPLEXITY_THRESHOLD = 3"

definition matched_workflow :: "string \<Rightarrow> workflow_row list" where
  "matched_workflow goal = (case find (\<lambda>(k, rows). contains (lower goal) k) KEYWORDS_TO_WORKFLOW of
      Some (k, rows) \<Rightarrow> rows
    | None \<Rightarrow> dgetd KEYWORDS_TO_WORKFLOW ''feature'' [])"

fun plan_steps :: "nat \<Rightarrow> (string, string) dict \<Rightarrow> workflow_row list \<Rightarrow> workflow_step list" where
  "plan_steps idx step_map [] = []"
| "plan_steps idx step_map ((action, agent, out, deps) # rows) =
     (let i = ''step_'' @ str_of_nat idx; m = dset action i step_map in
      WorkflowStep i action agent out (map (\<lambda>d. dgetd m d []) (filter (\<lambda>d. dmem d m) deps)) # plan_steps (Suc idx) m rows)"

definition plan_goal :: "string \<Rightarrow> workflow_blueprint" where
  "plan_goal goal =
     (let rows = matched_workflow goal; steps = plan_steps 0 [] rows; reflects = COMPLEXITY_THRESHOLD \<le> length rows in
      \<lparr>bp_goal = goal,
       bp_steps = steps @ (if reflects then [WorkflowStep ''step_reflect'' ''reflect'' ''ReflectionNode'' ''gap report'' [st_id (last steps)]] else []),
       bp_duration = ''unknown'', bp_reflection = reflects\<rparr>)"

definition last_id :: "workflow_step list \<Rightarrow> string list" where
  "last_id steps = (if steps = [] then [] else [st_id (last steps)])"

definition fix_step :: "workflow_step list \<Rightarrow> string \<Rightarrow> workflow_step" where
  "fix_step steps gap = WorkflowStep (''step_fix_'' @ str_of_nat (length steps)) (''fix_gap: '' @ take 40 gap) ''Builder'' ''fixed code'' (last_id steps)"

definition verify_step :: "workflow_step list \<Rightarrow> workflow_step" where
  "verify_step steps = WorkflowStep ''step_verify'' ''verify'' ''Critic'' ''verification report'' (last_id steps)"

definition replan :: "workflow_blueprint \<Rightarrow> string list \<Rightarrow> workflow_blueprint" where
  "replan original gaps = (if gaps = [] then original
     else let fixed = fold (\<lambda>g steps. steps @ [fix_step steps g]) gaps (bp_steps original) in
       \<lparr>bp_goal = bp_goal original, bp_steps = fixed @ [verify_step fixed], bp_duration = ''unknown'', bp_reflection = True\<rparr>)"

end
