(* ===== verification/Blueprint_Order.thy ===== *)
theory Blueprint_Order
  imports Blueprint
begin

text \<open>
  Kahn's algorithm as the planner runs it: its two tables, the invariant of its loop, and that
  it returns exactly the orders in which every step follows its dependencies.
\<close>

section \<open>The tables\<close>

text \<open>The successors of an identifier: once for every time a step depends on it.\<close>

fun dependents :: "workflow_step list \<Rightarrow> string \<Rightarrow> string list" where
  "dependents [] d = []"
| "dependents (s # ss) d = replicate (count_list (st_deps s) d) (st_id s) @ dependents ss d"

fun in_count :: "workflow_step list \<Rightarrow> string \<Rightarrow> nat" where
  "in_count [] x = 0"
| "in_count (s # ss) x = (if st_id s = x then length (st_deps s) else 0) + in_count ss x"

definition ids :: "workflow_step list \<Rightarrow> string set" where
  "ids steps = set (map st_id steps)"

definition deps_known :: "string set \<Rightarrow> workflow_step list \<Rightarrow> bool" where
  "deps_known D steps \<longleftrightarrow> (\<forall>s \<in> set steps. set (st_deps s) \<subseteq> D)"

lemma deps_known_Cons [simp]: "deps_known D (s # ss) \<longleftrightarrow> set (st_deps s) \<subseteq> D \<and> deps_known D ss"
  by (auto simp: deps_known_def)

lemma in_dkeys: "k \<in> set (dkeys d) \<longleftrightarrow> dmem k d"
  by (simp add: dkeys_def dmem_iff)

lemma dkeys_dset_in: "k \<in> set (dkeys d) \<Longrightarrow> dkeys (dset k v d) = dkeys d"
  by (simp add: dkeys_dset in_dkeys)

lemma set_dkeys_dset: "set (dkeys (dset k v d)) = insert k (set (dkeys d))"
  by (auto simp: in_dkeys)

lemma count_list_replicate: "count_list (replicate n y) x = (if y = x then n else 0)"
  by (induction n) auto

lemma count_deps_ok:
  "set deps \<subseteq> set (dkeys adj) \<Longrightarrow> i \<in> set (dkeys deg) \<Longrightarrow> \<exists>deg' adj'. count_deps i deps (deg, adj) = Inr (deg', adj')
     \<and> dkeys deg' = dkeys deg \<and> dkeys adj' = dkeys adj
     \<and> (\<forall>x. dgetd deg' x 0 = dgetd deg x 0 + (if x = i then int (length deps) else 0))
     \<and> (\<forall>d. dgetd adj' d [] = dgetd adj d [] @ replicate (count_list deps d) i)"
proof (induction deps arbitrary: deg adj)
  case (Cons dep deps)
  then have "dep \<in> set (dkeys adj)" by simp
  then obtain ns where ns: "dget adj dep = Some ns" unfolding in_dkeys dmem_Some by blast
  let ?deg = "dset i (dgetd deg i 0 + 1) deg" and ?adj = "dset dep (ns @ [i]) adj"
  have k: "dkeys ?deg = dkeys deg" "dkeys ?adj = dkeys adj"
    using Cons.prems by (simp_all add: dkeys_dset_in)
  with Cons.IH [of ?adj ?deg] Cons.prems obtain deg' adj' where
    ih: "count_deps i deps (?deg, ?adj) = Inr (deg', adj')" "dkeys deg' = dkeys ?deg" "dkeys adj' = dkeys ?adj"
      "\<forall>x. dgetd deg' x 0 = dgetd ?deg x 0 + (if x = i then int (length deps) else 0)"
      "\<forall>d. dgetd adj' d [] = dgetd ?adj d [] @ replicate (count_list deps d) i" by auto
  have "dgetd deg' x 0 = dgetd deg x 0 + (if x = i then int (length (dep # deps)) else 0)" for x
    using ih(4) by (simp add: dgetd_def)
  moreover have "dgetd adj' d [] = dgetd adj d [] @ replicate (count_list (dep # deps) d) i" for d
    using ih(5) ns by (cases "d = dep") (simp_all add: dgetd_def replicate_append_same [symmetric])
  ultimately show ?case using ns ih(1-3) k by simp
qed simp

lemma count_deps_unknown:
  "\<not> set deps \<subseteq> set (dkeys adj) \<Longrightarrow> \<exists>k. count_deps i deps (deg, adj) = Inl (Exn ''KeyError'' k)"
proof (induction deps arbitrary: deg adj)
  case (Cons dep deps)
  show ?case
  proof (cases "dget adj dep")
    case (Some ns)
    then have "dep \<in> set (dkeys adj)" by (simp add: in_dkeys dmem_Some)
    then have "dkeys (dset dep (ns @ [i]) adj) = dkeys adj" "dep \<in> set (dkeys adj)" by (simp_all add: dkeys_dset_in)
    with Cons Some show ?thesis by simp
  qed simp
qed simp

lemma count_steps_ok:
  "deps_known (set (dkeys adj)) steps \<Longrightarrow> ids steps \<subseteq> set (dkeys deg) \<Longrightarrow> \<exists>deg' adj'. count_steps steps (deg, adj) = Inr (deg', adj')
     \<and> dkeys deg' = dkeys deg \<and> dkeys adj' = dkeys adj
     \<and> (\<forall>x. dgetd deg' x 0 = dgetd deg x 0 + int (in_count steps x))
     \<and> (\<forall>d. dgetd adj' d [] = dgetd adj d [] @ dependents steps d)"
proof (induction steps arbitrary: deg adj)
  case (Cons s ss)
  then have "set (st_deps s) \<subseteq> set (dkeys adj)" "st_id s \<in> set (dkeys deg)" by (auto simp: ids_def)
  from count_deps_ok [OF this] obtain deg1 adj1 where one: "count_deps (st_id s) (st_deps s) (deg, adj) = Inr (deg1, adj1)"
    "dkeys deg1 = dkeys deg" "dkeys adj1 = dkeys adj"
    "\<forall>x. dgetd deg1 x 0 = dgetd deg x 0 + (if x = st_id s then int (length (st_deps s)) else 0)"
    "\<forall>d. dgetd adj1 d [] = dgetd adj d [] @ replicate (count_list (st_deps s) d) (st_id s)" by blast
  with Cons.IH [of adj1 deg1] Cons.prems obtain deg' adj' where two: "count_steps ss (deg1, adj1) = Inr (deg', adj')"
    "dkeys deg' = dkeys deg" "dkeys adj' = dkeys adj"
    "\<forall>x. dgetd deg' x 0 = dgetd deg1 x 0 + int (in_count ss x)" "\<forall>d. dgetd adj' d [] = dgetd adj1 d [] @ dependents ss d"
    by (auto simp: ids_def)
  show ?case using one two by auto
qed (simp add: ids_def)

lemma count_steps_unknown:
  "\<not> deps_known (set (dkeys adj)) steps \<Longrightarrow> ids steps \<subseteq> set (dkeys deg) \<Longrightarrow> \<exists>k. count_steps steps (deg, adj) = Inl (Exn ''KeyError'' k)"
proof (induction steps arbitrary: deg adj)
  case (Cons s ss)
  show ?case
  proof (cases "set (st_deps s) \<subseteq> set (dkeys adj)")
    case True
    have "st_id s \<in> set (dkeys deg)" using Cons.prems by (simp add: ids_def)
    from count_deps_ok [OF True this] obtain deg1 adj1 where "count_deps (st_id s) (st_deps s) (deg, adj) = Inr (deg1, adj1)"
      "dkeys deg1 = dkeys deg" "dkeys adj1 = dkeys adj" by blast
    with Cons True show ?thesis by (auto simp: ids_def)
  next
    case False
    from count_deps_unknown [OF this, of "st_id s" deg] show ?thesis by auto
  qed
qed (simp add: deps_known_def)

lemma id_dict_props:
  "set (dkeys (id_dict v steps)) = ids steps" "distinct (dkeys (id_dict v steps))" "dgetd (id_dict v steps) x v = v"
proof -
  have *: "set (dkeys (fold (\<lambda>s d. dset (st_id s) v d) steps d)) = set (dkeys d) \<union> ids steps" for d
    by (induction steps arbitrary: d) (auto simp: ids_def set_dkeys_dset)
  have **: "dwf d \<Longrightarrow> dwf (fold (\<lambda>s d. dset (st_id s) v d) steps d)" for d
    by (induction steps arbitrary: d) auto
  have ***: "\<forall>y. dgetd d y v = v \<Longrightarrow> dgetd (fold (\<lambda>s d. dset (st_id s) v d) steps d) x v = v" for d
    by (induction steps arbitrary: d) (auto simp: dgetd_def)
  show "set (dkeys (id_dict v steps)) = ids steps" "distinct (dkeys (id_dict v steps))" "dgetd (id_dict v steps) x v = v"
    using * [of "[]"] ** [of "[]"] *** [of "[]"] by (simp_all add: id_dict_def dkeys_def dwf_def dgetd_def)
qed

lemma in_count_sum:
  assumes "finite D" "deps_known D steps"
  shows "in_count steps x = (\<Sum>d \<in> D. count_list (dependents steps d) x)"
  using assms(2)
proof (induction steps)
  case (Cons s ss)
  have "(\<Sum>d \<in> D. count_list (replicate (count_list (st_deps s) d) (st_id s)) x) = (if st_id s = x then length (st_deps s) else 0)"
    using sum_count_set [of "st_deps s" D] assms(1) Cons.prems by (auto simp: count_list_replicate sum.If_cases)
  with Cons show ?case by (simp add: sum.distrib)
qed simp

section \<open>The loop\<close>

text \<open>What relaxing does: every successor loses as many edges as it has, and exactly those whose
  last edge this was join the queue, once.\<close>

lemma relax_spec:
  assumes "\<And>x. int (count_list ns x) \<le> dgetd deg x 0" "relax ns deg queue = (deg', queue')"
  shows "(\<forall>x. dgetd deg' x 0 = dgetd deg x 0 - int (count_list ns x)) \<and>
    (\<exists>new. queue' = queue @ new \<and> distinct new \<and> set new = {x \<in> set ns. dgetd deg x 0 = int (count_list ns x)})"
  using assms
proof (induction ns arbitrary: deg queue)
  case (Cons n ns)
  let ?k = "dgetd deg n 0 - 1" and ?deg = "dset n (dgetd deg n 0 - 1) deg"
  have get: "dgetd ?deg x 0 = (if x = n then ?k else dgetd deg x 0)" for x by (simp add: dgetd_def)
  have le: "int (count_list ns x) \<le> dgetd ?deg x 0" for x using Cons.prems(1) [of x] by (auto simp: get)
  from Cons.prems(2) have r: "relax ns ?deg (if ?k = 0 then queue @ [n] else queue) = (deg', queue')" by (simp add: Let_def)
  from Cons.IH [OF le r] obtain new where
    ih: "\<forall>x. dgetd deg' x 0 = dgetd ?deg x 0 - int (count_list ns x)" "queue' = (if ?k = 0 then queue @ [n] else queue) @ new"
      "distinct new" "set new = {x \<in> set ns. dgetd ?deg x 0 = int (count_list ns x)}" by blast
  let ?new = "(if ?k = 0 then [n] else []) @ new"
  have n: "n \<notin> set ns" if "?k = 0" using le [of n] that unfolding get by (simp add: count_list_0_iff)
  have "queue' = queue @ ?new" using ih(2) by simp
  moreover have "distinct ?new" using ih(3,4) n by auto
  moreover have "x \<in> set ?new \<longleftrightarrow> x \<in> set (n # ns) \<and> dgetd deg x 0 = int (count_list (n # ns) x)" for x
  proof (cases "x = n")
    case True
    then show ?thesis using ih(4) n by (cases "n \<in> set ns") (auto simp: get count_list_0_iff)
  qed (simp add: ih(4) get)
  moreover have "dgetd deg' x 0 = dgetd deg x 0 - int (count_list (n # ns) x)" for x using ih(1) by (simp add: get)
  ultimately show ?case by (intro conjI exI [of _ ?new]) blast+
qed simp

text \<open>The dependencies of an identifier: those it has an edge from.\<close>

definition edge :: "workflow_step list \<Rightarrow> string \<Rightarrow> string \<Rightarrow> bool" where
  "edge steps d x \<longleftrightarrow> x \<in> set (dependents steps d)"

lemma edge_iff: "edge steps d x \<longleftrightarrow> (\<exists>s \<in> set steps. st_id s = x \<and> d \<in> set (st_deps s))"
  unfolding edge_def by (induction steps) (auto simp: count_list_0_iff)

fun after_deps :: "workflow_step list \<Rightarrow> string list \<Rightarrow> bool" where
  "after_deps steps [] \<longleftrightarrow> True"
| "after_deps steps (x # xs) \<longleftrightarrow> (\<forall>d. edge steps d x \<longrightarrow> d \<in> set xs) \<and> after_deps steps xs"

text \<open>The invariant; \<open>popped\<close> is the identifiers taken from the queue, the last one first.\<close>

definition kahn_inv :: "workflow_step list \<Rightarrow> string list \<Rightarrow> (string, int) dict \<Rightarrow> string list \<Rightarrow> bool" where
  "kahn_inv steps popped deg queue \<longleftrightarrow> distinct (popped @ queue) \<and> set (popped @ queue) \<subseteq> ids steps \<and>
     (\<forall>x. dgetd deg x 0 = (\<Sum>d \<in> ids steps - set popped. int (count_list (dependents steps d) x))) \<and>
     (\<forall>x \<in> ids steps. x \<in> set (popped @ queue) \<longleftrightarrow> dgetd deg x 0 = 0) \<and> after_deps steps popped"

lemma kahn_inv_step:
  assumes inv: "kahn_inv steps popped deg (u # queue)" and known: "deps_known (ids steps) steps"
    and r: "relax (dependents steps u) deg queue = (deg', queue')"
  shows "kahn_inv steps (u # popped) deg' queue'"
proof -
  let ?c = "\<lambda>d x. int (count_list (dependents steps d) x)" and ?D = "ids steps"
  have fin: "finite ?D" by (simp add: ids_def)
  have dis: "distinct (popped @ u # queue)" and sub: "set (popped @ u # queue) \<subseteq> ?D"
    and deg: "\<And>x. dgetd deg x 0 = (\<Sum>d \<in> ?D - set popped. ?c d x)"
    and zero: "\<And>x. x \<in> ?D \<Longrightarrow> x \<in> set (popped @ u # queue) \<longleftrightarrow> dgetd deg x 0 = 0" and aft: "after_deps steps popped"
    using inv by (simp_all add: kahn_inv_def)
  have u: "u \<in> ?D - set popped" using dis sub by auto
  have split: "dgetd deg x 0 = ?c u x + (\<Sum>d \<in> ?D - set (u # popped). ?c d x)" for x
  proof -
    have "?D - set popped - {u} = ?D - set (u # popped)" by auto
    with sum.remove [OF _ u, of "\<lambda>d. ?c d x"] fin deg [of x] show ?thesis by simp
  qed
  have le: "?c u x \<le> dgetd deg x 0" for x unfolding split [of x] by (simp add: sum_nonneg)
  from relax_spec [OF le r] obtain new where deg': "\<And>x. dgetd deg' x 0 = dgetd deg x 0 - ?c u x" and q: "queue' = queue @ new"
    and new: "distinct new" "set new = {x \<in> set (dependents steps u). dgetd deg x 0 = ?c u x}" by blast
  have sD: "x \<in> ?D" if "x \<in> set (dependents steps u)" for x using that edge_iff [of steps u x] by (auto simp: edge_def ids_def)
  have pos: "0 < ?c u x" if "x \<in> set (dependents steps u)" for x using that count_list_0_iff [of "dependents steps u" x] by simp
  have newz: "x \<in> set new \<Longrightarrow> x \<in> ?D \<and> x \<notin> set (popped @ u # queue)" for x
    using new(2) sD pos zero [of x] by fastforce
  have "distinct ((u # popped) @ queue')" using dis new(1) newz q by auto
  moreover have "set ((u # popped) @ queue') \<subseteq> ?D" using sub newz q by auto
  moreover have "dgetd deg' x 0 = (\<Sum>d \<in> ?D - set (u # popped). ?c d x)" for x using deg' split by simp
  moreover have "x \<in> set ((u # popped) @ queue') \<longleftrightarrow> dgetd deg' x 0 = 0" if x: "x \<in> ?D" for x
  proof (cases "x \<in> set (dependents steps u)")
    case True
    then show ?thesis using zero [OF x] new(2) pos [OF True] deg' [of x] le [of x] by (auto simp: q)
  next
    case False
    then have "?c u x = 0" by (simp add: count_list_0_iff)
    then show ?thesis using zero [OF x] new(2) False deg' [of x] by (auto simp: q)
  qed
  moreover have "d \<in> set popped" if e: "edge steps d u" for d
  proof (rule ccontr)
    assume "d \<notin> set popped"
    moreover have "d \<in> ?D" using e known by (auto simp: edge_iff deps_known_def)
    ultimately have "?c d u \<le> dgetd deg u 0" unfolding deg using fin
      by (intro member_le_sum) auto
    moreover have "0 < ?c d u" using e count_list_0_iff [of "dependents steps d" u] by (simp add: edge_def)
    ultimately show False using zero [of u] u by simp
  qed
  ultimately show ?thesis using aft by (simp add: kahn_inv_def)
qed

text \<open>The loop from a state of the invariant: it ends within the fuel, in a state of the invariant
  whose queue is empty.\<close>

lemma kahn_runs:
  assumes "kahn_inv steps popped deg queue" "deps_known (ids steps) steps" "\<forall>d. dgetd adj d [] = dependents steps d"
    and "card (ids steps) \<le> fuel + length popped" "order = concat (map (\<lambda>u. case step_by_id steps u of None \<Rightarrow> [] | Some s \<Rightarrow> [s]) (rev popped))"
  shows "\<exists>popped' deg'. kahn_inv steps popped' deg' [] \<and>
    kahn fuel steps adj deg queue order = Some (concat (map (\<lambda>u. case step_by_id steps u of None \<Rightarrow> [] | Some s \<Rightarrow> [s]) (rev popped')))"
  using assms
proof (induction fuel arbitrary: popped deg queue order)
  case 0
  have "queue = []"
  proof (rule ccontr)
    assume "queue \<noteq> []"
    moreover have "card (set (popped @ queue)) = length (popped @ queue)"
      using "0.prems"(1) unfolding kahn_inv_def by (intro distinct_card) blast
    ultimately have "length popped < card (set (popped @ queue))" by (cases queue) simp_all
    moreover have "card (set (popped @ queue)) \<le> card (ids steps)" using "0.prems"(1) by (intro card_mono) (simp_all add: kahn_inv_def ids_def)
    ultimately show False using "0.prems"(4) by simp
  qed
  with "0.prems" show ?case by auto
next
  case (Suc fuel)
  show ?case
  proof (cases queue)
    case Nil
    with Suc.prems show ?thesis by auto
  next
    case (Cons u q)
    obtain deg' queue' where r: "relax (dependents steps u) deg q = (deg', queue')" by fastforce
    have inv: "kahn_inv steps (u # popped) deg' queue'" using kahn_inv_step [OF Suc.prems(1) [unfolded Cons] Suc.prems(2) r] .
    have "card (ids steps) \<le> fuel + length (u # popped)" using Suc.prems(4) by simp
    from Suc.IH [OF inv Suc.prems(2,3) this refl] show ?thesis using Suc.prems(3,5) r by (simp add: Cons)
  qed
qed

text \<open>Where the loop begins: nothing popped, the identifiers without a dependency queued.\<close>

lemma kahn_inv_init:
  assumes "deps_known (ids steps) steps" "dkeys deg = dkeys (id_dict (0::int) steps)" "\<forall>x. dgetd deg x 0 = int (in_count steps x)"
  shows "kahn_inv steps [] deg (map fst (filter (\<lambda>(i, k). k = 0) deg))"
proof -
  let ?q = "map fst (filter (\<lambda>(i, k). k = 0) deg)"
  have wf: "dwf deg" and keys: "set (dkeys deg) = ids steps"
    using assms(2) id_dict_props(1,2) [of "0::int" steps] by (simp_all add: dwf_def dkeys_def)
  have q: "x \<in> set ?q \<longleftrightarrow> x \<in> ids steps \<and> dgetd deg x 0 = 0" for x
  proof -
    have "x \<in> set ?q \<longleftrightarrow> (x, 0) \<in> set deg" by force
    also have "\<dots> \<longleftrightarrow> dget deg x = Some 0" using dget_iff_set [OF wf] by simp
    also have "\<dots> \<longleftrightarrow> x \<in> ids steps \<and> dgetd deg x 0 = 0"
      unfolding keys [symmetric] in_dkeys dmem_Some by (auto simp: dgetd_def)
    finally show ?thesis .
  qed
  have "distinct ?q" using wf unfolding dwf_def by (rule distinct_map_filter)
  moreover have "dgetd deg x 0 = (\<Sum>d \<in> ids steps. int (count_list (dependents steps d) x))" for x
    using assms(3) in_count_sum [OF _ assms(1), of x] by (simp add: ids_def)
  ultimately show ?thesis using q unfolding kahn_inv_def by auto
qed

section \<open>Orders\<close>

text \<open>An order of the steps: all of them, each identifier once, and every step after the steps it
  depends on.\<close>

fun after_seen :: "string set \<Rightarrow> workflow_step list \<Rightarrow> bool" where
  "after_seen seen [] \<longleftrightarrow> True"
| "after_seen seen (s # ss) \<longleftrightarrow> set (st_deps s) \<subseteq> seen \<and> after_seen (insert (st_id s) seen) ss"

definition is_order :: "workflow_step list \<Rightarrow> workflow_step list \<Rightarrow> bool" where
  "is_order steps order \<longleftrightarrow> mset order = mset steps \<and> distinct (map st_id order) \<and> after_seen {} order"

lemma after_seen_append: "after_seen seen (xs @ ys) \<longleftrightarrow> after_seen seen xs \<and> after_seen (seen \<union> set (map st_id xs)) ys"
  by (induction xs arbitrary: seen) (auto simp: insert_commute)

lemma after_seen_split: "after_seen {} (xs @ s # ys) \<Longrightarrow> set (st_deps s) \<subseteq> set (map st_id xs)"
  by (simp add: after_seen_append)

text \<open>The identifiers the loop popped, as steps.\<close>

lemma step_by_id_in: "u \<in> ids steps \<Longrightarrow> \<exists>s. step_by_id steps u = Some s \<and> s \<in> set steps \<and> st_id s = u"
  unfolding step_by_id_def ids_def by (induction steps) auto

lemma popped_steps:
  assumes "set us \<subseteq> ids steps" "after_deps steps us"
  shows "\<exists>order. concat (map (\<lambda>u. case step_by_id steps u of None \<Rightarrow> [] | Some s \<Rightarrow> [s]) (rev us)) = order
    \<and> map st_id order = rev us \<and> set order \<subseteq> set steps \<and> after_seen {} order"
  using assms
proof (induction us)
  case (Cons u us)
  then obtain order where ih: "concat (map (\<lambda>u. case step_by_id steps u of None \<Rightarrow> [] | Some s \<Rightarrow> [s]) (rev us)) = order"
    "map st_id order = rev us" "set order \<subseteq> set steps" "after_seen {} order" by auto
  from Cons.prems(1) step_by_id_in obtain s where s: "step_by_id steps u = Some s" "s \<in> set steps" "st_id s = u" by force
  have "set (map st_id order) = set us" using ih(2) by simp
  moreover have "set (st_deps s) \<subseteq> set us" using Cons.prems(2) s by (auto simp: edge_iff)
  ultimately have "after_seen {} (order @ [s])" using ih(4) by (simp add: after_seen_append)
  with ih s show ?case by simp
qed simp

lemma is_order_deps_known:
  assumes "is_order steps order"
  shows "deps_known (ids steps) steps" "distinct (map st_id steps)"
proof -
  from assms have m: "mset order = mset steps" and r: "after_seen {} order" and d: "distinct (map st_id order)"
    by (simp_all add: is_order_def)
  have "set (st_deps s) \<subseteq> ids steps" if "s \<in> set steps" for s
  proof -
    from that m have "s \<in> set order" by (metis set_mset_mset)
    then obtain xs ys where o: "order = xs @ s # ys" by (meson split_list)
    have "set (map st_id xs) \<subseteq> ids steps" using o mset_eq_setD [OF m] by (auto simp: ids_def)
    with after_seen_split [OF r [unfolded o]] show ?thesis by blast
  qed
  then show "deps_known (ids steps) steps" by (simp add: deps_known_def)
  have "mset (map st_id order) = mset (map st_id steps)" using m by simp
  then show "distinct (map st_id steps)" using d mset_eq_imp_distinct_iff by blast
qed

text \<open>When an order exists, the loop pops everything: the first step of the order that was left
  over would have had no edge left.\<close>

lemma all_popped:
  assumes inv: "kahn_inv steps popped deg []" and order: "is_order steps order"
  shows "set popped = ids steps"
proof (rule ccontr)
  have m: "mset order = mset steps" and r: "after_seen {} order" using order by (simp_all add: is_order_def)
  assume "set popped \<noteq> ids steps"
  moreover have "set popped \<subseteq> ids steps" using inv by (simp add: kahn_inv_def)
  ultimately obtain i where "i \<in> ids steps" "i \<notin> set popped" by blast
  then obtain s0 where "s0 \<in> set order" "st_id s0 \<notin> set popped" using mset_eq_setD [OF m] by (auto simp: ids_def)
  from split_list_first_prop [of order "\<lambda>s. st_id s \<notin> set popped"] this
  obtain xs s ys where o: "order = xs @ s # ys" "st_id s \<notin> set popped" "\<forall>y \<in> set xs. st_id y \<in> set popped" by auto
  have deps: "set (st_deps s) \<subseteq> set popped" using after_seen_split [OF r [unfolded o(1)]] o(3) by auto
  have sD: "s \<in> set steps" using o(1) mset_eq_setD [OF m] by auto
  have uniq: "t = s" if "t \<in> set steps" "st_id t = st_id s" for t
    using that sD is_order_deps_known(2) [OF order] by (metis distinct_map inj_onD)
  have "count_list (dependents steps d) (st_id s) = 0" if "d \<notin> set popped" for d
    using edge_iff [of steps d "st_id s"] uniq deps that by (auto simp: edge_def count_list_0_iff)
  then have "dgetd deg (st_id s) 0 = 0" using inv by (simp add: kahn_inv_def)
  moreover have "st_id s \<in> ids steps" using sD by (simp add: ids_def)
  ultimately show False using inv o(2) by (simp add: kahn_inv_def)
qed

lemma topological_cases:
  "(\<exists>k. topological_order steps = Some (Inl (Exn ''KeyError'' k))) \<and> \<not> deps_known (ids steps) steps \<or>
   (\<exists>popped deg order. deps_known (ids steps) steps \<and> kahn_inv steps popped deg [] \<and> map st_id order = rev popped
      \<and> set order \<subseteq> set steps \<and> after_seen {} order
      \<and> topological_order steps = Some (if length order \<noteq> length steps
           then Inl (Exn ''ValueError'' ''Circular dependency detected in workflow'') else Inr order))"
proof (cases "deps_known (ids steps) steps")
  case True
  let ?deg = "id_dict (0::int) steps" and ?adj = "id_dict ([]::string list) steps"
  from count_steps_ok [of ?adj steps ?deg] True obtain deg adj where c: "count_steps steps (?deg, ?adj) = Inr (deg, adj)"
    "dkeys deg = dkeys ?deg" "\<forall>x. dgetd deg x 0 = int (in_count steps x)" "\<forall>d. dgetd adj d [] = dependents steps d"
    by (auto simp: id_dict_props)
  have "card (ids steps) \<le> length steps + length ([]::string list)" unfolding ids_def using card_length [of "map st_id steps"] by simp
  from kahn_runs [OF kahn_inv_init [OF True c(2,3)] True c(4) this] obtain popped deg' where
    k: "kahn_inv steps popped deg' []" "kahn (length steps) steps adj deg (map fst (filter (\<lambda>(i, k). k = 0) deg)) []
      = Some (concat (map (\<lambda>u. case step_by_id steps u of None \<Rightarrow> [] | Some s \<Rightarrow> [s]) (rev popped)))" by auto
  from k(1) have "set popped \<subseteq> ids steps" "after_deps steps popped" by (simp_all add: kahn_inv_def)
  from popped_steps [OF this] obtain order where
    o: "concat (map (\<lambda>u. case step_by_id steps u of None \<Rightarrow> [] | Some s \<Rightarrow> [s]) (rev popped)) = order"
    "map st_id order = rev popped" "set order \<subseteq> set steps" "after_seen {} order" by blast
  from k(2) o(1) c(1) have "topological_order steps = Some (if length order \<noteq> length steps
    then Inl (Exn ''ValueError'' ''Circular dependency detected in workflow'') else Inr order)"
    unfolding topological_order_def by simp
  with k(1) True o(2-4) show ?thesis by blast
next
  case False
  with count_steps_unknown [of "id_dict ([]::string list) steps" steps "id_dict (0::int) steps"] obtain k where
    "count_steps steps (id_dict 0 steps, id_dict [] steps) = Inl (Exn ''KeyError'' k)" by (auto simp: id_dict_props)
  with False show ?thesis by (simp add: topological_order_def)
qed

lemma topological_order_correct:
  "case topological_order steps of
     None \<Rightarrow> False
   | Some (Inl e) \<Rightarrow> \<not> (\<exists>order. is_order steps order)
   | Some (Inr order) \<Rightarrow> is_order steps order"
  using topological_cases [of steps]
proof (elim disjE exE conjE)
  fix k assume "topological_order steps = Some (Inl (Exn ''KeyError'' k))" "\<not> deps_known (ids steps) steps"
  then show ?thesis using is_order_deps_known(1) by auto
next
  fix popped deg order
  assume inv: "kahn_inv steps popped deg []" and order: "map st_id order = rev popped" "set order \<subseteq> set steps" "after_seen {} order"
    and t: "topological_order steps = Some (if length order \<noteq> length steps
           then Inl (Exn ''ValueError'' ''Circular dependency detected in workflow'') else Inr order)"
  have dis: "distinct (map st_id order)" using inv order(1) by (simp add: kahn_inv_def)
  show ?thesis
  proof (cases "length order = length steps")
    case True
    have "distinct order" using dis by (simp add: distinct_map)
    then have "card (set order) = length steps" using True distinct_card by fastforce
    with order(2) card_length [of steps] have eq: "set order = set steps"
      by (metis List.finite_set card_seteq)
    with \<open>card (set order) = length steps\<close> have "distinct steps" by (simp add: card_distinct)
    with \<open>distinct order\<close> eq have "mset order = mset steps" by (simp add: set_eq_iff_mset_eq_distinct)
    then show ?thesis using t True dis order(3) by (simp add: is_order_def)
  next
    case False
    have "\<not> is_order steps order'" for order'
    proof
      assume o: "is_order steps order'"
      have "length order = length popped" using order(1) by (metis length_map length_rev)
      also have "\<dots> = card (ids steps)" using all_popped [OF inv o] inv by (metis append_Nil2 distinct_card kahn_inv_def)
      also have "\<dots> = length steps" unfolding ids_def using is_order_deps_known(2) [OF o] by (metis distinct_card length_map)
      finally show False using False by simp
    qed
    then show ?thesis using t False by simp
  qed
qed

text \<open>C22: kahn's algorithm decides whether the steps can be ordered and orders them. It always
  returns: with an order in which every step comes once and after the steps it depends on,
  or with an error, and then no such order exists (a cycle, an unknown dependency or an
  identifier used twice).\<close>

theorem topological_order_exact:
  "case topological_order steps of
     None \<Rightarrow> False
   | Some (Inl e) \<Rightarrow> \<not> (\<exists>order. is_order steps order)
   | Some (Inr order) \<Rightarrow> is_order steps order"
  by (rule topological_order_correct)

section \<open>Plans can be ordered\<close>

lemma matched_workflow_cases: "matched_workflow goal \<in> snd ` set KEYWORDS_TO_WORKFLOW"
proof (cases "find (\<lambda>(k, rows). contains (lower goal) k) KEYWORDS_TO_WORKFLOW")
  case (Some kr)
  then have "kr \<in> set KEYWORDS_TO_WORKFLOW" by (metis find_Some_iff nth_mem)
  with Some show ?thesis by (auto simp: matched_workflow_def image_iff split: prod.splits intro!: bexI [of _ kr])
qed (simp add: matched_workflow_def KEYWORDS_TO_WORKFLOW_def dgetd_def)

text \<open>The plan for any goal can be carried out as it stands: its steps are already in an
  order Kahn's algorithm accepts, whatever the words of the goal, and the reflection step comes
  last.\<close>

theorem plan_goal_ordered: "topological_order (bp_steps (plan_goal goal)) = Some (Inr (bp_steps (plan_goal goal)))"
proof -
  have "\<forall>rows \<in> snd ` set KEYWORDS_TO_WORKFLOW.
    let ss = plan_steps 0 [] rows; full = ss @ (if COMPLEXITY_THRESHOLD \<le> length rows
      then [WorkflowStep ''step_reflect'' ''reflect'' ''ReflectionNode'' ''gap report'' [st_id (last ss)]] else [])
    in topological_order full = Some (Inr full)" by code_simp
  from bspec [OF this matched_workflow_cases [of goal]] show ?thesis unfolding plan_goal_def Let_def by simp
qed

text \<open>The steps a revision adds: one for every gap, each after the step before it, and the
  verification, always under the same identifier.\<close>

lemma fold_fix_steps:
  "\<exists>ext. fold (\<lambda>g steps. steps @ [fix_step steps g]) gaps steps = steps @ ext
     \<and> map st_action ext = map (\<lambda>g. ''fix_gap: '' @ take 40 g) gaps"
proof (induction gaps arbitrary: steps)
  case (Cons g gaps)
  from Cons.IH [of "steps @ [fix_step steps g]"] obtain ext where
    "fold (\<lambda>g steps. steps @ [fix_step steps g]) gaps (steps @ [fix_step steps g]) = (steps @ [fix_step steps g]) @ ext"
    "map st_action ext = map (\<lambda>g. ''fix_gap: '' @ take 40 g) gaps" by blast
  then show ?case by (intro exI [of _ "fix_step steps g # ext"]) (simp add: fix_step_def WorkflowStep_def)
qed simp

lemma replan_steps:
  assumes "gaps \<noteq> []"
  obtains ext v where "bp_steps (replan bp gaps) = bp_steps bp @ ext @ [v]" "st_id v = ''step_verify''"
    "map st_action ext = map (\<lambda>g. ''fix_gap: '' @ take 40 g) gaps"
proof -
  from fold_fix_steps [of gaps "bp_steps bp"] obtain ext where
    "fold (\<lambda>g steps. steps @ [fix_step steps g]) gaps (bp_steps bp) = bp_steps bp @ ext"
    "map st_action ext = map (\<lambda>g. ''fix_gap: '' @ take 40 g) gaps" by blast
  with assms show thesis by (intro that [of ext "verify_step (bp_steps bp @ ext)"]) (simp_all add: replan_def verify_step_def WorkflowStep_def)
qed

text \<open>A second revision can never be ordered: every revision appends a step with the
  identifier \<open>step_verify\<close>, so after two of them the identifiers are no longer unique and the
  order of the steps is an error, whatever blueprint the planner began with.\<close>

theorem replan_twice_unordered:
  assumes "gaps1 \<noteq> []" "gaps2 \<noteq> []"
  shows "\<exists>e. topological_order (bp_steps (replan (replan bp gaps1) gaps2)) = Some (Inl e)"
proof -
  let ?steps = "bp_steps (replan (replan bp gaps1) gaps2)"
  obtain ext1 v1 where 1: "bp_steps (replan bp gaps1) = bp_steps bp @ ext1 @ [v1]" "st_id v1 = ''step_verify''"
    using replan_steps [OF assms(1)] by metis
  obtain ext2 v2 where 2: "?steps = bp_steps (replan bp gaps1) @ ext2 @ [v2]" "st_id v2 = ''step_verify''"
    using replan_steps [OF assms(2)] by metis
  have "\<not> distinct (map st_id ?steps)" using 1 2 by simp
  then have none: "\<not> is_order ?steps order" for order using is_order_deps_known(2) by blast
  show ?thesis using topological_order_correct [of ?steps] none by (simp split: option.splits sum.splits)
qed

theorem replan_twice_witness:
  "\<exists>e. topological_order (bp_steps (replan (replan (plan_goal ''add auth'') [''a'']) [''b''])) = Some (Inl e)"
  by (rule replan_twice_unordered) simp_all

end
