(* ===== verification/Autonomous_Loop.thy ===== *)
theory Autonomous_Loop
  imports Blueprint_Order Memory_Graph
begin

text \<open>
  The self-correcting loop of \<open>src/services/autonomous_loop.py\<close>: plan, simulate, reflect
  (\<open>src/orchestration/reflection_node.py\<close>), revise and try again, with the outcome recorded in the
  memory graph, and the nodes of \<open>src/orchestration/graph_orchestrator.py\<close>. \<open>fmt\<close> is Python's text
  of a float, used when a task name of a loaded graph is not a string.
\<close>

section \<open>Reflection\<close>

record reflection_result =
  rr_status :: string
  rr_gaps :: "string list"
  rr_suggestions :: "string list"
  rr_confidence :: real

definition check_criterion :: "string \<Rightarrow> string \<Rightarrow> bool" where
  "check_criterion out criterion =
     list_ex (\<lambda>kw. contains (lower out) kw) (map lower (filter (\<lambda>w. 3 < length w) (split_ws criterion)))"

definition evaluate_output :: "string \<Rightarrow> string list \<Rightarrow> reflection_result" where
  "evaluate_output out criteria =
     (let missing = filter (\<lambda>c. \<not> check_criterion out c) criteria in
      if missing \<noteq> [] then
        \<lparr>rr_status = ''failure'', rr_gaps = map (\<lambda>c. ''Missing criterion: '' @ c) missing,
         rr_suggestions = map (\<lambda>c. ''Add implementation for: '' @ c) missing,
         rr_confidence = max (1 / 2) (1 - real (length missing) * (2 / 10))\<rparr>
      else \<lparr>rr_status = ''success'', rr_gaps = [], rr_suggestions = [], rr_confidence = 1\<rparr>)"

text \<open>The notes on similar tasks that failed: the agents before each similar task, and the failures
  in the history of each. \<open>None\<close> is a traversal that did not return.\<close>

definition find_agent_named :: "'g digraph_ops \<Rightarrow> json \<Rightarrow> 'g graph_store \<Rightarrow> string option" where
  "find_agent_named G name s = map_option fst (find (\<lambda>(n, d). py_eq (dgetd d ''name'' JNull) name) (query_by_type G AGENT s))"

fun failure_notes :: "(real \<Rightarrow> string) \<Rightarrow> (json \<times> json) list \<Rightarrow> string list" where
  "failure_notes fmt [] = []"
| "failure_notes fmt ((tsk, out) # rows) =
     (if out = JStr ''failure'' then [''Similar task '' @ [CHR 0x27] @ py_str fmt tsk @ [CHR 0x27] @ '' previously failed''] else [])
     @ failure_notes fmt rows"

fun agent_notes :: "'g digraph_ops \<Rightarrow> (real \<Rightarrow> string) \<Rightarrow> 'g graph_store \<Rightarrow> node list \<Rightarrow> string list result option" where
  "agent_notes G fmt s [] = Some (Inr [])"
| "agent_notes G fmt s ((n, d) # preds) =
     (if dget d ''type'' \<noteq> Some (JStr (node_type_value AGENT)) then agent_notes G fmt s preds
      else case dget d ''name'' of
          None \<Rightarrow> Some (Inl (Exn ''KeyError'' ''name''))
        | Some name \<Rightarrow> (case node_history G (find_agent_named G name s) s of
            None \<Rightarrow> None
          | Some (Inl e) \<Rightarrow> Some (Inl e)
          | Some (Inr rows) \<Rightarrow> map_option (\<lambda>r. bindr r (\<lambda>notes. Inr (failure_notes fmt rows @ notes))) (agent_notes G fmt s preds)))"

fun similar_notes :: "'g digraph_ops \<Rightarrow> (real \<Rightarrow> string) \<Rightarrow> 'g graph_store \<Rightarrow> node list \<Rightarrow> string list result option" where
  "similar_notes G fmt s [] = Some (Inr [])"
| "similar_notes G fmt s (t # ts) = (case predecessors G (fst t) s of
      Inl e \<Rightarrow> Some (Inl e)
    | Inr preds \<Rightarrow> (case agent_notes G fmt s preds of
        None \<Rightarrow> None
      | Some (Inl e) \<Rightarrow> Some (Inl e)
      | Some (Inr notes) \<Rightarrow> map_option (\<lambda>r. bindr r (\<lambda>more. Inr (notes @ more))) (similar_notes G fmt s ts)))"

record reflection =
  rf_status :: string
  rf_gaps :: "string list"
  rf_suggestions :: "string list"
  rf_confidence :: real
  rf_notes :: "string list"
  rf_enhanced :: bool

text \<open>The reflection and its \<open>memory_enhanced\<close> flag; without a memory there are no notes.\<close>

definition historical_notes :: "'g digraph_ops \<Rightarrow> (real \<Rightarrow> string) \<Rightarrow> string \<Rightarrow> 'g graph_store option \<Rightarrow> string list result option" where
  "historical_notes G fmt tsk memory = (case memory of
      None \<Rightarrow> Some (Inr [])
    | Some s \<Rightarrow> similar_notes G fmt s (find_similar G tsk 3 s))"

definition reflect :: "'g digraph_ops \<Rightarrow> (real \<Rightarrow> string) \<Rightarrow> 'g graph_store option \<Rightarrow> string \<Rightarrow> string \<Rightarrow> (string, string) dict
    \<Rightarrow> reflection result option" where
  "reflect G fmt memory tsk out criteria =
     (let r = evaluate_output out (map snd criteria) in
      map_option (\<lambda>nr. bindr nr (\<lambda>notes. Inr
        \<lparr>rf_status = rr_status r, rf_gaps = rr_gaps r, rf_suggestions = rr_suggestions r, rf_confidence = rr_confidence r,
         rf_notes = notes, rf_enhanced = (notes \<noteq> [])\<rparr>)) (historical_notes G fmt tsk memory))"

section \<open>The loop\<close>

definition step_output :: "workflow_step \<Rightarrow> string" where
  "step_output s = ''['' @ st_agent s @ ''] '' @ st_action s @ '' -> '' @ st_output s"

text \<open>The outputs the steps announce, in their order, or as listed when there is none. Only a
  \<open>ValueError\<close> is caught.\<close>

definition simulate_execution :: "workflow_blueprint \<Rightarrow> string result option" where
  "simulate_execution bp = map_option (\<lambda>r. case r of
      Inr ordered \<Rightarrow> Inr (join [CHR 0x0A] (map step_output ordered))
    | Inl (Exn k m) \<Rightarrow> if k = ''ValueError'' then Inr (join [CHR 0x0A] (map step_output (bp_steps bp))) else Inl (Exn k m))
    (topological_order (bp_steps bp))"

record loop_result =
  lr_status :: string
  lr_goal :: string
  lr_attempts :: int
  lr_validated :: bool
  lr_blueprint :: workflow_blueprint
  lr_reflection :: reflection
  lr_gaps :: "string list"

definition record_outcome :: "'g digraph_ops \<Rightarrow> string \<Rightarrow> task_outcome \<Rightarrow> int \<Rightarrow> 'g graph_store \<Rightarrow> 'g graph_store" where
  "record_outcome G goal out k s = fst (record_task G goal ''AutonomousLoop'' out [(''retries_used'', JInt k)] s)"

text \<open>The attempts from number \<open>k\<close> on, \<open>n\<close> of them left; \<open>prev\<close> is the variable \<open>ref\<close>, unbound before
  the first reflection.\<close>

fun attempts_from ::
  "'g digraph_ops \<Rightarrow> (real \<Rightarrow> string) \<Rightarrow> string \<Rightarrow> (string, string) dict \<Rightarrow> int \<Rightarrow> nat \<Rightarrow> int \<Rightarrow> workflow_blueprint \<Rightarrow> reflection option
    \<Rightarrow> 'g graph_store \<Rightarrow> 'g graph_store \<times> loop_result result option" where
  "attempts_from G fmt goal criteria max_retries 0 k bp prev s =
     (record_outcome G goal FAILURE max_retries s,
      case prev of
        None \<Rightarrow> Some (Inl (Exn ''UnboundLocalError'' ''ref''))
      | Some rf \<Rightarrow> Some (Inr \<lparr>lr_status = ''max_retries'', lr_goal = goal, lr_attempts = max_retries, lr_validated = False,
          lr_blueprint = bp, lr_reflection = rf, lr_gaps = rf_gaps rf\<rparr>))"
| "attempts_from G fmt goal criteria max_retries (Suc n) k bp prev s =
     (case simulate_execution bp of
        None \<Rightarrow> (s, None)
      | Some (Inl e) \<Rightarrow> (s, Some (Inl e))
      | Some (Inr out) \<Rightarrow> (case reflect G fmt (Some s) goal out criteria of
          None \<Rightarrow> (s, None)
        | Some (Inl e) \<Rightarrow> (s, Some (Inl e))
        | Some (Inr rf) \<Rightarrow>
            if rf_status rf = ''success'' then
              (record_outcome G goal SUCCESS k s,
               Some (Inr \<lparr>lr_status = ''success'', lr_goal = goal, lr_attempts = k, lr_validated = True,
                 lr_blueprint = bp, lr_reflection = rf, lr_gaps = []\<rparr>))
            else attempts_from G fmt goal criteria max_retries n (k + 1) (replan bp (rf_gaps rf)) (Some rf) s))"

definition run_loop ::
  "'g digraph_ops \<Rightarrow> (real \<Rightarrow> string) \<Rightarrow> int \<Rightarrow> string \<Rightarrow> (string, string) dict \<Rightarrow> 'g graph_store \<Rightarrow> 'g graph_store \<times> loop_result result option" where
  "run_loop G fmt max_retries goal criteria s =
     attempts_from G fmt goal criteria max_retries (nat max_retries) 1 (plan_goal goal) None s"

section \<open>The graph orchestrator\<close>

text \<open>The nodes over the agent state, a dictionary; the LangGraph runtime that calls them is a
  third-party package, of which only the route it is given is stated.\<close>

type_synonym agent_state = "(string, json) dict"

definition plan_node :: "agent_state \<Rightarrow> agent_state" where
  "plan_node st = dset ''blueprint'' (JObj [(''planned'', JBool True), (''steps'', JArr [])]) (dset ''phase'' (JStr ''PLAN'') st)"

definition build_node :: "agent_state \<Rightarrow> agent_state" where
  "build_node st = dset ''build_output'' (JObj [(''built'', JBool True), (''artifacts'', JArr [])]) (dset ''phase'' (JStr ''BUILD'') st)"

definition review_output_node :: "agent_state \<Rightarrow> agent_state" where
  "review_output_node st = dset ''review_output'' (JObj [(''status'', JStr ''pass'')]) (dset ''phase'' (JStr ''REVIEW'') st)"

definition reflect_node :: "(real \<Rightarrow> string) \<Rightarrow> agent_state \<Rightarrow> agent_state result" where
  "reflect_node fmt st = (case (dgetd st ''build_output'' (JObj []), dgetd st ''review_output'' (JObj [])) of
      (JObj b, JObj r) \<Rightarrow>
        (let built = dgetd b ''built'' (JBool False); passed = dget r ''status'' = Some (JStr ''pass'');
             line = ''Reflection: build_ok='' @ py_str fmt built @ '', review_pass='' @ (if passed then ''True'' else ''False'') in
         case dgetd st ''reflection'' (JArr []) of
           JArr ls \<Rightarrow> Inr (dset ''status'' (JStr (if truthy built \<and> passed then ''done'' else ''running''))
                             (dset ''reflection'' (JArr (ls @ [JStr line])) st))
         | _ \<Rightarrow> Inl (attribute_error ''append''))
    | _ \<Rightarrow> Inl (attribute_error ''get''))"

definition should_rework :: "agent_state \<Rightarrow> string" where
  "should_rework st = (if dget st ''status'' = Some (JStr ''done'') then ''deliver'' else ''build'')"

definition deliver_node :: "agent_state \<Rightarrow> agent_state" where
  "deliver_node st = dset ''status'' (JStr ''done'') (dset ''phase'' (JStr ''DELIVER'') st)"

definition build_python_workflow :: "string list \<times> (string \<times> string) list" where
  "build_python_workflow = ([''plan'', ''build'', ''review'', ''reflect'', ''deliver''],
     [(''plan'', ''build''), (''build'', ''review''), (''review'', ''reflect''), (''reflect'', ''build''), (''reflect'', ''deliver'')])"

section \<open>What an attempt is checked against\<close>

lemma sublist_join_elem: "x \<in> set xs \<Longrightarrow> sublist x (join sep xs)"
proof (induction sep xs rule: join.induct)
  case (3 sep y z ys)
  then show ?case by (auto simp: sublist_append)
qed auto

lemma join_elem_sublist:
  assumes "c \<notin> set kw" "sublist kw (join [c] xs)" "kw \<noteq> []"
  shows "\<exists>x \<in> set xs. sublist kw x"
  using assms(2)
proof (induction "[c]" xs rule: join.induct)
  case (3 y z ys)
  have nopre: "\<not> prefix k ([c] @ join [c] (z # ys))" if "k \<noteq> []" "set k \<subseteq> set kw" for k
    using that assms(1) by (cases k) auto
  then have "sublist kw y \<or> sublist kw ([c] @ join [c] (z # ys))"
    using "3.prems" unfolding join.simps sublist_append [of kw y]
  proof (elim disjE exE conjE)
    fix k1 k2 assume k: "kw = k1 @ k2" "suffix k1 y" "prefix k2 ([c] @ join [c] (z # ys))"
    then show ?thesis using nopre [of k2]
      by (cases "k2 = []") (simp_all add: suffix_imp_sublist)
  qed simp_all
  moreover have "sublist kw (join [c] (z # ys))" if "sublist kw (c # join [c] (z # ys))"
    using that assms(1,3) by (cases kw) (auto simp: sublist_Cons_right)
  ultimately show ?case using "3.hyps" by auto
qed (auto simp: assms(3))

lemma lower_join: "lower (join [CHR 0x0A] xs) = join [CHR 0x0A] (map lower xs)"
proof (induction "[CHR 0x0A]" xs rule: join.induct)
  case (3 x y ys)
  then show ?case by (simp add: lower_def lower_char_def)
qed (simp_all add: lower_def)

lemma lower_char_newline: "lower_char x = CHR 0x0A \<longleftrightarrow> x = CHR 0x0A"
proof
  let ?n = "of_char x :: nat"
  let ?c = "65 \<le> ?n \<and> ?n \<le> 90 \<or> 192 \<le> ?n \<and> ?n \<le> 222 \<and> ?n \<noteq> 215"
  assume l: "lower_char x = CHR 0x0A"
  have "\<not> ?c"
  proof
    assume c: ?c
    then have "lower_char x = char_of (?n + 32)" by (simp add: lower_char_def Let_def)
    then have "of_char (lower_char x) = ?n + 32" using c by auto
    with l c show False by simp
  qed
  then have "lower_char x = x" unfolding lower_char_def Let_def by (rule if_not_P)
  with l show "x = CHR 0x0A" by simp
qed (simp add: lower_char_def)

text \<open>A criterion holds of an output exactly when it holds of a line of it: its words have no line
  break in them.\<close>

lemma check_criterion_lines:
  "check_criterion (join [CHR 0x0A] lines) c \<longleftrightarrow> (\<exists>l \<in> set lines. check_criterion l c)"
proof -
  have "contains (lower (join [CHR 0x0A] lines)) (lower w) \<longleftrightarrow> (\<exists>l \<in> set lines. contains (lower l) (lower w))"
    if w: "w \<in> set (split_ws c)" for w
  proof -
    have "CHR 0x0A \<notin> set (lower w)"
      using split_ws_words [OF w] by (auto simp: lower_def lower_char_newline list_all_iff is_space_def dest!: lower_char_newline [THEN iffD1, OF sym])
    moreover have "lower w \<noteq> []" using split_ws_words [OF w] by (simp add: lower_def)
    ultimately show ?thesis unfolding contains_def lower_join
      using join_elem_sublist [of "CHR 0x0A" "lower w" "map lower lines"] sublist_join_elem [of _ "map lower lines" "[CHR 0x0A]"]
        sublist_order.order.trans [of "lower w" _ "join [CHR 0x0A] (map lower lines)"] by auto
  qed
  then show ?thesis by (auto simp: check_criterion_def list_ex_iff)
qed

section \<open>Simulation\<close>

text \<open>The blueprints of the loop: not empty, with every dependency among the steps.\<close>

definition closed_plan :: "workflow_blueprint \<Rightarrow> bool" where
  "closed_plan bp \<longleftrightarrow> deps_known (ids (bp_steps bp)) (bp_steps bp)"

lemma deps_known_Nil [simp]: "deps_known D []"
  by (simp add: deps_known_def)

lemma deps_known_append: "deps_known D (xs @ ys) \<longleftrightarrow> deps_known D xs \<and> deps_known D ys"
  by (auto simp: deps_known_def)

lemma deps_known_mono: "deps_known D steps \<Longrightarrow> D \<subseteq> E \<Longrightarrow> deps_known E steps"
  by (auto simp: deps_known_def)

lemma ids_append: "ids (xs @ ys) = ids xs \<union> ids ys"
  by (auto simp: ids_def)

lemma closed_snoc:
  assumes "deps_known (ids steps) steps" "st_deps v = last_id steps"
  shows "deps_known (ids (steps @ [v])) (steps @ [v])"
  using assms deps_known_mono [OF assms(1), of "ids (steps @ [v])"]
  by (auto simp: deps_known_append ids_append last_id_def ids_def split: if_splits)

lemma replan_closed: "closed_plan bp \<Longrightarrow> closed_plan (replan bp gaps)"
proof -
  assume c: "closed_plan bp"
  have "deps_known (ids (fold (\<lambda>g steps. steps @ [fix_step steps g]) gaps steps)) (fold (\<lambda>g steps. steps @ [fix_step steps g]) gaps steps)"
    if "deps_known (ids steps) steps" for steps
    using that
  proof (induction gaps arbitrary: steps)
    case (Cons g gaps)
    have "st_deps (fix_step steps g) = last_id steps" by (simp add: fix_step_def WorkflowStep_def)
    from Cons.IH [OF closed_snoc [OF Cons.prems this]] show ?case by simp
  qed simp
  then show ?thesis using c by (simp add: replan_def Let_def closed_plan_def closed_snoc verify_step_def WorkflowStep_def)
qed

lemma plan_closed: "closed_plan (plan_goal goal)"
  using topological_order_correct [of "bp_steps (plan_goal goal)"] is_order_deps_known(1)
  unfolding plan_goal_ordered closed_plan_def by simp

lemma is_order_set: "is_order steps order \<Longrightarrow> set order = set steps"
  unfolding is_order_def using mset_eq_setD by blast

text \<open>A blueprint of the loop is always simulated, as a text with one line for every step.\<close>

lemma simulate_lines:
  assumes "closed_plan bp"
  shows "\<exists>steps. simulate_execution bp = Some (Inr (join [CHR 0x0A] (map step_output steps))) \<and> set steps = set (bp_steps bp)"
proof -
  have "case topological_order (bp_steps bp) of None \<Rightarrow> False
    | Some (Inl (Exn k m)) \<Rightarrow> k = ''ValueError'' | Some (Inr order) \<Rightarrow> set order = set (bp_steps bp)"
    using topological_cases [of "bp_steps bp"] assms topological_order_correct [of "bp_steps bp"] is_order_set [of "bp_steps bp"]
    unfolding closed_plan_def by (auto split: sum.splits)
  then show ?thesis unfolding simulate_execution_def by (auto split: option.splits sum.splits exn.splits)
qed

section \<open>Reflection on the simulation\<close>

lemma evaluate_simps:
  "rr_status (evaluate_output out cs) = ''success'' \<longleftrightarrow> (\<forall>c \<in> set cs. check_criterion out c)"
  "rr_gaps (evaluate_output out cs) = map (\<lambda>c. ''Missing criterion: '' @ c) (filter (\<lambda>c. \<not> check_criterion out c) cs)"
  by (auto simp: evaluate_output_def Let_def filter_empty_conv)

text \<open>The loop over a memory whose notes can be read: the reflection returns the verdict of the
  evaluation.\<close>

lemma reflect_verdict:
  assumes "historical_notes G fmt goal (Some s) = Some (Inr notes)"
  obtains rf where "reflect G fmt (Some s) goal out criteria = Some (Inr rf)"
    "rf_status rf = rr_status (evaluate_output out (map snd criteria))" "rf_gaps rf = rr_gaps (evaluate_output out (map snd criteria))"
  using assms by (simp add: reflect_def Let_def)

definition passes :: "workflow_blueprint \<Rightarrow> (string, string) dict \<Rightarrow> bool" where
  "passes bp criteria \<longleftrightarrow> (\<forall>c \<in> set (map snd criteria). \<exists>st \<in> set (bp_steps bp). check_criterion (step_output st) c)"

lemma attempt_once:
  assumes "historical_notes G fmt goal (Some s) = Some (Inr notes)" "closed_plan bp"
  obtains rf where
    "passes bp criteria \<Longrightarrow> attempts_from G fmt goal criteria m (Suc n) k bp prev s = (record_outcome G goal SUCCESS k s,
       Some (Inr \<lparr>lr_status = ''success'', lr_goal = goal, lr_attempts = k, lr_validated = True,
         lr_blueprint = bp, lr_reflection = rf, lr_gaps = []\<rparr>))"
    "\<not> passes bp criteria \<Longrightarrow> attempts_from G fmt goal criteria m (Suc n) k bp prev s =
       attempts_from G fmt goal criteria m n (k + 1) (replan bp (rf_gaps rf)) (Some rf) s"
    "\<forall>c \<in> set (map snd criteria). (\<exists>st \<in> set (bp_steps bp). check_criterion (step_output st) c) \<or> (''Missing criterion: '' @ c) \<in> set (rf_gaps rf)"
proof -
  from simulate_lines [OF assms(2)] obtain steps where sim: "simulate_execution bp = Some (Inr (join [CHR 0x0A] (map step_output steps)))"
    and set: "set steps = set (bp_steps bp)" by blast
  let ?out = "join [CHR 0x0A] (map step_output steps)"
  have chk: "check_criterion ?out c \<longleftrightarrow> (\<exists>st \<in> set (bp_steps bp). check_criterion (step_output st) c)" for c
    by (simp add: check_criterion_lines set)
  obtain rf where rf: "reflect G fmt (Some s) goal ?out criteria = Some (Inr rf)"
    "rf_status rf = rr_status (evaluate_output ?out (map snd criteria))" "rf_gaps rf = rr_gaps (evaluate_output ?out (map snd criteria))"
    using reflect_verdict [OF assms(1)] by blast
  have "rf_status rf = ''success'' \<longleftrightarrow> passes bp criteria" unfolding rf(2) evaluate_simps passes_def chk ..
  moreover have "(''Missing criterion: '' @ c) \<in> set (rf_gaps rf)"
    if "c \<in> set (map snd criteria)" "\<not> check_criterion ?out c" for c using that by (simp add: rf(3) evaluate_simps)
  ultimately show thesis using sim rf(1) chk by (intro that [of rf]) auto
qed

lemma passes_mono: "passes bp criteria \<Longrightarrow> set (bp_steps bp) \<subseteq> set (bp_steps bp') \<Longrightarrow> passes bp' criteria"
  unfolding passes_def by blast

section \<open>The contract of the loop\<close>

lemma attempts_contract:
  assumes "historical_notes G fmt goal (Some s) = Some (Inr notes)"
  shows "closed_plan bp \<Longrightarrow> n \<noteq> 0 \<or> prev \<noteq> None \<Longrightarrow> m = k + int n - 1 \<Longrightarrow>
    \<exists>r. attempts_from G fmt goal criteria m n k bp prev s =
       (record_outcome G goal (if lr_validated r then SUCCESS else FAILURE) (lr_attempts r) s, Some (Inr r)) \<and>
     lr_status r = (if lr_validated r then ''success'' else ''max_retries'') \<and>
     (if lr_validated r then k \<le> lr_attempts r \<and> lr_attempts r \<le> m \<and> passes (lr_blueprint r) criteria else lr_attempts r = m)"
proof (induction n arbitrary: k bp prev)
  case 0
  then obtain rf where "prev = Some rf" by auto
  with 0 show ?case
    by (intro exI [of _ "\<lparr>lr_status = ''max_retries'', lr_goal = goal, lr_attempts = m, lr_validated = False,
      lr_blueprint = bp, lr_reflection = rf, lr_gaps = rf_gaps rf\<rparr>"]) simp
next
  case (Suc n)
  obtain rf where rf:
    "passes bp criteria \<Longrightarrow> attempts_from G fmt goal criteria m (Suc n) k bp prev s = (record_outcome G goal SUCCESS k s,
       Some (Inr \<lparr>lr_status = ''success'', lr_goal = goal, lr_attempts = k, lr_validated = True,
         lr_blueprint = bp, lr_reflection = rf, lr_gaps = []\<rparr>))"
    "\<not> passes bp criteria \<Longrightarrow> attempts_from G fmt goal criteria m (Suc n) k bp prev s =
       attempts_from G fmt goal criteria m n (k + 1) (replan bp (rf_gaps rf)) (Some rf) s"
    using attempt_once [OF assms Suc.prems(1)] by blast
  show ?case
  proof (cases "passes bp criteria")
    case True
    from rf(1) [OF this] show ?thesis using True Suc.prems(3) by simp
  next
    case False
    have "m = (k + 1) + int n - 1" using Suc.prems(3) by simp
    from Suc.IH [OF replan_closed [OF Suc.prems(1)] _ this, of "Some rf" "rf_gaps rf"] show ?thesis
      unfolding rf(2) [OF False] by (auto split: if_splits)
  qed
qed

text \<open>The loop keeps its contract. With at least one attempt allowed and a memory whose notes
  can be read, it returns after at most that many attempts, with exactly one task recorded, the
  outcome and the number of attempts in the record being those of the result; a validated
  result has every criterion met by a step of its blueprint.\<close>

theorem autonomous_loop_contract:
  assumes "1 \<le> max_retries" "historical_notes G fmt goal (Some s) = Some (Inr notes)"
  shows "\<exists>r. run_loop G fmt max_retries goal criteria s =
      (record_outcome G goal (if lr_validated r then SUCCESS else FAILURE) (lr_attempts r) s, Some (Inr r)) \<and>
    lr_status r = (if lr_validated r then ''success'' else ''max_retries'') \<and>
    (if lr_validated r then 1 \<le> lr_attempts r \<and> lr_attempts r \<le> max_retries \<and> passes (lr_blueprint r) criteria
     else lr_attempts r = max_retries)"
  unfolding run_loop_def
  using attempts_contract [OF assms(2) plan_closed, of "nat max_retries" None max_retries 1] assms(1) by simp

theorem autonomous_loop_contract_witness:
  "\<exists>r. run_loop list_graph_ops (\<lambda>x. []) 3 ''add auth'' [(''a'', ''rotate keys'')] empty_store =
      (record_outcome list_graph_ops ''add auth'' (if lr_validated r then SUCCESS else FAILURE) (lr_attempts r) empty_store, Some (Inr r))"
proof -
  have "historical_notes list_graph_ops (\<lambda>x. []) ''add auth'' (Some empty_store) = Some (Inr [])" by code_simp
  from autonomous_loop_contract [OF _ this, of 3 "[(''a'', ''rotate keys'')]"] show ?thesis by auto
qed

text \<open>Without an attempt the failure is recorded and the result cannot be built: the last
  reflection was never bound.\<close>

lemma no_attempt_unbound:
  assumes "max_retries \<le> 0"
  shows "run_loop G fmt max_retries goal criteria s =
    (record_outcome G goal FAILURE max_retries s, Some (Inl (Exn ''UnboundLocalError'' ''ref'')))"
  using assms by (simp add: run_loop_def)

section \<open>What validation means\<close>

text \<open>A criterion whose first twenty-one characters hold a word of it of more than three letters:
  the text of its gap, cut at forty characters, still names it.\<close>

definition named_in_gap :: "string \<Rightarrow> bool" where
  "named_in_gap c \<longleftrightarrow> list_ex (\<lambda>w. 3 < length w \<and> contains (take 21 c) w) (split_ws c)"

lemma lower_sublist: "sublist xs ys \<Longrightarrow> sublist (lower xs) (lower ys)"
  unfolding lower_def by (rule map_mono_sublist)

lemma fix_step_checks:
  assumes "named_in_gap c" "st_action st = ''fix_gap: '' @ take 40 (''Missing criterion: '' @ c)"
  shows "check_criterion (step_output st) c"
proof -
  from assms(1) obtain w where w: "w \<in> set (split_ws c)" "3 < length w" "sublist w (take 21 c)"
    by (auto simp: named_in_gap_def list_ex_iff contains_def)
  have "sublist (take 21 c) (st_action st)" using assms(2) by (simp add: sublist_appendI [of "take 21 c" "''fix_gap: Missing criterion: ''" "[]", simplified])
  moreover have "sublist (st_action st) (step_output st)" unfolding step_output_def by (metis append.assoc sublist_appendI)
  ultimately have "sublist (lower w) (lower (step_output st))"
    using w(3) lower_sublist sublist_order.order.trans by blast
  with w(1,2) show ?thesis by (auto simp: check_criterion_def list_ex_iff contains_def)
qed

text \<open>Validation validates nothing: the second attempt always passes. When every criterion has a
  word of more than three letters at its beginning, the loop ends validated after at most two
  attempts, whatever the goal and although no work is done, because the text of the gap that
  the revised plan quotes is the text the criterion is searched in.\<close>

theorem second_attempt_passes:
  assumes "2 \<le> max_retries" "historical_notes G fmt goal (Some s) = Some (Inr notes)"
    "\<forall>c \<in> set (map snd criteria). named_in_gap c"
  shows "\<exists>r. run_loop G fmt max_retries goal criteria s = (record_outcome G goal SUCCESS (lr_attempts r) s, Some (Inr r)) \<and>
    lr_validated r \<and> lr_attempts r \<le> 2"
proof -
  have "nat max_retries = Suc (Suc (nat max_retries - 2))" using assms(1) by simp
  then obtain n where m: "nat max_retries = Suc (Suc n)" by blast
  let ?bp = "plan_goal goal" and ?n = "Suc n"
  obtain rf where rf:
    "passes ?bp criteria \<Longrightarrow> attempts_from G fmt goal criteria max_retries (Suc ?n) 1 ?bp None s = (record_outcome G goal SUCCESS 1 s,
       Some (Inr \<lparr>lr_status = ''success'', lr_goal = goal, lr_attempts = 1, lr_validated = True,
         lr_blueprint = ?bp, lr_reflection = rf, lr_gaps = []\<rparr>))"
    "\<not> passes ?bp criteria \<Longrightarrow> attempts_from G fmt goal criteria max_retries (Suc ?n) 1 ?bp None s =
       attempts_from G fmt goal criteria max_retries ?n (1 + 1) (replan ?bp (rf_gaps rf)) (Some rf) s"
    "\<forall>c \<in> set (map snd criteria). (\<exists>st \<in> set (bp_steps ?bp). check_criterion (step_output st) c) \<or> (''Missing criterion: '' @ c) \<in> set (rf_gaps rf)"
    by (rule attempt_once [OF assms(2) plan_closed]) blast
  show ?thesis
  proof (cases "passes ?bp criteria")
    case True
    from rf(1) [OF this] show ?thesis unfolding run_loop_def m by (simp del: attempts_from.simps)
  next
    case False
    let ?bp2 = "replan ?bp (rf_gaps rf)"
    have pass: "passes ?bp2 criteria" unfolding passes_def
    proof
      fix c assume c: "c \<in> set (map snd criteria)"
      from False rf(3) have gaps: "rf_gaps rf \<noteq> []" by (auto simp: passes_def)
      from replan_steps [OF this] obtain ext v where e: "bp_steps ?bp2 = bp_steps ?bp @ ext @ [v]"
        "map st_action ext = map (\<lambda>g. ''fix_gap: '' @ take 40 g) (rf_gaps rf)" by metis
      from rf(3) c consider st where "st \<in> set (bp_steps ?bp)" "check_criterion (step_output st) c"
        | "(''Missing criterion: '' @ c) \<in> set (rf_gaps rf)" by blast
      then show "\<exists>st \<in> set (bp_steps ?bp2). check_criterion (step_output st) c"
      proof cases
        case 2
        have "''fix_gap: '' @ take 40 (''Missing criterion: '' @ c) \<in> set (map st_action ext)"
          unfolding e(2) set_map by (rule image_eqI [OF refl 2])
        then obtain st where "st \<in> set ext" "st_action st = ''fix_gap: '' @ take 40 (''Missing criterion: '' @ c)" by auto
        with fix_step_checks [of c st] assms(3) c show ?thesis unfolding e(1) by auto
      qed (auto simp: e(1))
    qed
    obtain rf2 where "attempts_from G fmt goal criteria max_retries (Suc n) 2 ?bp2 (Some rf) s = (record_outcome G goal SUCCESS 2 s,
       Some (Inr \<lparr>lr_status = ''success'', lr_goal = goal, lr_attempts = 2, lr_validated = True,
         lr_blueprint = ?bp2, lr_reflection = rf2, lr_gaps = []\<rparr>))"
      by (rule attempt_once [OF assms(2) replan_closed [OF plan_closed]]) (use pass in blast)
    then show ?thesis unfolding run_loop_def m rf(2) [OF False] by (simp del: attempts_from.simps)
  qed
qed

theorem second_attempt_witness:
  "\<exists>r. run_loop list_graph_ops (\<lambda>x. []) 3 ''add auth'' [(''a'', ''rotate keys'')] empty_store =
      (record_outcome list_graph_ops ''add auth'' SUCCESS (lr_attempts r) empty_store, Some (Inr r)) \<and> lr_validated r \<and> lr_attempts r \<le> 2"
  by (rule second_attempt_passes) (simp, code_simp, code_simp)

text \<open>A criterion of short words can never be met, whatever the blueprint.\<close>

lemma short_criterion_never: "\<forall>w \<in> set (split_ws c). length w \<le> 3 \<Longrightarrow> \<not> check_criterion out c"
  by (auto simp: check_criterion_def list_ex_iff)

section \<open>The graph orchestrator never reworks\<close>

text \<open>The rework edge of the orchestrator is dead: after the build and the review nodes the
  reflection always finishes, so the route after it is to deliver, from any agent state whose
  reflections are a list.\<close>

lemma rework_edge_dead:
  assumes "dgetd st ''reflection'' (JArr []) = JArr ls"
  shows "\<exists>st'. reflect_node fmt (review_output_node (build_node st)) = Inr st' \<and> should_rework st' = ''deliver''"
  using assms by (auto simp: reflect_node_def review_output_node_def build_node_def should_rework_def dgetd_def)

end
