(* ===== verification/GitHub_Tool.thy ===== *)
theory GitHub_Tool
  imports Effects Content_Guards Scan Filesystem
begin

text \<open>
  The repository tool of \<open>src/tools/github_tool.py\<close>: sanitizing of what is filed, the
  duplicate check, pull requests, file commits and reads. PyGithub and the retry decorator of
  tenacity are third-party code: their calls are the operations of \<open>gh_ops\<close>, steps on the state
  of the host. The offline host of \<open>src/testing/github_mocks.py\<close> is modelled as one of them. An
  exception is represented by the class of the caught tuple it is an instance of.
\<close>

section \<open>The host\<close>

record gh_issue =
  is_number :: int
  is_title :: string
  is_url :: string
  is_pr :: bool

record gh_pull =
  pl_number :: int
  pl_title :: string
  pl_state :: string
  pl_url :: string
  pl_head :: string

text \<open>A file or directory of the repository; reading its hash or its text may raise.\<close>

record gh_entry =
  ge_name :: string
  ge_path :: string
  ge_kind :: string
  ge_sha :: "string result"
  ge_text :: "string result"

datatype gh_contents = One gh_entry | Many "gh_entry list"

text \<open>\<open>gh_issues\<close> is the lazy listing: the issues it yields, and the exception that ends it, if any.\<close>

record 'h gh_ops =
  gh_get_repo :: "string \<Rightarrow> ('h, unit) step"
  gh_issues :: "string \<Rightarrow> ('h, gh_issue list \<times> exn option) step"
  gh_create_issue :: "string \<Rightarrow> string \<Rightarrow> ('h, string) step"
  gh_get_branch :: "string \<Rightarrow> ('h, string) step"
  gh_create_ref :: "string \<Rightarrow> string \<Rightarrow> ('h, unit) step"
  gh_create_pull :: "string \<Rightarrow> string \<Rightarrow> string \<Rightarrow> string \<Rightarrow> ('h, string) step"
  gh_pulls :: "string \<Rightarrow> ('h, gh_pull list) step"
  gh_get_pull :: "int \<Rightarrow> ('h, unit) step"
  gh_create_review :: "int \<Rightarrow> string \<Rightarrow> string \<Rightarrow> ('h, unit) step"
  gh_merge :: "int \<Rightarrow> string \<Rightarrow> ('h, string) step"
  gh_get_contents :: "string \<Rightarrow> string option \<Rightarrow> ('h, gh_contents) step"
  gh_update_file :: "string \<Rightarrow> string \<Rightarrow> string \<Rightarrow> string \<Rightarrow> string \<Rightarrow> ('h, unit) step"
  gh_create_file :: "string \<Rightarrow> string \<Rightarrow> string \<Rightarrow> string \<Rightarrow> ('h, unit) step"
  gh_retry :: "nat \<Rightarrow> (exn \<Rightarrow> bool) \<Rightarrow> ('h, gh_contents) step \<Rightarrow> ('h, gh_contents) step"

definition GITHUB_API_ERRORS :: "string list" where
  "GITHUB_API_ERRORS = [''GithubException'', ''ConnectionError'', ''TimeoutError'', ''ValueError'', ''KeyError'']"

definition api_error :: "exn \<Rightarrow> bool" where
  "api_error e = List.member GITHUB_API_ERRORS (exn_type e)"

definition retryable :: "exn \<Rightarrow> bool" where
  "retryable e = (exn_type e = ''GitHubRetryableError'')"

definition github_error :: "string \<Rightarrow> exn" where
  "github_error msg = Exn ''GithubException'' msg"

text \<open>The constructor: which host class is used, and whether the repository was found.\<close>

definition github_class :: "bool \<Rightarrow> bool \<Rightarrow> 'h gh_ops \<Rightarrow> 'h gh_ops \<Rightarrow> 'h gh_ops result" where
  "github_class pygithub_available mock_allowed hub offline =
     (if pygithub_available then Inr hub else if mock_allowed then Inr offline
      else Inl (Exn ''RuntimeError'' (''PyGithub is not installed but GITHUB_MOCK_ALLOWED is False. '' @
        ''Install PyGithub ('' @ [CHR 0x60] @ ''pip install pygithub'' @ [CHR 0x60] @ '') or set GITHUB_MOCK_ALLOWED=true '' @
        ''for offline/test use only.'')))"

definition resolve_repo :: "'h gh_ops \<Rightarrow> string option \<Rightarrow> ('h, bool) step" where
  "resolve_repo G repo_name =
     (let n = (case repo_name of None \<Rightarrow> ''unknown/repo'' | Some r \<Rightarrow> if r = [] then ''unknown/repo'' else r) in
      catch_if api_error (bnd (gh_get_repo G n) (\<lambda>_. ret True)) (\<lambda>_. ret False))"

definition no_repo :: string where
  "no_repo = ''Error: Repository not configured or not found''"

section \<open>What is filed\<close>

definition CRITIC_REVIEW_MARKER :: string where
  "CRITIC_REVIEW_MARKER = ''**Critic Review:**''"

definition REVIEW_MARKER :: string where
  "REVIEW_MARKER = ''**Review:**''"

definition sanitize_after :: "string \<Rightarrow> string \<Rightarrow> string option" where
  "sanitize_after marker body = (case find_lit marker body of
      None \<Rightarrow> None
    | Some (pre, tail) \<Rightarrow>
        (let (review_part, footer) = (case find_lit ([CHR 0x0A] @ ''---'') tail of
               None \<Rightarrow> (tail, []) | Some (r, f) \<Rightarrow> (r, [CHR 0x0A] @ ''---'' @ f))
         in Some (pre @ marker @ [CHR 0x0A] @ sanitize_review (Some review_part) @ footer)))"

definition sanitize_review_section :: "string \<Rightarrow> string" where
  "sanitize_review_section body = (case sanitize_after CRITIC_REVIEW_MARKER body of
      Some b \<Rightarrow> b
    | None \<Rightarrow> (case sanitize_after REVIEW_MARKER body of Some b \<Rightarrow> b | None \<Rightarrow> body))"

text \<open>The duplicate check: issues are looked at in the order of the listing, pull requests are
  counted but skipped, and an error ends the search without a match.\<close>

fun scan_issues :: "nat \<Rightarrow> string \<Rightarrow> gh_issue list \<Rightarrow> gh_issue option" where
  "scan_issues limit target [] = None"
| "scan_issues 0 target (i # is) = None"
| "scan_issues (Suc n) target (i # is) =
     (if \<not> is_pr i \<and> normalize_title (is_title i) = target then Some i else scan_issues n target is)"

definition find_duplicate_open_issue :: "'h gh_ops \<Rightarrow> nat \<Rightarrow> string \<Rightarrow> ('h, gh_issue option) step" where
  "find_duplicate_open_issue G limit title =
     catch_if api_error
       (bnd (gh_issues G ''open'') (\<lambda>(is, err).
          case scan_issues limit (normalize_title title) is of
            Some i \<Rightarrow> ret (Some i)
          | None \<Rightarrow> (case err of Some e \<Rightarrow> if length is \<le> limit then throw e else ret None | None \<Rightarrow> ret None)))
       (\<lambda>e. ret None)"

definition body_text :: "string option \<Rightarrow> string" where
  "body_text body = (case body of None \<Rightarrow> [] | Some b \<Rightarrow> b)"

definition create_issue :: "'h gh_ops \<Rightarrow> nat \<Rightarrow> bool \<Rightarrow> string \<Rightarrow> string option \<Rightarrow> ('h, string) step" where
  "create_issue G limit repo title body =
     (if \<not> repo then ret no_repo
      else bnd (find_duplicate_open_issue G limit title) (\<lambda>existing.
        case existing of
          Some i \<Rightarrow> ret (is_url i)
        | None \<Rightarrow> catch_if api_error (gh_create_issue G title (sanitize_review_section (body_text body)))
            (\<lambda>e. ret (''Error creating issue: '' @ exn_msg e))))"

definition pr_body_refused :: "string \<Rightarrow> bool" where
  "pr_body_refused clean_body = is_low_value_content (Some (replace_all LEAKED_REVIEW_PLACEHOLDER [] clean_body)) 40"

definition ensure_branch :: "'h gh_ops \<Rightarrow> string \<Rightarrow> string \<Rightarrow> ('h, unit) step" where
  "ensure_branch G head base =
     catch_if api_error (bnd (gh_get_branch G head) (\<lambda>_. ret ()))
       (\<lambda>_. bnd (gh_get_branch G base) (\<lambda>sha. gh_create_ref G (''refs/heads/'' @ head) sha))"

definition create_pull_request :: "'h gh_ops \<Rightarrow> bool \<Rightarrow> string \<Rightarrow> string option \<Rightarrow> string \<Rightarrow> string \<Rightarrow> ('h, string) step" where
  "create_pull_request G repo title body head base =
     (if \<not> repo then ret no_repo
      else let clean_body = sanitize_review_section (body_text body) in
        if pr_body_refused clean_body then ret ''Error creating PR: body is empty or contains only leaked review''
        else catch_if api_error
          (bnd (ensure_branch G head base) (\<lambda>_. gh_create_pull G title clean_body head base))
          (\<lambda>e. ret (''Error creating PR: '' @ exn_msg e)))"

section \<open>Pull requests\<close>

definition pull_row :: "gh_pull \<Rightarrow> (string, json) dict" where
  "pull_row p = [(''number'', JInt (pl_number p)), (''title'', JStr (pl_title p)), (''state'', JStr (pl_state p)),
     (''url'', JStr (pl_url p)), (''head'', JStr (pl_head p))]"

definition list_pull_requests :: "'h gh_ops \<Rightarrow> bool \<Rightarrow> string \<Rightarrow> ('h, (string, json) dict list) step" where
  "list_pull_requests G repo state = (if \<not> repo then ret []
     else catch_if api_error (bnd (gh_pulls G state) (\<lambda>prs. ret (map pull_row prs))) (\<lambda>e. ret []))"

definition review_pull_request :: "'h gh_ops \<Rightarrow> bool \<Rightarrow> int \<Rightarrow> string \<Rightarrow> string \<Rightarrow> ('h, string) step" where
  "review_pull_request G repo n body event = (if \<not> repo then ret no_repo
     else catch_if api_error
       (bnd (gh_get_pull G n) (\<lambda>_. bnd (gh_create_review G n body event) (\<lambda>_. ret (''Reviewed PR #'' @ str_of_int n))))
       (\<lambda>e. ret (''Error reviewing PR: '' @ exn_msg e)))"

definition merge_pull_request :: "'h gh_ops \<Rightarrow> bool \<Rightarrow> int \<Rightarrow> string option \<Rightarrow> ('h, string) step" where
  "merge_pull_request G repo n commit_message = (if \<not> repo then ret no_repo
     else let msg = (case commit_message of Some m \<Rightarrow> if m = [] then ''Merge PR #'' @ str_of_int n else m
                     | None \<Rightarrow> ''Merge PR #'' @ str_of_int n) in
       catch_if api_error
         (bnd (gh_get_pull G n) (\<lambda>_. bnd (gh_merge G n msg) (\<lambda>sha. ret (''Merged PR #'' @ str_of_int n @ '': '' @ sha))))
         (\<lambda>e. ret (''Error merging PR: '' @ exn_msg e)))"

section \<open>Files\<close>

definition first_entry :: "gh_contents \<Rightarrow> gh_entry result" where
  "first_entry c = (case c of One e \<Rightarrow> Inr e | Many [] \<Rightarrow> Inl (Exn ''IndexError'' ''list index out of range'') | Many (e # es) \<Rightarrow> Inr e)"

definition create_or_update_file :: "'h gh_ops \<Rightarrow> bool \<Rightarrow> string \<Rightarrow> string \<Rightarrow> string \<Rightarrow> string \<Rightarrow> string \<Rightarrow> ('h, string) step" where
  "create_or_update_file G repo path content message branch base =
     (if \<not> repo then ret no_repo
      else catch_if api_error
        (bnd (ensure_branch G branch base) (\<lambda>_.
           catch_if api_error
             (bnd (gh_get_contents G path (Some branch)) (\<lambda>c.
              bnd (lift_res (first_entry c)) (\<lambda>e.
              bnd (lift_res (ge_sha e)) (\<lambda>sha.
              bnd (gh_update_file G path message content sha branch) (\<lambda>_.
                ret (''Updated '' @ path @ '' in '' @ branch))))))
             (\<lambda>_. bnd (gh_create_file G path message content branch) (\<lambda>_. ret (''Created '' @ path @ '' in '' @ branch)))))
        (\<lambda>e. ret (''Error creating/updating file: '' @ exn_msg e)))"

definition commit_files_to_branch :: "'h gh_ops \<Rightarrow> bool \<Rightarrow> (string, string) dict \<Rightarrow> string \<Rightarrow> string \<Rightarrow> string \<Rightarrow> ('h, string) step" where
  "commit_files_to_branch G repo files message branch base = (if \<not> repo then ret no_repo
     else bnd (each (\<lambda>(path, content). create_or_update_file G repo path content (message @ '' - '' @ path) branch base) files)
       (\<lambda>results. ret (join [CHR 0x0A] results)))"

definition get_contents_with_retry :: "'h gh_ops \<Rightarrow> string \<Rightarrow> string option \<Rightarrow> ('h, gh_contents) step" where
  "get_contents_with_retry G path ref = gh_retry G 3 retryable
     (catch_if api_error (gh_get_contents G path ref) (\<lambda>e. throw (Exn ''GitHubRetryableError'' (exn_msg e))))"

definition read_error :: "exn \<Rightarrow> bool" where
  "read_error e = (retryable e \<or> api_error e \<or> exn_type e = ''UnicodeDecodeError'')"

definition read_repo_file :: "'h gh_ops \<Rightarrow> bool \<Rightarrow> string \<Rightarrow> ('h, string) step" where
  "read_repo_file G repo path = (if \<not> repo then ret no_repo
     else catch_if read_error
       (bnd (get_contents_with_retry G path None) (\<lambda>c. case c of
            Many es \<Rightarrow> ret (''Error: '' @ path @ '' is a directory, not a file'')
          | One e \<Rightarrow> lift_res (ge_text e)))
       (\<lambda>e. ret (''Error reading file: '' @ exn_msg e)))"

definition entry_row :: "gh_entry \<Rightarrow> (string, json) dict" where
  "entry_row e = [(''name'', JStr (ge_name e)), (''path'', JStr (ge_path e)), (''type'', JStr (ge_kind e))]"

definition list_repo_contents :: "'h gh_ops \<Rightarrow> bool \<Rightarrow> string \<Rightarrow> ('h, (string, json) dict list) step" where
  "list_repo_contents G repo path = (if \<not> repo then ret []
     else catch_if (\<lambda>e. retryable e \<or> api_error e)
       (bnd (get_contents_with_retry G path None) (\<lambda>c. ret (map entry_row (case c of One e \<Rightarrow> [e] | Many es \<Rightarrow> es))))
       (\<lambda>e. ret []))"

section \<open>The offline host\<close>

text \<open>\<open>retry_calls\<close> is the documented behaviour of the decorator, for the instances of this theory:
  the call, again while it raises a retryable exception, at most \<open>n\<close> times, the last exception
  raised again.\<close>

fun retry_calls :: "nat \<Rightarrow> (exn \<Rightarrow> bool) \<Rightarrow> ('h, 'a) step \<Rightarrow> ('h, 'a) step" where
  "retry_calls 0 P m = m"
| "retry_calls (Suc 0) P m = m"
| "retry_calls (Suc (Suc n)) P m = catch_if P m (\<lambda>e. retry_calls (Suc n) P m)"

definition no_attribute :: "string \<Rightarrow> ('h, 'a) step" where
  "no_attribute name = throw (attribute_error name)"

definition mock_content :: "string \<Rightarrow> string \<Rightarrow> string \<Rightarrow> gh_entry" where
  "mock_content path kind content = \<lparr>ge_name = last (split_on (CHR ''/'') path), ge_path = path, ge_kind = kind,
     ge_sha = Inl (attribute_error ''sha''), ge_text = Inr content\<rparr>"

definition mock_issue_url :: string where
  "mock_issue_url = ''https://github.com/mock/repo/issues/1''"

definition mock_host :: "'h gh_ops" where
  "mock_host = \<lparr>
     gh_get_repo = (\<lambda>name. ret ()),
     gh_issues = (\<lambda>state. ret ([], None)),
     gh_create_issue = (\<lambda>title body. ret mock_issue_url),
     gh_get_branch = (\<lambda>name. ret ''mocksha''),
     gh_create_ref = (\<lambda>ref sha. ret ()),
     gh_create_pull = (\<lambda>title body head base. ret mock_issue_url),
     gh_pulls = (\<lambda>state. ret []),
     gh_get_pull = (\<lambda>number. ret ()),
     gh_create_review = (\<lambda>number body event. ret ()),
     gh_merge = (\<lambda>number message. no_attribute ''merge''),
     gh_get_contents = (\<lambda>path ref. ret (if path = [] then Many [mock_content ''README.md'' ''file'' [], mock_content ''src'' ''dir'' []]
       else One (mock_content path ''file'' ''mock content''))),
     gh_update_file = (\<lambda>path message content sha branch. no_attribute ''update_file''),
     gh_create_file = (\<lambda>path message content branch. no_attribute ''create_file''),
     gh_retry = retry_calls\<rparr>"

section \<open>Errors as texts\<close>

text \<open>A step that raises at most exceptions of a kind.\<close>

definition raises_only :: "(exn \<Rightarrow> bool) \<Rightarrow> ('s, 'a) step \<Rightarrow> bool" where
  "raises_only C m \<longleftrightarrow> triple (\<lambda>_. True) m (\<lambda>_ _. True) (\<lambda>e _. C e)"

lemma raises_only_simps [simp]:
  "raises_only C (ret x)" "raises_only C (throw e) \<longleftrightarrow> C e" "raises_only C (get_st f)"
  "raises_only C (lift_res r) \<longleftrightarrow> (\<forall>e. r = Inl e \<longrightarrow> C e)"
  by (auto simp: raises_only_def triple_def effect_unfold split: sum.splits)

lemma raises_bnd [triples]: "raises_only C m \<Longrightarrow> (\<And>x. raises_only C (f x)) \<Longrightarrow> raises_only C (bnd m f)"
  unfolding raises_only_def by (rule triple_bnd)

lemma raises_catch [triples]: "raises_only C m \<Longrightarrow> (\<And>e. D e \<Longrightarrow> raises_only E (h e)) \<Longrightarrow> (\<And>e. C e \<Longrightarrow> \<not> D e \<Longrightarrow> E e) \<Longrightarrow> raises_only E (catch_if D m h)"
  unfolding raises_only_def by (rule triple_catch [where R = "\<lambda>e _. C e"]) (auto intro: triple_conseq)

lemma raises_mono: "raises_only C m \<Longrightarrow> (\<And>e. C e \<Longrightarrow> D e) \<Longrightarrow> raises_only D m"
  unfolding raises_only_def by (rule triple_conseq [where P' = "\<lambda>_. True" and Q' = "\<lambda>_ _. True" and E' = "\<lambda>e _. C e"]) auto

lemma raises_if [triples]: "(b \<Longrightarrow> raises_only C m) \<Longrightarrow> (\<not> b \<Longrightarrow> raises_only C n) \<Longrightarrow> raises_only C (if b then m else n)"
  by simp

lemma raises_option [triples]:
  "(v = None \<Longrightarrow> raises_only C m) \<Longrightarrow> (\<And>x. v = Some x \<Longrightarrow> raises_only C (f x)) \<Longrightarrow> raises_only C (case v of None \<Rightarrow> m | Some x \<Rightarrow> f x)"
  by (cases v) auto

lemma raises_none: "raises_only (\<lambda>_. False) m \<longleftrightarrow> (\<forall>s. \<exists>s' x. m s = (s', Inr x))"
proof -
  have "(case m s of (s', Inr x) \<Rightarrow> True | (s', Inl e) \<Rightarrow> False) \<longleftrightarrow> (\<exists>s' x. m s = (s', Inr x))" for s
  proof -
    obtain s' r where "m s = (s', r)" by fastforce
    then show ?thesis by (cases r) auto
  qed
  then show ?thesis by (simp add: raises_only_def triple_def)
qed

lemma raises_retry_calls: "raises_only C m \<Longrightarrow> raises_only C (retry_calls n P m)"
proof (induction n P m rule: retry_calls.induct)
  case (3 n P m)
  then show ?case by (auto intro!: raises_catch)
qed auto

text \<open>A host whose calls, those the tool makes to file, list, review and read, raise only the
  errors the tool expects.\<close>

locale api_host =
  fixes G :: "'h gh_ops"
  assumes issues: "raises_only api_error (gh_issues G state)"
    and issues_end: "gh_issues G state h = (h', Inr (is, Some e)) \<Longrightarrow> api_error e"
    and create_issue: "raises_only api_error (gh_create_issue G title body)"
    and get_branch: "raises_only api_error (gh_get_branch G name)"
    and create_ref: "raises_only api_error (gh_create_ref G name sha)"
    and create_pull: "raises_only api_error (gh_create_pull G title body head base)"
    and pulls: "raises_only api_error (gh_pulls G state)"
    and get_pull: "raises_only api_error (gh_get_pull G n)"
    and create_review: "raises_only api_error (gh_create_review G n body event)"
    and contents: "raises_only api_error (gh_get_contents G path r)"
    and contents_text: "gh_get_contents G path r h = (h', Inr (One en)) \<Longrightarrow> ge_text en = Inl x \<Longrightarrow> read_error x"
    and retry: "raises_only C m \<Longrightarrow> raises_only C (gh_retry G k P m)"
begin

lemma ensure_branch_raises: "raises_only api_error (ensure_branch G head base)"
  unfolding ensure_branch_def using get_branch create_ref by (intro raises_catch [where C = api_error] raises_bnd) simp_all

lemma create_pull_request_returns: "raises_only (\<lambda>_. False) (create_pull_request G repo title body head base)"
  unfolding create_pull_request_def Let_def
  using ensure_branch_raises create_pull by (intro raises_if raises_catch [where C = api_error] raises_bnd) simp_all

lemma review_pull_request_returns: "raises_only (\<lambda>_. False) (review_pull_request G repo n body event)"
  unfolding review_pull_request_def
  using get_pull create_review by (intro raises_if raises_catch [where C = api_error] raises_bnd) simp_all

lemma list_pull_requests_returns: "raises_only (\<lambda>_. False) (list_pull_requests G repo state)"
  unfolding list_pull_requests_def using pulls by (intro raises_if raises_catch [where C = api_error] raises_bnd) simp_all

lemma find_duplicate_returns: "raises_only (\<lambda>_. False) (find_duplicate_open_issue G limit title)"
proof -
  let ?ok = "\<lambda>x :: gh_issue list \<times> exn option. case snd x of None \<Rightarrow> True | Some e \<Rightarrow> api_error e"
  have listing: "triple (\<lambda>_. True) (gh_issues G ''open'') (\<lambda>x _. ?ok x) (\<lambda>e _. api_error e)"
  proof (rule tripleI)
    fix h h' x assume "gh_issues G ''open'' h = (h', Inr x)"
    then show "?ok x" using issues_end [of "''open''" h h' "fst x"] by (cases x) (auto split: option.splits)
  next
    fix h h' e assume "gh_issues G ''open'' h = (h', Inl e)"
    then show "api_error e" using triple_Inl [OF issues [unfolded raises_only_def]] by blast
  qed
  have "triple (\<lambda>_. ?ok x) (case x of (is, err) \<Rightarrow> case scan_issues limit (normalize_title title) is of
      Some i \<Rightarrow> ret (Some i) | None \<Rightarrow> (case err of Some e \<Rightarrow> if length is \<le> limit then throw e else ret None | None \<Rightarrow> ret None))
      (\<lambda>_ _. True) (\<lambda>e _. api_error e)" for x :: "gh_issue list \<times> exn option"
    by (cases x) (simp add: triple_def effect_unfold split: option.splits)
  from triple_bnd [OF listing this] have "raises_only api_error (bnd (gh_issues G ''open'') (\<lambda>(is, err).
      case scan_issues limit (normalize_title title) is of
        Some i \<Rightarrow> ret (Some i) | None \<Rightarrow> (case err of Some e \<Rightarrow> if length is \<le> limit then throw e else ret None | None \<Rightarrow> ret None)))"
    unfolding raises_only_def by simp
  then show ?thesis unfolding find_duplicate_open_issue_def by (rule raises_catch) simp_all
qed

lemma create_issue_returns: "raises_only (\<lambda>_. False) (create_issue G limit repo title body)"
  unfolding create_issue_def using find_duplicate_returns create_issue
  by (intro raises_if raises_bnd raises_option raises_catch [where C = api_error]) simp_all

lemma retried_contents: "raises_only retryable (get_contents_with_retry G path r)"
  unfolding get_contents_with_retry_def using contents by (intro retry raises_catch [where C = api_error]) (simp_all add: retryable_def)

lemma list_repo_contents_returns: "raises_only (\<lambda>_. False) (list_repo_contents G repo path)"
  unfolding list_repo_contents_def using retried_contents
  by (intro raises_if raises_catch [where C = retryable] raises_bnd) simp_all

end

interpretation offline: api_host mock_host
  by unfold_locales (auto simp: mock_host_def effect_unfold mock_content_def raises_retry_calls split: if_splits)

text \<open>No error of the host escapes the tool. On a host whose calls raise only the errors the tool
  expects, filing an issue, opening, reviewing and listing pull requests, reading a file and
  listing a directory always return, and what they return is a text or a list.\<close>

theorem tool_always_returns:
  assumes "api_host G"
  shows "(\<exists>h' t. create_issue G limit repo title body h = (h', Inr t)) \<and>
    (\<exists>h' t. create_pull_request G repo title body head base h = (h', Inr t)) \<and>
    (\<exists>h' t. review_pull_request G repo n text event h = (h', Inr t)) \<and>
    (\<exists>h' ps. list_pull_requests G repo state h = (h', Inr ps)) \<and>
    (\<exists>h' es. list_repo_contents G repo path h = (h', Inr es))"
  using api_host.create_issue_returns [OF assms] api_host.create_pull_request_returns [OF assms]
    api_host.review_pull_request_returns [OF assms] api_host.list_pull_requests_returns [OF assms]
    api_host.list_repo_contents_returns [OF assms] by (simp_all add: raises_none)

text \<open>The offline host cannot store files: its entries have no hash and the repository no file calls,
  which is not among the errors the tool expects.\<close>

lemma offline_commit_raises:
  "path \<noteq> [] \<Longrightarrow> create_or_update_file mock_host True path content message branch base h = (h, Inl (attribute_error ''sha''))"
  by (simp add: create_or_update_file_def ensure_branch_def mock_host_def catch_if_def bnd_def effect_unfold first_entry_def
      mock_content_def api_error_def GITHUB_API_ERRORS_def attribute_error_def)

section \<open>What a pull request is made of\<close>

lemma catch_InrE:
  assumes "catch_if C m f s = (s', Inr x)"
  obtains "m s = (s', Inr x)" | e s1 where "m s = (s1, Inl e)" "C e" "f e s1 = (s', Inr x)"
  using assms by (auto simp: catch_if_def split: prod.splits sum.splits if_splits)

text \<open>A link that is not an error text means a pull request. When opening a pull request returns a
  text that does not begin with \<open>Error\<close>, the repository was found, the branch was there or was
  created from the base, and the last call created a pull request whose body is the sanitized
  body and has substance.\<close>

theorem pull_request_real:
  assumes "create_pull_request G repo title body head base h = (h', Inr url)" "\<not> startswith url ''Error''"
  shows "repo \<and> \<not> pr_body_refused (sanitize_review_section (body_text body)) \<and>
    (\<exists>h1. ensure_branch G head base h = (h1, Inr ()) \<and>
       gh_create_pull G title (sanitize_review_section (body_text body)) head base h1 = (h', Inr url))"
proof -
  have repo
  proof (rule ccontr)
    assume "\<not> repo"
    then have "url = no_repo" using assms(1) by (simp add: create_pull_request_def effect_unfold)
    with assms(2) show False by (simp add: no_repo_def startswith_def)
  qed
  let ?b = "sanitize_review_section (body_text body)"
  have ref: "\<not> pr_body_refused ?b"
  proof
    assume "pr_body_refused ?b"
    then have "url = ''Error creating PR: body is empty or contains only leaked review''"
      using assms(1) \<open>repo\<close> by (simp add: create_pull_request_def Let_def effect_unfold)
    with assms(2) show False by (simp add: startswith_def)
  qed
  note repo = \<open>repo\<close>
  have "catch_if api_error (bnd (ensure_branch G head base) (\<lambda>_. gh_create_pull G title ?b head base))
      (\<lambda>e. ret (''Error creating PR: '' @ exn_msg e)) h = (h', Inr url)"
    using assms(1) repo ref by (simp add: create_pull_request_def Let_def)
  then show ?thesis
  proof (rule catch_InrE)
    assume "bnd (ensure_branch G head base) (\<lambda>_. gh_create_pull G title ?b head base) h = (h', Inr url)"
    then show ?thesis by (rule bnd_InrE) (use repo ref in auto)
  next
    fix e s1 assume "ret (''Error creating PR: '' @ exn_msg e) s1 = (h', Inr url)"
    then show ?thesis using assms(2) by (auto simp: effect_unfold startswith_def)
  qed
qed

text \<open>The review section is found and replaced, nothing else of the body is touched.\<close>

lemma find_lit_None: "find_lit p s = None \<longleftrightarrow> \<not> contains s p"
proof (induction s)
  case (Cons c s)
  then show ?case using eat_None [of p "c # s"]
    by (cases "eat p (c # s)") (auto simp: contains_def sublist_Cons_right)
qed (simp add: contains_def)

definition section_replaced :: "string \<Rightarrow> string \<Rightarrow> string \<Rightarrow> bool" where
  "section_replaced marker body out \<longleftrightarrow> (\<exists>pre review footer. body = pre @ marker @ review @ footer \<and>
     (footer = [] \<or> startswith footer ([CHR 0x0A] @ ''---'')) \<and> out = pre @ marker @ [CHR 0x0A] @ sanitize_review (Some review) @ footer)"

lemma sanitize_after_cases:
  "case sanitize_after marker body of None \<Rightarrow> \<not> contains body marker | Some out \<Rightarrow> section_replaced marker body out"
proof (cases "find_lit marker body")
  case None
  have "sanitize_after marker body = None" by (simp only: sanitize_after_def None option.case)
  with None show ?thesis by (simp add: find_lit_None)
next
  case (Some ab)
  then obtain pre tail where f: "find_lit marker body = Some (pre, tail)" by (cases ab) auto
  show ?thesis
  proof (cases "find_lit ([CHR 0x0A] @ ''---'') tail")
    case None
    have "body = pre @ marker @ tail @ []" using find_lit_Some [OF f] by simp
    then have "section_replaced marker body (pre @ marker @ [CHR 0x0A] @ sanitize_review (Some tail) @ [])"
      unfolding section_replaced_def by blast
    moreover have "sanitize_after marker body = Some (pre @ marker @ [CHR 0x0A] @ sanitize_review (Some tail) @ [])"
      using f None by (simp only: sanitize_after_def option.case prod.case Let_def)
    ultimately show ?thesis by simp
  next
    case (Some rf)
    then obtain r rest where g: "find_lit ([CHR 0x0A] @ ''---'') tail = Some (r, rest)" by (cases rf) auto
    let ?f = "[CHR 0x0A] @ ''---'' @ rest"
    have "body = pre @ marker @ r @ ?f" using find_lit_Some [OF f] find_lit_Some [OF g] by simp
    moreover have "startswith ?f ([CHR 0x0A] @ ''---'')" by (simp add: startswith_def)
    ultimately have "section_replaced marker body (pre @ marker @ [CHR 0x0A] @ sanitize_review (Some r) @ ?f)"
      unfolding section_replaced_def by blast
    moreover have "sanitize_after marker body = Some (pre @ marker @ [CHR 0x0A] @ sanitize_review (Some r) @ ?f)"
      using f g by (simp only: sanitize_after_def option.case prod.case Let_def)
    ultimately show ?thesis by simp
  qed
qed

text \<open>What is filed is the body with its review sanitized. Either the body has no review marker and
  is filed as it is, or it is filed with the text between a marker and the next separator
  replaced by its sanitized version, and every other character unchanged.\<close>

theorem sanitize_section_exact:
  "if contains body CRITIC_REVIEW_MARKER then section_replaced CRITIC_REVIEW_MARKER body (sanitize_review_section body)
   else if contains body REVIEW_MARKER then section_replaced REVIEW_MARKER body (sanitize_review_section body)
   else sanitize_review_section body = body"
proof -
  have found: "contains body m \<Longrightarrow> \<exists>out. sanitize_after m body = Some out \<and> section_replaced m body out" for m
    using sanitize_after_cases [where marker = m and body = body] by (cases "sanitize_after m body") auto
  have none: "\<not> contains body m \<Longrightarrow> sanitize_after m body = None" for m
    using find_lit_None [of m body] by (simp add: sanitize_after_def)
  show ?thesis
  proof (cases "contains body CRITIC_REVIEW_MARKER")
    case True
    then show ?thesis using found [of CRITIC_REVIEW_MARKER] by (auto simp: sanitize_review_section_def)
  next
    case False
    then show ?thesis using none found [of REVIEW_MARKER] by (cases "contains body REVIEW_MARKER") (auto simp: sanitize_review_section_def)
  qed
qed

section \<open>One issue for one title\<close>

text \<open>The documented behaviour of an issue tracker with the open issues \<open>view h\<close>, the newest first: the
  listing shows them and changes nothing, and an issue that is created joins them at the front.\<close>

definition tracker_laws :: "'h gh_ops \<Rightarrow> ('h \<Rightarrow> gh_issue list) \<Rightarrow> bool" where
  "tracker_laws G view \<longleftrightarrow> (\<forall>h. gh_issues G ''open'' h = (h, Inr (view h, None))) \<and>
     (\<forall>t b h h' url. gh_create_issue G t b h = (h', Inr url) \<longrightarrow>
        (\<exists>i. view h' = i # view h \<and> is_title i = t \<and> is_url i = url \<and> \<not> is_pr i))"

lemma find_duplicate_tracker:
  assumes "tracker_laws G view"
  shows "find_duplicate_open_issue G limit title h = (h, Inr (scan_issues limit (normalize_title title) (view h)))"
  using assms by (simp add: find_duplicate_open_issue_def tracker_laws_def catch_if_def bnd_def effect_unfold split: option.splits)


text \<open>A tracker on which the laws hold, for the examples: the offline host with a list of issues.\<close>

definition board_host :: "gh_issue list gh_ops" where
  "board_host = mock_host\<lparr>
     gh_issues := (\<lambda>state. get_st (\<lambda>h. (h, None))),
     gh_create_issue := (\<lambda>t b. \<lambda>h. let url = ''/issues/'' @ str_of_nat (length h) in
       (\<lparr>is_number = int (length h), is_title = t, is_url = url, is_pr = False\<rparr> # h, Inr url))\<rparr>"

lemma board_laws: "tracker_laws board_host (\<lambda>h. h)"
  by (simp add: tracker_laws_def board_host_def effect_unfold Let_def)


theorem tool_always_returns_witness: "\<exists>h' t. create_issue mock_host 100 True ''t'' None () = (h', Inr t)"
  by (rule conjunct1 [OF tool_always_returns [OF offline.api_host_axioms]])

theorem pull_request_real_witness:
  "\<exists>h1. gh_create_pull mock_host ''t'' (sanitize_review_section (replicate 50 (CHR ''x''))) ''h'' ''main'' h1 = ((), Inr mock_issue_url)"
proof -
  have "create_pull_request mock_host True ''t'' (Some (replicate 50 (CHR ''x''))) ''h'' ''main'' () = ((), Inr mock_issue_url)" by code_simp
  from pull_request_real [OF this] have "\<not> startswith mock_issue_url ''Error'' \<Longrightarrow> ?thesis" by (auto simp: body_text_def)
  then show ?thesis by (simp add: mock_issue_url_def startswith_def)
qed

end
