(* ===== verification/Builder.thy ===== *)
theory Builder
  imports GitHub_Tool Governance Embed_Quota
begin

text \<open>
  The builder of \<open>src/agents/builder.py\<close>: the title and body of its pull request, branches,
  code changes written below the rootect root, the test run and the whole implementation
  workflow. The host is that of \<open>GitHub_Tool\<close>, the file tree that of \<open>Filesystem\<close>; the outcome of
  the test process is a parameter. \<open>fmt\<close> is Python's text of a float.
\<close>

section \<open>Plans and results\<close>

record implementation_plan =
  ip_task_id :: string
  ip_files :: "json list"
  ip_test_strategy :: string

definition text_dict :: "json \<Rightarrow> bool" where
  "text_dict v = (case v of JObj d \<Rightarrow> list_all (\<lambda>(k, x). case x of JStr s \<Rightarrow> True | _ \<Rightarrow> False) d | _ \<Rightarrow> False)"

definition validate_plan :: "(json \<Rightarrow> int option) \<Rightarrow> json \<Rightarrow> implementation_plan result" where
  "validate_plan parse_at v =
     bindr (only_fields [''task_id'', ''files'', ''test_strategy'', ''created_at''] v) (\<lambda>d.
     bindr (req_text d ''task_id'') (\<lambda>i. if i = [] then Inl (validation_error ''task_id'') else
     bindr (case dget d ''files'' of None \<Rightarrow> Inr []
         | Some (JArr fs) \<Rightarrow> if list_all text_dict fs then Inr fs else Inl (validation_error ''files'')
         | _ \<Rightarrow> Inl (validation_error ''files'')) (\<lambda>fs.
     bindr (case dget d ''test_strategy'' of None \<Rightarrow> Inr [] | Some (JStr s) \<Rightarrow> Inr s | _ \<Rightarrow> Inl (validation_error ''test_strategy'')) (\<lambda>ts.
     case dget d ''created_at'' of
       Some x \<Rightarrow> (case parse_at x of None \<Rightarrow> Inl (validation_error ''created_at'')
                  | Some a \<Rightarrow> Inr \<lparr>ip_task_id = i, ip_files = fs, ip_test_strategy = ts\<rparr>)
     | None \<Rightarrow> Inr \<lparr>ip_task_id = i, ip_files = fs, ip_test_strategy = ts\<rparr>))))"

definition implementation_gate_payload :: "(json \<Rightarrow> int option) \<Rightarrow> json \<Rightarrow> (string, json) dict result" where
  "implementation_gate_payload parse_at plan =
     bindr (validate_plan parse_at plan) (\<lambda>p. Inr
       [(''phase'', JStr (phase_value IMPLEMENT)), (''task_id'', JStr (ip_task_id p)),
        (''files_count'', JInt (int (length (ip_files p)))), (''has_test_strategy'', JBool (ip_test_strategy p \<noteq> []))])"

record build_result =
  bu_success :: bool
  bu_files_written :: nat
  bu_results :: "string list"
  bu_error :: "string option"

record test_result =
  te_success :: bool
  te_stdout :: string
  te_stderr :: string
  te_returncode :: int
  te_duration_ms :: int

record pr_result =
  pq_success :: bool
  pq_url :: "string option"
  pq_branch :: string
  pq_number :: "int option"
  pq_error :: "string option"

record branch_result =
  br_success :: bool
  br_name :: string
  br_base :: string
  br_error :: "string option"

section \<open>Title and body\<close>

definition generate_pr_title :: "(real \<Rightarrow> string) \<Rightarrow> (string, json) dict \<Rightarrow> string" where
  "generate_pr_title fmt n =
     (let pr_title = ''[IMPLEMENT-'' @ py_str fmt (dgetd n ''task_id'' (JStr [])) @ ''] '' @ py_str fmt (dgetd n ''title'' (JStr ''Untitled'')) in
      if 256 < length pr_title then take 253 pr_title @ ''...'' else pr_title)"

text \<open>What \<open>for x in v\<close> runs over.\<close>

definition items_of :: "json \<Rightarrow> json list result" where
  "items_of v = (case v of
      JArr xs \<Rightarrow> Inr xs
    | JStr s \<Rightarrow> Inr (map (\<lambda>c. JStr [c]) s)
    | JObj d \<Rightarrow> Inr (map JStr (dkeys d))
    | _ \<Rightarrow> Inl (Exn ''TypeError'' ''object is not iterable''))"

definition list_section :: "(real \<Rightarrow> string) \<Rightarrow> string list \<Rightarrow> (string \<Rightarrow> string) \<Rightarrow> json \<Rightarrow> string list result" where
  "list_section fmt heading row v = (if \<not> truthy v then Inr []
     else bindr (items_of v) (\<lambda>xs. Inr (heading @ map (\<lambda>x. row (py_str fmt x)) xs @ [[]])))"

text \<open>The arrow of the phase line, U+2192, is written as its bytes in UTF-8.\<close>

definition ARROW :: string where
  "ARROW = [CHR 0xE2, CHR 0x86, CHR 0x92]"

definition code_span :: "string \<Rightarrow> string" where
  "code_span s = [CHR 0x60] @ s @ [CHR 0x60]"

definition generate_pr_body :: "(real \<Rightarrow> string) \<Rightarrow> (string, json) dict \<Rightarrow> string result" where
  "generate_pr_body fmt n =
     (let cx = py_str fmt (dgetd n ''context'' (JStr [])) in
      bindr (list_section fmt [''## Alternatives Considered'', []] (\<lambda>x. ''- '' @ x) (dgetd n ''alternatives_considered'' (JArr []))) (\<lambda>alts.
      bindr (list_section fmt [''## Consequences'', []] (\<lambda>x. ''- '' @ x) (dgetd n ''consequences'' (JArr []))) (\<lambda>cons.
      bindr (list_section fmt [''## Changes'', ''This PR modifies the following files:'', []] (\<lambda>x. ''- '' @ code_span x)
          (dgetd n ''touched_paths'' (JArr []))) (\<lambda>paths.
      Inr (join [CHR 0x0A] (
        [''# '' @ py_str fmt (dgetd n ''title'' (JStr ''Untitled'')), [],
         ''> **Task:** '' @ code_span (py_str fmt (dgetd n ''task_id'' (JStr []))) @ ''  '',
         ''> **Phase:** IMPLEMENT '' @ ARROW @ '' REVIEW'', [],
         ''## Description'', cx, [], ''## Context'', cx, [],
         ''## Decision'', py_str fmt (dgetd n ''decision'' (JStr [])), []] @
        alts @ cons @ paths @
        [''## Testing'', ''- [ ] Unit tests pass'', ''- [ ] Integration tests pass'', ''- [ ] Manual testing completed'', [],
         ''## Checklist'', ''- [ ] Code follows project style guidelines'', ''- [ ] Self-review completed'',
         ''- [ ] Documentation updated (if needed)'']))))))"

section \<open>Branches and pull requests\<close>

text \<open>How a tool is made: \<open>None\<close> when its import failed, otherwise the class of the host or the
  error of its constructor.\<close>

type_synonym 'h tool_maker = "'h gh_ops result option"

definition open_tool :: "'h gh_ops result \<Rightarrow> string option \<Rightarrow> ('h, 'h gh_ops \<times> bool) step" where
  "open_tool mk repo_name = bnd (lift_res mk) (\<lambda>G. bnd (resolve_repo G repo_name) (\<lambda>repo. ret (G, repo)))"

definition any_exn :: "exn \<Rightarrow> bool" where
  "any_exn e = True"

definition branch_failed :: "string \<Rightarrow> string \<Rightarrow> string \<Rightarrow> branch_result" where
  "branch_failed name base msg = \<lparr>br_success = False, br_name = name, br_base = base, br_error = Some msg\<rparr>"

definition repo_call :: "bool \<Rightarrow> string \<Rightarrow> ('h, 'a) step \<Rightarrow> ('h, 'a) step" where
  "repo_call repo name m = (if repo then m
     else throw (Exn ''AttributeError'' ([CHR 0x27] @ ''NoneType'' @ [CHR 0x27] @ '' object has no attribute '' @ [CHR 0x27] @ name @ [CHR 0x27])))"

definition create_branch :: "'h tool_maker \<Rightarrow> string option \<Rightarrow> string \<Rightarrow> string \<Rightarrow> ('h, branch_result) step" where
  "create_branch maker repo_name task_id base =
     (let name = ''feature/'' @ task_id in
      case maker of
        None \<Rightarrow> ret (branch_failed name base ''GitHubTool not available'')
      | Some mk \<Rightarrow> catch_if any_exn
          (bnd (open_tool mk repo_name) (\<lambda>(G, repo).
           bnd (attempt any_exn (repo_call repo ''get_branch'' (gh_get_branch G base))) (\<lambda>r.
             case r of
               Inl e \<Rightarrow> ret (branch_failed name base (''Failed to get base branch: '' @ exn_msg e))
             | Inr sha \<Rightarrow> bnd (attempt any_exn (gh_create_ref G (''refs/heads/'' @ name) sha)) (\<lambda>_.
                 ret \<lparr>br_success = True, br_name = name, br_base = base, br_error = None\<rparr>))))
          (\<lambda>e. ret (branch_failed name base (exn_msg e))))"

lemma find_lit_shorter: "p \<noteq> [] \<Longrightarrow> find_lit p s = Some (a, b) \<Longrightarrow> length b < length s"
  using find_lit_Some [of p s a b] by (cases p) auto

function after_last :: "string \<Rightarrow> string \<Rightarrow> string" where
  "after_last sep s = (if sep = [] then s else case find_lit sep s of None \<Rightarrow> s | Some (a, b) \<Rightarrow> after_last sep b)"
  by pat_completeness auto
termination
  by (relation "measure (\<lambda>(sep, s). length s)") (auto dest: find_lit_shorter)

declare after_last.simps [simp del]

definition pr_number :: "string \<Rightarrow> int option" where
  "pr_number url = (if contains url ''/pull/''
     then parse_int (rev (dropWhile (\<lambda>c. c = CHR ''/'') (rev (after_last ''/pull/'' url)))) else None)"

definition pr_failed :: "string \<Rightarrow> string \<Rightarrow> pr_result" where
  "pr_failed branch msg = \<lparr>pq_success = False, pq_url = None, pq_branch = branch, pq_number = None, pq_error = Some msg\<rparr>"

definition create_builder_pr ::
  "(real \<Rightarrow> string) \<Rightarrow> 'h tool_maker \<Rightarrow> string option \<Rightarrow> (string, json) dict \<Rightarrow> string \<Rightarrow> string \<Rightarrow> ('h, pr_result) step" where
  "create_builder_pr fmt maker repo_name n branch base =
     (case maker of
        None \<Rightarrow> ret (pr_failed branch ''GitHubTool not available'')
      | Some mk \<Rightarrow> catch_if any_exn
          (bnd (open_tool mk repo_name) (\<lambda>(G, repo).
           bnd (lift_res (generate_pr_body fmt n)) (\<lambda>body.
           bnd (create_pull_request G repo (generate_pr_title fmt n) (Some body) branch base) (\<lambda>url.
             ret (if startswith url ''Error'' then pr_failed branch url
                  else \<lparr>pq_success = True, pq_url = Some url, pq_branch = branch, pq_number = pr_number url, pq_error = None\<rparr>)))))
          (\<lambda>e. ret (pr_failed branch (exn_msg e))))"

section \<open>Code changes\<close>

text \<open>
  What the operating system does with a path that was not resolved before: every part but the
  last must be a directory. \<open>os_mkdirs\<close> is \<open>mkdir(parents=True, exist_ok=True)\<close> and \<open>os_write\<close> is
  \<open>write_text\<close>; the messages of their errors are left empty.
\<close>

definition os_stat :: "file_tree \<Rightarrow> file_path \<Rightarrow> file_entry option" where
  "os_stat t p = (if list_all (\<lambda>k. stat t (take k p) = Some Directory) [0..<length p] then stat t p else None)"

text \<open>A new directory under the parent; a link of that name that leads nowhere is an existing file.\<close>

definition os_mkdir :: "file_tree \<Rightarrow> file_path \<Rightarrow> string \<Rightarrow> file_tree result" where
  "os_mkdir t parent n = (case real_path t [] [] parent of
      None \<Rightarrow> Inl (Exn ''OSError'' [])
    | Some q \<Rightarrow> if entry_at t (q @ [n]) = None then Inr (dset (q @ [n]) Directory t) else Inl (Exn ''FileExistsError'' []))"

fun os_mkdirs :: "file_tree \<Rightarrow> file_path \<Rightarrow> file_tree result" where
  "os_mkdirs t [] = Inr t"
| "os_mkdirs t (n # rp) = (case os_stat t (rev (n # rp)) of
      Some Directory \<Rightarrow> Inr t
    | Some e \<Rightarrow> Inl (Exn ''FileExistsError'' [])
    | None \<Rightarrow> (case os_stat t (rev rp) of
          Some Directory \<Rightarrow> os_mkdir t (rev rp) n
        | Some e \<Rightarrow> Inl (Exn ''NotADirectoryError'' [])
        | None \<Rightarrow> bindr (os_mkdirs t rp) (\<lambda>t'. case os_stat t' (rev (n # rp)) of
              Some Directory \<Rightarrow> Inr t'
            | Some e \<Rightarrow> Inl (Exn ''FileExistsError'' [])
            | None \<Rightarrow> os_mkdir t' (rev rp) n)))"

definition os_write :: "file_tree \<Rightarrow> file_path \<Rightarrow> string \<Rightarrow> file_tree result" where
  "os_write t p content =
     (if p = [] \<or> os_stat t p = Some Directory then Inl (Exn ''IsADirectoryError'' [])
      else if os_stat t (butlast p) \<noteq> Some Directory then Inl (Exn ''FileNotFoundError'' [])
      else case real_path t [] [] p of
          None \<Rightarrow> Inl (Exn ''OSError'' [])
        | Some q \<Rightarrow> if q \<noteq> [] \<and> entry_at t (butlast q) = Some Directory then Inr (dset q (TextFile content) t)
            else Inl (Exn ''FileNotFoundError'' []))"

text \<open>\<open>(proj / path)\<close>, when it is lexically below the root.\<close>

definition change_path :: "file_path \<Rightarrow> string \<Rightarrow> file_path option" where
  "change_path proj path = (case parse_path path of
      Relative ps \<Rightarrow> Some (proj @ ps)
    | Absolute ps \<Rightarrow> if prefix proj ps then Some ps else None
    | OtherRoot ps \<Rightarrow> None)"

definition write_change :: "file_path \<Rightarrow> file_tree \<Rightarrow> string \<Rightarrow> string \<Rightarrow> file_tree \<times> bool \<times> string" where
  "write_change proj t path content =
     (let failed = (\<lambda>t' (e :: exn). (t', False, ''Error writing '' @ path @ '': '' @ exn_msg e)); null = Exn ''ValueError'' ''embedded null byte'' in
      case change_path proj path of
        None \<Rightarrow> (t, False, ''Error: Path '' @ path @ '' outside project root'')
      | Some p \<Rightarrow>
          if list_ex (\<lambda>n. List.member n (CHR 0x00)) (butlast p) then failed t null
          else (case os_mkdirs t (rev (butlast p)) of
              Inl e \<Rightarrow> failed t e
            | Inr t1 \<Rightarrow> if List.member path (CHR 0x00) then failed t1 null
                else (case os_write t1 p content of
                    Inl e \<Rightarrow> failed t1 e
                  | Inr t2 \<Rightarrow> (t2, True, ''Wrote '' @ path))))"

fun write_changes :: "file_path \<Rightarrow> file_tree \<Rightarrow> (string, string) dict \<Rightarrow> file_tree \<times> nat \<times> string list" where
  "write_changes proj t [] = (t, 0, [])"
| "write_changes proj t ((path, content) # cs) =
     (case write_change proj t path content of (t', wrote, line) \<Rightarrow>
       case write_changes proj t' cs of (t'', k, lines) \<Rightarrow> (t'', (if wrote then Suc k else k), line # lines))"

definition apply_code_changes :: "file_path \<Rightarrow> (string, string) dict \<Rightarrow> (file_tree, build_result) step" where
  "apply_code_changes proj changes t =
     (if changes = [] then (t, Inr \<lparr>bu_success = False, bu_files_written = 0, bu_results = [], bu_error = Some ''No changes provided''\<rparr>)
      else case write_changes proj t changes of (t', k, lines) \<Rightarrow>
        (t', Inr \<lparr>bu_success = (0 < k \<and> k = length changes), bu_files_written = k, bu_results = lines, bu_error = None\<rparr>))"

section \<open>The test run\<close>

text \<open>What the process does: it ends with its decoded output, runs out of time, or cannot be started.\<close>

datatype test_process = Completed string string int | TimedOut | NotStarted exn

definition run_tests_locally :: "test_process \<Rightarrow> int \<Rightarrow> test_result" where
  "run_tests_locally proc duration_ms = (case proc of
      Completed out err code \<Rightarrow> \<lparr>te_success = (code = 0), te_stdout = out, te_stderr = err, te_returncode = code, te_duration_ms = duration_ms\<rparr>
    | TimedOut \<Rightarrow> \<lparr>te_success = False, te_stdout = [], te_stderr = ''Error: Test execution timed out'', te_returncode = 1, te_duration_ms = duration_ms\<rparr>
    | NotStarted e \<Rightarrow> \<lparr>te_success = False, te_stdout = [], te_stderr = ''Error: '' @ exn_msg e, te_returncode = 1, te_duration_ms = duration_ms\<rparr>)"

section \<open>The workflow\<close>

record implement_result =
  im_success :: bool
  im_error :: "string option"
  im_stage :: "string option"
  im_branch :: "branch_result option"
  im_build :: "build_result option"
  im_test :: "test_result option"
  im_pr :: "pr_result option"

text \<open>The state of the workflow is the host and the working directory.\<close>

definition on_host :: "('h, 'a) step \<Rightarrow> ('h \<times> file_tree, 'a) step" where
  "on_host m s = (case m (fst s) of (h, r) \<Rightarrow> ((h, snd s), r))"

definition on_files :: "(file_tree, 'a) step \<Rightarrow> ('h \<times> file_tree, 'a) step" where
  "on_files m s = (case m (snd s) of (t, r) \<Rightarrow> ((fst s, t), r))"

definition str_of_option :: "string option \<Rightarrow> string" where
  "str_of_option v = (case v of None \<Rightarrow> ''None'' | Some s \<Rightarrow> s)"

definition implement_from_architecture_note ::
  "(real \<Rightarrow> string) \<Rightarrow> 'h tool_maker \<Rightarrow> string option \<Rightarrow> file_path \<Rightarrow> test_process \<Rightarrow> int \<Rightarrow> (string, json) dict \<Rightarrow> (string, string) dict
    \<Rightarrow> string \<Rightarrow> ('h \<times> file_tree, implement_result) step" where
  "implement_from_architecture_note fmt maker repo_name proj proc ms n changes base =
     bnd (on_host (create_branch maker repo_name (py_str fmt (dgetd n ''task_id'' (JStr ''unknown''))) base)) (\<lambda>b.
     if \<not> br_success b then ret \<lparr>im_success = False, im_error = Some (''Failed to create branch: '' @ str_of_option (br_error b)),
         im_stage = Some ''create_branch'', im_branch = None, im_build = None, im_test = None, im_pr = None\<rparr>
     else bnd (on_files (apply_code_changes proj changes)) (\<lambda>u.
       if \<not> bu_success u then ret \<lparr>im_success = False, im_error = Some (''Failed to apply changes: '' @ str_of_option (bu_error u)),
           im_stage = Some ''apply_code_changes'', im_branch = Some b, im_build = None, im_test = None, im_pr = None\<rparr>
       else bnd (on_host (create_builder_pr fmt maker repo_name n (br_name b) base)) (\<lambda>p.
         ret \<lparr>im_success = pq_success p, im_error = None, im_stage = None, im_branch = Some b, im_build = Some u,
           im_test = Some (run_tests_locally proc ms), im_pr = Some p\<rparr>)))"

end
