(* ===== verification/Builder_Safety.thy ===== *)
theory Builder_Safety
  imports Builder
begin

text \<open>
  What the builder guarantees and what it does not: the lexical root check lets a change leave
  the project, a reported pull request is a real one, the tests do not gate it, and the workflow
  changes nothing of the host but branches and pull requests.
\<close>

section \<open>The root check is lexical\<close>

text \<open>A path of directories, none of them a link.\<close>

definition dir_chain :: "file_tree \<Rightarrow> file_path \<Rightarrow> bool" where
  "dir_chain t p \<longleftrightarrow> list_all (\<lambda>k. entry_at t (take k p) = Some Directory) [0..<Suc (length p)]"

lemma dir_chain_take: "dir_chain t p \<Longrightarrow> entry_at t (take k p) = Some Directory"
  by (cases "k \<le> length p") (auto simp: dir_chain_def list_all_iff dest: bspec [of _ _ "length p"])

lemma dir_chain_prefix: "dir_chain t p \<Longrightarrow> prefix q p \<Longrightarrow> entry_at t q = Some Directory"
  using dir_chain_take [of t p "length q"] by (auto simp: prefix_def)

lemma dir_chain_link_free: "dir_chain t p \<Longrightarrow> link_free t p"
  by (auto simp: link_free_def link_at_def dest: dir_chain_prefix)

lemma real_path_append:
  "link_free t (cur @ p) \<Longrightarrow> clean p \<Longrightarrow> real_path t active cur (p @ q) = real_path t active (cur @ p) q"
proof (induction p arbitrary: cur)
  case (Cons n p)
  have "link_at t (cur @ [n]) = None" using Cons.prems(1) by (simp add: link_free_def)
  with Cons.IH [of "cur @ [n]"] Cons.prems show ?case by simp
qed simp

lemma stat_dir_chain: "dir_chain t p \<Longrightarrow> clean p \<Longrightarrow> stat t (take k p) = Some Directory"
proof -
  assume d: "dir_chain t p" "clean p"
  have "prefix (take k p) p" by (rule take_is_prefix)
  moreover have "clean (take k p)" using d(2) by (auto simp: clean_def list_all_iff dest: in_set_takeD)
  ultimately show "stat t (take k p) = Some Directory"
    using stat_canonical [of t "take k p"] link_free_prefix [OF dir_chain_link_free [OF d(1)]] dir_chain_take [OF d(1)] by simp
qed

lemma os_stat_snoc:
  "os_stat t (p @ [n]) = (if os_stat t p = Some Directory then stat t (p @ [n]) else None)"
proof -
  have "(list_all (\<lambda>k. stat t (take k (p @ [n])) = Some Directory) [0..<length (p @ [n])]) =
    (list_all (\<lambda>k. stat t (take k p) = Some Directory) [0..<length p] \<and> stat t p = Some Directory)"
    by (auto simp: list_all_iff)
  then show ?thesis by (auto simp: os_stat_def)
qed

lemma os_stat_dir_chain: "dir_chain t p \<Longrightarrow> clean p \<Longrightarrow> os_stat t p = Some Directory"
  using stat_dir_chain [of t p] stat_dir_chain [of t p "length p"] by (simp add: os_stat_def list_all_iff)

lemma split_on_plain: "c \<notin> set x \<Longrightarrow> split_on c x = [x]"
  by (induction x) auto

lemma parse_parent: "CHR ''/'' \<notin> set x \<Longrightarrow> x \<noteq> [] \<Longrightarrow> x \<noteq> ''.'' \<Longrightarrow> parse_path (''../'' @ x) = Relative [''..'', x]"
  by (simp add: parse_path_def split_on_plain startswith_def)

text \<open>C25: A change can leave the project root. For every project directory and every name that is free
  beside it, a change to \<open>../name\<close> passes the check for paths outside the root, is written
  outside it and is reported as a success.\<close>

theorem code_changes_escape:
  assumes proj: "dir_chain t (par @ [d])" "clean (par @ [d])" "\<not> list_ex (\<lambda>n. List.member n (CHR 0x00)) (par @ [d])"
    and free: "dget t (par @ [x]) = None" "clean [x]" "CHR ''/'' \<notin> set x" "CHR 0x00 \<notin> set x"
  shows "apply_code_changes (par @ [d]) [(''../'' @ x, content)] t =
    (dset (par @ [x]) (TextFile content) t,
     Inr \<lparr>bu_success = True, bu_files_written = 1, bu_results = [''Wrote ../'' @ x], bu_error = None\<rparr>)"
proof -
  let ?proj = "par @ [d]"
  have x: "x \<noteq> []" "x \<noteq> ''.''" "x \<noteq> ''..''" using free(2) by auto
  have path: "change_path ?proj (''../'' @ x) = Some (?proj @ [''..''] @ [x])"
    unfolding change_path_def parse_parent [OF free(3) x(1,2)] by simp
  have par: "dir_chain t par" using proj(1) unfolding dir_chain_def by (auto simp: list_all_iff)
  have rp: "real_path t [] [] (?proj @ ''..'' # q) = real_path t [] par q" for q
    using real_path_append [of t "[]" ?proj "[]" "''..'' # q"] dir_chain_link_free [OF proj(1)] proj(2) by simp
  have up: "os_stat t (?proj @ [''..'']) = Some Directory"
    unfolding os_stat_snoc [of t ?proj "''..''"] os_stat_dir_chain [OF proj(1,2)] stat_def rp using dir_chain_prefix [OF par] by simp
  have nolink: "link_at t (par @ [x]) = None" using free(1) by (simp add: link_at_def entry_at_def)
  have leaf: "real_path t [] [] (?proj @ [''..''] @ [x]) = Some (par @ [x])"
    using rp [of "[x]"] x nolink by simp
  have none: "os_stat t ((?proj @ [''..'']) @ [x]) = None"
    unfolding os_stat_snoc [of t "?proj @ [''..'']" x] up stat_def using leaf free(1) by (simp add: entry_at_def)
  have mk: "os_mkdirs t (rev (?proj @ [''..''])) = Inr t" using up by simp
  have wr: "os_write t ((?proj @ [''..'']) @ [x]) content = Inr (dset (par @ [x]) (TextFile content) t)"
    unfolding os_write_def none butlast_snoc up using leaf dir_chain_prefix [OF par] by simp
  have null: "\<not> list_ex (\<lambda>n. List.member n (CHR 0x00)) (?proj @ [''..''])" using proj(3) by simp
  have split: "butlast (?proj @ [''..''] @ [x]) = ?proj @ [''..'']" "?proj @ [''..''] @ [x] = (?proj @ [''..'']) @ [x]"
    by (simp_all add: butlast_append)
  have "\<not> List.member (''../'' @ x) (CHR 0x00)" using free(4) by (simp add: List.member_iff)
  then have "write_change ?proj t (''../'' @ x) content = (dset (par @ [x]) (TextFile content) t, True, ''Wrote '' @ ''../'' @ x)"
    unfolding write_change_def path Let_def option.case split(1) mk sum.case wr [folded split(2)]
    by (simp only: null if_False if_True sum.case wr [folded split(2)])
  then show ?thesis by (simp add: apply_code_changes_def)
qed

definition demo_tree :: file_tree where
  "demo_tree = [([''home''], Directory), ([''home'', ''repo''], Directory)]"

theorem code_changes_escape_witness:
  "apply_code_changes [''home'', ''repo''] [(''../key'', ''k'')] demo_tree =
    (dset [''home'', ''key''] (TextFile ''k'') demo_tree,
     Inr \<lparr>bu_success = True, bu_files_written = 1, bu_results = [''Wrote ../key''], bu_error = None\<rparr>)"
proof -
  have "dir_chain demo_tree ([''home''] @ [''repo''])" "clean ([''home''] @ [''repo''])"
    "\<not> list_ex (\<lambda>n. List.member n (CHR 0x00)) ([''home''] @ [''repo''])" "dget demo_tree ([''home''] @ [''key'']) = None" "clean [''key'']"
    by code_simp+
  from code_changes_escape [OF this, of "''k''"] show ?thesis by simp
qed

section \<open>Counting\<close>

lemma write_changes_counts:
  "write_changes proj t cs = (t', k, lines) \<Longrightarrow> length lines = length cs \<and> k \<le> length cs"
proof (induction cs arbitrary: t k lines)
  case (Cons c cs)
  obtain t1 wrote line t2 k2 ls where "write_change proj t (fst c) (snd c) = (t1, wrote, line)" "write_changes proj t1 cs = (t2, k2, ls)"
    by (metis prod_cases3)
  then show ?case using Cons.IH [of t1 k2 ls] Cons.prems by (cases c) (auto split: if_splits)
qed simp

text \<open>Changes that fail leave the earlier ones in place: they are not applied atomically.\<close>

lemma partial_changes_stay:
  "apply_code_changes [''home'', ''repo''] [(''a.py'', ''x''), (''/etc/b'', ''y'')] demo_tree =
    (dset [''home'', ''repo'', ''a.py''] (TextFile ''x'') demo_tree,
     Inr \<lparr>bu_success = False, bu_files_written = 1, bu_results = [''Wrote a.py'', ''Error: Path /etc/b outside project root''], bu_error = None\<rparr>)"
  by code_simp

section \<open>The workflow\<close>

text \<open>C26: A pull request the builder reports as opened was opened: the host was reached, the body has
  substance, and the last call of the host returned the reported link.\<close>

theorem builder_pr_truth:
  assumes "create_builder_pr fmt maker repo_name n branch base h = (h', Inr p)" "pq_success p"
  shows "\<exists>G body url h1. maker = Some (Inr G) \<and> generate_pr_body fmt n = Inr body \<and>
    \<not> pr_body_refused (sanitize_review_section body) \<and> pq_url p = Some url \<and>
    gh_create_pull G (generate_pr_title fmt n) (sanitize_review_section body) branch base h1 = (h', Inr url)"
proof -
  obtain mk where mk: "maker = Some mk" using assms
    by (cases maker) (auto simp: create_builder_pr_def effect_unfold pr_failed_def)
  let ?finish = "\<lambda>url. if startswith url ''Error'' then pr_failed branch url
    else \<lparr>pq_success = True, pq_url = Some url, pq_branch = branch, pq_number = pr_number url, pq_error = None\<rparr>"
  have "catch_if any_exn (bnd (open_tool mk repo_name) (\<lambda>(G, repo). bnd (lift_res (generate_pr_body fmt n)) (\<lambda>body.
      bnd (create_pull_request G repo (generate_pr_title fmt n) (Some body) branch base) (\<lambda>url. ret (?finish url)))))
      (\<lambda>e. ret (pr_failed branch (exn_msg e))) h = (h', Inr p)"
    using assms(1) unfolding mk create_builder_pr_def by simp
  then show ?thesis
  proof (rule catch_InrE)
    assume "bnd (open_tool mk repo_name) (\<lambda>(G, repo). bnd (lift_res (generate_pr_body fmt n)) (\<lambda>body.
      bnd (create_pull_request G repo (generate_pr_title fmt n) (Some body) branch base) (\<lambda>url. ret (?finish url)))) h = (h', Inr p)"
    then obtain h0 G repo where o: "open_tool mk repo_name h = (h0, Inr (G, repo))"
      and rest: "bnd (lift_res (generate_pr_body fmt n)) (\<lambda>body.
        bnd (create_pull_request G repo (generate_pr_title fmt n) (Some body) branch base) (\<lambda>url. ret (?finish url))) h0 = (h', Inr p)"
      by (rule bnd_InrE) auto
    from o have G: "mk = Inr G" by (auto simp: open_tool_def bnd_def effect_unfold split: sum.splits prod.splits)
    from rest obtain body where body: "generate_pr_body fmt n = Inr body"
      and rest2: "bnd (create_pull_request G repo (generate_pr_title fmt n) (Some body) branch base) (\<lambda>url. ret (?finish url)) h0 = (h', Inr p)"
      by (rule bnd_InrE) (auto simp: effect_unfold)
    from rest2 obtain url where url: "create_pull_request G repo (generate_pr_title fmt n) (Some body) branch base h0 = (h', Inr url)"
      and p: "p = ?finish url" by (rule bnd_InrE) (auto simp: effect_unfold)
    have "\<not> startswith url ''Error''" using assms(2) p by (auto simp: pr_failed_def)
    from pull_request_real [OF url this] show ?thesis using mk G body p \<open>\<not> startswith url ''Error''\<close> by (auto simp: body_text_def)
  next
    fix e s1 assume "ret (pr_failed branch (exn_msg e)) s1 = (h', Inr p)"
    then show ?thesis using assms(2) by (auto simp: effect_unfold pr_failed_def)
  qed
qed

text \<open>The tests do not gate the pull request: whatever the test process does, host, files, result of
  every step and success of the workflow are the same.\<close>

theorem tests_do_not_gate:
  "map_prod id (map_sum id (\<lambda>r. (im_success r, im_error r, im_branch r, im_build r, im_pr r)))
     (implement_from_architecture_note fmt maker repo_name proj proc ms n changes base s) =
   map_prod id (map_sum id (\<lambda>r. (im_success r, im_error r, im_branch r, im_build r, im_pr r)))
     (implement_from_architecture_note fmt maker repo_name proj proc' ms' n changes base s)"
  unfolding implement_from_architecture_note_def bnd_def by (simp add: effect_unfold split: prod.splits sum.splits)

text \<open>C24: the workflow commits nothing. What a host shows that branch creation and pull requests do not
  change, the files of its branches for one, is the same after the whole workflow, so the pull
  request it opens is from a branch without the changes.\<close>

theorem changes_not_committed:
  assumes "maker = Some (Inr G)"
    and "\<And>n. silent view (gh_get_repo G n)" "\<And>n. silent view (gh_get_branch G n)" "\<And>r sha. silent view (gh_create_ref G r sha)"
    and "\<And>t b hd bs. silent view (gh_create_pull G t b hd bs)"
  shows "view (fst (fst (implement_from_architecture_note fmt maker repo_name proj proc ms n changes base (h, t)))) = view h"
proof -
  let ?I = "\<lambda>h'. view h' = view h"
  have keeps: "\<And>n. keeps ?I (gh_get_repo G n)" "\<And>n. keeps ?I (gh_get_branch G n)" "\<And>r sha. keeps ?I (gh_create_ref G r sha)"
    "\<And>t b hd bs. keeps ?I (gh_create_pull G t b hd bs)" using assms(2-) by (simp_all add: silent_keeps)
  have repo: "keeps ?I (resolve_repo G nm)" for nm
    unfolding resolve_repo_def Let_def using keeps by (intro keeps_catch keeps_bnd keeps_prim) auto
  have opened: "bnd (open_tool (Inr G) repo_name) f = bnd (resolve_repo G repo_name) (\<lambda>repo. f (G, repo))" for f :: "_ \<Rightarrow> ('a, 'c) step"
    by (simp add: open_tool_def bnd_assoc)
  have call: "keeps ?I (repo_call rp name m)" if "keeps ?I m" for rp name and m :: "('a, 'c) step"
    unfolding repo_call_def using that by (intro keeps_if keeps_prim)
  have branch: "keeps ?I (create_branch maker repo_name tid bs)" for tid bs
    unfolding create_branch_def assms(1) Let_def option.case opened split_conv
    by (intro keeps_catch keeps_bnd keeps_attempt keeps_sum keeps_prim repo call keeps(2,3))
  have ensure: "keeps ?I (ensure_branch G br bs)" for br bs
    unfolding ensure_branch_def using keeps by (intro keeps_catch keeps_bnd keeps_prim) auto
  have pull: "keeps ?I (create_pull_request G rp title body br bs)" for rp title body br bs
    unfolding create_pull_request_def Let_def using keeps ensure by (intro keeps_if keeps_catch keeps_bnd keeps_prim) auto
  have pr: "keeps ?I (create_builder_pr fmt maker repo_name n br bs)" for br bs
    unfolding create_builder_pr_def assms(1) option.case opened split_conv using repo pull
    by (intro keeps_catch keeps_bnd keeps_prim) auto
  have host: "keeps (\<lambda>s. ?I (fst s)) (on_host m)" if "keeps ?I m" for m :: "('a, 'c) step"
    using that by (auto simp: keeps_iff on_host_def split: prod.splits)
  have files: "keeps (\<lambda>s. ?I (fst s)) (on_files m)" for m :: "(file_tree, 'c) step"
    by (auto simp: keeps_iff on_files_def split: prod.splits)
  have "keeps (\<lambda>s. ?I (fst s)) (implement_from_architecture_note fmt maker repo_name proj proc ms n changes base)"
    unfolding implement_from_architecture_note_def
    by (intro keeps_bnd keeps_if keeps_prim host branch pr files)
  from keepsD [OF this, of "(h, t)"] show ?thesis by simp
qed

text \<open>The examples: a note, and the board of \<open>GitHub_Tool\<close>, whose issues are never touched.\<close>

definition demo_arch_note :: "(string, json) dict" where
  "demo_arch_note = [(''task_id'', JStr ''t1''), (''title'', JStr ''Rotate keys''), (''context'', JStr ''keys are old''),
     (''decision'', JStr ''rotate them every month and store them sealed'')]"

lemma long_body_ok:
  "strip t \<noteq> [] \<Longrightarrow> min_bytes * 2 \<le> int (length (strip_comments_and_blanks t)) \<Longrightarrow> 0 \<le> min_bytes \<Longrightarrow> \<not> is_low_value_content (Some t) min_bytes"
  by (auto simp: is_low_value_content_def Let_def list_ex_iff)

lemma demo_pr: "create_builder_pr (\<lambda>x. []) (Some (Inr board_host)) None demo_arch_note ''b'' ''main'' [] =
  ([], Inr \<lparr>pq_success = True, pq_url = Some mock_issue_url, pq_branch = ''b'', pq_number = None, pq_error = None\<rparr>)"
proof -
  have "case generate_pr_body (\<lambda>x. []) demo_arch_note of Inl e \<Rightarrow> False
    | Inr b \<Rightarrow> (let t = replace_all LEAKED_REVIEW_PLACEHOLDER [] (sanitize_review_section b) in
        strip t \<noteq> [] \<and> 80 \<le> int (length (strip_comments_and_blanks t)))" by code_simp
  then obtain b where b: "generate_pr_body (\<lambda>x. []) demo_arch_note = Inr b" "\<not> pr_body_refused (sanitize_review_section b)"
    using long_body_ok [of _ 40] by (cases "generate_pr_body (\<lambda>x. []) demo_arch_note") (auto simp: pr_body_refused_def Let_def)
  have "\<not> startswith mock_issue_url ''Error''" "pr_number mock_issue_url = None" by code_simp+
  then show ?thesis using b
    by (simp add: create_builder_pr_def open_tool_def resolve_repo_def create_pull_request_def ensure_branch_def board_host_def mock_host_def
        catch_if_def bnd_def effect_unfold body_text_def)
qed

theorem builder_pr_truth_witness:
  "\<exists>body h1. gh_create_pull board_host (generate_pr_title (\<lambda>x. []) demo_arch_note) (sanitize_review_section body) ''b'' ''main'' h1 = ([], Inr mock_issue_url)"
proof -
  from builder_pr_truth [OF demo_pr] show ?thesis by auto
qed

theorem changes_not_committed_witness:
  "fst (fst (implement_from_architecture_note (\<lambda>x. []) (Some (Inr board_host)) None [''home'', ''repo''] TimedOut 0 demo_arch_note
     [(''a.py'', ''x'')] ''main'' ([], demo_tree))) = []"
  by (rule changes_not_committed [OF refl, where view = "\<lambda>h. h"]) (simp_all add: silent_def board_host_def mock_host_def effect_unfold)

end
