(* ===== verification/Pulse.thy ===== *)
theory Pulse
  imports Metrics Phases
begin

text \<open>
  The monitor of \<open>src/agents/pulse.py\<close>: the health of the agents from their tasks, system and
  API figures, the queue depth, alerts with their log, the health report and its text for
  the gate. The readings of \<open>psutil\<close>, the clock and the outcome of an append to a log are
  parameters; \<open>fmt\<close> is Python's text of a float, \<open>isof\<close> and \<open>parse_iso\<close> print and read times.
\<close>

section \<open>Settings and state\<close>

record pulse_config =
  pc_queue :: int
  pc_api :: int
  pc_error :: real

definition DEFAULT_THRESHOLDS :: pulse_config where
  "DEFAULT_THRESHOLDS = \<lparr>pc_queue = 50, pc_api = 80, pc_error = 10 / 100\<rparr>"

datatype alert_severity = INFO | WARNING | ERROR | CRITICAL

primrec severity_value :: "alert_severity \<Rightarrow> string" where
  "severity_value INFO = ''info''"
| "severity_value WARNING = ''warning''"
| "severity_value ERROR = ''error''"
| "severity_value CRITICAL = ''critical''"

text \<open>The two logs, one JSON value to a line, and whether an append to them fails.\<close>

record pulse_world =
  pw_alerts :: "json list"
  pw_metrics :: "json list"
  pw_broken :: bool

section \<open>Agents\<close>

record agent_health =
  ah_status :: string
  ah_count :: nat
  ah_stalled :: nat
  ah_last :: json

text \<open>\<open>a > b\<close>: texts and numbers compare, values of different kinds raise; lists are outside the
  model (the outer \<open>None\<close>).\<close>

definition py_gt :: "json \<Rightarrow> json \<Rightarrow> bool result option" where
  "py_gt a b = (case (a, b) of
      (JStr x, JStr y) \<Rightarrow> Some (Inr (y < x))
    | (JArr xs, JArr ys) \<Rightarrow> None
    | _ \<Rightarrow> (case (num_of a, num_of b) of
          (Some x, Some y) \<Rightarrow> Some (Inr (y < x)) | _ \<Rightarrow> Some (Inl (Exn ''TypeError'' ''not supported between instances''))))"

definition new_health :: "json \<Rightarrow> agent_health" where
  "new_health updated_at = \<lparr>ah_status = ''healthy'', ah_count = 0, ah_stalled = 0, ah_last = updated_at\<rparr>"

definition count_task :: "(string, json) dict \<Rightarrow> agent_health \<Rightarrow> agent_health" where
  "count_task d h = h\<lparr>ah_count := ah_count h + 1,
     ah_stalled := (if dgetd d ''status'' (JStr ''UNKNOWN'') = JStr ''STALLED'' then ah_stalled h + 1 else ah_stalled h)\<rparr>"

text \<open>One pass over the tasks; a task whose agent is no text is outside the model. \<open>clock\<close> is the time
  read when a task carries none.\<close>

fun tally_agents ::
  "(string \<Rightarrow> string) \<Rightarrow> (string \<times> json) list \<Rightarrow> (string, agent_health) dict \<Rightarrow> (string, agent_health) dict result option" where
  "tally_agents clock [] acc = Some (Inr acc)"
| "tally_agents clock ((task_id, v) # ts) acc = (case v of
      JObj d \<Rightarrow> (case dgetd d ''agent'' (JStr ''unknown'') of
          JStr a \<Rightarrow>
            (let upd = dgetd d ''updated_at'' (JStr (clock task_id)); h1 = count_task d (dgetd acc a (new_health upd))
             in case py_gt upd (ah_last h1) of
                  None \<Rightarrow> None
                | Some (Inl e) \<Rightarrow> Some (Inl e)
                | Some (Inr newer) \<Rightarrow> tally_agents clock ts (dset a (if newer then h1\<lparr>ah_last := upd\<rparr> else h1) acc))
        | _ \<Rightarrow> None)
    | _ \<Rightarrow> Some (Inl (attribute_error ''get'')))"

definition mark_health :: "agent_health \<Rightarrow> agent_health" where
  "mark_health h = (let h1 = (if 0 < ah_stalled h then h\<lparr>ah_status := ''degraded''\<rparr> else h) in
     if 5 < ah_stalled h1 then h1\<lparr>ah_status := ''unresponsive''\<rparr> else h1)"

definition check_agent_health :: "(string \<Rightarrow> string) \<Rightarrow> state_manager \<Rightarrow> (string, agent_health) dict result option" where
  "check_agent_health clock sm =
     map_option (\<lambda>r. bindr r (\<lambda>acc. Inr (map (\<lambda>(a, h). (a, mark_health h)) acc))) (tally_agents clock (get_all_tasks sm) [])"

definition health_json :: "agent_health \<Rightarrow> json" where
  "health_json h = JObj [(''status'', JStr (ah_status h)), (''task_count'', JInt (int (ah_count h))),
     (''stalled_count'', JInt (int (ah_stalled h))), (''last_seen'', ah_last h)]"

section \<open>Figures\<close>

text \<open>The readings: none when \<open>psutil\<close> is missing or a value cannot be rounded; a reading that
  raises counts as zero.\<close>

record psutil_reading =
  ps_cpu :: "real result"
  ps_memory :: "(real \<times> real \<times> real) result"
  ps_disk :: "(real \<times> real \<times> real) result"

definition gigabytes :: "real \<Rightarrow> real" where
  "gigabytes bytes = round_to 2 (bytes / 1024 ^ 3)"

definition usage_fields :: "string \<Rightarrow> (real \<times> real \<times> real) result \<Rightarrow> (string \<times> json) list" where
  "usage_fields name r = (case r of
      Inr (percent, used, capacity) \<Rightarrow> [(name @ ''_percent'', JFloat (round_to 2 percent)),
        (name @ ''_used_gb'', JFloat (gigabytes used)), (name @ ''_total_gb'', JFloat (gigabytes capacity))]
    | Inl e \<Rightarrow> [(name @ ''_percent'', JFloat (round_to 2 0)), (name @ ''_used_gb'', JFloat 0), (name @ ''_total_gb'', JFloat 0)])"

definition get_system_metrics :: "string \<Rightarrow> psutil_reading option \<Rightarrow> (string, json) dict" where
  "get_system_metrics now reading = (case reading of
      Some r \<Rightarrow> [(''cpu_percent'', JFloat (round_to 2 (case ps_cpu r of Inr c \<Rightarrow> c | Inl e \<Rightarrow> 0)))]
        @ usage_fields ''memory'' (ps_memory r) @ usage_fields ''disk'' (ps_disk r) @ [(''timestamp'', JStr now)]
    | None \<Rightarrow> map (\<lambda>k. (k, JFloat 0)) [''cpu_percent'', ''memory_percent'', ''memory_used_gb'', ''memory_total_gb'',
        ''disk_percent'', ''disk_used_gb'', ''disk_total_gb''] @ [(''timestamp'', JStr now)])"

definition usage_percent :: "int \<Rightarrow> int \<Rightarrow> real" where
  "usage_percent used limit = (if 0 < limit then of_int used / of_int limit * 100 else 0)"

definition total_tokens :: "metrics_registry \<Rightarrow> int" where
  "total_tokens reg = sum_list (map snd (mr_tokens reg))"

definition check_api_rate_limits :: "pulse_config \<Rightarrow> metrics_registry \<Rightarrow> int \<Rightarrow> (string, json) dict" where
  "check_api_rate_limits cfg reg limit =
     (let pct = usage_percent (total_tokens reg) limit in
      [(''token_usage'', JObj (map (\<lambda>(n, c). (n, JInt c)) (mr_tokens reg))), (''total_tokens'', JInt (total_tokens reg)),
       (''token_limit'', JInt limit), (''overall_usage_percent'', if 0 < limit then JFloat (round_to 2 pct) else JInt 0),
       (''status'', JStr (if pct < of_int (pc_api cfg) then ''OK'' else ''WARNING''))])"

fun queue_depth_of :: "json list \<Rightarrow> json list \<Rightarrow> int result" where
  "queue_depth_of wanted [] = Inr 0"
| "queue_depth_of wanted (v # vs) = (case v of
      JObj d \<Rightarrow> bindr (queue_depth_of wanted vs) (\<lambda>k. Inr
        ((if list_ex (py_eq (dgetd d ''status'' (JStr ''UNKNOWN''))) wanted then 1 else 0) + k))
    | _ \<Rightarrow> Inl (attribute_error ''get''))"

definition monitor_queue_depth :: "state_manager \<Rightarrow> string list option \<Rightarrow> int result" where
  "monitor_queue_depth sm status_filter =
     queue_depth_of (map JStr (case status_filter of None \<Rightarrow> [''PENDING'', ''RUNNING''] | Some ss \<Rightarrow> ss)) (map snd (get_all_tasks sm))"

section \<open>Alerts\<close>

definition labels_json :: "(string, string) dict option \<Rightarrow> json" where
  "labels_json labels = JObj (case labels of None \<Rightarrow> [] | Some ls \<Rightarrow> map (\<lambda>(k, v). (k, JStr v)) ls)"

text \<open>The alert is appended first; an unknown severity raises after that.\<close>

definition send_alert ::
  "string \<Rightarrow> string \<Rightarrow> string \<Rightarrow> string \<Rightarrow> string \<Rightarrow> (string, string) dict option \<Rightarrow> pulse_world \<Rightarrow> pulse_world \<times> (string, json) dict result" where
  "send_alert now severity message source task_id labels w =
     (let alert = JObj [(''timestamp'', JStr now), (''severity'', JStr severity), (''message'', JStr message),
            (''source'', JStr source), (''task_id'', JStr task_id), (''labels'', labels_json labels)];
          w' = (if pw_broken w then w else w\<lparr>pw_alerts := pw_alerts w @ [alert]\<rparr>)
      in (w', if List.member (map severity_value [INFO, WARNING, ERROR, CRITICAL]) severity
              then Inr [(''sent'', JBool True), (''severity'', JStr severity), (''message'', JStr message), (''source'', JStr source)]
              else Inl (Exn ''ValueError'' (repr_str severity @ '' is not a valid AlertSeverity''))))"

definition log_metric ::
  "string \<Rightarrow> string \<Rightarrow> real \<Rightarrow> string \<Rightarrow> (string, string) dict option \<Rightarrow> pulse_world \<Rightarrow> pulse_world \<times> (string, json) dict" where
  "log_metric now name v unit_name labels w =
     (let metric = JObj [(''timestamp'', JStr now), (''metric_name'', JStr name), (''value'', JFloat v), (''unit'', JStr unit_name),
            (''labels'', labels_json labels)]
      in (if pw_broken w then w else w\<lparr>pw_metrics := pw_metrics w @ [metric]\<rparr>,
          [(''logged'', JBool True), (''metric_name'', JStr name), (''value'', JFloat v)]))"

text \<open>The alerts the conditions ask for, as severity, message and source, in the order they are sent.\<close>

type_synonym alert_row = "string \<times> string \<times> string"

definition agent_down :: "json \<Rightarrow> bool" where
  "agent_down v = (case v of JObj h \<Rightarrow> dget h ''status'' = Some (JStr ''unresponsive'') \<or> dget h ''status'' = Some (JStr ''error'') | _ \<Rightarrow> False)"

definition alert_rows :: "pulse_config \<Rightarrow> int \<Rightarrow> real \<Rightarrow> real \<Rightarrow> (string, json) dict \<Rightarrow> alert_row list" where
  "alert_rows cfg depth api_pct err agents =
     (if pc_queue cfg < depth then [(severity_value WARNING, ''Queue depth ('' @ str_of_int depth @ '') exceeds threshold ('' @
         str_of_int (pc_queue cfg) @ '')'', ''pulse.monitor.queue'')] else []) @
     (if of_int (pc_api cfg) < api_pct then [(severity_value WARNING, ''API usage ('' @ fmt_fixed 1 api_pct @ ''%) exceeds threshold ('' @
         str_of_int (pc_api cfg) @ ''%)'', ''pulse.monitor.api'')] else []) @
     map (\<lambda>(a, h). (severity_value ERROR, ''Agent '' @ [CHR 0x27] @ a @ [CHR 0x27] @ '' is unresponsive or in error state'', ''pulse.monitor.agent''))
       (filter (\<lambda>(a, h). agent_down h) agents) @
     (if pc_error cfg < err then [(severity_value ERROR, ''Error rate ('' @ fmt_percent 2 err @ '') exceeds threshold ('' @
         fmt_percent 2 (pc_error cfg) @ '')'', ''pulse.monitor.errors'')] else [])"

fun send_alerts :: "string \<Rightarrow> alert_row list \<Rightarrow> pulse_world \<Rightarrow> pulse_world \<times> (string, json) dict list result" where
  "send_alerts now [] w = (w, Inr [])"
| "send_alerts now ((sev, msg, src) # rows) w = (case send_alert now sev msg src [] None w of
      (w1, Inl e) \<Rightarrow> (w1, Inl e)
    | (w1, Inr a) \<Rightarrow> (case send_alerts now rows w1 of (w2, r) \<Rightarrow> (w2, bindr r (\<lambda>xs. Inr (a # xs)))))"

definition evaluate_alert_conditions ::
  "pulse_config \<Rightarrow> string \<Rightarrow> int \<Rightarrow> real \<Rightarrow> real \<Rightarrow> (string, json) dict \<Rightarrow> pulse_world \<Rightarrow> pulse_world \<times> (string, json) dict list result" where
  "evaluate_alert_conditions cfg now depth api_pct err agents = send_alerts now (alert_rows cfg depth api_pct err agents)"

section \<open>The report\<close>

record health_report =
  hr_task_id :: json
  hr_status :: json
  hr_agents :: json
  hr_system :: json
  hr_depth :: json
  hr_alerts :: json
  hr_time :: int

definition report_dump :: "(int \<Rightarrow> string) \<Rightarrow> health_report \<Rightarrow> (string, json) dict" where
  "report_dump isof r = [(''task_id'', hr_task_id r), (''status'', hr_status r), (''agent_health'', hr_agents r),
     (''system_metrics'', hr_system r), (''queue_depth'', hr_depth r), (''alerts'', hr_alerts r), (''timestamp'', JStr (isof (hr_time r)))]"

fun alert_lines :: "(real \<Rightarrow> string) \<Rightarrow> json list \<Rightarrow> string list result" where
  "alert_lines fmt [] = Inr []"
| "alert_lines fmt (v # vs) = (case v of
      JObj a \<Rightarrow> (case dgetd a ''severity'' (JStr ''unknown'') of
          JStr s \<Rightarrow> bindr (alert_lines fmt vs) (\<lambda>ls. Inr
            ((''- ['' @ map upper_char s @ ''] '' @ py_str fmt (dgetd a ''message'' (JStr ''No message''))) # ls))
        | _ \<Rightarrow> Inl (attribute_error ''upper''))
    | _ \<Rightarrow> Inl (attribute_error ''get''))"

definition alerts_block :: "(real \<Rightarrow> string) \<Rightarrow> json \<Rightarrow> string list result" where
  "alerts_block fmt v = (if \<not> truthy v then Inr [''## Active Alerts'', ''No active alerts.'', []]
     else case v of
       JArr xs \<Rightarrow> bindr (alert_lines fmt xs) (\<lambda>ls. Inr ([''## Active Alerts'', ''*Total: '' @ str_of_nat (length xs) @ '' alerts*'', []] @ ls))
     | JStr s \<Rightarrow> Inl (attribute_error ''get'') | JObj d \<Rightarrow> Inl (attribute_error ''get'')
     | _ \<Rightarrow> Inl (Exn ''TypeError'' ''object has no len()''))"

definition agents_block :: "(real \<Rightarrow> string) \<Rightarrow> json \<Rightarrow> string list result" where
  "agents_block fmt v = (if \<not> truthy v then Inr [''- No agent health data available'']
     else case v of JObj d \<Rightarrow> Inr (map (\<lambda>(a, info). ''- **'' @ a @ ''**: '' @ py_str fmt info) d) | _ \<Rightarrow> Inl (attribute_error ''items''))"

definition health_markdown :: "(real \<Rightarrow> string) \<Rightarrow> (int \<Rightarrow> string) \<Rightarrow> health_report \<Rightarrow> string result" where
  "health_markdown fmt isof r =
     bindr (agents_block fmt (hr_agents r)) (\<lambda>agents.
     case hr_system r of
       JObj d \<Rightarrow> bindr (alerts_block fmt (hr_alerts r)) (\<lambda>alerts.
         let metric = (\<lambda>label key. ''- '' @ label @ '': '' @ py_str fmt (dgetd d key (JStr ''N/A'')) @ ''%'') in
         case hr_status r of
           JStr status \<Rightarrow> Inr (rstrip (join [CHR 0x0A] (
             [''# Health Report'', [],
              ''_Task: '' @ [CHR 0x60] @ py_str fmt (hr_task_id r) @ [CHR 0x60] @ '' '' @ [CHR 0xB7] @ '' Status: '' @ status @ '' '' @ [CHR 0xB7]
                @ '' Generated: '' @ isof (hr_time r) @ ''_'', [],
              ''## Status'', status, [], ''## Agent Health''] @ agents @ [[]] @
             [''## System Metrics'', metric ''CPU'' ''cpu_percent'', metric ''Memory'' ''memory_percent'', metric ''Disk'' ''disk_percent'', []] @
             [''## Queue Depth'', py_str fmt (hr_depth r), []] @ alerts)) @ [CHR 0x0A])
         | _ \<Rightarrow> Inl (Exn ''TypeError'' ''sequence item: expected str instance''))
     | _ \<Rightarrow> Inl (attribute_error ''get''))"

definition error_rate :: "metrics_registry \<Rightarrow> real" where
  "error_rate reg = (let calls = sum_list (map (am_calls \<circ> snd) (mr_agents reg)); errors = sum_list (map (am_errors \<circ> snd) (mr_agents reg)) in
     if 0 < calls then of_int errors / of_int calls else 0)"

definition has_severity :: "alert_severity \<Rightarrow> (string, json) dict \<Rightarrow> bool" where
  "has_severity sev a = (dget a ''severity'' = Some (JStr (severity_value sev)))"

definition report_status :: "(string, json) dict list \<Rightarrow> string" where
  "report_status alerts = (if alerts = [] then ''HEALTHY''
     else if list_ex (has_severity CRITICAL) alerts then ''CRITICAL''
     else if list_ex (has_severity ERROR) alerts then ''DEGRADED'' else ''DEGRADED'')"

text \<open>The API usage the alerts see: the rounded one, against the default limit.\<close>

definition reported_usage :: "metrics_registry \<Rightarrow> real" where
  "reported_usage reg = round_to 2 (usage_percent (total_tokens reg) 100000)"

definition generate_health_report ::
  "pulse_config \<Rightarrow> string \<Rightarrow> (string \<Rightarrow> string) \<Rightarrow> psutil_reading option \<Rightarrow> state_manager \<Rightarrow> metrics_registry \<Rightarrow> int \<Rightarrow> string
    \<Rightarrow> (string, json) dict option \<Rightarrow> (string, json) dict option \<Rightarrow> int option \<Rightarrow> pulse_world \<Rightarrow> (pulse_world \<times> health_report result) option" where
  "generate_health_report cfg now clock reading sm reg at_time task_id agents system depth w =
     (case (case agents of Some a \<Rightarrow> Some (Inr a)
            | None \<Rightarrow> map_option (\<lambda>r. bindr r (\<lambda>hs. Inr (map (\<lambda>(a, h). (a, health_json h)) hs))) (check_agent_health clock sm)) of
        None \<Rightarrow> None
      | Some (Inl e) \<Rightarrow> Some (w, Inl e)
      | Some (Inr ag) \<Rightarrow>
          (let sys = (case system of Some m \<Rightarrow> m | None \<Rightarrow> get_system_metrics now reading) in
           case (case depth of Some k \<Rightarrow> Inr k | None \<Rightarrow> monitor_queue_depth sm None) of
             Inl e \<Rightarrow> Some (w, Inl e)
           | Inr dp \<Rightarrow> (case evaluate_alert_conditions cfg now dp (reported_usage reg) (error_rate reg) ag w of
               (w', Inl e) \<Rightarrow> Some (w', Inl e)
             | (w', Inr alerts) \<Rightarrow> Some (w', Inr \<lparr>hr_task_id = JStr task_id, hr_status = JStr (report_status alerts), hr_agents = JObj ag,
                 hr_system = JObj sys, hr_depth = JInt dp, hr_alerts = JArr (map JObj alerts), hr_time = at_time\<rparr>))))"

definition pulse_gate_payload ::
  "(real \<Rightarrow> string) \<Rightarrow> (int \<Rightarrow> string) \<Rightarrow> (json \<Rightarrow> int result) \<Rightarrow> int \<Rightarrow> (string, json) dict \<Rightarrow> (string, json) dict result" where
  "pulse_gate_payload fmt isof parse_iso now report =
     bindr (parse_iso (dgetd report ''timestamp'' (JStr (isof now)))) (\<lambda>t.
     bindr (health_markdown fmt isof
       \<lparr>hr_task_id = dgetd report ''task_id'' (JStr ''unknown''), hr_status = dgetd report ''status'' (JStr ''UNKNOWN''),
        hr_agents = dgetd report ''agent_health'' (JObj []), hr_system = dgetd report ''system_metrics'' (JObj []),
        hr_depth = dgetd report ''queue_depth'' (JInt 0), hr_alerts = dgetd report ''alerts'' (JArr []), hr_time = t\<rparr>) (\<lambda>md.
     Inr [(''body'', JStr md), (''phase'', JStr (phase_value OPERATE))]))"

section \<open>Agents are counted\<close>

definition agent_tasks :: "string \<Rightarrow> (string \<times> json) list \<Rightarrow> json list" where
  "agent_tasks a ts = filter (\<lambda>v. case v of JObj d \<Rightarrow> dgetd d ''agent'' (JStr ''unknown'') = JStr a | _ \<Rightarrow> False) (map snd ts)"

definition is_stalled :: "json \<Rightarrow> bool" where
  "is_stalled v = (case v of JObj d \<Rightarrow> dgetd d ''status'' (JStr ''UNKNOWN'') = JStr ''STALLED'' | _ \<Rightarrow> False)"

definition tally_ok :: "(string, agent_health) dict \<Rightarrow> string \<Rightarrow> json list \<Rightarrow> bool" where
  "tally_ok acc a vs \<longleftrightarrow> (case dget acc a of
      None \<Rightarrow> vs = []
    | Some h \<Rightarrow> vs \<noteq> [] \<and> ah_status h = ''healthy'' \<and> ah_count h = length vs \<and> ah_stalled h = length (filter is_stalled vs))"

lemma tally_step:
  assumes "tally_ok acc a vs" "v = JObj d" "dgetd d ''agent'' (JStr ''unknown'') = JStr b" "h = dgetd acc b (new_health upd)"
    and "ah_status h' = ah_status h" "ah_count h' = ah_count h + 1"
    and "ah_stalled h' = (if dgetd d ''status'' (JStr ''UNKNOWN'') = JStr ''STALLED'' then ah_stalled h + 1 else ah_stalled h)"
  shows "tally_ok (dset b h' acc) a (if b = a then vs @ [v] else vs)"
  using assms by (auto simp: tally_ok_def dgetd_def new_health_def is_stalled_def split: option.splits)

lemma tally_next:
  assumes "tally_agents clock ((tid, JObj d) # ts) acc = Some (Inr acc')" "dgetd d ''agent'' (JStr ''unknown'') = JStr b"
  shows "\<exists>newer upd. tally_agents clock ts (dset b (let h = count_task d (dgetd acc b (new_health upd)) in
      if newer then h\<lparr>ah_last := upd\<rparr> else h) acc) = Some (Inr acc')"
proof -
  let ?upd = "dgetd d ''updated_at'' (JStr (clock tid))"
  let ?h = "count_task d (dgetd acc b (new_health ?upd))"
  obtain newer where "py_gt ?upd (ah_last ?h) = Some (Inr newer)"
    using assms by (simp add: Let_def split: option.splits sum.splits)
  with assms show ?thesis by (intro exI [of _ newer] exI [of _ ?upd]) (simp add: Let_def)
qed

lemma tally_agents_ok:
  "tally_agents clock ts acc = Some (Inr acc') \<Longrightarrow> tally_ok acc a vs \<Longrightarrow> tally_ok acc' a (vs @ agent_tasks a ts)"
proof (induction ts arbitrary: acc vs)
  case (Cons tv ts)
  obtain tid v where tv: "tv = (tid, v)" by force
  from Cons.prems(1) obtain d b where d: "v = JObj d" "dgetd d ''agent'' (JStr ''unknown'') = JStr b"
    unfolding tv by (auto split: json.splits)
  from tally_next [OF Cons.prems(1) [unfolded tv d(1)] d(2)] obtain newer upd where
    rest: "tally_agents clock ts (dset b (let h = count_task d (dgetd acc b (new_health upd)) in if newer then h\<lparr>ah_last := upd\<rparr> else h) acc)
      = Some (Inr acc')" by blast
  have "tally_ok (dset b (let h = count_task d (dgetd acc b (new_health upd)) in if newer then h\<lparr>ah_last := upd\<rparr> else h) acc) a
      (if b = a then vs @ [v] else vs)"
    by (rule tally_step [OF Cons.prems(2) d refl]) (simp_all add: count_task_def Let_def)
  from Cons.IH [OF rest this] show ?case by (cases "b = a") (simp_all add: agent_tasks_def tv d)
qed (simp add: agent_tasks_def)

text \<open>The health of an agent is that of its tasks: an agent is listed exactly when a task names it,
  with the number of its tasks and of the stalled ones, degraded from the first stalled task
  on and unresponsive from the sixth.\<close>

theorem agent_health_exact:
  assumes "check_agent_health clock sm = Some (Inr hs)"
  shows "case dget hs a of
      None \<Rightarrow> agent_tasks a (get_all_tasks sm) = []
    | Some h \<Rightarrow> agent_tasks a (get_all_tasks sm) \<noteq> [] \<and> ah_count h = length (agent_tasks a (get_all_tasks sm)) \<and>
        ah_stalled h = length (filter is_stalled (agent_tasks a (get_all_tasks sm))) \<and>
        ah_status h = (if 5 < ah_stalled h then ''unresponsive'' else if 0 < ah_stalled h then ''degraded'' else ''healthy'')"
proof -
  from assms obtain acc where acc: "tally_agents clock (get_all_tasks sm) [] = Some (Inr acc)" "hs = map (\<lambda>(a, h). (a, mark_health h)) acc"
    by (cases "tally_agents clock (get_all_tasks sm) []") (auto simp: check_agent_health_def bindr_Inr_iff)
  have "tally_ok acc a ([] @ agent_tasks a (get_all_tasks sm))" by (rule tally_agents_ok [OF acc(1)]) (simp add: tally_ok_def)
  moreover have "dget hs a = map_option mark_health (dget acc a)" unfolding acc(2) by (simp add: map_of_map)
  ultimately show ?thesis by (auto simp: tally_ok_def mark_health_def Let_def split: option.splits)
qed

section \<open>Alerts and the report\<close>

definition alert_of :: "alert_row \<Rightarrow> (string, json) dict" where
  "alert_of = (\<lambda>(sev, msg, src). [(''sent'', JBool True), (''severity'', JStr sev), (''message'', JStr msg), (''source'', JStr src)])"

lemma send_alert_known:
  assumes "sev \<in> severity_value ` UNIV"
  shows "\<exists>w'. send_alert now sev msg src [] None w = (w', Inr (alert_of (sev, msg, src))) \<and> pw_broken w' = pw_broken w
    \<and> length (pw_alerts w') = (if pw_broken w then length (pw_alerts w) else Suc (length (pw_alerts w)))"
proof -
  from assms obtain x where "sev = severity_value x" by blast
  then have "List.member (map severity_value [INFO, WARNING, ERROR, CRITICAL]) sev" by (cases x) simp_all
  then show ?thesis by (simp add: send_alert_def Let_def alert_of_def)
qed

lemma send_alerts_known:
  "list_all (\<lambda>(sev, msg, src). sev \<in> severity_value ` UNIV) rows \<Longrightarrow>
   \<exists>w'. send_alerts now rows w = (w', Inr (map alert_of rows)) \<and>
     length (pw_alerts w') = (if pw_broken w then length (pw_alerts w) else length (pw_alerts w) + length rows)"
proof (induction rows arbitrary: w)
  case (Cons row rows)
  obtain sev msg src where row: "row = (sev, msg, src)" by (metis prod_cases3)
  from Cons.prems have "sev \<in> severity_value ` UNIV" by (simp add: row)
  from send_alert_known [OF this] obtain w1 where
    one: "send_alert now sev msg src [] None w = (w1, Inr (alert_of row))" "pw_broken w1 = pw_broken w"
      "length (pw_alerts w1) = (if pw_broken w then length (pw_alerts w) else Suc (length (pw_alerts w)))" unfolding row by blast
  from Cons.IH [of w1] Cons.prems obtain w2 where two: "send_alerts now rows w1 = (w2, Inr (map alert_of rows))"
    "length (pw_alerts w2) = (if pw_broken w1 then length (pw_alerts w1) else length (pw_alerts w1) + length rows)" by auto
  show ?case using one two by (simp add: row)
qed simp

lemma severity_range: "''warning'' \<in> range severity_value" "''error'' \<in> range severity_value"
  using rangeI [of severity_value WARNING] rangeI [of severity_value ERROR] by simp_all

lemma alert_rows_known: "list_all (\<lambda>(sev, msg, src). sev \<in> severity_value ` UNIV) (alert_rows cfg depth pct err ag)"
  by (auto simp: alert_rows_def list_all_iff severity_range)

lemma alert_rows_severity: "list_all (\<lambda>(sev, msg, src). sev = ''warning'' \<or> sev = ''error'') (alert_rows cfg depth pct err ag)"
  by (auto simp: alert_rows_def list_all_iff)

definition all_quiet :: "pulse_config \<Rightarrow> int \<Rightarrow> metrics_registry \<Rightarrow> (string, json) dict \<Rightarrow> bool" where
  "all_quiet cfg depth reg ag \<longleftrightarrow> depth \<le> pc_queue cfg \<and> reported_usage reg \<le> of_int (pc_api cfg) \<and> error_rate reg \<le> pc_error cfg \<and>
     \<not> list_ex (\<lambda>(a, h). agent_down h) ag"

lemma alert_rows_empty: "alert_rows cfg depth (reported_usage reg) (error_rate reg) ag = [] \<longleftrightarrow> all_quiet cfg depth reg ag"
  by (auto simp: alert_rows_def all_quiet_def filter_empty_conv list_ex_iff not_less)

lemma status_never_critical: "list_all (\<lambda>(sev, msg, src). sev = ''warning'' \<or> sev = ''error'') rows \<Longrightarrow>
  report_status (map alert_of rows) = (if rows = [] then ''HEALTHY'' else ''DEGRADED'')"
proof -
  assume "list_all (\<lambda>(sev, msg, src). sev = ''warning'' \<or> sev = ''error'') rows"
  then have "\<not> list_ex (has_severity CRITICAL) (map alert_of rows)"
    by (induction rows) (auto simp: has_severity_def alert_of_def)
  then show ?thesis by (simp add: report_status_def)
qed

lemma generated_report:
  "\<exists>w'. generate_health_report cfg now clock reading sm reg at_time task_id (Some ag) sys (Some dp) w = Some (w', Inr
     \<lparr>hr_task_id = JStr task_id, hr_status = JStr (if all_quiet cfg dp reg ag then ''HEALTHY'' else ''DEGRADED''), hr_agents = JObj ag,
      hr_system = JObj (case sys of Some m \<Rightarrow> m | None \<Rightarrow> get_system_metrics now reading), hr_depth = JInt dp,
      hr_alerts = JArr (map (JObj \<circ> alert_of) (alert_rows cfg dp (reported_usage reg) (error_rate reg) ag)), hr_time = at_time\<rparr>) \<and>
   length (pw_alerts w') = length (pw_alerts w) +
     (if pw_broken w then 0 else length (alert_rows cfg dp (reported_usage reg) (error_rate reg) ag))"
proof -
  let ?rows = "alert_rows cfg dp (reported_usage reg) (error_rate reg) ag"
  from send_alerts_known [OF alert_rows_known] obtain w' where w': "send_alerts now ?rows w = (w', Inr (map alert_of ?rows))"
    "length (pw_alerts w') = (if pw_broken w then length (pw_alerts w) else length (pw_alerts w) + length ?rows)" by blast
  show ?thesis using w' unfolding generate_health_report_def evaluate_alert_conditions_def
    by (simp add: status_never_critical [OF alert_rows_severity] alert_rows_empty Let_def)
qed

text \<open>The status of a report is that of its figures. The report is healthy exactly when the queue
  depth, the rounded API usage and the error rate are within their thresholds and no agent is
  down; otherwise it is degraded, never critical, and every alert it counts is in the log
  unless the log cannot be written.\<close>

theorem report_status_exact:
  "\<exists>w' r. generate_health_report cfg now clock reading sm reg at_time task_id (Some ag) sys (Some dp) w = Some (w', Inr r) \<and>
     hr_status r = JStr (if all_quiet cfg dp reg ag then ''HEALTHY'' else ''DEGRADED'') \<and>
     length (pw_alerts w') = length (pw_alerts w) +
       (if pw_broken w then 0 else length (alert_rows cfg dp (reported_usage reg) (error_rate reg) ag))"
  using generated_report [of cfg now clock reading sm reg at_time task_id ag sys dp w] by auto

lemma alert_lines_ok: "\<exists>ls. alert_lines fmt (map (JObj \<circ> alert_of) rows) = Inr ls"
  by (induction rows) (auto simp: alert_of_def dgetd_def)

lemma dump_reads_back:
  assumes "parse_iso (JStr (isof (hr_time r))) = Inr (hr_time r)"
  shows "pulse_gate_payload fmt isof parse_iso now (report_dump isof r) =
    bindr (health_markdown fmt isof r) (\<lambda>md. Inr [(''body'', JStr md), (''phase'', JStr ''OPERATE'')])"
  using assms by (cases r) (simp add: pulse_gate_payload_def report_dump_def dgetd_def)

text \<open>A report passes to the gate unchanged: the payload made from the dump of a generated report is
  the rendering of exactly that report, and it can always be rendered.\<close>

theorem report_passes_gate:
  assumes "generate_health_report cfg now clock reading sm reg at_time task_id (Some ag) sys (Some dp) w = Some (w', Inr r)"
    and "parse_iso (JStr (isof at_time)) = Inr at_time"
  shows "\<exists>md. health_markdown fmt isof r = Inr md \<and>
    pulse_gate_payload fmt isof parse_iso now' (report_dump isof r) = Inr [(''body'', JStr md), (''phase'', JStr ''OPERATE'')]"
proof -
  let ?rows = "alert_rows cfg dp (reported_usage reg) (error_rate reg) ag"
  from generated_report [of cfg now clock reading sm reg at_time task_id ag sys dp w] assms(1)
  have r: "r = \<lparr>hr_task_id = JStr task_id, hr_status = JStr (if all_quiet cfg dp reg ag then ''HEALTHY'' else ''DEGRADED''), hr_agents = JObj ag,
      hr_system = JObj (case sys of Some m \<Rightarrow> m | None \<Rightarrow> get_system_metrics now reading), hr_depth = JInt dp,
      hr_alerts = JArr (map (JObj \<circ> alert_of) ?rows), hr_time = at_time\<rparr>" by auto
  obtain ls where "alert_lines fmt (map (JObj \<circ> alert_of) ?rows) = Inr ls" using alert_lines_ok by blast
  then have "\<exists>bl. alerts_block fmt (JArr (map (JObj \<circ> alert_of) ?rows)) = Inr bl" by (simp add: alerts_block_def)
  moreover have "\<exists>bl. agents_block fmt (JObj ag) = Inr bl" by (simp add: agents_block_def)
  ultimately have "\<exists>md. health_markdown fmt isof r = Inr md" unfolding r by (auto simp: health_markdown_def Let_def)
  then obtain md where "health_markdown fmt isof r = Inr md" by blast
  moreover have "hr_time r = at_time" by (simp add: r)
  ultimately show ?thesis using dump_reads_back [of parse_iso isof r] assms(2) by simp
qed

text \<open>Examples: a stalled and a running task of one agent, over empty metrics.\<close>

definition demo_tasks :: state_manager where
  "demo_tasks = \<lparr>sm_storage_type = ''json'', sm_base_filename = ''s'', sm_base_event_filename = ''e'', sm_tenant_id = ''t'', sm_filename = ''s'',
     sm_event_filename = ''e'', sm_data = [(''t1'', JObj [(''agent'', JStr ''Bob''), (''status'', JStr ''STALLED'')]), (''t2'', JObj [(''agent'', JStr ''Bob'')])]\<rparr>"

definition demo_registry :: metrics_registry where
  "demo_registry = \<lparr>mr_filename = ''m'', mr_agents = [], mr_tools = [], mr_tokens = []\<rparr>"

theorem agent_health_exact_witness:
  "\<exists>hs. check_agent_health (\<lambda>t. ''now'') demo_tasks = Some (Inr hs) \<and> map_option ah_status (dget hs ''Bob'') = Some ''degraded''"
proof -
  have tally: "tally_agents (\<lambda>t. ''now'') (get_all_tasks demo_tasks) [] = Some (Inr
    [(''Bob'', \<lparr>ah_status = ''healthy'', ah_count = 2, ah_stalled = 1, ah_last = JStr ''now''\<rparr>)])" by code_simp
  then obtain hs where hs: "check_agent_health (\<lambda>t. ''now'') demo_tasks = Some (Inr hs)" by (simp add: check_agent_health_def)
  have "agent_tasks ''Bob'' (get_all_tasks demo_tasks) = map snd (sm_data demo_tasks)" "length (filter is_stalled (map snd (sm_data demo_tasks))) = 1"
    by code_simp+
  then have "map_option ah_status (dget hs ''Bob'') = Some ''degraded''"
    using agent_health_exact [OF hs, of "''Bob''"] by (auto simp: demo_tasks_def split: option.splits)
  with hs show ?thesis by blast
qed

theorem report_passes_gate_witness:
  "\<exists>r md. health_markdown (\<lambda>x. []) (\<lambda>i. ''t'') r = Inr md \<and>
    pulse_gate_payload (\<lambda>x. []) (\<lambda>i. ''t'') (\<lambda>v. Inr 0) 1 (report_dump (\<lambda>i. ''t'') r) = Inr [(''body'', JStr md), (''phase'', JStr ''OPERATE'')]"
proof -
  from generated_report [of DEFAULT_THRESHOLDS "''now''" "\<lambda>t. ''now''" None demo_tasks demo_registry 0 "''t1''" "[]" None 3
      "\<lparr>pw_alerts = [], pw_metrics = [], pw_broken = False\<rparr>"] obtain w' r where
    "generate_health_report DEFAULT_THRESHOLDS ''now'' (\<lambda>t. ''now'') None demo_tasks demo_registry 0 ''t1'' (Some []) None (Some 3)
      \<lparr>pw_alerts = [], pw_metrics = [], pw_broken = False\<rparr> = Some (w', Inr r)" by blast
  from report_passes_gate [OF this, of "\<lambda>v. Inr 0" "\<lambda>i. ''t''" "\<lambda>x. []" 1] show ?thesis by blast
qed

end
