(* ===== verification/Prompt_Enhancer.thy ===== *)
theory Prompt_Enhancer
  imports Retrieval_Sync
begin

text \<open>
  The prompt enhancer of \<open>src/services/prompt_enhancer.py\<close>: the query for an agent, the retrieved
  context as a text block and its injection into a prompt, over the retrieval of \<open>Retrieval\<close>.
  \<open>order\<close> is the order in which the interpreter lists a set of file extensions, \<open>fmt\<close> Python's
  text of a float.
\<close>

section \<open>Contexts and queries\<close>

record enhancement_context =
  ec_agent_type :: string
  ec_task_id :: string
  ec_description :: string
  ec_phase :: "string option"
  ec_paths :: "string list"

record enhancement_result =
  er_prompt :: string
  er_sources_used :: nat
  er_sources :: "json list"
  er_latency_ms :: real
  er_cache_hit :: bool
  er_expanded :: bool

definition er_dict :: "enhancement_result \<Rightarrow> (string, json) dict" where
  "er_dict r = [(''enhanced_prompt_length'', JInt (int (length (er_prompt r)))), (''sources_used'', JInt (int (er_sources_used r))),
     (''latency_ms'', JFloat (er_latency_ms r)), (''cache_hit'', JBool (er_cache_hit r)), (''query_expanded'', JBool (er_expanded r))]"

definition phase_text :: "enhancement_context \<Rightarrow> string" where
  "phase_text cx = (case ec_phase cx of None \<Rightarrow> [] | Some p \<Rightarrow> p)"

definition AGENT_QUERY_PATTERNS :: "(string, enhancement_context \<Rightarrow> string) dict" where
  "AGENT_QUERY_PATTERNS = [
     (''ideator'', \<lambda>cx. ''similar tasks patterns '' @ ec_description cx),
     (''architect'', \<lambda>cx. ''ADR architecture decision records '' @ ec_description cx),
     (''builder'', \<lambda>cx. ''code patterns implementation '' @ phase_text cx @ '' '' @ ec_description cx),
     (''critic'', \<lambda>cx. ''review guidelines quality criteria '' @ ec_description cx),
     (''governor'', \<lambda>cx. ''governance policies compliance '' @ ec_description cx),
     (''pulse'', \<lambda>cx. ''health checks monitoring '' @ ec_description cx),
     (''finops'', \<lambda>cx. ''cost optimization budget '' @ ec_description cx),
     (''orchestrator'', \<lambda>cx. ''workflow patterns coordination '' @ ec_description cx)]"

definition AGENT_CORPUS_MAP :: "(string, string list) dict" where
  "AGENT_CORPUS_MAP = [(''ideator'', [''history'', ''plans'']), (''architect'', [''specs'', ''plans'', ''history'']),
     (''builder'', [''specs'', ''history'']), (''critic'', [''specs'', ''history'']), (''governor'', [''specs'']),
     (''pulse'', [''history'']), (''finops'', [''history'', ''plans'']), (''orchestrator'', [''plans'', ''history''])]"

definition TECH_DOMAIN_HINTS :: "string list" where
  "TECH_DOMAIN_HINTS = [''python'', ''api'', ''test'', ''database'', ''validation'', ''async'', ''error'', ''config'', ''schema'']"

definition extensions_of :: "string list \<Rightarrow> string list" where
  "extensions_of paths = map (\<lambda>p. last (split_on (CHR ''.'') p)) (filter (\<lambda>p. List.member p (CHR ''.'')) paths)"

definition build_agent_query :: "(string list \<Rightarrow> string list) \<Rightarrow> enhancement_context \<Rightarrow> string" where
  "build_agent_query order cx =
     (let base = (case dget AGENT_QUERY_PATTERNS (lower (ec_agent_type cx)) of
            Some pat \<Rightarrow> pat cx | None \<Rightarrow> ec_description cx @ '' documentation patterns'');
          with_phase = (if phase_text cx = [] then base else base @ '' '' @ phase_text cx);
          exts = remdups (extensions_of (ec_paths cx))
      in strip (if exts = [] then with_phase else with_phase @ '' '' @ join '' '' (order exts)))"

definition get_agent_corpus :: "string \<Rightarrow> string list" where
  "get_agent_corpus agent_type = dgetd AGENT_CORPUS_MAP (lower agent_type) [''specs'', ''plans'', ''history'']"

definition detect_domain_hints :: "string \<Rightarrow> string list option" where
  "detect_domain_hints text = (let hints = filter (contains (lower text)) TECH_DOMAIN_HINTS in if hints = [] then None else Some hints)"

section \<open>The context block\<close>

definition format_source :: "(real \<Rightarrow> string) \<Rightarrow> nat \<Rightarrow> nat \<Rightarrow> json \<Rightarrow> string list result" where
  "format_source fmt max_len i v = (case v of
      JObj d \<Rightarrow> (case (dgetd d ''snippet'' (JStr []), num_of (dgetd d ''relevance'' (JFloat 0))) of
          (JStr sn, Some rel) \<Rightarrow> Inr
            [''['' @ str_of_nat i @ ''] '' @ py_str fmt (dgetd d ''path'' (JStr ''unknown'')) @ '' (corpus: '' @
               py_str fmt (dgetd d ''corpus'' (JStr ''unknown'')) @ '', relevance: '' @ fmt_fixed 2 rel @ '')'',
             ''    '' @ (if max_len < length sn then take (max_len - 3) sn @ ''...'' else sn), []]
        | _ \<Rightarrow> Inl (Exn ''TypeError'' ''unsupported source''))
    | _ \<Rightarrow> Inl (attribute_error ''get''))"

fun format_sources :: "(real \<Rightarrow> string) \<Rightarrow> nat \<Rightarrow> nat \<Rightarrow> json list \<Rightarrow> string list result" where
  "format_sources fmt max_len i [] = Inr []"
| "format_sources fmt max_len i (v # vs) =
     bindr (format_source fmt max_len i v) (\<lambda>ls. bindr (format_sources fmt max_len (Suc i) vs) (\<lambda>more. Inr (ls @ more)))"

definition format_retrieved_context :: "(real \<Rightarrow> string) \<Rightarrow> json list \<Rightarrow> nat \<Rightarrow> nat \<Rightarrow> string result" where
  "format_retrieved_context fmt sources max_sources max_len = (if sources = [] then Inr []
     else bindr (format_sources fmt max_len 1 (take max_sources sources)) (\<lambda>ls. Inr (join [CHR 0x0A]
       ([[CHR 0x0A] @ ''--- Retrieved Context ---'' @ [CHR 0x0A]] @ ls @ [''--- End Retrieved Context ---'' @ [CHR 0x0A]]))))"

text \<open>Where the interleaved block goes: after the first blank line that is not the first line.\<close>

fun insert_index :: "nat \<Rightarrow> string list \<Rightarrow> nat" where
  "insert_index i [] = 0"
| "insert_index i (l # ls) = (if strip l = [] \<and> 0 < i then i + 1 else insert_index (Suc i) ls)"

definition inject :: "string \<Rightarrow> string \<Rightarrow> string \<Rightarrow> string" where
  "inject strategy block prompt =
     (if strategy = ''prepend'' then block @ [CHR 0x0A] @ prompt
      else if strategy = ''interleave'' then
        (let ls = split_on (CHR 0x0A) prompt; k = insert_index 0 ls in join [CHR 0x0A] (take k ls @ [block] @ drop k ls))
      else prompt @ [CHR 0x0A] @ block)"

section \<open>Enhancement\<close>

text \<open>The sources and the backend's name in a retrieval result.\<close>

definition result_sources :: "json \<Rightarrow> (json list \<times> bool) result" where
  "result_sources v = (case v of
      JObj d \<Rightarrow> (case (dgetd d ''sources'' (JArr []), dgetd d ''metrics'' (JObj [])) of
          (JArr sources, JObj m) \<Rightarrow> Inr (sources, dget m ''backend'' = Some (JStr ''cache''))
        | _ \<Rightarrow> Inl (attribute_error ''get''))
    | _ \<Rightarrow> Inl (attribute_error ''get''))"

definition enhance_prompt ::
  "'e retrieval_env \<Rightarrow> clock \<Rightarrow> (real \<Rightarrow> string) \<Rightarrow> (string list \<Rightarrow> string list) \<Rightarrow> real \<Rightarrow> string \<Rightarrow> string \<Rightarrow> enhancement_context \<Rightarrow> string
    \<Rightarrow> int \<Rightarrow> bool \<Rightarrow> bool \<Rightarrow> 'e retrieval \<Rightarrow> 'e retrieval \<times> enhancement_result result" where
  "enhance_prompt env ck fmt order latency_ms prompt agent_type cx0 strategy top_k expand use_cache g =
     (let cx = cx0\<lparr>ec_agent_type := agent_type\<rparr>; q = build_agent_query order cx;
          hints = (if expand then detect_domain_hints (q @ '' '' @ ec_description cx) else None) in
      case RetrievalQuery q (Some (get_agent_corpus agent_type)) top_k None of
        Inl e \<Rightarrow> (g, Inl e)
      | Inr request \<Rightarrow>
          (let (g', r) = retrieve_context env ck use_cache None request g;
               (sources, cache_hit) = (case bindr r result_sources of Inl e \<Rightarrow> ([], False) | Inr x \<Rightarrow> x)
           in (g', bindr (format_retrieved_context fmt sources (nat top_k) 400) (\<lambda>block. Inr
             \<lparr>er_prompt = (if sources = [] then prompt else inject strategy block prompt), er_sources_used = length sources,
              er_sources = sources, er_latency_ms = latency_ms, er_cache_hit = cache_hit, er_expanded = (expand \<and> hints \<noteq> None)\<rparr>))))"

definition get_enhancement_metrics :: "real \<Rightarrow> 'e retrieval \<Rightarrow> json" where
  "get_enhancement_metrics now g = JObj [(''retrieval'', retrieval_as_dict (rg_metrics g)),
     (''cache'', cache_metrics RETRIEVAL_CACHE_TTL now (rg_cache g))]"

definition clear_enhancement_cache :: "'e retrieval \<Rightarrow> 'e retrieval" where
  "clear_enhancement_cache g = g\<lparr>rg_cache := []\<rparr>"

text \<open>A context given as a dictionary: the keys that name fields are passed on beside the agent type,
  so that a dictionary with an agent type passes it twice. Texts for the text fields and a list
  of texts for the paths; other values are outside the model (the outer \<open>None\<close>).\<close>

definition context_text :: "(string, json) dict \<Rightarrow> string \<Rightarrow> string option" where
  "context_text d k = (case dgetd d k (JStr []) of JStr s \<Rightarrow> Some s | _ \<Rightarrow> None)"

definition context_of_dict :: "string \<Rightarrow> (string, json) dict \<Rightarrow> enhancement_context result option" where
  "context_of_dict agent_type d =
     (if dmem ''agent_type'' d then Some (Inl (Exn ''TypeError'' ''got multiple values for keyword argument agent_type''))
      else case (context_text d ''task_id'', context_text d ''task_description'',
          (case dgetd d ''current_phase'' JNull of JNull \<Rightarrow> Some None | JStr s \<Rightarrow> Some (Some s) | _ \<Rightarrow> None),
          (case dgetd d ''touched_paths'' (JArr []) of JArr xs \<Rightarrow> json_strings xs | _ \<Rightarrow> None)) of
        (Some i, Some t, Some p, Some paths) \<Rightarrow> Some (Inr \<lparr>ec_agent_type = agent_type, ec_task_id = i, ec_description = t, ec_phase = p, ec_paths = paths\<rparr>)
      | _ \<Rightarrow> None)"

text \<open>The functions for single agents: the agent, the injection strategy, and what the context holds.\<close>

definition agent_context :: "string \<Rightarrow> string \<Rightarrow> string option \<Rightarrow> string list option \<Rightarrow> enhancement_context" where
  "agent_context agent description ph paths = \<lparr>ec_agent_type = agent, ec_task_id = [], ec_description = description, ec_phase = ph,
     ec_paths = (case paths of None \<Rightarrow> [] | Some ps \<Rightarrow> ps)\<rparr>"

definition enhance_ideator_prompt where
  "enhance_ideator_prompt env ck fmt order latency_ms prompt description top_k expand use_cache =
     enhance_prompt env ck fmt order latency_ms prompt ''ideator'' (agent_context ''ideator'' description None None) ''prepend'' top_k expand use_cache"

definition enhance_architect_prompt where
  "enhance_architect_prompt env ck fmt order latency_ms prompt description paths top_k expand use_cache =
     enhance_prompt env ck fmt order latency_ms prompt ''architect'' (agent_context ''architect'' description None paths) ''prepend'' top_k expand use_cache"

definition enhance_builder_prompt where
  "enhance_builder_prompt env ck fmt order latency_ms prompt description ph paths top_k expand use_cache =
     enhance_prompt env ck fmt order latency_ms prompt ''builder'' (agent_context ''builder'' description ph paths) ''interleave'' top_k expand use_cache"

definition enhance_critic_prompt where
  "enhance_critic_prompt env ck fmt order latency_ms prompt description top_k expand use_cache =
     enhance_prompt env ck fmt order latency_ms prompt ''critic'' (agent_context ''critic'' description None None) ''prepend'' top_k expand use_cache"

section \<open>The request is valid\<close>

lemma strip_nonempty: "c \<in> set s \<Longrightarrow> \<not> is_space c \<Longrightarrow> strip s \<noteq> []"
proof -
  assume c: "c \<in> set s" "\<not> is_space c"
  then have "lstrip s \<noteq> []" by (auto simp: lstrip_def dropWhile_eq_Nil_conv)
  then have "hd (lstrip s) \<in> set (lstrip s)" "\<not> is_space (hd (lstrip s))" using lstrip_hd [of s] by auto
  then show "strip s \<noteq> []" by (auto simp: strip_def rstrip_def dropWhile_eq_Nil_conv)
qed

definition has_text :: "string \<Rightarrow> bool" where
  "has_text s \<longleftrightarrow> (\<exists>c \<in> set s. \<not> is_space c)"

lemma has_text_append: "has_text (s @ t) \<longleftrightarrow> has_text s \<or> has_text t"
  by (auto simp: has_text_def)

lemma has_text_Cons: "has_text (c # t) \<longleftrightarrow> \<not> is_space c \<or> has_text t"
  by (auto simp: has_text_def)

lemma pattern_has_text: "(k, pat) \<in> set AGENT_QUERY_PATTERNS \<Longrightarrow> has_text (pat cx)"
  by (auto simp: AGENT_QUERY_PATTERNS_def has_text_Cons is_space_def)

lemma agent_query_nonempty: "build_agent_query order cx \<noteq> []"
proof -
  let ?base = "case dget AGENT_QUERY_PATTERNS (lower (ec_agent_type cx)) of Some pat \<Rightarrow> pat cx | None \<Rightarrow> ec_description cx @ '' documentation patterns''"
  have "has_text ?base"
    by (cases "dget AGENT_QUERY_PATTERNS (lower (ec_agent_type cx))")
      (auto simp: has_text_append has_text_Cons is_space_def dest!: dget_in_set pattern_has_text)
  then have "\<exists>base. ?base = base \<and> has_text base" by blast
  then obtain base where base: "?base = base" "has_text base" by blast
  then have "strip (base @ x) \<noteq> []" for x unfolding has_text_def using strip_nonempty [of _ "base @ x"] by auto
  from this [of "[]"] this show ?thesis unfolding build_agent_query_def Let_def base(1) by simp
qed

lemma agent_corpus_ok: "\<exists>cs. normalize_corpus (get_agent_corpus a) [] = Inr cs"
proof -
  have "list_all (\<lambda>cs. case normalize_corpus cs [] of Inr _ \<Rightarrow> True | Inl _ \<Rightarrow> False)
      ([''specs'', ''plans'', ''history''] # map snd AGENT_CORPUS_MAP)" by code_simp
  moreover have "get_agent_corpus a \<in> set ([''specs'', ''plans'', ''history''] # map snd AGENT_CORPUS_MAP)"
    by (cases "dget AGENT_CORPUS_MAP (lower a)") (auto simp: get_agent_corpus_def dgetd_def dest!: dget_in_set intro: rev_image_eqI)
  ultimately have "case normalize_corpus (get_agent_corpus a) [] of Inr _ \<Rightarrow> True | Inl _ \<Rightarrow> False"
    unfolding list_all_iff by blast
  then show ?thesis by (simp split: sum.splits)
qed

lemma agent_request_ok:
  "1 \<le> k \<Longrightarrow> k \<le> 10 \<Longrightarrow> \<exists>r. RetrievalQuery (build_agent_query order cx) (Some (get_agent_corpus a)) k None = Inr r"
  using agent_query_nonempty [of order cx] agent_corpus_ok [of a] by (auto simp: RetrievalQuery_def)

section \<open>The prompt survives\<close>

text \<open>One text is inserted somewhere into the prompt.\<close>

definition inserted :: "string \<Rightarrow> string \<Rightarrow> bool" where
  "inserted prompt out \<longleftrightarrow> (\<exists>pre mid post. prompt = pre @ post \<and> out = pre @ mid @ post)"

lemma join_append: "xs \<noteq> [] \<Longrightarrow> ys \<noteq> [] \<Longrightarrow> join sep (xs @ ys) = join sep xs @ sep @ join sep ys"
proof (induction sep xs rule: join.induct)
  case (2 sep x)
  then show ?case by (cases ys) auto
qed auto

lemma split_on_nonempty [simp]: "split_on c s \<noteq> []"
  by (induction s) (auto split: list.splits)

lemma join_split_on: "join [c] (split_on c s) = s"
proof (induction s)
  case (Cons x s)
  show ?case
  proof (cases "split_on c s")
    case (Cons w ws)
    then show ?thesis using Cons.IH by (cases ws) auto
  qed simp
qed simp

lemma inject_inserted: "inserted prompt (inject strategy block prompt)"
proof -
  let ?nl = "[CHR 0x0A]" and ?ls = "split_on (CHR 0x0A) prompt"
  have mid: "inserted (join ?nl (xs @ ys)) (join ?nl (xs @ [block] @ ys))" if "xs @ ys \<noteq> []" for xs ys
  proof -
    consider "xs = []" | "ys = []" "xs \<noteq> []" | "xs \<noteq> []" "ys \<noteq> []" by blast
    then show ?thesis
    proof cases
      case 1
      with that have "join ?nl (xs @ [block] @ ys) = block @ ?nl @ join ?nl ys" using join_append [of "[block]" ys ?nl] by simp
      then show ?thesis using 1 unfolding inserted_def by (intro exI [of _ "[]"] exI [of _ "block @ ?nl"] exI [of _ "join ?nl ys"]) simp
    next
      case 2
      then show ?thesis using join_append [of xs "[block]" ?nl] unfolding inserted_def
        by (intro exI [of _ "join ?nl xs"] exI [of _ "?nl @ block"] exI [of _ "[]"]) simp
    next
      case 3
      then have "join ?nl (xs @ [block] @ ys) = join ?nl xs @ (?nl @ block) @ (?nl @ join ?nl ys)"
        using join_append [of xs "[block] @ ys" ?nl] join_append [of "[block]" ys ?nl] by simp
      moreover have "join ?nl (xs @ ys) = join ?nl xs @ (?nl @ join ?nl ys)" using 3 join_append [of xs ys ?nl] by simp
      ultimately show ?thesis unfolding inserted_def by blast
    qed
  qed
  have "inserted prompt (block @ ?nl @ prompt)" unfolding inserted_def
    by (intro exI [of _ "[]"] exI [of _ "block @ ?nl"] exI [of _ prompt]) simp
  moreover have "inserted prompt (prompt @ ?nl @ block)" unfolding inserted_def
    by (intro exI [of _ prompt] exI [of _ "?nl @ block"] exI [of _ "[]"]) simp
  moreover have "inserted prompt (join ?nl (take k ?ls @ [block] @ drop k ?ls))" for k
    using mid [of "take k ?ls" "drop k ?ls"] by (simp add: join_split_on)
  ultimately show ?thesis by (simp add: inject_def Let_def)
qed

section \<open>Enhancement returns\<close>

text \<open>The cache holds results of this configuration.\<close>

definition own_result :: "'e retrieval_env \<Rightarrow> json \<Rightarrow> bool" where
  "own_result env v \<longleftrightarrow> (\<exists>r sources lat gr. v = result_json r sources lat (backend_setting (re_setting env)) gr)"

definition cache_ok :: "'e retrieval_env \<Rightarrow> 'e retrieval \<Rightarrow> bool" where
  "cache_ok env g \<longleftrightarrow> (\<forall>k v ts. dget (rg_cache g) k = Some (v, ts) \<longrightarrow> own_result env v)"

lemma own_resultI [simp]: "own_result env (result_json r sources lat (backend_setting (re_setting env)) gr)"
  unfolding own_result_def by blast

lemma cache_ok_empty: "rg_cache g = [] \<Longrightarrow> cache_ok env g"
  by (simp add: cache_ok_def)

lemma retrieve_context_result:
  assumes "cache_ok env g" "retrieve_context env ck use_cache graph rq g = (g', res)"
  shows "cache_ok env g' \<and> (case res of Inl e \<Rightarrow> True | Inr v \<Rightarrow> own_result env v)"
proof -
  obtain h db e sr where rs: "retrieve_sources env rq (rg_hashes g, rg_db g, rg_world g) = ((h, db, e), sr)" by (metis prod_cases3 surj_pair)
  show ?thesis
  proof (cases sr)
    case (Inl x)
    then have "rg_cache g' = rg_cache g \<and> res = Inl x" using assms(2) rs by (auto simp: retrieve_context_def)
    then show ?thesis using assms(1) by (simp add: cache_ok_def)
  next
    case (Inr sources)
    let ?hit = "if use_cache then cache_get RETRIEVAL_CACHE_TTL (ck_get ck) (rq_query rq) (rq_corpus rq) (rq_top_k rq) (rg_cache g) else (rg_cache g, None)"
    obtain c cached where hit: "?hit = (c, cached)" by fastforce
    have sub: "dget c k = Some x \<Longrightarrow> dget (rg_cache g) k = Some x" for k x
      using hit by (auto simp: cache_get_def Let_def split: if_splits option.splits)
    have cache: "cached = Some v \<Longrightarrow> \<exists>k ts. dget (rg_cache g) k = Some (v, ts)" for v
      using hit by (auto simp: cache_get_def Let_def split: if_splits option.splits intro!: exI)
    show ?thesis
    proof (cases cached)
      case (Some v)
      have "g' = g\<lparr>rg_hashes := h, rg_db := db, rg_world := e, rg_cache := c, rg_metrics := record_query 0 True (rg_metrics g)\<rparr> \<and> res = Inr v"
        using assms(2) rs hit Inr Some by (cases use_cache) (auto simp: retrieve_context_def Let_def)
      then have g': "rg_cache g' = c" "res = Inr v" by simp_all
      have "own_result env v" using cache [OF Some] assms(1) unfolding cache_ok_def by blast
      moreover have "cache_ok env g'" using sub assms(1) unfolding cache_ok_def g' by blast
      ultimately show ?thesis using g' by simp
    next
      case None
      obtain v where v: "res = Inr v" "own_result env v"
        "rg_cache g' = (if use_cache then cache_set (ck_set ck) (rq_query rq) (rq_corpus rq) (rq_top_k rq) v c else c)"
        using assms(2) rs hit Inr None by (cases use_cache) (auto simp: retrieve_context_def Let_def)
      have "cache_ok env g'"
        unfolding cache_ok_def v(3)
      proof (intro allI impI)
        fix k w ts
        assume w: "dget (if use_cache then cache_set (ck_set ck) (rq_query rq) (rq_corpus rq) (rq_top_k rq) v c else c) k = Some (w, ts)"
        then have "w = v \<or> dget (rg_cache g) k = Some (w, ts)" using sub by (auto simp: cache_set_def split: if_splits)
        then show "own_result env w" using v(2) assms(1) unfolding cache_ok_def by blast
      qed
      then show ?thesis using v(1,2) by simp
    qed
  qed
qed

lemma format_sources_ok: "\<exists>ls. format_sources fmt m i (map source_json sources) = Inr ls"
proof (induction sources arbitrary: i)
  case (Cons so sources)
  have "\<exists>ls. format_source fmt m i (source_json so) = Inr ls" by (simp add: format_source_def source_json_def dgetd_def)
  with Cons.IH [of "Suc i"] show ?case by auto
qed simp

lemma result_json_sources:
  "result_sources (result_json r sources lat b gr) = Inr (map source_json sources, b = ''cache'')"
  by (auto simp: result_sources_def result_json_def dgetd_def)

text \<open>An enhanced prompt is the prompt with one text inserted. With a number of sources between one
  and ten and a cache of this configuration, enhancing returns for every agent, task and
  injection strategy, also when retrieval fails; the result is the prompt itself when there
  are no sources, otherwise the prompt around one inserted block, the cache stays of this
  configuration, and no result is ever marked as a cache hit.\<close>

theorem enhance_inserts:
  assumes "1 \<le> top_k" "top_k \<le> 10" "cache_ok env g" "backend_setting (re_setting env) \<noteq> ''cache''"
  shows "\<exists>g' r. enhance_prompt env ck fmt order lat prompt agent cx strategy top_k expand use_cache g = (g', Inr r) \<and>
    cache_ok env g' \<and> \<not> er_cache_hit r \<and> er_sources_used r = length (er_sources r) \<and>
    (if er_sources r = [] then er_prompt r = prompt else inserted prompt (er_prompt r))"
proof -
  let ?cx = "cx\<lparr>ec_agent_type := agent\<rparr>"
  obtain rq where rq: "RetrievalQuery (build_agent_query order ?cx) (Some (get_agent_corpus agent)) top_k None = Inr rq"
    using agent_request_ok [OF assms(1,2)] by blast
  obtain g' res where rc: "retrieve_context env ck use_cache None rq g = (g', res)" by fastforce
  from retrieve_context_result [OF assms(3) rc] have g': "cache_ok env g'" and own: "\<And>v. res = Inr v \<Longrightarrow> own_result env v"
    by (auto split: sum.splits)
  obtain sources where s: "(case bindr res result_sources of Inl e \<Rightarrow> ([], False) | Inr x \<Rightarrow> x) = (map source_json sources, False)"
  proof (cases res)
    case (Inl e)
    then show thesis using that [of "[]"] by simp
  next
    case (Inr v)
    from own [OF this] obtain r srcs l gr where "v = result_json r srcs l (backend_setting (re_setting env)) gr"
      by (auto simp: own_result_def)
    with Inr show thesis using that [of srcs] assms(4) by (simp add: result_json_sources)
  qed
  have "\<exists>block. format_retrieved_context fmt (map source_json sources) (nat top_k) 400 = Inr block"
    using format_sources_ok [of fmt 400 1 "take (nat top_k) sources"] unfolding format_retrieved_context_def take_map by auto
  then obtain block where "format_retrieved_context fmt (map source_json sources) (nat top_k) 400 = Inr block" by blast
  with rq rc s g' show ?thesis by (simp add: enhance_prompt_def Let_def inject_inserted)
qed

text \<open>The expansion flag and the hints change nothing but the mark in the result.\<close>

lemma expansion_no_effect:
  "map_prod id (map_sum id (\<lambda>r. r\<lparr>er_expanded := False\<rparr>))
     (enhance_prompt env ck fmt order lat prompt agent cx strategy top_k expand use_cache g) =
   map_prod id (map_sum id (\<lambda>r. r\<lparr>er_expanded := False\<rparr>))
     (enhance_prompt env ck fmt order lat prompt agent cx strategy top_k expand' use_cache g)"
  by (simp add: enhance_prompt_def Let_def bindr_def split: sum.splits prod.splits)

lemma agent_type_twice: "dmem ''agent_type'' d \<Longrightarrow> \<exists>e. context_of_dict agent d = Some (Inl e)"
  by (simp add: context_of_dict_def)

theorem enhance_inserts_witness:
  "\<exists>g' r. enhance_prompt demo_retrieval_env \<lparr>ck_get = 0, ck_start = 0, ck_end = 0, ck_set = 0\<rparr> (\<lambda>x. []) (\<lambda>ss. ss) 0 ''Write it.'' ''builder''
      (agent_context ''builder'' ''add auth'' None None) ''interleave'' 3 True True
      \<lparr>rg_cache = [], rg_metrics = RetrievalMetrics, rg_hashes = [], rg_db = empty_db, rg_world = 0\<rparr> = (g', Inr r) \<and> \<not> er_cache_hit r"
proof -
  let ?g = "\<lparr>rg_cache = [], rg_metrics = RetrievalMetrics, rg_hashes = [], rg_db = empty_db, rg_world = 0\<rparr> :: nat retrieval"
  have "re_setting demo_retrieval_env = ''vector''" by (simp add: demo_retrieval_env_def)
  moreover have "backend_setting ''vector'' \<noteq> ''cache''" by code_simp
  ultimately have set: "backend_setting (re_setting demo_retrieval_env) \<noteq> ''cache''" by simp
  have "cache_ok demo_retrieval_env ?g" by (rule cache_ok_empty) simp
  from enhance_inserts [OF _ _ this set, of 3] show ?thesis by fastforce
qed

end
