(* ===== verification/Phase_Api.thy ===== *)
theory Phase_Api
  imports Phase_Store
begin

text \<open>
  The two doors to the phase of a task: the HTTP routes of \<open>src/webapp/routers/tasks.py\<close>
  and the commands \<open>phase status\<close> and \<open>phase advance\<close> of \<open>src/cli/swarm_cli.py\<close>,
  and the durable transition of \<open>src/services/dbos_phase_workflow.py\<close>. The routes read
  and write the fields \<open>phase\<close> and \<open>history\<close> of the task, the commands the work
  item stored under its own key in the same task. \<open>fromiso\<close> and \<open>isof\<close> are the
  reading and writing of a timestamp, \<open>now\<close> the clock as a number, \<open>nowt\<close> its text.
\<close>

section \<open>Routes\<close>

definition http_error :: "nat \<Rightarrow> string \<Rightarrow> exn" where
  "http_error code detail = Exn ''HTTPException'' (str_of_nat code @ '': '' @ detail)"

definition in_quotes :: "string \<Rightarrow> string" where
  "in_quotes s = [CHR 0x27] @ s @ [CHR 0x27]"

definition not_found :: "string \<Rightarrow> exn" where
  "not_found task_id = http_error 404 (''Task '' @ in_quotes task_id @ '' not found'')"

text \<open>\<open>_sm\<close>: the module's manager, made on first use from the default files.\<close>

definition router_sm :: "state_manager option \<Rightarrow> fs \<Rightarrow> state_manager option" where
  "router_sm g w = (case g of Some sm \<Rightarrow> Some sm
     | None \<Rightarrow> StateManager ''json'' ''state.json'' ''events.jsonl'' None w)"

text \<open>\<open>v.get\<close>: only a dictionary has it.\<close>

definition as_dict :: "json \<Rightarrow> (string, json) dict result" where
  "as_dict v = (case v of JObj d \<Rightarrow> Inr d | _ \<Rightarrow> Inl (attribute_error ''get''))"

definition transition_view :: "(string, json) dict \<Rightarrow> (string, json) dict" where
  "transition_view h =
     [(''from_phase'', dgetd h ''from_phase'' JNull), (''to_phase'', dgetd h ''to_phase'' JNull),
      (''at'', dgetd h ''at'' JNull), (''reason'', dgetd h ''reason'' (JStr []))]"

definition history_view :: "json \<Rightarrow> json result" where
  "history_view v = bindr (as_dict v) (\<lambda>h.
     Inr (JObj (transition_view h @ [(''evidence_refs'', dgetd h ''evidence_refs'' (JArr []))])))"

definition history_of :: "(string, json) dict \<Rightarrow> json list result" where
  "history_of task = json_iter (dgetd task ''history'' (JArr []))"

definition serialize_task :: "json \<Rightarrow> (string, json) dict result" where
  "serialize_task v = bindr (as_dict v) (\<lambda>task. bindr (history_of task) (\<lambda>hs.
     bindr (map_result history_view hs) (\<lambda>views. Inr
       [(''id'', dgetd task ''id'' JNull), (''phase'', dgetd task ''phase'' JNull),
        (''status'', dgetd task ''status'' JNull), (''created_at'', dgetd task ''created_at'' JNull),
        (''updated_at'', dgetd task ''updated_at'' JNull), (''payload'', dgetd task ''payload'' (JObj [])),
        (''history'', JArr views)])))"

definition keep_field :: "string \<Rightarrow> string option \<Rightarrow> (string, json) dict list \<Rightarrow> (string, json) dict list" where
  "keep_field k want ts = (case want of None \<Rightarrow> ts
     | Some s \<Rightarrow> filter (\<lambda>t. py_eq (dgetd t k JNull) (JStr s)) ts)"

definition list_tasks :: "string option \<Rightarrow> string option \<Rightarrow> state_manager \<Rightarrow> json result" where
  "list_tasks status phase sm = bindr (map_result serialize_task (dvalues (get_all_tasks sm))) (\<lambda>ts.
     let res = keep_field ''phase'' phase (keep_field ''status'' status ts)
     in Inr (JObj [(''tasks'', JArr (map JObj res)), (''total'', JInt (int (length res)))]))"

text \<open>\<open>task is None\<close> is the test of every route: a stored \<open>null\<close> is not found too.\<close>

definition found_task :: "state_manager \<Rightarrow> string \<Rightarrow> json result" where
  "found_task sm task_id = (case get_task sm task_id of
     None \<Rightarrow> Inl (not_found task_id) | Some JNull \<Rightarrow> Inl (not_found task_id) | Some v \<Rightarrow> Inr v)"

definition route_get_task :: "string \<Rightarrow> state_manager \<Rightarrow> json result" where
  "route_get_task task_id sm = bindr (found_task sm task_id) (\<lambda>v. bindr (serialize_task v) (\<lambda>t. Inr (JObj t)))"

definition audit_entry :: "json \<Rightarrow> json list result" where
  "audit_entry v = bindr (as_dict v) (\<lambda>e.
     if py_eq (dgetd e ''action'' JNull) (JStr ''phase.transition'') \<or>
        py_eq (dgetd e ''action'' JNull) (JStr ''phase.transition.blocked'')
     then Inr [JObj [(''from_phase'', dgetd e ''from_phase'' JNull), (''to_phase'', dgetd e ''to_phase'' JNull),
       (''at'', dgetd e ''timestamp'' JNull), (''reason'', dgetd e ''reason'' (JStr [])), (''source'', JStr ''events.jsonl'')]]
     else Inr [])"

definition route_task_history :: "string \<Rightarrow> state_manager \<Rightarrow> fs \<Rightarrow> json result" where
  "route_task_history task_id sm w = bindr (found_task sm task_id) (\<lambda>v. bindr (as_dict v) (\<lambda>task.
     bindr (history_of task) (\<lambda>hs. bindr (map_result history_view hs) (\<lambda>views.
     bindr (get_task_history task_id sm w) (\<lambda>events. bindr (map_result audit_entry events) (\<lambda>entries.
       Inr (JObj [(''task_id'', JStr task_id), (''in_memory'', JArr views), (''audit_log'', JArr (concat entries))])))))))"

definition route_phase_status :: "string \<Rightarrow> state_manager \<Rightarrow> json result" where
  "route_phase_status task_id sm = bindr (found_task sm task_id) (\<lambda>v. bindr (as_dict v) (\<lambda>task.
     bindr (history_of task) (\<lambda>hs.
     bindr (map_result (\<lambda>v. bindr (as_dict v) (\<lambda>h. Inr (JObj (transition_view h)))) hs) (\<lambda>views.
       Inr (JObj [(''task_id'', JStr task_id), (''current_phase'', dgetd task ''phase'' (JStr ''PLAN'')),
                  (''history'', JArr views)])))))"

section \<open>Advancing over HTTP\<close>

text \<open>\<open>Phase[name]\<close>: the member of that name (every name is its value).\<close>

definition phase_of_name :: "string \<Rightarrow> phase option" where
  "phase_of_name s = find (\<lambda>p. phase_value p = s) PHASE_ORDER"

definition unknown_phase :: "string \<Rightarrow> exn" where
  "unknown_phase target_phase = http_error 400 (''Unknown phase '' @ in_quotes target_phase @ ''. Valid phases: ['' @
     join '', '' (map (\<lambda>p. in_quotes (phase_value p)) PHASE_ORDER) @ '']'')"

definition entry_time :: "(string \<Rightarrow> int option) \<Rightarrow> int \<Rightarrow> (string, json) dict \<Rightarrow> int result" where
  "entry_time fromiso now h = (let v = dgetd h ''at'' JNull in
     if \<not> truthy v then Inr now
     else case v of
       JStr s \<Rightarrow> (case fromiso s of Some t \<Rightarrow> Inr t | None \<Rightarrow> Inl (Exn ''ValueError'' ''isoformat''))
     | _ \<Rightarrow> Inl (Exn ''TypeError'' ''fromisoformat''))"

definition rebuild_entry :: "(string \<Rightarrow> int option) \<Rightarrow> int \<Rightarrow> json \<Rightarrow> phase_history_entry result" where
  "rebuild_entry fromiso now v = bindr (as_dict v) (\<lambda>h.
     bindr (if truthy (dgetd h ''from_phase'' (JStr [])) then bindr (json_phase (dgetd h ''from_phase'' JNull)) (\<lambda>p. Inr (Some p))
            else Inr None) (\<lambda>frm.
     bindr (json_phase (dgetd h ''to_phase'' (JStr ''PLAN''))) (\<lambda>to_p.
     bindr (entry_time fromiso now h) (\<lambda>t.
     (case (dgetd h ''reason'' (JStr []), dgetd h ''evidence_refs'' (JArr [])) of
        (JStr r, JArr xs) \<Rightarrow> (case json_strings xs of
            Some es \<Rightarrow> Inr \<lparr>he_from = frm, he_to = to_p, he_at = t, he_reason = r, he_evidence = es\<rparr>
          | None \<Rightarrow> Inl (validation_error ''evidence_refs''))
      | _ \<Rightarrow> Inl (validation_error ''PhaseHistoryEntry''))))))"

definition rebuild_item :: "(string \<Rightarrow> int option) \<Rightarrow> int \<Rightarrow> string \<Rightarrow> (string, json) dict \<Rightarrow> work_item result" where
  "rebuild_item fromiso now task_id task =
     bindr (json_phase (dgetd task ''phase'' (JStr ''PLAN''))) (\<lambda>p.
     bindr (history_of task) (\<lambda>hs. bindr (map_result (rebuild_entry fromiso now) hs) (\<lambda>history.
     (case dgetd task ''payload'' (JObj []) of
        JObj pl \<Rightarrow> WorkItem task_id p pl history
      | _ \<Rightarrow> Inl (validation_error ''payload'')))))"

definition updated_task ::
  "(int \<Rightarrow> string) \<Rightarrow> string \<Rightarrow> advance_report \<Rightarrow> work_item \<Rightarrow> (string, json) dict \<Rightarrow> (string, json) dict" where
  "updated_task isof nowt rep item task =
     dset ''history'' (JArr (map (dump_entry isof) (wi_history item)))
       (dset ''updated_at'' (JStr nowt) (dset ''phase'' (JStr (phase_value (ar_to rep))) task))"

definition advance_response :: "string \<Rightarrow> advance_report \<Rightarrow> json" where
  "advance_response task_id rep = JObj
     [(''task_id'', JStr task_id), (''from_phase'', JStr (phase_value (ar_from rep))),
      (''to_phase'', JStr (phase_value (ar_to rep))), (''advanced'', JBool (ar_advanced rep)),
      (''reason'', JStr (ar_reason rep)), (''gates'', JArr (map gate_json (ar_gates rep)))]"

text \<open>\<open>_pc\<close>: the controller over the module's manager; no gate is given to it or registered.\<close>

definition router_pc :: "state_manager \<Rightarrow> phase_controller" where
  "router_pc sm = \<lparr>pc_gates = [], pc_sm = Some sm\<rparr>"

definition advance_phase ::
  "(string \<Rightarrow> int option) \<Rightarrow> (int \<Rightarrow> string) \<Rightarrow> fault \<Rightarrow> string \<Rightarrow> int \<Rightarrow> string \<Rightarrow> string \<Rightarrow> string \<Rightarrow> string
    \<Rightarrow> state_manager \<Rightarrow> fs \<Rightarrow> state_manager \<times> fs \<times> json result" where
  "advance_phase fromiso isof flt tmp now nowt task_id target_phase reason sm w =
     (case found_task sm task_id of
        Inl e \<Rightarrow> (sm, w, Inl e)
      | Inr v \<Rightarrow>
     (case phase_of_name (map upper_char target_phase) of
        None \<Rightarrow> (sm, w, Inl (unknown_phase target_phase))
      | Some target \<Rightarrow>
     (case bindr (as_dict v) (\<lambda>task. bindr (rebuild_item fromiso now task_id task) (\<lambda>item. Inr (task, item))) of
        Inl e \<Rightarrow> (sm, w, Inl e)
      | Inr (task, item) \<Rightarrow>
     (case advance (router_pc sm) now nowt target reason False item w of
        (item', w1, Inl e) \<Rightarrow> (sm, w1, Inl e)
      | (item', w1, Inr rep) \<Rightarrow>
     (case set_task flt tmp nowt task_id (updated_task isof nowt rep item' task) [] sm w1 of
        (sm', w2, Inl e) \<Rightarrow> (sm', w2, Inl e)
      | (sm', w2, Inr _) \<Rightarrow> (sm', w2, Inr (advance_response task_id rep)))))))"

section \<open>Commands\<close>

definition entry_line :: "(int \<Rightarrow> string) \<Rightarrow> phase_history_entry \<Rightarrow> string" where
  "entry_line isof h = ''  '' @ isof (he_at h) @ ''  '' @
     (case he_from h of None \<Rightarrow> ''-'' | Some p \<Rightarrow> phase_value p) @ '' -> '' @ phase_value (he_to h) @ ''  ('' @
     (if he_reason h = [] then ''-'' else he_reason h) @ '') evidence=['' @
     (if he_evidence h = [] then ''-'' else join '', '' (he_evidence h)) @ '']''"

text \<open>A command gives its exit code and the lines it prints.\<close>

definition cmd_phase_status ::
  "(json \<Rightarrow> int option) \<Rightarrow> (int \<Rightarrow> string) \<Rightarrow> string \<Rightarrow> state_manager \<Rightarrow> (nat \<times> string list) result" where
  "cmd_phase_status parse_at isof task_id sm = bindr (load_work_item parse_at sm task_id) (\<lambda>found.
     case found of
       None \<Rightarrow> Inr (1, [''No work item found for task_id='' @ repr_str task_id @ ''.''])
     | Some item \<Rightarrow> Inr (0, [''Task: '' @ wi_id item, ''Current phase: '' @ phase_value (wi_phase item)] @
         (if wi_history item = [] then [''History: (none - item still at starting phase)'']
          else ''History:'' # map (entry_line isof) (wi_history item))))"

definition gate_mark :: "gate_result \<Rightarrow> string" where
  "gate_mark g = (if gr_passed g then ''PASS '' else if gr_blocking g then ''BLOCK'' else ''warn '')"

definition report_lines :: "advance_report \<Rightarrow> string list" where
  "report_lines rep =
     [''advanced='' @ (if ar_advanced rep then ''True'' else ''False'') @ ''  '' @ phase_value (ar_from rep) @ '' -> '' @ phase_value (ar_to rep)] @
     (if ar_reason rep = [] then [] else [''reason: '' @ ar_reason rep]) @
     map (\<lambda>g. ''  ['' @ gate_mark g @ ''] '' @ gr_gate g @ '': '' @ (if gr_message g = [] then ''-'' else gr_message g)) (ar_gates rep)"

definition cli_gates :: "(real \<Rightarrow> string) \<Rightarrow> bool \<Rightarrow> int \<Rightarrow> quality_gate list" where
  "cli_gates frepr no_gates min_bytes = (if no_gates then [] else [ContentGuardGate frepr min_bytes])"

definition cmd_phase_advance ::
  "(real \<Rightarrow> string) \<Rightarrow> (json \<Rightarrow> int option) \<Rightarrow> (int \<Rightarrow> string) \<Rightarrow> fault \<Rightarrow> string \<Rightarrow> int \<Rightarrow> string \<Rightarrow> string \<Rightarrow> string
    \<Rightarrow> string \<Rightarrow> bool \<Rightarrow> bool \<Rightarrow> int \<Rightarrow> state_manager \<Rightarrow> fs \<Rightarrow> state_manager \<times> fs \<times> (nat \<times> string list) result" where
  "cmd_phase_advance frepr parse_at isof flt tmp now nowt task_id target_arg reason force no_gates min_bytes sm w =
     (case phase_of_value (map upper_char target_arg) of
        Inl e \<Rightarrow> (sm, w, Inr (2, [''Invalid target phase '' @ repr_str target_arg @ ''. Valid: '' @ join '', '' (map phase_value PHASE_ORDER)]))
      | Inr target \<Rightarrow>
     (case ensure_work_item parse_at isof flt tmp nowt task_id PLAN sm w of
        (sm1, w1, Inl e) \<Rightarrow> (sm1, w1, Inl e)
      | (sm1, w1, Inr item) \<Rightarrow>
     (case advance \<lparr>pc_gates = cli_gates frepr no_gates min_bytes, pc_sm = Some sm1\<rparr> now nowt target reason force item w1 of
        (item', w2, Inl e) \<Rightarrow> (sm1, w2, Inr (1, [''Disallowed transition: '' @ exn_msg e]))
      | (item', w2, Inr rep) \<Rightarrow>
     (case save_work_item isof flt tmp nowt ''cli'' item' sm1 w2 of
        (sm2, w3, Inl e) \<Rightarrow> (sm2, w3, Inl e)
      | (sm2, w3, Inr _) \<Rightarrow> (sm2, w3, Inr (if ar_advanced rep then 0 else 1, report_lines rep))))))"

section \<open>The durable transition\<close>

definition plain_advance_phase :: "int \<Rightarrow> string \<Rightarrow> phase \<Rightarrow> phase \<Rightarrow> fs \<Rightarrow> json result" where
  "plain_advance_phase now item_id target current w =
     bindr (WorkItem item_id current [] []) (\<lambda>item.
     bindr (snd (snd (advance \<lparr>pc_gates = [], pc_sm = None\<rparr> now [] target [] False item w))) (\<lambda>rep. Inr (JObj
       [(''item_id'', JStr item_id), (''from_phase'', JStr (phase_value (ar_from rep))),
        (''to_phase'', JStr (phase_value (ar_to rep))), (''advanced'', JBool (ar_advanced rep)),
        (''reason'', JStr (ar_reason rep)),
        (''gates'', JArr (map (\<lambda>g. JObj [(''gate'', JStr (gr_gate g)), (''passed'', JBool (gr_passed g)),
           (''blocking'', JBool (gr_blocking g))]) (ar_gates rep)))])))"

text \<open>The durable workflow, where the DBOS package made one, is the parameter \<open>durable\<close>.\<close>

definition transition_workflow ::
  "bool \<Rightarrow> (string \<Rightarrow> phase \<Rightarrow> phase \<Rightarrow> json result) option \<Rightarrow> int \<Rightarrow> string \<Rightarrow> phase \<Rightarrow> phase \<Rightarrow> fs \<Rightarrow> json result" where
  "transition_workflow dbos_enabled durable now item_id target current w =
     (case (if dbos_enabled then durable else None) of
        Some run \<Rightarrow> (case run item_id target current of Inr r \<Rightarrow> Inr r | Inl e \<Rightarrow> plain_advance_phase now item_id target current w)
      | None \<Rightarrow> plain_advance_phase now item_id target current w)"

text \<open>\<open>_get_state_manager\<close>: the files of the arguments, or the defaults.\<close>

definition cli_manager :: "string option \<Rightarrow> string option \<Rightarrow> fs \<Rightarrow> state_manager option" where
  "cli_manager state_file events_file w =
     (let given = (\<lambda>x def. case x of Some s \<Rightarrow> if s = [] then def else s | None \<Rightarrow> def)
      in StateManager ''json'' (given state_file ''state.json'') (given events_file ''events.jsonl'') None w)"

section \<open>What an advance over HTTP does\<close>

lemma history_of_dict [simp]: "history_of (dset ''history'' (JArr hs) d) = Inr hs"
  by (simp add: history_of_def dgetd_def json_iter_def)

lemma emit_event_fresh [simp]:
  "fresh_tmp tmp f (emit_event pc ts item a p q r g w) = fresh_tmp tmp f w"
  "read_on_disk f (emit_event pc ts item a p q r g w) = read_on_disk f w"
  by (simp_all add: fresh_tmp_def emit_event_def split: option.splits)

text \<open>A write that succeeds: the memory and the disk hold the new task.\<close>

lemma set_task_done:
  assumes "sm_storage_type sm = ''json''" "fresh_tmp tmp (sm_filename sm) w"
    "read_on_disk (sm_filename sm) w = Inr d" "task_dict (get_task sm k) \<noteq> None \<or> get_task sm k = None"
  shows "\<exists>w'. set_task NoFault tmp now k v agent sm w = (sm\<lparr>sm_data := dset k (JObj v) d\<rparr>, w', Inr ()) \<and>
     read_on_disk (sm_filename sm) w' = Inr (dset k (JObj v) d)"
proof -
  obtain old where o: "dgetd (sm_data sm) k (JObj []) = JObj old"
    using assms(4) by (auto simp: task_dict_def get_task_def dgetd_def split: option.splits json.splits)
  obtain w1 r where p: "locked_persist_json NoFault tmp (dset k (JObj v)) sm w = (w1, r)" by fastforce
  with locked_persist_ok [OF assms(2,3) refl, of "dset k (JObj v)"]
  have "r = Inr (dset k (JObj v) d)" "read_on_disk (sm_filename sm) w1 = Inr (dset k (JObj v) d)" by auto
  with p o show ?thesis by (simp add: set_task_json [OF assms(1)])
qed

definition http_report :: "phase \<Rightarrow> string \<Rightarrow> int \<Rightarrow> work_item \<Rightarrow> advance_report" where
  "http_report t reason now item = \<lparr>ar_item = record_transition now t reason [] item\<lparr>wi_phase := t\<rparr>,
     ar_from = wi_phase item, ar_to = t, ar_advanced = True, ar_gates = [], ar_reason = reason\<rparr>"

lemma router_advance:
  "advance (router_pc sm) now nowt t reason False item w =
     (if can_advance (wi_phase item) t
      then (record_transition now t reason [] item\<lparr>wi_phase := t\<rparr>,
            emit_event (router_pc sm) nowt (record_transition now t reason [] item\<lparr>wi_phase := t\<rparr>)
              ''phase.transition'' (wi_phase item) t reason [] w,
            Inr (http_report t reason now item))
      else (item, w, Inl (Exn ''PhaseTransitionError''
              (''disallowed transition '' @ phase_value (wi_phase item) @ '' to '' @ phase_value t))))"
  by (simp add: advance_def router_pc_def can_advance_def http_report_def Let_def)

lemma found_task_get: "found_task sm k = Inr v \<Longrightarrow> get_task sm k = Some v"
  by (auto simp: found_task_def split: option.splits json.splits)

lemma advance_phase_done:
  assumes "sm_storage_type sm = ''json''" "fresh_tmp tmp (sm_filename sm) w" "read_on_disk (sm_filename sm) w = Inr d"
    and "found_task sm task_id = Inr (JObj task)" "phase_of_name (map upper_char target) = Some t"
    and "rebuild_item fromiso now task_id task = Inr item" "can_advance (wi_phase item) t"
  shows "\<exists>w'. advance_phase fromiso isof NoFault tmp now nowt task_id target reason sm w =
     (sm\<lparr>sm_data := dset task_id (JObj (updated_task isof nowt (http_report t reason now item) (ar_item (http_report t reason now item)) task)) d\<rparr>,
      w', Inr (advance_response task_id (http_report t reason now item))) \<and>
     read_on_disk (sm_filename sm) w' = Inr (dset task_id (JObj (updated_task isof nowt (http_report t reason now item) (ar_item (http_report t reason now item)) task)) d)"
proof -
  have "task_dict (get_task sm task_id) \<noteq> None" using found_task_get [OF assms(4)] by (simp add: task_dict_def)
  then show ?thesis
    using assms set_task_done [OF assms(1), where tmp = tmp and d = d and k = task_id and now = nowt and agent = "[]"
        and v = "updated_task isof nowt (http_report t reason now item) (ar_item (http_report t reason now item)) task"
        and w = "emit_event (router_pc sm) nowt (record_transition now t reason [] item\<lparr>wi_phase := t\<rparr>) ''phase.transition'' (wi_phase item) t reason [] w"]
    by (auto simp: advance_phase_def as_dict_def router_advance http_report_def)
qed

lemma updated_task_fields:
  "dget (updated_task isof nowt rep item task) k =
     (if k = ''history'' then Some (JArr (map (dump_entry isof) (wi_history item)))
      else if k = ''updated_at'' then Some (JStr nowt)
      else if k = ''phase'' then Some (JStr (phase_value (ar_to rep))) else dget task k)"
  by (simp add: updated_task_def)

text \<open>C8: an advance over HTTP passes no gate. For a task the manager holds as a work item, the
  route raises on a transition that is not allowed and then changes nothing; on every allowed
  one it reports an advance with an empty list of gates, whatever the payload, and the task in memory and
  on disk is in the target phase with one more history entry and its other fields as they were.\<close>

theorem http_advance_ungated:
  assumes "sm_storage_type sm = ''json''" and "fresh_tmp tmp (sm_filename sm) w" and "read_on_disk (sm_filename sm) w = Inr d"
    and "found_task sm task_id = Inr (JObj task)" and "phase_of_name (map upper_char target) = Some t"
    and "rebuild_item fromiso now task_id task = Inr item"
    and "advance_phase fromiso isof NoFault tmp now nowt task_id target reason sm w = (sm', w', res)"
  shows "if can_advance (wi_phase item) t
    then \<exists>rep task'. res = Inr (advance_response task_id rep) \<and> ar_advanced rep \<and> ar_gates rep = [] \<and> ar_to rep = t \<and>
      get_task sm' task_id = Some (JObj task') \<and> on_disk (sm_filename sm) w' task_id = Some (JObj task') \<and>
      dget task' ''phase'' = Some (JStr (phase_value t)) \<and>
      dget task' ''history'' = Some (JArr (map (dump_entry isof) (wi_history item @
        [\<lparr>he_from = Some (wi_phase item), he_to = t, he_at = now, he_reason = reason, he_evidence = []\<rparr>]))) \<and>
      (\<forall>k. k \<noteq> ''phase'' \<longrightarrow> k \<noteq> ''history'' \<longrightarrow> k \<noteq> ''updated_at'' \<longrightarrow> dget task' k = dget task k)
    else (\<exists>m. res = Inl (Exn ''PhaseTransitionError'' m)) \<and> sm' = sm \<and> w' = w"
proof (cases "can_advance (wi_phase item) t")
  case True
  let ?rep = "http_report t reason now item"
  let ?task = "updated_task isof nowt ?rep (ar_item ?rep) task"
  from advance_phase_done [OF assms(1-6) True, where isof = isof and nowt = nowt and reason = reason] assms(7)
  have "sm' = sm\<lparr>sm_data := dset task_id (JObj ?task) d\<rparr>" "res = Inr (advance_response task_id ?rep)"
    "read_on_disk (sm_filename sm) w' = Inr (dset task_id (JObj ?task) d)" by auto
  with True show ?thesis
    by (intro if_P [THEN iffD2] exI [of _ ?rep] exI [of _ ?task])
      (auto simp: updated_task_fields get_task_def on_disk_def http_report_def record_transition_def)
next
  case False
  with assms show ?thesis by (auto simp: advance_phase_def as_dict_def router_advance)
qed

section \<open>Two ledgers\<close>

lemma persist_result: "locked_persist_json flt tmp mutate sm w = (w', Inr m) \<Longrightarrow> \<exists>d. m = mutate d"
  by (auto simp: locked_persist_json_def Let_def split: prod.splits sum.splits)

lemma set_task_reads:
  assumes "sm_storage_type sm = ''json''" "set_task flt tmp now k v agent sm w = (sm', w', r)"
  shows "sm' = sm \<and> (\<exists>e. r = Inl e) \<or> get_task sm' k = Some (JObj v)"
proof -
  obtain w1 r1 where p: "locked_persist_json flt tmp (dset k (JObj v)) sm w = (w1, r1)" by fastforce
  show ?thesis
  proof (cases r1)
    case (Inl e)
    with p assms(2) show ?thesis by (auto simp: set_task_json [OF assms(1)])
  next
    case (Inr m)
    with p persist_result obtain d where "m = dset k (JObj v) d" by blast
    with p Inr assms(2) show ?thesis by (auto simp: set_task_json [OF assms(1)] get_task_def split: json.splits)
  qed
qed

lemma load_same_key:
  assumes "get_task sm k = Some (JObj d)" "get_task sm' k = Some (JObj d')" "dget d' WORK_ITEM_KEY = dget d WORK_ITEM_KEY"
  shows "load_work_item parse_at sm' k = load_work_item parse_at sm k"
  using assms by (simp add: load_work_item_def dgetd_def)

lemma http_keeps_item:
  assumes "sm_storage_type sm = ''json''"
    and "advance_phase fromiso isof flt tmp now nowt task_id target reason sm w = (sm', w', res)"
  shows "load_work_item parse_at sm' task_id = load_work_item parse_at sm task_id"
proof (cases "sm' = sm")
  case False
  then obtain task rep item w1 r1 where t: "found_task sm task_id = Inr (JObj task)"
    "set_task flt tmp nowt task_id (updated_task isof nowt rep item task) [] sm w1 = (sm', w', r1)"
    using assms(2) by (auto simp: advance_phase_def as_dict_def bindr_Inr_iff split: sum.splits option.splits prod.splits json.splits)
  from set_task_reads [OF assms(1) t(2)] False have "get_task sm' task_id = Some (JObj (updated_task isof nowt rep item task))" by auto
  from load_same_key [OF found_task_get [OF t(1)] this] show ?thesis
    by (simp add: updated_task_fields WORK_ITEM_KEY_def)
qed simp

lemma save_writes:
  assumes "sm_storage_type sm = ''json''" "get_task sm (wi_id item) = Some (JObj task)"
    "save_work_item isof flt tmp now agent item sm w = (sm', w', Inr ())"
  shows "get_task sm' (wi_id item) = Some (JObj (with_item isof item task))"
proof (cases task)
  case Nil
  with assms(2,3) have "set_task flt tmp now (wi_id item) (with_item isof item []) agent sm w = (sm', w', Inr ())"
    by (simp add: save_work_item_def)
  from set_task_reads [OF assms(1) this] Nil show ?thesis by auto
next
  case (Cons kv d)
  with assms(2,3) have s: "set_task flt tmp now (wi_id item) (with_item isof item task) agent
      (sm\<lparr>sm_data := dset (wi_id item) (JObj (with_item isof item task)) (sm_data sm)\<rparr>) w = (sm', w', Inr ())"
    by (simp add: save_work_item_def Let_def)
  from set_task_reads [OF _ s] assms(1) show ?thesis by auto
qed

lemma with_item_fields:
  "dget (with_item isof item d) k = (if k = ''phase'' then Some (JStr (phase_value (wi_phase item)))
     else if k = WORK_ITEM_KEY then Some (JObj (serialize_item isof item)) else dget d k)"
  by (simp add: with_item_def)

text \<open>The HTTP routes and the commands keep two ledgers in one task. Whatever an advance
  over HTTP does, the work item the commands load is the one they loaded before; a save of
  a work item sets the phase the routes show and leaves the history they show as it was.\<close>

theorem separate_ledgers:
  assumes "sm_storage_type sm = ''json''" and "get_task sm (wi_id item) = Some (JObj task)"
    and "advance_phase fromiso isof flt tmp now nowt (wi_id item) target reason sm w = (sm1, w1, res)"
    and "save_work_item isof flt tmp nowt agent item sm w = (sm2, w2, Inr ())"
  shows "load_work_item parse_at sm1 (wi_id item) = load_work_item parse_at sm (wi_id item) \<and>
    (\<exists>task2. get_task sm2 (wi_id item) = Some (JObj task2) \<and> history_of task2 = history_of task \<and>
       dget task2 ''phase'' = Some (JStr (phase_value (wi_phase item))))"
  using http_keeps_item [OF assms(1,3)] save_writes [OF assms(1,2,4)]
  by (auto simp: with_item_fields history_of_def dgetd_def WORK_ITEM_KEY_def)

section \<open>The command\<close>

definition cli_blocked :: "(real \<Rightarrow> string) \<Rightarrow> bool \<Rightarrow> int \<Rightarrow> work_item \<Rightarrow> phase \<Rightarrow> bool" where
  "cli_blocked frepr no_gates min_bytes item t \<longleftrightarrow> \<not> no_gates \<and> (t = REVIEW \<or> t = GOVERN) \<and>
     is_low_value_content (Some (py_str frepr (dgetd (wi_payload item) ''body'' (JStr [])))) min_bytes"

lemma cli_results:
  "filter (\<lambda>r. gr_blocking r \<and> \<not> gr_passed r) (evaluate_gates (cli_gates frepr no_gates m) item t) = [] \<longleftrightarrow>
     \<not> cli_blocked frepr no_gates m item t"
  by (auto simp: cli_gates_def cli_blocked_def ContentGuardGate_def should_run_def Let_def)

definition cli_evidence :: "(real \<Rightarrow> string) \<Rightarrow> bool \<Rightarrow> int \<Rightarrow> work_item \<Rightarrow> phase \<Rightarrow> string list" where
  "cli_evidence frepr no_gates m item t = map gr_gate (filter gr_passed (evaluate_gates (cli_gates frepr no_gates m) item t))"

lemma cli_advance:
  "\<exists>w' r. advance \<lparr>pc_gates = cli_gates frepr no_gates m, pc_sm = Some sm\<rparr> now nowt t reason force item w =
     (if force \<or> can_advance (wi_phase item) t \<and> \<not> cli_blocked frepr no_gates m item t
      then record_transition now t reason (cli_evidence frepr no_gates m item t) item\<lparr>wi_phase := t\<rparr> else item, w', r) \<and>
     docs w' = docs w \<and>
     (if \<not> force \<and> \<not> can_advance (wi_phase item) t then \<exists>e. r = Inl e
      else \<exists>rep. r = Inr rep \<and> (ar_advanced rep \<longleftrightarrow> force \<or> \<not> cli_blocked frepr no_gates m item t))"
  using cli_results [of frepr no_gates m item t]
  by (auto simp: advance_def Let_def can_advance_def cli_evidence_def)

lemma load_id: "load_work_item parse_at sm k = Inr (Some item) \<Longrightarrow>
    wi_id item = k \<and> 1 \<le> length k \<and> length k \<le> 80 \<and> (\<exists>d. get_task sm k = Some (JObj d))"
  by (auto simp: load_work_item_def deserialize_item_def bindr_Inr_iff WorkItem_def Suc_le_eq split: option.splits json.splits if_splits)

lemma save_done:
  assumes "sm_storage_type sm = ''json''" "fresh_tmp tmp (sm_filename sm) w" "read_on_disk (sm_filename sm) w = Inr d"
    "get_task sm (wi_id item) = Some (JObj task)"
  shows "\<exists>sm' w'. save_work_item isof NoFault tmp now agent item sm w = (sm', w', Inr ())"
proof (cases task)
  case Nil
  with set_task_done [OF assms(1-3), where k = "wi_id item"] assms(4) show ?thesis
    by (fastforce simp: save_work_item_def task_dict_def)
next
  case (Cons kv e)
  let ?sm = "sm\<lparr>sm_data := dset (wi_id item) (JObj (with_item isof item task)) (sm_data sm)\<rparr>"
  from set_task_done [of ?sm tmp w d "wi_id item" now "with_item isof item task" agent] assms Cons show ?thesis
    by (auto simp: save_work_item_def Let_def task_dict_def get_task_def)
qed

text \<open>The command on a stored work item, on every branch that names a phase.\<close>

lemma cli_advance_runs:
  assumes "sm_storage_type sm = ''json''" "fresh_tmp tmp (sm_filename sm) w" "read_on_disk (sm_filename sm) w = Inr d"
    and "load_work_item parse_at sm task_id = Inr (Some item)" "get_task sm task_id = Some (JObj task)"
    and "phase_of_value (map upper_char arg) = Inr t"
    and "go = (force \<or> can_advance (wi_phase item) t \<and> \<not> cli_blocked frepr no_gates m item t)"
    and "item' = (if go then record_transition now t reason (cli_evidence frepr no_gates m item t) item\<lparr>wi_phase := t\<rparr> else item)"
  shows "\<exists>sm' w' lines. cmd_phase_advance frepr parse_at isof NoFault tmp now nowt task_id arg reason force no_gates m sm w =
       (sm', w', Inr (if go then 0 else 1, lines)) \<and>
     (get_task sm' task_id = Some (JObj (with_item isof item' task)) \<or> \<not> go \<and> sm' = sm)"
proof -
  obtain w1 r where a: "advance \<lparr>pc_gates = cli_gates frepr no_gates m, pc_sm = Some sm\<rparr> now nowt t reason force item w = (item', w1, r)"
    and w1: "docs w1 = docs w" and r: "if \<not> force \<and> \<not> can_advance (wi_phase item) t then \<exists>e. r = Inl e
      else \<exists>rep. r = Inr rep \<and> (ar_advanced rep \<longleftrightarrow> force \<or> \<not> cli_blocked frepr no_gates m item t)"
    using cli_advance [of frepr no_gates m sm now nowt t reason force item w] assms(7,8) by auto
  have e: "ensure_work_item parse_at isof NoFault tmp nowt task_id PLAN sm w = (sm, w, Inr item)"
    using assms(4) by (simp add: ensure_work_item_def)
  have i: "wi_id item' = task_id" using load_id [OF assms(4)] assms(8) by (auto simp: record_transition_def)
  have w1': "fresh_tmp tmp (sm_filename sm) w1" "read_on_disk (sm_filename sm) w1 = Inr d"
    using assms(2,3) w1 read_on_disk_docs [OF w1] by (simp_all add: fresh_tmp_def)
  obtain sm2 w2 where s: "save_work_item isof NoFault tmp nowt ''cli'' item' sm w1 = (sm2, w2, Inr ())"
    using save_done [OF assms(1) w1', of item' task] assms(5) i by metis
  note g = save_writes [OF assms(1) _ s, of task]
  show ?thesis
  proof (cases "\<not> force \<and> \<not> can_advance (wi_phase item) t")
    case True
    with a r e assms(6,7) show ?thesis by (auto simp: cmd_phase_advance_def)
  next
    case False
    with r obtain rep where "r = Inr rep" "ar_advanced rep \<longleftrightarrow> go" using assms(7) by auto
    with a e s g i assms(5,6) show ?thesis by (auto simp: cmd_phase_advance_def)
  qed
qed

text \<open>The exit code of \<open>phase advance\<close> tells what happened. On a stored work item, and a
  write that succeeds, the command exits with 0 exactly when it is forced or the transition is
  allowed and the content guard (where it is on, for the two phases it applies to) finds a body
  of substance, and then the item loaded next is in the target phase with one more entry;
  otherwise it exits with 1 and the item loaded next is the one loaded before.\<close>

theorem cli_exit_code:
  assumes "sm_storage_type sm = ''json''" and "fresh_tmp tmp (sm_filename sm) w" and "read_on_disk (sm_filename sm) w = Inr d"
    and "load_work_item parse_at sm task_id = Inr (Some item)" and "phase_of_value (map upper_char arg) = Inr t"
    and "stamps_ok isof parse_at item" and "parse_at (JStr (isof now)) = Some now"
  shows "\<exists>sm' w' lines item'. cmd_phase_advance frepr parse_at isof NoFault tmp now nowt task_id arg reason force no_gates m sm w =
       (sm', w', Inr (if force \<or> can_advance (wi_phase item) t \<and> \<not> cli_blocked frepr no_gates m item t then 0 else 1, lines)) \<and>
     load_work_item parse_at sm' task_id = Inr (Some item') \<and>
     (if force \<or> can_advance (wi_phase item) t \<and> \<not> cli_blocked frepr no_gates m item t
      then wi_phase item' = t \<and> length (wi_history item') = Suc (length (wi_history item)) else item' = item)"
proof -
  let ?go = "force \<or> can_advance (wi_phase item) t \<and> \<not> cli_blocked frepr no_gates m item t"
  let ?item = "if ?go then record_transition now t reason (cli_evidence frepr no_gates m item t) item\<lparr>wi_phase := t\<rparr> else item"
  obtain task where g: "get_task sm task_id = Some (JObj task)" using load_id [OF assms(4)] by auto
  obtain sm' w' ls where c: "cmd_phase_advance frepr parse_at isof NoFault tmp now nowt task_id arg reason force no_gates m sm w =
       (sm', w', Inr (if ?go then 0 else 1, ls))"
     and t: "get_task sm' task_id = Some (JObj (with_item isof ?item task)) \<or> \<not> ?go \<and> sm' = sm"
    using cli_advance_runs [OF assms(1-4) g assms(5) refl refl, where isof = isof and now = now and nowt = nowt and reason = reason and force = force and frepr = frepr and no_gates = no_gates and m = m] by blast
  have st: "stamps_ok isof parse_at ?item" using assms(6,7) by (simp add: stamps_ok_def record_transition_def)
  have i: "wi_id ?item = task_id" "1 \<le> length task_id" "length task_id \<le> 80"
    using load_id [OF assms(4)] by (auto simp: record_transition_def)
  have "load_work_item parse_at sm' task_id = Inr (Some ?item)"
    using t load_with_item [of sm' ?item isof task parse_at] st i assms(4) by auto
  with c show ?thesis by (intro exI conjI) (assumption, auto simp: record_transition_def)
qed

section \<open>A phase that goes back\<close>

lemma http_keeps_fresh:
  assumes "sm_storage_type sm = ''json''" "fresh_tmp tmp (sm_filename sm) w" "fresh_tmp tmp2 (sm_filename sm) w"
    and "advance_phase fromiso isof flt tmp now nowt task_id target reason sm w = (sm', w', res)"
  shows "fresh_tmp tmp2 (sm_filename sm) w'"
proof -
  have s: "fresh_tmp tmp2 (sm_filename sm) w''" if "fresh_tmp tmp (sm_filename sm) w1" "fresh_tmp tmp2 (sm_filename sm) w1"
      "set_task flt tmp nowt task_id v [] sm w1 = (sm'', w'', r)" for w1 v sm'' w'' r
    using set_task_fs_fresh [OF assms(1) that(1,2), of flt nowt task_id v "[]"] that(3) by (simp add: set_task_fs_def)
  show ?thesis using assms
    by (auto simp: advance_phase_def router_advance split: sum.splits option.splits prod.splits if_splits elim!: s [rotated 2])
qed

text \<open>A phase can go back over an edge that does not exist. After an advance over HTTP a
  command that loads the file still advances the work item as it was stored: every transition
  allowed from that older phase succeeds and sets the phase of the task, wherever the routes
  have taken it in the meantime.\<close>

theorem phase_goes_back:
  assumes "sm_storage_type sm = ''json''" and "fresh_tmp tmp (sm_filename sm) w" and "read_on_disk (sm_filename sm) w = Inr d"
    and "load_work_item parse_at sm task_id = Inr (Some item)"
    and "advance_phase fromiso isof NoFault tmp now nowt task_id target reason sm w = (sm1, w1, Inr resp)"
    and "sm_storage_type cli = ''json''" and "sm_filename cli = sm_filename sm" and "read_on_disk (sm_filename sm) w1 = Inr (sm_data cli)"
    and "phase_of_value (map upper_char arg) = Inr t" and "can_advance (wi_phase item) t"
  shows "\<exists>sm2 w2 lines task. cmd_phase_advance frepr parse_at isof NoFault tmp now nowt task_id arg reason2 False True m cli w1 =
      (sm2, w2, Inr (0, lines)) \<and>
    get_task sm2 task_id = Some (JObj task) \<and> dget task ''phase'' = Some (JStr (phase_value t))"
proof -
  from assms(5) obtain v where "found_task sm task_id = Inr v" by (auto simp: advance_phase_def split: sum.splits)
  with assms(5) obtain task it tg where t: "found_task sm task_id = Inr (JObj task)" "phase_of_name (map upper_char target) = Some tg"
      "rebuild_item fromiso now task_id task = Inr it"
    by (auto simp: advance_phase_def as_dict_def bindr_Inr_iff split: sum.splits option.splits json.splits)
  have can: "can_advance (wi_phase it) tg"
    using assms(5) t by (auto simp: advance_phase_def as_dict_def router_advance split: if_splits)
  let ?rep = "http_report tg reason now it"
  let ?task = "updated_task isof nowt ?rep (ar_item ?rep) task"
  from advance_phase_done [OF assms(1-3) t can, of isof nowt reason] assms(5,8)
  have "sm_data cli = dset task_id (JObj ?task) d" by auto
  then have g: "get_task cli task_id = Some (JObj ?task)" by (simp add: get_task_def)
  have l: "load_work_item parse_at cli task_id = Inr (Some item)"
    using load_same_key [OF found_task_get [OF t(1)] g] assms(4) by (simp add: updated_task_fields WORK_ITEM_KEY_def)
  have f: "fresh_tmp tmp (sm_filename cli) w1" using http_keeps_fresh [OF assms(1,2,2,5)] assms(7) by simp
  have r: "read_on_disk (sm_filename cli) w1 = Inr (sm_data cli)" using assms(7,8) by simp
  have go: "True = (False \<or> can_advance (wi_phase item) t \<and> \<not> cli_blocked frepr True m item t)"
    using assms(10) by (simp add: cli_blocked_def)
  from cli_advance_runs [OF assms(6) f r l g assms(9) go refl, of isof now nowt reason2] show ?thesis
    by (fastforce simp: with_item_fields record_transition_def)
qed

section \<open>Witnesses\<close>

definition api_task :: "(string, json) dict" where
  "api_task = [(WORK_ITEM_KEY, JObj [(''phase'', JStr ''PLAN'')]), (''phase'', JStr ''ARCHITECT'')]"

definition api_manager :: state_manager where
  "api_manager = demo_manager ''s'' [(''t'', JObj api_task)]"

definition api_files :: fs where
  "api_files = \<lparr>docs = [(''s'', Doc (JObj [(''t'', JObj api_task)]))], logs = []\<rparr>"

definition api_run :: "state_manager \<times> fs \<times> json result" where
  "api_run = advance_phase (\<lambda>s. None) demo_iso NoFault ''tmp'' 7 ''n'' ''t'' ''implement'' [] api_manager api_files"

lemma api_setup:
  "sm_storage_type api_manager = ''json''" "fresh_tmp ''tmp'' (sm_filename api_manager) api_files"
  "read_on_disk (sm_filename api_manager) api_files = Inr [(''t'', JObj api_task)]"
  "found_task api_manager ''t'' = Inr (JObj api_task)" "phase_of_name (map upper_char ''implement'') = Some IMPLEMENT"
  "rebuild_item (\<lambda>s. None) 7 ''t'' api_task = Inr \<lparr>wi_id = ''t'', wi_phase = ARCHITECT, wi_payload = [], wi_history = []\<rparr>"
  "load_work_item demo_parse api_manager ''t'' = Inr (Some \<lparr>wi_id = ''t'', wi_phase = PLAN, wi_payload = [], wi_history = []\<rparr>)"
  "phase_of_value (map upper_char ''architect'') = Inr ARCHITECT"
  by code_simp+

theorem http_advance_ungated_witness:
  "\<exists>rep. snd (snd api_run) = Inr (advance_response ''t'' rep) \<and> ar_advanced rep \<and> ar_to rep = IMPLEMENT"
proof -
  obtain sm' w' res where r: "api_run = (sm', w', res)" by (metis prod_cases3)
  from http_advance_ungated [OF api_setup(1-6) r [unfolded api_run_def]]
  have "\<exists>rep. res = Inr (advance_response ''t'' rep) \<and> ar_advanced rep \<and> ar_to rep = IMPLEMENT"
    by (auto simp: can_advance_def)
  then show ?thesis by (simp only: r snd_conv)
qed

definition api_item :: work_item where
  "api_item = \<lparr>wi_id = ''t'', wi_phase = PLAN, wi_payload = [], wi_history = []\<rparr>"

theorem separate_ledgers_witness:
  "load_work_item demo_parse (fst api_run) ''t'' = Inr (Some api_item)"
proof -
  obtain sm1 w1 res where r: "advance_phase (\<lambda>s. None) demo_iso NoFault ''tmp'' 7 ''n'' ''t'' ''implement'' [] api_manager api_files = (sm1, w1, res)"
    by (metis prod_cases3)
  have i: "wi_id api_item = ''t''" by (simp add: api_item_def)
  have g: "get_task api_manager (wi_id api_item) = Some (JObj api_task)"
    using found_task_get [OF api_setup(4)] by (simp add: i)
  obtain sm2 w2 where s: "save_work_item demo_iso NoFault ''tmp'' ''n'' ''a'' api_item api_manager api_files = (sm2, w2, Inr ())"
    using save_done [OF api_setup(1-3) g] by blast
  from separate_ledgers [OF api_setup(1) g r [folded i] s] api_setup(7)
  show ?thesis by (simp add: api_run_def r api_item_def)
qed

theorem cli_exit_code_witness:
  "\<exists>sm' w' lines. cmd_phase_advance (\<lambda>r. []) demo_parse demo_iso NoFault ''tmp'' 7 ''n'' ''t'' ''architect'' [] False False 40 api_manager api_files
     = (sm', w', Inr (0, lines))"
proof -
  have "stamps_ok demo_iso demo_parse api_item" "demo_parse (JStr (demo_iso 7)) = Some 7"
    by (simp_all add: stamps_ok_def api_item_def demo_parse_def demo_iso_def)
  from cli_exit_code [OF api_setup(1-3,7,8) this [unfolded api_item_def], of "\<lambda>r. []" "''n''" "[]" False False 40]
  show ?thesis by (auto simp: can_advance_def cli_blocked_def)
qed

theorem phase_goes_back_witness:
  "\<exists>cli sm2 w2 lines task. get_task (fst api_run) ''t'' = get_task cli ''t'' \<and>
     cmd_phase_advance (\<lambda>r. []) demo_parse demo_iso NoFault ''tmp'' 7 ''n'' ''t'' ''architect'' [] False True 40 cli (fst (snd api_run)) = (sm2, w2, Inr (0, lines)) \<and>
     get_task sm2 ''t'' = Some (JObj task) \<and> dget task ''phase'' = Some (JStr ''ARCHITECT'') \<and> \<not> can_advance IMPLEMENT ARCHITECT"
proof -
  have c: "can_advance (wi_phase \<lparr>wi_id = ''t'', wi_phase = ARCHITECT, wi_payload = [], wi_history = []\<rparr>) IMPLEMENT"
    by (simp add: can_advance_def)
  from advance_phase_done [OF api_setup(1-6) c, of demo_iso "''n''" "[]"] obtain m w1 resp where
    r: "api_run = (api_manager\<lparr>sm_data := m\<rparr>, w1, Inr resp)" and d: "read_on_disk (sm_filename api_manager) w1 = Inr m"
    unfolding api_run_def by blast
  let ?cli = "api_manager\<lparr>sm_data := m\<rparr>"
  have k: "sm_storage_type ?cli = ''json''" "sm_filename ?cli = sm_filename api_manager"
    "read_on_disk (sm_filename api_manager) w1 = Inr (sm_data ?cli)" using api_setup(1) d by simp_all
  have p: "can_advance (wi_phase \<lparr>wi_id = ''t'', wi_phase = PLAN, wi_payload = [], wi_history = []\<rparr>) ARCHITECT"
    by (simp add: can_advance_def)
  from phase_goes_back [OF api_setup(1-3,7) r [unfolded api_run_def] k api_setup(8) p, of "\<lambda>r. []" "[]" 40]
  obtain sm2 w2 ls task where "cmd_phase_advance (\<lambda>r. []) demo_parse demo_iso NoFault ''tmp'' 7 ''n'' ''t'' ''architect'' [] False True 40 ?cli w1
      = (sm2, w2, Inr (0, ls))" "get_task sm2 ''t'' = Some (JObj task)" "dget task ''phase'' = Some (JStr ''ARCHITECT'')" by auto
  moreover have "get_task (fst api_run) ''t'' = get_task ?cli ''t''" "fst (snd api_run) = w1" by (simp_all add: r)
  moreover have "\<not> can_advance IMPLEMENT ARCHITECT" by (simp add: can_advance_def)
  ultimately show ?thesis by blast
qed

end
