(* ===== verification/State_Reader.thy ===== *)
theory State_Reader
  imports Swarm_Ctl Metrics
begin

text \<open>
  The read-only view of the web application: \<open>StateReader\<close>
  (\<open>src/webapp/services/state_reader.py\<close>) over the state file and the event log, the
  models of \<open>src/webapp/models/schemas.py\<close>, the swarm routes of
  \<open>src/webapp/routers/swarm.py\<close>, and the token check of \<open>src/webapp/server.py\<close>. The
  text of the file's modification time, the answer of the signal 0 and the working
  directory are parameters.
\<close>

section \<open>The state file\<close>

definition read_state :: "string \<Rightarrow> fs \<Rightarrow> json" where
  "read_state path w = (case dget (docs w) path of Some (Doc v) \<Rightarrow> v | _ \<Rightarrow> JObj [])"

definition json_get :: "json \<Rightarrow> string \<Rightarrow> json \<Rightarrow> json result" where
  "json_get v k d = (case v of JObj kvs \<Rightarrow> Inr (dgetd kvs k d) | _ \<Rightarrow> Inl (attribute_error ''get''))"

definition tasks_of :: "json \<Rightarrow> json result" where
  "tasks_of state = bindr (json_get state ''tasks'' (JObj [])) (\<lambda>tasks.
     bindr (json_get state ''data'' JNull) (\<lambda>data. case data of
        JObj d \<Rightarrow> Inr (dgetd d ''tasks'' tasks)
      | _ \<Rightarrow> Inr tasks))"

text \<open>\<open>tasks.items()\<close> and \<open>tasks.values()\<close>.\<close>

definition tasks_items :: "json \<Rightarrow> (string, json) dict result" where
  "tasks_items v = (case v of JObj d \<Rightarrow> Inr d | _ \<Rightarrow> Inl (attribute_error ''items''))"

section \<open>Status\<close>

record swarm_status =
  ss_total :: nat
  ss_by_phase :: "(string, nat) dict"
  ss_by_status :: "(string, nat) dict"
  ss_health :: string
  ss_updated :: "string option"

text \<open>A list or a dictionary is no key of a dictionary. The counts are keyed by the value
  itself; the model of the answer then accepts texts only.\<close>

definition key_ok :: "json \<Rightarrow> bool" where
  "key_ok v = (case v of JArr xs \<Rightarrow> False | JObj d \<Rightarrow> False | _ \<Rightarrow> True)"

definition count_up :: "json \<Rightarrow> (json, nat) dict \<Rightarrow> (json, nat) dict result" where
  "count_up k d = (if key_ok k then Inr (dset k (dgetd d k 0 + 1) d) else Inl (Exn ''TypeError'' ''unhashable type''))"

fun count_tasks :: "json list \<Rightarrow> (json, nat) dict \<Rightarrow> (json, nat) dict \<Rightarrow> ((json, nat) dict \<times> (json, nat) dict) result" where
  "count_tasks [] ps ss = Inr (ps, ss)"
| "count_tasks (JObj d # vs) ps ss =
     bindr (count_up (dgetd d ''phase'' (JStr ''unknown'')) ps) (\<lambda>ps'.
     bindr (count_up (dgetd d ''status'' (JStr ''unknown'')) ss) (\<lambda>ss'. count_tasks vs ps' ss'))"
| "count_tasks (v # vs) ps ss = count_tasks vs ps ss"

fun text_keys :: "(json, nat) dict \<Rightarrow> (string, nat) dict option" where
  "text_keys [] = Some []"
| "text_keys ((JStr s, n) # d) = map_option (\<lambda>r. (s, n) # r) (text_keys d)"
| "text_keys ((v, n) # d) = None"

definition health_of :: "(json, nat) dict \<Rightarrow> string" where
  "health_of ss = (if 0 < dgetd ss (JStr ''failed'') 0 then ''unhealthy''
     else if 0 < dgetd ss (JStr ''blocked'') 0 then ''degraded'' else ''healthy'')"

definition get_status :: "(string \<Rightarrow> string option) \<Rightarrow> string \<Rightarrow> fs \<Rightarrow> swarm_status result" where
  "get_status mtime path w = bindr (tasks_of (read_state path w)) (\<lambda>tasks.
     bindr (tasks_items tasks) (\<lambda>items. bindr (count_tasks (dvalues items) [] []) (\<lambda>(ps, ss).
     case (text_keys ps, text_keys ss) of
       (Some by_phase, Some by_status) \<Rightarrow> Inr \<lparr>ss_total = length items, ss_by_phase = by_phase, ss_by_status = by_status,
          ss_health = health_of ss, ss_updated = (if dmem path (docs w) then mtime path else None)\<rparr>
     | _ \<Rightarrow> Inl (validation_error ''SwarmStatus''))))"

section \<open>Tasks\<close>

record task_summary =
  ts_id :: string
  ts_phase :: string
  ts_status :: string
  ts_created :: "string option"
  ts_updated :: "string option"
  ts_title :: "string option"

definition opt_text_field :: "json \<Rightarrow> string option option" where
  "opt_text_field v = (case v of JNull \<Rightarrow> Some None | JStr s \<Rightarrow> Some (Some s) | _ \<Rightarrow> None)"

definition req_text_field :: "json \<Rightarrow> string option" where
  "req_text_field v = (case v of JStr s \<Rightarrow> Some s | _ \<Rightarrow> None)"

definition summarize :: "string \<Rightarrow> (string, json) dict \<Rightarrow> task_summary result" where
  "summarize task_id d =
     (case (req_text_field (dgetd d ''phase'' (JStr ''unknown'')), req_text_field (dgetd d ''status'' (JStr ''unknown'')),
            opt_text_field (dgetd d ''created'' JNull), opt_text_field (dgetd d ''updated'' JNull), opt_text_field (dgetd d ''title'' JNull)) of
        (Some p, Some s, Some c, Some u, Some t) \<Rightarrow> Inr \<lparr>ts_id = task_id, ts_phase = p, ts_status = s,
           ts_created = c, ts_updated = u, ts_title = t\<rparr>
      | _ \<Rightarrow> Inl (validation_error ''TaskSummary''))"

definition status_matches :: "string option \<Rightarrow> (string, json) dict \<Rightarrow> bool" where
  "status_matches flt d = (case flt of None \<Rightarrow> True | Some s \<Rightarrow> py_eq (dgetd d ''status'' JNull) (JStr s))"

fun summaries :: "string option \<Rightarrow> (string, json) dict \<Rightarrow> task_summary list result" where
  "summaries flt [] = Inr []"
| "summaries flt ((k, v) # kvs) = (case v of
      JObj d \<Rightarrow> if status_matches flt d
        then bindr (summarize k d) (\<lambda>t. bindr (summaries flt kvs) (\<lambda>ts. Inr (t # ts)))
        else summaries flt kvs
    | _ \<Rightarrow> summaries flt kvs)"

definition created_key :: "task_summary \<Rightarrow> string" where
  "created_key t = (case ts_created t of None \<Rightarrow> [] | Some s \<Rightarrow> s)"

definition get_tasks :: "string option \<Rightarrow> string \<Rightarrow> fs \<Rightarrow> task_summary list result" where
  "get_tasks flt path w = bindr (tasks_of (read_state path w)) (\<lambda>tasks.
     bindr (tasks_items tasks) (\<lambda>items. bindr (summaries flt items) (\<lambda>ts. Inr (sort_key created_key ts))))"

section \<open>Events\<close>

record web_event =
  we_timestamp :: string
  we_type :: string
  we_data :: "(string, json) dict"

text \<open>\<open>xs[:n]\<close>.\<close>

definition slice_to :: "int \<Rightarrow> 'a list \<Rightarrow> 'a list" where
  "slice_to n xs = (if 0 \<le> n then take (nat n) xs else take (length xs - nat (- n)) xs)"

fun web_events :: "string option \<Rightarrow> json list \<Rightarrow> web_event list result" where
  "web_events task [] = Inr []"
| "web_events task (v # vs) = (case v of
      JObj e \<Rightarrow>
        if (case task of None \<Rightarrow> False | Some t \<Rightarrow> \<not> py_eq (dgetd e ''task_id'' JNull) (JStr t)) then web_events task vs
        else (case (req_text_field (dgetd e ''timestamp'' (JStr [])), req_text_field (dgetd e ''action'' (JStr ''unknown''))) of
            (Some ts, Some ty) \<Rightarrow> bindr (web_events task vs) (\<lambda>es. Inr (\<lparr>we_timestamp = ts, we_type = ty, we_data = e\<rparr> # es))
          | _ \<Rightarrow> Inl (validation_error ''Event''))
    | _ \<Rightarrow> Inl (attribute_error ''get''))"

definition get_events :: "string option \<Rightarrow> int \<Rightarrow> string \<Rightarrow> fs \<Rightarrow> web_event list result" where
  "get_events task limit path w = (case dget (logs w) path of
      None \<Rightarrow> Inr []
    | Some ls \<Rightarrow> bindr (web_events task (log_records ls)) (\<lambda>es. Inr (slice_to limit (rev es))))"

section \<open>The swarm routes\<close>

definition swarm_health_of :: "bool \<Rightarrow> int option \<Rightarrow> bool \<Rightarrow> string \<Rightarrow> string" where
  "swarm_health_of shutdown pid pid_alive health =
     (if shutdown then ''shutting_down'' else if \<not> pid_alive \<and> pid \<noteq> None then ''stale_pid'' else health)"

definition overall_of :: "string \<Rightarrow> string" where
  "overall_of health =
     (if List.member [''unhealthy'', ''stale_pid''] health then ''unhealthy''
      else if List.member [''degraded'', ''shutting_down''] health then ''degraded'' else ''healthy'')"

definition phase_counts_json :: "(string, nat) dict \<Rightarrow> json" where
  "phase_counts_json d = JObj (map (\<lambda>(k, n). (k, JInt (int n))) d)"

definition get_swarm_health :: "(string \<Rightarrow> string option) \<Rightarrow> (int \<Rightarrow> bool) \<Rightarrow> metrics_registry \<Rightarrow> control \<Rightarrow> fs \<Rightarrow> json result" where
  "get_swarm_health mtime alive reg c w = bindr (get_status mtime ''state.json'' w) (\<lambda>st.
     let pid = get_swarm_pid c;
         pid_alive = (case pid of None \<Rightarrow> False | Some p \<Rightarrow> alive p);
         shutdown = is_shutdown_requested c
     in Inr (JObj [(''status'', JStr (overall_of (swarm_health_of shutdown pid pid_alive (ss_health st)))),
          (''details'', JObj
            [(''pid'', case pid of None \<Rightarrow> JNull | Some p \<Rightarrow> JInt p), (''pid_alive'', JBool pid_alive),
             (''shutdown_requested'', JBool shutdown), (''tasks_total'', JInt (int (ss_total st))),
             (''tasks_by_phase'', phase_counts_json (ss_by_phase st)), (''tasks_by_status'', phase_counts_json (ss_by_status st)),
             (''metrics_summary'', get_summary reg)])]))"

definition stop_swarm :: "string \<Rightarrow> string \<Rightarrow> control \<Rightarrow> control \<times> json" where
  "stop_swarm cwd now c = (case cf_sentinel c of
      Some s \<Rightarrow> (c, JObj [(''requested'', JBool True), (''message'', JStr ''Shutdown already requested''),
         (''existing_request_at'', if strip s = [] then JNull else JStr (strip s))])
    | None \<Rightarrow> (c\<lparr>cf_sentinel := Some now\<rparr>, JObj [(''requested'', JBool True), (''message'', JStr ''Shutdown sentinel written''),
         (''sentinel_path'', JStr (cwd @ ''/'' @ SENTINEL_PATH))]))"

definition inject_prompt :: "string \<Rightarrow> string \<Rightarrow> string \<Rightarrow> fs \<Rightarrow> fs \<times> json result" where
  "inject_prompt ts prompt user_id w =
     (if strip prompt = [] then (w, Inl (Exn ''HTTPException'' ''400: Prompt cannot be empty''))
      else (enqueue_prompt ts user_id (strip prompt) w, Inr (JObj [(''enqueued'', JBool True),
         (''user_id'', JStr user_id), (''prompt_length'', JInt (int (length (strip prompt))))])))"

section \<open>The token\<close>

definition PUBLIC_PATHS :: "string list" where
  "PUBLIC_PATHS = [''/health'', ''/api/metrics/summary'', ''/api/metrics/costs'', ''/api/metrics/tokens'',
     ''/api/swarm/health'', ''/chat/messages'', ''/'']"

definition require_token :: "string \<Rightarrow> string option \<Rightarrow> bool" where
  "require_token token header \<longleftrightarrow> token = [] \<or> (case header of None \<Rightarrow> [] | Some h \<Rightarrow> h) = token"

text \<open>The middleware: \<open>None\<close> is the answer 401, otherwise the application's answer.\<close>

definition auth_middleware :: "string \<Rightarrow> string \<Rightarrow> string option \<Rightarrow> 'a \<Rightarrow> 'a option" where
  "auth_middleware token path header answer =
     (if startswith path ''/api/'' \<and> \<not> List.member PUBLIC_PATHS path \<and> \<not> require_token token header
      then None else Some answer)"

section \<open>Counting\<close>

definition task_rows :: "(string, json) dict \<Rightarrow> (string, json) dict list" where
  "task_rows items = concat (map (\<lambda>v. case v of JObj d \<Rightarrow> [d] | _ \<Rightarrow> []) (dvalues items))"

definition shown :: "string \<Rightarrow> (string, json) dict \<Rightarrow> json" where
  "shown k d = dgetd d k (JStr ''unknown'')"

definition is_text :: "json \<Rightarrow> bool" where
  "is_text v = (case v of JStr s \<Rightarrow> True | _ \<Rightarrow> False)"

definition counts_text :: "(json, nat) dict \<Rightarrow> bool" where
  "counts_text d \<longleftrightarrow> dwf d \<and> list_all (\<lambda>(k, n). is_text k) d"

lemma count_up_text:
  assumes "counts_text d" "is_text k"
  shows "\<exists>d'. count_up k d = Inr d' \<and> counts_text d' \<and> (\<forall>s. dgetd d' s 0 = dgetd d s 0 + (if s = k then 1 else 0))"
proof -
  have h: "key_ok k" using assms(2) by (cases k) (simp_all add: is_text_def key_ok_def)
  have "list_all (\<lambda>(k, n). is_text k) (dset k n d)" for n
    using assms set_dset [of d k n] by (auto simp: counts_text_def list_all_iff)
  then show ?thesis using h assms(1) by (auto simp: count_up_def counts_text_def dgetd_def)
qed

lemma count_tasks_text:
  assumes "list_all (\<lambda>v. case v of JObj d \<Rightarrow> is_text (shown ''phase'' d) \<and> is_text (shown ''status'' d) | _ \<Rightarrow> True) vs"
    "counts_text ps" "counts_text ss"
  shows "\<exists>ps' ss'. count_tasks vs ps ss = Inr (ps', ss') \<and> counts_text ps' \<and> counts_text ss' \<and>
    (\<forall>s. dgetd ps' s 0 = dgetd ps s 0 + count_if (\<lambda>v. case v of JObj d \<Rightarrow> shown ''phase'' d = s | _ \<Rightarrow> False) vs) \<and>
    (\<forall>s. dgetd ss' s 0 = dgetd ss s 0 + count_if (\<lambda>v. case v of JObj d \<Rightarrow> shown ''status'' d = s | _ \<Rightarrow> False) vs)"
  using assms
proof (induction vs ps ss rule: count_tasks.induct)
  case (2 d vs ps ss)
  from 2 obtain ps1 where p: "count_up (shown ''phase'' d) ps = Inr ps1" "counts_text ps1"
      "\<forall>s. dgetd ps1 s 0 = dgetd ps s 0 + (if s = shown ''phase'' d then 1 else 0)"
    using count_up_text [of ps "shown ''phase'' d"] by auto
  from 2 obtain ss1 where s: "count_up (shown ''status'' d) ss = Inr ss1" "counts_text ss1"
      "\<forall>s. dgetd ss1 s 0 = dgetd ss s 0 + (if s = shown ''status'' d then 1 else 0)"
    using count_up_text [of ss "shown ''status'' d"] by auto
  from 2(1) [of ps1 ss1] 2 p s show ?case by (auto simp: shown_def)
qed auto

lemma text_keys_ok: "list_all (\<lambda>(k, n). is_text k) d \<Longrightarrow> \<exists>r. text_keys d = Some r \<and> d = map (\<lambda>(s, n). (JStr s, n)) r"
proof (induction d)
  case (Cons x d)
  obtain k n where x: "x = (k, n)" by fastforce
  with Cons.prems obtain s where "k = JStr s" by (cases k) (auto simp: is_text_def)
  with Cons x show ?case by auto
qed simp

lemma dget_text_keys: "dget (map (\<lambda>(s, n). (JStr s, n)) r) (JStr s) = dget r s"
  by (induction r) auto

text \<open>The snapshot counts every task exactly once. For a document whose tasks have texts as
  phase and status (or none, counted as unknown), the status has the number of entries, for
  each phase and each status the number of tasks with it, and is unhealthy with a failed
  task, degraded with a blocked one and healthy otherwise.\<close>

theorem status_exact:
  assumes "tasks_of (read_state path w) = Inr (JObj items)"
    and "\<forall>d \<in> set (task_rows items). is_text (shown ''phase'' d) \<and> is_text (shown ''status'' d)"
  shows "\<exists>st. get_status mtime path w = Inr st \<and> ss_total st = length items \<and>
    (\<forall>s. dgetd (ss_by_phase st) s 0 = count_if (\<lambda>d. shown ''phase'' d = JStr s) (task_rows items)) \<and>
    (\<forall>s. dgetd (ss_by_status st) s 0 = count_if (\<lambda>d. shown ''status'' d = JStr s) (task_rows items)) \<and>
    ss_health st = (if 0 < dgetd (ss_by_status st) ''failed'' 0 then ''unhealthy''
      else if 0 < dgetd (ss_by_status st) ''blocked'' 0 then ''degraded'' else ''healthy'')"
proof -
  have rows: "count_if (\<lambda>v. case v of JObj d \<Rightarrow> P d | _ \<Rightarrow> False) vs =
      count_if P (concat (map (\<lambda>v. case v of JObj d \<Rightarrow> [d] | _ \<Rightarrow> []) vs))" for P vs
    by (induction vs) (auto simp: count_if_def split: json.splits)
  have "list_all (\<lambda>v. case v of JObj d \<Rightarrow> is_text (shown ''phase'' d) \<and> is_text (shown ''status'' d) | _ \<Rightarrow> True) (dvalues items)"
    using assms(2) by (force simp: task_rows_def list_all_iff split: json.splits)
  from count_tasks_text [OF this, of "[]" "[]"] obtain ps ss where c: "count_tasks (dvalues items) [] [] = Inr (ps, ss)"
    "counts_text ps" "counts_text ss"
    and n: "\<forall>s. dgetd ps s 0 = count_if (\<lambda>d. shown ''phase'' d = s) (task_rows items)"
      "\<forall>s. dgetd ss s 0 = count_if (\<lambda>d. shown ''status'' d = s) (task_rows items)"
    by (auto simp: counts_text_def rows task_rows_def dgetd_def)
  from c text_keys_ok obtain p s where k: "text_keys ps = Some p" "ps = map (\<lambda>(s, n). (JStr s, n)) p"
      "text_keys ss = Some s" "ss = map (\<lambda>(s, n). (JStr s, n)) s" unfolding counts_text_def by metis
  have g: "dgetd ps (JStr x) 0 = dgetd p x 0" "dgetd ss (JStr x) 0 = dgetd s x 0" for x
    unfolding k(2,4) by (simp_all add: dgetd_def dget_text_keys)
  show ?thesis
    using assms(1) c k(1,3) n by (simp add: get_status_def tasks_items_def health_of_def g [symmetric])
qed

theorem status_exact_witness:
  "\<exists>st. get_status (\<lambda>f. None) ''s'' \<lparr>docs = [(''s'', Doc (JObj [(''tasks'', JObj
      [(''a'', JObj [(''status'', JStr ''failed'')]), (''b'', JObj [(''phase'', JStr ''PLAN'')]), (''c'', JNull)])]))], logs = []\<rparr> = Inr st \<and>
     ss_total st = 3 \<and> dgetd (ss_by_phase st) ''unknown'' 0 = 1 \<and> ss_health st = ''unhealthy''"
proof -
  let ?items = "[(''a'', JObj [(''status'', JStr ''failed'')]), (''b'', JObj [(''phase'', JStr ''PLAN'')]), (''c'', JNull)]"
  let ?w = "\<lparr>docs = [(''s'', Doc (JObj [(''tasks'', JObj ?items)]))], logs = []\<rparr>"
  have t: "tasks_of (read_state ''s'' ?w) = Inr (JObj ?items)" by (simp add: tasks_of_def read_state_def json_get_def dgetd_def)
  have "\<forall>d \<in> set (task_rows ?items). is_text (shown ''phase'' d) \<and> is_text (shown ''status'' d)"
    by (simp add: task_rows_def dvalues_def shown_def is_text_def dgetd_def)
  from status_exact [OF t this, of "\<lambda>f. None"] show ?thesis
    by (auto simp: task_rows_def dvalues_def shown_def count_if_def dgetd_def)
qed

section \<open>What the reader does not see\<close>

lemma read_state_disk: "read_on_disk f w = Inr d \<Longrightarrow> read_state f w = JObj d"
  by (auto simp: read_on_disk_def read_state_def split: option.splits jtext.splits json.splits)

lemma no_tasks_key:
  assumes "read_on_disk f w = Inr d" "dget d ''tasks'' = None" "dget d ''data'' = None"
  shows "tasks_of (read_state f w) = Inr (JObj [])"
  using assms by (simp add: tasks_of_def read_state_disk json_get_def dgetd_def)

text \<open>The web view of the state file is always empty. The manager keeps every task under its
  own key at the root of the document, the reader looks under the key \<open>tasks\<close> (or
  \<open>data\<close>): after any write of any task not called so the snapshot has no task, is
  healthy whatever the statuses are, and the list of tasks is empty.\<close>

theorem reader_blind:
  assumes "sm_storage_type sm = ''json''" and "fresh_tmp tmp (sm_filename sm) w" and "read_on_disk (sm_filename sm) w = Inr d"
    and "dget d ''tasks'' = None" and "dget d ''data'' = None" and "k \<noteq> ''tasks''" and "k \<noteq> ''data''"
    and "set_task NoFault tmp now k v agent sm w = (sm', w', r)"
  shows "(\<exists>st. get_status mtime (sm_filename sm) w' = Inr st \<and> ss_total st = 0 \<and> ss_by_status st = [] \<and> ss_health st = ''healthy'') \<and>
    get_tasks flt (sm_filename sm) w' = Inr [] \<and> on_disk (sm_filename sm) w' k = Some (JObj v)"
proof -
  have w': "w' = set_task_fs NoFault tmp now k v agent sm w" using assms(8) by (simp add: set_task_fs_def)
  have r: "read_on_disk (sm_filename sm) w' = Inr (dset k (JObj v) d)"
    unfolding w' by (rule set_task_fs_disk [OF assms(1-3)])
  have "dget (dset k (JObj v) d) ''tasks'' = None" "dget (dset k (JObj v) d) ''data'' = None" using assms(4-7) by simp_all
  from no_tasks_key [OF r this] r show ?thesis
    by (simp add: get_status_def get_tasks_def tasks_items_def dvalues_def health_of_def dgetd_def on_disk_def)
qed

theorem reader_blind_witness:
  "\<exists>st. get_status (\<lambda>f. None) ''s'' (fst (snd (set_task NoFault ''tmp'' ''n'' ''t'' [(''status'', JStr ''failed'')] ''a''
      (demo_manager ''s'' []) \<lparr>docs = [], logs = []\<rparr>))) = Inr st \<and> ss_total st = 0 \<and> ss_health st = ''healthy''"
proof -
  let ?sm = "demo_manager ''s'' []" let ?w = "\<lparr>docs = [], logs = []\<rparr>"
  obtain sm' w' r where s: "set_task NoFault ''tmp'' ''n'' ''t'' [(''status'', JStr ''failed'')] ''a'' ?sm ?w = (sm', w', r)"
    by (metis prod_cases3)
  have a: "sm_storage_type ?sm = ''json''" "fresh_tmp ''tmp'' (sm_filename ?sm) ?w" "read_on_disk (sm_filename ?sm) ?w = Inr []"
    by (simp_all add: demo_manager_def fresh_tmp_def dmem_def read_on_disk_def)
  from reader_blind [OF a _ _ _ _ s, of "\<lambda>f. None" None] s show ?thesis by (auto simp: demo_manager_def)
qed

section \<open>Lists\<close>

lemma summaries_in:
  "summaries flt items = Inr ts \<Longrightarrow> (\<exists>t \<in> set ts. P t) \<longleftrightarrow>
     (\<exists>k d t. (k, JObj d) \<in> set items \<and> status_matches flt d \<and> summarize k d = Inr t \<and> P t)"
proof (induction items arbitrary: ts)
  case (Cons x items)
  obtain k v where x: "x = (k, v)" by fastforce
  show ?case
  proof (cases "\<exists>d. v = JObj d \<and> status_matches flt d")
    case True
    then obtain d where d: "v = JObj d" "status_matches flt d" by blast
    with Cons.prems x obtain t us where u: "summarize k d = Inr t" "summaries flt items = Inr us" "ts = t # us"
      by (auto simp: bindr_Inr_iff)
    show ?thesis unfolding u(3) using Cons.IH [OF u(2)] u(1) d x by auto
  next
    case False
    with Cons.prems x have "summaries flt items = Inr ts" by (cases v) auto
    with Cons.IH False x show ?thesis by auto
  qed
qed simp

text \<open>The list of tasks. It is ordered by creation, oldest first and tasks without a time
  before all others, and has exactly the summaries of the entries that are tasks and whose
  status is the one asked for.\<close>

theorem get_tasks_exact:
  assumes "tasks_of (read_state path w) = Inr (JObj items)" and "get_tasks flt path w = Inr ts"
  shows "sorted (map created_key ts) \<and>
    set ts = {t. \<exists>k d. (k, JObj d) \<in> set items \<and> status_matches flt d \<and> summarize k d = Inr t}"
proof -
  from assms obtain us where u: "summaries flt items = Inr us" "ts = sort_key created_key us"
    by (auto simp: get_tasks_def tasks_items_def bindr_Inr_iff)
  have "x \<in> set ts \<longleftrightarrow> (\<exists>k d. (k, JObj d) \<in> set items \<and> status_matches flt d \<and> summarize k d = Inr x)" for x
    using summaries_in [OF u(1), of "\<lambda>t. t = x"] u(2) by auto
  with u(2) show ?thesis by auto
qed

theorem get_tasks_exact_witness:
  "\<exists>ts. get_tasks None ''s'' \<lparr>docs = [(''s'', Doc (JObj [(''tasks'', JObj
      [(''a'', JObj [(''created'', JStr ''2'')]), (''b'', JObj [(''created'', JStr ''1'')])])]))], logs = []\<rparr> = Inr ts \<and> sorted (map created_key ts)"
proof -
  let ?items = "[(''a'', JObj [(''created'', JStr ''2'')]), (''b'', JObj [(''created'', JStr ''1'')])]"
  let ?w = "\<lparr>docs = [(''s'', Doc (JObj [(''tasks'', JObj ?items)]))], logs = []\<rparr>"
  have t: "tasks_of (read_state ''s'' ?w) = Inr (JObj ?items)" by (simp add: tasks_of_def read_state_def json_get_def dgetd_def)
  obtain ts where g: "get_tasks None ''s'' ?w = Inr ts"
    using t by (simp add: get_tasks_def tasks_items_def status_matches_def summarize_def req_text_field_def opt_text_field_def dgetd_def)
  from get_tasks_exact [OF t g] g show ?thesis by blast
qed

definition event_row :: "json \<Rightarrow> web_event result" where
  "event_row v = bindr (web_events None [v]) (\<lambda>es. Inr (hd es))"

definition of_task :: "string option \<Rightarrow> json \<Rightarrow> bool" where
  "of_task task v = (case (task, v) of (Some t, JObj e) \<Rightarrow> py_eq (dgetd e ''task_id'' JNull) (JStr t) | _ \<Rightarrow> True)"

lemma web_events_map:
  "web_events task vs = Inr es \<Longrightarrow> map we_data es = map (\<lambda>v. case v of JObj e \<Rightarrow> e | _ \<Rightarrow> []) (filter (of_task task) vs)"
proof (induction vs arbitrary: es)
  case (Cons v vs)
  then obtain e where v: "v = JObj e" by (cases v) auto
  with Cons show ?case
    by (auto simp: of_task_def bindr_Inr_iff split: option.splits if_splits)
qed simp

text \<open>The events of a task, most recent first. A list of events that is given, with a limit
  that is no negative number, is the end of the log restricted to the task, reversed.\<close>

theorem get_events_exact:
  assumes "get_events task limit path w = Inr es" and "0 \<le> limit"
  shows "map we_data es = take (nat limit) (rev (map (\<lambda>v. case v of JObj e \<Rightarrow> e | _ \<Rightarrow> [])
     (filter (of_task task) (log_records (dgetd (logs w) path [])))))"
proof (cases "dget (logs w) path")
  case None
  with assms show ?thesis by (simp add: get_events_def dgetd_def)
next
  case (Some ls)
  with assms obtain fs where f: "web_events task (log_records ls) = Inr fs" "es = take (nat limit) (rev fs)"
    by (auto simp: get_events_def bindr_Inr_iff slice_to_def)
  from web_events_map [OF f(1)] f(2) Some show ?thesis by (simp add: dgetd_def take_map [symmetric] rev_map [symmetric])
qed

theorem get_events_exact_witness:
  "\<exists>es. get_events (Some ''t'') 1 ''e'' \<lparr>docs = [], logs = [(''e'', [Rec (JObj [(''task_id'', JStr ''t''), (''n'', JInt 1)]),
      Rec (JObj [(''task_id'', JStr ''t''), (''n'', JInt 2)]), BadLine])]\<rparr> = Inr es \<and> map we_data es = [[(''task_id'', JStr ''t''), (''n'', JInt 2)]]"
proof -
  let ?w = "\<lparr>docs = [], logs = [(''e'', [Rec (JObj [(''task_id'', JStr ''t''), (''n'', JInt 1)]),
      Rec (JObj [(''task_id'', JStr ''t''), (''n'', JInt 2)]), BadLine])]\<rparr>"
  obtain es where e: "get_events (Some ''t'') 1 ''e'' ?w = Inr es" by (simp add: get_events_def req_text_field_def dgetd_def)
  from get_events_exact [OF e] e show ?thesis by (simp add: of_task_def dgetd_def)
qed

section \<open>Stopping and access\<close>

text \<open>Stopping is idempotent. After the request the sentinel is there, and a second request
  changes nothing and answers with the time of the first.\<close>

theorem stop_idempotent:
  assumes "stop_swarm cwd now c = (c1, r1)"
  shows "is_shutdown_requested c1 \<and> (cf_sentinel c = None \<longrightarrow> cf_sentinel c1 = Some now) \<and>
    (\<exists>r2. stop_swarm cwd2 now2 c1 = (c1, r2))"
  using assms by (auto simp: stop_swarm_def is_shutdown_requested_def split: option.splits)

theorem stop_idempotent_witness:
  "is_shutdown_requested (fst (stop_swarm ''/w'' ''now'' \<lparr>cf_sentinel = None, cf_pid = None\<rparr>))"
proof -
  obtain c1 r1 where s: "stop_swarm ''/w'' ''now'' \<lparr>cf_sentinel = None, cf_pid = None\<rparr> = (c1, r1)" by fastforce
  from stop_idempotent [OF s] s show ?thesis by simp
qed

text \<open>With a token set, a request under \<open>/api/\<close> that is not on the public list is answered
  exactly when its header is the token; every other path is answered without one.\<close>

theorem token_guards_api:
  "token \<noteq> [] \<longrightarrow> auth_middleware token path header answer =
     (if startswith path ''/api/'' \<and> path \<notin> set PUBLIC_PATHS \<and> header \<noteq> Some token then None else Some answer)"
  by (auto simp: auth_middleware_def require_token_def split: option.splits)

theorem token_guards_api_witness:
  "auth_middleware ''k'' ''/api/phase/advance'' None () = None"
proof -
  have "startswith ''/api/phase/advance'' ''/api/''" "''/api/phase/advance'' \<notin> set PUBLIC_PATHS" by code_simp+
  with token_guards_api [of "''k''" "''/api/phase/advance''" None "()"] show ?thesis by simp
qed

end
