(* ===== verification/Web_Events.thy ===== *)
theory Web_Events
  imports State_Reader Json_Text
begin

text \<open>
  How events reach the browser: the pages of \<open>src/webapp/routers/events.py\<close>, the tailer of
  \<open>src/webapp/services/event_tailer.py\<close>, the fan-out of
  \<open>src/webapp/services/sse_manager.py\<close> and the message store of
  \<open>src/webapp/chat_server.py\<close>. The tailer works on the text of the log (of ASCII
  characters, lines end with a line feed), the pages on its lines. A queue and a web socket
  are a number: the code compares them by identity.
\<close>

section \<open>Pages\<close>

text \<open>\<open>xs[a:b]\<close>.\<close>

definition clip :: "nat \<Rightarrow> int \<Rightarrow> nat" where
  "clip n i = (if i < 0 then nat (int n + i) else min n (nat i))"

definition py_slice :: "int \<Rightarrow> int \<Rightarrow> 'a list \<Rightarrow> 'a list" where
  "py_slice a b xs = (let n = length xs; i = clip n a; j = clip n b in take (j - i) (drop i xs))"

definition filled :: "log_line list \<Rightarrow> log_line list" where
  "filled ls = filter (\<lambda>l. l \<noteq> BlankLine) ls"

definition load_events :: "int \<Rightarrow> int \<Rightarrow> string \<Rightarrow> fs \<Rightarrow> json list" where
  "load_events limit offset file w = (case dget (logs w) file of
      None \<Rightarrow> []
    | Some ls \<Rightarrow> log_records (py_slice offset (offset + limit) (filled ls)))"

definition list_events :: "int \<Rightarrow> int \<Rightarrow> string \<Rightarrow> fs \<Rightarrow> json" where
  "list_events limit offset file w = JObj
     [(''events'', JArr (load_events limit offset file w)),
      (''total'', JInt (case dget (logs w) file of None \<Rightarrow> 0 | Some ls \<Rightarrow> int (length (filled ls)))),
      (''limit'', JInt limit), (''offset'', JInt offset)]"

section \<open>The tailer\<close>

definition newline :: char where "newline = CHR 0x0A"

fun text_lines :: "string \<Rightarrow> string \<Rightarrow> string list" where
  "text_lines cur [] = (if cur = [] then [] else [cur])"
| "text_lines cur (c # cs) = (if c = newline then (cur @ [c]) # text_lines [] cs else text_lines (cur @ [c]) cs)"

definition decode_error :: exn where
  "decode_error = Exn ''JSONDecodeError'' ''''"

text \<open>The events one poll yields, and the exception that ends the generator, if one does.\<close>

fun yield_lines :: "string list \<Rightarrow> json list \<times> exn option" where
  "yield_lines [] = ([], None)"
| "yield_lines (l # ls) =
     (if strip l = [] then yield_lines ls
      else case loads l of
          None \<Rightarrow> ([], Some decode_error)
        | Some v \<Rightarrow> (case yield_lines ls of (vs, e) \<Rightarrow> (v # vs, e)))"

definition poll_tail :: "string option \<Rightarrow> nat \<Rightarrow> nat \<times> json list \<times> exn option" where
  "poll_tail file position = (case file of
      None \<Rightarrow> (position, [], None)
    | Some body \<Rightarrow> if length body \<le> position then (position, [], None)
        else (case yield_lines (text_lines [] (drop position body)) of
            (vs, Some e) \<Rightarrow> (position, vs, Some e)
          | (vs, None) \<Rightarrow> (length body, vs, None)))"

text \<open>The polls over what the file is at each of them; an exception ends the tailer.\<close>

fun run_tail :: "string option list \<Rightarrow> nat \<Rightarrow> nat \<times> json list \<times> exn option" where
  "run_tail [] position = (position, [], None)"
| "run_tail (f # fs) position = (case poll_tail f position of
      (p, vs, Some e) \<Rightarrow> (p, vs, Some e)
    | (p, vs, None) \<Rightarrow> (case run_tail fs p of (p', us, e) \<Rightarrow> (p', vs @ us, e)))"

section \<open>The fan-out\<close>

type_synonym sse = "(nat, json list) dict"

definition add_client :: "nat \<Rightarrow> sse \<Rightarrow> sse" where
  "add_client q m = m @ [(q, [])]"

definition sse_broadcast :: "json \<Rightarrow> sse \<Rightarrow> sse" where
  "sse_broadcast ev m = map (\<lambda>(q, es). (q, es @ [ev])) m"

definition remove_client :: "nat \<Rightarrow> sse \<Rightarrow> sse result" where
  "remove_client q m = (if dmem q m then Inr (ddel q m) else Inl (Exn ''ValueError'' ''list.remove(x): x not in list''))"

text \<open>\<open>q.get()\<close> of a stream: the oldest event, when there is one.\<close>

definition client_get :: "nat \<Rightarrow> sse \<Rightarrow> sse \<times> json option" where
  "client_get q m = (case dget m q of Some (ev # es) \<Rightarrow> (dset q es m, Some ev) | _ \<Rightarrow> (m, None))"

datatype sse_op = Connect nat | Publish json | Fetch nat | Disconnect nat

definition events_for :: "nat \<Rightarrow> nat \<Rightarrow> json option \<Rightarrow> json list" where
  "events_for q p ev = (case ev of Some v \<Rightarrow> if p = q then [v] else [] | None \<Rightarrow> [])"

text \<open>A run gives the clients at the end and what client \<open>q\<close> was sent.\<close>

fun run_sse :: "nat \<Rightarrow> sse_op list \<Rightarrow> sse \<Rightarrow> (sse \<times> json list) result" where
  "run_sse q [] m = Inr (m, [])"
| "run_sse q (Connect p # ops) m = run_sse q ops (add_client p m)"
| "run_sse q (Publish ev # ops) m = run_sse q ops (sse_broadcast ev m)"
| "run_sse q (Fetch p # ops) m = (case client_get p m of
     (m', ev) \<Rightarrow> bindr (run_sse q ops m') (\<lambda>(m'', sent). Inr (m'', events_for q p ev @ sent)))"
| "run_sse q (Disconnect p # ops) m = bindr (remove_client p m) (run_sse q ops)"

section \<open>The chat\<close>

record chat_message =
  cm_id :: "string option"
  cm_role :: string
  cm_content :: string

record message_store =
  ms_messages :: "chat_message list"
  ms_listeners :: "nat list"

definition chat_add :: "string \<Rightarrow> chat_message \<Rightarrow> message_store \<Rightarrow> message_store \<times> chat_message" where
  "chat_add uuid msg s = (let msg' = msg\<lparr>cm_id := Some (case cm_id msg of None \<Rightarrow> take 8 uuid
        | Some i \<Rightarrow> if i = [] then take 8 uuid else i)\<rparr>
     in (s\<lparr>ms_messages := ms_messages s @ [msg']\<rparr>, msg'))"

text \<open>\<open>xs[-limit:]\<close>.\<close>

definition chat_get_all :: "int \<Rightarrow> message_store \<Rightarrow> chat_message list" where
  "chat_get_all limit s = (let xs = ms_messages s in drop (clip (length xs) (- limit)) xs)"

definition chat_get_by_id :: "string \<Rightarrow> message_store \<Rightarrow> chat_message option" where
  "chat_get_by_id i s = find (\<lambda>m. cm_id m = Some i) (ms_messages s)"

fun remove_each :: "nat list \<Rightarrow> nat list \<Rightarrow> nat list" where
  "remove_each [] ls = ls"
| "remove_each (w # ws) ls = remove_each ws (removeAll w ls)"

text \<open>\<open>broadcast\<close>: every listener is tried, those whose sending raises are removed after.\<close>

definition chat_broadcast :: "(nat \<Rightarrow> bool) \<Rightarrow> message_store \<Rightarrow> message_store" where
  "chat_broadcast delivers s = (let disconnected = filter (\<lambda>w. \<not> delivers w) (ms_listeners s)
     in s\<lparr>ms_listeners := remove_each disconnected (ms_listeners s)\<rparr>)"

definition add_listener :: "nat \<Rightarrow> message_store \<Rightarrow> message_store" where
  "add_listener w s = s\<lparr>ms_listeners := ms_listeners s @ [w]\<rparr>"

definition remove_listener :: "nat \<Rightarrow> message_store \<Rightarrow> message_store" where
  "remove_listener w s = s\<lparr>ms_listeners := remove1 w (ms_listeners s)\<rparr>"

definition post_message :: "string \<Rightarrow> (nat \<Rightarrow> bool) \<Rightarrow> chat_message \<Rightarrow> message_store \<Rightarrow> message_store \<times> chat_message" where
  "post_message uuid delivers msg s = (case chat_add uuid msg s of (s', saved) \<Rightarrow> (chat_broadcast delivers s', saved))"

section \<open>Pages cover the log\<close>

lemma py_slice_page: "py_slice (int a) (int a + int n) xs = take n (drop a xs)"
proof -
  have "clip (length xs) (int a) = min (length xs) a" "clip (length xs) (int a + int n) = min (length xs) (a + n)"
    by (simp_all add: clip_def nat_add_distrib)
  then show ?thesis by (cases "a \<le> length xs") (auto simp: py_slice_def min_def Let_def)
qed

lemma pages_take: "concat (map (\<lambda>i. take n (drop (i * n) xs)) [0..<k]) = take (k * n) xs"
proof (induction k)
  case (Suc k)
  have "take (Suc k * n) xs = take (k * n) xs @ take n (drop (k * n) xs)"
    using take_add [of "k * n" n xs] by (simp add: add.commute)
  with Suc show ?case by simp
qed simp

lemma log_records_filled [simp]: "log_records (filled ls) = log_records ls"
  by (induction ls rule: log_records.induct) (simp_all add: filled_def)

lemma log_records_concat: "concat (map (\<lambda>i. log_records (f i)) ks) = log_records (concat (map f ks))"
  by (induction ks) simp_all

text \<open>The pages give every event once. For a page size that is positive and as many pages
  as cover the total that each page states, the pages in order are the readable events of
  the log, in order.\<close>

theorem pages_cover:
  assumes "0 < n" and "dget (logs w) file = Some ls" and "length (filled ls) \<le> k * n"
  shows "concat (map (\<lambda>i. load_events (int n) (int (i * n)) file w) [0..<k]) = log_records ls \<and>
    list_events (int n) off file w = JObj [(''events'', JArr (load_events (int n) off file w)),
      (''total'', JInt (int (length (filled ls)))), (''limit'', JInt (int n)), (''offset'', JInt off)]"
proof -
  have "load_events (int n) (int (i * n)) file w = log_records (take n (drop (i * n) (filled ls)))" for i
    using py_slice_page [of "i * n" n "filled ls"] assms(2) by (simp add: load_events_def)
  then have "concat (map (\<lambda>i. load_events (int n) (int (i * n)) file w) [0..<k]) = log_records (take (k * n) (filled ls))"
    by (simp only: log_records_concat pages_take)
  with assms(2,3) show ?thesis by (simp add: list_events_def)
qed

theorem pages_cover_witness:
  "concat (map (\<lambda>i. load_events 1 (int i) ''e'' \<lparr>docs = [], logs = [(''e'', [Rec (JInt 1), BlankLine, BadLine, Rec (JInt 2)])]\<rparr>) [0..<3])
     = [JInt 1, JInt 2]"
proof -
  let ?w = "\<lparr>docs = [], logs = [(''e'', [Rec (JInt 1), BlankLine, BadLine, Rec (JInt 2)])]\<rparr>"
  have "dget (logs ?w) ''e'' = Some [Rec (JInt 1), BlankLine, BadLine, Rec (JInt 2)]" by simp
  from pages_cover [of 1, OF _ this, of 3] show ?thesis by (simp add: filled_def)
qed

section \<open>The tailer gives every event once\<close>

definition whole_lines :: "string \<Rightarrow> bool" where
  "whole_lines s \<longleftrightarrow> s = [] \<or> last s = newline"

definition good_lines :: "string \<Rightarrow> bool" where
  "good_lines s \<longleftrightarrow> list_all (\<lambda>l. strip l = [] \<or> loads l \<noteq> None) (text_lines [] s)"

definition events_in :: "string \<Rightarrow> json list" where
  "events_in s = List.map_filter loads (filter (\<lambda>l. strip l \<noteq> []) (text_lines [] s))"

lemma text_lines_append:
  "whole_lines s \<Longrightarrow> s \<noteq> [] \<or> cur = [] \<Longrightarrow> text_lines cur (s @ t) = text_lines cur s @ text_lines [] t"
proof (induction s arbitrary: cur)
  case (Cons c s)
  then show ?case by (cases "s = []") (auto simp: whole_lines_def split: if_splits)
qed simp

lemma yield_good: "list_all (\<lambda>l. strip l = [] \<or> loads l \<noteq> None) ls \<Longrightarrow>
    yield_lines ls = (List.map_filter loads (filter (\<lambda>l. strip l \<noteq> []) ls), None)"
  by (induction ls) (auto simp: List.map_filter_simps)

definition grows :: "string \<Rightarrow> string \<Rightarrow> bool" where
  "grows s t \<longleftrightarrow> prefix s t \<and> whole_lines t \<and> good_lines t"

lemma events_in_append: "whole_lines s \<Longrightarrow> events_in (s @ t) = events_in s @ events_in t"
  by (simp add: events_in_def text_lines_append List.map_filter_def)

lemma poll_good:
  assumes "whole_lines s" "grows s t"
  shows "\<exists>vs. poll_tail (Some t) (length s) = (length t, vs, None) \<and> events_in t = events_in s @ vs"
proof -
  from assms(2) obtain u where t: "t = s @ u" by (auto simp: grows_def elim: prefixE)
  have g: "list_all (\<lambda>l. strip l = [] \<or> loads l \<noteq> None) (text_lines [] u)"
    using assms by (simp add: grows_def good_lines_def t text_lines_append)
  show ?thesis
    using yield_good [OF g] events_in_append [OF assms(1), of u]
    by (cases "u = []") (auto simp: poll_tail_def t events_in_def List.map_filter_simps)
qed

text \<open>C39: the tailer yields every event of the log exactly once and in order. While the log
  only grows, by whole lines of JSON, however its polls fall between the writes, what they
  yield together is what the log holds at the last one, and none of them raises.\<close>

theorem tail_exactly_once:
  assumes "successively grows (s # ts)" and "whole_lines s"
  shows "\<exists>vs. run_tail (map Some ts) (length s) = (length (last (s # ts)), vs, None) \<and>
    events_in (last (s # ts)) = events_in s @ vs"
  using assms
proof (induction ts arbitrary: s)
  case (Cons t ts)
  then have g: "grows s t" "whole_lines t" by (auto simp: grows_def)
  obtain vs where p: "poll_tail (Some t) (length s) = (length t, vs, None)" "events_in t = events_in s @ vs"
    using poll_good [OF Cons.prems(2) g(1)] by blast
  obtain us where r: "run_tail (map Some ts) (length t) = (length (last (t # ts)), us, None)"
      "events_in (last (t # ts)) = events_in t @ us"
    using Cons.IH [of t] Cons.prems g by auto
  from p r show ?case by auto
qed simp

definition one_line :: string where "one_line = ''1'' @ [newline]"
definition two_lines :: string where "two_lines = one_line @ ''2'' @ [newline]"

theorem tail_exactly_once_witness:
  "\<exists>p. run_tail (map Some [one_line, one_line, two_lines]) 0 = (p, [JInt 1, JInt 2], None)"
proof -
  have "prefix [] one_line \<and> prefix one_line one_line \<and> prefix one_line two_lines" by code_simp
  moreover have "whole_lines one_line \<and> good_lines one_line \<and> whole_lines two_lines \<and> good_lines two_lines" by code_simp
  ultimately have g: "successively grows [[], one_line, one_line, two_lines]" by (simp add: grows_def)
  have "events_in two_lines = [JInt 1, JInt 2]" "events_in [] = []" by code_simp+
  with tail_exactly_once [OF g] show ?thesis by (auto simp: whole_lines_def)
qed

text \<open>A poll that finds a line that is not yet complete raises, and the generator is over; a file
  that was cut and has not outgrown the old position yields nothing.\<close>

lemma half_line_ends_tailer:
  assumes "loads l = None" "strip l \<noteq> []" "text_lines [] (drop position body) = ls @ [l]" "list_all (\<lambda>l. strip l = [] \<or> loads l \<noteq> None) ls"
  shows "\<exists>vs. run_tail (Some body # fs) position = (position, vs, Some decode_error)"
proof -
  have "\<exists>vs. yield_lines (ls @ [l]) = (vs, Some decode_error)"
    using assms(1,2,4) by (induction ls) auto
  moreover have "\<not> length body \<le> position" using assms(3) by auto
  ultimately show ?thesis using assms(3) by (auto simp: poll_tail_def)
qed

lemma cut_log_unseen: "length body \<le> position \<Longrightarrow> poll_tail (Some body) position = (position, [], None)"
  by (simp add: poll_tail_def)

section \<open>The fan-out loses nothing\<close>

fun published :: "sse_op list \<Rightarrow> json list" where
  "published [] = []"
| "published (Publish ev # ops) = ev # published ops"
| "published (op # ops) = published ops"

definition disconnects :: "nat \<Rightarrow> sse_op \<Rightarrow> bool" where
  "disconnects q op \<longleftrightarrow> op = Disconnect q"

lemma dget_broadcast: "dget (sse_broadcast ev m) q = map_option (\<lambda>es. es @ [ev]) (dget m q)"
  by (induction m) (auto simp: sse_broadcast_def)

lemma dget_client_get:
  assumes "client_get p m = (m', ev)" "dget m q = Some es"
  shows "\<exists>es'. dget m' q = Some es' \<and> es = events_for q p ev @ es'"
  using assms by (auto simp: client_get_def events_for_def split: option.splits list.splits if_splits)

text \<open>C40: every connected client gets every event, in order. Whatever other clients come and go
  and however the deliveries and the sending interleave, what a client that stays connected
  was sent and what still waits in its queue is what waited at first and all that was
  published since.\<close>

theorem sse_complete:
  assumes "run_sse q ops m = Inr (m', sent)" and "dget m q = Some es" and "\<not> list_ex (disconnects q) ops"
  shows "\<exists>es'. dget m' q = Some es' \<and> es @ published ops = sent @ es'"
  using assms
proof (induction q ops m arbitrary: es sent rule: run_sse.induct)
  case (2 q p ops m)
  from 2(1) [of sent es] 2(2-) show ?case by (simp add: add_client_def disconnects_def)
next
  case (3 q ev ops m)
  from 3(1) [of sent "es @ [ev]"] 3(2-) show ?case by (simp add: dget_broadcast disconnects_def)
next
  case (4 q p ops m)
  obtain m1 ev where c: "client_get p m = (m1, ev)" by fastforce
  with 4(2) obtain sent' where r: "run_sse q ops m1 = Inr (m', sent')" "sent = events_for q p ev @ sent'"
    by (auto simp: bindr_Inr_iff)
  from dget_client_get [OF c 4(3)] obtain es1 where "dget m1 q = Some es1" "es = events_for q p ev @ es1" by blast
  with 4(1) [OF c [symmetric] r(1)] 4(4) r(2) show ?case by (auto simp: disconnects_def)
next
  case (5 q p ops m)
  then obtain m1 where m: "remove_client p m = Inr m1" "run_sse q ops m1 = Inr (m', sent)" by (auto simp: bindr_Inr_iff)
  with 5(3,4) have "dget m1 q = Some es" by (auto simp: remove_client_def disconnects_def split: if_splits)
  with 5(1) [OF m(2)] 5(4) show ?case by (auto simp: disconnects_def)
qed simp

theorem sse_complete_witness:
  "\<exists>m' sent es'. run_sse 1 [Publish (JInt 1), Connect 2, Publish (JInt 2), Fetch 1, Disconnect 2] [(1, [])] = Inr (m', sent) \<and>
     dget m' 1 = Some es' \<and> sent @ es' = [JInt 1, JInt 2]"
proof -
  let ?ops = "[Publish (JInt 1), Connect 2, Publish (JInt 2), Fetch 1, Disconnect 2]"
  obtain m' sent where r: "run_sse 1 ?ops [(1, [])] = Inr (m', sent)"
    by (simp add: add_client_def sse_broadcast_def client_get_def remove_client_def dmem_def events_for_def)
  have d: "\<not> list_ex (disconnects 1) ?ops" by (simp add: disconnects_def)
  have "dget [(1, [])] (1 :: nat) = Some ([] :: json list)" by simp
  from sse_complete [OF r this d] r show ?thesis by auto
qed

section \<open>The chat keeps messages and live listeners\<close>

lemma remove_each_filter: "remove_each ws ls = filter (\<lambda>w. w \<notin> set ws) ls"
  by (induction ws arbitrary: ls) (auto simp: removeAll_filter_not_eq intro: filter_cong)

lemma filter_kept: "remove_each (filter (\<lambda>w. \<not> P w) ls) ls = filter P ls"
  by (auto simp: remove_each_filter intro: filter_cong)

text \<open>A posted message is kept and can be read. It becomes the last message, it is what is
  found under its identifier unless an earlier message had that, the listeners that it
  did not reach are gone and the others stay, and reading back with a positive limit gives
  the last messages (a limit of zero gives all of them).\<close>

theorem post_message_exact:
  assumes "post_message uuid delivers msg s = (s', saved)"
  shows "ms_messages s' = ms_messages s @ [saved] \<and> ms_listeners s' = filter delivers (ms_listeners s) \<and>
    cm_role saved = cm_role msg \<and> cm_content saved = cm_content msg \<and>
    chat_get_by_id (the (cm_id saved)) s' = Some (case chat_get_by_id (the (cm_id saved)) s of None \<Rightarrow> saved | Some m \<Rightarrow> m) \<and>
    (\<forall>n. 0 < n \<longrightarrow> chat_get_all (int n) s' = drop (length (ms_messages s') - n) (ms_messages s')) \<and>
    chat_get_all 0 s' = ms_messages s'"
proof -
  from assms have s: "s' = \<lparr>ms_messages = ms_messages s @ [saved], ms_listeners = filter delivers (ms_listeners s)\<rparr>"
    and i: "\<exists>i. cm_id saved = Some i" "cm_role saved = cm_role msg" "cm_content saved = cm_content msg"
    using assms by (cases s; auto simp: post_message_def chat_add_def chat_broadcast_def filter_kept Let_def)+
  have f: "find P (xs @ [x]) = (case find P xs of None \<Rightarrow> if P x then Some x else None | Some y \<Rightarrow> Some y)" for P and xs :: "chat_message list" and x
    by (induction xs) auto
  have "clip (length xs) (- int n) = length xs - n" if "0 < n" for n and xs :: "chat_message list"
    using that by (simp add: clip_def)
  with s i show ?thesis
    by (auto simp: chat_get_by_id_def f chat_get_all_def Let_def clip_def split: option.splits)
qed

theorem post_message_exact_witness:
  "\<exists>s' saved. post_message ''abcdefghij'' (\<lambda>w. w = 1) \<lparr>cm_id = None, cm_role = ''user'', cm_content = ''hi''\<rparr>
      \<lparr>ms_messages = [], ms_listeners = [1, 2]\<rparr> = (s', saved) \<and> ms_messages s' = [saved] \<and> ms_listeners s' = [1]"
proof -
  obtain s' saved where p: "post_message ''abcdefghij'' (\<lambda>w. w = 1) \<lparr>cm_id = None, cm_role = ''user'', cm_content = ''hi''\<rparr>
      \<lparr>ms_messages = [], ms_listeners = [1, 2]\<rparr> = (s', saved)" by fastforce
  from post_message_exact [OF p] p show ?thesis by simp
qed

end
