(* ===== verification/Web_Metrics.thy ===== *)
theory Web_Metrics
  imports Web_Events Cost_Tracker
begin

text \<open>
  The metrics routes of \<open>src/webapp/routers/metrics.py\<close>: the cost tracker and the registry
  of the process, enriched with what a line by line reading of \<open>costs.jsonl\<close> finds. The
  file is the one \<open>src/observability/cost_tracker.py\<close> writes with
  \<open>json.dump(merged, f, indent=2)\<close>: its text is written out here, with the text of a float
  as the parameter \<open>frepr\<close>.
\<close>

section \<open>Reading the file line by line\<close>

fun cost_lines :: "string list \<Rightarrow> json list" where
  "cost_lines [] = []"
| "cost_lines (l # ls) =
     (if strip l = [] then cost_lines ls
      else case loads (strip l) of None \<Rightarrow> cost_lines ls | Some v \<Rightarrow> v # cost_lines ls)"

definition load_cost_events :: "string list option \<Rightarrow> json list" where
  "load_cost_events file = (case file of None \<Rightarrow> [] | Some ls \<Rightarrow> cost_lines ls)"

text \<open>\<open>d[k] = d.get(k, zero) + v\<close>, with the value as the key.\<close>

definition add_at :: "json \<Rightarrow> json \<Rightarrow> json \<Rightarrow> (json, json) dict \<Rightarrow> (json, json) dict result" where
  "add_at zero k v d = (if key_ok k then bindr (py_add (dgetd d k zero) v) (\<lambda>x. Inr (dset k x d))
     else Inl (Exn ''TypeError'' ''unhashable type''))"

fun fold_result :: "('a \<Rightarrow> 's \<Rightarrow> 's result) \<Rightarrow> 'a list \<Rightarrow> 's \<Rightarrow> 's result" where
  "fold_result f [] s = Inr s"
| "fold_result f (x # xs) s = bindr (f x s) (fold_result f xs)"

definition cost_of_event :: "json \<Rightarrow> (json, json) dict \<Rightarrow> (json, json) dict result" where
  "cost_of_event ev d = bindr (json_get ev ''cost'' (JFloat 0)) (\<lambda>c.
     bindr (json_get ev ''model'' (JStr ''unknown'')) (\<lambda>m. add_at (JFloat 0) m c d))"

record cost_view =
  cv_total :: real
  cv_by_agent :: "(string, real) dict"
  cv_by_model :: "(json, json) dict"
  cv_by_task :: "(string, real) dict"

definition get_cost_summary :: "cost_tracker \<Rightarrow> string list option \<Rightarrow> cost_view result" where
  "get_cost_summary ct file = (let s = cost_get_summary ct in
     bindr (fold_result cost_of_event (load_cost_events file) []) (\<lambda>by_model. Inr
       \<lparr>cv_total = cs_total s, cv_by_agent = cs_by_agent s,
        cv_by_model = (if by_model = [] then [(JStr ''default'', JFloat (cs_total s))] else by_model),
        cv_by_task = cs_by_task s\<rparr>))"

type_synonym token_tables = "(json, json) dict \<times> (json, json) dict"

definition tokens_of_event :: "json \<Rightarrow> token_tables \<Rightarrow> token_tables result" where
  "tokens_of_event ev = (\<lambda>(agents, models).
     bindr (json_get ev ''agent'' (JStr ''unknown'')) (\<lambda>a. bindr (json_get ev ''model'' (JStr ''unknown'')) (\<lambda>m.
     bindr (json_get ev ''input_tokens'' (JInt 0)) (\<lambda>i. bindr (json_get ev ''output_tokens'' (JInt 0)) (\<lambda>out.
     bindr (py_add i out) (\<lambda>t. bindr (add_at (JInt 0) a t agents) (\<lambda>agents'.
     bindr (add_at (JInt 0) m t models) (\<lambda>models'. Inr (agents', models')))))))))"

definition get_token_summary :: "metrics_registry \<Rightarrow> string list option \<Rightarrow> token_tables result" where
  "get_token_summary reg file =
     bindr (fold_result tokens_of_event (load_cost_events file) ([], [])) (\<lambda>(agents, models).
     bindr (fold_result (\<lambda>(a, t). add_at (JInt 0) (JStr a) (JInt t)) (mr_tokens reg) agents) (\<lambda>agents'. Inr (agents', models)))"

section \<open>What the tracker writes\<close>

definition escape_char :: "char \<Rightarrow> string" where
  "escape_char c = (let n = of_char c :: nat in
     if c = CHR 0x22 \<or> c = CHR 0x5C then [CHR 0x5C, c]
     else if n = 10 then [CHR 0x5C, CHR ''n'']
     else if n = 13 then [CHR 0x5C, CHR ''r'']
     else if n = 9 then [CHR 0x5C, CHR ''t'']
     else if n = 8 then [CHR 0x5C, CHR ''b'']
     else if n = 12 then [CHR 0x5C, CHR ''f'']
     else if n < 32 \<or> 126 < n then [CHR 0x5C, CHR ''u'', CHR ''0'', CHR ''0'', hex_digit (n div 16), hex_digit (n mod 16)]
     else [c])"

definition json_quote :: "string \<Rightarrow> string" where
  "json_quote s = CHR 0x22 # concat (map escape_char s) @ [CHR 0x22]"

definition indent_line :: "nat \<Rightarrow> string \<Rightarrow> string" where
  "indent_line n s = replicate n (CHR '' '') @ s @ [newline]"

definition with_commas :: "('a \<Rightarrow> string \<Rightarrow> string list) \<Rightarrow> 'a list \<Rightarrow> string list" where
  "with_commas f xs = (case rev xs of [] \<Rightarrow> []
     | x # ys \<Rightarrow> concat (map (\<lambda>y. f y '','') (rev ys)) @ f x [])"

definition agent_line :: "(real \<Rightarrow> string) \<Rightarrow> string \<times> real \<Rightarrow> string \<Rightarrow> string list" where
  "agent_line frepr = (\<lambda>(g, c) comma. [indent_line 4 (json_quote g @ '': '' @ frepr c @ comma)])"

definition task_lines :: "(real \<Rightarrow> string) \<Rightarrow> string \<times> (string, real) dict \<Rightarrow> string \<Rightarrow> string list" where
  "task_lines frepr = (\<lambda>(t, agents) comma.
     if agents = [] then [indent_line 2 (json_quote t @ '': {}'' @ comma)]
     else indent_line 2 (json_quote t @ '': {'') # with_commas (agent_line frepr) agents @ [indent_line 2 (''}'' @ comma)])"

definition costs_text :: "(real \<Rightarrow> string) \<Rightarrow> costs \<Rightarrow> string list" where
  "costs_text frepr d = (if d = [] then [''{}''] else [''{'' @ [newline]] @ with_commas (task_lines frepr) d @ [''}''])"

section \<open>No line of it is a value\<close>

lemma hex_digit_facts: "n < 16 \<Longrightarrow> hex_val (hex_digit n) = Some n \<and> (of_char (hex_digit n) :: nat) \<ge> 32"
  by (auto simp: hex_val_def hex_digit_def Let_def)

lemma p_chars_escape: "p_chars (escape_char c @ s) = cons_char c (p_chars s)"
proof -
  have n: "(of_char c :: nat) < 256" by simp
  have c: "char_of (of_char c :: nat) = c" by simp
  have z: "hex_val (CHR ''0'') = Some 0" by code_simp
  let ?n = "of_char c :: nat"
  have h: "hex4 (CHR ''0'') (CHR ''0'') (hex_digit (?n div 16)) (hex_digit (?n mod 16)) = Some c"
    using n hex_digit_facts [of "?n div 16"] hex_digit_facts [of "?n mod 16"] c z
    by (simp add: hex4_def less_mult_imp_div_less)
  have eq: "c = char_of k" if "?n = k" for k using that c by simp
  have ctl: "char_of (10 :: nat) = CHR 0x0A" "char_of (13 :: nat) = CHR 0x0D" "char_of (9 :: nat) = CHR 0x09"
    "char_of (8 :: nat) = CHR 0x08" "char_of (12 :: nat) = CHR 0x0C" by code_simp+
  show ?thesis
    using h eq [of 10] eq [of 13] eq [of 9] eq [of 8] eq [of 12]
    by (auto simp: escape_char_def Let_def unescape_def ctl)
qed

lemma p_chars_quote: "p_chars (concat (map escape_char s) @ CHR 0x22 # r) = Some (s, r)"
  by (induction s) (simp_all add: p_chars_escape cons_char_def)

text \<open>A key is read back as it is.\<close>

lemma loads_quote: "loads (json_quote s) = Some (JStr s)"
  by (simp add: loads_def json_quote_def skip_ws_def json_ws_def p_chars_quote)

lemma loads_key_line: "loads (json_quote k @ CHR '':'' # r) = None"
  by (simp add: loads_def json_quote_def skip_ws_def json_ws_def p_chars_quote)

lemma rstrip_keeps: "xs \<noteq> [] \<Longrightarrow> \<not> is_space (last xs) \<Longrightarrow> \<exists>zs. rstrip (xs @ ys) = xs @ zs"
proof (induction ys rule: rev_induct)
  case Nil
  with rstrip_id [of xs] show ?case by auto
next
  case (snoc y ys)
  have "rstrip (xs @ ys @ [y]) = (if is_space y then rstrip (xs @ ys) else xs @ ys @ [y])" by (simp add: rstrip_def)
  with snoc show ?case by auto
qed

lemma lstrip_indent: "lstrip (indent_line n s) = lstrip (s @ [newline])"
  by (induction n) (simp_all add: indent_line_def lstrip_def is_space_def)

text \<open>Every line of the text starts with a brace or is a key with a value.\<close>

definition no_value :: "string \<Rightarrow> bool" where
  "no_value l \<longleftrightarrow> strip l \<noteq> [] \<and> loads (strip l) = None"

lemma key_line_no_value: "no_value (indent_line n (json_quote k @ CHR '':'' # r))"
proof -
  have l: "lstrip (json_quote k @ CHR '':'' # r @ [newline]) = json_quote k @ CHR '':'' # r @ [newline]"
    by (rule lstrip_id) (simp add: json_quote_def is_space_def)
  have "\<not> is_space (last (json_quote k @ [CHR '':'']))" by (simp add: is_space_def)
  from rstrip_keeps [OF _ this, of "r @ [newline]"] obtain zs where
    "rstrip (json_quote k @ CHR '':'' # r @ [newline]) = json_quote k @ CHR '':'' # zs" by auto
  then have "strip (indent_line n (json_quote k @ CHR '':'' # r)) = json_quote k @ CHR '':'' # zs"
    by (simp add: strip_def lstrip_indent l)
  then show ?thesis by (simp add: no_value_def loads_key_line)
qed

lemma brace_no_value:
  "no_value (''{'' @ [newline])" "no_value ''}''" "no_value (indent_line 2 ''}'')" "no_value (indent_line 2 (''}'' @ '',''))"
  by code_simp+

lemma commas_no_value:
  assumes "\<And>x. x \<in> set xs \<Longrightarrow> list_all no_value (f x []) \<and> list_all no_value (f x '','')"
  shows "list_all no_value (with_commas f xs)"
  using assms by (cases xs rule: rev_cases) (auto simp: with_commas_def list_all_iff)

lemma costs_text_no_value: "d \<noteq> [] \<Longrightarrow> list_all no_value (costs_text frepr d)"
proof -
  have a: "list_all no_value (agent_line frepr x comma)" for x comma
    by (cases x) (simp add: agent_line_def key_line_no_value)
  have "list_all no_value (task_lines frepr x comma)" if "comma = [] \<or> comma = '',''" for x comma
    using that brace_no_value commas_no_value [of _ "agent_line frepr"] a
    by (cases x) (auto simp: task_lines_def key_line_no_value)
  then show "d \<noteq> [] \<Longrightarrow> ?thesis"
    using brace_no_value commas_no_value [of d "task_lines frepr"] by (simp add: costs_text_def)
qed

lemma cost_lines_none: "list_all no_value ls \<Longrightarrow> cost_lines ls = []"
  by (induction ls) (auto simp: no_value_def)

text \<open>The routes learn nothing from the costs file. For the text the tracker writes of any
  costs that are not empty, no line is a value: all the spend is put on one model called
  default, no tokens are found for any model, and the tokens by agent are those of the
  registry alone.\<close>

theorem costs_by_model_unseen:
  assumes "d \<noteq> []" and "dwf (mr_tokens reg)"
  shows "\<exists>v. get_cost_summary ct (Some (costs_text frepr d)) = Inr v \<and> cv_total v = get_total_spend ct \<and>
      cv_by_model v = [(JStr ''default'', JFloat (get_total_spend ct))] \<and>
    get_token_summary reg (Some (costs_text frepr d)) = Inr (map (\<lambda>(a, t). (JStr a, JInt t)) (mr_tokens reg), [])"
proof -
  have ev: "load_cost_events (Some (costs_text frepr d)) = []"
    using cost_lines_none [OF costs_text_no_value [OF assms(1)]] by (simp add: load_cost_events_def)
  have "fold_result (\<lambda>(a, t). add_at (JInt 0) (JStr a) (JInt t)) ts acc = Inr (acc @ map (\<lambda>(a, t). (JStr a, JInt t)) ts)"
    if "dwf ts" "\<forall>(a, t) \<in> set ts. dget acc (JStr a) = None" for ts acc
    using that
  proof (induction ts arbitrary: acc)
    case (Cons x ts)
    obtain a t where x: "x = (a, t)" by fastforce
    with Cons.prems have n: "dget acc (JStr a) = None" "dwf ts" "\<forall>(b, u) \<in> set ts. b \<noteq> a" by (auto simp: dwf_def image_iff)
    from n(3) Cons.prems(2) have "\<forall>(b, u) \<in> set ts. dget (acc @ [(JStr a, JInt t)]) (JStr b) = None"
      by (auto simp: map_add_def split: option.splits)
    with Cons.IH [OF n(2) this] n(1) x show ?case by (simp add: add_at_def key_ok_def dgetd_def py_add_def dset_absent)
  qed simp
  from this [of "mr_tokens reg" "[]"] ev assms(2) show ?thesis
    by (simp add: get_cost_summary_def get_token_summary_def cost_get_summary_def Let_def)
qed

theorem costs_by_model_unseen_witness:
  "\<exists>v. get_cost_summary \<lparr>ct_filename = ''c'', ct_data = [(''t'', [(''a'', 2)])]\<rparr> (Some (costs_text (\<lambda>r. ''2.0'') [(''t'', [(''a'', 2)])])) = Inr v \<and>
     cv_by_model v = [(JStr ''default'', JFloat 2)]"
proof -
  let ?ct = "\<lparr>ct_filename = ''c'', ct_data = [(''t'', [(''a'', 2)])]\<rparr>"
  have "dwf (mr_tokens \<lparr>mr_filename = ''m'', mr_agents = [], mr_tools = [], mr_tokens = []\<rparr>)" by simp
  from costs_by_model_unseen [OF _ this, of "[(''t'', [(''a'', 2)])]" ?ct "\<lambda>r. ''2.0''"] show ?thesis
    by (auto simp: get_total_spend_def agents_sum_def dvalues_def)
qed

end
