(* ===== verification/Main_Loop.thy ===== *)
theory Main_Loop
  imports Swarm_Ctl
begin

text \<open>
  The process of \<open>src/main.py\<close>: the decision to answer a prompt by the planner instead
  (\<open>_should_fallback_to_planner\<close>, a walk over the causes and contexts of an exception),
  one prompt, the autonomous loop, the single run, the self-prompt tick and \<open>main\<close>. The
  agent runner, the planner, the compiled graph and what happens while the process sleeps
  are functions on the world; the loops spend one unit of fuel per iteration.
\<close>

section \<open>Exceptions as objects\<close>

text \<open>Causes and contexts are references, so exceptions are kept by identity; they may form
  a cycle.\<close>

record exc_object =
  xo_decode :: bool
  xo_text :: string
  xo_cause :: "nat option"
  xo_context :: "nat option"

type_synonym exc_heap = "(nat, exc_object) dict"

definition malformed_json :: "exc_object \<Rightarrow> bool" where
  "malformed_json x \<longleftrightarrow> xo_decode x \<or> (let message = lower (xo_text x) in
     contains message ''tool'' \<and> contains message ''json'' \<and>
     list_ex (contains message) [''decode'', ''malformed'', ''invalid'', ''parse''])"

definition opt_list :: "'a option \<Rightarrow> 'a list" where
  "opt_list v = (case v of None \<Rightarrow> [] | Some x \<Rightarrow> [x])"

text \<open>The references pushed for an object; the stack has its top first.\<close>

definition exc_links :: "exc_heap \<Rightarrow> nat \<Rightarrow> nat list" where
  "exc_links h i = (case dget h i of None \<Rightarrow> []
     | Some x \<Rightarrow> opt_list (xo_context x) @ opt_list (xo_cause x))"

definition exc_hit :: "exc_heap \<Rightarrow> nat \<Rightarrow> bool" where
  "exc_hit h i = (case dget h i of None \<Rightarrow> False | Some x \<Rightarrow> malformed_json x)"

definition unseen :: "exc_heap \<Rightarrow> nat list \<Rightarrow> nat" where
  "unseen h seen = card (set (dkeys h) - set seen)"

lemma unseen_insert: "i \<in> set (dkeys h) \<Longrightarrow> i \<notin> set seen \<Longrightarrow> unseen h (i # seen) < unseen h seen"
  unfolding unseen_def by (rule psubset_card_mono) auto

lemma unseen_mono: "unseen h (i # seen) \<le> unseen h seen"
  unfolding unseen_def by (rule card_mono) auto

lemma exc_links_length: "length (exc_links h i) \<le> (if i \<in> set (dkeys h) then 2 else 0)"
  by (auto simp: exc_links_def opt_list_def dkeys_def split: option.splits dest: dget_in_set intro: image_eqI [rotated])

function fallback_walk :: "exc_heap \<Rightarrow> nat list \<Rightarrow> nat list \<Rightarrow> bool" where
  "fallback_walk h [] seen = False"
| "fallback_walk h (i # pending) seen =
     (if List.member seen i then fallback_walk h pending seen
      else if exc_hit h i then True
      else fallback_walk h (exc_links h i @ pending) (i # seen))"
  by pat_completeness auto

termination
proof (relation "measure (\<lambda>(h, pending, seen). 2 * unseen h seen + length pending)")
  fix h i pending seen
  assume n: "\<not> List.member seen i" "\<not> exc_hit h i"
  show "((h, exc_links h i @ pending, i # seen), h, i # pending, seen) \<in> measure (\<lambda>(h, pending, seen). 2 * unseen h seen + length pending)"
    using exc_links_length [of h i] unseen_insert [of i h seen] unseen_mono [of h i seen] n by (auto split: if_splits)
qed auto

definition should_fallback_to_planner :: "exc_heap \<Rightarrow> nat \<Rightarrow> bool" where
  "should_fallback_to_planner h exc = fallback_walk h [exc] []"

section \<open>One prompt\<close>

record 'a world =
  mw_fs :: fs
  mw_ctl :: control
  mw_rest :: 'a

text \<open>A run of the agents: the first text of each event that has one, and the exception that
  ended it, if one did, with its heap.\<close>

type_synonym 'a runner = "string \<Rightarrow> 'a world \<Rightarrow> 'a world \<times> string option list \<times> (exc_heap \<times> nat) option"
type_synonym 'a planner = "string \<Rightarrow> string \<Rightarrow> int \<Rightarrow> 'a world \<Rightarrow> 'a world \<times> string option result"

definition AUTONOMOUS_SYSTEM_PROMPT :: string where
  "AUTONOMOUS_SYSTEM_PROMPT =
     ''You are the Cognitive Foundry autonomous runtime. '' @
     ''Use registered tools exactly as named. '' @
     ''For remote GitHub repository exploration, use read_repo_file and list_repo_contents.''"

definition squote :: string where "squote = [CHR 0x27]"

definition build_autonomous_prompt :: "string \<Rightarrow> string" where
  "build_autonomous_prompt repo_name =
     ''First, use '' @ squote @ ''list_repo_contents'' @ squote @ '' to explore the '' @ squote @ repo_name @ squote @ '' repository. '' @
     ''Read key files in that repository with '' @ squote @ ''read_repo_file'' @ squote @ '' to understand its current state. '' @
     ''Then, identify high-priority improvements or missing features, '' @
     ''create structured tasks for them, and start the proactive ideation process. '' @
     ''Remember: You are the Cognitive Foundry swarm, and this repository is your development target.''"

definition run_autonomous_prompt :: "'a planner \<Rightarrow> string \<Rightarrow> 'a world \<Rightarrow> 'a world \<times> string option result" where
  "run_autonomous_prompt planner user_prompt w = planner user_prompt AUTONOMOUS_SYSTEM_PROMPT 8 w"

definition nonempty_text :: "string option \<Rightarrow> string option" where
  "nonempty_text v = (case v of None \<Rightarrow> None | Some s \<Rightarrow> if s = [] then None else Some s)"

definition swarm_line :: "string \<Rightarrow> string" where
  "swarm_line s = ''Swarm: '' @ s"

definition answer_lines :: "string option list \<Rightarrow> string list" where
  "answer_lines evs = map swarm_line (List.map_filter nonempty_text evs)"

record prompt_failure =
  pf_message :: string
  pf_stage :: string
  pf_planner :: bool

definition exc_message :: "exc_heap \<Rightarrow> nat \<Rightarrow> string" where
  "exc_message h i = (case dget h i of None \<Rightarrow> [] | Some x \<Rightarrow> xo_text x)"

definition process_prompt ::
  "'a runner \<Rightarrow> 'a planner \<Rightarrow> string \<Rightarrow> 'a world \<Rightarrow> 'a world \<times> string list \<times> (prompt_failure + unit)" where
  "process_prompt runner planner user_query w =
     (case runner user_query w of
        (w1, evs, None) \<Rightarrow> (w1, answer_lines evs, Inr ())
      | (w1, evs, Some (h, e)) \<Rightarrow>
          if should_fallback_to_planner h e
          then (case run_autonomous_prompt planner user_query w1 of
                  (w2, Inl x) \<Rightarrow> (w2, answer_lines evs,
                     Inl \<lparr>pf_message = ''Planner fallback failed: '' @ exn_msg x, pf_stage = ''planner_fallback'', pf_planner = True\<rparr>)
                | (w2, Inr resp) \<Rightarrow> (case nonempty_text resp of
                     Some s \<Rightarrow> (w2, answer_lines evs @ [swarm_line s], Inr ())
                   | None \<Rightarrow> (w2, answer_lines evs,
                       Inl \<lparr>pf_message = ''Planner fallback returned empty response'', pf_stage = ''planner_fallback_empty'', pf_planner = True\<rparr>)))
          else (w1, answer_lines evs,
             Inl \<lparr>pf_message = ''ADK execution failed: '' @ exc_message h e, pf_stage = ''adk_execution'', pf_planner = False\<rparr>))"

section \<open>The autonomous loop\<close>

text \<open>The text of an entry: it must be a dictionary, and its prompt a text (the content of a
  message is built from it before anything is tried).\<close>

definition entry_prompt :: "json \<Rightarrow> string result" where
  "entry_prompt v = (case v of
      JObj d \<Rightarrow> (case dgetd d ''prompt'' (JStr []) of JStr s \<Rightarrow> Inr s | _ \<Rightarrow> Inl (validation_error ''text''))
    | _ \<Rightarrow> Inl (attribute_error ''get''))"

text \<open>A batch: the prompts handed to the agents, and the message of the error that ended it.\<close>

fun process_batch ::
  "'a runner \<Rightarrow> 'a planner \<Rightarrow> json list \<Rightarrow> 'a world \<Rightarrow> 'a world \<times> string list \<times> string option" where
  "process_batch runner planner [] w = (w, [], None)"
| "process_batch runner planner (e # es) w = (case entry_prompt e of
      Inl x \<Rightarrow> (w, [], Some (exn_msg x))
    | Inr p \<Rightarrow> (case process_prompt runner planner p w of
        (w1, ls, Inl f) \<Rightarrow> (w1, [p], Some (pf_message f))
      | (w1, ls, Inr _) \<Rightarrow> (case process_batch runner planner es w1 of (w2, ps, r) \<Rightarrow> (w2, p # ps, r))))"

definition take_prompts :: "'a world \<Rightarrow> 'a world \<times> json list" where
  "take_prompts w = (case dequeue_prompts (mw_fs w) of (f, es) \<Rightarrow> (w\<lparr>mw_fs := f\<rparr>, es))"

text \<open>\<open>SwarmLoopError\<close> with its iteration; every one is marked recoverable and raised.\<close>

datatype loop_end = Stopped | Failed nat string | Running

definition loop_iteration ::
  "'a runner \<Rightarrow> 'a planner \<Rightarrow> 'a world \<Rightarrow> 'a world \<times> string list \<times> string option" where
  "loop_iteration runner planner w =
     (case take_prompts w of (w1, es) \<Rightarrow> process_batch runner planner es w1)"

fun swarm_loop ::
  "nat \<Rightarrow> (nat \<Rightarrow> 'a world \<Rightarrow> 'a world) \<Rightarrow> 'a runner \<Rightarrow> 'a planner \<Rightarrow> nat \<Rightarrow> 'a world \<Rightarrow> 'a world \<times> string list \<times> loop_end" where
  "swarm_loop 0 asleep runner planner k w = (w, [], Running)"
| "swarm_loop (Suc n) asleep runner planner k w =
     (if is_shutdown_requested (mw_ctl w) then (w, [], Stopped)
      else case loop_iteration runner planner w of
          (w1, ps, Some m) \<Rightarrow> (w1, ps, Failed (Suc k) (''Loop iteration failed: '' @ m))
        | (w1, ps, None) \<Rightarrow> (case swarm_loop n asleep runner planner (Suc k) (asleep (Suc k) w1) of
            (w2, qs, r) \<Rightarrow> (w2, ps @ qs, r)))"

definition should_use_planner :: "string \<Rightarrow> bool" where
  "should_use_planner model_name = startswith model_name ''ollama/elephant''"

text \<open>\<open>_get_graph_orchestrator\<close>: the module's orchestrator, made on first use where the flag
  is set and the package can be imported.\<close>

definition get_graph_orchestrator :: "bool \<Rightarrow> 'g option \<Rightarrow> 'g option \<Rightarrow> 'g option" where
  "get_graph_orchestrator enabled made held = (case held of Some g \<Rightarrow> Some g | None \<Rightarrow> if enabled then made else None)"

text \<open>The first prompt: by the compiled graph, the planner, or the agents.\<close>

definition initial_prompt ::
  "('a world \<Rightarrow> 'a world \<times> unit result) option \<Rightarrow> string \<Rightarrow> 'a runner \<Rightarrow> 'a planner \<Rightarrow> 'a world \<Rightarrow> 'a world \<times> string option" where
  "initial_prompt graph model runner planner w =
     (let q = build_autonomous_prompt ''project-chimera'' in
      case graph of
        Some invoke \<Rightarrow> (case invoke w of (w1, Inl x) \<Rightarrow> (w1, Some (exn_msg x)) | (w1, Inr _) \<Rightarrow> (w1, None))
      | None \<Rightarrow>
          if should_use_planner model
          then (case run_autonomous_prompt planner q w of (w1, Inl x) \<Rightarrow> (w1, Some (exn_msg x)) | (w1, Inr _) \<Rightarrow> (w1, None))
          else (case process_prompt runner planner q w of
              (w1, ls, Inl f) \<Rightarrow> (w1, Some (pf_message f)) | (w1, ls, Inr _) \<Rightarrow> (w1, None)))"

definition run_swarm_loop ::
  "nat \<Rightarrow> (nat \<Rightarrow> 'a world \<Rightarrow> 'a world) \<Rightarrow> ('a world \<Rightarrow> 'a world \<times> unit result) option \<Rightarrow> string \<Rightarrow> 'a runner \<Rightarrow> 'a planner
    \<Rightarrow> 'a world \<Rightarrow> 'a world \<times> string list \<times> loop_end" where
  "run_swarm_loop n asleep graph model runner planner w =
     (case initial_prompt graph model runner planner w of
        (w1, Some m) \<Rightarrow> (w1, [], Failed 0 (''Initial prompt failed: '' @ m))
      | (w1, None) \<Rightarrow> swarm_loop n asleep runner planner 0 w1)"

definition run_single :: "'a runner \<Rightarrow> 'a planner \<Rightarrow> 'a world \<Rightarrow> 'a world \<times> string list \<times> string option" where
  "run_single runner planner w = (case take_prompts w of (w1, es) \<Rightarrow> process_batch runner planner es w1)"

section \<open>The self-prompt tick\<close>

text \<open>The loop of the background task: the number of ticks and how it ends.\<close>

fun tick_loop ::
  "nat \<Rightarrow> ('a world \<Rightarrow> bool) \<Rightarrow> ('a world \<Rightarrow> 'a world \<times> unit result) \<Rightarrow> ('a world \<Rightarrow> 'a world) \<Rightarrow> nat \<Rightarrow> 'a world \<Rightarrow> 'a world \<times> nat \<times> loop_end" where
  "tick_loop 0 off once nap k w = (w, k, Running)"
| "tick_loop (Suc n) off once nap k w =
     (if is_shutdown_requested (mw_ctl w) \<or> off w then (w, k, Stopped)
      else case once w of
          (w1, Inl e) \<Rightarrow> (w1, Suc k, Failed (Suc k) (''Self-prompt tick failed at count '' @ str_of_nat (Suc k) @ '': '' @ exn_msg e))
        | (w1, Inr _) \<Rightarrow> tick_loop n off once nap (Suc k) (nap w1))"

definition self_prompt_tick where
  "self_prompt_tick n enabled off once nap w = (if \<not> enabled then (w, 0, Stopped) else tick_loop n off once nap 0 w)"

section \<open>The process\<close>

datatype main_error =
    SwarmStartupError "string option" string
  | ConfigurationError string

datatype main_end = Exited | Raised main_error | StillRunning

text \<open>What \<open>main\<close> is given: the session service, the session and the runner, each of which may
  raise, and the environment variables.\<close>

record 'a startup =
  su_service :: "'a world \<Rightarrow> 'a world \<times> unit result"
  su_session :: "'a world \<Rightarrow> 'a world \<times> unit result"
  su_runner :: "unit result"
  su_api_key :: string
  su_autonomous :: string

definition startup_failed :: "string \<Rightarrow> string \<Rightarrow> exn \<Rightarrow> main_end" where
  "startup_failed component doing e = Raised (SwarmStartupError (Some component) (''Failed to '' @ doing @ '': '' @ exn_msg e))"

definition unexpected :: "string \<Rightarrow> main_end" where
  "unexpected m = Raised (SwarmStartupError None (''Unexpected error: '' @ m))"

definition main_body ::
  "nat \<Rightarrow> (nat \<Rightarrow> 'a world \<Rightarrow> 'a world) \<Rightarrow> ('a world \<Rightarrow> 'a world \<times> unit result) option \<Rightarrow> string \<Rightarrow> 'a runner \<Rightarrow> 'a planner
    \<Rightarrow> 'a startup \<Rightarrow> 'a world \<Rightarrow> 'a world \<times> string list \<times> main_end" where
  "main_body n asleep graph model runner planner su w =
     (case su_service su w of
        (w1, Inl e) \<Rightarrow> (w1, [], startup_failed ''session_service'' ''initialize session service'' e)
      | (w1, Inr _) \<Rightarrow> (case su_session su w1 of
          (w2, Inl e) \<Rightarrow> (w2, [], startup_failed ''session_creation'' ''create session'' e)
        | (w2, Inr _) \<Rightarrow> (case su_runner su of
            Inl e \<Rightarrow> (w2, [], startup_failed ''runner'' ''initialize runner'' e)
          | Inr _ \<Rightarrow>
              if su_api_key su = [] then (w2, [], Raised (ConfigurationError ''ollama_API_KEY''))
              else if lower (su_autonomous su) = ''true''
              then (case run_swarm_loop n asleep graph model runner planner w2 of
                  (w3, ps, Failed i m) \<Rightarrow> (w3, ps, unexpected m)
                | (w3, ps, Stopped) \<Rightarrow> (w3, ps, Exited)
                | (w3, ps, Running) \<Rightarrow> (w3, ps, StillRunning))
              else (case run_single runner planner w2 of
                  (w3, ps, Some m) \<Rightarrow> (w3, ps, unexpected m)
                | (w3, ps, None) \<Rightarrow> (w3, ps, Exited)))))"

definition main_process ::
  "nat \<Rightarrow> (nat \<Rightarrow> 'a world \<Rightarrow> 'a world) \<Rightarrow> ('a world \<Rightarrow> 'a world \<times> unit result) option \<Rightarrow> string \<Rightarrow> 'a runner \<Rightarrow> 'a planner
    \<Rightarrow> 'a startup \<Rightarrow> nat \<Rightarrow> 'a world \<Rightarrow> 'a world \<times> string list \<times> main_end" where
  "main_process n asleep graph model runner planner su pid w =
     (case main_body n asleep graph model runner planner su
             (w\<lparr>mw_ctl := write_pid pid (clear_shutdown (mw_ctl w))\<rparr>) of
        (w1, ps, StillRunning) \<Rightarrow> (w1, ps, StillRunning)
      | (w1, ps, r) \<Rightarrow> (w1\<lparr>mw_ctl := clear_shutdown (clear_pid (mw_ctl w1))\<rparr>, ps, r))"

section \<open>The walk finds exactly what is reachable\<close>

definition exc_edge :: "exc_heap \<Rightarrow> nat \<Rightarrow> nat \<Rightarrow> bool" where
  "exc_edge h i j \<longleftrightarrow> (\<exists>x. dget h i = Some x \<and> (xo_cause x = Some j \<or> xo_context x = Some j))"

lemma exc_links_edge: "j \<in> set (exc_links h i) \<longleftrightarrow> exc_edge h i j"
  by (cases "dget h i") (auto simp: exc_links_def exc_edge_def opt_list_def split: option.splits)

text \<open>A path to a hit that meets no object already seen.\<close>

inductive fresh_path :: "exc_heap \<Rightarrow> nat set \<Rightarrow> nat \<Rightarrow> bool" for h seen where
  here: "i \<notin> seen \<Longrightarrow> exc_hit h i \<Longrightarrow> fresh_path h seen i"
| there: "i \<notin> seen \<Longrightarrow> exc_edge h i j \<Longrightarrow> fresh_path h seen j \<Longrightarrow> fresh_path h seen i"

inductive_cases fresh_pathE: "fresh_path h seen i"

lemma fresh_path_mono: "fresh_path h seen i \<Longrightarrow> seen' \<subseteq> seen \<Longrightarrow> fresh_path h seen' i"
  by (induction rule: fresh_path.induct) (auto intro: fresh_path.intros)

lemma fresh_path_cut:
  "fresh_path h seen i \<Longrightarrow> \<not> exc_hit h c \<Longrightarrow>
     fresh_path h (insert c seen) i \<or> (\<exists>j. exc_edge h c j \<and> fresh_path h (insert c seen) j)"
  by (induction rule: fresh_path.induct) (auto intro: fresh_path.intros)

lemma fallback_walk_path: "fallback_walk h pending seen \<longleftrightarrow> (\<exists>i \<in> set pending. fresh_path h (set seen) i)"
proof (induction h pending seen rule: fallback_walk.induct)
  case (2 h i pending seen)
  consider "i \<in> set seen" | "i \<notin> set seen" "exc_hit h i" | (go) "i \<notin> set seen" "\<not> exc_hit h i" by blast
  then show ?case
  proof cases
    case 1
    with 2(1) show ?thesis by (auto elim: fresh_pathE)
  next
    case 2
    then show ?thesis by (auto intro: fresh_path.here)
  next
    case go
    have "(\<exists>j \<in> set (exc_links h i @ pending). fresh_path h (insert i (set seen)) j) \<longleftrightarrow>
        (\<exists>j \<in> set (i # pending). fresh_path h (set seen) j)"
    proof
      assume "\<exists>j \<in> set (exc_links h i @ pending). fresh_path h (insert i (set seen)) j"
      then obtain j where j: "j \<in> set (exc_links h i @ pending)" "fresh_path h (set seen) j"
        using fresh_path_mono by blast
      then show "\<exists>j \<in> set (i # pending). fresh_path h (set seen) j"
        using go(1) by (auto simp: exc_links_edge intro: fresh_path.there)
    next
      assume "\<exists>j \<in> set (i # pending). fresh_path h (set seen) j"
      then obtain j where j: "j \<in> set (i # pending)" "fresh_path h (set seen) j" by blast
      have not_i: "\<not> fresh_path h (insert i (set seen)) i" by (auto elim: fresh_pathE)
      from fresh_path_cut [OF j(2) go(2)] show "\<exists>j \<in> set (exc_links h i @ pending). fresh_path h (insert i (set seen)) j"
        using j(1) not_i by (auto simp: exc_links_edge)
    qed
    with 2(2) go show ?thesis by simp
  qed
qed simp

lemma fresh_path_reaches: "fresh_path h {} i \<longleftrightarrow> (\<exists>j. (exc_edge h)\<^sup>*\<^sup>* i j \<and> exc_hit h j)"
proof
  assume "fresh_path h {} i"
  then show "\<exists>j. (exc_edge h)\<^sup>*\<^sup>* i j \<and> exc_hit h j"
    by (induction rule: fresh_path.induct) (auto intro: converse_rtranclp_into_rtranclp)
next
  assume "\<exists>j. (exc_edge h)\<^sup>*\<^sup>* i j \<and> exc_hit h j"
  then obtain j where "(exc_edge h)\<^sup>*\<^sup>* i j" "exc_hit h j" by blast
  then show "fresh_path h {} i"
    by (induction rule: converse_rtranclp_induct) (auto intro: fresh_path.intros)
qed

text \<open>C29: the planner is tried exactly when it should be. The walk over causes and contexts
  ends on every heap of exceptions, cycles included, and says yes exactly when an exception
  reachable from the one raised is a decoding error or tells of malformed JSON of a tool.\<close>

theorem fallback_exact:
  "should_fallback_to_planner h exc \<longleftrightarrow> (\<exists>j. (exc_edge h)\<^sup>*\<^sup>* exc j \<and> exc_hit h j)"
  by (simp add: should_fallback_to_planner_def fallback_walk_path fresh_path_reaches)

section \<open>One prompt, exactly\<close>

text \<open>What becomes of a prompt. It is answered exactly when the agents finish, or when they
  fail on malformed JSON and the planner gives a text; every failure names its stage, and
  the planner is called, on the same prompt, only after such a failure.\<close>

theorem process_prompt_exact:
  "case runner q w of (w1, evs, res) \<Rightarrow>
     (case res of
        None \<Rightarrow> process_prompt runner planner q w = (w1, answer_lines evs, Inr ())
      | Some (h, e) \<Rightarrow>
          if \<not> (\<exists>j. (exc_edge h)\<^sup>*\<^sup>* e j \<and> exc_hit h j)
          then \<exists>f. process_prompt runner planner q w = (w1, answer_lines evs, Inl f) \<and> pf_stage f = ''adk_execution'' \<and> \<not> pf_planner f
          else (case planner q AUTONOMOUS_SYSTEM_PROMPT 8 w1 of (w2, r) \<Rightarrow>
            if \<exists>s. r = Inr (Some s) \<and> s \<noteq> []
            then \<exists>s. r = Inr (Some s) \<and> process_prompt runner planner q w = (w2, answer_lines evs @ [swarm_line s], Inr ())
            else \<exists>f. process_prompt runner planner q w = (w2, answer_lines evs, Inl f) \<and> pf_planner f \<and>
              pf_stage f = (case r of Inl x \<Rightarrow> ''planner_fallback'' | Inr x \<Rightarrow> ''planner_fallback_empty'')))"
  by (auto simp: process_prompt_def run_autonomous_prompt_def nonempty_text_def fallback_walk_path fresh_path_reaches
      should_fallback_to_planner_def split: prod.splits option.splits sum.splits)

section \<open>The loop\<close>

definition queue_now :: "'a world \<Rightarrow> json list" where
  "queue_now w = peek_prompts (mw_fs w)"

definition keeps_queue :: "'a runner \<Rightarrow> 'a planner \<Rightarrow> bool" where
  "keeps_queue runner planner \<longleftrightarrow> (\<forall>q w. queue_now (fst (process_prompt runner planner q w)) = queue_now w)"

definition serves :: "'a runner \<Rightarrow> 'a planner \<Rightarrow> bool" where
  "serves runner planner \<longleftrightarrow> (\<forall>q w. snd (snd (process_prompt runner planner q w)) = Inr ())"

lemma take_prompts_queue: "take_prompts w = (w1, es) \<Longrightarrow> es = queue_now w \<and> queue_now w1 = [] \<and> mw_ctl w1 = mw_ctl w"
  by (auto simp: take_prompts_def queue_now_def split: prod.splits dest: peek_dequeue)

text \<open>A batch hands over a beginning of the entries, all of them unless it fails.\<close>

lemma process_batch_prefix:
  "process_batch runner planner es w = (w', ps, r) \<Longrightarrow>
     \<exists>front rest. es = front @ rest \<and> map entry_prompt front = map Inr ps \<and> (r = None \<longrightarrow> rest = [])"
proof (induction es arbitrary: w w' ps r)
  case (Cons e es)
  show ?case
  proof (cases "entry_prompt e")
    case (Inl x)
    with Cons.prems show ?thesis by (auto intro: exI [of _ "[]"])
  next
    case (Inr p)
    obtain w1 ls r1 where p: "process_prompt runner planner p w = (w1, ls, r1)" by (metis prod_cases3)
    show ?thesis
    proof (cases r1)
      case (Inl f)
      with Cons.prems \<open>entry_prompt e = Inr p\<close> p have "e # es = [e] @ es \<and> map entry_prompt [e] = map Inr ps \<and> (r = None \<longrightarrow> es = [])" by auto
      then show ?thesis by blast
    next
      case (Inr u)
      obtain w2 qs r2 where b: "process_batch runner planner es w1 = (w2, qs, r2)" by (metis prod_cases3)
      from Cons.IH [OF b] obtain ds rest where "es = ds @ rest" "map entry_prompt ds = map Inr qs" "r2 = None \<longrightarrow> rest = []" by blast
      with Cons.prems \<open>entry_prompt e = Inr p\<close> p Inr b have "e # es = (e # ds) @ rest \<and> map entry_prompt (e # ds) = map Inr ps \<and> (r = None \<longrightarrow> rest = [])" by auto
      then show ?thesis by blast
    qed
  qed
qed simp

lemma process_batch_queue:
  assumes "keeps_queue runner planner"
  shows "process_batch runner planner es w = (w', ps, r) \<Longrightarrow> queue_now w' = queue_now w"
proof (induction es arbitrary: w w' ps r)
  case (Cons e es)
  have k: "queue_now w1 = queue_now w" if "process_prompt runner planner p w = (w1, ls, x)" for p w1 ls x
    using assms that unfolding keeps_queue_def by (metis fst_conv)
  show ?case using Cons.prems Cons.IH k by (fastforce split: sum.split_asm prod.split_asm)
qed simp

text \<open>C33: one failing prompt takes the rest of the batch with it. When an iteration of the loop
  fails, the loop is over, although its error is called recoverable, and the queue file is empty:
  of the prompts that were in it a beginning was handed to the agents and the others are neither
  handed over nor left in the queue.\<close>

theorem failing_prompt_drops_batch:
  assumes "keeps_queue runner planner" and "\<not> is_shutdown_requested (mw_ctl w)"
    and "loop_iteration runner planner w = (w1, ps, Some m)"
  shows "swarm_loop (Suc n) asleep runner planner k w = (w1, ps, Failed (Suc k) (''Loop iteration failed: '' @ m)) \<and>
    queue_now w1 = [] \<and> (\<exists>handed lost. queue_now w = handed @ lost \<and> map entry_prompt handed = map Inr ps)"
proof -
  obtain w0 es where t: "take_prompts w = (w0, es)" by fastforce
  with assms(3) have b: "process_batch runner planner es w0 = (w1, ps, Some m)" by (simp add: loop_iteration_def)
  from process_batch_prefix [OF b] process_batch_queue [OF assms(1) b] take_prompts_queue [OF t] assms(2,3)
  show ?thesis by auto
qed

lemma process_batch_serves:
  assumes "serves runner planner" "list_all (\<lambda>e. \<exists>p. entry_prompt e = Inr p) es"
  shows "process_batch runner planner es w = (w', ps, r) \<Longrightarrow> r = None \<and> map Inr ps = map entry_prompt es"
  using assms(2)
proof (induction es arbitrary: w w' ps r)
  case (Cons e es)
  then obtain p where p: "entry_prompt e = Inr p" by auto
  obtain w1 ls where q: "process_prompt runner planner p w = (w1, ls, Inr ())"
    using assms(1) unfolding serves_def by (metis prod.collapse)
  obtain w2 qs r2 where b: "process_batch runner planner es w1 = (w2, qs, r2)" by (metis prod_cases3)
  from Cons.IH [OF b] Cons.prems p q b show ?case by auto
qed simp

definition puts_only :: "(nat \<Rightarrow> 'a world \<Rightarrow> 'a world) \<Rightarrow> (nat \<Rightarrow> json list) \<Rightarrow> bool" where
  "puts_only asleep put \<longleftrightarrow> (\<forall>k w. queue_now (asleep k w) = queue_now w @ put k) \<and> (\<forall>k. list_all (\<lambda>e. \<exists>p. entry_prompt e = Inr p) (put k))"


text \<open>C38: A stop request ends the loop. When the sentinel appears while the loop sleeps after
  some iteration, the loop is over within the next one, whatever else happens; it has
  stopped unless a prompt failed before.\<close>

theorem stop_request_ends_loop:
  assumes "\<And>w. is_shutdown_requested (mw_ctl (asleep j w))" and "k < j" and "j - k < n"
    and "swarm_loop n asleep runner planner k w = (w', ps, r)"
  shows "r = Stopped \<or> (\<exists>i m. r = Failed i m \<and> i \<le> j)"
  using assms(2-)
proof (induction n arbitrary: k w w' ps r)
  case (Suc n)
  show ?case
  proof (cases "is_shutdown_requested (mw_ctl w)")
    case True
    with Suc.prems show ?thesis by simp
  next
    case False
    obtain w1 qs r1 where b: "loop_iteration runner planner w = (w1, qs, r1)" by (metis prod_cases3)
    show ?thesis
    proof (cases r1)
      case (Some m)
      with False b Suc.prems show ?thesis by auto
    next
      case None
      obtain w2 ps2 r2 where l: "swarm_loop n asleep runner planner (Suc k) (asleep (Suc k) w1) = (w2, ps2, r2)" by (metis prod_cases3)
      with None b False Suc.prems(3) have r: "r = r2" by auto
      show ?thesis
      proof (cases "Suc k = j")
        case True
        from Suc.prems(2) True obtain n' where "n = Suc n'" by (cases n) auto
        with l True assms(1) r show ?thesis by auto
      next
        case False
        with Suc.IH [OF _ _ l] Suc.prems(1,2) r show ?thesis by auto
      qed
    qed
  qed
qed simp

section \<open>Start and end\<close>

text \<open>The process cleans up. However it ends, by an error at the start, a failed prompt, a
  stop request or an empty queue, there is no sentinel and no PID file afterwards.\<close>

theorem main_cleans_up:
  assumes "main_process n asleep graph model runner planner su pid w = (w', ps, r)" and "r \<noteq> StillRunning"
  shows "\<not> is_shutdown_requested (mw_ctl w') \<and> get_swarm_pid (mw_ctl w') = None"
proof -
  obtain w1 qs r1 where b: "main_body n asleep graph model runner planner su (w\<lparr>mw_ctl := write_pid pid (clear_shutdown (mw_ctl w))\<rparr>) = (w1, qs, r1)"
    by (metis prod_cases3)
  with assms have "mw_ctl w' = clear_shutdown (clear_pid (mw_ctl w1))"
    by (cases r1) (auto simp: main_process_def)
  then show ?thesis by (simp add: is_shutdown_requested_def clear_shutdown_def clear_pid_def get_swarm_pid_def)
qed

text \<open>A stop request made before the process starts is not served: the run is the one
  without it. (The sentinel is cleared first.)\<close>

theorem early_stop_ignored:
  "main_process n asleep graph model runner planner su pid (w\<lparr>mw_ctl := request_shutdown t (mw_ctl w)\<rparr>) =
   main_process n asleep graph model runner planner su pid w"
  by (simp add: main_process_def request_shutdown_def clear_shutdown_def)

text \<open>An error of the loop, though marked recoverable, leaves the process as an error of the start.\<close>

lemma loop_error_is_startup_error:
  assumes "su_service su w = (w1, Inr ())" "su_session su w1 = (w2, Inr ())" "su_runner su = Inr ()" "su_api_key su \<noteq> []"
    "lower (su_autonomous su) = ''true''" "run_swarm_loop n asleep graph model runner planner w2 = (w3, ps, Failed i m)"
  shows "main_body n asleep graph model runner planner su w = (w3, ps, Raised (SwarmStartupError None (''Unexpected error: '' @ m)))"
  using assms by (simp add: main_body_def unexpected_def)

text \<open>The first crash of the self-prompting ends the background task.\<close>

lemma first_crash_ends_tick:
  "\<not> is_shutdown_requested (mw_ctl w) \<Longrightarrow> \<not> off w \<Longrightarrow> once w = (w1, Inl e) \<Longrightarrow>
     \<exists>m. self_prompt_tick (Suc n) True off once nap w = (w1, 1, Failed 1 m)"
  by (simp add: self_prompt_tick_def)

section \<open>Witnesses\<close>

definition loop_world :: "json list \<Rightarrow> unit world" where
  "loop_world es = \<lparr>mw_fs = \<lparr>docs = [], logs = [(QUEUE_PATH, map Rec es)]\<rparr>, mw_ctl = \<lparr>cf_sentinel = None, cf_pid = None\<rparr>, mw_rest = ()\<rparr>"

definition demo_runner :: "unit runner" where
  "demo_runner q w = (if q = ''bad'' then (w, [], Some ([(0, \<lparr>xo_decode = False, xo_text = ''boom'', xo_cause = None, xo_context = None\<rparr>)], 0))
     else (w, [Some ''ok''], None))"

definition demo_planner :: "unit planner" where
  "demo_planner q s n w = (w, Inr None)"

definition fine_runner :: "unit runner" where
  "fine_runner q w = (w, [Some ''ok''], None)"

definition loop_put :: "nat \<Rightarrow> unit world \<Rightarrow> unit world" where
  "loop_put k w = w\<lparr>mw_fs := enqueue_prompt [] ''u'' ''more'' (mw_fs w)\<rparr>"

lemma quiet_keeps:
  assumes "\<And>q w. fst (runner q w) = w" "\<And>q s n w. fst (planner q s n w) = w"
  shows "keeps_queue runner planner"
proof -
  have "fst (process_prompt runner planner q w) = w" for q w
    using assms(1) [of q w] assms(2) [of q AUTONOMOUS_SYSTEM_PROMPT 8 w]
    by (auto simp: process_prompt_def run_autonomous_prompt_def split: prod.splits option.splits sum.splits)
  then show ?thesis by (simp add: keeps_queue_def)
qed

lemma demo_queued: "queue_now (loop_world es) = es"
proof -
  have "log_records (map Rec es) = es" by (induction es) simp_all
  then show ?thesis by (simp add: queue_now_def peek_prompts_def loop_world_def)
qed

lemma demo_entry: "entry_prompt (prompt_entry ts u p) = Inr p"
  by (simp add: entry_prompt_def prompt_entry_def dgetd_def)

theorem failing_prompt_drops_batch_witness:
  "\<exists>w1 m. swarm_loop 5 (\<lambda>k w. w) demo_runner demo_planner 0
      (loop_world [prompt_entry [] [] ''a'', prompt_entry [] [] ''bad'', prompt_entry [] [] ''b'']) = (w1, [''a'', ''bad''], Failed 1 m) \<and> queue_now w1 = []"
proof -
  let ?w = "loop_world [prompt_entry [] [] ''a'', prompt_entry [] [] ''bad'', prompt_entry [] [] ''b'']"
  have k: "keeps_queue demo_runner demo_planner" by (rule quiet_keeps) (simp_all add: demo_runner_def demo_planner_def)
  have s: "\<not> is_shutdown_requested (mw_ctl ?w)" by (simp add: loop_world_def is_shutdown_requested_def)
  have nf: "\<not> should_fallback_to_planner [(0, \<lparr>xo_decode = False, xo_text = ''boom'', xo_cause = None, xo_context = None\<rparr>)] 0"
    by code_simp
  obtain w1 m where l: "loop_iteration demo_runner demo_planner ?w = (w1, [''a'', ''bad''], Some m)"
    by (simp add: loop_iteration_def take_prompts_def dequeue_prompts_def loop_world_def demo_entry process_prompt_def demo_runner_def nf)
  from failing_prompt_drops_batch [OF k s l, of 4 "\<lambda>k w. w" 0] show ?thesis by (simp add: eval_nat_numeral)
qed

lemma fine_serves: "serves fine_runner demo_planner" "keeps_queue fine_runner demo_planner"
  by (simp add: serves_def process_prompt_def fine_runner_def, rule quiet_keeps) (simp_all add: fine_runner_def demo_planner_def)


definition demo_stop :: "nat \<Rightarrow> unit world \<Rightarrow> unit world" where
  "demo_stop k w = (if k = 3 then w\<lparr>mw_ctl := request_shutdown [] (mw_ctl w)\<rparr> else w)"

theorem stop_request_ends_loop_witness:
  "\<exists>w' ps r. swarm_loop 9 demo_stop fine_runner demo_planner 0 (loop_world []) = (w', ps, r) \<and>
     (r = Stopped \<or> (\<exists>i m. r = Failed i m \<and> i \<le> 3))"
proof -
  obtain w' ps r where l: "swarm_loop 9 demo_stop fine_runner demo_planner 0 (loop_world []) = (w', ps, r)" by (metis prod_cases3)
  have z: "is_shutdown_requested (mw_ctl (demo_stop 3 w))" for w
    by (simp add: demo_stop_def is_shutdown_requested_def request_shutdown_def)
  have "r = Stopped \<or> (\<exists>i m. r = Failed i m \<and> i \<le> 3)"
    by (rule stop_request_ends_loop [OF z _ _ l]) simp_all
  with l show ?thesis by blast
qed

theorem main_cleans_up_witness:
  "get_swarm_pid (mw_ctl (fst (main_process 1 (\<lambda>k w. w) None ''m'' fine_runner demo_planner
     \<lparr>su_service = (\<lambda>w. (w, Inr ())), su_session = (\<lambda>w. (w, Inr ())), su_runner = Inr (), su_api_key = [], su_autonomous = []\<rparr> 7 (loop_world [])))) = None"
proof -
  let ?su = "\<lparr>su_service = (\<lambda>w. (w, Inr ())), su_session = (\<lambda>w. (w, Inr ())), su_runner = Inr (), su_api_key = [], su_autonomous = []\<rparr>"
  obtain w' ps r where m: "main_process 1 (\<lambda>k w. w) None ''m'' fine_runner demo_planner ?su 7 (loop_world []) = (w', ps, r)" by (metis prod_cases3)
  then have "r \<noteq> StillRunning" by (auto simp: main_process_def main_body_def)
  from main_cleans_up [OF m this] m show ?thesis by simp
qed

end
