(* ===== verification/Refactor_Agent.thy ===== *)
theory Refactor_Agent
  imports Autonomous_Loop
begin

text \<open>
  The refactor agent of \<open>src/agents/refactor_agent.py\<close>: one pass of planning and reflection,
  and the loop that is to correct itself, over the planner, the reflection and the memory
  graph. The memory the reflector is given is \<open>memory\<close> (none by default); the agent's own
  is that one or a fresh graph, \<open>own\<close>. The state is a dictionary of which the keys \<open>task\<close>,
  \<open>output\<close> and \<open>attempts\<close> are read.
\<close>

definition MAX_RETRIES :: int where "MAX_RETRIES = 3"

record refactor_state =
  rs_task :: "string option"
  rs_output :: string
  rs_attempts :: int

record refactor_pass =
  rp_blueprint :: workflow_blueprint
  rp_reflection :: reflection
  rp_validated :: bool
  rp_next :: string

definition refactor_invoke ::
  "'g digraph_ops \<Rightarrow> (real \<Rightarrow> string) \<Rightarrow> 'g graph_store option \<Rightarrow> refactor_state \<Rightarrow> refactor_pass result option" where
  "refactor_invoke G fmt memory st =
     (let tsk = (case rs_task st of None \<Rightarrow> ''Improve GADK codebase'' | Some t \<Rightarrow> t);
          bp = plan_goal (''Refactor: '' @ tsk)
      in map_option (\<lambda>r. bindr r (\<lambda>rf. let validated = (rf_status rf \<noteq> ''failure'') in Inr
           \<lparr>rp_blueprint = bp, rp_reflection = rf, rp_validated = validated,
            rp_next = (if validated then ''implement'' else ''abort'')\<rparr>))
         (reflect G fmt memory tsk (rs_output st) []))"

record refactor_result =
  rr2_status :: string
  rr2_attempts :: int
  rr2_blueprint :: workflow_blueprint
  rr2_gaps :: "string list"

text \<open>The loop from \<open>attempts\<close> on, \<open>n\<close> rounds before the limit.\<close>

fun correction_loop ::
  "'g digraph_ops \<Rightarrow> (real \<Rightarrow> string) \<Rightarrow> 'g graph_store option \<Rightarrow> string \<Rightarrow> string \<Rightarrow> nat \<Rightarrow> int \<Rightarrow> workflow_blueprint \<Rightarrow> string list
    \<Rightarrow> 'g graph_store \<Rightarrow> 'g graph_store \<times> refactor_result result option" where
  "correction_loop G fmt memory tsk out 0 attempts bp gaps own =
     (fst (record_task G tsk ''RefactorAgent'' FAILURE [] own),
      Some (Inr \<lparr>rr2_status = ''max_retries'', rr2_attempts = attempts, rr2_blueprint = bp, rr2_gaps = gaps\<rparr>))"
| "correction_loop G fmt memory tsk out (Suc n) attempts bp gaps own =
     (case reflect G fmt (if memory = None then None else Some own) tsk out [] of
        None \<Rightarrow> (own, None)
      | Some (Inl e) \<Rightarrow> (own, Some (Inl e))
      | Some (Inr rf) \<Rightarrow>
          if rf_status rf = ''success'' then
            (fst (record_task G tsk ''RefactorAgent'' SUCCESS [] own),
             Some (Inr \<lparr>rr2_status = ''success'', rr2_attempts = attempts + 1, rr2_blueprint = bp, rr2_gaps = []\<rparr>))
          else correction_loop G fmt memory tsk out n (attempts + 1) (replan bp (rf_gaps rf)) (rf_gaps rf) own)"

definition invoke_with_correction ::
  "'g digraph_ops \<Rightarrow> (real \<Rightarrow> string) \<Rightarrow> 'g graph_store option \<Rightarrow> 'g graph_store \<Rightarrow> refactor_state
    \<Rightarrow> 'g graph_store \<times> refactor_result result option" where
  "invoke_with_correction G fmt memory fresh st =
     (let tsk = (case rs_task st of None \<Rightarrow> ''Refactor codebase'' | Some t \<Rightarrow> t)
      in correction_loop G fmt memory tsk (rs_output st) (nat (MAX_RETRIES - rs_attempts st)) (rs_attempts st)
           (plan_goal tsk) [] (case memory of None \<Rightarrow> fresh | Some s \<Rightarrow> s))"

section \<open>What the agent does\<close>

lemma reflect_empty:
  "reflect G fmt memory tsk out [] = map_option (\<lambda>nr. bindr nr (\<lambda>notes. Inr
     \<lparr>rf_status = ''success'', rf_gaps = [], rf_suggestions = [], rf_confidence = 1, rf_notes = notes, rf_enhanced = (notes \<noteq> [])\<rparr>))
     (historical_notes G fmt tsk memory)"
  by (simp add: reflect_def evaluate_output_def Let_def)

text \<open>The refactor agent never corrects anything. It reflects on no criteria, so whatever
  the output is the reflection succeeds: one pass is always validated, and the loop, unless it
  starts at the limit or the memory cannot be read, reports success at its first attempt
  with the first plan, and records the success.\<close>

theorem refactor_never_corrects:
  assumes "historical_notes G fmt (case rs_task st of None \<Rightarrow> ''Refactor codebase'' | Some t \<Rightarrow> t) memory = Some (Inr notes)"
    and "rs_attempts st < MAX_RETRIES"
  shows "\<exists>res. invoke_with_correction G fmt memory fresh st =
      (fst (record_task G (case rs_task st of None \<Rightarrow> ''Refactor codebase'' | Some t \<Rightarrow> t) ''RefactorAgent'' SUCCESS []
         (case memory of None \<Rightarrow> fresh | Some s \<Rightarrow> s)), Some (Inr res)) \<and>
    rr2_status res = ''success'' \<and> rr2_attempts res = rs_attempts st + 1 \<and>
    rr2_blueprint res = plan_goal (case rs_task st of None \<Rightarrow> ''Refactor codebase'' | Some t \<Rightarrow> t) \<and>
    (\<forall>p. refactor_invoke G fmt memory st = Some (Inr p) \<longrightarrow> rp_validated p \<and> rp_next p = ''implement'')"
proof -
  let ?own = "case memory of None \<Rightarrow> fresh | Some s \<Rightarrow> s"
  obtain n where n: "nat (MAX_RETRIES - rs_attempts st) = Suc n" using assms(2) by (cases "nat (MAX_RETRIES - rs_attempts st)") auto
  have m: "(if memory = None then None else Some ?own) = memory" by (cases memory) auto
  have "refactor_invoke G fmt memory st = Some (Inr p) \<Longrightarrow> rp_validated p \<and> rp_next p = ''implement''" for p
    by (auto simp: refactor_invoke_def reflect_empty bindr_Inr_iff Let_def)
  with assms(1) show ?thesis
    by (simp add: invoke_with_correction_def Let_def n m reflect_empty)
qed

theorem refactor_never_corrects_witness:
  "\<exists>s res. invoke_with_correction list_graph_ops (\<lambda>x. []) None empty_store \<lparr>rs_task = Some ''x'', rs_output = [], rs_attempts = 0\<rparr>
     = (s, Some (Inr res)) \<and> rr2_status res = ''success''"
proof -
  let ?st = "\<lparr>rs_task = Some ''x'', rs_output = [], rs_attempts = 0\<rparr>"
  have h: "historical_notes list_graph_ops (\<lambda>x. []) (case rs_task ?st of None \<Rightarrow> ''Refactor codebase'' | Some t \<Rightarrow> t) None = Some (Inr [])"
    by (simp add: historical_notes_def)
  have m: "rs_attempts ?st < MAX_RETRIES" by (simp add: MAX_RETRIES_def)
  from refactor_never_corrects [OF h m, of empty_store] show ?thesis by blast
qed

end
