(* ===== verification/Ideator.thy ===== *)
theory Ideator
  imports GitHub_Tool Contracts State_Manager
begin

text \<open>
  The task creation of the ideator (\<open>src/agents/ideator.py\<close>, \<open>create_structured_task\<close>): a
  proposal is validated, stored as a pending task and filed as an issue. \<open>clock\<close> is the
  event loop's time in seconds, \<open>nowt\<close> the text of the date, \<open>repair\<close> the JSON repair of the
  structured output.
\<close>

definition dash_spaces :: "string \<Rightarrow> string" where
  "dash_spaces s = map (\<lambda>c. if c = CHR '' '' then CHR ''-'' else c) s"

definition task_id_of :: "real \<Rightarrow> string \<Rightarrow> string" where
  "task_id_of clock title = ''task-'' @ str_of_int (if 0 \<le> clock then \<lfloor>clock\<rfloor> else \<lceil>clock\<rceil>) @ ''-'' @ take 20 (dash_spaces (lower title))"

definition task_data :: "string \<Rightarrow> int \<Rightarrow> string \<Rightarrow> string list option \<Rightarrow> task_proposal \<Rightarrow> (string, json) dict" where
  "task_data nowt priority complexity tags p =
     [(''title'', JStr (pr_title p)), (''description'', JStr (pr_description p)),
      (''acceptance_criteria'', JArr (map JStr (pr_criteria p))), (''status'', JStr ''PENDING''),
      (''priority'', JInt priority), (''complexity'', JStr complexity), (''suggested_agent'', JStr (pr_agent p)),
      (''tags'', JArr (case tags of None \<Rightarrow> [] | Some ts \<Rightarrow> map JStr ts)), (''created_at'', JStr nowt), (''source'', JStr ''Ideator'')]"

definition task_issue_body :: "int \<Rightarrow> string \<Rightarrow> task_proposal \<Rightarrow> string" where
  "task_issue_body priority complexity p = (let nl = [CHR 0x0A] in
     ''## Summary'' @ nl @ pr_title p @ nl @ nl @ ''## Description'' @ nl @ pr_description p @ nl @ nl @ ''## Acceptance Criteria'' @ nl @
     join nl (map (\<lambda>ac. ''- [ ] '' @ ac) (pr_criteria p)) @
     nl @ nl @ ''**Priority**: '' @ str_of_int priority @ '' | **Complexity**: '' @ complexity @ '' | **Suggested Agent**: '' @ pr_agent p)"

definition create_structured_task ::
  "'h gh_ops \<Rightarrow> nat \<Rightarrow> bool \<Rightarrow> (string \<Rightarrow> string option) \<Rightarrow> fault \<Rightarrow> string \<Rightarrow> real \<Rightarrow> string \<Rightarrow> string \<Rightarrow> string \<Rightarrow> string list
    \<Rightarrow> int \<Rightarrow> string \<Rightarrow> string \<Rightarrow> string list option \<Rightarrow> state_manager \<Rightarrow> fs \<Rightarrow> 'h \<Rightarrow> state_manager \<times> fs \<times> 'h \<times> string result" where
  "create_structured_task G limit repo repair flt tmp clock nowt title description criteria priority complexity agent tags sm w h =
     (case build_task_proposal repair title description criteria agent None None of
        Inl e \<Rightarrow> (sm, w, h, Inl e)
      | Inr p \<Rightarrow> (let task_id = task_id_of clock (pr_title p) in
          case set_task flt tmp nowt task_id (task_data nowt priority complexity tags p) ''Ideator'' sm w of
            (sm1, w1, Inl e) \<Rightarrow> (sm1, w1, h, Inl e)
          | (sm1, w1, Inr _) \<Rightarrow>
              (case create_issue G limit repo (''[SWARM TASK] '' @ pr_title p) (Some (task_issue_body priority complexity p)) h of
                 (h1, Inl e) \<Rightarrow> (sm1, w1, h1, Inl e)
               | (h1, Inr _) \<Rightarrow> (sm1, w1, h1, Inr (''Successfully created structured task: '' @ task_id)))))"

section \<open>What it stores\<close>

definition proposal_of :: "string \<Rightarrow> string \<Rightarrow> string list \<Rightarrow> string \<Rightarrow> task_proposal" where
  "proposal_of title description criteria agent = \<lparr>pr_title = title, pr_summary = description,
     pr_description = description, pr_criteria = criteria, pr_agent = agent, pr_capabilities = []\<rparr>"

lemma build_ok:
  "title \<noteq> [] \<Longrightarrow> description \<noteq> [] \<Longrightarrow> agent \<noteq> [] \<Longrightarrow>
     build_task_proposal repair title description criteria agent None None = Inr (proposal_of title description criteria agent)"
  using validate_proposal_json [of "proposal_of title description criteria agent"]
  by (simp add: build_task_proposal_def proposal_of_def parse_task_proposal_def proposal_json_def proposal_ok_def)

lemma build_refused:
  "title = [] \<or> description = [] \<or> agent = [] \<Longrightarrow> \<exists>e. build_task_proposal repair title description criteria agent None None = Inl e"
  by (auto simp: build_task_proposal_def parse_task_proposal_def proposal_json_def validate_payload_def
      validate_proposal_def only_fields_def dkeys_def req_text_def text_list_def dgetd_def)

lemma store_structured:
  assumes "api_host G" and "sm_storage_type sm = ''json''" and "fresh_tmp tmp (sm_filename sm) w"
    and "read_on_disk (sm_filename sm) w = Inr d" and "\<forall>k. get_task sm k \<noteq> None \<longrightarrow> task_dict (get_task sm k) \<noteq> None"
    and "create_structured_task G limit repo repair NoFault tmp clock nowt title description criteria priority complexity agent tags sm w h
      = (sm', w', h', res)"
  shows "if title \<noteq> [] \<and> description \<noteq> [] \<and> agent \<noteq> []
    then res = Inr (''Successfully created structured task: '' @ task_id_of clock title) \<and>
      (\<exists>t. get_task sm' (task_id_of clock title) = Some (JObj t) \<and> on_disk (sm_filename sm) w' (task_id_of clock title) = Some (JObj t) \<and>
         dget t ''status'' = Some (JStr ''PENDING'') \<and> dget t ''title'' = Some (JStr title) \<and>
         dget t ''acceptance_criteria'' = Some (JArr (map JStr criteria)))
    else (\<exists>e. res = Inl e) \<and> sm' = sm \<and> w' = w \<and> h' = h"
proof (cases "title \<noteq> [] \<and> description \<noteq> [] \<and> agent \<noteq> []")
  case True
  let ?p = "proposal_of title description criteria agent"
  let ?k = "task_id_of clock title"
  let ?t = "task_data nowt priority complexity tags ?p"
  have b: "build_task_proposal repair title description criteria agent None None = Inr ?p" using True build_ok by blast
  obtain old where o: "dgetd (sm_data sm) ?k (JObj []) = JObj old"
    using assms(5) [rule_format, of ?k] by (cases "get_task sm ?k") (auto simp: task_dict_def get_task_def dgetd_def split: json.splits option.splits)
  obtain w1 r1 where p: "locked_persist_json NoFault tmp (dset ?k (JObj ?t)) sm w = (w1, r1)" by fastforce
  with locked_persist_ok [OF assms(3,4) refl, of "dset ?k (JObj ?t)"]
  have "r1 = Inr (dset ?k (JObj ?t) d)" "read_on_disk (sm_filename sm) w1 = Inr (dset ?k (JObj ?t) d)" by auto
  with p o obtain w2 where s: "set_task NoFault tmp nowt ?k ?t ''Ideator'' sm w = (sm\<lparr>sm_data := dset ?k (JObj ?t) d\<rparr>, w2, Inr ())"
    and dk: "read_on_disk (sm_filename sm) w2 = Inr (dset ?k (JObj ?t) d)" by (simp add: set_task_json [OF assms(2)])
  obtain h1 u where i: "create_issue G limit repo (''[SWARM TASK] '' @ title) (Some (task_issue_body priority complexity ?p)) h = (h1, Inr u)"
    using api_host.create_issue_returns [OF assms(1)] by (metis raises_none)
  have t: "pr_title ?p = title" "pr_criteria ?p = criteria" by (simp_all add: proposal_of_def)
  have "sm' = sm\<lparr>sm_data := dset ?k (JObj ?t) d\<rparr>" "w' = w2" "res = Inr (''Successfully created structured task: '' @ ?k)"
    using assms(6) b s i t by (auto simp: create_structured_task_def Let_def)
  with True dk t show ?thesis by (auto simp: get_task_def on_disk_def task_data_def intro!: exI [of _ ?t])
next
  case False
  with build_refused obtain e where "build_task_proposal repair title description criteria agent None None = Inl e" by blast
  with assms(6) False show ?thesis by (auto simp: create_structured_task_def)
qed

text \<open>A created task is a pending task of the state. With a readable state file and a host that
  raises only expected errors, a task is created exactly when title, description and agent are no
  empty texts: it is then in memory and on disk under the reported identifier, pending, with
  the given criteria, whether or not the issue could be filed; otherwise nothing changes.\<close>

theorem structured_task_stored:
  assumes "api_host G" and "sm_storage_type sm = ''json''" and "fresh_tmp tmp (sm_filename sm) w"
    and "read_on_disk (sm_filename sm) w = Inr d" and "\<forall>k. get_task sm k \<noteq> None \<longrightarrow> task_dict (get_task sm k) \<noteq> None"
    and "create_structured_task G limit repo repair NoFault tmp clock nowt title description criteria priority complexity agent tags sm w h
      = (sm', w', h', res)"
  shows "if title \<noteq> [] \<and> description \<noteq> [] \<and> agent \<noteq> []
    then res = Inr (''Successfully created structured task: '' @ task_id_of clock title) \<and>
      (\<exists>t. get_task sm' (task_id_of clock title) = Some (JObj t) \<and> on_disk (sm_filename sm) w' (task_id_of clock title) = Some (JObj t) \<and>
         dget t ''status'' = Some (JStr ''PENDING'') \<and> dget t ''title'' = Some (JStr title) \<and>
         dget t ''acceptance_criteria'' = Some (JArr (map JStr criteria)))
    else (\<exists>e. res = Inl e) \<and> sm' = sm \<and> w' = w \<and> h' = h"
  by (rule store_structured [OF assms])

text \<open>Tasks of one second with the same beginning replace each other. Two titles that agree in
  their first twenty characters, up to case and blanks, get one identifier within a second:
  after the second task is stored the first is gone.\<close>

theorem same_second_overwrites:
  assumes "0 \<le> clock" and "\<lfloor>clock\<rfloor> = \<lfloor>clock2\<rfloor>" and "take 20 (dash_spaces (lower title)) = take 20 (dash_spaces (lower title2))"
    and "title2 \<noteq> []" and "description2 \<noteq> []" and "agent2 \<noteq> []"
    and "sm_storage_type sm = ''json''"
    and "create_structured_task G limit repo repair NoFault tmp clock2 nowt title2 description2 criteria2 priority complexity agent2 tags sm w h
      = (sm', w', h', Inr msg)"
  shows "task_id_of clock2 title2 = task_id_of clock title \<and>
    (\<exists>t. get_task sm' (task_id_of clock title) = Some (JObj t) \<and> dget t ''title'' = Some (JStr title2))"
proof -
  have "0 \<le> \<lfloor>clock2\<rfloor>" using assms(1) unfolding assms(2) [symmetric] by simp
  then have "0 \<le> clock2" by linarith
  with assms(1-3) have k: "task_id_of clock2 title2 = task_id_of clock title" by (simp add: task_id_of_def)
  let ?p = "proposal_of title2 description2 criteria2 agent2"
  let ?t = "task_data nowt priority complexity tags ?p"
  have b: "build_task_proposal repair title2 description2 criteria2 agent2 None None = Inr ?p" using assms(4-6) build_ok by blast
  obtain sm1 w1 r1 where s: "set_task NoFault tmp nowt (task_id_of clock2 title2) ?t ''Ideator'' sm w = (sm1, w1, r1)" by (metis prod_cases3)
  have t: "pr_title ?p = title2" by (simp add: proposal_of_def)
  from assms(8) b s t have r: "r1 = Inr ()" "sm' = sm1"
    by (auto simp: create_structured_task_def Let_def split: sum.splits prod.splits)
  obtain w2 r2 where p: "locked_persist_json NoFault tmp (dset (task_id_of clock2 title2) (JObj ?t)) sm w = (w2, r2)" by fastforce
  from s p r have "\<exists>m. sm_data sm' = m \<and> r2 = Inr m"
    by (auto simp: set_task_json [OF assms(7)] split: sum.splits json.splits)
  moreover have "r2 = Inr m \<Longrightarrow> \<exists>d. m = dset (task_id_of clock2 title2) (JObj ?t) d" for m
    using p by (auto simp: locked_persist_json_def Let_def split: prod.splits sum.splits)
  ultimately have "get_task sm' (task_id_of clock2 title2) = Some (JObj ?t)" by (auto simp: get_task_def)
  with k t show ?thesis by (simp add: task_data_def)
qed

section \<open>Witnesses\<close>

definition idea_manager :: state_manager where
  "idea_manager = demo_manager ''s'' [(''task-7-improve-the-error-mes'', JObj [(''title'', JStr ''Improve the error messages'')])]"

definition idea_run where
  "idea_run = create_structured_task mock_host 5 True (\<lambda>s. Some s) NoFault ''tmp'' 7 ''n'' ''Improve the error mess'' ''d'' [''c''] 3 ''medium'' ''Builder'' None
     idea_manager \<lparr>docs = [], logs = []\<rparr> ()"

lemma idea_setup:
  "sm_storage_type idea_manager = ''json''" "fresh_tmp ''tmp'' (sm_filename idea_manager) \<lparr>docs = [], logs = []\<rparr>"
  "read_on_disk (sm_filename idea_manager) \<lparr>docs = [], logs = []\<rparr> = Inr []"
  "\<forall>k. get_task idea_manager k \<noteq> None \<longrightarrow> task_dict (get_task idea_manager k) \<noteq> None"
  by (simp_all add: idea_manager_def demo_manager_def fresh_tmp_def dmem_def read_on_disk_def get_task_def task_dict_def)

lemma idea_titles: "take 20 (dash_spaces (lower ''Improve the error messages'')) = take 20 (dash_spaces (lower ''Improve the error mess''))"
  by code_simp

theorem structured_task_stored_witness:
  "\<exists>t. get_task (fst idea_run) (task_id_of 7 ''Improve the error mess'') = Some (JObj t) \<and> dget t ''status'' = Some (JStr ''PENDING'')"
proof -
  obtain sm' w' h' r where c: "idea_run = (sm', w', h', r)" by (metis prod_cases4)
  have f: "fst idea_run = sm'" by (simp add: c)
  from structured_task_stored [OF offline.api_host_axioms idea_setup c [unfolded idea_run_def]]
  obtain t where "get_task sm' (task_id_of 7 ''Improve the error mess'') = Some (JObj t)" "dget t ''status'' = Some (JStr ''PENDING'')" by auto
  then show ?thesis unfolding f by blast
qed

theorem same_second_overwrites_witness:
  "\<exists>t. get_task (fst idea_run) (task_id_of 7 ''Improve the error messages'') = Some (JObj t) \<and> dget t ''title'' = Some (JStr ''Improve the error mess'')"
proof -
  obtain sm' w' h' r where c: "idea_run = (sm', w', h', r)" by (metis prod_cases4)
  with store_structured [OF offline.api_host_axioms idea_setup c [unfolded idea_run_def]]
  have r: "create_structured_task mock_host 5 True (\<lambda>s. Some s) NoFault ''tmp'' 7 ''n'' ''Improve the error mess'' ''d'' [''c''] 3 ''medium'' ''Builder'' None
     idea_manager \<lparr>docs = [], logs = []\<rparr> () = (sm', w', h', Inr (''Successfully created structured task: '' @ task_id_of 7 ''Improve the error mess''))"
    unfolding idea_run_def by simp
  have f: "fst idea_run = sm'" by (simp add: c)
  from same_second_overwrites [OF _ refl idea_titles _ _ _ idea_setup(1) r] show ?thesis unfolding f by simp
qed

end
