(* ===== verification/Dspy_Modules.thy ===== *)
theory Dspy_Modules
  imports PyText
begin

text \<open>
  The modules of \<open>src/dspy\<close>: routing, the prompt cache, the ensemble, retrieval, the
  orchestrator, the quality gate, the signature optimizer and the two generators, each with
  the fallback it takes without a language model. The model call of the DSPy package is the
  parameter \<open>lm\<close>, a function from the named inputs to the named outputs, which may raise.
\<close>

type_synonym lm_call = "(string, string) dict \<Rightarrow> (string, string) dict result"

definition nl :: string where "nl = [CHR 0x0A]"

text \<open>\<open>_ensure_dspy\<close>: ready when a key is in the environment and the package was imported
  before or can be. Losing the key forgets the package, except in the router, which does
  not look again.\<close>

definition ensure_dspy :: "bool \<Rightarrow> bool \<Rightarrow> bool \<Rightarrow> bool \<times> bool" where
  "ensure_dspy has_key importable loaded =
     (if \<not> has_key then (False, False) else if loaded then (True, True) else (importable, importable))"

definition router_ensure :: "bool \<Rightarrow> bool \<Rightarrow> bool \<Rightarrow> bool \<times> bool" where
  "router_ensure has_key importable loaded =
     (if loaded then (True, True) else if \<not> has_key then (False, False) else (importable, importable))"

text \<open>A field of a prediction, stripped; \<open>None\<close> when the call or the field raises.\<close>

definition predicted :: "bool \<Rightarrow> lm_call \<Rightarrow> (string, string) dict \<Rightarrow> string \<Rightarrow> string option" where
  "predicted ready lm ins out = (if \<not> ready then None
     else case lm ins of Inl e \<Rightarrow> None | Inr p \<Rightarrow> map_option strip (dget p out))"

section \<open>The router\<close>

definition ROUTES :: "(string list \<times> string) list" where
  "ROUTES = [([''implement'', ''write'', ''create'', ''add'', ''fix''], ''Builder''),
     ([''review'', ''critique'', ''check'', ''analyze''], ''Critic''),
     ([''design'', ''architect'', ''plan'', ''structure''], ''Architect''),
     ([''discover'', ''idea'', ''feature'', ''gap''], ''Ideator''),
     ([''deploy'', ''release'', ''govern'', ''gate''], ''Governor''),
     ([''monitor'', ''health'', ''metrics'', ''pulse''], ''Pulse'')]"

definition fallback_route :: "string \<Rightarrow> string" where
  "fallback_route tsk = (case find (\<lambda>(kws, agent). list_ex (contains (lower tsk)) kws) ROUTES of
      Some (kws, agent) \<Rightarrow> agent | None \<Rightarrow> ''Builder'')"

type_synonym feedback = "(string, (string \<times> real) list) dict"

record dspy_router =
  dr_loaded :: bool
  dr_feedback :: feedback

definition dspy_route :: "bool \<Rightarrow> bool \<Rightarrow> lm_call \<Rightarrow> string \<Rightarrow> dspy_router \<Rightarrow> dspy_router \<times> string" where
  "dspy_route has_key importable lm tsk r =
     (case router_ensure has_key importable (dr_loaded r) of (loaded, ready) \<Rightarrow>
        (r\<lparr>dr_loaded := loaded\<rparr>, case predicted ready lm [(''task'', tsk)] ''best_agent'' of Some a \<Rightarrow> a | None \<Rightarrow> fallback_route tsk))"

definition record_feedback :: "string \<Rightarrow> string \<Rightarrow> real \<Rightarrow> dspy_router \<Rightarrow> dspy_router" where
  "record_feedback tsk agent score r =
     r\<lparr>dr_feedback := dset tsk (dgetd (dr_feedback r) tsk [] @ [(agent, score)]) (dr_feedback r)\<rparr>"

section \<open>The prompt cache\<close>

text \<open>An attempt: its score as text, and its prompt (or task).\<close>

type_synonym prompt_attempt = "string \<times> string"

definition fallback_prompt :: "string \<Rightarrow> string" where
  "fallback_prompt tsk = ''Task: '' @ tsk @ nl @ nl @ ''Instructions: Complete this task thoroughly and carefully.''"

definition format_history :: "prompt_attempt list \<Rightarrow> string" where
  "format_history history = (if history = [] then ''No previous attempts.''
     else join nl (map (\<lambda>(score, p). ''- Score '' @ score @ '': '' @ take 100 p) (drop (length history - 5) history)))"

definition cache_key :: "string \<Rightarrow> prompt_attempt list \<Rightarrow> string" where
  "cache_key tsk history = tsk @ '':'' @ str_of_nat (length history)"

definition optimize_prompt ::
  "bool \<Rightarrow> lm_call \<Rightarrow> string \<Rightarrow> prompt_attempt list \<Rightarrow> (string, string) dict \<Rightarrow> (string, string) dict \<times> string" where
  "optimize_prompt ready lm tsk history cache =
     (case dget cache (cache_key tsk history) of
        Some p \<Rightarrow> (cache, p)
      | None \<Rightarrow> (let p = (case predicted ready lm [(''task'', tsk), (''feedback_history'', format_history history)] ''optimized_prompt'' of
            Some p \<Rightarrow> p | None \<Rightarrow> fallback_prompt tsk)
          in (dset (cache_key tsk history) p cache, p)))"

section \<open>The ensemble\<close>

record ensemble_result =
  en_agent :: string
  en_output :: string
  en_score :: real

definition call_agent :: "string \<Rightarrow> string \<Rightarrow> string" where
  "call_agent agent tsk = ''['' @ agent @ ''] executed: '' @ take 50 tsk @ ''... (simulated)''"

definition score_output :: "string \<Rightarrow> real" where
  "score_output out = (if length out < 10 then 1 / 10 else min (9 / 10) (1 / 2 + real (length out) / 1000))"

definition run_all :: "string list \<Rightarrow> string \<Rightarrow> ensemble_result list" where
  "run_all agents tsk = map (\<lambda>a. \<lparr>en_agent = a, en_output = call_agent a tsk, en_score = score_output (call_agent a tsk)\<rparr>) agents"

text \<open>\<open>max(results, key=...)\<close>: the first of the best.\<close>

fun first_best :: "ensemble_result \<Rightarrow> ensemble_result list \<Rightarrow> ensemble_result" where
  "first_best b [] = b"
| "first_best b (r # rs) = first_best (if en_score b < en_score r then r else b) rs"

definition responses_text :: "ensemble_result list \<Rightarrow> string" where
  "responses_text rs = join nl (map (\<lambda>r. ''['' @ en_agent r @ '']: '' @ take 200 (en_output r)) rs)"

definition select_best :: "bool \<Rightarrow> lm_call \<Rightarrow> ensemble_result list \<Rightarrow> ensemble_result" where
  "select_best ready lm rs = (case rs of
      [] \<Rightarrow> \<lparr>en_agent = ''none'', en_output = [], en_score = 0\<rparr>
    | [r] \<Rightarrow> r
    | r # rest \<Rightarrow>
        (case predicted ready lm [(''responses'', responses_text rs), (''task'', ''complete this task'')] ''best_agent'' of
           None \<Rightarrow> first_best r rest
         | Some a \<Rightarrow> (case find (\<lambda>x. en_agent x = a) rs of
             Some x \<Rightarrow> x\<lparr>en_score := en_score x + 1 / 10\<rparr> | None \<Rightarrow> first_best r rest)))"

section \<open>Retrieval\<close>

record rag_hit =
  rh_content :: string
  rh_score :: real

text \<open>\<open>confidence\<close> is the text the model gives for it; one that is no number raises.\<close>

definition rag_query :: "bool \<Rightarrow> lm_call \<Rightarrow> (string, string) dict list \<Rightarrow> string \<Rightarrow> string \<Rightarrow> rag_hit list" where
  "rag_query ready lm corpus q ctx =
     (if \<not> ready then [\<lparr>rh_content = ''Result for: '' @ q, rh_score = 1 / 2\<rparr>]
      else case lm [(''query'', q), (''context'', ctx)] of
          Inl e \<Rightarrow> [\<lparr>rh_content = [], rh_score = 0\<rparr>]
        | Inr p \<Rightarrow> (case (dget p ''documents'', dget p ''confidence'') of
            (Some d, Some c) \<Rightarrow>
              if c = [] then [\<lparr>rh_content = strip d, rh_score = 1 / 2\<rparr>]
              else (case py_float (strip c) of Some x \<Rightarrow> [\<lparr>rh_content = strip d, rh_score = x\<rparr>] | None \<Rightarrow> [\<lparr>rh_content = [], rh_score = 0\<rparr>])
          | _ \<Rightarrow> [\<lparr>rh_content = [], rh_score = 0\<rparr>]))"

definition rag_self_correct :: "bool \<Rightarrow> lm_call \<Rightarrow> rag_hit list \<Rightarrow> string \<Rightarrow> rag_hit list" where
  "rag_self_correct ready lm results critique =
     (case predicted ready lm [(''initial_results'', join nl (map (\<lambda>r. ''- '' @ take 200 (rh_content r)) results)), (''critique'', critique)] ''corrected_results'' of
        Some c \<Rightarrow> [\<lparr>rh_content = c, rh_score = 85 / 100\<rparr>]
      | None \<Rightarrow> results)"

section \<open>The orchestrator\<close>

record orchestration_plan =
  op_goal :: string
  op_steps :: "(nat \<times> string) list"
  op_iterations :: nat

text \<open>\<open>text.split("\n")\<close>.\<close>

fun split_nl :: "string \<Rightarrow> string \<Rightarrow> string list" where
  "split_nl cur [] = [cur]"
| "split_nl cur (c # cs) = (if [c] = nl then cur # split_nl [] cs else split_nl (cur @ [c]) cs)"

definition parse_plan :: "nat \<Rightarrow> string \<Rightarrow> string \<Rightarrow> orchestration_plan" where
  "parse_plan iterations plan_text goal = \<lparr>op_goal = goal,
     op_steps = map (\<lambda>(i, l). (i + 1, strip l)) (filter (\<lambda>(i, l). strip l \<noteq> []) (List.enumerate 0 (split_nl [] plan_text))),
     op_iterations = iterations\<rparr>"

definition fallback_plan :: "string \<Rightarrow> string" where
  "fallback_plan goal = ''1. Analyze: '' @ goal @ nl @ ''2. Route to agent'' @ nl @ ''3. Execute and review''"

text \<open>\<open>constraints\<close> are given with their values as texts.\<close>

definition orchestrate :: "bool \<Rightarrow> lm_call \<Rightarrow> string \<Rightarrow> (string, string) dict \<Rightarrow> nat \<Rightarrow> nat \<times> orchestration_plan" where
  "orchestrate ready lm goal constraints iterations =
     (let plan_text = (case predicted ready lm
            [(''goal'', goal), (''constraints'', join '', '' (map (\<lambda>(k, v). k @ ''='' @ v) constraints))] ''plan'' of
          Some p \<Rightarrow> p | None \<Rightarrow> fallback_plan goal)
      in (iterations + 1, parse_plan (iterations + 1) plan_text goal))"

definition self_improve :: "bool \<Rightarrow> lm_call \<Rightarrow> (orchestration_plan \<Rightarrow> string) \<Rightarrow> orchestration_plan \<Rightarrow> string \<Rightarrow> nat \<Rightarrow> orchestration_plan" where
  "self_improve ready lm show_plan p feedback iterations =
     (case predicted ready lm [(''plan'', show_plan p), (''feedback'', feedback)] ''improved_plan'' of
        Some t \<Rightarrow> parse_plan iterations t (op_goal p) | None \<Rightarrow> p)"

section \<open>The quality gate\<close>

record dspy_gate_result =
  dg_passed :: bool
  dg_blocking :: bool
  dg_verdict :: string
  dg_phase :: string

definition gate_verdict :: "bool \<Rightarrow> lm_call \<Rightarrow> string \<Rightarrow> string \<Rightarrow> string \<Rightarrow> string" where
  "gate_verdict ready lm code tsk phase =
     (if ready then (case predicted ready lm [(''code'', code), (''task'', tsk), (''phase'', phase)] ''verdict'' of
          Some v \<Rightarrow> lower v
        | None \<Rightarrow> if length code < 20 then ''retry'' else ''pass'')
      else if 20 < length code then ''pass'' else ''retry'')"

definition gate_evaluate :: "bool \<Rightarrow> lm_call \<Rightarrow> bool \<Rightarrow> string \<Rightarrow> string \<Rightarrow> string \<Rightarrow> dspy_gate_result" where
  "gate_evaluate ready lm blocking code tsk phase =
     (let v = gate_verdict ready lm code tsk phase
      in \<lparr>dg_passed = (v = ''pass''), dg_blocking = blocking, dg_verdict = v, dg_phase = phase\<rparr>)"

section \<open>The signature optimizer and the generators\<close>

definition optimize_signature :: "bool \<Rightarrow> lm_call \<Rightarrow> string option \<Rightarrow> string option \<Rightarrow> (string \<times> string) list \<Rightarrow> string \<times> string" where
  "optimize_signature ready lm inp out tasks =
     (let i = (case inp of None \<Rightarrow> ''task description'' | Some s \<Rightarrow> s); o1 = (case out of None \<Rightarrow> ''solution'' | Some s \<Rightarrow> s);
          examples = join nl (map (\<lambda>(a, b). ''Input: '' @ a @ '' -> Output: '' @ b) (take 5 tasks))
      in (i, case predicted ready lm [(''input_spec'', i), (''output_spec'', o1), (''examples'', examples)] ''optimized'' of
               Some p \<Rightarrow> p | None \<Rightarrow> o1))"

definition bootstrap :: "bool \<Rightarrow> lm_call \<Rightarrow> (string \<times> string) list \<Rightarrow> nat \<Rightarrow> string \<times> string" where
  "bootstrap ready lm tasks num_demos = (if tasks = [] then (''task'', ''solution'')
     else optimize_signature ready lm (Some ''task description'') (Some ''task output'') tasks)"

definition fallback_code :: "string \<Rightarrow> string \<Rightarrow> string" where
  "fallback_code description language =
     (let d = lower description in
      if language = ''python'' then
        ''# Generated Python'' @ nl @ ''# '' @ description @ nl @
        (if contains d ''add'' \<or> contains d ''sum'' \<or> contains description ''+'' then ''def add(a, b):'' @ nl @ ''    return a + b'' @ nl
         else if contains d ''class'' \<or> contains d ''object'' then ''class Stub:'' @ nl @ ''    def __init__(self):'' @ nl @ ''        pass'' @ nl
         else ''def stub():'' @ nl @ ''    raise NotImplementedError()'' @ nl)
      else if language = ''kotlin'' then
        ''// Generated Kotlin'' @ nl @ ''// '' @ description @ nl @
        (if contains d ''add'' \<or> contains d ''sum'' then ''fun add(a: Int, b: Int): Int = a + b'' @ nl else ''fun main() {}'' @ nl)
      else ''// Generated '' @ language @ nl @ ''// '' @ description @ nl)"

definition generate_code :: "bool \<Rightarrow> lm_call \<Rightarrow> string \<Rightarrow> string \<Rightarrow> (string, string) dict \<Rightarrow> string" where
  "generate_code ready lm description language ctx =
     (case predicted ready lm [(''description'', description), (''language'', language),
         (''context'', join nl (map (\<lambda>(k, v). k @ '': '' @ v) ctx))] ''code'' of
        Some c \<Rightarrow> c | None \<Rightarrow> fallback_code description language)"

definition generate_with_tests :: "bool \<Rightarrow> lm_call \<Rightarrow> string \<Rightarrow> string \<Rightarrow> string \<Rightarrow> string \<times> string" where
  "generate_with_tests ready lm description language framework =
     (generate_code ready lm description language [],
      if language = ''python'' \<and> framework = ''pytest''
      then ''import pytest'' @ nl @ nl @ ''from stub_module import stub'' @ nl @ nl @ ''def test_stub():'' @ nl @
           ''    with pytest.raises(NotImplementedError):'' @ nl @ ''        stub()'' @ nl
      else ''# Test for '' @ description)"

definition generate_tests :: "bool \<Rightarrow> lm_call \<Rightarrow> string \<Rightarrow> string \<Rightarrow> string \<Rightarrow> string" where
  "generate_tests ready lm source_code language min_coverage =
     (case predicted ready lm [(''source_code'', source_code), (''language'', language), (''min_coverage'', min_coverage)] ''tests'' of
        Some t \<Rightarrow> t
      | None \<Rightarrow> if language = ''python'' then ''import pytest'' @ nl @ ''# Tests for:'' @ nl @ ''# '' @ take 100 source_code @ nl @ nl @
              ''def test_placeholder():'' @ nl @ ''    assert True''
          else if language = ''kotlin'' then ''// Kotlin tests'' @ nl @ ''fun testPlaceholder() {'' @ nl @ ''    assert(true)'' @ nl @ ''}''
          else ''// '' @ language @ '' tests'')"

section \<open>What they do and do not use\<close>

text \<open>Routing learns nothing. Whatever feedback was recorded, for this task or any other, a
  task is routed as without it.\<close>

theorem routing_ignores_feedback:
  "snd (dspy_route has_key importable lm tsk (fold (\<lambda>(t, a, s). record_feedback t a s) fs r)) = snd (dspy_route has_key importable lm tsk r)"
proof -
  have "dr_loaded (fold (\<lambda>(t, a, s). record_feedback t a s) fs r) = dr_loaded r"
  proof (induction fs arbitrary: r)
    case (Cons f fs)
    obtain t a s where f: "f = (t, a, s)" by (cases f)
    have "dr_loaded (record_feedback t a s r) = dr_loaded r" by (cases r) (simp add: record_feedback_def)
    then show ?case by (simp only: f fold.simps comp_apply prod.case Cons.IH)
  qed simp
  then show ?thesis by (simp add: dspy_route_def split: prod.splits)
qed

text \<open>Feedback of the same length is not looked at. After a prompt was optimized, every
  further optimization of the task on a history of that length gives the same prompt, for as
  long as the object lives, and calls no model.\<close>

theorem prompt_cached_by_length:
  assumes "optimize_prompt ready lm tsk h cache = (cache1, p)" and "length h2 = length h"
  shows "optimize_prompt ready2 lm2 tsk h2 cache1 = (cache1, p)"
proof -
  have k: "cache_key tsk h2 = cache_key tsk h" by (simp only: cache_key_def assms(2))
  have "dget cache1 (cache_key tsk h) = Some p"
  proof (cases "dget cache (cache_key tsk h)")
    case None
    with assms(1) show ?thesis by (auto simp only: optimize_prompt_def Let_def option.case prod.inject dget_dset if_True refl)
  next
    case (Some q)
    with assms(1) show ?thesis by (simp add: optimize_prompt_def)
  qed
  then show ?thesis by (simp add: optimize_prompt_def k)
qed

theorem prompt_cached_by_length_witness:
  "snd (optimize_prompt True (\<lambda>i. Inr [(''optimized_prompt'', ''new'')]) ''t'' [(''9'', ''b'')]
     (fst (optimize_prompt False (\<lambda>i. Inr []) ''t'' [(''1'', ''a'')] []))) = fallback_prompt ''t''"
proof -
  obtain c p where o: "optimize_prompt False (\<lambda>i. Inr []) ''t'' [(''1'', ''a'')] [] = (c, p)" by fastforce
  then have "p = fallback_prompt ''t''" by (simp add: optimize_prompt_def predicted_def Let_def)
  with prompt_cached_by_length [OF o, of "[(''9'', ''b'')]" True "\<lambda>i. Inr [(''optimized_prompt'', ''new'')]"] o show ?thesis by simp
qed

lemma first_best_props:
  "first_best b rs \<in> set (b # rs) \<and> (\<forall>r \<in> set (b # rs). en_score r \<le> en_score (first_best b rs))"
proof (induction rs arbitrary: b)
  case (Cons r rs)
  from Cons [of "if en_score b < en_score r then r else b"] show ?case by (auto split: if_splits)
qed simp

text \<open>The ensemble chooses among its results. Every agent has one result, in order; without an
  answer of the model that names one of them the best is one of the highest score, and with
  one it is the named agent's, a tenth up.\<close>

theorem ensemble_best:
  assumes "agents \<noteq> []" and "rs = run_all agents tsk"
  shows "map en_agent rs = agents \<and> (\<exists>r \<in> set rs.
    (select_best ready lm rs = r \<and> (\<forall>x \<in> set rs. en_score x \<le> en_score r)) \<or>
    (select_best ready lm rs = r\<lparr>en_score := en_score r + 1 / 10\<rparr> \<and> (\<exists>ins. predicted ready lm ins ''best_agent'' = Some (en_agent r))))"
proof -
  have m: "map en_agent rs = agents" unfolding assms(2) run_all_def by (simp add: comp_def)
  have ne: "rs \<noteq> []" using assms by (simp add: run_all_def)
  show ?thesis
  proof (cases "\<exists>r. rs = [r]")
    case True
    with m show ?thesis by (auto simp: select_best_def)
  next
    case False
    with ne obtain r q rest where rs: "rs = r # q # rest" by (cases rs; cases "tl rs") auto
    let ?p = "predicted ready lm [(''responses'', responses_text rs), (''task'', ''complete this task'')] ''best_agent''"
    show ?thesis
    proof (cases "\<exists>a x. ?p = Some a \<and> find (\<lambda>x. en_agent x = a) rs = Some x")
      case True
      then obtain a x where p: "?p = Some a" "find (\<lambda>x. en_agent x = a) rs = Some x" by blast
      then have "en_agent x = a" "x \<in> set rs" by (auto simp: find_Some_iff)
      moreover have "select_best ready lm rs = x\<lparr>en_score := en_score x + 1 / 10\<rparr>" using p rs by (simp add: select_best_def)
      ultimately show ?thesis using m p(1) by blast
    next
      case False
      then have "select_best ready lm rs = first_best r (q # rest)"
        using rs by (auto simp: select_best_def split: option.splits)
      with first_best_props [of r "q # rest"] m rs show ?thesis by auto
    qed
  qed
qed

theorem ensemble_best_witness:
  "en_agent (select_best False (\<lambda>i. Inr []) (run_all [''a'', ''b''] ''t'')) \<in> {''a'', ''b''}"
proof -
  have "map en_agent (run_all [''a'', ''b''] ''t'') = [''a'', ''b''] \<and> (\<exists>r \<in> set (run_all [''a'', ''b''] ''t'').
      select_best False (\<lambda>i. Inr []) (run_all [''a'', ''b''] ''t'') = r \<or>
      select_best False (\<lambda>i. Inr []) (run_all [''a'', ''b''] ''t'') = r\<lparr>en_score := en_score r + 1 / 10\<rparr>)"
    using ensemble_best [OF _ refl, of "[''a'', ''b'']" "''t''" False "\<lambda>i. Inr []"] by blast
  then show ?thesis by (auto simp: run_all_def)
qed

text \<open>The gate treats a code of twenty characters two ways. Without a model it is sent back,
  with one that fails it passes; on every other length both agree.\<close>

theorem gate_fallbacks_differ_at_twenty:
  "gate_verdict False lm code tsk phase = gate_verdict True (\<lambda>i. Inl e) code tsk phase \<longleftrightarrow> length code \<noteq> 20"
  by (auto simp: gate_verdict_def predicted_def)

text \<open>Documents that were loaded change no query, and the number of demonstrations no bootstrap.\<close>

lemma corpus_and_demos_unused:
  "rag_query ready lm corpus q ctx = rag_query ready lm corpus2 q ctx"
  "bootstrap ready lm tasks n = bootstrap ready lm tasks n2"
  by (simp_all add: rag_query_def bootstrap_def)

text \<open>The test generated with Python code always expects the function of the third case.\<close>

lemma generated_test_fixed:
  "snd (generate_with_tests ready lm d1 ''python'' ''pytest'') = snd (generate_with_tests ready2 lm2 d2 ''python'' ''pytest'')"
  by (simp add: generate_with_tests_def)

text \<open>The steps of a plan are its lines that are not blank, numbered by line.\<close>

lemma parse_plan_steps:
  "map snd (op_steps (parse_plan k s g)) = filter (\<lambda>l. l \<noteq> []) (map strip (split_nl [] s))"
proof -
  have "map (\<lambda>x. strip (snd x)) (filter (\<lambda>x. strip (snd x) \<noteq> []) (List.enumerate n ls)) = filter (\<lambda>l. l \<noteq> []) (map strip ls)" for n ls
    by (induction ls arbitrary: n) auto
  then show ?thesis by (simp add: parse_plan_def comp_def case_prod_unfold)
qed

end
