(* ===== verification/Logging.thy ===== *)
theory Logging
  imports Metrics Cost_Tracker
begin

text \<open>
  The observability of \<open>src/observability\<close>: the structured log of \<open>logger.py\<close>, the
  callbacks of \<open>adk_callbacks.py\<close> that time agents and tools, and the set-up of the
  LiteLLM callbacks in \<open>litellm_callbacks.py\<close>. A log record is the dictionary of its
  attributes; the time, a fresh identifier and a formatted traceback are arguments.
\<close>

section \<open>Context\<close>

record log_context =
  lc_trace :: string
  lc_session :: string
  lc_task :: string

definition get_trace_id :: "string \<Rightarrow> log_context \<Rightarrow> string" where
  "get_trace_id uuid c = (if lc_trace c = [] then uuid else lc_trace c)"

definition get_session_id :: "log_context \<Rightarrow> string" where
  "get_session_id c = (if lc_session c = [] then [] else lc_session c)"

definition get_task_id :: "log_context \<Rightarrow> string" where
  "get_task_id c = (if lc_task c = [] then [] else lc_task c)"

definition set_trace_id :: "string \<Rightarrow> log_context \<Rightarrow> log_context" where
  "set_trace_id tid c = c\<lparr>lc_trace := tid\<rparr>"

definition set_session_id :: "string \<Rightarrow> log_context \<Rightarrow> log_context" where
  "set_session_id sid c = c\<lparr>lc_session := sid\<rparr>"

definition set_task_id :: "string \<Rightarrow> log_context \<Rightarrow> log_context" where
  "set_task_id tkid c = c\<lparr>lc_task := tkid\<rparr>"

section \<open>Records\<close>

text \<open>The attributes that \<open>logging\<close> sets itself, with the values that matter here, and
  \<open>makeRecord\<close>, which refuses an extra field named like one of them, or \<open>message\<close> or
  \<open>asctime\<close>.\<close>

definition FRAMEWORK_ATTRS :: "string list" where
  "FRAMEWORK_ATTRS = [''name'', ''msg'', ''args'', ''levelname'', ''levelno'', ''pathname'', ''filename'', ''module'',
     ''exc_info'', ''exc_text'', ''stack_info'', ''lineno'', ''funcName'', ''created'', ''msecs'', ''relativeCreated'',
     ''thread'', ''threadName'', ''processName'', ''process'', ''taskName'']"

definition base_record :: "string \<Rightarrow> string \<Rightarrow> string \<Rightarrow> (string, json) dict" where
  "base_record logger level msg = map (\<lambda>k. (k, if k = ''name'' then JStr logger else if k = ''levelname'' then JStr level
     else if k = ''msg'' then JStr msg else JNull)) FRAMEWORK_ATTRS"

fun add_extra :: "(string, json) dict \<Rightarrow> (string, json) dict \<Rightarrow> (string, json) dict result" where
  "add_extra [] rv = Inr rv"
| "add_extra ((k, v) # ex) rv =
     (if List.member [''message'', ''asctime''] k \<or> dmem k rv
      then Inl (Exn ''KeyError'' (''Attempt to overwrite '' @ repr_str k @ '' in LogRecord''))
      else add_extra ex (dset k v rv))"

definition make_record :: "string \<Rightarrow> string \<Rightarrow> string \<Rightarrow> (string, json) dict \<Rightarrow> (string, json) dict result" where
  "make_record logger level msg extra = add_extra extra (base_record logger level msg)"

definition context_filter :: "string \<Rightarrow> log_context \<Rightarrow> (string, json) dict \<Rightarrow> (string, json) dict" where
  "context_filter uuid c r =
     (let r1 = dset ''task_id'' (JStr (get_task_id c)) (dset ''session_id'' (JStr (get_session_id c))
                 (dset ''trace_id'' (JStr (get_trace_id uuid c)) r));
          r2 = dset ''agent'' (dgetd r1 ''agent'' (JStr [])) r1
      in dset ''tool'' (dgetd r2 ''tool'' (JStr [])) r2)"

section \<open>Formatters\<close>

definition LOGRECORD_STANDARD_ATTRS :: "string list" where
  "LOGRECORD_STANDARD_ATTRS = [''name'', ''msg'', ''args'', ''levelname'', ''levelno'', ''pathname'', ''filename'', ''module'',
     ''exc_info'', ''exc_text'', ''stack_info'', ''lineno'', ''funcName'', ''created'', ''msecs'', ''relativeCreated'',
     ''thread'', ''threadName'', ''processName'', ''process'', ''message'', ''asctime'', ''taskName'',
     ''trace_id'', ''session_id'', ''task_id'', ''agent'', ''tool'']"

definition is_extra :: "string \<Rightarrow> bool" where
  "is_extra k \<longleftrightarrow> \<not> List.member LOGRECORD_STANDARD_ATTRS k \<and> \<not> startswith k ''_''"

definition extract_extra_fields :: "(string, json) dict \<Rightarrow> (string, json) dict" where
  "extract_extra_fields r = filter (\<lambda>(k, v). is_extra k) r"

definition json_format :: "string \<Rightarrow> string option \<Rightarrow> (string, json) dict \<Rightarrow> (string, json) dict" where
  "json_format now traceback r =
     (let attr = (\<lambda>k. dgetd r k (JStr []));
          log_obj = [(''timestamp'', JStr now), (''level'', attr ''levelname''), (''logger'', attr ''name''), (''message'', attr ''msg''),
            (''trace_id'', attr ''trace_id''), (''session_id'', attr ''session_id''), (''task_id'', attr ''task_id''),
            (''agent'', attr ''agent''), (''tool'', attr ''tool'')];
          extras = extract_extra_fields r;
          log1 = (if extras = [] then log_obj else dset ''extra'' (JObj extras) log_obj)
      in case traceback of None \<Rightarrow> log1 | Some t \<Rightarrow> dset ''exception'' (JStr t) log1)"

text \<open>The plain line: \<open>base\<close> is what the format string of \<open>configure_logging\<close> gives.\<close>

definition plain_base :: "(real \<Rightarrow> string) \<Rightarrow> string \<Rightarrow> string option \<Rightarrow> (string, json) dict \<Rightarrow> string" where
  "plain_base frepr asctime traceback r = (let attr = (\<lambda>k. py_str frepr (dgetd r k (JStr []))) in
     asctime @ '' ['' @ attr ''levelname'' @ ''] '' @ attr ''name'' @ '' '' @ attr ''agent'' @ attr ''tool'' @ ''| trace='' @ attr ''trace_id'' @
     '' session='' @ attr ''session_id'' @ '' task='' @ attr ''task_id'' @ '' | '' @ attr ''msg'' @
     (case traceback of None \<Rightarrow> [] | Some t \<Rightarrow> CHR 0x0A # t))"

definition plain_format :: "(real \<Rightarrow> string) \<Rightarrow> string \<Rightarrow> (string, json) dict \<Rightarrow> string" where
  "plain_format frepr base r = (let extras = extract_extra_fields r in
     if extras = [] then base
     else base @ '' | '' @ join '' '' (map (\<lambda>(k, v). k @ ''='' @ py_str frepr v) (sort_key fst extras)))"

text \<open>One call of a logger, down to the object that is written.\<close>

definition log_json ::
  "string \<Rightarrow> string \<Rightarrow> log_context \<Rightarrow> string \<Rightarrow> string \<Rightarrow> string \<Rightarrow> (string, json) dict \<Rightarrow> string option \<Rightarrow> (string, json) dict result" where
  "log_json now uuid c logger level msg extra traceback =
     bindr (make_record logger level msg extra) (\<lambda>r. Inr (json_format now traceback (context_filter uuid c r)))"

section \<open>Agent and tool callbacks\<close>

record observability =
  ob_tool_starts :: "(string, real) dict"
  ob_agent_starts :: "(string, real) dict"

definition before_agent :: "string \<Rightarrow> real \<Rightarrow> observability \<Rightarrow> observability" where
  "before_agent name t ob = ob\<lparr>ob_agent_starts := dset name t (ob_agent_starts ob)\<rparr>"

definition before_tool_call :: "string \<Rightarrow> real \<Rightarrow> observability \<Rightarrow> observability" where
  "before_tool_call name t ob = ob\<lparr>ob_tool_starts := dset name t (ob_tool_starts ob)\<rparr>"

text \<open>A missing start, and one at zero, gives no duration.\<close>

definition elapsed :: "real option \<Rightarrow> real \<Rightarrow> real" where
  "elapsed start t = (case start of None \<Rightarrow> 0 | Some s \<Rightarrow> if s = 0 then 0 else t - s)"

definition after_tool_call ::
  "string \<Rightarrow> real \<Rightarrow> exn option \<Rightarrow> observability \<Rightarrow> metrics_registry \<times> fs \<Rightarrow> observability \<times> (metrics_registry \<times> fs)" where
  "after_tool_call name t err ob rw =
     (ob\<lparr>ob_tool_starts := ddel name (ob_tool_starts ob)\<rparr>,
      record_tool_call name (elapsed (dget (ob_tool_starts ob) name) t) err rw)"

text \<open>
  The cost of a response is asked of LiteLLM (\<open>cost\<close>); four kinds of errors count as no
  cost, any other leaves the callback. A cost is recorded under the task \<open>global\<close> with the
  tracker loaded from its file; \<open>None\<close> when the file holds no costs.
\<close>

definition COST_ERRORS :: "string list" where
  "COST_ERRORS = [''ImportError'', ''AttributeError'', ''TypeError'', ''ValueError'']"

definition known_cost :: "real result \<Rightarrow> real result" where
  "known_cost cost = (case cost of Inr c \<Rightarrow> Inr c
     | Inl e \<Rightarrow> if List.member COST_ERRORS (exn_type e) then Inr 0 else Inl e)"

definition after_agent ::
  "fault \<Rightarrow> string \<Rightarrow> string \<Rightarrow> string \<Rightarrow> real \<Rightarrow> real result \<Rightarrow> observability \<Rightarrow> metrics_registry \<times> fs
    \<Rightarrow> (observability \<times> (metrics_registry \<times> fs) \<times> unit result) option" where
  "after_agent flt tmp costs_file name t cost ob rw =
     (let ob1 = ob\<lparr>ob_agent_starts := ddel name (ob_agent_starts ob)\<rparr>;
          duration = elapsed (dget (ob_agent_starts ob) name) t;
          counted = (\<lambda>rw. Some (ob1, record_agent_call name duration None rw, Inr ()))
      in case known_cost cost of
           Inl e \<Rightarrow> Some (ob1, rw, Inl e)
         | Inr c \<Rightarrow> if 0 < c then
             (case load_costs costs_file (snd rw) of
                None \<Rightarrow> None
              | Some ct \<Rightarrow> (case record_cost flt tmp ''global'' name c ct (snd rw) of
                  None \<Rightarrow> None
                | Some (ct', w', Inl e) \<Rightarrow> Some (ob1, (fst rw, w'), Inl e)
                | Some (ct', w', Inr u) \<Rightarrow> counted (fst rw, w')))
             else counted rw)"

section \<open>LiteLLM callbacks\<close>

record litellm_callbacks =
  ll_success :: "string list"
  ll_failure :: "string list"

record tracing_settings =
  tr_langfuse :: bool
  tr_langfuse_module :: bool
  tr_helicone :: bool
  tr_agentops :: bool
  tr_mlflow :: bool
  tr_sentry :: bool

definition add_once :: "string \<Rightarrow> string list \<Rightarrow> string list" where
  "add_once x xs = (if List.member xs x then xs else xs @ [x])"

definition both_callbacks :: "string \<Rightarrow> litellm_callbacks \<Rightarrow> litellm_callbacks" where
  "both_callbacks x l = l\<lparr>ll_success := add_once x (ll_success l), ll_failure := add_once x (ll_failure l)\<rparr>"

definition setup_callbacks :: "tracing_settings \<Rightarrow> litellm_callbacks \<Rightarrow> litellm_callbacks" where
  "setup_callbacks s l =
     (let l1 = (if tr_langfuse s \<and> tr_langfuse_module s then both_callbacks ''langfuse'' l else l);
          l2 = (if tr_helicone s then l1\<lparr>ll_success := add_once ''helicone'' (ll_success l1)\<rparr> else l1);
          l3 = (if tr_agentops s then both_callbacks ''agentops'' l2 else l2);
          l4 = (if tr_mlflow s then both_callbacks ''mlflow'' l3 else l3)
      in if tr_sentry s then l4\<lparr>ll_failure := add_once ''sentry'' (ll_failure l4)\<rparr> else l4)"

section \<open>What a log line holds\<close>

definition refused_key :: "(string, json) dict \<Rightarrow> string \<Rightarrow> bool" where
  "refused_key rv k \<longleftrightarrow> List.member [''message'', ''asctime''] k \<or> dmem k rv"

lemma add_extra_eq:
  "dwf ex \<Longrightarrow> add_extra ex rv = (case find (refused_key rv) (map fst ex) of
     Some k \<Rightarrow> Inl (Exn ''KeyError'' (''Attempt to overwrite '' @ repr_str k @ '' in LogRecord'')) | None \<Rightarrow> Inr (rv @ ex))"
proof (induction ex arbitrary: rv)
  case (Cons kv ex)
  obtain k v where kv: "kv = (k, v)" by (cases kv)
  have d: "dwf ex" "k \<notin> set (map fst ex)" using Cons.prems by (simp_all add: dwf_def kv)
  show ?case
  proof (cases "refused_key rv k")
    case True
    then show ?thesis by (simp add: kv refused_key_def)
  next
    case False
    then have n: "k \<notin> fst ` set rv" by (auto simp: refused_key_def dmem_def map_of_eq_None_iff split: option.splits)
    then have u: "dset k v rv = rv @ [(k, v)]" by (induction rv) auto
    have f: "find (refused_key (dset k v rv)) (map fst ex) = find (refused_key rv) (map fst ex)"
      using d(2) by (induction ex) (auto simp: refused_key_def dmem_def)
    have "add_extra (kv # ex) rv = add_extra ex (dset k v rv)" using False by (simp add: kv refused_key_def)
    also have "\<dots> = (case find (refused_key rv) (map fst (kv # ex)) of
        Some k \<Rightarrow> Inl (Exn ''KeyError'' (''Attempt to overwrite '' @ repr_str k @ '' in LogRecord'')) | None \<Rightarrow> Inr (rv @ kv # ex))"
      unfolding Cons.IH [OF d(1)] f using False by (simp add: kv u split: option.splits)
    finally show ?thesis .
  qed
qed simp

lemma filter_dset_other: "\<not> P k \<Longrightarrow> filter (\<lambda>(k, v). P k) (dset k v d) = filter (\<lambda>(k, v). P k) d"
  by (induction d) auto

lemma extract_filtered: "extract_extra_fields (context_filter uuid c r) = extract_extra_fields r"
  unfolding context_filter_def extract_extra_fields_def Let_def
  by (simp add: filter_dset_other is_extra_def LOGRECORD_STANDARD_ATTRS_def)

lemma extract_base: "extract_extra_fields (base_record l lv m @ ex) = filter (\<lambda>(k, v). is_extra k) ex"
  by (simp add: extract_extra_fields_def base_record_def FRAMEWORK_ATTRS_def is_extra_def LOGRECORD_STANDARD_ATTRS_def)

definition line_object ::
  "string \<Rightarrow> string \<Rightarrow> log_context \<Rightarrow> string \<Rightarrow> string \<Rightarrow> string \<Rightarrow> json \<Rightarrow> json \<Rightarrow> (string, json) dict \<Rightarrow> string option \<Rightarrow> (string, json) dict" where
  "line_object now uuid c l lv m agent tool extras traceback =
     [(''timestamp'', JStr now), (''level'', JStr lv), (''logger'', JStr l), (''message'', JStr m),
      (''trace_id'', JStr (get_trace_id uuid c)), (''session_id'', JStr (lc_session c)), (''task_id'', JStr (lc_task c)),
      (''agent'', agent), (''tool'', tool)]
     @ (if extras = [] then [] else [(''extra'', JObj extras)])
     @ (case traceback of None \<Rightarrow> [] | Some t \<Rightarrow> [(''exception'', JStr t)])"

lemma base_get: "dget (base_record l lv m @ ex) k =
    (if k = ''name'' then Some (JStr l) else if k = ''levelname'' then Some (JStr lv) else if k = ''msg'' then Some (JStr m)
     else if List.member FRAMEWORK_ATTRS k then Some JNull else dget ex k)"
  by (auto simp: base_record_def FRAMEWORK_ATTRS_def)

lemma line_format_get:
  assumes "dget r ''name'' = Some (JStr l)" "dget r ''levelname'' = Some (JStr lv)" "dget r ''msg'' = Some (JStr m)"
  shows "json_format now traceback (context_filter uuid c r) =
     line_object now uuid c l lv m (dgetd r ''agent'' (JStr [])) (dgetd r ''tool'' (JStr [])) (extract_extra_fields r) traceback"
  unfolding json_format_def Let_def extract_filtered
  by (simp add: context_filter_def Let_def dgetd_def assms line_object_def get_session_id_def get_task_id_def split: option.splits)

lemma line_format:
  "json_format now traceback (context_filter uuid c (base_record l lv m @ ex)) =
     line_object now uuid c l lv m (dgetd ex ''agent'' (JStr [])) (dgetd ex ''tool'' (JStr [])) (filter (\<lambda>(k, v). is_extra k) ex) traceback"
proof -
  have g: "dget (base_record l lv m @ ex) ''name'' = Some (JStr l)" "dget (base_record l lv m @ ex) ''levelname'' = Some (JStr lv)"
    "dget (base_record l lv m @ ex) ''msg'' = Some (JStr m)" by (simp_all only: base_get) simp_all
  have "dget (base_record l lv m @ ex) ''agent'' = dget ex ''agent''" "dget (base_record l lv m @ ex) ''tool'' = dget ex ''tool''"
    by (simp_all only: base_get) (simp_all add: FRAMEWORK_ATTRS_def)
  then have d: "dgetd (base_record l lv m @ ex) ''agent'' (JStr []) = dgetd ex ''agent'' (JStr [])"
    "dgetd (base_record l lv m @ ex) ''tool'' (JStr []) = dgetd ex ''tool'' (JStr [])" by (simp_all only: dgetd_def)
  show ?thesis by (simp only: line_format_get [OF g] extract_base d)
qed

lemma log_json_eq:
  assumes "dwf extra"
  shows "log_json now uuid c l lv m extra traceback =
    (case find (refused_key (base_record l lv m)) (map fst extra) of
       Some k \<Rightarrow> Inl (Exn ''KeyError'' (''Attempt to overwrite '' @ repr_str k @ '' in LogRecord''))
     | None \<Rightarrow> Inr (line_object now uuid c l lv m (dgetd extra ''agent'' (JStr [])) (dgetd extra ''tool'' (JStr []))
         (filter (\<lambda>(k, v). is_extra k) extra) traceback))"
  unfolding log_json_def make_record_def add_extra_eq [OF assms]
  by (simp add: bindr_def line_format split: option.splits)

lemma refused_iff: "refused_key (base_record l lv m) k \<longleftrightarrow> k \<in> set (FRAMEWORK_ATTRS @ [''message'', ''asctime''])"
  using base_get [of l lv m "[]" k] by (auto simp: refused_key_def dmem_def FRAMEWORK_ATTRS_def split: if_splits)

text \<open>A structured line holds what the caller gave. A call with extra fields raises exactly
  when one is named like an attribute of the logging framework; otherwise the line has the
  nine fixed fields first, the identifiers of the context in them, and under \<open>extra\<close> all
  fields of the caller, in order, that are not of the schema and do not begin with an
  underscore.\<close>

theorem log_json_exact:
  assumes "dwf extra"
  shows "case log_json now uuid c l lv m extra traceback of
      Inl e \<Rightarrow> exn_type e = ''KeyError'' \<and> (\<exists>k \<in> fst ` set extra. k \<in> set (FRAMEWORK_ATTRS @ [''message'', ''asctime'']))
    | Inr obj \<Rightarrow> fst ` set extra \<inter> set (FRAMEWORK_ATTRS @ [''message'', ''asctime'']) = {} \<and>
        obj = line_object now uuid c l lv m (dgetd extra ''agent'' (JStr [])) (dgetd extra ''tool'' (JStr []))
          (filter (\<lambda>(k, v). is_extra k) extra) traceback"
proof (cases "find (refused_key (base_record l lv m)) (map fst extra)")
  case None
  then have "\<forall>k \<in> set (map fst extra). \<not> refused_key (base_record l lv m) k" by (simp add: find_None_iff)
  then have "fst ` set extra \<inter> set (FRAMEWORK_ATTRS @ [''message'', ''asctime'']) = {}" unfolding refused_iff by auto
  then show ?thesis unfolding log_json_eq [OF assms] None by simp
next
  case (Some k)
  then have "refused_key (base_record l lv m) k \<and> k \<in> set (map fst extra)" by (auto simp: find_Some_iff)
  then have "\<exists>k \<in> fst ` set extra. k \<in> set (FRAMEWORK_ATTRS @ [''message'', ''asctime''])" unfolding refused_iff by auto
  then show ?thesis unfolding log_json_eq [OF assms] Some by simp
qed

theorem log_json_exact_witness:
  "\<exists>obj. log_json ''now'' ''u'' \<lparr>lc_trace = ''t'', lc_session = ''s'', lc_task = []\<rparr> ''swarm'' ''INFO'' ''hello'' [(''cycle_id'', JInt 3), (''_x'', JInt 1)] None = Inr obj
    \<and> dget obj ''extra'' = Some (JObj [(''cycle_id'', JInt 3)])"
proof -
  have w: "dwf [(''cycle_id'', JInt 3), (''_x'', JInt 1)]" by (simp add: dwf_def)
  show ?thesis
    using log_json_exact [OF w, where now = "''now''" and uuid = "''u''" and c = "\<lparr>lc_trace = ''t'', lc_session = ''s'', lc_task = []\<rparr>"
        and l = "''swarm''" and lv = "''INFO''" and m = "''hello''" and traceback = None]
    by (auto simp: FRAMEWORK_ATTRS_def is_extra_def LOGRECORD_STANDARD_ATTRS_def startswith_def line_object_def split: sum.splits)
qed

lemma find_ddel: "\<not> P k \<Longrightarrow> find P (map fst (ddel k ex)) = find P (map fst ex)"
  by (induction ex) auto

lemma find_dset: "\<not> P k \<Longrightarrow> find P (map fst (dset k v ex)) = find P (map fst ex)"
  by (induction ex) auto

lemma filter_ddel_other: "\<not> P k \<Longrightarrow> filter (\<lambda>(k, v). P k) (ddel k d) = filter (\<lambda>(k, v). P k) d"
  by (induction d) auto

text \<open>Identifiers given with a call are dropped. A trace, session or task identifier among
  the extra fields of a call makes no difference to the line; the context's is written.\<close>

theorem logged_ids_dropped:
  assumes "dwf extra" and "k \<in> {''trace_id'', ''session_id'', ''task_id''}"
  shows "log_json now uuid c l lv m (dset k v extra) traceback = log_json now uuid c l lv m (ddel k extra) traceback"
proof -
  have w: "dwf (dset k v extra)" "dwf (ddel k extra)"
    using assms(1) by (simp_all add: dwf_def distinct_update distinct_delete)
  have n: "\<not> refused_key (base_record l lv m) k" "\<not> is_extra k" "k \<noteq> ''agent''" "k \<noteq> ''tool''"
    using assms(2) unfolding refused_iff by (auto simp: FRAMEWORK_ATTRS_def is_extra_def LOGRECORD_STANDARD_ATTRS_def)
  show ?thesis unfolding log_json_eq [OF w(1)] log_json_eq [OF w(2)]
    using n by (simp add: find_dset find_ddel filter_dset_other filter_ddel_other dgetd_def delete_conv' split: option.split)
qed

theorem logged_ids_dropped_witness:
  "log_json ''now'' ''u'' \<lparr>lc_trace = [], lc_session = [], lc_task = []\<rparr> ''queue'' ''INFO'' ''done'' [(''task_id'', JStr ''t1'')] None =
   log_json ''now'' ''u'' \<lparr>lc_trace = [], lc_session = [], lc_task = []\<rparr> ''queue'' ''INFO'' ''done'' [] None"
proof -
  have w: "dwf []" and k: "''task_id'' \<in> {''trace_id'', ''session_id'', ''task_id''}" by (simp_all add: dwf_def)
  from logged_ids_dropped [OF w k, where v = "JStr ''t1''"] show ?thesis by simp
qed

section \<open>What the callbacks count\<close>

datatype tool_event = ToolBefore string real | ToolAfter string real "exn option"

fun run_tool_events :: "tool_event list \<Rightarrow> observability \<times> (metrics_registry \<times> fs) \<Rightarrow> observability \<times> (metrics_registry \<times> fs)" where
  "run_tool_events [] s = s"
| "run_tool_events (ToolBefore n t # es) s = run_tool_events es (before_tool_call n t (fst s), snd s)"
| "run_tool_events (ToolAfter n t e # es) s = run_tool_events es (after_tool_call n t e (fst s) (snd s))"

text \<open>The start an end is measured from, read off the events before it, the latest first.\<close>

fun open_start :: "string \<Rightarrow> tool_event list \<Rightarrow> real option" where
  "open_start n [] = None"
| "open_start n (ToolBefore m t # es) = (if m = n then Some t else open_start n es)"
| "open_start n (ToolAfter m t e # es) = (if m = n then None else open_start n es)"

fun ended_calls :: "tool_event list \<Rightarrow> tool_event list \<Rightarrow> (string \<times> real \<times> exn option) list" where
  "ended_calls past [] = []"
| "ended_calls past (ToolBefore n t # es) = ended_calls (ToolBefore n t # past) es"
| "ended_calls past (ToolAfter n t e # es) = (n, elapsed (open_start n past) t, e) # ended_calls (ToolAfter n t e # past) es"

definition starts_match :: "observability \<Rightarrow> tool_event list \<Rightarrow> bool" where
  "starts_match ob past \<longleftrightarrow> (\<forall>n. dget (ob_tool_starts ob) n = open_start n past)"

lemma run_tool_events_from:
  "starts_match ob past \<Longrightarrow> snd (run_tool_events es (ob, rw)) =
     fold (\<lambda>(n, d, e) rw. record_tool_call n d e rw) (ended_calls past es) rw"
proof (induction es arbitrary: ob past rw)
  case (Cons ev es)
  show ?case
  proof (cases ev)
    case (ToolBefore n t)
    with Cons.prems have "starts_match (before_tool_call n t ob) (ToolBefore n t # past)"
      by (simp add: starts_match_def before_tool_call_def)
    from Cons.IH [OF this] ToolBefore show ?thesis by simp
  next
    case (ToolAfter n t e)
    have "starts_match (ob\<lparr>ob_tool_starts := ddel n (ob_tool_starts ob)\<rparr>) (ToolAfter n t e # past)"
      using Cons.prems by (simp add: starts_match_def delete_conv')
    from Cons.IH [OF this] ToolAfter Cons.prems show ?thesis by (simp add: after_tool_call_def starts_match_def)
  qed
qed simp

text \<open>Every tool call is counted, and timed from the latest start of its tool. From a new
  callback on, whatever starts and ends follow each other, the registry has recorded one call
  for every end, in order, with the time since the latest start of the tool that no end has
  used yet, and zero when there is none.\<close>

theorem tool_calls_counted:
  "snd (run_tool_events es (\<lparr>ob_tool_starts = [], ob_agent_starts = as\<rparr>, rw)) =
     fold (\<lambda>(n, d, e) rw. record_tool_call n d e rw) (ended_calls [] es) rw"
  by (rule run_tool_events_from) (simp add: starts_match_def)

text \<open>Of two calls of a tool that overlap one is not timed. The one that ends first gets the
  time since the later start, the other gets zero: the time between the two starts is lost.\<close>

theorem overlapping_call_untimed:
  assumes "t2 \<noteq> 0"
  shows "snd (run_tool_events [ToolBefore n t1, ToolBefore n t2, ToolAfter n t3 e1, ToolAfter n t4 e2] (\<lparr>ob_tool_starts = [], ob_agent_starts = as\<rparr>, rw))
    = record_tool_call n 0 e2 (record_tool_call n (t3 - t2) e1 rw)"
  using assms by (simp add: before_tool_call_def after_tool_call_def elapsed_def)

theorem overlapping_call_untimed_witness:
  "am_sum (dgetd (mr_tools (fst (snd (run_tool_events [ToolBefore ''search'' 1, ToolBefore ''search'' 2, ToolAfter ''search'' 5 None, ToolAfter ''search'' 9 None]
     (\<lparr>ob_tool_starts = [], ob_agent_starts = []\<rparr>, \<lparr>mr_filename = ''m'', mr_agents = [], mr_tools = [], mr_tokens = []\<rparr>, \<lparr>docs = [], logs = []\<rparr>))))) ''search'' AgentMetrics) = 3"
  by (subst overlapping_call_untimed) (simp_all add: record_tool_call_def bump_def dgetd_def AgentMetrics_def Let_def)

text \<open>An agent's call is counted unless its cost is not known. With a cost, or an error of the
  kinds that count as none, the callback records the call when the cost could be stored;
  after any other error the callback raises it and neither registry nor files change.\<close>

theorem agent_call_counted:
  assumes "after_agent flt tmp costs_file name t cost ob rw = Some (ob', rw', r)"
  shows "dget (ob_agent_starts ob') name = None \<and>
    (case r of
       Inr u \<Rightarrow> (\<exists>w. rw' = record_agent_call name (elapsed (dget (ob_agent_starts ob) name) t) None (fst rw, w))
     | Inl e \<Rightarrow> fst rw' = fst rw \<and> (cost = Inl e \<and> exn_type e \<notin> set COST_ERRORS \<longrightarrow> rw' = rw))
    \<and> (\<forall>e. cost = Inl e \<and> exn_type e \<notin> set COST_ERRORS \<longrightarrow> r = Inl e)"
proof (cases "known_cost cost")
  case (Inl e)
  then have "cost = Inl e" "exn_type e \<notin> set COST_ERRORS" by (auto simp: known_cost_def split: sum.splits if_splits)
  with assms Inl show ?thesis by (auto simp: after_agent_def Let_def delete_conv')
next
  case (Inr c)
  then have n: "\<not> (\<exists>e. cost = Inl e \<and> exn_type e \<notin> set COST_ERRORS)"
    by (auto simp: known_cost_def split: sum.splits if_splits)
  show ?thesis
  proof (cases "0 < c")
    case True
    with assms Inr n show ?thesis
      by (auto simp: after_agent_def Let_def delete_conv' split: option.splits prod.splits sum.splits)
  next
    case False
    with assms Inr n show ?thesis
      by (cases rw) (auto simp: after_agent_def Let_def delete_conv')
  qed
qed

theorem agent_call_counted_witness:
  "\<exists>ob' rw'. after_agent NoFault ''tmp'' ''costs.jsonl'' ''Builder'' 5 (Inl (Exn ''NotFoundError'' ''model not mapped'')) \<lparr>ob_tool_starts = [], ob_agent_starts = [(''Builder'', 2)]\<rparr>
       (\<lparr>mr_filename = ''m'', mr_agents = [], mr_tools = [], mr_tokens = []\<rparr>, \<lparr>docs = [], logs = []\<rparr>) = Some (ob', rw', Inl (Exn ''NotFoundError'' ''model not mapped''))
     \<and> mr_agents (fst rw') = []"
proof -
  have k: "''NotFoundError'' \<notin> set COST_ERRORS" by (simp add: COST_ERRORS_def)
  have s: "\<exists>ob' rw' r. after_agent NoFault ''tmp'' ''costs.jsonl'' ''Builder'' 5 (Inl (Exn ''NotFoundError'' ''model not mapped'')) \<lparr>ob_tool_starts = [], ob_agent_starts = [(''Builder'', 2)]\<rparr>
       (\<lparr>mr_filename = ''m'', mr_agents = [], mr_tools = [], mr_tokens = []\<rparr>, \<lparr>docs = [], logs = []\<rparr>) = Some (ob', rw', r)"
    using k by (simp add: after_agent_def known_cost_def Let_def)
  then obtain ob' rw' r where a: "after_agent NoFault ''tmp'' ''costs.jsonl'' ''Builder'' 5 (Inl (Exn ''NotFoundError'' ''model not mapped'')) \<lparr>ob_tool_starts = [], ob_agent_starts = [(''Builder'', 2)]\<rparr>
       (\<lparr>mr_filename = ''m'', mr_agents = [], mr_tools = [], mr_tokens = []\<rparr>, \<lparr>docs = [], logs = []\<rparr>) = Some (ob', rw', r)" by blast
  from agent_call_counted [OF a] k have "r = Inl (Exn ''NotFoundError'' ''model not mapped'')" "mr_agents (fst rw') = []" by auto
  with a show ?thesis by auto
qed

section \<open>Setting up twice\<close>

definition success_names :: "tracing_settings \<Rightarrow> string list" where
  "success_names s = (if tr_langfuse s \<and> tr_langfuse_module s then [''langfuse''] else []) @ (if tr_helicone s then [''helicone''] else []) @
     (if tr_agentops s then [''agentops''] else []) @ (if tr_mlflow s then [''mlflow''] else [])"

definition failure_names :: "tracing_settings \<Rightarrow> string list" where
  "failure_names s = (if tr_langfuse s \<and> tr_langfuse_module s then [''langfuse''] else []) @
     (if tr_agentops s then [''agentops''] else []) @ (if tr_mlflow s then [''mlflow''] else []) @ (if tr_sentry s then [''sentry''] else [])"

lemma setup_fold:
  "setup_callbacks s l = l\<lparr>ll_success := fold add_once (success_names s) (ll_success l), ll_failure := fold add_once (failure_names s) (ll_failure l)\<rparr>"
  by (simp add: setup_callbacks_def both_callbacks_def success_names_def failure_names_def Let_def)

lemma fold_add_once:
  "set (fold add_once ns xs) = set ns \<union> set xs \<and> prefix xs (fold add_once ns xs) \<and> (distinct xs \<longrightarrow> distinct (fold add_once ns xs))"
proof (induction ns arbitrary: xs)
  case (Cons n ns)
  have "set (add_once n xs) = insert n (set xs)" "prefix xs (add_once n xs)" "distinct xs \<longrightarrow> distinct (add_once n xs)"
    by (auto simp: add_once_def)
  with Cons [of "add_once n xs"] show ?case by (auto intro: prefix_order.trans)
qed simp

lemma fold_add_once_known: "set ns \<subseteq> set xs \<Longrightarrow> fold add_once ns xs = xs"
  by (induction ns) (auto simp: add_once_def)

text \<open>The callbacks are set up once. Setting up adds every enabled sink behind what was there,
  and a second time changes nothing.\<close>

theorem setup_callbacks_idempotent:
  "setup_callbacks s (setup_callbacks s l) = setup_callbacks s l
   \<and> set (ll_success (setup_callbacks s l)) = set (success_names s) \<union> set (ll_success l)
   \<and> set (ll_failure (setup_callbacks s l)) = set (failure_names s) \<union> set (ll_failure l)
   \<and> prefix (ll_success l) (ll_success (setup_callbacks s l)) \<and> prefix (ll_failure l) (ll_failure (setup_callbacks s l))"
  by (simp add: setup_fold fold_add_once fold_add_once_known)

end
