(* ===== verification/Mcp_Server.thy ===== *)
theory Mcp_Server
  imports Capabilities
begin

text \<open>
  The MCP server of \<open>src/mcp/server.py\<close>: its own registry of three capabilities over the
  state, the control files and the sandboxed file system, and the three tools that serve
  them. The transport and the server object are the MCP package's; a tool is a function
  from its arguments to the envelope it returns, on the runtime of \<open>Capabilities\<close>.
\<close>

definition mcp_status_handler :: "runtime handler" where
  "mcp_status_handler request rt = (rt,
     bindr (build_state_manager [] (rt_fs rt)) (\<lambda>sm. let tasks = dvalues (get_all_tasks sm) in
       bindr (status_count ''STALLED'' tasks) (\<lambda>stalled.
       bindr (status_count ''PLANNED'' tasks) (\<lambda>planned.
       bindr (status_count ''COMPLETED'' tasks) (\<lambda>completed.
         Inr (OutValue (JObj
           [(''pid'', case get_swarm_pid (rt_control rt) of None \<Rightarrow> JNull | Some p \<Rightarrow> JInt p),
            (''shutdown_requested'', JBool (is_shutdown_requested (rt_control rt))),
            (''queue_depth'', JInt (int (length (peek_prompts (rt_fs rt))))),
            (''total_tasks'', JInt (int (length tasks))),
            (''planned_tasks'', JInt (int planned)), (''completed_tasks'', JInt (int completed)), (''stalled_tasks'', JInt (int stalled)),
            (''health'', JStr (if 0 < stalled then ''DEGRADED'' else ''HEALTHY''))])))))))"

definition mcp_read_handler :: "(real \<Rightarrow> string) \<Rightarrow> runtime handler" where
  "mcp_read_handler frepr request rt = (case dget (cq_args request) ''path'' of
      None \<Rightarrow> (rt, Inl (key_error ''path''))
    | Some p \<Rightarrow> (case timed (ReadFile (fst (rt_clock rt)) (snd (rt_clock rt)) (rt_base rt) (rt_tree rt) (py_str frepr p) (rt_metrics rt, rt_fs rt)) rt of
        (rt', r) \<Rightarrow> (rt', bindr r (\<lambda>s. Inr (OutValue (JObj [(''path'', p), (''content'', JStr s)]))))))"

definition mcp_list_handler :: "(real \<Rightarrow> string) \<Rightarrow> runtime handler" where
  "mcp_list_handler frepr request rt = (let p = dgetd (cq_args request) ''path'' (JStr ''.'') in
     case timed (ListDirectory (fst (rt_clock rt)) (snd (rt_clock rt)) (rt_base rt) (rt_tree rt) (py_str frepr p) (rt_metrics rt, rt_fs rt)) rt of
        (rt', r) \<Rightarrow> (rt', bindr r (\<lambda>es. Inr (OutValue (JObj [(''path'', p), (''entries'', JArr es)])))))"

definition build_registry :: "(real \<Rightarrow> string) \<Rightarrow> runtime capability_registry result" where
  "build_registry frepr =
     bindr (registry_register ''swarm.status'' ''Read a low-risk snapshot of local swarm status.'' ''local'' mcp_status_handler []) (\<lambda>r1.
     bindr (registry_register ''repo.read_file'' ''Read a repository file using existing filesystem guardrails.'' ''local'' (mcp_read_handler frepr) r1) (\<lambda>r2.
       registry_register ''repo.list_directory'' ''List repository entries using existing filesystem guardrails.'' ''local'' (mcp_list_handler frepr) r2))"

text \<open>\<open>_build_result_envelope\<close>\<close>

definition build_result_envelope :: "capability_result \<Rightarrow> (string, json) dict" where
  "build_result_envelope r = [(''status'', JStr (cr_status r)),
     (''payload'', case cr_payload r of None \<Rightarrow> JNull | Some d \<Rightarrow> JObj d),
     (''error'', case cr_error r of None \<Rightarrow> JNull | Some e \<Rightarrow> JStr e),
     (''source_backend'', JStr (cr_backend r)), (''retryable'', JBool (cr_retryable r))]"

datatype mcp_call = SwarmStatus | RepoReadFile string | RepoListDirectory string

definition mcp_request :: "mcp_call \<Rightarrow> string \<times> (string, json) dict" where
  "mcp_request c = (case c of SwarmStatus \<Rightarrow> (''swarm.status'', [])
     | RepoReadFile p \<Rightarrow> (''repo.read_file'', [(''path'', JStr p)])
     | RepoListDirectory p \<Rightarrow> (''repo.list_directory'', [(''path'', JStr p)]))"

text \<open>A call of the built server; the service's bridge is not reached by these backends.\<close>

definition mcp_serve :: "(real \<Rightarrow> string) \<Rightarrow> (json \<Rightarrow> json \<Rightarrow> json \<Rightarrow> string result) \<Rightarrow> mcp_call \<Rightarrow> runtime \<Rightarrow> runtime \<times> (string, json) dict result" where
  "mcp_serve frepr bridge c rt = (case build_registry frepr of
      Inl e \<Rightarrow> (rt, Inl e)
    | Inr reg \<Rightarrow> (case service_execute bridge (fst (mcp_request c)) (snd (mcp_request c)) reg rt of
        (rt', r) \<Rightarrow> (rt', Inr (build_result_envelope r))))"

section \<open>What a client can reach\<close>

lemma build_registry_eq: "build_registry frepr = Inr
  [(''swarm.status'', \<lparr>cd_name = ''swarm.status'', cd_description = ''Read a low-risk snapshot of local swarm status.'', cd_backend = ''local'', cd_handler = mcp_status_handler\<rparr>),
   (''repo.read_file'', \<lparr>cd_name = ''repo.read_file'', cd_description = ''Read a repository file using existing filesystem guardrails.'', cd_backend = ''local'', cd_handler = mcp_read_handler frepr\<rparr>),
   (''repo.list_directory'', \<lparr>cd_name = ''repo.list_directory'', cd_description = ''List repository entries using existing filesystem guardrails.'', cd_backend = ''local'', cd_handler = mcp_list_handler frepr\<rparr>)]"
  by (simp add: build_registry_def registry_register_def bindr_def dmem_def)

definition mcp_handler :: "(real \<Rightarrow> string) \<Rightarrow> mcp_call \<Rightarrow> runtime handler" where
  "mcp_handler frepr c = (case c of SwarmStatus \<Rightarrow> mcp_status_handler | RepoReadFile p \<Rightarrow> mcp_read_handler frepr | RepoListDirectory p \<Rightarrow> mcp_list_handler frepr)"

lemma mcp_serve_eq:
  "mcp_serve frepr bridge c rt =
    (case mcp_handler frepr c \<lparr>cq_name = fst (mcp_request c), cq_args = snd (mcp_request c)\<rparr> rt of
       (rt', Inl e) \<Rightarrow> (rt', Inr (build_result_envelope (error_result (exn_msg e) ''local'' False)))
     | (rt', Inr (OutResult r)) \<Rightarrow> (rt', Inr (build_result_envelope r))
     | (rt', Inr (OutValue v)) \<Rightarrow> (rt', Inr (build_result_envelope (ok_result (payload_of v) ''local''))))"
  unfolding mcp_serve_def build_registry_eq
  by (cases c) (auto simp: service_execute_def registry_get_def mcp_request_def mcp_handler_def execute_local_def
      split: prod.splits sum.splits handler_output.splits)

definition only_metrics :: "runtime \<Rightarrow> runtime \<Rightarrow> bool" where
  "only_metrics rt rt' \<longleftrightarrow> rt_tree rt' = rt_tree rt \<and> rt_control rt' = rt_control rt \<and> logs (rt_fs rt') = logs (rt_fs rt)
    \<and> (\<forall>f. f = mr_filename (rt_metrics rt) \<or> dget (docs (rt_fs rt')) f = dget (docs (rt_fs rt)) f)"

lemma only_metrics_refl [simp]: "only_metrics rt rt"
  by (simp add: only_metrics_def)

lemma timed_only_metrics: "timed (tool_timer n a b outcome (rt_metrics rt, rt_fs rt)) rt = (rt', r) \<Longrightarrow> only_metrics rt rt' \<and> r = outcome"
  by (auto simp: timed_def tool_timer_def record_tool_call_def persist_metrics_def Let_def only_metrics_def split: if_splits)

lemma mcp_handler_frame: "mcp_handler frepr c q rt = (rt', out) \<Longrightarrow> only_metrics rt rt'"
  by (cases c) (auto simp: mcp_handler_def mcp_status_handler_def mcp_read_handler_def mcp_list_handler_def ReadFile_def ListDirectory_def
      Let_def dest: timed_only_metrics split: option.splits prod.splits)

text \<open>The server only reads. Whatever is called, the call answers with an envelope and leaves
  the tree of files, the control files and the logs as they are; of the documents at most
  the metrics are written.\<close>

theorem mcp_only_reads:
  assumes "mcp_serve frepr bridge c rt = (rt', r)"
  shows "rt_tree rt' = rt_tree rt \<and> rt_control rt' = rt_control rt \<and> logs (rt_fs rt') = logs (rt_fs rt)
    \<and> (\<forall>f. f = mr_filename (rt_metrics rt) \<or> dget (docs (rt_fs rt')) f = dget (docs (rt_fs rt)) f) \<and> (\<exists>env. r = Inr env)"
proof -
  obtain rt1 out where h: "mcp_handler frepr c \<lparr>cq_name = fst (mcp_request c), cq_args = snd (mcp_request c)\<rparr> rt = (rt1, out)" by fastforce
  have "rt' = rt1" "\<exists>env. r = Inr env" using assms unfolding mcp_serve_eq h by (auto split: sum.splits handler_output.splits)
  with mcp_handler_frame [OF h] show ?thesis by (simp add: only_metrics_def)
qed

theorem mcp_only_reads_witness:
  "\<exists>rt' r. mcp_serve (\<lambda>x. []) (\<lambda>s t a. Inr []) (RepoListDirectory ''.'') demo_runtime = (rt', r) \<and> rt_tree rt' = demo_tree"
proof -
  obtain rt' r where s: "mcp_serve (\<lambda>x. []) (\<lambda>s t a. Inr []) (RepoListDirectory ''.'') demo_runtime = (rt', r)" by fastforce
  from mcp_only_reads [OF s] s show ?thesis by (auto simp: demo_runtime_def)
qed

text \<open>A client reads what the sandbox allows. The file tool succeeds exactly when the sandbox
  reads the path; its payload is then the path and the text of an allowed file below the
  root, and otherwise the envelope is an error with the sandbox's message and no payload.\<close>

theorem mcp_read_confined:
  "snd (mcp_serve frepr bridge (RepoReadFile path) rt) =
     Inr (build_result_envelope (case read_file (rt_base rt) (rt_tree rt) path of
       Inr s \<Rightarrow> ok_result [(''path'', JStr path), (''content'', JStr s)] ''local'' | Inl e \<Rightarrow> error_result (exn_msg e) ''local'' False))
   \<and> (case read_file (rt_base rt) (rt_tree rt) path of Inl e \<Rightarrow> True
      | Inr s \<Rightarrow> \<exists>p c. prefix (rt_base rt) p \<and> link_free (rt_tree rt) p \<and> dget (rt_tree rt) p = Some (TextFile c)
          \<and> \<not> denied (file_name p) \<and> s = universal_newlines c)"
proof -
  have "snd (mcp_serve frepr bridge (RepoReadFile path) rt) =
     Inr (build_result_envelope (case read_file (rt_base rt) (rt_tree rt) path of
       Inr s \<Rightarrow> ok_result [(''path'', JStr path), (''content'', JStr s)] ''local'' | Inl e \<Rightarrow> error_result (exn_msg e) ''local'' False))"
    unfolding mcp_serve_eq
    by (simp add: mcp_handler_def mcp_request_def mcp_read_handler_def timed_def ReadFile_def tool_timer_def bindr_def payload_of_def
        split: prod.splits sum.splits)
  moreover have "\<exists>p c. prefix (rt_base rt) p \<and> link_free (rt_tree rt) p \<and> dget (rt_tree rt) p = Some (TextFile c)
      \<and> \<not> denied (file_name p) \<and> s = universal_newlines c" if "read_file (rt_base rt) (rt_tree rt) path = Inr s" for s
    using read_file_shape [OF that] by blast
  ultimately show ?thesis by (auto split: sum.splits)
qed

text \<open>The status of the server is the one of the runtime under other names. The snapshot has
  the numbers of the runtime's capability on the same default files, or both raise the same.\<close>

theorem mcp_status_agrees:
  "snd (mcp_status_handler q rt) = bindr (snd (swarm_status_handler \<lparr>cq_name = ''swarm.status'', cq_args = []\<rparr> rt)) (\<lambda>out. case out of
      OutValue (JObj d) \<Rightarrow> Inr (OutValue (JObj (map (\<lambda>(k, v). (if List.member [''planned'', ''completed'', ''stalled''] k then k @ ''_tasks'' else k, v)) d)))
    | v \<Rightarrow> Inr v)"
  by (simp add: mcp_status_handler_def swarm_status_handler_def bindr_def Let_def split: sum.splits)

end
