(* ===== verification/Memori_Client.thy ===== *)
theory Memori_Client
  imports PyText
begin

text \<open>
  The memory client of \<open>src/services/memori_client.py\<close>. The HTTP session, with its retries,
  is the argument \<open>post\<close>, the memory package the arguments \<open>sdk_recall\<close> and \<open>sdk_delete\<close>,
  which read the key of the environment; \<open>is_request_error\<close> tells the exceptions of the
  HTTP library. Pruning in place is a function on JSON values.
\<close>

record memori_client =
  mc_api_key :: string
  mc_base_url :: string
  mc_entity :: "string option"
  mc_process :: "string option"
  mc_session :: string

definition PUBLIC_SDK_KEY :: string where "PUBLIC_SDK_KEY = ''96a7ea3e-11c2-428c-b9ae-5a168363dc80''"
definition DEFAULT_BASE :: string where "DEFAULT_BASE = ''https://api.memorilabs.ai''"

definition memori_or :: "string option \<Rightarrow> string \<Rightarrow> string" where
  "memori_or v dflt = (case v of None \<Rightarrow> dflt | Some s \<Rightarrow> if s = [] then dflt else s)"

definition MemoriCloudClient :: "string option \<Rightarrow> string option \<Rightarrow> string option \<Rightarrow> string \<Rightarrow> memori_client" where
  "MemoriCloudClient api_key base_url env_key uuid = \<lparr>mc_api_key = memori_or api_key (case env_key of None \<Rightarrow> [] | Some k \<Rightarrow> k),
     mc_base_url = memori_or base_url DEFAULT_BASE, mc_entity = None, mc_process = None, mc_session = uuid\<rparr>"

definition attribution :: "string \<Rightarrow> string option \<Rightarrow> memori_client \<Rightarrow> memori_client" where
  "attribution entity process c = c\<lparr>mc_entity := Some entity, mc_process := process\<rparr>"

definition new_session :: "string \<Rightarrow> memori_client \<Rightarrow> memori_client" where
  "new_session uuid c = c\<lparr>mc_session := uuid\<rparr>"

definition set_session :: "string \<Rightarrow> memori_client \<Rightarrow> memori_client" where
  "set_session sid c = c\<lparr>mc_session := sid\<rparr>"

definition configured :: "memori_client \<Rightarrow> bool" where
  "configured c = (case mc_entity c of None \<Rightarrow> False | Some e \<Rightarrow> True)"

section \<open>Pruning\<close>

fun prune_none :: "json \<Rightarrow> json" and prune_items :: "(string \<times> json) list \<Rightarrow> (string \<times> json) list" and prune_list :: "json list \<Rightarrow> json list" where
  "prune_none (JObj kvs) = JObj (prune_items kvs)"
| "prune_none (JArr vs) = JArr (prune_list vs)"
| "prune_none v = v"
| "prune_items [] = []"
| "prune_items ((k, v) # kvs) = (if v = JNull then prune_items kvs else (k, prune_none v) # prune_items kvs)"
| "prune_list [] = []"
| "prune_list (v # vs) = prune_none v # prune_list vs"

section \<open>Persisting\<close>

definition message_json :: "(real \<Rightarrow> string) \<Rightarrow> (string, json) dict \<Rightarrow> json result" where
  "message_json frepr m = (case dget m ''role'' of
      None \<Rightarrow> Inl (Exn ''KeyError'' ''role'')
    | Some r \<Rightarrow> Inr (JObj [(''role'', r), (''content'', JStr (py_str frepr (dgetd m ''content'' (JStr []))))]))"

fun messages_json :: "(real \<Rightarrow> string) \<Rightarrow> (string, json) dict list \<Rightarrow> json list result" where
  "messages_json frepr [] = Inr []"
| "messages_json frepr (m # ms) = bindr (message_json frepr m) (\<lambda>v. bindr (messages_json frepr ms) (\<lambda>vs. Inr (v # vs)))"

definition memori_payload :: "json list \<Rightarrow> (string, json) dict \<Rightarrow> memori_client \<Rightarrow> json" where
  "memori_payload messages extra c = JObj
     [(''conversation'', JObj [(''messages'', JArr messages), (''summary'', dgetd extra ''__summary__'' JNull)]),
      (''meta'', JObj
        [(''attribution'', JObj [(''entity'', JObj [(''id'', case mc_entity c of None \<Rightarrow> JNull | Some e \<Rightarrow> JStr e)]),
           (''process'', JObj [(''id'', JStr (memori_or (mc_process c) []))])]),
         (''framework'', JObj [(''provider'', JNull)]),
         (''llm'', JObj [(''model'', JObj [(''provider'', JNull), (''sdk'', JObj [(''version'', JStr [])]), (''version'', dgetd extra ''model'' (JStr ''unknown''))])]),
         (''platform'', JObj [(''provider'', JNull)]),
         (''sdk'', JObj [(''lang'', JStr ''python''), (''version'', JStr ''0.1.0'')]),
         (''storage'', JObj [(''cockroachdb'', JBool False), (''dialect'', dgetd extra ''dialect'' (JStr ''sqlite''))])])]"

definition memori_headers :: "memori_client \<Rightarrow> (string, string) dict" where
  "memori_headers c = [(''Content-Type'', ''application/json''), (''X-Memori-API-Key'', PUBLIC_SDK_KEY)]
     @ (if mc_api_key c = [] then [] else [(''Authorization'', ''Bearer '' @ mc_api_key c)])"

type_synonym 'w poster = "string \<Rightarrow> (string, string) dict \<Rightarrow> json \<Rightarrow> 'w \<Rightarrow> 'w \<times> json result"

definition memori_persist ::
  "(real \<Rightarrow> string) \<Rightarrow> (exn \<Rightarrow> bool) \<Rightarrow> 'w poster \<Rightarrow> (string, json) dict list \<Rightarrow> (string, json) dict \<Rightarrow> memori_client \<Rightarrow> 'w \<Rightarrow> 'w \<times> json result" where
  "memori_persist frepr is_request_error post messages extra c w =
     (if \<not> configured c then (w, Inr (JObj []))
      else case messages_json frepr messages of
          Inl e \<Rightarrow> (w, Inl e)
        | Inr ms \<Rightarrow> (case post (mc_base_url c @ ''/v1/sdk/augmentation'') (memori_headers c) (prune_none (memori_payload ms extra c)) w of
            (w', Inr v) \<Rightarrow> (w', Inr v)
          | (w', Inl e) \<Rightarrow> (w', if is_request_error e then Inr (JObj []) else Inl e)))"

section \<open>Recalling and deleting\<close>

text \<open>\<open>env\<close> is \<open>MEMORI_API_KEY\<close> of the process. The facts are what the result has under the
  key, when that has a length.\<close>

definition facts_of :: "json \<Rightarrow> json" where
  "facts_of result = (case result of
      JObj d \<Rightarrow> (case dgetd d ''facts'' (JArr []) of JArr vs \<Rightarrow> JArr vs | JStr s \<Rightarrow> JStr s | JObj e \<Rightarrow> JObj e | _ \<Rightarrow> JArr [])
    | _ \<Rightarrow> JArr [])"

definition recall ::
  "bool \<Rightarrow> (string option \<Rightarrow> string option \<Rightarrow> string option \<Rightarrow> string \<Rightarrow> string \<Rightarrow> int \<Rightarrow> json result)
    \<Rightarrow> string \<Rightarrow> int \<Rightarrow> real \<Rightarrow> memori_client \<Rightarrow> string option \<Rightarrow> string option \<times> json" where
  "recall importable sdk_recall query limit threshold c env =
     (if \<not> configured c \<or> \<not> importable then (env, JArr [])
      else (let env1 = (if mc_api_key c \<noteq> [] \<and> env \<noteq> Some (mc_api_key c) then Some (mc_api_key c) else env)
            in (env1, case sdk_recall env1 (mc_entity c) (mc_process c) (mc_session c) query limit of
                 Inl e \<Rightarrow> JArr [] | Inr v \<Rightarrow> facts_of v)))"

definition delete_entity_memories ::
  "bool \<Rightarrow> (string option \<Rightarrow> string \<Rightarrow> string option \<Rightarrow> 'w \<Rightarrow> 'w \<times> unit result) \<Rightarrow> string option \<Rightarrow> memori_client \<Rightarrow> string option \<Rightarrow> 'w \<Rightarrow> 'w \<times> bool" where
  "delete_entity_memories importable sdk_delete entity c env w =
     (let target = memori_or entity (memori_or (mc_entity c) [])
      in if target = [] \<or> \<not> importable then (w, False)
         else case sdk_delete env target (mc_process c) w of (w', Inl e) \<Rightarrow> (w', False) | (w', Inr u) \<Rightarrow> (w', True))"

section \<open>What it sends and whom it asks\<close>

fun null_free :: "json \<Rightarrow> bool" and null_free_items :: "(string \<times> json) list \<Rightarrow> bool" and null_free_list :: "json list \<Rightarrow> bool" where
  "null_free (JObj kvs) = null_free_items kvs"
| "null_free (JArr vs) = null_free_list vs"
| "null_free v = True"
| "null_free_items [] = True"
| "null_free_items ((k, v) # kvs) = (v \<noteq> JNull \<and> null_free v \<and> null_free_items kvs)"
| "null_free_list [] = True"
| "null_free_list (v # vs) = (null_free v \<and> null_free_list vs)"

lemma prune_none_not_null: "prune_none v = JNull \<longleftrightarrow> v = JNull"
  by (cases v) auto

lemma prune_none_free:
  "null_free (prune_none v)" "null_free_items (prune_items kvs)" "null_free_list (prune_list vs)"
  by (induction v and kvs and vs rule: prune_none_prune_items_prune_list.induct) (auto simp: prune_none_not_null)

lemma prune_none_id:
  "null_free v \<Longrightarrow> prune_none v = v" "null_free_items kvs \<Longrightarrow> prune_items kvs = kvs" "null_free_list vs \<Longrightarrow> prune_list vs = vs"
  by (induction v and kvs and vs rule: prune_none_prune_items_prune_list.induct) auto

lemma prune_items_map:
  "prune_items kvs = map (\<lambda>(k, v). (k, prune_none v)) (filter (\<lambda>(k, v). v \<noteq> JNull) kvs)"
  by (induction kvs) auto

lemma prune_list_map: "prune_list vs = map prune_none vs"
  by (induction vs) auto

text \<open>Pruning removes exactly the null fields. No object of the result has a field that is
  null, at any depth; values that have none are left alone, so pruning twice is pruning once;
  an object keeps its other fields in order, pruned, and an array all its elements.\<close>

theorem prune_exact:
  "null_free (prune_none v) \<and> prune_none (prune_none v) = prune_none v
   \<and> prune_none (JObj kvs) = JObj (map (\<lambda>(k, v). (k, prune_none v)) (filter (\<lambda>(k, v). v \<noteq> JNull) kvs))
   \<and> prune_none (JArr vs) = JArr (map prune_none vs)"
  by (simp add: prune_none_free prune_none_id prune_items_map prune_list_map)

lemma messages_json_eq:
  "messages_json frepr ms = (if \<forall>m \<in> set ms. dmem ''role'' m
     then Inr (map (\<lambda>m. JObj [(''role'', the (dget m ''role'')), (''content'', JStr (py_str frepr (dgetd m ''content'' (JStr []))))]) ms)
     else Inl (Exn ''KeyError'' ''role''))"
  by (induction ms) (auto simp: message_json_def bindr_def dmem_def split: option.splits)

text \<open>What a turn sends. Nothing is sent before the attribution is set; a message without a
  role raises before anything is sent; otherwise there is one request, with the messages in
  order as texts and the entity, and a failure of the HTTP library is an empty answer.\<close>

theorem persist_exact:
  "memori_persist frepr is_request_error post messages extra c w =
     (case mc_entity c of
        None \<Rightarrow> (w, Inr (JObj []))
      | Some e \<Rightarrow>
          if \<exists>m \<in> set messages. \<not> dmem ''role'' m then (w, Inl (Exn ''KeyError'' ''role''))
          else (case post (mc_base_url c @ ''/v1/sdk/augmentation'') (memori_headers c)
              (prune_none (memori_payload (map (\<lambda>m. JObj [(''role'', the (dget m ''role'')),
                 (''content'', JStr (py_str frepr (dgetd m ''content'' (JStr []))))]) messages) extra c)) w of
            (w', r) \<Rightarrow> (w', case r of Inr v \<Rightarrow> Inr v | Inl e \<Rightarrow> if is_request_error e then Inr (JObj []) else Inl e)))"
  by (auto simp: memori_persist_def configured_def messages_json_eq split: option.splits prod.splits sum.splits)

text \<open>Memories are deleted under the key of the environment. A recall of a configured client
  with a key leaves that key in the environment for every later client, and a deletion uses
  the key found there: it does not depend on the key of the client that is asked.\<close>

theorem deletes_under_environment_key:
  assumes "configured c" and "mc_api_key c \<noteq> []"
  shows "fst (recall True sdk_recall query limit threshold c env) = Some (mc_api_key c) \<and>
    delete_entity_memories True sdk_delete entity d (fst (recall True sdk_recall query limit threshold c env)) w =
    delete_entity_memories True sdk_delete entity (d\<lparr>mc_api_key := k\<rparr>) (Some (mc_api_key c)) w"
  using assms by (simp add: recall_def delete_entity_memories_def Let_def)

theorem deletes_under_environment_key_witness:
  "fst (recall True (\<lambda>env e p s q n. Inr JNull) ''q'' 5 0 (attribution ''a'' None (MemoriCloudClient (Some ''key-a'') None None ''u'')) None) = Some ''key-a''"
proof -
  have c: "configured (attribution ''a'' None (MemoriCloudClient (Some ''key-a'') None None ''u''))"
    and k: "mc_api_key (attribution ''a'' None (MemoriCloudClient (Some ''key-a'') None None ''u'')) = ''key-a''"
    by (simp_all add: configured_def attribution_def MemoriCloudClient_def memori_or_def)
  from deletes_under_environment_key [OF c, unfolded k, where sdk_recall = "\<lambda>env e p s q n. Inr JNull" and query = "''q''" and limit = 5 and threshold = 0 and env = None, THEN conjunct1]
  show ?thesis by simp
qed

end
