(* ===== verification/Swarm_Cli.thy ===== *)
theory Swarm_Cli
  imports Phase_Api Capabilities GitHub_Tool Cost_Tracker
begin

text \<open>
  The commands of \<open>src/cli/swarm_cli.py\<close> other than those of the phase ledger, and the
  listing of interrupted workflows (\<open>src/services/dbos_recovery.py\<close>) behind one of them. A
  command takes its parsed arguments and gives the lines it prints and its exit code, or
  what it raises after those lines; a quoted path stands for its text. The renderings of
  floats (\<open>frepr\<close>), the times (\<open>now\<close>), and the workflow database are arguments.
\<close>

section \<open>Columns\<close>

definition pad_right :: "nat \<Rightarrow> string \<Rightarrow> string" where
  "pad_right n s = s @ replicate (n - length s) (CHR '' '')"

definition pad_left :: "nat \<Rightarrow> string \<Rightarrow> string" where
  "pad_left n s = replicate (n - length s) (CHR '' '') @ s"

text \<open>\<open>format(v, "<n")\<close>: a truth value is a number here; null, arrays and objects raise.\<close>

definition format_cell :: "(real \<Rightarrow> string) \<Rightarrow> nat \<Rightarrow> json \<Rightarrow> string result" where
  "format_cell frepr n v = (case v of
      JStr s \<Rightarrow> Inr (pad_right n s)
    | JInt i \<Rightarrow> Inr (pad_right n (str_of_int i))
    | JBool b \<Rightarrow> Inr (pad_right n (if b then ''1'' else ''0''))
    | JFloat x \<Rightarrow> Inr (pad_right n (frepr x))
    | _ \<Rightarrow> Inl (Exn ''TypeError'' ''unsupported format string''))"

definition slice_text :: "nat \<Rightarrow> json \<Rightarrow> json result" where
  "slice_text n v = (case v of JStr s \<Rightarrow> Inr (JStr (take n s)) | JArr vs \<Rightarrow> Inr (JArr (take n vs))
     | _ \<Rightarrow> Inl (Exn ''TypeError'' ''not subscriptable''))"

type_synonym command_run = "string list \<times> nat result"

text \<open>The rows of a table; one that raises ends it.\<close>

fun print_rows :: "('a \<Rightarrow> string result) \<Rightarrow> 'a list \<Rightarrow> command_run" where
  "print_rows f [] = ([], Inr 0)"
| "print_rows f (x # xs) = (case f x of Inl e \<Rightarrow> ([], Inl e)
    | Inr l \<Rightarrow> (case print_rows f xs of (ls, r) \<Rightarrow> (l # ls, r)))"

definition table :: "string list \<Rightarrow> ('a \<Rightarrow> string result) \<Rightarrow> 'a list \<Rightarrow> command_run" where
  "table header f xs = (case print_rows f xs of (ls, r) \<Rightarrow> (header @ ls, r))"

definition rule :: "nat \<Rightarrow> string" where
  "rule n = replicate n (CHR ''-'')"

text \<open>\<open>xs[-(tail or len(xs)):]\<close>\<close>

definition tail_slice :: "int \<Rightarrow> 'a list \<Rightarrow> 'a list" where
  "tail_slice tail xs = (let k = (if tail = 0 then int (length xs) else tail) in
     if 0 < k then drop (length xs - nat k) xs else drop (nat (- k)) xs)"

section \<open>Tasks and events\<close>

definition task_row :: "(real \<Rightarrow> string) \<Rightarrow> string \<times> json \<Rightarrow> string result" where
  "task_row frepr kv = bindr (as_dict (snd kv)) (\<lambda>d.
     bindr (format_cell frepr 12 (dgetd d ''status'' (JStr ''UNKNOWN''))) (\<lambda>status.
     bindr (format_cell frepr 15 (dgetd d ''source'' (JStr []))) (\<lambda>source.
       Inr (pad_right 40 (fst kv) @ '' '' @ status @ '' '' @ source))))"

fun with_status :: "string \<Rightarrow> (string, json) dict \<Rightarrow> (string, json) dict result" where
  "with_status st [] = Inr []"
| "with_status st ((k, v) # kvs) = bindr (as_dict v) (\<lambda>d. bindr (with_status st kvs) (\<lambda>rest.
     Inr (if py_eq (dgetd d ''status'' JNull) (JStr st) then (k, v) # rest else rest)))"

definition tasks_header :: "string list" where
  "tasks_header = [pad_right 40 ''Task ID'' @ '' '' @ pad_right 12 ''Status'' @ '' '' @ pad_right 15 ''Source'', rule 70]"

definition cmd_tasks :: "(real \<Rightarrow> string) \<Rightarrow> string option \<Rightarrow> state_manager \<Rightarrow> command_run" where
  "cmd_tasks frepr status sm =
     (let tasks = get_all_tasks sm in
      if tasks = [] then ([''No tasks found.''], Inr 0)
      else case (case status of None \<Rightarrow> Inr tasks | Some s \<Rightarrow> if s = [] then Inr tasks else with_status s tasks) of
          Inl e \<Rightarrow> ([], Inl e)
        | Inr ts \<Rightarrow> table tasks_header (task_row frepr) (sort_key fst ts))"

definition shown_keys :: "(string, json) dict \<Rightarrow> string result" where
  "shown_keys evt = (case dget evt ''diff'' of
      None \<Rightarrow> Inr []
    | Some v \<Rightarrow> if \<not> truthy v then Inr [] else (case v of JObj d \<Rightarrow> Inr (join '', '' (dkeys d)) | _ \<Rightarrow> Inl (attribute_error ''keys'')))"

definition cli_event_row :: "(real \<Rightarrow> string) \<Rightarrow> json \<Rightarrow> string result" where
  "cli_event_row frepr v = bindr (as_dict v) (\<lambda>evt.
     bindr (slice_text 24 (dgetd evt ''task_id'' (JStr []))) (\<lambda>tsk.
     bindr (slice_text 10 (dgetd evt ''agent'' (JStr []))) (\<lambda>agent.
     bindr (shown_keys evt) (\<lambda>keys.
     bindr (format_cell frepr 28 (dgetd evt ''timestamp'' (JStr []))) (\<lambda>ts.
     bindr (format_cell frepr 25 tsk) (\<lambda>tsk.
     bindr (format_cell frepr 12 agent) (\<lambda>agent.
     bindr (format_cell frepr 8 (dgetd evt ''action'' (JStr []))) (\<lambda>action.
       Inr (ts @ '' '' @ tsk @ '' '' @ agent @ '' '' @ action @ '' '' @ keys)))))))))"

definition events_header :: "string list" where
  "events_header = [pad_right 28 ''Timestamp'' @ '' '' @ pad_right 25 ''Task ID'' @ '' '' @ pad_right 12 ''Agent'' @ '' '' @ pad_right 8 ''Action'' @ '' Details'',
     rule 100]"

definition cmd_events :: "(real \<Rightarrow> string) \<Rightarrow> string option \<Rightarrow> int \<Rightarrow> state_manager \<Rightarrow> fs \<Rightarrow> command_run" where
  "cmd_events frepr tsk tail sm w =
     (case (case tsk of None \<Rightarrow> Inr (get_all_events sm w) | Some t \<Rightarrow> if t = [] then Inr (get_all_events sm w) else get_task_history t sm w) of
        Inl e \<Rightarrow> ([], Inl e)
      | Inr events \<Rightarrow> if events = [] then ([''No events found.''], Inr 0)
          else table events_header (cli_event_row frepr) (tail_slice tail events))"

section \<open>Prompts, stop and status\<close>

definition or_default :: "string option \<Rightarrow> string \<Rightarrow> string" where
  "or_default v dflt = (case v of None \<Rightarrow> dflt | Some s \<Rightarrow> if s = [] then dflt else s)"

definition cmd_prompt :: "string \<Rightarrow> string list \<Rightarrow> string option \<Rightarrow> fs \<Rightarrow> fs \<times> command_run" where
  "cmd_prompt now message user w =
     (let m = join '' '' message in
      if m = [] then (w, [''Error: No prompt message provided.''], Inr 1)
      else (enqueue_prompt now (or_default user ''cli_user'') m w,
        [''Prompt enqueued: '' @ take 80 m @ (if 80 < length m then ''...'' else []), ''Queue file: '' @ QUEUE_PATH], Inr 0))"

definition cmd_stop :: "string \<Rightarrow> control \<Rightarrow> control \<times> command_run" where
  "cmd_stop now c =
     (request_shutdown now c,
      [case get_swarm_pid c of
         Some p \<Rightarrow> if p = 0 then ''Requesting swarm shutdown (no PID file found)...'' else ''Requesting shutdown for swarm PID '' @ str_of_int p @ ''...''
       | None \<Rightarrow> ''Requesting swarm shutdown (no PID file found)...'',
       ''Shutdown sentinel created: '' @ SENTINEL_PATH, ''The swarm will exit on its next loop iteration.''], Inr 0)"

definition queue_row :: "(real \<Rightarrow> string) \<Rightarrow> json \<Rightarrow> string result" where
  "queue_row frepr v = bindr (as_dict v) (\<lambda>d.
     bindr (slice_text 50 (dgetd d ''prompt'' (JStr []))) (\<lambda>p.
     bindr (format_cell frepr 28 (dgetd d ''timestamp'' (JStr []))) (\<lambda>ts.
     bindr (format_cell frepr 15 (dgetd d ''user_id'' (JStr []))) (\<lambda>user.
       Inr (ts @ '' '' @ user @ '' '' @ py_str frepr p)))))"

definition queue_header :: "string list" where
  "queue_header = [pad_right 28 ''Timestamp'' @ '' '' @ pad_right 15 ''User'' @ '' Prompt'', rule 80]"

definition cmd_queue :: "(real \<Rightarrow> string) \<Rightarrow> fs \<Rightarrow> command_run" where
  "cmd_queue frepr w = (let entries = peek_prompts w in
     if entries = [] then ([''Prompt queue is empty.''], Inr 0) else table queue_header (queue_row frepr) entries)"

text \<open>\<open>view\<close> is the status view of \<open>Capabilities\<close>.\<close>

definition cmd_status :: "(real \<Rightarrow> string) \<Rightarrow> (string, json) dict result \<Rightarrow> command_run" where
  "cmd_status frepr view = (case view of
      Inl e \<Rightarrow> ([], Inl e)
    | Inr v \<Rightarrow> (let field = (\<lambda>k. py_str frepr (dgetd v k JNull)) in
       ([''=== Cognitive Foundry Swarm Status ==='',
         ''PID:           '' @ py_str frepr (dgetd v ''pid'' (JStr ''Not running'')),
         ''Shutdown req:  '' @ (if truthy (dgetd v ''shutdown_requested'' JNull) then ''Yes'' else ''No''),
         ''Queue depth:   '' @ field ''queue_depth'', ''Total tasks:   '' @ field ''total_tasks'',
         ''  Planned:     '' @ field ''planned'', ''  Completed:   '' @ field ''completed'',
         ''  Stalled:     '' @ field ''stalled'', ''Health:        '' @ field ''health''], Inr 0)))"

text \<open>The lines of the log file, when one is named and exists.\<close>

definition cmd_logs :: "string list option \<Rightarrow> int \<Rightarrow> command_run" where
  "cmd_logs file_lines tail = (case file_lines of
      Some ls \<Rightarrow> (map rstrip (tail_slice tail ls), Inr 0)
    | None \<Rightarrow> ([''No log file specified or found. Logs are written to stdout by default.'',
        ''To capture logs to a file, run the swarm with:'', ''  python -m src.main 2>&1 | tee swarm.log''], Inr 0))"

definition pull_cell :: "nat \<Rightarrow> json \<Rightarrow> string" where
  "pull_cell n v = (case v of JStr s \<Rightarrow> take n s | _ \<Rightarrow> [])"

definition pr_row :: "(real \<Rightarrow> string) \<Rightarrow> (string, json) dict \<Rightarrow> string result" where
  "pr_row frepr p = bindr (format_cell frepr 6 (dgetd p ''number'' JNull)) (\<lambda>n.
     bindr (format_cell frepr 8 (dgetd p ''state'' JNull)) (\<lambda>st.
       Inr (n @ '' '' @ st @ '' '' @ pad_right 25 (pull_cell 23 (dgetd p ''head'' JNull)) @ '' '' @
         pad_right 35 (pull_cell 33 (dgetd p ''title'' JNull)) @ '' '' @ py_str frepr (dgetd p ''url'' JNull))))"

definition cmd_prs :: "(real \<Rightarrow> string) \<Rightarrow> 'h gh_ops \<Rightarrow> bool \<Rightarrow> string option \<Rightarrow> 'h \<Rightarrow> 'h \<times> command_run" where
  "cmd_prs frepr G repo state h = (case list_pull_requests G repo (or_default state ''open'') h of
      (h', Inl e) \<Rightarrow> (h', [], Inl e)
    | (h', Inr prs) \<Rightarrow> (h', if prs = [] then ([''No pull requests found.''], Inr 0)
        else table [pad_right 6 ''#'' @ '' '' @ pad_right 8 ''State'' @ '' '' @ pad_right 25 ''Head'' @ '' '' @ pad_right 35 ''Title'' @ '' URL'', rule 90]
               (pr_row frepr) prs))"

section \<open>Metrics\<close>

definition timing_line :: "string \<times> agent_metrics \<Rightarrow> string" where
  "timing_line nm = ''  '' @ fst nm @ '': calls='' @ str_of_int (am_calls (snd nm)) @ '' errors='' @ str_of_int (am_errors (snd nm)) @
     '' avg_duration='' @ fmt_fixed 3 (avg_duration (snd nm)) @ ''s''"

definition cmd_metrics :: "metrics_registry \<Rightarrow> cost_tracker \<Rightarrow> int \<Rightarrow> string \<Rightarrow> state_manager \<Rightarrow> command_run" where
  "cmd_metrics reg ct cap today sm =
     (let costs = cost_get_summary ct;
          head_lines = [''=== Agent Metrics ===''] @ map timing_line (mr_agents reg) @ [''=== Tool Metrics ===''] @ map timing_line (mr_tools reg) @
            [''=== Token Usage ===''] @ map (\<lambda>(a, n). ''  '' @ a @ '': '' @ str_of_int n) (mr_tokens reg) @
            [''=== Cost Summary ==='', ''  Total spend: $'' @ fmt_fixed 6 (cs_total costs)] @
            map (\<lambda>(a, c). ''  '' @ a @ '': $'' @ fmt_fixed 6 c) (cs_by_agent costs)
      in case bindr (used_today today sm) (\<lambda>used. bindr (remaining_today cap today sm) (\<lambda>remaining. Inr (used, remaining))) of
           Inl e \<Rightarrow> (head_lines, Inl e)
         | Inr (used, remaining) \<Rightarrow>
            (let shown_cap = used + remaining;
                 pct = (if 0 < shown_cap then of_int used / of_int shown_cap * 100 else 0)
             in (head_lines @ [''=== Embed Quota (today) ==='', ''  Used:      '' @ pad_left 10 (str_of_int used) @ '' tokens'',
                  ''  Remaining: '' @ pad_left 10 (str_of_int remaining) @ '' tokens'',
                  ''  Cap:       '' @ pad_left 10 (str_of_int shown_cap) @ '' tokens  ('' @ fmt_fixed 1 pct @ ''% used)''] @
                 (if mr_agents reg = [] \<and> mr_tools reg = [] then [''  (No metrics recorded yet. Metrics are populated at runtime.)''] else []), Inr 0)))"

section \<open>The self-prompt command\<close>

definition prompt_line :: "self_prompt \<Rightarrow> string" where
  "prompt_line p = ''  ['' @ pad_right 9 (phase_value (sp_phase p)) @ ''] p='' @ str_of_int (sp_priority p) @
     '' gen='' @ str_of_int (sp_generation p) @ ''  '' @ sp_intent p"

definition dry_run_prompts ::
  "(string \<Rightarrow> string) \<Rightarrow> (real \<Rightarrow> string) \<Rightarrow> (string \<Rightarrow> iso_time) \<Rightarrow> coverage_xml \<Rightarrow> string option \<Rightarrow> real \<Rightarrow> state_manager \<Rightarrow> fs
    \<Rightarrow> (nat \<times> self_prompt list) result" where
  "dry_run_prompts sha frepr fromiso coverage queue_text now sm w =
     bindr (collect_coverage_signals coverage) (\<lambda>s1.
     bindr (collect_event_log_signals frepr 50 sm w) (\<lambda>s2.
     bindr (collect_backlog_signals frepr fromiso now 12 queue_text) (\<lambda>s3.
     bindr (dedup_window sm) (\<lambda>dd.
     bindr (synthesize sha dd 0 (s1 @ s2 @ s3)) (\<lambda>ps. Inr (length (s1 @ s2 @ s3), ps))))))"

definition cmd_self_prompt ::
  "(string \<Rightarrow> string) \<Rightarrow> (real \<Rightarrow> string) \<Rightarrow> (string \<Rightarrow> iso_time) \<Rightarrow> (iso_time \<Rightarrow> string) \<Rightarrow> (json list \<Rightarrow> json list)
    \<Rightarrow> bool \<Rightarrow> bool \<Rightarrow> bool \<Rightarrow> bool \<Rightarrow> nat \<Rightarrow> coverage_xml \<Rightarrow> string option \<Rightarrow> string \<Rightarrow> real \<Rightarrow> (nat \<Rightarrow> real)
    \<Rightarrow> state_manager \<Rightarrow> fs \<Rightarrow> state_manager \<times> fs \<times> command_run" where
  "cmd_self_prompt sha frepr fromiso isof set_order dry_run write enabled off_switch max_per_hour coverage queue_text queue_path now clock sm w =
     (if dry_run \<or> \<not> write then
        (sm, w, case dry_run_prompts sha frepr fromiso coverage queue_text now sm w of
           Inl e \<Rightarrow> ([], Inl e)
         | Inr (n, ps) \<Rightarrow> ((''signals='' @ str_of_nat n @ '' prompts='' @ str_of_nat (length ps) @ ''  (dry-run: queue untouched)'') # map prompt_line ps, Inr 0))
      else case run_once sha frepr fromiso isof set_order enabled off_switch max_per_hour coverage queue_text queue_path now clock sm w of
          (sm', w', Inl e) \<Rightarrow> (sm', w', [], Inl e)
        | (sm', w', Inr written) \<Rightarrow> (sm', w', (''wrote '' @ str_of_nat (length written) @ '' prompt(s) to '' @ queue_path) # map prompt_line written, Inr 0))"

section \<open>Interrupted workflows\<close>

text \<open>A workflow as the DBOS package lists it, times as whole numbers where it has any, and
  \<open>fromts\<close>, \<open>datetime.fromtimestamp\<close> as text.\<close>

record dbos_workflow =
  dw_id :: string
  dw_name :: string
  dw_status :: string
  dw_created :: "int option"
  dw_updated :: "int option"

record workflow_status =
  ws_id :: string
  ws_name :: string
  ws_status :: string
  ws_created :: "string option"
  ws_updated :: "string option"

definition when_given :: "(int \<Rightarrow> string result) \<Rightarrow> int option \<Rightarrow> string option result" where
  "when_given fromts t = (case t of None \<Rightarrow> Inr None | Some n \<Rightarrow> if n = 0 then Inr None else bindr (fromts n) (\<lambda>s. Inr (Some s)))"

fun interrupted :: "(int \<Rightarrow> string result) \<Rightarrow> dbos_workflow list \<Rightarrow> workflow_status list result" where
  "interrupted fromts [] = Inr []"
| "interrupted fromts (dw # dws) = bindr (when_given fromts (dw_created dw)) (\<lambda>c. bindr (when_given fromts (dw_updated dw)) (\<lambda>u.
     bindr (interrupted fromts dws) (\<lambda>rest.
       Inr (\<lparr>ws_id = dw_id dw, ws_name = dw_name dw, ws_status = dw_status dw, ws_created = c, ws_updated = u\<rparr> # rest))))"

definition list_interrupted_workflows :: "bool \<Rightarrow> (int \<Rightarrow> string result) \<Rightarrow> dbos_workflow list \<Rightarrow> workflow_status list result" where
  "list_interrupted_workflows enabled fromts pending = (if \<not> enabled then Inr [] else interrupted fromts pending)"

definition handle_dbos_recover :: "bool \<Rightarrow> (int \<Rightarrow> string result) \<Rightarrow> dbos_workflow list \<Rightarrow> command_run" where
  "handle_dbos_recover enabled fromts pending = (case list_interrupted_workflows enabled fromts pending of
      Inl e \<Rightarrow> ([], Inl e)
    | Inr dws \<Rightarrow> if dws = [] then ([''No interrupted workflows.''], Inr 0)
        else ((str_of_nat (length dws) @ '' interrupted workflow(s):'') # map (\<lambda>dw. ''  ['' @ ws_status dw @ ''] '' @ ws_id dw @ ''  '' @ ws_name dw @
          ''  created='' @ (case ws_created dw of None \<Rightarrow> ''None'' | Some t \<Rightarrow> t)) dws, Inr 0))"

definition resume_workflow :: "bool \<Rightarrow> (string \<Rightarrow> 'w \<Rightarrow> 'w \<times> json result) \<Rightarrow> string \<Rightarrow> 'w \<Rightarrow> 'w \<times> json result" where
  "resume_workflow enabled resume wid w =
     (if \<not> enabled then (w, Inr (JObj [(''resumed'', JBool False), (''error'', JStr ''DBOS not enabled'')]))
      else case resume wid w of (w', Inl e) \<Rightarrow> (w', Inl e) | (w', Inr v) \<Rightarrow> (w', Inr (JObj [(''resumed'', JBool True), (''result'', v)])))"

definition cancel_workflow :: "bool \<Rightarrow> (string \<Rightarrow> 'w \<Rightarrow> 'w \<times> unit result) \<Rightarrow> string \<Rightarrow> 'w \<Rightarrow> 'w \<times> json result" where
  "cancel_workflow enabled cancel wid w =
     (if \<not> enabled then (w, Inr (JObj [(''cancelled'', JBool False), (''error'', JStr ''DBOS not enabled'')]))
      else case cancel wid w of (w', Inl e) \<Rightarrow> (w', Inl e) | (w', Inr u) \<Rightarrow> (w', Inr (JObj [(''cancelled'', JBool True)])))"

section \<open>What the commands show\<close>

lemma print_rows_done: "print_rows f xs = (ls, Inr c) \<Longrightarrow> map f xs = map Inr ls \<and> c = 0"
proof (induction xs arbitrary: ls c)
  case (Cons x xs)
  then show ?case by (cases "print_rows f xs") (auto split: sum.splits)
qed simp

lemma print_rows_all: "map f xs = map Inr ls \<Longrightarrow> print_rows f xs = (ls, Inr 0)"
  by (induction xs arbitrary: ls) (auto simp: map_eq_Cons_conv)

lemma table_done: "table hs f xs = (ls, Inr c) \<Longrightarrow> \<exists>rows. ls = hs @ rows \<and> map f xs = map Inr rows \<and> c = 0"
  by (auto simp: table_def split: prod.splits dest: print_rows_done)

text \<open>The quota is listed as a task. After tokens were recorded the embedding budget lies
  among the tasks: a listing that ends without an error has a row for it, of unknown
  status and without a source.\<close>

theorem quota_listed_as_task:
  assumes "record_usage fromiso day today flt tmp tokens sm w = (sm', w', Inr n)" and "0 < tokens"
    and "fromiso ''status'' = None" and "fromiso ''source'' = None" and "cmd_tasks frepr None sm' = (ls, Inr c)"
  shows "pad_right 40 EMBED_STATE_KEY @ '' '' @ pad_right 12 ''UNKNOWN'' @ '' '' @ pad_right 15 [] \<in> set ls"
proof -
  obtain b where b: "sm_data sm' = dset EMBED_STATE_KEY (JObj (map (\<lambda>(k, v). (k, JInt v)) (prune fromiso day b))) (sm_data sm)"
    using assms(1,2) by (auto simp: record_usage_def save_bucket_def Let_def split: sum.splits if_splits prod.splits)
  let ?d = "map (\<lambda>(k, v). (k, JInt v)) (prune fromiso day b)"
  have none: "dget ?d ''status'' = None" "dget ?d ''source'' = None"
    using assms(3,4) by (auto simp: map_of_eq_None_iff prune_def)
  have row: "task_row frepr (EMBED_STATE_KEY, JObj ?d) = Inr (pad_right 40 EMBED_STATE_KEY @ '' '' @ pad_right 12 ''UNKNOWN'' @ '' '' @ pad_right 15 [])"
    by (simp add: task_row_def as_dict_def bindr_def dgetd_def none format_cell_def)
  have mem: "(EMBED_STATE_KEY, JObj ?d) \<in> set (get_all_tasks sm')"
    unfolding get_all_tasks_def b by (rule map_of_SomeD) simp
  then have "get_all_tasks sm' \<noteq> []" by auto
  with assms(5) have "table tasks_header (task_row frepr) (sort_key fst (get_all_tasks sm')) = (ls, Inr c)"
    by (simp add: cmd_tasks_def Let_def)
  from table_done [OF this] obtain rows where r: "ls = tasks_header @ rows" "map (task_row frepr) (sort_key fst (get_all_tasks sm')) = map Inr rows" by blast
  have "task_row frepr (EMBED_STATE_KEY, JObj ?d) \<in> set (map (task_row frepr) (sort_key fst (get_all_tasks sm')))"
    using mem by (simp del: get_all_tasks_def)
  then show ?thesis unfolding r(2) row r(1) by auto
qed

definition quota_manager :: state_manager where
  "quota_manager = \<lparr>sm_storage_type = ''json'', sm_base_filename = ''state.json'', sm_base_event_filename = ''events.jsonl'',
     sm_tenant_id = ''default'', sm_filename = ''state.json'', sm_event_filename = ''events.jsonl'', sm_data = []\<rparr>"

theorem quota_listed_as_task_witness:
  "\<exists>sm' w' ls. record_usage (\<lambda>k. if k = ''2026-01-02'' then Some 2 else None) 2 ''2026-01-02'' NoFault ''tmp'' 30 quota_manager \<lparr>docs = [], logs = []\<rparr> = (sm', w', Inr 30)
     \<and> cmd_tasks (\<lambda>x. []) None sm' = (ls, Inr 0)
     \<and> pad_right 40 EMBED_STATE_KEY @ '' '' @ pad_right 12 ''UNKNOWN'' @ '' '' @ pad_right 15 [] \<in> set ls"
proof -
  let ?f = "\<lambda>k. if k = ''2026-01-02'' then Some (2 :: int) else None"
  have "case record_usage ?f 2 ''2026-01-02'' NoFault ''tmp'' 30 quota_manager \<lparr>docs = [], logs = []\<rparr> of
      (sm', w', r) \<Rightarrow> r = Inr 30 \<and> snd (cmd_tasks (\<lambda>x. []) None sm') = Inr 0" by code_simp
  then obtain sm' w' ls where u: "record_usage ?f 2 ''2026-01-02'' NoFault ''tmp'' 30 quota_manager \<lparr>docs = [], logs = []\<rparr> = (sm', w', Inr 30)"
    "cmd_tasks (\<lambda>x. []) None sm' = (ls, Inr 0)"
    by (cases "record_usage ?f 2 ''2026-01-02'' NoFault ''tmp'' 30 quota_manager \<lparr>docs = [], logs = []\<rparr>") (auto simp: prod_eq_iff)
  from quota_listed_as_task [OF u(1) _ _ _ u(2)] u show ?thesis by auto
qed

text \<open>Which events are shown. A listing that ends without an error has the header and one row
  for every event asked for, in order: all for zero, the last so many for a positive number,
  all but the first so many for a negative one.\<close>

theorem events_tail_exact:
  assumes "cmd_events frepr None tail sm w = (ls, Inr c)" and "get_all_events sm w \<noteq> []"
  shows "\<exists>rows evs. ls = events_header @ rows \<and> map (cli_event_row frepr) evs = map Inr rows \<and> suffix evs (get_all_events sm w) \<and>
    length evs = (if tail = 0 then length (get_all_events sm w)
      else if 0 < tail then min (nat tail) (length (get_all_events sm w)) else length (get_all_events sm w) - nat (- tail))"
proof -
  let ?evs = "tail_slice tail (get_all_events sm w)"
  have "table events_header (cli_event_row frepr) ?evs = (ls, Inr c)"
    using assms by (simp add: cmd_events_def)
  from table_done [OF this] obtain rows where "ls = events_header @ rows" "map (cli_event_row frepr) ?evs = map Inr rows" by blast
  moreover have "suffix ?evs (get_all_events sm w)" by (simp add: tail_slice_def Let_def suffix_drop)
  moreover have "length ?evs = (if tail = 0 then length (get_all_events sm w)
      else if 0 < tail then min (nat tail) (length (get_all_events sm w)) else length (get_all_events sm w) - nat (- tail))"
    using assms(2) by (auto simp: tail_slice_def Let_def)
  ultimately show ?thesis by blast
qed

theorem events_tail_exact_witness:
  "\<exists>rows evs. fst (cmd_events (\<lambda>x. []) None 1 quota_manager \<lparr>docs = [], logs = [(''events.jsonl'', [Rec (JObj [(''task_id'', JStr ''a'')]), Rec (JObj [(''task_id'', JStr ''b'')])])]\<rparr>)
       = events_header @ rows \<and> length (evs :: json list) = 1"
proof -
  let ?w = "\<lparr>docs = [], logs = [(''events.jsonl'', [Rec (JObj [(''task_id'', JStr ''a'')]), Rec (JObj [(''task_id'', JStr ''b'')])])]\<rparr>"
  have ne: "get_all_events quota_manager ?w \<noteq> []" and two: "length (get_all_events quota_manager ?w) = 2"
    by (simp_all add: get_all_events_def quota_manager_def)
  have "snd (cmd_events (\<lambda>x. []) None 1 quota_manager ?w) = Inr 0" by code_simp
  then obtain ls where e: "cmd_events (\<lambda>x. []) None 1 quota_manager ?w = (ls, Inr 0)" by (metis prod.collapse)
  from events_tail_exact [OF e ne] e two show ?thesis by auto
qed

text \<open>A prompt that was put in is shown. After the command, the queue listing is the one of
  before with one more row, the time, the user and the first fifty characters.\<close>

theorem prompted_is_shown:
  assumes "cmd_prompt now message user w = (w', ls, Inr 0)" and "print_rows (queue_row frepr) (peek_prompts w) = (rows, Inr 0)"
  shows "cmd_queue frepr w' = (queue_header @ rows @
    [pad_right 28 now @ '' '' @ pad_right 15 (or_default user ''cli_user'') @ '' '' @ take 50 (join '' '' message)], Inr 0)"
proof -
  let ?e = "prompt_entry now (or_default user ''cli_user'') (join '' '' message)"
  have w': "peek_prompts w' = peek_prompts w @ [?e]"
    using assms(1) by (auto simp: cmd_prompt_def Let_def enqueue_prompt_def peek_append split: if_splits)
  have row: "queue_row frepr ?e = Inr (pad_right 28 now @ '' '' @ pad_right 15 (or_default user ''cli_user'') @ '' '' @ take 50 (join '' '' message))"
    by (simp add: queue_row_def prompt_entry_def as_dict_def bindr_def dgetd_def slice_text_def format_cell_def)
  have "print_rows (queue_row frepr) (peek_prompts w') = (rows @
      [pad_right 28 now @ '' '' @ pad_right 15 (or_default user ''cli_user'') @ '' '' @ take 50 (join '' '' message)], Inr 0)"
    using print_rows_done [OF assms(2)] by (intro print_rows_all) (simp add: w' row)
  then show ?thesis by (simp add: cmd_queue_def Let_def w' table_def)
qed

theorem prompted_is_shown_witness:
  "cmd_queue (\<lambda>x. []) (fst (cmd_prompt ''T1'' [''fix'', ''it''] None \<lparr>docs = [], logs = []\<rparr>)) =
     (queue_header @ [] @ [pad_right 28 ''T1'' @ '' '' @ pad_right 15 (or_default None ''cli_user'') @ '' '' @ take 50 (join '' '' [''fix'', ''it''])], Inr 0)"
proof (rule prompted_is_shown)
  show "cmd_prompt ''T1'' [''fix'', ''it''] None \<lparr>docs = [], logs = []\<rparr> =
      (fst (cmd_prompt ''T1'' [''fix'', ''it''] None \<lparr>docs = [], logs = []\<rparr>), fst (snd (cmd_prompt ''T1'' [''fix'', ''it''] None \<lparr>docs = [], logs = []\<rparr>)), Inr 0)"
    by (simp add: cmd_prompt_def Let_def)
  show "print_rows (queue_row (\<lambda>x. [])) (peek_prompts \<lparr>docs = [], logs = []\<rparr>) = ([], Inr 0)" by (simp add: peek_prompts_def)
qed

lemma dispatch_prefix:
  "dispatch isof q u ps pl sm w = (pl', sm', w', Inr acc) \<Longrightarrow> prefix acc (map snd ps)"
proof (induction ps arbitrary: pl sm w pl' sm' w' acc)
  case (Cons tp ps)
  then show ?case by (cases tp) (force split: prod.splits sum.splits bool.splits)
qed simp

text \<open>The dry run is a preview. What an enabled run would write is a beginning of what the dry
  run lists on the same files, cut only by the hourly limit; the dry run changes nothing and
  does not look at the switches.\<close>

theorem dry_run_previews:
  assumes "run_once sha frepr fromiso isof set_order True False mx coverage queue_text queue_path now clock sm w = (sm', w', Inr written)"
  shows "\<exists>n ps. dry_run_prompts sha frepr fromiso coverage queue_text now sm w = Inr (n, ps) \<and> prefix written ps \<and>
    cmd_self_prompt sha frepr fromiso isof set_order True write enabled off_switch mx coverage queue_text queue_path now clock sm w =
      (sm, w, (''signals='' @ str_of_nat n @ '' prompts='' @ str_of_nat (length ps) @ ''  (dry-run: queue untouched)'') # map prompt_line ps, Inr 0)"
proof -
  obtain s1 s2 s3 dd ps pl where s: "collect_coverage_signals coverage = Inr s1" "collect_event_log_signals frepr 50 sm w = Inr s2"
    "collect_backlog_signals frepr fromiso now 12 queue_text = Inr s3" "dedup_window sm = Inr dd" "synthesize sha dd 0 (s1 @ s2 @ s3) = Inr ps"
    "prompt_limiter_load fromiso mx sm = Inr pl"
    using assms by (auto simp: run_once_def bindr_def split: sum.splits)
  obtain pl1 sm1 w1 r where d: "dispatch isof queue_path ''self_prompt'' (zip (map clock [0..<length ps]) ps) pl sm w = (pl1, sm1, w1, r)"
    by (metis prod_cases4)
  from assms have "r = Inr written" by (auto simp: run_once_def bindr_def s d split: sum.splits prod.splits)
  with dispatch_prefix [of _ _ _ _ _ _ _ pl1 sm1 w1 written] d have "prefix written (map snd (zip (map clock [0..<length ps]) ps))" by blast
  then have "prefix written ps" by simp
  moreover have "dry_run_prompts sha frepr fromiso coverage queue_text now sm w = Inr (length (s1 @ s2 @ s3), ps)"
    by (simp add: dry_run_prompts_def bindr_def s)
  ultimately show ?thesis by (auto simp: cmd_self_prompt_def)
qed

definition blocked_log :: fs where
  "blocked_log = \<lparr>docs = [], logs = [(''events.jsonl'', [Rec (JObj [(''action'', JStr ''phase.transition.blocked''), (''task_id'', JStr ''t1'')])])]\<rparr>"

theorem dry_run_previews_witness:
  "\<exists>n ps. dry_run_prompts (\<lambda>s. s) (\<lambda>x. []) (\<lambda>s. BadIso) XmlMissing None 0 quota_manager blocked_log = Inr (n, ps) \<and> ps \<noteq> []"
proof -
  let ?run = "run_once (\<lambda>s. s) (\<lambda>x. []) (\<lambda>s. BadIso) (\<lambda>t. []) (\<lambda>vs. vs) True False 6 XmlMissing None ''q'' 0 (\<lambda>i. 0) quota_manager blocked_log"
  have "case ?run of (sm', w', Inr ps) \<Rightarrow> length ps = 1 | (sm', w', Inl e) \<Rightarrow> False" by code_simp
  then obtain sm' w' written where r: "?run = (sm', w', Inr written)" "length written = 1" by (auto split: prod.splits sum.splits)
  from dry_run_previews [OF r(1)] obtain n ps
    where "dry_run_prompts (\<lambda>s. s) (\<lambda>x. []) (\<lambda>s. BadIso) XmlMissing None 0 quota_manager blocked_log = Inr (n, ps)" "prefix written ps" by blast
  with r(2) show ?thesis by (auto simp: prefix_def)
qed

text \<open>Interrupted workflows cannot be listed. When a time in milliseconds is beyond what
  \<open>fromtimestamp\<close> can represent, as every such time since 1978 is, one pending workflow with
  it makes the command raise.\<close>

theorem recover_raises:
  assumes "\<And>t. 253402387200 \<le> t \<Longrightarrow> \<exists>e. fromts t = Inl e" and "dw \<in> set pending" and "dw_created dw = Some ms" and "253402387200 \<le> ms"
  shows "\<exists>e. handle_dbos_recover True fromts pending = ([], Inl e)"
proof -
  have "\<exists>e. interrupted fromts pending = Inl e"
    using assms(2)
  proof (induction pending)
    case (Cons x xs)
    then show ?case using assms(1) [OF assms(4)] assms(3,4)
      by (cases "x = dw") (auto simp: bindr_def when_given_def split: sum.splits)
  qed simp
  then show ?thesis by (auto simp: handle_dbos_recover_def list_interrupted_workflows_def)
qed

theorem recover_raises_witness:
  "\<exists>e. handle_dbos_recover True (\<lambda>t. if 253402300800 \<le> t then Inl (Exn ''ValueError'' ''year is out of range'') else Inr ''date'')
     [\<lparr>dw_id = ''w1'', dw_name = ''advance'', dw_status = ''PENDING'', dw_created = Some 1767225600000, dw_updated = None\<rparr>] = ([], Inl e)"
  by (rule recover_raises [where dw = "\<lparr>dw_id = ''w1'', dw_name = ''advance'', dw_status = ''PENDING'', dw_created = Some 1767225600000, dw_updated = None\<rparr>" and ms = 1767225600000]) simp_all

end
