(* ===== verification/Swarm_Shell.thy ===== *)
theory Swarm_Shell
  imports Swarm_Cli
begin

text \<open>
  The interactive shell of \<open>src/cli/interactive.py\<close>, with the prompt toolkit and without
  (\<open>plain\<close>), and the keys of the dashboard (\<open>src/cli/dashboard.py\<close>). What the user enters is
  a list of inputs; the command line's own \<open>main\<close>, behind its argument parser, is the
  argument \<open>main\<close>. The world is the control files and whatever else \<open>main\<close> acts on.
\<close>

datatype shell_input = Line string | Interrupt | EndOfFile

datatype cli_end = Returned int | SystemExit "int option" | Raised exn

datatype shell_out = ShowBanner | ShowHelp | ClearScreen | Say string

type_synonym 'x cli_main = "string list \<Rightarrow> control \<times> 'x \<Rightarrow> (control \<times> 'x) \<times> cli_end"

definition COMMANDS :: "string list" where
  "COMMANDS = [''status'', ''prompt'', ''stop'', ''tasks'', ''logs'', ''metrics'', ''events'', ''dashboard'', ''queue'', ''help'', ''clear'', ''exit'', ''quit'']"

definition exit_line :: "int \<Rightarrow> shell_out list" where
  "exit_line n = (if n = 0 then [] else [Say (''Command exited with code '' @ str_of_int n)])"

definition dispatch_command :: "'x cli_main \<Rightarrow> string \<Rightarrow> string list \<Rightarrow> control \<times> 'x \<Rightarrow> (control \<times> 'x) \<times> shell_out list" where
  "dispatch_command main command args w = (case main (command # args) w of
      (w', Returned n) \<Rightarrow> (w', exit_line n)
    | (w', SystemExit None) \<Rightarrow> (w', [])
    | (w', SystemExit (Some n)) \<Rightarrow> (w', exit_line n)
    | (w', Raised e) \<Rightarrow> (w', [Say (''Error: '' @ exn_msg e)]))"

text \<open>One line: the world, what is shown, and whether the shell ends.\<close>

definition handle_line :: "'x cli_main \<Rightarrow> string \<Rightarrow> control \<times> 'x \<Rightarrow> (control \<times> 'x) \<times> shell_out list \<times> bool" where
  "handle_line main text0 w = (let text1 = strip text0 in
     if text1 = [] then (w, [], False)
     else (let parts = split_ws text1; command = lower (hd parts); args = tl parts in
       if command = ''exit'' \<or> command = ''quit'' then (w, [Say ''Exiting swarm shell.''], True)
       else if command = ''help'' then (w, [ShowHelp], False)
       else if command = ''clear'' then (w, [ClearScreen], False)
       else if \<not> List.member COMMANDS command then
         (w, [Say (''Unknown command: '' @ in_quotes command @ ''. Type '' @ in_quotes ''help'' @ '' for available commands.'')], False)
       else case dispatch_command main command args w of (w', out) \<Rightarrow> (w', out, False)))"

fun shell_loop :: "bool \<Rightarrow> 'x cli_main \<Rightarrow> shell_input list \<Rightarrow> control \<times> 'x \<Rightarrow> (control \<times> 'x) \<times> shell_out list \<times> bool" where
  "shell_loop plain main [] w = (w, [], False)"
| "shell_loop plain main (i # ins) w = (case i of
      Interrupt \<Rightarrow> if plain then (w, [Say ''Exiting...''], True)
        else (case shell_loop plain main ins w of (w', out, e) \<Rightarrow> (w', Say (''Use '' @ in_quotes ''exit'' @ '' to quit.'') # out, e))
    | EndOfFile \<Rightarrow> (w, [Say ''Exiting...''], True)
    | Line t \<Rightarrow> (case handle_line main t w of
        (w1, out1, True) \<Rightarrow> (w1, out1, True)
      | (w1, out1, False) \<Rightarrow> (case shell_loop plain main ins w1 of (w', out, e) \<Rightarrow> (w', out1 @ out, e))))"

definition run_interactive :: "bool \<Rightarrow> 'x cli_main \<Rightarrow> shell_input list \<Rightarrow> control \<times> 'x \<Rightarrow> (control \<times> 'x) \<times> shell_out list \<times> bool" where
  "run_interactive plain main ins w =
     (case shell_loop plain main ins (clear_shutdown (fst w), snd w) of (w', out, e) \<Rightarrow>
        (w', (if plain then [Say ''prompt_toolkit is not installed; falling back to plain input.''] else []) @ ShowBanner # out, e))"

section \<open>The dashboard\<close>

record dashboard =
  db_paused :: bool
  db_running :: bool

definition handle_input :: "string \<Rightarrow> dashboard \<times> (metrics_registry \<times> fs) \<Rightarrow> dashboard \<times> (metrics_registry \<times> fs)" where
  "handle_input key s = (let d = fst s in
     if key = ''q'' then (d\<lparr>db_running := False\<rparr>, snd s)
     else if key = ''p'' then (d\<lparr>db_paused := \<not> db_paused d\<rparr>, snd s)
     else if key = ''r'' then (d, reset_metrics (snd s))
     else s)"

section \<open>What the shell runs\<close>

definition command_of :: "string \<Rightarrow> (string \<times> string list) option" where
  "command_of t = (case split_ws (strip t) of [] \<Rightarrow> None | c # args \<Rightarrow> Some (lower c, args))"

definition ends_shell :: "bool \<Rightarrow> shell_input \<Rightarrow> bool" where
  "ends_shell plain i = (case i of EndOfFile \<Rightarrow> True | Interrupt \<Rightarrow> plain
     | Line t \<Rightarrow> (case command_of t of None \<Rightarrow> False | Some (c, args) \<Rightarrow> c = ''exit'' \<or> c = ''quit''))"

definition runs_command :: "shell_input \<Rightarrow> (string \<times> string list) option" where
  "runs_command i = (case i of Line t \<Rightarrow> (case command_of t of
        Some (c, args) \<Rightarrow> if List.member COMMANDS c \<and> \<not> List.member [''exit'', ''quit'', ''help'', ''clear''] c then Some (c, args) else None
      | None \<Rightarrow> None)
    | _ \<Rightarrow> None)"

lemma input_simps [simp]:
  "ends_shell plain Interrupt = plain" "ends_shell plain EndOfFile" "runs_command Interrupt = None" "runs_command EndOfFile = None"
  by (simp_all add: ends_shell_def runs_command_def)

lemma runs_known: "runs_command i = Some (c, args) \<Longrightarrow> c \<in> set COMMANDS"
  by (auto simp: runs_command_def split: shell_input.splits option.splits if_splits)

lemma split_ws_aux_some: "cur \<noteq> [] \<Longrightarrow> split_ws_aux s cur \<noteq> []"
  by (induction s arbitrary: cur) auto

lemma split_ws_aux_none: "split_ws_aux s [] = [] \<longleftrightarrow> list_all is_space s"
proof (induction s)
  case (Cons c s)
  then show ?case using split_ws_aux_some [of "[c]" s] by auto
qed simp

lemma strip_spaces: "list_all is_space (strip t) \<longleftrightarrow> strip t = []"
proof
  assume a: "list_all is_space (strip t)"
  show "strip t = []"
  proof (rule ccontr)
    assume n: "strip t \<noteq> []"
    then have "rev (strip t) \<noteq> []" by simp
    then have "\<not> is_space (hd (rev (strip t)))"
      unfolding strip_def rstrip_def rev_rev_ident by (rule hd_dropWhile)
    with n a show False by (simp add: hd_rev list_all_iff)
  qed
qed simp

lemma command_of_none: "command_of t = None \<longleftrightarrow> strip t = []"
  using split_ws_aux_none [of "strip t"] strip_spaces [of t]
  by (auto simp: command_of_def split_ws_def split: list.splits)

lemma dispatch_world: "fst (dispatch_command main c args w) = fst (main (c # args) w)"
  by (auto simp: dispatch_command_def split: prod.splits cli_end.splits option.splits)

lemma handle_line_eq:
  "fst (handle_line main t w) = (case runs_command (Line t) of None \<Rightarrow> w | Some (c, args) \<Rightarrow> fst (main (c # args) w))
   \<and> snd (snd (handle_line main t w)) = ends_shell plain (Line t)"
proof (cases "command_of t")
  case None
  then have "strip t = []" by (simp only: command_of_none)
  with None show ?thesis by (simp add: handle_line_def runs_command_def ends_shell_def)
next
  case (Some ca)
  obtain c args where ca: "ca = (c, args)" by (cases ca)
  have n: "strip t \<noteq> []" using Some command_of_none [of t] by auto
  have p: "lower (hd (split_ws (strip t))) = c" "tl (split_ws (strip t)) = args"
    using Some by (auto simp: ca command_of_def split: list.splits)
  show ?thesis using dispatch_world [of main c args w] n
    by (auto simp: handle_line_def Let_def p runs_command_def ends_shell_def Some ca split: prod.splits)
qed

lemma shell_loop_eq:
  "fst (shell_loop plain main ins w) = fold (\<lambda>(c, args) w. fst (main (c # args) w)) (List.map_filter runs_command (takeWhile (\<lambda>i. \<not> ends_shell plain i) ins)) w
   \<and> (snd (snd (shell_loop plain main ins w)) \<longleftrightarrow> list_ex (ends_shell plain) ins)"
proof (induction ins arbitrary: w)
  case (Cons i ins)
  show ?case
  proof (cases i)
    case (Line t)
    obtain w1 out1 e where h: "handle_line main t w = (w1, out1, e)" by (metis prod_cases3)
    from handle_line_eq [of main t w plain] h
    have f: "w1 = (case runs_command (Line t) of None \<Rightarrow> w | Some (c, args) \<Rightarrow> fst (main (c # args) w))" "e = ends_shell plain (Line t)" by simp_all
    show ?thesis
    proof (cases e)
      case True
      then have "runs_command (Line t) = None"
        using f(2) by (auto simp: ends_shell_def runs_command_def split: option.splits)
      with True f h Line show ?thesis by (simp add: map_filter_simps)
    next
      case False
      with f h Line Cons [of w1] show ?thesis by (auto simp: map_filter_simps split: prod.splits option.splits)
    qed
  next
    case Interrupt
    with Cons [of w] show ?thesis by (auto simp: map_filter_simps split: prod.splits)
  next
    case EndOfFile
    then show ?thesis by (simp add: map_filter_simps)
  qed
qed (simp add: map_filter_simps)

text \<open>What a session runs. The commands that a session gives to the command line are those of
  the lines before the first that ends it, in order, the first word in lower case and the rest
  as it is; whatever a command returns or raises, the session goes on; it ends exactly
  with such an input; and no command of the shell is one of the phase, pull request, self
  prompt or recovery commands.\<close>

theorem shell_runs_exact:
  "fst (run_interactive plain main ins (c, x)) =
     fold (\<lambda>(cmd, args) w. fst (main (cmd # args) w)) (List.map_filter runs_command (takeWhile (\<lambda>i. \<not> ends_shell plain i) ins)) (clear_shutdown c, x)
   \<and> (snd (snd (run_interactive plain main ins (c, x))) \<longleftrightarrow> list_ex (ends_shell plain) ins)
   \<and> fst ` set (List.map_filter runs_command ins) \<inter> {''phase'', ''prs'', ''self-prompt'', ''dbos''} = {}"
proof -
  have "fst ` set (List.map_filter runs_command ins) \<subseteq> set COMMANDS" by (induction ins) (auto simp: map_filter_simps dest: runs_known split: option.splits)
  moreover have "set COMMANDS \<inter> {''phase'', ''prs'', ''self-prompt'', ''dbos''} = {}" by (simp add: COMMANDS_def)
  ultimately have "fst ` set (List.map_filter runs_command ins) \<inter> {''phase'', ''prs'', ''self-prompt'', ''dbos''} = {}" by blast
  with shell_loop_eq [of plain main ins "(clear_shutdown c, x)"] show ?thesis
    by (auto simp: run_interactive_def split: prod.splits)
qed

text \<open>Opening the shell cancels a stop. A session is the same with and without a request to
  stop made before it, and before its first command there is none.\<close>

theorem shell_cancels_stop:
  "run_interactive plain main ins (fst (cmd_stop now c), x) = run_interactive plain main ins (clear_shutdown c, x) \<and>
   \<not> is_shutdown_requested (fst (fst (run_interactive plain main [] (fst (cmd_stop now c), x))))"
  by (simp add: run_interactive_def cmd_stop_def request_shutdown_def clear_shutdown_def is_shutdown_requested_def)

text \<open>Pressing pause twice is no pause; quitting keeps the metrics, resetting loses them.\<close>

lemma dashboard_keys:
  "handle_input ''p'' (handle_input ''p'' s) = s"
  "snd (handle_input ''q'' s) = snd s"
  "mr_agents (fst (snd (handle_input ''r'' s))) = []"
  by (cases s; simp add: handle_input_def reset_metrics_def Let_def split: prod.splits)+

end
