(* ===== verification/Web_Tools.thy ===== *)
theory Web_Tools
  imports Metrics
begin

text \<open>
  The web tools of \<open>src/tools/web_search.py\<close> and \<open>src/tools/scraper.py\<close>. The search engine
  is the argument \<open>engine\<close>, how the attempt of each number ends, the browser \<open>browse\<close>, how
  a visit ends.
\<close>

section \<open>Searching\<close>

type_synonym web_hit = "(string, string) dict"

definition hit_text :: "web_hit \<Rightarrow> string result" where
  "hit_text r = (case (dget r ''title'', dget r ''body'', dget r ''href'') of
      (None, _, _) \<Rightarrow> Inl (Exn ''KeyError'' (repr_str ''title''))
    | (_, None, _) \<Rightarrow> Inl (Exn ''KeyError'' (repr_str ''body''))
    | (_, _, None) \<Rightarrow> Inl (Exn ''KeyError'' (repr_str ''href''))
    | (Some t, Some b, Some h) \<Rightarrow> Inr (''Title: '' @ t @ [CHR 0x0A] @ ''Snippet: '' @ b @ [CHR 0x0A] @ ''URL: '' @ h))"

fun hit_texts :: "web_hit list \<Rightarrow> string list result" where
  "hit_texts [] = Inr []"
| "hit_texts (r # rs) = bindr (hit_text r) (\<lambda>t. bindr (hit_texts rs) (\<lambda>ts. Inr (t # ts)))"

text \<open>One attempt: whatever the engine raises is retryable, what formatting raises is not.\<close>

definition search_attempt :: "web_hit list result \<Rightarrow> string result" where
  "search_attempt outcome = (case outcome of
      Inl e \<Rightarrow> Inl (Exn ''WebSearchRetryableError'' (exn_msg e))
    | Inr [] \<Rightarrow> Inr ''No results found.''
    | Inr rs \<Rightarrow> bindr (hit_texts rs) (\<lambda>ts. Inr (join [CHR 0x0A, CHR 0x0A] ts)))"

definition MAX_ATTEMPTS :: nat where "MAX_ATTEMPTS = 3"

text \<open>The retries, from attempt \<open>i\<close> on with \<open>n\<close> left after it; the last error is raised.\<close>

fun search_with_retry :: "(nat \<Rightarrow> web_hit list result) \<Rightarrow> nat \<Rightarrow> nat \<Rightarrow> string result" where
  "search_with_retry engine i 0 = search_attempt (engine i)"
| "search_with_retry engine i (Suc n) = (case search_attempt (engine i) of
      Inr s \<Rightarrow> Inr s
    | Inl e \<Rightarrow> if exn_type e = ''WebSearchRetryableError'' then search_with_retry engine (i + 1) n else Inl e)"

definition search_web :: "(nat \<Rightarrow> web_hit list result) \<Rightarrow> string" where
  "search_web engine = (case search_with_retry engine 1 (MAX_ATTEMPTS - 1) of
      Inr s \<Rightarrow> s | Inl e \<Rightarrow> ''Search Error: '' @ exn_msg e)"

section \<open>Scraping\<close>

definition scrape_outcome :: "string list \<Rightarrow> (string \<Rightarrow> string result) \<Rightarrow> string \<Rightarrow> string" where
  "scrape_outcome allowlist browse url =
     (if allowlist \<noteq> [] \<and> \<not> list_ex (\<lambda>d. contains url d) allowlist then ''Error: Domain '' @ url @ '' not in allowlist''
      else case browse url of Inr content \<Rightarrow> content | Inl e \<Rightarrow> ''Error scraping '' @ url @ '': '' @ exn_msg e)"

definition scrape ::
  "real \<Rightarrow> real \<Rightarrow> string list \<Rightarrow> (string \<Rightarrow> string result) \<Rightarrow> string \<Rightarrow> metrics_registry \<times> fs \<Rightarrow> (metrics_registry \<times> fs) \<times> string result" where
  "scrape start stop allowlist browse url rw = tool_timer ''ScraperTool'' start stop (Inr (scrape_outcome allowlist browse url)) rw"

section \<open>What they return\<close>

lemma hit_text_type: "hit_text r = Inl e \<Longrightarrow> exn_type e = ''KeyError''"
  by (auto simp: hit_text_def split: option.splits)

lemma hit_texts_type: "hit_texts rs = Inl e \<Longrightarrow> exn_type e = ''KeyError''"
  by (induction rs) (auto simp: bindr_def hit_text_type split: sum.splits)

lemma attempt_retryable: "search_attempt o1 = Inl e \<Longrightarrow> exn_type e = ''WebSearchRetryableError'' \<longleftrightarrow> (\<exists>f. o1 = Inl f)"
  by (auto simp: search_attempt_def bindr_def dest: hit_texts_type hit_text_type split: sum.splits list.splits)

lemma attempt_failed: "search_attempt (Inl f) = Inl (Exn ''WebSearchRetryableError'' (exn_msg f))"
  by (simp add: search_attempt_def)

lemma search_with_retry_exact:
  "search_with_retry engine i n = search_attempt (engine (case find (\<lambda>j. \<exists>rs. engine j = Inr rs) [i..<i + n] of Some j \<Rightarrow> j | None \<Rightarrow> i + n))"
proof (induction n arbitrary: i)
  case (Suc n)
  have u: "[i..<i + Suc n] = i # [Suc i..<Suc i + n]" by (simp add: upt_rec)
  show ?case
  proof (cases "engine i")
    case (Inl f)
    have "search_with_retry engine i (Suc n) = search_with_retry engine (Suc i) n" by (simp add: Inl attempt_failed)
    then show ?thesis unfolding u by (simp add: Suc Inl del: search_with_retry.simps upt_Suc upt_Suc_append cong: option.case_cong)
  next
    case (Inr rs)
    have "search_with_retry engine i (Suc n) = search_attempt (engine i)"
      using attempt_retryable [of "engine i"] by (auto simp: Inr split: sum.splits)
    then show ?thesis unfolding u by (simp add: Inr del: search_with_retry.simps upt_Suc upt_Suc_append)
  qed
qed simp

text \<open>A search is tried three times. What is answered is what the first attempt that the engine
  serves gives, or the third when it serves none: the hits in order, a notice when there are
  none, and a text for every failure; a search never raises.\<close>

theorem search_web_exact:
  "search_web engine =
     (case engine (if \<exists>rs. engine 1 = Inr rs then 1 else if \<exists>rs. engine 2 = Inr rs then 2 else 3) of
        Inl e \<Rightarrow> ''Search Error: '' @ exn_msg e
      | Inr rs \<Rightarrow> if rs = [] then ''No results found.''
          else case hit_texts rs of Inr ts \<Rightarrow> join [CHR 0x0A, CHR 0x0A] ts | Inl e \<Rightarrow> ''Search Error: '' @ exn_msg e)"
proof -
  have u: "[1..<1 + (MAX_ATTEMPTS - 1)] = [1, 2]" by (simp add: MAX_ATTEMPTS_def upt_rec)
  have "search_with_retry engine 1 (MAX_ATTEMPTS - 1) =
      search_attempt (engine (if \<exists>rs. engine 1 = Inr rs then 1 else if \<exists>rs. engine 2 = Inr rs then 2 else 3))"
    unfolding search_with_retry_exact u by (simp add: MAX_ATTEMPTS_def numeral_3_eq_3)
  then show ?thesis
    by (auto simp: search_web_def search_attempt_def bindr_def split: sum.splits list.splits)
qed

text \<open>The allow list does not bind. With any domain on the list, every address is visited once
  the domain is put behind it, as a query or part of the path.\<close>

theorem allowlist_bypassed:
  assumes "d \<in> set allowlist"
  shows "scrape_outcome allowlist browse (url @ ''?'' @ d) =
    (case browse (url @ ''?'' @ d) of Inr content \<Rightarrow> content | Inl e \<Rightarrow> ''Error scraping '' @ (url @ ''?'' @ d) @ '': '' @ exn_msg e)"
proof -
  have "contains (url @ ''?'' @ d) d" unfolding contains_def sublist_def by (intro exI [of _ "url @ ''?''"] exI [of _ "[]"]) simp
  then have "list_ex (\<lambda>d'. contains (url @ ''?'' @ d) d') allowlist" using assms by (auto simp: list_ex_iff)
  then show ?thesis by (simp only: scrape_outcome_def not_True_eq_False simp_thms if_False)
qed

theorem allowlist_bypassed_witness:
  "scrape_outcome [''github.com'', ''google.com''] (\<lambda>u. Inr ''page'') (''http://169.254.169.254/latest'' @ ''?'' @ ''github.com'') = ''page''"
  by (subst allowlist_bypassed) simp_all

end
