(* ===== verification/Spec2Isabelle.thy ===== *)
theory Spec2Isabelle
  imports Phase_Store Queue_Manager FinOps Tenants Tournament Memory_Graph Planner Model_Router Model_Performance Embedder Retrieval_Properties Retrieval_Sync Sdlc_Publishing Autonomous_Loop Builder_Safety Pulse Prompt_Enhancer Phase_Api Web_Metrics Main_Loop Refactor_Agent Ideator Dspy_Modules Logging Mcp_Server Memori_Client Swarm_Shell Web_Tools
begin

text \<open>
  A verification library of gadk, a swarm of agents that plans, builds, reviews and ships
  code under a phase-gated development life cycle (Python, under \<open>src/src\<close>).

  \<^bold>\<open>How the parts interact.\<close> A task lives in the state file; its phase moves from plan to
  operate through the phase controller, whose gates look at what the agents produced. The
  autonomous engine takes tasks through discovery, planning, building, review with bounded
  rework and delivery, over the planner, the GitHub tool and the state manager. The main
  process serves a queue of prompts that the command line, the web routes and the
  self-prompt thread fill. Costs, tokens and calls are counted on the way, retrieval gives
  context to the prompts, and the tournament and memory components learn from outcomes.

  \<^bold>\<open>Parts of the program and where they are modelled.\<close>
  \<^item> Shared. \<open>Prelude\<close>: results, dictionaries in insertion order, reachability, sorting.
    \<open>PyText\<close>: strings, JSON values and rounding of Python. \<open>Regex\<close>, \<open>Json_Text\<close>, \<open>Scan\<close>: the
    patterns, the JSON reader and writer, and the scanners the sources use. \<open>Effects\<close>:
    programs that change a state and may raise, with a logic of triples.
  \<^item> Life cycle. \<open>Phases\<close> (\<open>services/sdlc_phase.py\<close>), \<open>Content_Guards\<close>
    (\<open>tools/content_guards.py\<close>), \<open>Quality_Gates\<close> (\<open>services/quality_gates.py\<close>),
    \<open>Phase_Controller\<close> (\<open>services/phase_controller.py\<close>), \<open>Workflow_Graphs\<close>
    (\<open>services/workflow_graphs.py\<close>), \<open>Phase_Store\<close> (\<open>services/phase_store.py\<close>), \<open>Phase_Api\<close>
    (\<open>webapp/routers/tasks.py\<close>, the phase commands, \<open>services/dbos_phase_workflow.py\<close>).
  \<^item> State. \<open>State_Manager\<close> (\<open>state.py\<close>, \<open>utils/file_lock.py\<close>): tasks on a JSON file with an
    event log; the file system is the record \<open>fs\<close>. \<open>Tenants\<close> (\<open>services/tenant_manager.py\<close>).
    \<open>Filesystem\<close> (\<open>tools/filesystem.py\<close>): the sandboxed files, with symbolic links.
  \<^item> Control. \<open>Swarm_Ctl\<close> (\<open>cli/swarm_ctl.py\<close>): sentinel, PID file, prompt queue. \<open>Main_Loop\<close>
    (\<open>main.py\<close>). \<open>Swarm_Cli\<close> (\<open>cli/swarm_cli.py\<close>, \<open>services/dbos_recovery.py\<close>), \<open>Swarm_Shell\<close>
    (\<open>cli/interactive.py\<close>, \<open>cli/dashboard.py\<close>).
  \<^item> Execution. \<open>Rate_Limiter\<close>, \<open>Task_Queue\<close>, \<open>Queue_Pool\<close>, \<open>Queue_Refinement\<close>,
    \<open>Queue_Properties\<close>, \<open>Queue_Manager\<close> (\<open>services/task_queue.py\<close>): the asynchronous queue as
    steps between its awaits, the abstract pool it implements, invariants of all reachable
    states.
  \<^item> Tools and contracts. \<open>Capabilities\<close> (\<open>src/capabilities\<close>, \<open>tools/dispatcher.py\<close>),
    \<open>Mcp_Server\<close> (\<open>mcp/server.py\<close>), \<open>Contracts\<close> (agent contracts, structured output, agent
    decisions), \<open>Planner\<close> (\<open>planner.py\<close>), \<open>GitHub_Tool\<close> (\<open>tools/github_tool.py\<close>), \<open>Web_Tools\<close>
    (\<open>tools/web_search.py\<close>, \<open>tools/scraper.py\<close>).
  \<^item> Models and memory. \<open>Model_Router\<close>, \<open>Model_Performance\<close>, \<open>Vector_Index\<close>, \<open>Embedder\<close>,
    \<open>Retrieval\<close>, \<open>Retrieval_Properties\<close>, \<open>Retrieval_Sync\<close>, \<open>Prompt_Enhancer\<close>
    (\<open>services\<close> files of these names), \<open>Graph_Store\<close> and \<open>Memory_Graph\<close> (\<open>memory\<close>),
    \<open>Memori_Client\<close> (\<open>services/memori_client.py\<close>), \<open>Dspy_Modules\<close> (\<open>src/dspy\<close>).
  \<^item> Agents. \<open>Governance\<close> (governor, architect, critic), \<open>Sdlc_Engine\<close>, \<open>Sdlc_Properties\<close>,
    \<open>Sdlc_Safety\<close>, \<open>Sdlc_Publishing\<close> (\<open>autonomous_sdlc.py\<close>), \<open>Blueprint\<close>, \<open>Blueprint_Order\<close>,
    \<open>Autonomous_Loop\<close> (\<open>orchestration\<close>, \<open>services/autonomous_loop.py\<close>), \<open>Builder\<close> and
    \<open>Builder_Safety\<close> (\<open>agents/builder.py\<close>), \<open>Pulse\<close>, \<open>FinOps\<close>, \<open>Refactor_Agent\<close>, \<open>Ideator\<close> (the
    agents of these names), \<open>Self_Prompt\<close> (\<open>services/self_prompt.py\<close>), \<open>Tournament\<close>
    (\<open>harness\<close>).
  \<^item> Observation. \<open>Metrics\<close>, \<open>Cost_Tracker\<close>, \<open>Embed_Quota\<close>, \<open>Logging\<close> (\<open>observability\<close>,
    \<open>services/embed_quota.py\<close>), \<open>State_Reader\<close>, \<open>Web_Events\<close>, \<open>Web_Metrics\<close> (\<open>webapp\<close>).

  \<^bold>\<open>How the code appears.\<close> A class is a record of its attributes, a method a function from
  the record and the files to the new ones and a result, a raise the left side of that
  result; every early return is a branch. Code between two awaits is one step. Clocks,
  random draws, renderings of floats and what packages outside the repository do are
  arguments of the definitions that use them.

  \<^bold>\<open>What the lemmas show.\<close> For the life cycle: what may advance a phase, that ledgers are
  chains of allowed steps, that storing loses nothing. For state and costs: no update is
  lost, tenants do not meet, sums are conserved. For the queue: refinement of the pool, no
  task lost, exact figures, order by priority, and where it deadlocks. For the sandbox and
  the planner: which files and tools can be reached. For the engine and the agents: only
  reviewed work is published, every loop ends, and which promises of the agents fail. For
  the main process: which prompts are served, lost or answered. For the web, the shell and
  the logs: what a reader sees and does not see. Several theorems state behaviour that the
  comments of the code deny; the manifest lists them as findings.

  \<^bold>\<open>Interfaces.\<close> The locales are \<open>keyed_store\<close> (dictionary, task store, vector index),
  \<open>transition_system\<close> (phase ledger, pool, queue, tenants), \<open>gate_contract\<close> (every gate),
  \<open>bounded_decision\<close> (rework and retry), \<open>budget\<close> (embedding quota), \<open>api_host\<close> (the GitHub
  calls, on the offline host), \<open>engine_frame\<close> and \<open>publishing_frame\<close> (what the engine's
  operations keep). Each is interpreted on the definitions of the component that provides
  it.

  \<^bold>\<open>Bounds and fuel.\<close> The breadth-first search has one unit for every node and ends with the
  nodes; the JSON reader has twice the length of the text and two, more than it can consume;
  path resolution counts the links of the tree; the planner loop its iterations; the rework
  loop needs more fuel than retries, and \<open>rework_ends\<close> shows that it then ends; the engine is
  run for its cycle limit and one; sorting a plan takes one round for every step; the loops
  of the main process take one unit for every iteration of the given world; the walk over
  exceptions removes one unseen object in every step; a search has three attempts.

  \<^bold>\<open>Not modelled.\<close> The objects of the agent framework with their instructions, and the
  session service, are configuration (\<open>agents/orchestrator.py\<close>, \<open>services/session_store.py\<close>
  and the wiring of every agent). Of \<open>config.py\<close> only the fallback chain of models is
  modelled: the rest declares settings and tables for the settings package. The argument
  parser of the command line, the tables of the dashboard, the toolbank catalogue, the mount
  points of the web server and the browser front end render or route what other theories
  compute. The doubles under \<open>testing\<close> serve the tests. Subprocesses, HTTP, databases, the
  graph and vector libraries and the model calls are parameters, never definitions.
\<close>

end
